(* ===== verification/Prelude.thy ===== *)
theory Prelude
  imports Main "HOL-Library.Word"
begin

text \<open>
  Shared vocabulary of the development: the machine integer types of the C++ sources,
  the lemmas on ring indices, words and lists that several components use, and the
  theorem collections the component proofs are driven by.

  \<^item> \<open>u8 .. u64\<close> are the unsigned integers of the code, where \<open>+\<close> wraps.
    Signed time stamps (microseconds, \<open>int64_t\<close>) are \<open>int\<close>: the code only adds and
    compares them, far away from the ends of their range.
  \<^item> \<open>model_defs\<close> collects the definitions of constants and small accessors.
  \<^item> \<open>ring_idx\<close> collects what is known about indices of ring buffers.
\<close>

type_synonym u8 = "8 word"
type_synonym u16 = "16 word"
type_synonym u32 = "32 word"
type_synonym u64 = "64 word"

named_theorems model_defs \<open>constants and small accessors of the models\<close>
named_theorems ring_idx \<open>facts about indices of ring buffers\<close>

section \<open>Ring indices\<close>

lemma mod_add_inj:
  fixes a i j n :: nat
  assumes "(a + i) mod n = (a + j) mod n" and "i < n" and "j < n"
  shows "i = j"
proof -
  have "(int a + int i) mod int n = (int a + int j) mod int n"
    using assms(1) by (metis of_nat_add zmod_int)
  then have "int n dvd (int i - int j)" by (simp add: mod_eq_dvd_iff)
  moreover have "\<bar>int i - int j\<bar> < int n" using assms by auto
  ultimately have "int i - int j = 0"
    by (meson dvd_abs_iff zdvd_not_zless zero_less_abs_iff)
  then show ?thesis by simp
qed

lemma mod_add_eq_iff [ring_idx]:
  fixes a i j n :: nat
  assumes "i < n" and "j < n"
  shows "(a + i) mod n = (a + j) mod n \<longleftrightarrow> i = j"
  using assms mod_add_inj by blast

unbundle bit_operations_syntax

lemma unat_and_15 [ring_idx]: "unat ((w :: u64) AND 15) = unat w mod 16"
proof -
  have "(15 :: u64) = mask 4" by (simp add: mask_eq_exp_minus_1)
  then show ?thesis
    by (simp only: take_bit_eq_mask[symmetric] unsigned_take_bit_eq) (simp add: take_bit_eq_mod)
qed

lemma unat_of_nat_u64_mod16 [ring_idx]: "unat (word_of_nat k :: u64) mod 16 = k mod 16"
  by (simp add: unsigned_of_nat take_bit_eq_mod mod_mod_cancel)

lemma unat_of_nat_diff_u64 [ring_idx]:
  assumes "h \<le> t" and "t - h < 2 ^ 64"
  shows "unat (word_of_nat t - word_of_nat h :: u64) = t - h"
proof -
  obtain k where "t = h + k" using assms(1) le_Suc_ex by blast
  with assms(2) show ?thesis by (simp add: unat_of_nat)
qed

lemma unat_diff_Suc:
  fixes t h :: "'a::len word"
  assumes "Suc (unat (t - h)) < 2 ^ LENGTH('a)"
  shows "unat (t + 1 - h) = Suc (unat (t - h))"
proof -
  have eq: "t + 1 - h = (t - h) + 1" by simp
  have "unat ((t - h) + 1) = unat (t - h) + unat (1 :: 'a word)"
    using assms by (intro unat_add_lem[THEN iffD1]) simp
  then show ?thesis by (simp only: eq) simp
qed

lemma unat_diff_pred:
  fixes t h :: "'a::len word"
  assumes "t \<noteq> h"
  shows "unat (t - (h + 1)) = unat (t - h) - 1"
proof -
  have eq: "t - (h + 1) = (t - h) - 1" by simp
  have "1 \<le> t - h" using assms by (simp add: word_le_nat_alt Suc_leI unat_gt_0)
  then show ?thesis by (simp only: eq unat_sub) simp
qed

section \<open>Widening conversions\<close>

lemma unat_ucast_up:
  assumes "LENGTH('a) \<le> LENGTH('b)"
  shows "unat (ucast (w :: 'a::len word) :: 'b::len word) = unat w"
proof -
  have "unat w < 2 ^ LENGTH('b)"
    by (rule order_less_le_trans[OF unsigned_less]) (simp add: assms)
  then show ?thesis by (simp add: unsigned_ucast_eq take_bit_nat_eq_self)
qed

lemma unat_ucast_u32_u64 [simp]: "unat (ucast (w :: u32) :: u64) = unat w"
  by (rule unat_ucast_up) simp

section \<open>COM initialisation\<close>

datatype com_result = S_OK | S_FALSE | RPC_E_CHANGED_MODE | ComFailed

section \<open>Fixed numbers of steps\<close>

lemma funpow_unfold:
  "(f ^^ 2) x = f (f x)"
  "(f ^^ 3) x = f (f (f x))"
  "(f ^^ 4) x = f (f (f (f x)))"
  "(f ^^ 7) x = f (f (f (f (f (f (f x))))))"
  by (simp_all add: numeral_eq_Suc)

section \<open>Steps that may fail\<close>

text \<open>A fallible step answers whether it succeeded, with the state it leaves in either case;
  \<open>seq_ok r f\<close> continues with \<open>f\<close> only after a success, as a chain of early returns does.\<close>

definition seq_ok :: "bool \<times> 's \<Rightarrow> ('s \<Rightarrow> bool \<times> 's) \<Rightarrow> bool \<times> 's" where
  "seq_ok r f = (case r of (ok, s) \<Rightarrow> if ok then f s else (False, s))"

lemma seq_ok_inv:
  assumes "P (snd r)" and "\<And>s. r = (True, s) \<Longrightarrow> P s \<Longrightarrow> P (snd (f s))"
  shows "P (snd (seq_ok r f))"
  using assms by (cases r) (auto simp: seq_ok_def)

lemma seq_ok_True: "seq_ok r f = (True, s') \<longleftrightarrow> (\<exists>s. r = (True, s) \<and> f s = (True, s'))"
  by (cases r) (auto simp: seq_ok_def)

lemma seq_ok_False:
  "seq_ok r f = (False, s') \<longleftrightarrow> r = (False, s') \<or> (\<exists>s. r = (True, s) \<and> f s = (False, s'))"
  by (cases r) (auto simp: seq_ok_def)

lemma seq_ok_simps [simp]:
  "seq_ok (False, s) f = (False, s)"
  "seq_ok (True, s) f = f s"
  by (simp_all add: seq_ok_def)

end
