(* ===== verification/Fifo.thy ===== *)
theory Fifo
  imports Prelude
begin

text \<open>
  The contract of the two single-producer single-consumer queues of the program (the audio
  ring and the frame command ring): a bounded first-in first-out queue seen through its
  abstract contents. \<open>bounded_fifo\<close> states the laws, the lemmas proved in it
  speak of whole runs of operations, and each ring interprets it on its own operations.
\<close>

datatype 'a fifo_op = Enq 'a | Deq

text \<open>Running a sequence of operations: the accepted arguments, the delivered elements
  and the final state.\<close>

fun fifo_run ::
  "('a \<Rightarrow> 's \<Rightarrow> bool \<times> 's) \<Rightarrow> ('s \<Rightarrow> 'b option \<times> 's) \<Rightarrow> 'a fifo_op list \<Rightarrow> 's \<Rightarrow>
   'a list \<times> 'b list \<times> 's" where
  "fifo_run enq deq [] s = ([], [], s)"
| "fifo_run enq deq (Enq a # ops) s =
    (case enq a s of (ok, s1) \<Rightarrow>
     case fifo_run enq deq ops s1 of (acc, out, s2) \<Rightarrow> (if ok then a # acc else acc, out, s2))"
| "fifo_run enq deq (Deq # ops) s =
    (case deq s of (r, s1) \<Rightarrow>
     case fifo_run enq deq ops s1 of (acc, out, s2) \<Rightarrow>
       (acc, case r of None \<Rightarrow> out | Some b \<Rightarrow> b # out, s2))"

fun enqs :: "'a fifo_op list \<Rightarrow> 'a list" where
  "enqs [] = []"
| "enqs (Enq a # ops) = a # enqs ops"
| "enqs (Deq # ops) = enqs ops"

lemma enqs_map_Enq [simp]: "enqs (map Enq xs) = xs"
  by (induction xs) auto

locale bounded_fifo =
  fixes enq :: "'a \<Rightarrow> 's \<Rightarrow> bool \<times> 's"
    and deq :: "'s \<Rightarrow> 'b option \<times> 's"
    and contents :: "'s \<Rightarrow> 'b list"
    and inv :: "'s \<Rightarrow> bool"
    and pre :: "'a \<Rightarrow> bool"
    and valid :: "'a \<Rightarrow> bool"
    and view :: "'a \<Rightarrow> 'b"
    and cap :: nat
  assumes enq_inv: "inv s \<Longrightarrow> pre a \<Longrightarrow> inv (snd (enq a s))"
    and enq_ok: "inv s \<Longrightarrow> pre a \<Longrightarrow> fst (enq a s) \<longleftrightarrow> valid a \<and> length (contents s) < cap"
    and enq_contents:
      "inv s \<Longrightarrow> pre a \<Longrightarrow>
        contents (snd (enq a s)) = contents s @ (if fst (enq a s) then [view a] else [])"
    and deq_inv: "inv s \<Longrightarrow> inv (snd (deq s))"
    and deq_result: "inv s \<Longrightarrow> fst (deq s) = (case contents s of [] \<Rightarrow> None | x # _ \<Rightarrow> Some x)"
    and deq_contents: "inv s \<Longrightarrow> contents (snd (deq s)) = tl (contents s)"
    and bounded: "inv s \<Longrightarrow> length (contents s) \<le> cap"
begin

lemma run_inv:
  "inv s \<Longrightarrow> list_all pre (enqs ops) \<Longrightarrow> fifo_run enq deq ops s = (acc, out, s') \<Longrightarrow> inv s'"
proof (induction ops arbitrary: s acc out)
  case (Cons x ops)
  then show ?case
    by (cases x) (auto split: prod.splits dest: enq_inv deq_inv simp: prod_eq_iff
        intro: Cons.IH[rotated 2])
qed simp

text \<open>Conservation and order: what was delivered, followed by what is still queued, is what
  was queued before followed by what was accepted.\<close>

lemma run_fifo:
  "inv s \<Longrightarrow> list_all pre (enqs ops) \<Longrightarrow> fifo_run enq deq ops s = (acc, out, s') \<Longrightarrow>
   out @ contents s' = contents s @ map view acc"
proof (induction ops arbitrary: s acc out s')
  case (Cons x ops)
  show ?case
  proof (cases x)
    case (Enq a)
    obtain ok s1 where e: "enq a s = (ok, s1)" by fastforce
    obtain acc1 out1 s2 where r: "fifo_run enq deq ops s1 = (acc1, out1, s2)" by (metis prod_cases3)
    have "out1 @ contents s2 = contents s1 @ map view acc1"
      using Cons.IH[OF _ _ r] enq_inv[OF Cons.prems(1), of a] Cons.prems(2) e Enq by simp
    with Cons.prems e r Enq enq_contents[OF Cons.prems(1), of a] show ?thesis by auto
  next
    case Deq
    obtain d s1 where e: "deq s = (d, s1)" by fastforce
    obtain acc1 out1 s2 where r: "fifo_run enq deq ops s1 = (acc1, out1, s2)" by (metis prod_cases3)
    have "out1 @ contents s2 = contents s1 @ map view acc1"
      using Cons.IH[OF _ _ r] deq_inv[OF Cons.prems(1)] Cons.prems(2) e Deq by simp
    with Cons.prems e r Deq deq_result[OF Cons.prems(1)] deq_contents[OF Cons.prems(1)]
    show ?thesis by (auto split: list.splits)
  qed
qed simp

lemma run_enq_all:
  assumes "inv s" and "list_all pre xs" and "list_all valid xs"
    and "length (contents s) + length xs \<le> cap"
  shows "\<exists>s'. fifo_run enq deq (map Enq xs) s = (xs, [], s')"
  using assms
proof (induction xs arbitrary: s)
  case (Cons a xs)
  have pre: "pre a" using Cons.prems by simp
  obtain ok s1 where e: "enq a s = (ok, s1)" by fastforce
  with Cons.prems enq_ok[OF Cons.prems(1) pre] have ok: "ok" by simp
  have "length (contents s1) = Suc (length (contents s))"
    using enq_contents[OF Cons.prems(1) pre] e ok by simp
  with Cons.prems have "length (contents s1) + length xs \<le> cap" by simp
  then obtain s' where "fifo_run enq deq (map Enq xs) s1 = (xs, [], s')"
    using Cons.IH enq_inv[OF Cons.prems(1) pre] e Cons.prems by auto
  with e ok show ?case by simp
qed simp

lemma run_deq_all:
  assumes "inv s"
  shows "\<exists>s'. fifo_run enq deq (replicate (length (contents s)) Deq) s = ([], contents s, s')
    \<and> contents s' = [] \<and> inv s'"
  using assms
proof (induction "length (contents s)" arbitrary: s)
  case (Suc n)
  then obtain x xs where c: "contents s = x # xs" by (metis Suc_length_conv)
  obtain r s1 where e: "deq s = (r, s1)" by fastforce
  with deq_result[OF Suc.prems] deq_contents[OF Suc.prems] deq_inv[OF Suc.prems] c
  have r: "r = Some x" "contents s1 = xs" "inv s1" by auto
  with Suc.hyps(1)[of s1] Suc.hyps(2) c
  obtain s' where "fifo_run enq deq (replicate (length xs) Deq) s1 = ([], xs, s')"
    "contents s' = []" "inv s'" by auto
  with c e r show ?case by auto
qed auto

text \<open>A burst that fits is accepted whole and comes out as it went in.\<close>

lemma run_burst:
  assumes "inv s" and "contents s = []" and "list_all pre xs" and "list_all valid xs"
    and "length xs \<le> cap"
  shows "\<exists>s' s''. fifo_run enq deq (map Enq xs) s = (xs, [], s') \<and>
    fifo_run enq deq (replicate (length xs) Deq) s' = ([], map view xs, s'') \<and> contents s'' = []"
proof -
  obtain s' where s': "fifo_run enq deq (map Enq xs) s = (xs, [], s')"
    using run_enq_all[of s xs] assms by auto
  have "contents s' = map view xs" "inv s'"
    using run_fifo[OF assms(1) _ s'] run_inv[OF assms(1) _ s'] assms by auto
  with run_deq_all[of s'] s' show ?thesis by auto
qed

end

end
