(* ===== verification/AudioRing.thy ===== *)
theory AudioRing
  imports Fifo
begin

text \<open>
  \<open>src/src/pipeline/audio/audio_ring.h\<close>: the lock-free ring between the WASAPI capture
  thread (producer, \<open>push\<close>) and the encode thread (consumer, \<open>consume\<close>).

  The first part models the two operations as functions on the ring's state and shows them
  to be a bounded first-in first-out queue. The second part splits both operations into the
  atomic actions of the code (one load, store or slot write each), interleaves the two
  threads freely, and shows that the slot being written is never the slot being read and
  that the consumer sees the published chunks in order. Samples are the 32-bit patterns of
  the floats; the callback of \<open>consume\<close> is modelled by the value it receives.
\<close>

unbundle bit_operations_syntax

section \<open>The ring and its sequential operations\<close>

type_synonym sample = u32

definition ring_kCapacity :: u64 where [model_defs]: "ring_kCapacity = 16"
definition ring_kMaxSamplesPerChunk :: u64 where [model_defs]: "ring_kMaxSamplesPerChunk = 8192"
definition ring_kMask :: u64 where [model_defs]: "ring_kMask = ring_kCapacity - 1"

record slot =
  sl_pts_us :: int
  sl_frames :: u32
  sl_channels :: u32
  sl_sample_rate :: u32
  sl_count :: u32
  sl_data :: "sample list"

record audio_ring =
  ar_slots :: "slot list"
  ar_head :: u64
  ar_tail :: u64
  ar_dropped_full :: u32
  ar_rejected_invalid :: u32

text \<open>The arguments of one \<open>push\<close>; \<open>None\<close> is the null pointer.\<close>

record push_args =
  pa_samples :: "sample list option"
  pa_frames :: u32
  pa_channels :: u32
  pa_sample_rate :: u32
  pa_pts_us :: int

definition empty_slot :: slot where
  "empty_slot = \<lparr>sl_pts_us = 0, sl_frames = 0, sl_channels = 0, sl_sample_rate = 0, sl_count = 0,
     sl_data = replicate 8192 0\<rparr>"

definition audio_ring_init :: audio_ring where
  "audio_ring_init = \<lparr>ar_slots = replicate 16 empty_slot, ar_head = 0, ar_tail = 0,
     ar_dropped_full = 0, ar_rejected_invalid = 0\<rparr>"

definition ring_index :: "u64 \<Rightarrow> nat" where
  "ring_index w = unat (w AND ring_kMask)"

definition push_n :: "push_args \<Rightarrow> u64" where
  "push_n a = ucast (pa_frames a) * ucast (pa_channels a)"

definition push_invalid :: "push_args \<Rightarrow> bool" where
  "push_invalid a \<longleftrightarrow>
     pa_samples a = None \<or> push_n a = 0 \<or> push_n a > ring_kMaxSamplesPerChunk"

text \<open>\<open>memcpy\<close> over a fixed size array: the first \<open>n\<close> elements are overwritten.\<close>

definition overwrite_prefix :: "nat \<Rightarrow> 'a list \<Rightarrow> 'a list \<Rightarrow> 'a list" where
  "overwrite_prefix n src dst = take n src @ drop n dst"

definition slot_write_header :: "push_args \<Rightarrow> slot \<Rightarrow> slot" where
  "slot_write_header a s = s\<lparr>sl_pts_us := pa_pts_us a, sl_frames := pa_frames a,
     sl_channels := pa_channels a, sl_sample_rate := pa_sample_rate a,
     sl_count := ucast (push_n a)\<rparr>"

definition slot_write_data :: "push_args \<Rightarrow> slot \<Rightarrow> slot" where
  "slot_write_data a s =
     s\<lparr>sl_data := overwrite_prefix (unat (push_n a)) (the (pa_samples a)) (sl_data s)\<rparr>"

definition audio_push :: "push_args \<Rightarrow> audio_ring \<Rightarrow> bool \<times> audio_ring" where
  "audio_push a r =
    (if push_invalid a then
       (False, r\<lparr>ar_rejected_invalid := ar_rejected_invalid r + 1\<rparr>)
     else if ar_tail r - ar_head r \<ge> ring_kCapacity then
       (False, r\<lparr>ar_dropped_full := ar_dropped_full r + 1\<rparr>)
     else
       let i = ring_index (ar_tail r);
           s = slot_write_data a (slot_write_header a (ar_slots r ! i))
       in (True, r\<lparr>ar_slots := (ar_slots r)[i := s], ar_tail := ar_tail r + 1\<rparr>))"

text \<open>What the callback is given: the sample pointer, which may be read for \<open>frames * channels\<close>
  elements, and the header fields.\<close>

record chunk =
  ch_samples :: "sample list"
  ch_frames :: u32
  ch_channels :: u32
  ch_sample_rate :: u32
  ch_pts_us :: int

definition slot_chunk :: "slot \<Rightarrow> chunk" where
  "slot_chunk s = \<lparr>ch_samples = take (unat (sl_frames s * sl_channels s)) (sl_data s),
     ch_frames = sl_frames s, ch_channels = sl_channels s, ch_sample_rate = sl_sample_rate s,
     ch_pts_us = sl_pts_us s\<rparr>"

definition audio_consume :: "audio_ring \<Rightarrow> chunk option \<times> audio_ring" where
  "audio_consume r =
    (if ar_head r = ar_tail r then (None, r)
     else (Some (slot_chunk (ar_slots r ! ring_index (ar_head r))),
           r\<lparr>ar_head := ar_head r + 1\<rparr>))"

definition audio_ring_size :: "audio_ring \<Rightarrow> u32" where
  "audio_ring_size r = ucast (ar_tail r - ar_head r)"

definition audio_ring_empty :: "audio_ring \<Rightarrow> bool" where
  "audio_ring_empty r \<longleftrightarrow> audio_ring_size r = 0"

definition audio_ring_dropped :: "audio_ring \<Rightarrow> u32" where
  "audio_ring_dropped r = ar_dropped_full r + ar_rejected_invalid r"

section \<open>Abstract contents and invariant\<close>

definition push_chunk :: "push_args \<Rightarrow> chunk" where
  "push_chunk a = \<lparr>ch_samples = take (unat (push_n a)) (the (pa_samples a)),
     ch_frames = pa_frames a, ch_channels = pa_channels a, ch_sample_rate = pa_sample_rate a,
     ch_pts_us = pa_pts_us a\<rparr>"

text \<open>The caller's side of the contract: the buffer holds the samples it announces.\<close>

definition push_wf :: "push_args \<Rightarrow> bool" where
  "push_wf a \<longleftrightarrow> (case pa_samples a of None \<Rightarrow> True | Some xs \<Rightarrow> unat (push_n a) \<le> length xs)"

definition ring_len :: "audio_ring \<Rightarrow> nat" where
  "ring_len r = unat (ar_tail r - ar_head r)"

definition ring_slot :: "audio_ring \<Rightarrow> nat \<Rightarrow> slot" where
  "ring_slot r i = ar_slots r ! ((unat (ar_head r) + i) mod 16)"

definition ring_contents :: "audio_ring \<Rightarrow> chunk list" where
  "ring_contents r = map (\<lambda>i. slot_chunk (ring_slot r i)) [0..<ring_len r]"

definition ring_inv :: "audio_ring \<Rightarrow> bool" where
  "ring_inv r \<longleftrightarrow> length (ar_slots r) = 16 \<and> list_all (\<lambda>s. length (sl_data s) = 8192) (ar_slots r)
     \<and> ring_len r \<le> 16"

lemma ring_inv_init: "ring_inv audio_ring_init"
  by (simp add: ring_inv_def audio_ring_init_def ring_len_def empty_slot_def list_all_iff)

lemma ring_contents_init: "ring_contents audio_ring_init = []"
  by (simp add: ring_contents_def audio_ring_init_def ring_len_def)

lemma ring_index_eq [ring_idx]: "ring_index w = unat w mod 16"
  by (simp add: ring_index_def model_defs unat_and_15)

lemma ring_index_less [simp]: "ring_index w < 16"
  by (simp add: ring_index_eq)

lemma unat_add_mod16 [ring_idx]: "(unat (v + w :: u64)) mod 16 = (unat v + unat w) mod 16"
  by (simp add: unat_word_ariths mod_mod_cancel)

lemma ring_index_tail [ring_idx]: "ring_index (ar_tail r) = (unat (ar_head r) + ring_len r) mod 16"
proof -
  have "ar_tail r = ar_head r + (ar_tail r - ar_head r)" by simp
  then show ?thesis unfolding ring_index_eq ring_len_def by (metis unat_add_mod16)
qed

lemma length_ring_contents [simp]: "length (ring_contents r) = ring_len r"
  by (simp add: ring_contents_def)

lemma ring_full_iff: "ar_tail r - ar_head r \<ge> ring_kCapacity \<longleftrightarrow> 16 \<le> ring_len r"
  by (simp add: ring_len_def model_defs word_le_nat_alt)

lemma ring_len_0_iff: "ring_len r = 0 \<longleftrightarrow> ar_head r = ar_tail r"
  by (auto simp: ring_len_def unat_eq_0)

lemma push_n_bound:
  assumes "\<not> push_invalid a"
  shows "unat (push_n a) \<le> 8192" and "0 < unat (push_n a)"
  using assms by (auto simp: push_invalid_def model_defs word_less_nat_alt not_less unat_gt_0)

text \<open>The 64-bit product that \<open>push\<close> checks is the true product, so a chunk that is
  accepted has the 32-bit product the consumer computes as its sample count.\<close>

lemma push_n_exact: "unat (push_n a) = unat (pa_frames a) * unat (pa_channels a)"
proof -
  have "unat (pa_frames a) * unat (pa_channels a) < 2 ^ 32 * 2 ^ 32"
    by (intro mult_strict_mono order_less_le_trans[OF unsigned_less]) simp_all
  then show ?thesis
    by (simp add: push_n_def unat_word_ariths)
qed

lemma push_count_exact:
  assumes "\<not> push_invalid a"
  shows "unat (pa_frames a * pa_channels a) = unat (push_n a)"
  using push_n_bound[OF assms] by (simp add: unat_word_ariths push_n_exact)

lemma slot_chunk_written:
  assumes "\<not> push_invalid a" "push_wf a" "length (sl_data s) = 8192"
  shows "slot_chunk (slot_write_data a (slot_write_header a s)) = push_chunk a"
  using assms push_n_bound[OF assms(1)] push_count_exact[OF assms(1)]
  by (auto simp: slot_chunk_def slot_write_data_def slot_write_header_def push_chunk_def
      overwrite_prefix_def push_wf_def push_invalid_def split: option.splits)

lemma slot_data_written [simp]:
  assumes "\<not> push_invalid a" "push_wf a" "length (sl_data s) = 8192"
  shows "length (sl_data (slot_write_data a (slot_write_header a s))) = 8192"
  using assms push_n_bound[OF assms(1)]
  by (auto simp: slot_write_data_def slot_write_header_def overwrite_prefix_def push_wf_def
      push_invalid_def split: option.splits)

section \<open>The sequential ring is a bounded queue\<close>

lemma push_rejected_or_full:
  "ring_inv r \<Longrightarrow> push_wf a \<Longrightarrow>
   fst (audio_push a r) \<longleftrightarrow> \<not> push_invalid a \<and> length (ring_contents r) < 16"
  by (auto simp: audio_push_def Let_def ring_full_iff)

lemma ring_len_push:
  assumes "ring_len r < 16"
  shows "ring_len (r\<lparr>ar_slots := ss, ar_tail := ar_tail r + 1\<rparr>) = Suc (ring_len r)"
  using assms by (simp add: ring_len_def unat_diff_Suc)

lemma ring_inv_push:
  assumes "ring_inv r" and "push_wf a"
  shows "ring_inv (snd (audio_push a r))"
proof (cases "push_invalid a \<or> 16 \<le> ring_len r")
  case True
  with assms show ?thesis
    by (auto simp: audio_push_def ring_full_iff ring_inv_def ring_len_def)
next
  case False
  with assms show ?thesis
    by (auto simp: audio_push_def ring_full_iff ring_inv_def Let_def ring_len_push list_all_length
        nth_list_update)
qed

lemma ring_contents_push:
  assumes "ring_inv r" and "push_wf a"
  shows "ring_contents (snd (audio_push a r)) =
    ring_contents r @ (if fst (audio_push a r) then [push_chunk a] else [])"
proof (cases "push_invalid a \<or> 16 \<le> ring_len r")
  case True
  then show ?thesis
    by (auto simp: audio_push_def ring_full_iff ring_contents_def ring_slot_def ring_len_def)
next
  case False
  let ?i = "ring_index (ar_tail r)"
  let ?s = "slot_write_data a (slot_write_header a (ar_slots r ! ?i))"
  let ?r = "r\<lparr>ar_slots := (ar_slots r)[?i := ?s], ar_tail := ar_tail r + 1\<rparr>"
  have len: "length (ar_slots r) = 16" using assms by (simp add: ring_inv_def)
  have data: "length (sl_data (ar_slots r ! ?i)) = 8192"
    using assms by (simp add: ring_inv_def list_all_length)
  have "slot_chunk (ring_slot ?r i) =
      (if i = ring_len r then push_chunk a else slot_chunk (ring_slot r i))" if "i \<le> ring_len r" for i
    using that False len slot_chunk_written[OF _ assms(2) data]
    by (auto simp: ring_slot_def ring_index_tail nth_list_update mod_add_eq_iff)
  then have "ring_contents ?r = ring_contents r @ [push_chunk a]"
    using False by (simp add: ring_contents_def ring_len_push)
  with False show ?thesis by (simp add: audio_push_def ring_full_iff Let_def)
qed

lemma ring_len_consume:
  "ar_head r \<noteq> ar_tail r \<Longrightarrow> ring_len (r\<lparr>ar_head := ar_head r + 1\<rparr>) = ring_len r - 1"
  using unat_diff_pred[of "ar_tail r" "ar_head r"] by (simp add: ring_len_def)

lemma ring_slot_consume:
  "ring_slot (r\<lparr>ar_head := ar_head r + 1\<rparr>) i = ring_slot r (Suc i)"
proof -
  have "unat (ar_head r + 1) mod 16 = (unat (ar_head r) + 1) mod 16"
    using unat_add_mod16[of "ar_head r" 1] by simp
  then have "(unat (ar_head r + 1) + i) mod 16 = ((unat (ar_head r) + 1) mod 16 + i) mod 16"
    by (metis mod_add_left_eq)
  then have "(unat (ar_head r + 1) + i) mod 16 = (unat (ar_head r) + Suc i) mod 16"
    by (simp add: mod_simps)
  then show ?thesis by (simp add: ring_slot_def)
qed

lemma ring_contents_consume:
  assumes "ring_inv r"
  shows "ring_contents (snd (audio_consume r)) = tl (ring_contents r)"
    and "fst (audio_consume r) = (case ring_contents r of [] \<Rightarrow> None | x # _ \<Rightarrow> Some x)"
proof -
  have "map (\<lambda>i. slot_chunk (ring_slot r (Suc i))) [0..<n - 1] =
      tl (map (\<lambda>i. slot_chunk (ring_slot r i)) [0..<n])" for n
    by (cases n) (simp_all add: map_upt_Suc del: upt_Suc)
  then show "ring_contents (snd (audio_consume r)) = tl (ring_contents r)"
    by (auto simp: audio_consume_def ring_contents_def ring_len_consume ring_slot_consume
        ring_len_0_iff[THEN iffD2])
  show "fst (audio_consume r) = (case ring_contents r of [] \<Rightarrow> None | x # _ \<Rightarrow> Some x)"
    using ring_len_0_iff[of r]
    by (cases "ring_len r")
      (auto simp: audio_consume_def ring_contents_def map_upt_Suc ring_slot_def ring_index_eq
        simp del: upt_Suc)
qed

lemma ring_inv_consume: "ring_inv r \<Longrightarrow> ring_inv (snd (audio_consume r))"
  by (auto simp: audio_consume_def ring_inv_def ring_len_consume)

lemma ring_len_bounded: "ring_inv r \<Longrightarrow> ring_len r \<le> 16"
  by (simp add: ring_inv_def)

interpretation audio_fifo: bounded_fifo audio_push audio_consume ring_contents ring_inv
  push_wf "\<lambda>a. \<not> push_invalid a" push_chunk 16
  by unfold_locales
    (simp_all add: ring_inv_push push_rejected_or_full ring_contents_push ring_inv_consume
      ring_contents_consume ring_len_bounded)

section \<open>The two threads, one atomic action at a time\<close>

text \<open>Program counters: what each thread has loaded and where it is. \<open>pub\<close> and \<open>got\<close> are
  history variables: the chunks published by a tail store and the chunks handed to the
  callback. The callback runs while the consumer is at \<open>CRead\<close>.\<close>

datatype producer_pc =
    PIdle
  | PLoadTail push_args
  | PLoadHead push_args u64
  | PCheck push_args u64 u64
  | PHeader push_args u64
  | PData push_args u64
  | PPublish push_args u64

datatype consumer_pc = CIdle | CLoadTail u64 | CCheck u64 u64 | CRead u64 | CAdvance u64

record spsc =
  sp_ring :: audio_ring
  sp_prod :: producer_pc
  sp_cons :: consumer_pc
  sp_pub :: "chunk list"
  sp_got :: "chunk list"

definition spsc_init :: spsc where
  "spsc_init = \<lparr>sp_ring = audio_ring_init, sp_prod = PIdle, sp_cons = CIdle, sp_pub = [], sp_got = []\<rparr>"

definition update_slot :: "u64 \<Rightarrow> (slot \<Rightarrow> slot) \<Rightarrow> audio_ring \<Rightarrow> audio_ring" where
  "update_slot t f r = r\<lparr>ar_slots := (ar_slots r)[ring_index t := f (ar_slots r ! ring_index t)]\<rparr>"

fun producer_step :: "push_args \<Rightarrow> spsc \<Rightarrow> spsc" where
  "producer_step a st = (let r = sp_ring st in
    case sp_prod st of
      PIdle \<Rightarrow>
        if push_invalid a
        then st\<lparr>sp_ring := r\<lparr>ar_rejected_invalid := ar_rejected_invalid r + 1\<rparr>\<rparr>
        else st\<lparr>sp_prod := PLoadTail a\<rparr>
    | PLoadTail b \<Rightarrow> st\<lparr>sp_prod := PLoadHead b (ar_tail r)\<rparr>
    | PLoadHead b t \<Rightarrow> st\<lparr>sp_prod := PCheck b t (ar_head r)\<rparr>
    | PCheck b t h \<Rightarrow>
        if t - h \<ge> ring_kCapacity
        then st\<lparr>sp_ring := r\<lparr>ar_dropped_full := ar_dropped_full r + 1\<rparr>, sp_prod := PIdle\<rparr>
        else st\<lparr>sp_prod := PHeader b t\<rparr>
    | PHeader b t \<Rightarrow> st\<lparr>sp_ring := update_slot t (slot_write_header b) r, sp_prod := PData b t\<rparr>
    | PData b t \<Rightarrow> st\<lparr>sp_ring := update_slot t (slot_write_data b) r, sp_prod := PPublish b t\<rparr>
    | PPublish b t \<Rightarrow> st\<lparr>sp_ring := r\<lparr>ar_tail := t + 1\<rparr>, sp_prod := PIdle,
        sp_pub := sp_pub st @ [push_chunk b]\<rparr>)"

fun consumer_step :: "spsc \<Rightarrow> spsc" where
  "consumer_step st = (let r = sp_ring st in
    case sp_cons st of
      CIdle \<Rightarrow> st\<lparr>sp_cons := CLoadTail (ar_head r)\<rparr>
    | CLoadTail h \<Rightarrow> st\<lparr>sp_cons := CCheck h (ar_tail r)\<rparr>
    | CCheck h t \<Rightarrow> if h = t then st\<lparr>sp_cons := CIdle\<rparr> else st\<lparr>sp_cons := CRead h\<rparr>
    | CRead h \<Rightarrow> st\<lparr>sp_cons := CAdvance h,
        sp_got := sp_got st @ [slot_chunk (ar_slots r ! ring_index h)]\<rparr>
    | CAdvance h \<Rightarrow> st\<lparr>sp_ring := r\<lparr>ar_head := h + 1\<rparr>, sp_cons := CIdle\<rparr>)"

inductive spsc_reach :: "spsc \<Rightarrow> bool" where
  reach_init: "spsc_reach spsc_init"
| reach_producer: "spsc_reach st \<Longrightarrow> push_wf a \<Longrightarrow> spsc_reach (producer_step a st)"
| reach_consumer: "spsc_reach st \<Longrightarrow> spsc_reach (consumer_step st)"

section \<open>The invariant of the interleaving\<close>

definition consumed_count :: "spsc \<Rightarrow> nat" where
  "consumed_count st = length (sp_got st) - (case sp_cons st of CAdvance _ \<Rightarrow> 1 | _ \<Rightarrow> 0)"

definition spsc_ring_ok :: "spsc \<Rightarrow> bool" where
  "spsc_ring_ok st \<longleftrightarrow> (let r = sp_ring st; H = consumed_count st; T = length (sp_pub st) in
     length (ar_slots r) = 16 \<and> (\<forall>i<16. length (sl_data (ar_slots r ! i)) = 8192) \<and>
     ar_tail r = word_of_nat T \<and> ar_head r = word_of_nat H \<and> H \<le> T \<and> T - H \<le> 16 \<and>
     (\<forall>i. H \<le> i \<and> i < T \<longrightarrow> slot_chunk (ar_slots r ! (i mod 16)) = sp_pub st ! i) \<and>
     take (length (sp_got st)) (sp_pub st) = sp_got st \<and> length (sp_got st) \<le> T)"

fun producer_ok :: "nat \<Rightarrow> nat \<Rightarrow> audio_ring \<Rightarrow> producer_pc \<Rightarrow> bool" where
  "producer_ok H T r PIdle = True"
| "producer_ok H T r (PLoadTail a) = (push_wf a \<and> \<not> push_invalid a)"
| "producer_ok H T r (PLoadHead a t) = (push_wf a \<and> \<not> push_invalid a \<and> t = word_of_nat T)"
| "producer_ok H T r (PCheck a t h) = (push_wf a \<and> \<not> push_invalid a \<and> t = word_of_nat T \<and>
     (\<exists>k\<le>H. h = word_of_nat k \<and> T - k \<le> 16))"
| "producer_ok H T r (PHeader a t) = (push_wf a \<and> \<not> push_invalid a \<and> t = word_of_nat T \<and> T - H < 16)"
| "producer_ok H T r (PData a t) = (push_wf a \<and> \<not> push_invalid a \<and> t = word_of_nat T \<and> T - H < 16 \<and>
     (\<exists>s. length (sl_data s) = 8192 \<and> ar_slots r ! (T mod 16) = slot_write_header a s))"
| "producer_ok H T r (PPublish a t) = (push_wf a \<and> \<not> push_invalid a \<and> t = word_of_nat T \<and> T - H < 16 \<and>
     slot_chunk (ar_slots r ! (T mod 16)) = push_chunk a)"

fun consumer_ok :: "nat \<Rightarrow> nat \<Rightarrow> nat \<Rightarrow> consumer_pc \<Rightarrow> bool" where
  "consumer_ok H T G CIdle = True"
| "consumer_ok H T G (CLoadTail h) = (h = word_of_nat H)"
| "consumer_ok H T G (CCheck h t) = (h = word_of_nat H \<and> (\<exists>k\<le>T. H \<le> k \<and> t = word_of_nat k))"
| "consumer_ok H T G (CRead h) = (h = word_of_nat H \<and> H < T)"
| "consumer_ok H T G (CAdvance h) = (h = word_of_nat H \<and> H < T \<and> G = Suc H)"

definition spsc_inv :: "spsc \<Rightarrow> bool" where
  "spsc_inv st \<longleftrightarrow> spsc_ring_ok st \<and>
     producer_ok (consumed_count st) (length (sp_pub st)) (sp_ring st) (sp_prod st) \<and>
     consumer_ok (consumed_count st) (length (sp_pub st)) (length (sp_got st)) (sp_cons st)"

lemma ring_index_of_nat [ring_idx]: "ring_index (word_of_nat k) = k mod 16"
  by (simp add: ring_index_eq unat_of_nat_u64_mod16)

lemma mod16_neq [ring_idx]: "i < T \<Longrightarrow> T - i < 16 \<Longrightarrow> i mod 16 \<noteq> T mod (16 :: nat)"
  using mod_add_inj[of i 0 16 "T - i"] by auto

lemma spsc_inv_init: "spsc_inv spsc_init"
  by (simp add: spsc_inv_def spsc_ring_ok_def spsc_init_def consumed_count_def audio_ring_init_def
      empty_slot_def)

lemma consumed_count_prod [simp]:
  "consumed_count (st\<lparr>sp_ring := r\<rparr>) = consumed_count st"
  "consumed_count (st\<lparr>sp_prod := p\<rparr>) = consumed_count st"
  "consumed_count (st\<lparr>sp_pub := l\<rparr>) = consumed_count st"
  by (simp_all add: consumed_count_def)

lemma update_slot_simps [simp]:
  "ar_head (update_slot t f r) = ar_head r"
  "ar_tail (update_slot t f r) = ar_tail r"
  "ar_slots (update_slot t f r) = (ar_slots r)[ring_index t := f (ar_slots r ! ring_index t)]"
  by (simp_all add: update_slot_def)

lemma word_of_nat_u64_diff:
  "k \<le> T \<Longrightarrow> T - k \<le> 16 \<Longrightarrow> unat (word_of_nat T - word_of_nat k :: u64) = T - k"
  by (intro unat_of_nat_diff_u64) auto

text \<open>A write to the free slot leaves every published, not yet consumed slot alone.\<close>

lemma spsc_ring_ok_write:
  assumes "spsc_ring_ok st" "length (sp_pub st) - consumed_count st < 16"
    and "\<And>s. length (sl_data s) = 8192 \<Longrightarrow> s = ar_slots (sp_ring st) ! (length (sp_pub st) mod 16) \<Longrightarrow>
      length (sl_data (f s)) = 8192"
  shows "spsc_ring_ok (st\<lparr>sp_ring := update_slot (word_of_nat (length (sp_pub st))) f (sp_ring st),
    sp_prod := p\<rparr>)"
  using assms
  by (auto simp: spsc_ring_ok_def Let_def ring_index_of_nat nth_list_update mod16_neq
      dest: mod16_neq)

lemma spsc_inv_producer:
  assumes inv: "spsc_inv st" and wf: "push_wf a"
  shows "spsc_inv (producer_step a st)"
proof -
  let ?T = "length (sp_pub st)" and ?H = "consumed_count st"
  have ring: "spsc_ring_ok st" and prod: "producer_ok ?H ?T (sp_ring st) (sp_prod st)"
    and cons: "consumer_ok ?H ?T (length (sp_got st)) (sp_cons st)"
    using inv by (simp_all add: spsc_inv_def)
  have HT: "?H \<le> ?T" "?T - ?H \<le> 16" and len: "length (ar_slots (sp_ring st)) = 16"
    and data: "length (sl_data (ar_slots (sp_ring st) ! (?T mod 16))) = 8192"
    using ring by (auto simp: spsc_ring_ok_def Let_def)
  show ?thesis
  proof (cases "sp_prod st")
    case PIdle
    then show ?thesis using inv wf by (auto simp: spsc_inv_def spsc_ring_ok_def Let_def)
  next
    case (PLoadTail b)
    then show ?thesis using inv by (auto simp: spsc_inv_def spsc_ring_ok_def Let_def)
  next
    case (PLoadHead b t)
    then show ?thesis using inv by (auto simp: spsc_inv_def spsc_ring_ok_def Let_def)
  next
    case (PCheck b t h)
    with prod obtain k where k: "k \<le> ?H" "h = word_of_nat k" "?T - k \<le> 16" "t = word_of_nat ?T"
      by auto
    then have "unat (t - h) = ?T - k" using HT word_of_nat_u64_diff by simp
    then have "t - h \<ge> ring_kCapacity \<or> ?T - ?H < 16"
      using k by (auto simp: word_le_nat_alt model_defs)
    with PCheck k inv show ?thesis
      by (auto simp: spsc_inv_def spsc_ring_ok_def Let_def)
  next
    case (PHeader b t)
    with prod have t: "t = word_of_nat ?T" "?T - ?H < 16" by auto
    have "spsc_ring_ok (producer_step a st)"
      using spsc_ring_ok_write[OF ring t(2), of "slot_write_header b"] PHeader t
      by (simp add: slot_write_header_def)
    then show ?thesis
      using PHeader prod cons len data by (auto simp: spsc_inv_def ring_index_of_nat)
  next
    case (PData b t)
    with prod obtain s where t: "t = word_of_nat ?T" "?T - ?H < 16" "push_wf b" "\<not> push_invalid b"
      and s: "length (sl_data s) = 8192" "ar_slots (sp_ring st) ! (?T mod 16) = slot_write_header b s"
      by auto
    have "spsc_ring_ok (producer_step a st)"
      using spsc_ring_ok_write[OF ring t(2), of "slot_write_data b"] PData t s by simp
    then show ?thesis
      using PData t s cons len slot_chunk_written[OF t(4,3) s(1)]
      by (auto simp: spsc_inv_def ring_index_of_nat)
  next
    case (PPublish b t)
    with prod have t: "t = word_of_nat ?T" "?T - ?H < 16"
      "slot_chunk (ar_slots (sp_ring st) ! (?T mod 16)) = push_chunk b" by auto
    have "spsc_ring_ok (producer_step a st)"
      using PPublish ring t by (auto simp: spsc_ring_ok_def Let_def nth_append less_Suc_eq Suc_diff_le)
    moreover have "consumer_ok ?H (Suc ?T) (length (sp_got st)) (sp_cons st)"
      using cons by (cases "sp_cons st") (auto intro: le_SucI)
    ultimately show ?thesis using PPublish by (simp add: spsc_inv_def)
  qed
qed

lemma producer_ok_mono:
  "producer_ok H T r p \<Longrightarrow> H \<le> H' \<Longrightarrow> ar_slots r' = ar_slots r \<Longrightarrow> producer_ok H' T r' p"
  by (cases p) (auto intro: order_trans)

lemma spsc_ring_ok_read:
  assumes ring: "spsc_ring_ok st" and pc: "sp_cons st = CRead h"
    and H: "consumed_count st < length (sp_pub st)"
  shows "spsc_ring_ok (st\<lparr>sp_cons := CAdvance k,
    sp_got := sp_got st @ [sp_pub st ! consumed_count st]\<rparr>)"
proof -
  have eq: "consumed_count st = length (sp_got st)" using pc by (simp add: consumed_count_def)
  let ?st = "st\<lparr>sp_cons := CAdvance k, sp_got := sp_got st @ [sp_pub st ! consumed_count st]\<rparr>"
  have cc: "consumed_count ?st = consumed_count st" using pc by (simp add: consumed_count_def)
  have "take (length (sp_got ?st)) (sp_pub st) = sp_got ?st"
    using ring H eq by (simp add: spsc_ring_ok_def Let_def take_Suc_conv_app_nth)
  then show ?thesis using ring H eq unfolding spsc_ring_ok_def Let_def cc by simp
qed

lemma spsc_ring_ok_advance:
  assumes ring: "spsc_ring_ok st" and pc: "sp_cons st = CAdvance h"
    and H: "consumed_count st < length (sp_pub st)" "length (sp_got st) = Suc (consumed_count st)"
  shows "spsc_ring_ok (st\<lparr>sp_ring := (sp_ring st)\<lparr>ar_head := ar_head (sp_ring st) + 1\<rparr>,
    sp_cons := CIdle\<rparr>)"
proof -
  let ?st = "st\<lparr>sp_ring := (sp_ring st)\<lparr>ar_head := ar_head (sp_ring st) + 1\<rparr>, sp_cons := CIdle\<rparr>"
  have "consumed_count ?st = length (sp_got st)" by (simp add: consumed_count_def)
  with H(2) have cc: "consumed_count ?st = Suc (consumed_count st)" by (simp only:)
  show ?thesis using ring H(1) unfolding spsc_ring_ok_def Let_def cc by auto
qed

lemma spsc_inv_consumer:
  assumes inv: "spsc_inv st"
  shows "spsc_inv (consumer_step st)"
proof -
  let ?T = "length (sp_pub st)" and ?H = "consumed_count st"
  have ring: "spsc_ring_ok st" and prod: "producer_ok ?H ?T (sp_ring st) (sp_prod st)"
    and cons: "consumer_ok ?H ?T (length (sp_got st)) (sp_cons st)"
    using inv by (simp_all add: spsc_inv_def)
  show ?thesis
  proof (cases "sp_cons st")
    case CIdle
    then show ?thesis using inv
      by (auto simp: spsc_inv_def spsc_ring_ok_def Let_def consumed_count_def)
  next
    case (CLoadTail h)
    then show ?thesis using inv
      by (auto simp: spsc_inv_def spsc_ring_ok_def Let_def consumed_count_def)
  next
    case (CCheck h t)
    with cons obtain k where "h = word_of_nat ?H" "k \<le> ?T" "?H \<le> k" "t = word_of_nat k" by auto
    then have "h = t \<or> ?H < ?T" by (cases "k = ?H") auto
    with CCheck inv show ?thesis
      by (auto simp: spsc_inv_def spsc_ring_ok_def Let_def consumed_count_def)
  next
    case (CRead h)
    then have h: "h = word_of_nat ?H" "?H < ?T" "?H = length (sp_got st)"
      using cons by (auto simp: consumed_count_def)
    then have "slot_chunk (ar_slots (sp_ring st) ! (?H mod 16)) = sp_pub st ! ?H"
      using ring by (auto simp: spsc_ring_ok_def Let_def)
    then have "spsc_ring_ok (consumer_step st)"
      using spsc_ring_ok_read[OF ring CRead h(2), of h] CRead h(1) by (simp add: ring_index_of_nat)
    moreover have "consumed_count (consumer_step st) = ?H"
      using CRead by (simp add: consumed_count_def)
    ultimately show ?thesis using CRead h prod unfolding spsc_inv_def by simp
  next
    case (CAdvance h)
    then have h: "h = word_of_nat ?H" "?H < ?T" "length (sp_got st) = Suc ?H"
      using cons by auto
    have "consumed_count (consumer_step st) = length (sp_got st)"
      using CAdvance by (simp add: consumed_count_def)
    with h(3) have cc: "consumed_count (consumer_step st) = Suc ?H" by (simp only:)
    have "ar_head (sp_ring st) = h" using ring h(1) by (simp add: spsc_ring_ok_def Let_def)
    then have "spsc_ring_ok (consumer_step st)"
      using spsc_ring_ok_advance[OF ring CAdvance h(2,3)] CAdvance by simp
    moreover have "producer_ok (Suc ?H) ?T (sp_ring (consumer_step st)) (sp_prod st)"
      using producer_ok_mono[OF prod, of "Suc ?H" "sp_ring (consumer_step st)"] CAdvance by simp
    ultimately show ?thesis using CAdvance cc by (simp add: spsc_inv_def)
  qed
qed

lemma spsc_reach_inv: "spsc_reach st \<Longrightarrow> spsc_inv st"
  by (induction rule: spsc_reach.induct)
    (simp_all only: spsc_inv_init spsc_inv_producer spsc_inv_consumer)

declare producer_step.simps [simp del] consumer_step.simps [simp del]

section \<open>Properties\<close>

text \<open>C8: In every interleaving of the capture thread's pushes and the encode thread's
  consumes, the chunks handed to the consumer are, in order and without loss or
  duplication, a prefix of the chunks the producer has published, and at most 16 published
  chunks are outstanding, however often the 64-bit counters have wrapped.\<close>

theorem audio_ring_spsc_fifo:
  assumes "spsc_reach st"
  shows "take (length (sp_got st)) (sp_pub st) = sp_got st \<and>
    length (sp_pub st) \<le> length (sp_got st) + 17 \<and> ring_len (sp_ring st) \<le> 16"
proof -
  have ok: "spsc_ring_ok st" using spsc_reach_inv[OF assms] by (simp add: spsc_inv_def)
  moreover have "ring_len (sp_ring st) = length (sp_pub st) - consumed_count st"
    using ok by (auto simp: ring_len_def spsc_ring_ok_def Let_def word_of_nat_u64_diff)
  moreover have "consumed_count st \<le> length (sp_got st)" by (simp add: consumed_count_def)
  ultimately show ?thesis unfolding spsc_ring_ok_def Let_def by auto
qed

definition one_sample_push :: push_args where
  "one_sample_push = \<lparr>pa_samples = Some [7], pa_frames = 1, pa_channels = 1,
     pa_sample_rate = 48000, pa_pts_us = 5\<rparr>"

lemma one_sample_push_ok: "push_wf one_sample_push" "\<not> push_invalid one_sample_push"
  by (simp_all add: push_wf_def push_invalid_def one_sample_push_def push_n_def model_defs)

lemma audio_ring_spsc_fifo_witness:
  "take (length (sp_got (consumer_step (producer_step one_sample_push spsc_init))))
     (sp_pub (consumer_step (producer_step one_sample_push spsc_init))) =
   sp_got (consumer_step (producer_step one_sample_push spsc_init))"
  using audio_ring_spsc_fifo[OF reach_consumer[OF reach_producer[OF reach_init one_sample_push_ok(1)]]]
  by blast

text \<open>C23: There is no data race on a slot: whenever the producer is writing the slot of tail
  index \<open>t\<close> while the consumer's callback is reading the slot of head index \<open>h\<close>, the two
  are different slots of the array.\<close>

theorem audio_ring_race_free:
  assumes "spsc_reach st"
    and "sp_prod st = PHeader a t \<or> sp_prod st = PData a t"
    and "sp_cons st = CRead h"
  shows "ring_index t \<noteq> ring_index h"
proof -
  have inv: "spsc_inv st" by (rule spsc_reach_inv[OF assms(1)])
  then have "t = word_of_nat (length (sp_pub st))"
    "length (sp_pub st) - consumed_count st < 16"
    "h = word_of_nat (consumed_count st)" "consumed_count st < length (sp_pub st)"
    using assms(2,3) by (auto simp: spsc_inv_def)
  then show ?thesis using mod16_neq by (metis ring_index_of_nat)
qed

lemma spsc_reach_producer_n: "spsc_reach st \<Longrightarrow> push_wf a \<Longrightarrow> spsc_reach ((producer_step a ^^ n) st)"
  by (induction n) (simp_all add: reach_producer)

lemma spsc_reach_consumer_n: "spsc_reach st \<Longrightarrow> spsc_reach ((consumer_step ^^ n) st)"
  by (induction n) (simp_all add: reach_consumer)

text \<open>One chunk published and being read, while the next one is being written.\<close>

definition both_busy :: spsc where
  "both_busy = (producer_step one_sample_push ^^ 4) ((consumer_step ^^ 3)
     ((producer_step one_sample_push ^^ 7) spsc_init))"

lemma both_busy_reach: "spsc_reach both_busy"
  unfolding both_busy_def
  by (intro spsc_reach_producer_n spsc_reach_consumer_n reach_init one_sample_push_ok)

lemma both_busy_pcs: "sp_prod both_busy = PHeader one_sample_push 1" "sp_cons both_busy = CRead 0"
  using one_sample_push_ok(2)
  by (simp_all add: both_busy_def spsc_init_def audio_ring_init_def funpow_unfold
      producer_step.simps consumer_step.simps Let_def update_slot_def model_defs
      word_le_nat_alt)

lemma audio_ring_race_free_witness: "ring_index 1 \<noteq> ring_index 0"
  using audio_ring_race_free[OF both_busy_reach disjI1[OF both_busy_pcs(1)] both_busy_pcs(2)] .

text \<open>Refinement of the atomic steps by the operation: a producer that runs a valid
  \<open>push\<close> to its end without interference (four actions when the ring is full, seven
  otherwise) is idle again and has had exactly the effect of the sequential
  \<open>audio_push\<close>; so \<open>push\<close> is wait-free.\<close>

theorem producer_solo_refines_push:
  assumes "sp_prod st = PIdle" and "\<not> push_invalid a" and "length (ar_slots (sp_ring st)) = 16"
  shows "\<exists>n\<in>{4, 7}. sp_prod ((producer_step a ^^ n) st) = PIdle \<and>
     sp_ring ((producer_step a ^^ n) st) = snd (audio_push a (sp_ring st)) \<and>
     sp_pub ((producer_step a ^^ n) st) =
       sp_pub st @ (if fst (audio_push a (sp_ring st)) then [push_chunk a] else [])"
proof (cases "ar_tail (sp_ring st) - ar_head (sp_ring st) \<ge> ring_kCapacity")
  case True
  with assms show ?thesis
    by (intro bexI[of _ 4]) (simp_all add: funpow_unfold producer_step.simps audio_push_def Let_def)
next
  case False
  with assms show ?thesis
    by (intro bexI[of _ 7])
      (simp_all add: funpow_unfold producer_step.simps audio_push_def update_slot_def Let_def)
qed

lemma producer_solo_refines_push_witness:
  "\<exists>n\<in>{4, 7}. sp_prod ((producer_step one_sample_push ^^ n) spsc_init) = PIdle \<and>
     sp_ring ((producer_step one_sample_push ^^ n) spsc_init) =
       snd (audio_push one_sample_push audio_ring_init)"
  using producer_solo_refines_push[of spsc_init one_sample_push] one_sample_push_ok(2)
  by (auto simp: spsc_init_def audio_ring_init_def)

text \<open>Any sequence of pushes and consumes on a new ring delivers exactly the accepted
  chunks, in order: what was delivered followed by what is still in the ring is what was
  accepted, sample for sample.\<close>

theorem audio_ring_sequential_fifo:
  assumes "list_all push_wf (enqs ops)"
    and "fifo_run audio_push audio_consume ops audio_ring_init = (acc, out, r)"
  shows "out @ ring_contents r = map push_chunk acc \<and> ring_inv r \<and> length (ring_contents r) \<le> 16"
  using audio_fifo.run_fifo[OF ring_inv_init assms] audio_fifo.run_inv[OF ring_inv_init assms]
    audio_fifo.bounded
  by (simp add: ring_contents_init)

lemma audio_ring_sequential_fifo_witness:
  "\<exists>r. fifo_run audio_push audio_consume [Enq one_sample_push, Deq, Deq] audio_ring_init =
      ([one_sample_push], [push_chunk one_sample_push], r) \<and> ring_contents r = []"
proof -
  obtain acc out r where run:
    "fifo_run audio_push audio_consume [Enq one_sample_push, Deq, Deq] audio_ring_init = (acc, out, r)"
    by (metis prod_cases3)
  have acc: "acc = [one_sample_push]" "length out = 1"
    using run one_sample_push_ok(2)
    by (auto simp: audio_push_def audio_consume_def audio_ring_init_def Let_def model_defs
        word_le_nat_alt)
  have "out @ ring_contents r = map push_chunk acc"
    using audio_ring_sequential_fifo[OF _ run] one_sample_push_ok(1) by simp
  with acc run show ?thesis by (cases out) auto
qed

end
