(* ===== verification/CommandRouter.thy ===== *)
theory CommandRouter
  imports Fifo
begin

text \<open>
  \<open>src/src/pipeline/command_router.cpp\<close>: the per-frame drain of the three command
  channels (Rust command buffer, web socket commands, frame commands) and the ring of frame
  commands between the action thread (producer) and the frame thread (consumer).

  The callbacks of the code act on a client state \<open>'p\<close> and are arguments of the
  definitions; the Rust side is a record of what its calls answer in this frame
  (\<open>None\<close> is a structured exception caught by the SEH leaf). \<open>RjCommand\<close> and
  \<open>RjAction\<close> are the type parameters \<open>'c\<close> and \<open>'a\<close>.
\<close>

section \<open>State\<close>

record frame_cmd =
  fc_action_type :: int
  fc_param1 :: int

definition kCmdDrainMax :: nat where [model_defs]: "kCmdDrainMax = 8"
definition kFrameCmdCap :: u32 where [model_defs]: "kFrameCmdCap = 16"

record cmd_ring =
  cr_buf :: "frame_cmd list"
  cr_head :: u32
  cr_tail :: u32

record ('c, 'a, 'p) router =
  rt_ring :: cmd_ring
  rt_cmd_buf :: "'c list"
  rt_ws_port_logged :: bool
  rt_running :: bool
  rt_scene_cb :: "(int \<Rightarrow> u32 \<Rightarrow> 'p \<Rightarrow> 'p) option"
  rt_on_action :: "('a \<Rightarrow> 'p \<Rightarrow> 'p) option"

definition cmd_ring_init :: cmd_ring where
  "cmd_ring_init = \<lparr>cr_buf = replicate 16 \<lparr>fc_action_type = 0, fc_param1 = 0\<rparr>, cr_head = 0, cr_tail = 0\<rparr>"

section \<open>SEH leaves\<close>

definition seh_command_drain :: "(int \<times> 'c list) option \<Rightarrow> int \<times> 'c list" where
  "seh_command_drain r = (case r of None \<Rightarrow> (-1, []) | Some x \<Rightarrow> x)"

definition seh_ws_command_dequeue :: "(int \<times> int) option \<Rightarrow> (int \<times> int) option" where
  "seh_ws_command_dequeue r = (case r of None \<Rightarrow> None | Some x \<Rightarrow> Some x)"

definition seh_get_ws_port :: "u16 option \<Rightarrow> u16" where
  "seh_get_ws_port r = (case r of None \<Rightarrow> 0 | Some p \<Rightarrow> p)"

section \<open>Operations\<close>

definition router_start :: "(int \<Rightarrow> u32 \<Rightarrow> 'p \<Rightarrow> 'p) option \<Rightarrow> ('a \<Rightarrow> 'p \<Rightarrow> 'p) option \<Rightarrow>
    ('c, 'a, 'p) router \<Rightarrow> bool \<times> ('c, 'a, 'p) router" where
  "router_start scene on_action r =
     (True, r\<lparr>rt_scene_cb := scene, rt_on_action := on_action, rt_running := True\<rparr>)"

definition router_stop :: "('c, 'a, 'p) router \<Rightarrow> ('c, 'a, 'p) router" where
  "router_stop r = r\<lparr>rt_running := False\<rparr>"

definition frame_cmd_next :: "u32 \<Rightarrow> u32" where
  "frame_cmd_next i = (i + 1) mod kFrameCmdCap"

definition push_frame_cmd :: "frame_cmd \<Rightarrow> cmd_ring \<Rightarrow> bool \<times> cmd_ring" where
  "push_frame_cmd c r =
    (let head = cr_head r; nxt = frame_cmd_next head in
     if nxt = cr_tail r then (False, r)
     else (True, r\<lparr>cr_buf := (cr_buf r)[unat head := c], cr_head := nxt\<rparr>))"

text \<open>Step 1b of the drain: the loop from the loaded tail to the loaded head. It is a partial
  function, so that not returning would be \<open>None\<close>.\<close>

partial_function (option) drain_frame_cmds ::
  "(frame_cmd \<Rightarrow> 'p \<Rightarrow> 'p) \<Rightarrow> frame_cmd list \<Rightarrow> u32 \<Rightarrow> u32 \<Rightarrow> 'p \<Rightarrow> (u32 \<times> 'p) option" where
  "drain_frame_cmds apply_fc buf head tail p =
    (if tail = head then Some (tail, p)
     else drain_frame_cmds apply_fc buf head (frame_cmd_next tail) (apply_fc (buf ! unat tail) p))"

text \<open>Step 1a: one web socket command.\<close>

definition apply_ws_command :: "(int \<Rightarrow> 'p \<Rightarrow> 'p) \<Rightarrow> (int \<Rightarrow> u32 \<Rightarrow> 'p \<Rightarrow> 'p) option \<Rightarrow>
    int \<times> int \<Rightarrow> 'p \<Rightarrow> 'p" where
  "apply_ws_command handle_start_stop scene cp p =
    (case cp of (cmd, param) \<Rightarrow>
      if cmd = 1 \<or> cmd = 2 then handle_start_stop cmd p
      else if cmd = 3 \<or> cmd = 4 \<or> cmd = 5 then
        (case scene of None \<Rightarrow> p | Some f \<Rightarrow> f cmd (word_of_int param) p)
      else p)"

text \<open>Successive dequeues, until one reports an empty queue (or an exception).\<close>

fun drain_ws :: "(int \<times> int \<Rightarrow> 'p \<Rightarrow> 'p) \<Rightarrow> (int \<times> int) option list \<Rightarrow> 'p \<Rightarrow> 'p" where
  "drain_ws f [] p = p"
| "drain_ws f (r # rs) p =
    (case seh_ws_command_dequeue r of None \<Rightarrow> p | Some cp \<Rightarrow> drain_ws f rs (f cp p))"

record 'c frame_inbox =
  fi_ws_port :: "u16 option"
  fi_commands :: "(int \<times> 'c list) option"
  fi_ws :: "(int \<times> int) option list"

definition clamp_drain :: "int \<Rightarrow> nat" where
  "clamp_drain n = (if n < 0 then 0 else if n > int kCmdDrainMax then kCmdDrainMax else nat n)"

text \<open>Step 0: the port of the web socket server is logged once it is known.\<close>

definition log_ws_port :: "u16 option \<Rightarrow> ('c, 'a, 'p) router \<Rightarrow> ('c, 'a, 'p) router" where
  "log_ws_port port r =
    (if rt_ws_port_logged r then r
     else if seh_get_ws_port port \<noteq> 0 then r\<lparr>rt_ws_port_logged := True\<rparr> else r)"

text \<open>Step 1: the Rust call writes into the scratch buffer and answers a count.\<close>

definition fill_cmd_buf :: "'c list \<Rightarrow> ('c, 'a, 'p) router \<Rightarrow> ('c, 'a, 'p) router" where
  "fill_cmd_buf ws r = r\<lparr>rt_cmd_buf :=
     take (length (rt_cmd_buf r)) (ws @ drop (length ws) (rt_cmd_buf r))\<rparr>"

definition drain_and_apply ::
  "('c \<Rightarrow> 'p \<Rightarrow> 'p) \<Rightarrow> (frame_cmd \<Rightarrow> 'p \<Rightarrow> 'p) \<Rightarrow> (int \<Rightarrow> 'p \<Rightarrow> 'p) \<Rightarrow> 'c frame_inbox \<Rightarrow>
   ('c, 'a, 'p) router \<Rightarrow> 'p \<Rightarrow> (('c, 'a, 'p) router \<times> 'p) option" where
  "drain_and_apply apply_command apply_fc handle_start_stop env r p =
    (case seh_command_drain (fi_commands env) of (n, ws) \<Rightarrow>
     let r2 = fill_cmd_buf ws (log_ws_port (fi_ws_port env) r);
         p1 = fold apply_command (take (clamp_drain n) (rt_cmd_buf r2)) p;
         p2 = drain_ws (apply_ws_command handle_start_stop (rt_scene_cb r2)) (fi_ws env) p1;
         ring = rt_ring r2
     in case drain_frame_cmds apply_fc (cr_buf ring) (cr_head ring) (cr_tail ring) p2 of
          None \<Rightarrow> None
        | Some (t, p3) \<Rightarrow> Some (r2\<lparr>rt_ring := ring\<lparr>cr_tail := t\<rparr>\<rparr>, p3))"

lemma router_step_simps [simp]:
  "rt_ring (log_ws_port port r) = rt_ring r"
  "rt_scene_cb (log_ws_port port r) = rt_scene_cb r"
  "rt_cmd_buf (log_ws_port port r) = rt_cmd_buf r"
  "rt_ring (fill_cmd_buf ws r) = rt_ring r"
  "rt_scene_cb (fill_cmd_buf ws r) = rt_scene_cb r"
  "length (rt_cmd_buf (fill_cmd_buf ws r)) = length (rt_cmd_buf r)"
  by (simp_all add: log_ws_port_def fill_cmd_buf_def)

text \<open>One wake-up of the action thread: every pending action is handed to the handler. The
  thread loops over wake-ups while \<open>rt_running\<close> is set.\<close>

definition action_wakeup :: "('c, 'a, 'p) router \<Rightarrow> 'a list \<Rightarrow> 'p \<Rightarrow> 'p" where
  "action_wakeup r actions p =
    (case rt_on_action r of None \<Rightarrow> p | Some f \<Rightarrow> fold f actions p)"

fun action_thread_main :: "('c, 'a, 'p) router \<Rightarrow> (bool \<times> 'a list) list \<Rightarrow> 'p \<Rightarrow> 'p" where
  "action_thread_main r [] p = p"
| "action_thread_main r ((running, actions) # ws) p =
    (if running then action_thread_main r ws (action_wakeup r actions p) else p)"

section \<open>The frame command ring as a bounded queue\<close>

definition cmd_ring_len :: "cmd_ring \<Rightarrow> nat" where
  "cmd_ring_len r = (unat (cr_head r) + 16 - unat (cr_tail r)) mod 16"

definition cmd_ring_contents :: "cmd_ring \<Rightarrow> frame_cmd list" where
  "cmd_ring_contents r =
    map (\<lambda>i. cr_buf r ! ((unat (cr_tail r) + i) mod 16)) [0..<cmd_ring_len r]"

definition cmd_ring_inv :: "cmd_ring \<Rightarrow> bool" where
  "cmd_ring_inv r \<longleftrightarrow> length (cr_buf r) = 16 \<and> unat (cr_head r) < 16 \<and> unat (cr_tail r) < 16"

text \<open>One iteration of the consumer's loop, as an operation of its own.\<close>

definition pop_frame_cmd :: "cmd_ring \<Rightarrow> frame_cmd option \<times> cmd_ring" where
  "pop_frame_cmd r =
    (if cr_tail r = cr_head r then (None, r)
     else (Some (cr_buf r ! unat (cr_tail r)), r\<lparr>cr_tail := frame_cmd_next (cr_tail r)\<rparr>))"

lemma unat_frame_cmd_next [ring_idx]:
  "unat i < 16 \<Longrightarrow> unat (frame_cmd_next i) = (unat i + 1) mod 16"
  by (simp add: frame_cmd_next_def model_defs unat_mod unat_word_ariths)

lemma cmd_ring_len_less [simp]: "cmd_ring_len r < 16"
  by (simp add: cmd_ring_len_def)

lemma length_cmd_ring_contents [simp]: "length (cmd_ring_contents r) = cmd_ring_len r"
  by (simp add: cmd_ring_contents_def)

lemma mod16_sub:
  fixes h t :: nat
  assumes that: "h < 16" "t < 16"
  shows "(h + 16 - t) mod 16 = (if t \<le> h then h - t else h + 16 - t)"
proof (cases "t \<le> h")
  case True
  then obtain k where "h = t + k" using le_Suc_ex by blast
  with True that show ?thesis by simp
qed (use that in simp)

lemma mod16_Suc: "(h + 1) mod 16 = (if h = 15 then 0 else h + 1)" if "h < 16" for h :: nat
  using that by auto

lemma mod16_dist:
  fixes h t :: nat
  assumes "h < 16" "t < 16"
  shows "(t + (h + 16 - t) mod 16) mod 16 = h"
    and "((h + 1) mod 16 + 16 - t) mod 16 = ((h + 16 - t) mod 16 + 1) mod 16"
    and "(h + 16 - (t + 1) mod 16) mod 16 = ((h + 16 - t) mod 16 + 15) mod 16"
    and "(h + 16 - t) mod 16 = 0 \<longleftrightarrow> h = t"
    and "(h + 1) mod 16 = t \<longleftrightarrow> (h + 16 - t) mod 16 = 15"
proof -
  have a: "(h + 1) mod 16 < 16" "(t + 1) mod 16 < 16" by simp_all
  have m: "(n + 15) mod 16 = (if n = 0 then 15 else n - 1)" if "n < 16" for n :: nat
    using that mod_add_self2[of "n - 1" 16] by (cases n) auto
  show "(t + (h + 16 - t) mod 16) mod 16 = h"
    unfolding mod16_sub[OF assms] using assms by auto
  have d: "(h + 16 - t) mod 16 < 16" by simp
  show "((h + 1) mod 16 + 16 - t) mod 16 = ((h + 16 - t) mod 16 + 1) mod 16"
    unfolding mod16_sub[OF a(1) assms(2)] unfolding mod16_Suc[OF d]
    unfolding mod16_sub[OF assms] mod16_Suc[OF assms(1)]
    using assms by auto
  show "(h + 16 - (t + 1) mod 16) mod 16 = ((h + 16 - t) mod 16 + 15) mod 16"
    unfolding mod16_sub[OF assms(1) a(2)] unfolding m[OF d]
    unfolding mod16_sub[OF assms] mod16_Suc[OF assms(2)]
    using assms by auto
  show "(h + 16 - t) mod 16 = 0 \<longleftrightarrow> h = t"
    unfolding mod16_sub[OF assms] using assms by auto
  show "(h + 1) mod 16 = t \<longleftrightarrow> (h + 16 - t) mod 16 = 15"
    unfolding mod16_sub[OF assms] mod16_Suc[OF assms(1)] using assms by auto
qed

lemma cmd_ring_head_index:
  assumes "cmd_ring_inv r"
  shows "unat (cr_head r) = (unat (cr_tail r) + cmd_ring_len r) mod 16"
  using assms mod16_dist(1)[of "unat (cr_head r)" "unat (cr_tail r)"]
  by (simp add: cmd_ring_inv_def cmd_ring_len_def)

lemma cmd_ring_full_iff:
  assumes "cmd_ring_inv r"
  shows "frame_cmd_next (cr_head r) = cr_tail r \<longleftrightarrow> cmd_ring_len r = 15"
proof -
  have "frame_cmd_next (cr_head r) = cr_tail r \<longleftrightarrow>
      unat (frame_cmd_next (cr_head r)) = unat (cr_tail r)" by (simp add: word_unat_eq_iff)
  also have "\<dots> \<longleftrightarrow> (unat (cr_head r) + 1) mod 16 = unat (cr_tail r)"
    using assms by (simp add: unat_frame_cmd_next cmd_ring_inv_def)
  also have "\<dots> \<longleftrightarrow> cmd_ring_len r = 15"
    using assms mod16_dist(5) by (simp add: cmd_ring_inv_def cmd_ring_len_def)
  finally show ?thesis .
qed

lemma cmd_ring_empty_iff:
  assumes "cmd_ring_inv r"
  shows "cr_tail r = cr_head r \<longleftrightarrow> cmd_ring_len r = 0"
  using assms mod16_dist(4)[of "unat (cr_head r)" "unat (cr_tail r)"]
  by (auto simp: cmd_ring_inv_def cmd_ring_len_def word_unat_eq_iff)

lemma mod16_pred: "0 < n \<Longrightarrow> n < 16 \<Longrightarrow> (n + 15) mod 16 = n - (1 :: nat)"
  by (cases n) simp_all

lemma cmd_ring_len_push:
  assumes "cmd_ring_inv r" "cmd_ring_len r < 15"
  shows "cmd_ring_len (r\<lparr>cr_buf := b, cr_head := frame_cmd_next (cr_head r)\<rparr>) = Suc (cmd_ring_len r)"
proof -
  have b: "unat (cr_head r) < 16" "unat (cr_tail r) < 16" using assms by (simp_all add: cmd_ring_inv_def)
  let ?r = "r\<lparr>cr_buf := b, cr_head := frame_cmd_next (cr_head r)\<rparr>"
  have r: "cr_head ?r = frame_cmd_next (cr_head r)" "cr_tail ?r = cr_tail r" by simp_all
  have "cmd_ring_len ?r = (cmd_ring_len r + 1) mod 16"
    using mod16_dist(2)[OF b] by (simp only: cmd_ring_len_def r unat_frame_cmd_next[OF b(1)])
  also have "\<dots> = Suc (cmd_ring_len r)" using assms(2) by simp
  finally show ?thesis .
qed

lemma cmd_ring_len_pop:
  assumes "cmd_ring_inv r" "cmd_ring_len r > 0"
  shows "cmd_ring_len (r\<lparr>cr_tail := frame_cmd_next (cr_tail r)\<rparr>) = cmd_ring_len r - 1"
proof -
  have b: "unat (cr_head r) < 16" "unat (cr_tail r) < 16" using assms by (simp_all add: cmd_ring_inv_def)
  let ?r = "r\<lparr>cr_tail := frame_cmd_next (cr_tail r)\<rparr>"
  have r: "cr_head ?r = cr_head r" "cr_tail ?r = frame_cmd_next (cr_tail r)" by simp_all
  have "cmd_ring_len ?r = (cmd_ring_len r + 15) mod 16"
    using mod16_dist(3)[OF b] by (simp only: cmd_ring_len_def r unat_frame_cmd_next[OF b(2)])
  also have "\<dots> = cmd_ring_len r - 1" by (rule mod16_pred[OF assms(2) cmd_ring_len_less])
  finally show ?thesis .
qed

lemma cmd_ring_inv_push: "cmd_ring_inv r \<Longrightarrow> cmd_ring_inv (snd (push_frame_cmd c r))"
  by (simp add: push_frame_cmd_def cmd_ring_inv_def Let_def unat_frame_cmd_next)

lemma push_frame_cmd_ok:
  "cmd_ring_inv r \<Longrightarrow> fst (push_frame_cmd c r) \<longleftrightarrow> length (cmd_ring_contents r) < 15"
  using cmd_ring_len_less[of r]
  by (auto simp: push_frame_cmd_def Let_def cmd_ring_full_iff simp del: cmd_ring_len_less)

lemma cmd_ring_contents_push:
  assumes inv: "cmd_ring_inv r"
  shows "cmd_ring_contents (snd (push_frame_cmd c r)) =
    cmd_ring_contents r @ (if fst (push_frame_cmd c r) then [c] else [])"
proof (cases "cmd_ring_len r = 15")
  case True
  then show ?thesis using inv by (simp add: push_frame_cmd_def Let_def cmd_ring_full_iff)
next
  case False
  then have lt: "cmd_ring_len r < 15" using cmd_ring_len_less[of r] by linarith
  let ?r = "r\<lparr>cr_buf := (cr_buf r)[unat (cr_head r) := c], cr_head := frame_cmd_next (cr_head r)\<rparr>"
  have len: "length (cr_buf r) = 16" using inv by (simp add: cmd_ring_inv_def)
  have "cr_buf ?r ! ((unat (cr_tail r) + i) mod 16) =
      (if i = cmd_ring_len r then c else cr_buf r ! ((unat (cr_tail r) + i) mod 16))"
    if "i \<le> cmd_ring_len r" for i
    using that lt len by (auto simp: cmd_ring_head_index[OF inv] nth_list_update mod_add_eq_iff)
  then have "cmd_ring_contents ?r = cmd_ring_contents r @ [c]"
    by (simp add: cmd_ring_contents_def cmd_ring_len_push[OF inv lt])
  with False inv show ?thesis by (simp add: push_frame_cmd_def Let_def cmd_ring_full_iff)
qed

lemma cmd_ring_inv_pop: "cmd_ring_inv r \<Longrightarrow> cmd_ring_inv (snd (pop_frame_cmd r))"
  by (simp add: pop_frame_cmd_def cmd_ring_inv_def unat_frame_cmd_next)

lemma cmd_ring_pop_index:
  "cmd_ring_inv r \<Longrightarrow>
   (unat (frame_cmd_next (cr_tail r)) + i) mod 16 = (unat (cr_tail r) + Suc i) mod 16"
  by (simp add: cmd_ring_inv_def unat_frame_cmd_next mod_simps)

lemma cmd_ring_contents_pop:
  assumes "cmd_ring_inv r"
  shows "cmd_ring_contents (snd (pop_frame_cmd r)) = tl (cmd_ring_contents r)"
    and "fst (pop_frame_cmd r) = (case cmd_ring_contents r of [] \<Rightarrow> None | x # _ \<Rightarrow> Some x)"
proof -
  have tl: "map (\<lambda>i. f (Suc i)) [0..<n - 1] = tl (map f [0..<n])" for n and f :: "nat \<Rightarrow> frame_cmd"
    by (cases n) (simp_all add: map_upt_Suc del: upt_Suc)
  show "cmd_ring_contents (snd (pop_frame_cmd r)) = tl (cmd_ring_contents r)"
    using assms tl[of "\<lambda>i. cr_buf r ! ((unat (cr_tail r) + i) mod 16)" "cmd_ring_len r"]
    by (auto simp: pop_frame_cmd_def cmd_ring_contents_def cmd_ring_empty_iff cmd_ring_len_pop
        cmd_ring_pop_index)
  show "fst (pop_frame_cmd r) = (case cmd_ring_contents r of [] \<Rightarrow> None | x # _ \<Rightarrow> Some x)"
    using assms
    by (cases "cmd_ring_len r")
      (auto simp: pop_frame_cmd_def cmd_ring_contents_def cmd_ring_empty_iff cmd_ring_inv_def
        map_upt_Suc simp del: upt_Suc)
qed

interpretation cmd_fifo: bounded_fifo push_frame_cmd pop_frame_cmd cmd_ring_contents cmd_ring_inv
  "\<lambda>_. True" "\<lambda>_. True" "\<lambda>c. c" 15
  by unfold_locales
    (simp_all add: cmd_ring_inv_push push_frame_cmd_ok cmd_ring_contents_push cmd_ring_inv_pop
      cmd_ring_contents_pop less_Suc_eq_le[symmetric] cmd_ring_len_less)

lemma drain_frame_cmds_all:
  assumes "cmd_ring_inv r"
  shows "drain_frame_cmds f (cr_buf r) (cr_head r) (cr_tail r) p =
    Some (cr_head r, fold f (cmd_ring_contents r) p)"
  using assms
proof (induction "cmd_ring_len r" arbitrary: r p)
  case 0
  then have "cr_tail r = cr_head r" by (simp add: cmd_ring_empty_iff)
  then show ?case
    using 0 by (subst drain_frame_cmds.simps) (simp add: cmd_ring_contents_def)
next
  case (Suc n)
  let ?r = "snd (pop_frame_cmd r)"
  have ne: "cr_tail r \<noteq> cr_head r" using Suc by (simp add: cmd_ring_empty_iff)
  have inv: "cmd_ring_inv ?r" by (rule cmd_ring_inv_pop[OF Suc.prems])
  have r: "?r = r\<lparr>cr_tail := frame_cmd_next (cr_tail r)\<rparr>" using ne by (simp add: pop_frame_cmd_def)
  have tl: "cmd_ring_contents ?r = tl (cmd_ring_contents r)"
    by (rule cmd_ring_contents_pop(1)[OF Suc.prems])
  have "n = cmd_ring_len ?r" using Suc(2) by (simp add: r cmd_ring_len_pop[OF Suc.prems])
  from Suc.hyps(1)[OF this inv]
  have "drain_frame_cmds f (cr_buf r) (cr_head r) (frame_cmd_next (cr_tail r)) q =
      Some (cr_head r, fold f (tl (cmd_ring_contents r)) q)" for q
    unfolding tl by (simp add: r)
  moreover have "cmd_ring_contents r = cr_buf r ! unat (cr_tail r) # tl (cmd_ring_contents r)"
    using cmd_ring_contents_pop(2)[OF Suc.prems] ne
    by (auto simp: pop_frame_cmd_def split: list.splits)
  ultimately show ?case
    using ne by (subst drain_frame_cmds.simps) (metis fold_simps(2))
qed

section \<open>Pushes while a drain is running\<close>

text \<open>The action thread may push while the frame thread drains: the producer's actions are
  the fullness check, the slot write and the head store; the consumer's are the loads that
  open the drain, one loop iteration each, and the tail store that closes it.\<close>

datatype push_pc = QIdle | QWrite frame_cmd | QStore frame_cmd

record cmd_conc =
  cc_ring :: cmd_ring
  cc_push :: push_pc
  cc_drain :: "(u32 \<times> u32) option"
  cc_pushed :: "frame_cmd list"
  cc_applied :: "frame_cmd list"

definition cmd_conc_init :: cmd_conc where
  "cmd_conc_init = \<lparr>cc_ring = cmd_ring_init, cc_push = QIdle, cc_drain = None, cc_pushed = [],
     cc_applied = []\<rparr>"

fun push_action :: "frame_cmd \<Rightarrow> cmd_conc \<Rightarrow> cmd_conc" where
  "push_action c st = (let r = cc_ring st in
    case cc_push st of
      QIdle \<Rightarrow> if frame_cmd_next (cr_head r) = cr_tail r then st else st\<lparr>cc_push := QWrite c\<rparr>
    | QWrite d \<Rightarrow> st\<lparr>cc_ring := r\<lparr>cr_buf := (cr_buf r)[unat (cr_head r) := d]\<rparr>, cc_push := QStore d\<rparr>
    | QStore d \<Rightarrow> st\<lparr>cc_ring := r\<lparr>cr_head := frame_cmd_next (cr_head r)\<rparr>, cc_push := QIdle,
        cc_pushed := cc_pushed st @ [d]\<rparr>)"

fun drain_action :: "cmd_conc \<Rightarrow> cmd_conc" where
  "drain_action st = (let r = cc_ring st in
    case cc_drain st of
      None \<Rightarrow> st\<lparr>cc_drain := Some (cr_tail r, cr_head r)\<rparr>
    | Some (t, h) \<Rightarrow>
        if t \<noteq> h
        then st\<lparr>cc_drain := Some (frame_cmd_next t, h),
               cc_applied := cc_applied st @ [cr_buf r ! unat t]\<rparr>
        else st\<lparr>cc_ring := r\<lparr>cr_tail := t\<rparr>, cc_drain := None\<rparr>)"

inductive cmd_reach :: "cmd_conc \<Rightarrow> bool" where
  cmd_reach_init: "cmd_reach cmd_conc_init"
| cmd_reach_push: "cmd_reach st \<Longrightarrow> cmd_reach (push_action c st)"
| cmd_reach_drain: "cmd_reach st \<Longrightarrow> cmd_reach (drain_action st)"

definition slot16 :: "nat \<Rightarrow> nat" where
  "slot16 i = i mod 16"

definition cmd_conc_ok :: "nat \<Rightarrow> cmd_conc \<Rightarrow> bool" where
  "cmd_conc_ok C st \<longleftrightarrow> (let r = cc_ring st; P = length (cc_pushed st); A = length (cc_applied st) in
     length (cr_buf r) = 16 \<and> unat (cr_head r) = slot16 P \<and> unat (cr_tail r) = slot16 C \<and>
     C \<le> A \<and> A \<le> P \<and> P - C \<le> 15 \<and>
     (\<forall>i. C \<le> i \<and> i < P \<longrightarrow> cr_buf r ! slot16 i = cc_pushed st ! i) \<and>
     take A (cc_pushed st) = cc_applied st \<and>
     (case cc_push st of QIdle \<Rightarrow> True | QWrite _ \<Rightarrow> P - C \<le> 14
       | QStore d \<Rightarrow> P - C \<le> 14 \<and> cr_buf r ! slot16 P = d) \<and>
     (case cc_drain st of None \<Rightarrow> A = C
       | Some (t, h) \<Rightarrow> unat t = slot16 A \<and> (\<exists>k\<le>P. A \<le> k \<and> unat h = slot16 k)))"

lemma cmd_conc_ok_init: "cmd_conc_ok 0 cmd_conc_init"
  by (simp add: cmd_conc_ok_def cmd_conc_init_def cmd_ring_init_def slot16_def)

lemma slot16_less [simp]: "slot16 i < 16"
  by (simp add: slot16_def)

lemma unat_frame_cmd_next_mod:
  "unat i = slot16 n \<Longrightarrow> unat (frame_cmd_next i) = slot16 (Suc n)"
  using unat_frame_cmd_next[of i] by (simp add: slot16_def mod_simps)

lemma slot16_differ: "i < T \<Longrightarrow> T - i < 16 \<Longrightarrow> slot16 i \<noteq> slot16 T"
  using mod_add_inj[of i 0 16 "T - i"] by (auto simp: slot16_def)

lemma cmd_conc_ok_push:
  assumes ok: "cmd_conc_ok C st"
  shows "cmd_conc_ok C (push_action c st)"
proof (cases "cc_push st")
  case QIdle
  let ?P = "length (cc_pushed st)"
  have "?P - C \<le> 14 \<or> frame_cmd_next (cr_head (cc_ring st)) = cr_tail (cc_ring st)"
  proof (cases "?P - C = 15")
    case True
    then have "Suc ?P = C + 16" by simp
    then have "unat (frame_cmd_next (cr_head (cc_ring st))) = unat (cr_tail (cc_ring st))"
      using ok unat_frame_cmd_next_mod[of "cr_head (cc_ring st)" ?P]
      by (simp add: cmd_conc_ok_def Let_def slot16_def)
    then show ?thesis by (simp add: word_unat_eq_iff)
  next
    case False
    with ok show ?thesis by (auto simp: cmd_conc_ok_def Let_def)
  qed
  with QIdle ok show ?thesis
    by (auto simp: cmd_conc_ok_def Let_def split: option.splits)
next
  case (QWrite d)
  with ok show ?thesis
    by (auto simp: cmd_conc_ok_def Let_def nth_list_update dest: slot16_differ)
next
  case (QStore d)
  then show ?thesis
    using ok unat_frame_cmd_next_mod[of "cr_head (cc_ring st)" "length (cc_pushed st)"]
    by (auto simp: cmd_conc_ok_def Let_def nth_append less_Suc_eq split: option.splits prod.splits
        intro: le_SucI)
qed

lemma cmd_conc_ok_drain_begin:
  assumes "cmd_conc_ok C st" "cc_drain st = None"
  shows "cmd_conc_ok C (drain_action st)"
proof -
  have "\<exists>k\<le>length (cc_pushed st). length (cc_applied st) \<le> k \<and> unat (cr_head (cc_ring st)) = slot16 k"
    using assms by (intro exI[of _ "length (cc_pushed st)"]) (simp add: cmd_conc_ok_def Let_def)
  then show ?thesis
    using assms unfolding cmd_conc_ok_def Let_def by (auto simp: Let_def split: push_pc.splits)
qed

lemma cmd_conc_ok_drain_end:
  assumes ok: "cmd_conc_ok C st" and th: "cc_drain st = Some (t, t)"
  shows "cmd_conc_ok (length (cc_applied st)) (drain_action st)"
proof -
  let ?P = "length (cc_pushed st)" and ?A = "length (cc_applied st)"
  have "C \<le> ?A" using ok by (simp add: cmd_conc_ok_def Let_def)
  then have le: "?P - ?A \<le> ?P - C" "\<And>i. ?A \<le> i \<Longrightarrow> C \<le> i" by simp_all
  then have "?P - ?A \<le> 15" "cc_push st = QIdle \<or> ?P - ?A \<le> 14"
    using ok by (auto simp: cmd_conc_ok_def Let_def split: push_pc.splits)
  then show ?thesis
    using ok th le(2) unfolding cmd_conc_ok_def Let_def by (simp split: push_pc.splits)
qed

lemma cmd_conc_ok_drain_apply:
  assumes ok: "cmd_conc_ok C st" and th: "cc_drain st = Some (t, h)" and ne: "t \<noteq> h"
  shows "cmd_conc_ok C (drain_action st)"
proof -
  let ?P = "length (cc_pushed st)" and ?A = "length (cc_applied st)"
  obtain k where k: "unat t = slot16 ?A" "k \<le> ?P" "?A \<le> k" "unat h = slot16 k"
    using ok th by (auto simp: cmd_conc_ok_def Let_def)
  have "?A \<noteq> k" using k ne by (auto simp: word_unat_eq_iff)
  then have A: "Suc ?A \<le> k" "?A < ?P" using k by simp_all
  have facts: "cr_buf (cc_ring st) ! slot16 ?A = cc_pushed st ! ?A"
    "take ?A (cc_pushed st) = cc_applied st" "C \<le> Suc ?A"
    using ok A(2) by (simp_all add: cmd_conc_ok_def Let_def)
  have "\<exists>k\<le>?P. Suc ?A \<le> k \<and> unat h = slot16 k" using A k by blast
  moreover have "take (Suc ?A) (cc_pushed st) = cc_applied st @ [cc_pushed st ! ?A]"
    using A(2) facts(2) by (simp add: take_Suc_conv_app_nth)
  ultimately show ?thesis
    using ok th ne facts A(2) unat_frame_cmd_next_mod[OF k(1)] k(1)
    unfolding cmd_conc_ok_def Let_def by (simp add: Let_def split: push_pc.splits)
qed

lemma cmd_conc_ok_drain:
  assumes "cmd_conc_ok C st"
  shows "\<exists>C'. cmd_conc_ok C' (drain_action st)"
proof (cases "cc_drain st")
  case None
  then show ?thesis using cmd_conc_ok_drain_begin[OF assms] by blast
next
  case (Some th)
  then obtain t h where "cc_drain st = Some (t, h)" by (cases th) simp
  then show ?thesis
    using cmd_conc_ok_drain_end[OF assms] cmd_conc_ok_drain_apply[OF assms] by (cases "t = h") blast+
qed

lemma cmd_reach_ok: "cmd_reach st \<Longrightarrow> \<exists>C. cmd_conc_ok C st"
proof (induction rule: cmd_reach.induct)
  case cmd_reach_init
  show ?case using cmd_conc_ok_init by blast
next
  case (cmd_reach_push st c)
  then show ?case using cmd_conc_ok_push by blast
next
  case (cmd_reach_drain st)
  then show ?case using cmd_conc_ok_drain by blast
qed

declare push_action.simps [simp del] drain_action.simps [simp del]

section \<open>Properties\<close>

text \<open>C15: While the action thread pushes and the frame thread drains, in any interleaving,
  the frame commands applied are exactly the commands accepted by \<open>push_frame_cmd\<close>, each
  once and in order, up to at most 15 that are still waiting.\<close>

theorem frame_cmds_exactly_once:
  assumes "cmd_reach st"
  shows "take (length (cc_applied st)) (cc_pushed st) = cc_applied st \<and>
    length (cc_pushed st) \<le> length (cc_applied st) + 15"
proof -
  obtain C where "cmd_conc_ok C st" using cmd_reach_ok[OF assms] by blast
  then show ?thesis by (auto simp: cmd_conc_ok_def Let_def)
qed

lemma frame_cmds_exactly_once_witness:
  "take (length (cc_applied (drain_action (push_action \<lparr>fc_action_type = 1, fc_param1 = 2\<rparr> cmd_conc_init))))
     (cc_pushed (drain_action (push_action \<lparr>fc_action_type = 1, fc_param1 = 2\<rparr> cmd_conc_init))) =
   cc_applied (drain_action (push_action \<lparr>fc_action_type = 1, fc_param1 = 2\<rparr> cmd_conc_init))"
  using frame_cmds_exactly_once[OF cmd_reach_drain[OF cmd_reach_push[OF cmd_reach_init]]] by blast

text \<open>The commands one drain takes from the Rust queue.\<close>

definition drained_cmds :: "'c frame_inbox \<Rightarrow> ('c, 'a, 'p) router \<Rightarrow> 'c list" where
  "drained_cmds env r = (case seh_command_drain (fi_commands env) of (n, ws) \<Rightarrow>
     take (clamp_drain n) (rt_cmd_buf (fill_cmd_buf ws (log_ws_port (fi_ws_port env) r))))"

lemma drain_and_apply_result:
  assumes "cmd_ring_inv (rt_ring r)"
  shows "drain_and_apply f g h env r p =
     Some ((fill_cmd_buf (snd (seh_command_drain (fi_commands env))) (log_ws_port (fi_ws_port env) r))
             \<lparr>rt_ring := (rt_ring r)\<lparr>cr_tail := cr_head (rt_ring r)\<rparr>\<rparr>,
       fold g (cmd_ring_contents (rt_ring r))
        (drain_ws (apply_ws_command h (rt_scene_cb r)) (fi_ws env) (fold f (drained_cmds env r) p)))"
  by (simp add: drain_and_apply_def drained_cmds_def Let_def drain_frame_cmds_all[OF assms] split: prod.split)

lemma cmd_ring_emptied:
  "cmd_ring_inv r \<Longrightarrow> cmd_ring_contents (r\<lparr>cr_tail := cr_head r\<rparr>) = [] \<and> cmd_ring_inv (r\<lparr>cr_tail := cr_head r\<rparr>)"
  by (simp add: cmd_ring_contents_def cmd_ring_len_def cmd_ring_inv_def)

lemma drained_cmds_length:
  assumes "length (rt_cmd_buf r) = 8"
  shows "length (drained_cmds env r) \<le> 8
    \<and> (fst (seh_command_drain (fi_commands env)) \<le> 0 \<longrightarrow> drained_cmds env r = [])"
  using assms by (auto simp: drained_cmds_def clamp_drain_def split: prod.splits)

text \<open>The per-frame drain always returns, and applies in this order: at most eight Rust
  commands (none when the Rust call failed or answered a negative count), then the web
  socket commands up to the first empty answer, then every queued frame command; afterwards
  the frame command ring is empty.\<close>

theorem drain_and_apply_total:
  assumes "cmd_ring_inv (rt_ring r)" and "length (rt_cmd_buf r) = 8"
  shows "\<exists>r' cmds. drain_and_apply f g h env r p =
      Some (r', fold g (cmd_ring_contents (rt_ring r))
        (drain_ws (apply_ws_command h (rt_scene_cb r)) (fi_ws env) (fold f cmds p)))
    \<and> length cmds \<le> 8
    \<and> (fst (seh_command_drain (fi_commands env)) \<le> 0 \<longrightarrow> cmds = [])
    \<and> cmd_ring_inv (rt_ring r') \<and> cmd_ring_contents (rt_ring r') = [] \<and> length (rt_cmd_buf r') = 8"
  using drain_and_apply_result[OF assms(1), of f g h env p] cmd_ring_emptied[OF assms(1)]
    drained_cmds_length[OF assms(2), of env] assms(2)
  by (intro exI conjI) (assumption | simp)+

definition demo_router :: "(int, int, int list) router" where
  "demo_router = \<lparr>rt_ring = snd (push_frame_cmd \<lparr>fc_action_type = 1, fc_param1 = 2\<rparr> cmd_ring_init),
      rt_cmd_buf = replicate 8 0, rt_ws_port_logged = False, rt_running = True, rt_scene_cb = None,
      rt_on_action = None\<rparr>"

lemma cmd_ring_inv_init: "cmd_ring_inv cmd_ring_init"
  by (simp add: cmd_ring_inv_def cmd_ring_init_def)

lemma drain_and_apply_total_witness:
  "\<exists>r' cmds. drain_and_apply (#) (\<lambda>c. (#) (fc_param1 c)) (\<lambda>_ p. p)
      \<lparr>fi_ws_port = None, fi_commands = Some (1, [5]), fi_ws = [Some (1, 0)]\<rparr> demo_router [] =
      Some (r', fold (\<lambda>c. (#) (fc_param1 c)) (cmd_ring_contents (rt_ring demo_router))
        (drain_ws (apply_ws_command (\<lambda>_ p. p) (rt_scene_cb demo_router)) [Some (1, 0)]
          (fold (#) cmds [])))
    \<and> cmd_ring_contents (rt_ring r') = []"
proof -
  have "cmd_ring_inv (rt_ring demo_router)" "length (rt_cmd_buf demo_router) = 8"
    by (simp_all add: demo_router_def cmd_ring_inv_push cmd_ring_inv_init)
  from drain_and_apply_total[OF this, of "(#)" "\<lambda>c. (#) (fc_param1 c)" "\<lambda>_ p. p"
      "\<lparr>fi_ws_port = None, fi_commands = Some (1, [5]), fi_ws = [Some (1, 0)]\<rparr>" "[]"]
  show ?thesis by auto
qed

text \<open>On one thread, any sequence of pushes and loop iterations of the drain on a fresh ring
  hands out the accepted frame commands in order; the ring holds at most 15.\<close>

theorem cmd_ring_sequential_fifo:
  assumes "fifo_run push_frame_cmd pop_frame_cmd ops cmd_ring_init = (acc, out, r)"
  shows "out @ cmd_ring_contents r = acc \<and> length (cmd_ring_contents r) \<le> 15"
proof -
  note inv = cmd_ring_inv_init
  have pre: "list_all (\<lambda>_. True) (enqs ops)" by (simp add: list_all_iff)
  have "cmd_ring_contents cmd_ring_init = []"
    by (simp add: cmd_ring_contents_def cmd_ring_len_def cmd_ring_init_def)
  with cmd_fifo.run_fifo[OF inv pre assms] cmd_fifo.bounded[OF cmd_fifo.run_inv[OF inv pre assms]]
  show ?thesis by simp
qed

lemma cmd_ring_sequential_fifo_witness:
  "\<exists>acc out r. fifo_run push_frame_cmd pop_frame_cmd
      [Enq \<lparr>fc_action_type = 1, fc_param1 = 2\<rparr>, Deq, Deq] cmd_ring_init = (acc, out, r) \<and>
    out @ cmd_ring_contents r = acc"
  using cmd_ring_sequential_fifo[of "[Enq \<lparr>fc_action_type = 1, fc_param1 = 2\<rparr>, Deq, Deq]"]
  by (metis prod_cases3)

end
