(* ===== verification/SrtOutput.thy ===== *)
theory SrtOutput
  imports Prelude "HOL-Library.Multiset"
begin

text \<open>
  \<open>src/src/pipeline/output/srt_output.cpp\<close>: the SRT sender. The state of one
  \<open>SrtOutput::Impl\<close> is a record; the process-wide \<open>SrtGlobalRegistry\<close> and the
  trace of the calls that open and close library handles, notify a lost connection or push a
  metric form the \<open>srt_world\<close>. libsrt and the operating system are not part of the
  repository: every operation takes the answers their calls give, in a record or an argument.
  A socket or epoll id is an integer, \<open>-1\<close> is the invalid one.
\<close>

section \<open>Configuration, calls and state\<close>

definition kMaxPayloadBytes :: nat where [model_defs]: "kMaxPayloadBytes = 1456"
definition kSrtLatencyMs :: u32 where [model_defs]: "kSrtLatencyMs = 200"
definition SRT_INVALID_SOCK :: int where [model_defs]: "SRT_INVALID_SOCK = -1"

record srt_config =
  sc_host :: string
  sc_port :: u16
  sc_latency_ms :: u32
  sc_bandwidth_kbps :: u32
  sc_caller_mode :: bool
  sc_on_connection_lost :: bool
  sc_on_metrics :: bool

datatype srt_handle = Sock int | Epoll int

datatype lost_reason = SocketDisconnected | ClientDisconnected | EpollError | ConnectFailedReason
  | SendmsgLost

text \<open>What the model records of the calls: \<open>Established\<close> marks the points where the code
  rearms the notification (\<open>notified_lost = false\<close>).\<close>

datatype srt_call =
    Startup
  | GlobalCleanup
  | Opened srt_handle
  | Released srt_handle
  | MonitorStarted
  | Established
  | NotifiedLost lost_reason
  | PushedMetrics u64 u32

record srt_world =
  sw_once :: bool
  sw_ok :: bool
  sw_ref :: int
  sw_trace :: "srt_call list"

record srt =
  so_sock :: int
  so_client_sock :: int
  so_epoll_id :: int
  so_cfg :: srt_config
  so_connected :: bool
  so_initialized :: bool
  so_shutting_down :: bool
  so_notified_lost :: bool
  so_cleaned_up :: bool
  so_bitrate_kbps :: u32
  so_last_metric_push_us :: int
  so_bytes_since_last_push :: u64

definition empty_srt_config :: srt_config where
  "empty_srt_config = \<lparr>sc_host = [], sc_port = 0, sc_latency_ms = 0, sc_bandwidth_kbps = 0,
     sc_caller_mode = False, sc_on_connection_lost = False, sc_on_metrics = False\<rparr>"

definition srt_new :: srt where
  "srt_new = \<lparr>so_sock = -1, so_client_sock = -1, so_epoll_id = -1, so_cfg = empty_srt_config,
     so_connected = False, so_initialized = False, so_shutting_down = False,
     so_notified_lost = False, so_cleaned_up = False, so_bitrate_kbps = 0,
     so_last_metric_push_us = 0, so_bytes_since_last_push = 0\<rparr>"

definition srt_world_new :: srt_world where
  "srt_world_new = \<lparr>sw_once = False, sw_ok = False, sw_ref = 0, sw_trace = []\<rparr>"

definition emit :: "srt_call \<Rightarrow> srt_world \<Rightarrow> srt_world" where
  "emit c w = w\<lparr>sw_trace := sw_trace w @ [c]\<rparr>"

section \<open>The global registry and the COM guard\<close>

definition registry_acquire :: "bool \<Rightarrow> srt_world \<Rightarrow> bool \<times> srt_world" where
  "registry_acquire startup_ok w =
    (let w1 = (if sw_once w then w else emit Startup (w\<lparr>sw_once := True, sw_ok := startup_ok\<rparr>))
     in if \<not> sw_ok w1 then (False, w1) else (True, w1\<lparr>sw_ref := sw_ref w1 + 1\<rparr>))"

definition registry_release :: "srt_world \<Rightarrow> bool \<times> srt_world" where
  "registry_release w = (if \<not> sw_ok w then (False, w) else (True, w\<lparr>sw_ref := sw_ref w - 1\<rparr>))"

definition com_init_now :: "com_result \<Rightarrow> bool \<times> bool" where
  "com_init_now hr = (if hr = S_OK \<or> hr = S_FALSE then (True, True)
     else if hr = RPC_E_CHANGED_MODE then (True, False) else (False, False))"

section \<open>Initialisation\<close>

text \<open>The options are set in order; the first five must succeed, the last three are best effort.
  \<open>opts\<close> holds the answers of the \<open>setsockopt\<close> calls (negative is an error, also when
  the SEH leaf caught an exception).\<close>

definition configure_socket :: "int list \<Rightarrow> int \<Rightarrow> bool" where
  "configure_socket opts s = (s \<noteq> SRT_INVALID_SOCK \<and> list_all (\<lambda>r. 0 \<le> r) (take 5 opts))"

definition socket_latency :: "srt_config \<Rightarrow> int" where
  "socket_latency cfg = sint (if sc_latency_ms cfg \<noteq> 0 then sc_latency_ms cfg else kSrtLatencyMs)"

definition socket_maxbw :: "u32 \<Rightarrow> int" where
  "socket_maxbw kbps = (if kbps > 0 then uint kbps * 1000 else 0)"

datatype srt_err = EASYNCSND | EASYNCRCV | EASYNCFAIL | ECONNLOST | ECONNREJ | ECONNFAIL | ECONNSETUP
  | ENOCONN | OtherErr

record srt_init_env =
  ie_com :: com_result
  ie_startup_ok :: bool
  ie_socket :: int
  ie_opts :: "int list"
  ie_addr_ok :: bool
  ie_connect :: "srt_err option"
  ie_bind_ok :: bool
  ie_listen_ok :: bool
  ie_epoll :: int
  ie_epoll_add_ok :: bool

definition connect_fails :: "srt_config \<Rightarrow> srt_init_env \<Rightarrow> bool" where
  "connect_fails cfg env =
    (if sc_caller_mode cfg then
       (case ie_connect env of None \<Rightarrow> False
        | Some err \<Rightarrow> err \<noteq> EASYNCSND \<and> err \<noteq> EASYNCRCV \<and> err \<noteq> EASYNCFAIL)
     else \<not> ie_bind_ok env \<or> \<not> ie_listen_ok env)"

definition close_sock :: "srt \<times> srt_world \<Rightarrow> srt \<times> srt_world" where
  "close_sock sw = (case sw of (s, w) \<Rightarrow>
     (s\<lparr>so_sock := SRT_INVALID_SOCK\<rparr>, emit (Released (Sock (so_sock s))) w))"

definition init_internal ::
  "srt_config \<Rightarrow> srt_init_env \<Rightarrow> srt \<times> srt_world \<Rightarrow> bool \<times> srt \<times> srt_world" where
  "init_internal cfg_in env st = (case st of (s, w) \<Rightarrow>
     if so_initialized s then (False, s, w)
     else if \<not> sc_on_connection_lost cfg_in \<or> \<not> sc_on_metrics cfg_in then (False, s, w)
     else if \<not> fst (com_init_now (ie_com env)) then (False, s, w)
     else case registry_acquire (ie_startup_ok env) w of (acquired, w1) \<Rightarrow>
     if \<not> acquired then (False, s, w1)
     else
       let s1 = s\<lparr>so_cfg := cfg_in, so_bitrate_kbps := sc_bandwidth_kbps cfg_in,
                  so_sock := ie_socket env\<rparr>
       in if ie_socket env = SRT_INVALID_SOCK then (False, s1, w1)
     else
       let w2 = emit (Opened (Sock (ie_socket env))) w1
       in if \<not> configure_socket (ie_opts env) (ie_socket env) then (False, close_sock (s1, w2))
     else if \<not> ie_addr_ok env then (False, close_sock (s1, w2))
     else if connect_fails cfg_in env then (False, close_sock (s1, w2))
     else
       let s2 = s1\<lparr>so_epoll_id := ie_epoll env\<rparr>
       in if ie_epoll env < 0 then (False, close_sock (s2, w2))
     else
       let w3 = emit (Opened (Epoll (ie_epoll env))) w2
       in if \<not> ie_epoll_add_ok env then
            (case close_sock (s2, emit (Released (Epoll (ie_epoll env))) w3) of (s3, w4) \<Rightarrow>
              (False, s3\<lparr>so_epoll_id := -1\<rparr>, w4))
     else (True, s2\<lparr>so_shutting_down := False, so_notified_lost := False, so_initialized := True\<rparr>,
           emit Established (emit MonitorStarted w3)))"

section \<open>Connection state and the worker\<close>

definition notify_connection_lost :: "lost_reason \<Rightarrow> srt \<times> srt_world \<Rightarrow> srt \<times> srt_world" where
  "notify_connection_lost reason st = (case st of (s, w) \<Rightarrow>
     if so_notified_lost s then (s, w)
     else (s\<lparr>so_notified_lost := True\<rparr>, emit (NotifiedLost reason) w))"

definition data_sock :: "srt \<Rightarrow> int" where
  "data_sock s = (if sc_caller_mode (so_cfg s) then so_sock s else so_client_sock s)"

definition update_state_from_socket :: "bool \<Rightarrow> srt \<times> srt_world \<Rightarrow> srt \<times> srt_world" where
  "update_state_from_socket state_connected st = (case st of (s, w) \<Rightarrow>
     if data_sock s = SRT_INVALID_SOCK then (s\<lparr>so_connected := False\<rparr>, w)
     else
       let was = so_connected s; s1 = s\<lparr>so_connected := state_connected\<rparr>
       in if state_connected then (s1\<lparr>so_notified_lost := False\<rparr>, emit Established w)
          else if was \<and> \<not> so_shutting_down s then notify_connection_lost SocketDisconnected (s1, w)
          else (s1, w))"

text \<open>One wake-up of the worker with an event: the socket it is for, the event bits, and the
  answers of the calls made then.\<close>

record srt_event =
  ev_fd :: int
  ev_err :: bool
  ev_in :: bool
  ev_out_or_connect :: bool
  ev_accept :: int
  ev_state_connected :: bool

definition drop_client :: "srt \<times> srt_world \<Rightarrow> srt \<times> srt_world" where
  "drop_client st = (case st of (s, w) \<Rightarrow>
     let w1 = emit (Released (Sock (so_client_sock s))) w;
         s1 = s\<lparr>so_client_sock := SRT_INVALID_SOCK, so_connected := False\<rparr>
     in if \<not> so_shutting_down s then notify_connection_lost ClientDisconnected (s1, w1)
        else (s1, w1))"

definition accept_client :: "int \<Rightarrow> srt \<times> srt_world \<Rightarrow> srt \<times> srt_world" where
  "accept_client client st = (case st of (s, w) \<Rightarrow>
     if client = SRT_INVALID_SOCK then (s, w)
     else
       let w1 = emit (Opened (Sock client)) w;
           w2 = (if so_client_sock s \<noteq> SRT_INVALID_SOCK
                 then emit (Released (Sock (so_client_sock s))) w1 else w1)
       in (s\<lparr>so_client_sock := client, so_connected := True, so_notified_lost := False\<rparr>,
           emit Established w2))"

definition worker_event :: "srt_event \<Rightarrow> srt \<times> srt_world \<Rightarrow> srt \<times> srt_world" where
  "worker_event ev st = (case st of (s, w) \<Rightarrow>
     if ev_err ev then
       if \<not> sc_caller_mode (so_cfg s) \<and> ev_fd ev = so_client_sock s then drop_client (s, w)
       else notify_connection_lost (if so_connected s then EpollError else ConnectFailedReason)
              (s\<lparr>so_connected := False\<rparr>, w)
     else if ev_in ev \<and> \<not> sc_caller_mode (so_cfg s) then accept_client (ev_accept ev) (s, w)
     else if ev_out_or_connect ev then update_state_from_socket (ev_state_connected ev) (s, w)
     else (s, w))"

text \<open>The loop handles one answer of the epoll wait per iteration (\<open>None\<close>: a timeout) while
  \<open>shutting_down\<close> is not set; on exit the connection is reported down.\<close>

fun worker_loop :: "srt_event option list \<Rightarrow> srt \<times> srt_world \<Rightarrow> srt \<times> srt_world" where
  "worker_loop [] (s, w) = (s\<lparr>so_connected := False\<rparr>, w)"
| "worker_loop (e # es) (s, w) =
    (if so_shutting_down s then (s\<lparr>so_connected := False\<rparr>, w)
     else worker_loop es (case e of None \<Rightarrow> (s, w) | Some ev \<Rightarrow> worker_event ev (s, w)))"

section \<open>Sending\<close>

definition kWindowsToUnix :: u64 where [model_defs]: "kWindowsToUnix = 116444736000000000"

definition filetime_us :: "u64 \<Rightarrow> u64" where
  "filetime_us raw = (if raw > kWindowsToUnix then (raw - kWindowsToUnix) div 10 else 0)"

definition push_metrics_throttled :: "u64 \<Rightarrow> nat \<Rightarrow> srt \<times> srt_world \<Rightarrow> srt \<times> srt_world" where
  "push_metrics_throttled raw n st = (case st of (s, w) \<Rightarrow>
     let ts = filetime_us raw;
         s1 = s\<lparr>so_bytes_since_last_push := so_bytes_since_last_push s + of_nat n\<rparr>;
         elapsed = sint ts - so_last_metric_push_us s
     in if elapsed \<ge> 1000000 then
          (s1\<lparr>so_last_metric_push_us := sint ts, so_bytes_since_last_push := 0\<rparr>,
           emit (PushedMetrics ts (ucast ((so_bytes_since_last_push s1 * 8000) div word_of_int elapsed))) w)
        else (s1, w))"

record srt_send_env =
  se_rv_error :: bool
  se_error :: srt_err
  se_raw_time :: u64

definition is_connection_error :: "srt_err \<Rightarrow> bool" where
  "is_connection_error e \<longleftrightarrow> e = ECONNLOST \<or> e = ECONNREJ \<or> e = ECONNFAIL \<or> e = ECONNSETUP \<or> e = ENOCONN"

definition send_internal ::
  "bool \<Rightarrow> nat \<Rightarrow> srt_send_env \<Rightarrow> srt \<times> srt_world \<Rightarrow> bool \<times> srt \<times> srt_world" where
  "send_internal has_data n env st = (case st of (s, w) \<Rightarrow>
     if \<not> so_initialized s then (False, s, w)
     else if so_shutting_down s then (False, s, w)
     else if \<not> has_data \<or> n = 0 \<or> n > kMaxPayloadBytes then (False, s, w)
     else if \<not> so_connected s then (False, s, w)
     else if data_sock s = SRT_INVALID_SOCK then (False, s, w)
     else if se_rv_error env then
       if se_error env = EASYNCSND then (False, s, w)
       else if is_connection_error (se_error env) then
         let s1 = s\<lparr>so_connected := False\<rparr>
         in (False, if \<not> so_shutting_down s then notify_connection_lost SendmsgLost (s1, w) else (s1, w))
       else (False, s, w)
     else (True, push_metrics_throttled (se_raw_time env) n (s, w)))"

definition apply_bitrate :: "u32 \<Rightarrow> int \<Rightarrow> srt \<Rightarrow> bool \<times> srt" where
  "apply_bitrate kbps opt_result s =
    (if data_sock s = SRT_INVALID_SOCK then (False, s)
     else (opt_result \<ge> 0, s\<lparr>so_bitrate_kbps := kbps\<rparr>))"

section \<open>Shutdown\<close>

text \<open>\<open>rest\<close> is what the worker still handles before it sees the flag: nothing, since the flag
  is tested first; joining it leaves the connection reported down.\<close>

definition prepare_shutdown :: "srt \<times> srt_world \<Rightarrow> srt \<times> srt_world" where
  "prepare_shutdown st = (case st of (s, w) \<Rightarrow>
     if \<not> so_initialized s then (s, w)
     else (s\<lparr>so_initialized := False, so_shutting_down := True, so_connected := False\<rparr>, w))"

definition do_seh_cleanup :: "srt \<times> srt_world \<Rightarrow> srt \<times> srt_world" where
  "do_seh_cleanup st = (case st of (s, w) \<Rightarrow>
     if so_cleaned_up s then (s, w)
     else
       let w1 = (if so_epoll_id s \<ge> 0 then emit (Released (Epoll (so_epoll_id s))) w else w);
           w2 = (if so_client_sock s \<noteq> SRT_INVALID_SOCK
                 then emit (Released (Sock (so_client_sock s))) w1 else w1);
           w3 = (if so_sock s \<noteq> SRT_INVALID_SOCK then emit (Released (Sock (so_sock s))) w2 else w2);
           w4 = snd (registry_release w3);
           w5 = (if sw_ref w4 = 0 then emit GlobalCleanup w4 else w4)
       in (s\<lparr>so_cleaned_up := True, so_sock := SRT_INVALID_SOCK,
             so_client_sock := SRT_INVALID_SOCK, so_epoll_id := -1\<rparr>, w5))"

definition srt_shutdown :: "srt \<times> srt_world \<Rightarrow> srt \<times> srt_world" where
  "srt_shutdown st = do_seh_cleanup (prepare_shutdown st)"

definition srt_destructor :: "srt \<times> srt_world \<Rightarrow> srt \<times> srt_world" where
  "srt_destructor st =
    (case srt_shutdown st of (s, w) \<Rightarrow>
      if so_initialized s then do_seh_cleanup (prepare_shutdown (s, w)) else (s, w))"

section \<open>Handles\<close>

fun live_step :: "srt_call \<Rightarrow> srt_handle multiset \<Rightarrow> srt_handle multiset" where
  "live_step (Opened h) L = add_mset h L"
| "live_step (Released h) L = L - {#h#}"
| "live_step _ L = L"

text \<open>The handles opened and not released, over a trace.\<close>

definition live :: "srt_call list \<Rightarrow> srt_handle multiset" where
  "live tr = fold live_step tr {#}"

lemma live_emit [simp]:
  "live (sw_trace (emit c w)) = live_step c (live (sw_trace w))"
  by (simp add: live_def emit_def)

lemma emit_simps [simp]:
  "sw_once (emit c w) = sw_once w" "sw_ok (emit c w) = sw_ok w" "sw_ref (emit c w) = sw_ref w"
  by (simp_all add: emit_def)

definition held :: "srt \<Rightarrow> srt_handle multiset" where
  "held s = (if so_epoll_id s \<ge> 0 then {#Epoll (so_epoll_id s)#} else {#})
     + (if so_client_sock s \<noteq> -1 then {#Sock (so_client_sock s)#} else {#})
     + (if so_sock s \<noteq> -1 then {#Sock (so_sock s)#} else {#})"

text \<open>All live handles are those of other instances (\<open>base\<close>) and those the instance holds.\<close>

definition owns :: "srt_handle multiset \<Rightarrow> srt \<times> srt_world \<Rightarrow> bool" where
  "owns base st \<longleftrightarrow> live (sw_trace (snd st)) = base + held (fst st)"

definition srt_inv :: "srt \<Rightarrow> bool" where
  "srt_inv s \<longleftrightarrow> (so_initialized s \<longrightarrow> so_sock s \<noteq> -1 \<and> so_epoll_id s \<ge> 0)
    \<and> (\<not> so_initialized s \<longrightarrow> so_sock s = -1 \<and> so_client_sock s = -1 \<and> so_epoll_id s < 0 \<and>
         \<not> so_connected s)"

lemma live_acquire [simp]: "live (sw_trace (snd (registry_acquire ok w))) = live (sw_trace w)"
  by (simp add: registry_acquire_def Let_def)

lemma live_release [simp]: "live (sw_trace (snd (registry_release w))) = live (sw_trace w)"
  by (simp add: registry_release_def)

lemmas srt_defs = SRT_INVALID_SOCK_def close_sock_def Let_def

lemma registry_acquire_pair:
  "registry_acquire ok w = (a, w1) \<Longrightarrow> live (sw_trace w1) = live (sw_trace w)"
  using live_acquire[of ok w] by simp

lemma init_internal_owns:
  assumes "srt_inv s" "owns base (s, w)"
  shows "owns base (snd (init_internal cfg env (s, w)))"
  using assms
  by (auto simp: init_internal_def srt_defs owns_def held_def srt_inv_def
      dest: registry_acquire_pair split: prod.splits)

lemma init_internal_inv:
  assumes "srt_inv s"
  shows "srt_inv (fst (snd (init_internal cfg env (s, w))))"
  using assms
  by (auto simp: init_internal_def srt_defs srt_inv_def split: prod.splits)

lemma init_internal_initialized:
  "fst (init_internal cfg env (s, w)) \<longleftrightarrow>
    \<not> so_initialized s \<and> so_initialized (fst (snd (init_internal cfg env (s, w))))"
  by (auto simp: init_internal_def srt_defs split: prod.splits)

lemma notify_frame [simp]:
  "so_sock (fst (notify_connection_lost r (s, w))) = so_sock s"
  "so_client_sock (fst (notify_connection_lost r (s, w))) = so_client_sock s"
  "so_epoll_id (fst (notify_connection_lost r (s, w))) = so_epoll_id s"
  "so_initialized (fst (notify_connection_lost r (s, w))) = so_initialized s"
  "so_connected (fst (notify_connection_lost r (s, w))) = so_connected s"
  "so_cleaned_up (fst (notify_connection_lost r (s, w))) = so_cleaned_up s"
  "so_cfg (fst (notify_connection_lost r (s, w))) = so_cfg s"
  "held (fst (notify_connection_lost r (s, w))) = held s"
  "live (sw_trace (snd (notify_connection_lost r (s, w)))) = live (sw_trace w)"
  by (simp_all add: notify_connection_lost_def held_def)

section \<open>Operations after initialisation\<close>

datatype srt_op = OpEvent srt_event | OpSend bool nat srt_send_env | OpBitrate u32 int

fun srt_op_step :: "srt_op \<Rightarrow> srt \<times> srt_world \<Rightarrow> srt \<times> srt_world" where
  "srt_op_step (OpEvent ev) st = worker_event ev st"
| "srt_op_step (OpSend d n env) st = snd (send_internal d n env st)"
| "srt_op_step (OpBitrate k r) (s, w) = (snd (apply_bitrate k r s), w)"

text \<open>An event is for a real socket.\<close>

fun srt_op_wf :: "srt_op \<Rightarrow> bool" where
  "srt_op_wf (OpEvent ev) = (ev_fd ev \<noteq> -1)"
| "srt_op_wf _ = True"

lemma op_frame:
  "so_initialized (fst (srt_op_step op (s, w))) = so_initialized s"
  "so_sock (fst (srt_op_step op (s, w))) = so_sock s"
  "so_epoll_id (fst (srt_op_step op (s, w))) = so_epoll_id s"
  "so_cleaned_up (fst (srt_op_step op (s, w))) = so_cleaned_up s"
  by (cases op; auto simp: worker_event_def drop_client_def accept_client_def
      update_state_from_socket_def send_internal_def apply_bitrate_def push_metrics_throttled_def
      Let_def)+

lemma owns_notify: "owns base (s, w) \<Longrightarrow> owns base (notify_connection_lost r (s, w))"
  by (simp add: owns_def)

lemma owns_fields:
  "owns base (s\<lparr>so_connected := b\<rparr>, w) = owns base (s, w)"
  "owns base (s\<lparr>so_notified_lost := b\<rparr>, w) = owns base (s, w)"
  "owns base (s\<lparr>so_bytes_since_last_push := n\<rparr>, w) = owns base (s, w)"
  "owns base (s\<lparr>so_last_metric_push_us := i\<rparr>, w) = owns base (s, w)"
  "owns base (s\<lparr>so_bitrate_kbps := k\<rparr>, w) = owns base (s, w)"
  "owns base (s, emit Established w) = owns base (s, w)"
  "owns base (s, emit (PushedMetrics t m) w) = owns base (s, w)"
  by (simp_all add: owns_def held_def)

lemma drop_client_owns:
  assumes "owns base (s, w)" "so_client_sock s \<noteq> -1"
  shows "owns base (drop_client (s, w))"
proof -
  let ?s = "s\<lparr>so_client_sock := -1, so_connected := False\<rparr>"
  let ?w = "emit (Released (Sock (so_client_sock s))) w"
  have "owns base (?s, ?w)" using assms by (simp add: owns_def held_def)
  then show ?thesis by (auto simp: drop_client_def srt_defs owns_notify)
qed

lemma accept_client_owns: "owns base (s, w) \<Longrightarrow> owns base (accept_client c (s, w))"
  by (simp add: accept_client_def srt_defs owns_def held_def)

lemma update_state_owns: "owns base (s, w) \<Longrightarrow> owns base (update_state_from_socket b (s, w))"
  by (simp add: update_state_from_socket_def Let_def owns_notify owns_fields)

lemma op_owns:
  assumes "owns base (s, w)" "srt_op_wf op"
  shows "owns base (srt_op_step op (s, w))"
proof (cases op)
  case (OpEvent ev)
  with assms show ?thesis
    by (auto simp: worker_event_def drop_client_owns accept_client_owns update_state_owns
        owns_notify owns_fields)
next
  case (OpSend d n env)
  with assms(1) show ?thesis
    by (simp add: send_internal_def push_metrics_throttled_def Let_def owns_notify owns_fields)
next
  case (OpBitrate k r)
  with assms show ?thesis by (simp add: apply_bitrate_def owns_fields)
qed

lemma ops_owns:
  assumes "owns base st" "list_all srt_op_wf ops"
  shows "owns base (fold srt_op_step ops st)"
  using assms
proof (induction ops arbitrary: st)
  case (Cons op ops)
  then show ?case using op_owns by (cases st) simp
qed simp

lemma ops_cleaned_up: "so_cleaned_up (fst (fold srt_op_step ops st)) = so_cleaned_up (fst st)"
proof (induction ops arbitrary: st)
  case (Cons op ops)
  then show ?case using op_frame(4)[of op "fst st" "snd st"] by simp
qed simp

lemma shutdown_releases:
  assumes "owns base (s, w)" "\<not> so_cleaned_up s"
  shows "live (sw_trace (snd (srt_shutdown (s, w)))) = base"
  using assms
  by (auto simp: srt_shutdown_def prepare_shutdown_def do_seh_cleanup_def owns_def held_def srt_defs)

section \<open>Notifications\<close>

text \<open>Reading a trace of one instance: \<open>Some b\<close> after a well-formed prefix, where \<open>b\<close> tells
  whether the loss of the current connection has been notified; \<open>None\<close> once a second
  notification came without a new connection in between.\<close>

fun notify_step :: "srt_call \<Rightarrow> bool option \<Rightarrow> bool option" where
  "notify_step (NotifiedLost _) (Some b) = (if b then None else Some True)"
| "notify_step Established (Some _) = Some False"
| "notify_step _ x = x"

definition notify_state :: "srt_call list \<Rightarrow> bool option" where
  "notify_state tr = fold notify_step tr (Some False)"

lemma notify_state_emit [simp]:
  "notify_state (sw_trace (emit c w)) = notify_step c (notify_state (sw_trace w))"
  by (simp add: notify_state_def emit_def)

definition notify_ok :: "srt \<times> srt_world \<Rightarrow> bool" where
  "notify_ok st \<longleftrightarrow> notify_state (sw_trace (snd st)) = Some (so_notified_lost (fst st))"

lemma notify_ok_fields:
  "notify_ok (s\<lparr>so_connected := b\<rparr>, w) = notify_ok (s, w)"
  "notify_ok (s\<lparr>so_client_sock := i\<rparr>, w) = notify_ok (s, w)"
  "notify_ok (s\<lparr>so_bytes_since_last_push := n\<rparr>, w) = notify_ok (s, w)"
  "notify_ok (s\<lparr>so_last_metric_push_us := i\<rparr>, w) = notify_ok (s, w)"
  "notify_ok (s\<lparr>so_bitrate_kbps := k\<rparr>, w) = notify_ok (s, w)"
  "notify_ok (s, emit (PushedMetrics t m) w) = notify_ok (s, w)"
  "notify_ok (s, emit (Released h) w) = notify_ok (s, w)"
  "notify_ok (s, emit (Opened h) w) = notify_ok (s, w)"
  by (simp_all add: notify_ok_def)

lemma notify_ok_established:
  "notify_ok (s, w) \<Longrightarrow> notify_ok (s\<lparr>so_notified_lost := False\<rparr>, emit Established w)"
  by (simp add: notify_ok_def)

lemma notify_ok_notify: "notify_ok (s, w) \<Longrightarrow> notify_ok (notify_connection_lost r (s, w))"
  by (simp add: notify_ok_def notify_connection_lost_def)

lemma notify_ok_drop: "notify_ok (s, w) \<Longrightarrow> notify_ok (drop_client (s, w))"
  by (simp add: drop_client_def Let_def notify_ok_notify notify_ok_fields)

lemma notify_ok_accept: "notify_ok (s, w) \<Longrightarrow> notify_ok (accept_client c (s, w))"
  by (simp add: accept_client_def Let_def notify_ok_def)

lemma notify_ok_update: "notify_ok (s, w) \<Longrightarrow> notify_ok (update_state_from_socket b (s, w))"
  using notify_ok_established[of "s\<lparr>so_connected := True\<rparr>" w]
  by (simp add: update_state_from_socket_def Let_def notify_ok_notify notify_ok_fields)

lemma op_notify_ok:
  assumes "notify_ok (s, w)"
  shows "notify_ok (srt_op_step op (s, w))"
  using assms
  by (cases op) (simp_all add: worker_event_def send_internal_def apply_bitrate_def Let_def
      push_metrics_throttled_def notify_ok_drop notify_ok_accept notify_ok_update notify_ok_notify
      notify_ok_fields)

lemma ops_notify_ok: "notify_ok st \<Longrightarrow> notify_ok (fold srt_op_step ops st)"
proof (induction ops arbitrary: st)
  case (Cons op ops)
  then show ?case using op_notify_ok[of "fst st" "snd st" op] by simp
qed simp

lemma init_notify_ok:
  assumes "notify_ok (s, w)"
  shows "notify_ok (snd (init_internal cfg env (s, w)))"
proof -
  have acq: "registry_acquire (ie_startup_ok env) w = (a, w1) \<Longrightarrow>
      notify_state (sw_trace w1) = notify_state (sw_trace w)" for a w1
    by (auto simp: registry_acquire_def Let_def split: if_splits)
  obtain a w1 where r: "registry_acquire (ie_startup_ok env) w = (a, w1)" by (rule prod.exhaust)
  show ?thesis
    using assms acq[OF r] by (simp add: init_internal_def srt_defs notify_ok_def r)
qed

section \<open>Properties\<close>

definition demo_srt_config :: srt_config where
  "demo_srt_config = \<lparr>sc_host = ''127.0.0.1'', sc_port = 9000, sc_latency_ms = 0,
     sc_bandwidth_kbps = 6000, sc_caller_mode = True, sc_on_connection_lost = True,
     sc_on_metrics = True\<rparr>"

definition demo_init_env :: srt_init_env where
  "demo_init_env = \<lparr>ie_com = S_OK, ie_startup_ok = True, ie_socket = 5, ie_opts = [0, 0, 0, 0, 0],
     ie_addr_ok = True, ie_connect = None, ie_bind_ok = True, ie_listen_ok = True, ie_epoll = 3,
     ie_epoll_add_ok = True\<rparr>"

definition demo_event :: srt_event where
  "demo_event = \<lparr>ev_fd = 5, ev_err = False, ev_in = False, ev_out_or_connect = True,
     ev_accept = -1, ev_state_connected = True\<rparr>"

lemmas demo_defs = demo_srt_config_def demo_init_env_def demo_event_def srt_new_def
  srt_world_new_def empty_srt_config_def

lemma srt_new_inv: "srt_inv srt_new" "\<not> so_initialized srt_new"
  by (simp_all add: srt_inv_def srt_new_def)

lemma srt_new_owns: "owns (live (sw_trace w)) (srt_new, w)"
  by (simp add: owns_def held_def srt_new_def)

text \<open>C26: A new SRT sender leaks no handle over its life: whatever the library answers to the
  initialisation, and whatever worker events, sends and bitrate changes follow, after
  \<open>shutdown\<close> exactly the sockets and epoll ids are open that were open before; and a failed
  initialisation has already released everything it opened.\<close>

theorem srt_no_handle_leak:
  assumes "list_all srt_op_wf ops"
  shows "live (sw_trace (snd (srt_shutdown
      (fold srt_op_step ops (snd (init_internal cfg env (srt_new, w))))))) = live (sw_trace w)
    \<and> (\<not> fst (init_internal cfg env (srt_new, w)) \<longrightarrow>
      live (sw_trace (snd (snd (init_internal cfg env (srt_new, w))))) = live (sw_trace w))"
proof -
  let ?st = "snd (init_internal cfg env (srt_new, w))"
  have own: "owns (live (sw_trace w)) ?st"
    by (rule init_internal_owns[OF srt_new_inv(1) srt_new_owns])
  have inv: "srt_inv (fst ?st)" by (rule init_internal_inv[OF srt_new_inv(1)])
  have clean: "\<not> so_cleaned_up (fst ?st)"
    by (auto simp: init_internal_def srt_defs srt_new_def split: prod.splits)
  have "live (sw_trace (snd (srt_shutdown (fold srt_op_step ops ?st)))) = live (sw_trace w)"
    using shutdown_releases[of _ "fst (fold srt_op_step ops ?st)" "snd (fold srt_op_step ops ?st)"]
      ops_owns[OF own assms] ops_cleaned_up[of ops ?st] clean by simp
  moreover have "held (fst ?st) = {#}" if "\<not> fst (init_internal cfg env (srt_new, w))"
    using that inv init_internal_initialized[of cfg env srt_new w] srt_new_inv(2)
    by (auto simp: srt_inv_def held_def)
  ultimately show ?thesis using own by (simp add: owns_def)
qed

lemma srt_no_handle_leak_witness:
  "live (sw_trace (snd (srt_shutdown (fold srt_op_step [OpEvent demo_event]
      (snd (init_internal demo_srt_config demo_init_env (srt_new, srt_world_new))))))) = {#}"
  using srt_no_handle_leak[of "[OpEvent demo_event]" demo_srt_config demo_init_env srt_world_new]
  by (simp add: demo_event_def srt_world_new_def live_def)

text \<open>A lost connection is notified at most once per connection: in the trace of an instance
  in its own process, two notifications always have an established connection (or
  initialisation) between them, and \<open>notified_lost\<close> tells exactly whether the current
  connection's loss has been notified.\<close>

theorem srt_notifies_once_per_connection:
  "notify_state (sw_trace (snd (fold srt_op_step ops
      (snd (init_internal cfg env (srt_new, srt_world_new)))))) =
   Some (so_notified_lost (fst (fold srt_op_step ops
      (snd (init_internal cfg env (srt_new, srt_world_new))))))"
proof -
  have "notify_ok (srt_new, srt_world_new)"
    by (simp add: notify_ok_def notify_state_def demo_defs)
  from ops_notify_ok[OF init_notify_ok[OF this]] show ?thesis by (simp add: notify_ok_def)
qed

text \<open>A packet is reported as sent exactly when the sender is initialised, not shutting down
  and connected with a valid socket, the packet has between 1 and 1456 bytes, and the library
  accepted it. In particular every packet above 1456 bytes is refused, before the library is
  called, and without any effect on the state.\<close>

theorem srt_send_accepts_iff:
  "(fst (send_internal d n env (s, w)) \<longleftrightarrow>
     so_initialized s \<and> \<not> so_shutting_down s \<and> so_connected s \<and> data_sock s \<noteq> -1
     \<and> d \<and> 0 < n \<and> n \<le> 1456 \<and> \<not> se_rv_error env)
   \<and> (n > 1456 \<longrightarrow> send_internal d n env (s, w) = (False, s, w))"
  by (auto simp: send_internal_def model_defs Let_def)

lemma srt_send_accepts_iff_witness:
  "send_internal True 12500 \<lparr>se_rv_error = False, se_error = OtherErr, se_raw_time = 0\<rparr>
     (srt_new, srt_world_new) = (False, srt_new, srt_world_new)"
  using srt_send_accepts_iff[of True 12500 _ srt_new srt_world_new] by simp

text \<open>The global reference count is not balanced when an initialisation failed before
  acquiring it: shutting down such an instance while one other instance is live takes the
  count to zero and runs the global library cleanup under the live instance.\<close>

theorem failed_init_shutdown_cleans_up_library:
  assumes "sw_ok w" "sw_ref w = 1" "\<not> sc_on_metrics cfg"
  shows "let st = srt_shutdown (snd (init_internal cfg env (srt_new, w)))
    in sw_ref (snd st) = 0 \<and> GlobalCleanup \<in> set (sw_trace (snd st))"
  using assms
  by (simp add: init_internal_def srt_shutdown_def prepare_shutdown_def do_seh_cleanup_def
      registry_release_def srt_defs srt_new_def emit_def)

lemma failed_init_shutdown_cleans_up_library_witness:
  "let st = srt_shutdown (snd (init_internal (demo_srt_config\<lparr>sc_on_metrics := False\<rparr>) demo_init_env
      (srt_new, \<lparr>sw_once = True, sw_ok = True, sw_ref = 1, sw_trace = []\<rparr>)))
    in sw_ref (snd st) = 0 \<and> GlobalCleanup \<in> set (sw_trace (snd st))"
  by (rule failed_init_shutdown_cleans_up_library) simp_all

text \<open>\<open>already_cleaned_up_\<close> is never rearmed: an instance that was shut down once and
  initialised again keeps its socket and epoll id open over its second shutdown.\<close>

theorem second_shutdown_leaks:
  assumes "srt_inv s" "so_cleaned_up s" "owns base (s, w)"
    and "init_internal cfg env (s, w) = (True, s1, w1)"
  shows "live (sw_trace (snd (srt_shutdown (s1, w1)))) =
    base + {#Epoll (ie_epoll env), Sock (ie_socket env)#}"
proof -
  have own: "owns base (s1, w1)" using init_internal_owns[OF assms(1,3), of cfg env] assms(4) by simp
  have "so_cleaned_up s1" "so_epoll_id s1 = ie_epoll env" "so_sock s1 = ie_socket env"
    "so_client_sock s1 = -1" "so_initialized s1" "ie_epoll env \<ge> 0" "ie_socket env \<noteq> -1"
    using assms(1,2,4)
    by (auto simp: init_internal_def srt_defs srt_inv_def split: prod.splits if_splits)
  with own show ?thesis
    by (simp add: srt_shutdown_def prepare_shutdown_def do_seh_cleanup_def owns_def held_def)
qed

lemma second_shutdown_leaks_witness:
  "live (sw_trace (snd (srt_shutdown (snd (init_internal demo_srt_config demo_init_env
      (srt_new\<lparr>so_cleaned_up := True\<rparr>, srt_world_new)))))) = {#Epoll 3, Sock 5#}"
proof -
  let ?s = "srt_new\<lparr>so_cleaned_up := True\<rparr>"
  have a: "srt_inv ?s" "so_cleaned_up ?s" "owns {#} (?s, srt_world_new)"
    by (simp_all add: srt_inv_def owns_def held_def live_def demo_defs)
  obtain s1 w1 where i: "init_internal demo_srt_config demo_init_env (?s, srt_world_new) = (True, s1, w1)"
    by (simp add: init_internal_def srt_defs demo_defs com_init_now_def registry_acquire_def
        configure_socket_def connect_fails_def)
  show ?thesis using second_shutdown_leaks[OF a i] i by (simp add: demo_init_env_def)
qed


text \<open>The library is started once per process, but cleaned up whenever the last sender goes: the
  next sender acquires the registry without starting the library again.\<close>

lemma library_not_started_again:
  assumes "sw_once w" and "sw_ok w" and "sw_ref w = 1" and "\<not> so_cleaned_up s"
  shows "let w' = snd (srt_shutdown (s, w)) in
    List.last (sw_trace w') = GlobalCleanup \<and> registry_acquire ok w' = (True, w'\<lparr>sw_ref := 1\<rparr>)"
  using assms
  by (simp add: srt_shutdown_def prepare_shutdown_def do_seh_cleanup_def registry_release_def
      registry_acquire_def emit_def Let_def)

end
