(* ===== verification/OutputSubsystem.thy ===== *)
theory OutputSubsystem
  imports SrtOutput
begin

text \<open>
  The transport contract (\<open>include/i_transport.h\<close>) and its users: \<open>RtmpTransport\<close>
  (\<open>output/rtmp_transport.cpp\<close>, whose native part is an external library),
  \<open>SrtTransport\<close> (\<open>output/srt_transport.cpp\<close>), the factory (\<open>i_transport.cpp\<close>)
  and \<open>OutputSubsystem\<close> (\<open>output_subsystem.cpp\<close>). The contract is the locale
  \<open>transport\<close>; both transports interpret it, and so does the dispatch that the subsystem calls.
\<close>

section \<open>The contract\<close>

text \<open>\<open>'i\<close>, \<open>'s\<close>, \<open>'q\<close> and \<open>'d\<close> are the arguments of the operations together with what
  the external calls answer. A transport is live from a successful initialisation on.\<close>

locale transport =
  fixes init :: "'i \<Rightarrow> 't \<Rightarrow> bool \<times> 't"
    and send :: "'s \<Rightarrow> 't \<Rightarrow> bool \<times> 't"
    and connected :: "'q \<Rightarrow> 't \<Rightarrow> bool"
    and shutdown :: "'d \<Rightarrow> 't \<Rightarrow> 't"
    and live :: "'t \<Rightarrow> bool"
    and inv :: "'t \<Rightarrow> bool"
  assumes init_inv: "inv t \<Longrightarrow> inv (snd (init i t))"
    and send_inv: "inv t \<Longrightarrow> inv (snd (send s t))"
    and init_refused: "inv t \<Longrightarrow> live t \<Longrightarrow> init i t = (False, t)"
    and init_live: "inv t \<Longrightarrow> \<not> live t \<Longrightarrow> live (snd (init i t)) \<longleftrightarrow> fst (init i t)"
    and send_dead: "inv t \<Longrightarrow> \<not> live t \<Longrightarrow> send s t = (False, t)"
    and send_live: "inv t \<Longrightarrow> live (snd (send s t)) = live t"
    and connected_live: "inv t \<Longrightarrow> connected q t \<Longrightarrow> live t"
begin

lemma init_result: "inv t \<Longrightarrow> fst (init i t) \<Longrightarrow> \<not> live t \<and> live (snd (init i t))"
  using init_refused init_live by (cases "live t") auto

lemma init_twice:
  assumes "inv t" "fst (init i t)"
  shows "init j (snd (init i t)) = (False, snd (init i t))"
  using init_refused[OF init_inv[OF assms(1)]] init_result[OF assms] by blast

lemma sends_inv_live:
  "inv t \<Longrightarrow> inv (fold (\<lambda>s t. snd (send s t)) ss t) \<and> live (fold (\<lambda>s t. snd (send s t)) ss t) = live t"
proof (induction ss arbitrary: t)
  case (Cons s ss)
  then show ?case using send_inv[of t s] send_live[of t s] by simp
qed simp

lemma send_needs_live: "inv t \<Longrightarrow> fst (send s t) \<Longrightarrow> live t"
  using send_dead by (cases "live t") auto

end

section \<open>RTMP\<close>

text \<open>The handle of the native transport; \<open>0\<close> is null.\<close>

record rtmp = rt_handle :: nat

definition rtmp_new :: rtmp where "rtmp_new = \<lparr>rt_handle = 0\<rparr>"

datatype protocol = Srt | Rtmp

record transport_config =
  tc_protocol :: protocol
  tc_host :: string
  tc_stream_key :: string
  tc_port :: u16
  tc_latency_ms :: u32
  tc_bandwidth_kbps :: u32
  tc_caller_mode :: bool
  tc_on_connection_lost :: bool
  tc_on_metrics :: bool

record rtmp_init_env =
  re_create :: nat
  re_init_ok :: bool

definition rtmp_init :: "transport_config \<times> rtmp_init_env \<Rightarrow> rtmp \<Rightarrow> bool \<times> rtmp" where
  "rtmp_init ce t = (case ce of (cfg, env) \<Rightarrow>
     if rt_handle t \<noteq> 0 then (False, t)
     else if tc_host cfg = [] \<or> tc_stream_key cfg = [] then (False, t)
     else
       let t1 = t\<lparr>rt_handle := re_create env\<rparr>
       in if rt_handle t1 = 0 then (False, t1)
          else if \<not> re_init_ok env then (False, t1\<lparr>rt_handle := 0\<rparr>)
          else (True, t1))"

text \<open>Native calls answer a boolean, or \<open>None\<close> for an exception turned into \<open>false\<close>.\<close>

definition caught :: "bool option \<Rightarrow> bool" where
  "caught r = (case r of None \<Rightarrow> False | Some b \<Rightarrow> b)"

definition rtmp_send :: "bool option \<Rightarrow> rtmp \<Rightarrow> bool \<times> rtmp" where
  "rtmp_send r t = (if rt_handle t = 0 then (False, t) else (caught r, t))"

definition rtmp_set_audio_config :: "bool \<Rightarrow> rtmp \<Rightarrow> bool" where
  "rtmp_set_audio_config r t = (if rt_handle t = 0 then False else r)"

definition rtmp_send_audio :: "bool option \<Rightarrow> rtmp \<Rightarrow> bool \<times> rtmp" where
  "rtmp_send_audio r t = (if rt_handle t = 0 then (False, t) else (caught r, t))"

definition rtmp_is_connected :: "bool \<Rightarrow> rtmp \<Rightarrow> bool" where
  "rtmp_is_connected r t = (if rt_handle t = 0 then False else r)"

text \<open>\<open>shutdown\<close> closes the native connection but keeps the handle until destruction.\<close>

definition rtmp_shutdown :: "rtmp \<Rightarrow> rtmp" where
  "rtmp_shutdown t = t"

definition rtmp_destroy :: "rtmp \<Rightarrow> rtmp" where
  "rtmp_destroy t = (if rt_handle t \<noteq> 0 then t\<lparr>rt_handle := 0\<rparr> else t)"

interpretation rtmp_contract: transport rtmp_init rtmp_send rtmp_is_connected
  "\<lambda>_ :: unit. rtmp_shutdown" "\<lambda>t. rt_handle t \<noteq> 0" "\<lambda>_. True"
  by unfold_locales
    (auto simp: rtmp_init_def rtmp_send_def rtmp_is_connected_def Let_def split: prod.splits if_splits)

section \<open>SRT behind the transport interface\<close>

text \<open>\<open>strncpy_s\<close> keeps at most 255 characters of the host name.\<close>

definition srt_transport_config :: "transport_config \<Rightarrow> srt_config" where
  "srt_transport_config cfg =
    \<lparr>sc_host = take 255 (tc_host cfg), sc_port = tc_port cfg, sc_latency_ms = tc_latency_ms cfg,
     sc_bandwidth_kbps = tc_bandwidth_kbps cfg, sc_caller_mode = tc_caller_mode cfg,
     sc_on_connection_lost = tc_on_connection_lost cfg, sc_on_metrics = tc_on_metrics cfg\<rparr>"

definition srt_transport_init ::
  "transport_config \<times> srt_init_env \<Rightarrow> srt \<times> srt_world \<Rightarrow> bool \<times> srt \<times> srt_world" where
  "srt_transport_init ce t = (case ce of (cfg, env) \<Rightarrow> init_internal (srt_transport_config cfg) env t)"

definition srt_transport_send ::
  "bool \<times> nat \<times> srt_send_env \<Rightarrow> srt \<times> srt_world \<Rightarrow> bool \<times> srt \<times> srt_world" where
  "srt_transport_send p t = (case p of (d, n, env) \<Rightarrow> send_internal d n env t)"

definition srt_is_connected :: "srt \<times> srt_world \<Rightarrow> bool" where
  "srt_is_connected t = so_connected (fst t)"

lemma send_internal_frame:
  "so_initialized (fst (snd (send_internal d n env (s, w)))) = so_initialized s"
  "so_sock (fst (snd (send_internal d n env (s, w)))) = so_sock s"
  "so_client_sock (fst (snd (send_internal d n env (s, w)))) = so_client_sock s"
  "so_epoll_id (fst (snd (send_internal d n env (s, w)))) = so_epoll_id s"
  "so_connected (fst (snd (send_internal d n env (s, w)))) \<Longrightarrow> so_connected s"
  by (auto simp: send_internal_def push_metrics_throttled_def Let_def split: if_splits)

lemma send_internal_inv: "srt_inv s \<Longrightarrow> srt_inv (fst (snd (send_internal d n env (s, w))))"
  unfolding srt_inv_def send_internal_frame(1-4) using send_internal_frame(5)[of d n env s w] by auto

interpretation srt_contract: transport srt_transport_init srt_transport_send "\<lambda>_ :: unit. srt_is_connected"
  "\<lambda>_ :: unit. srt_shutdown" "\<lambda>t. so_initialized (fst t)" "\<lambda>t. srt_inv (fst t)"
proof unfold_locales
  fix t :: "srt \<times> srt_world" and i :: "transport_config \<times> srt_init_env"
    and s :: "bool \<times> nat \<times> srt_send_env"
  obtain x w where t: "t = (x, w)" by fastforce
  obtain cfg env where i: "i = (cfg, env)" by fastforce
  obtain d n senv where s: "s = (d, n, senv)" using prod_cases3 by blast
  show "srt_inv (fst t) \<Longrightarrow> srt_inv (fst (snd (srt_transport_init i t)))"
    by (simp add: srt_transport_init_def i t init_internal_inv)
  show "srt_inv (fst t) \<Longrightarrow> srt_inv (fst (snd (srt_transport_send s t)))"
    by (simp add: srt_transport_send_def s t send_internal_inv)
  show "so_initialized (fst t) \<Longrightarrow> srt_transport_init i t = (False, t)"
    by (simp add: srt_transport_init_def i t init_internal_def)
  show "\<not> so_initialized (fst t) \<Longrightarrow>
      so_initialized (fst (snd (srt_transport_init i t))) = fst (srt_transport_init i t)"
    by (simp add: srt_transport_init_def i t init_internal_initialized)
  show "\<not> so_initialized (fst t) \<Longrightarrow> srt_transport_send s t = (False, t)"
    by (simp add: srt_transport_send_def s t send_internal_def)
  show "so_initialized (fst (snd (srt_transport_send s t))) = so_initialized (fst t)"
    by (simp add: srt_transport_send_def s t send_internal_frame)
  show "srt_inv (fst t) \<Longrightarrow> srt_is_connected t \<Longrightarrow> so_initialized (fst t)"
    by (auto simp: srt_is_connected_def srt_inv_def)
qed

section \<open>The factory and the dispatch\<close>

datatype a_transport = TSrt "srt \<times> srt_world" | TRtmp rtmp

definition create_transport :: "srt_world \<Rightarrow> protocol \<Rightarrow> a_transport" where
  "create_transport w proto = (case proto of Rtmp \<Rightarrow> TRtmp rtmp_new | Srt \<Rightarrow> TSrt (srt_new, w))"

record output_env =
  oe_srt_init :: srt_init_env
  oe_rtmp_init :: rtmp_init_env
  oe_srt_send :: srt_send_env
  oe_rtmp_send :: "bool option"
  oe_rtmp_connected :: bool

fun t_init :: "transport_config \<times> output_env \<Rightarrow> a_transport \<Rightarrow> bool \<times> a_transport" where
  "t_init (cfg, env) (TSrt t) = (case srt_transport_init (cfg, oe_srt_init env) t of (b, t') \<Rightarrow> (b, TSrt t'))"
| "t_init (cfg, env) (TRtmp t) = (case rtmp_init (cfg, oe_rtmp_init env) t of (b, t') \<Rightarrow> (b, TRtmp t'))"

fun t_send :: "bool \<times> nat \<times> output_env \<Rightarrow> a_transport \<Rightarrow> bool \<times> a_transport" where
  "t_send (d, n, env) (TSrt t) = (case srt_transport_send (d, n, oe_srt_send env) t of (b, t') \<Rightarrow> (b, TSrt t'))"
| "t_send (d, n, env) (TRtmp t) = (case rtmp_send (oe_rtmp_send env) t of (b, t') \<Rightarrow> (b, TRtmp t'))"

fun t_connected :: "output_env \<Rightarrow> a_transport \<Rightarrow> bool" where
  "t_connected env (TSrt t) = srt_is_connected t"
| "t_connected env (TRtmp t) = rtmp_is_connected (oe_rtmp_connected env) t"

fun t_shutdown :: "a_transport \<Rightarrow> a_transport" where
  "t_shutdown (TSrt t) = TSrt (srt_shutdown t)"
| "t_shutdown (TRtmp t) = TRtmp (rtmp_shutdown t)"

text \<open>Audio goes to RTMP only; the SRT transport inherits the refusing default.\<close>

fun t_send_audio :: "output_env \<Rightarrow> a_transport \<Rightarrow> bool \<times> a_transport" where
  "t_send_audio env (TSrt t) = (False, TSrt t)"
| "t_send_audio env (TRtmp t) = (case rtmp_send_audio (oe_rtmp_send env) t of (b, t') \<Rightarrow> (b, TRtmp t'))"

fun t_set_audio_config :: "bool \<Rightarrow> a_transport \<Rightarrow> bool" where
  "t_set_audio_config r (TSrt t) = False"
| "t_set_audio_config r (TRtmp t) = rtmp_set_audio_config r t"

fun t_live :: "a_transport \<Rightarrow> bool" where
  "t_live (TSrt t) = so_initialized (fst t)"
| "t_live (TRtmp t) = (rt_handle t \<noteq> 0)"

fun t_inv :: "a_transport \<Rightarrow> bool" where
  "t_inv (TSrt t) = srt_inv (fst t)"
| "t_inv (TRtmp t) = True"

interpretation dispatch: transport t_init t_send t_connected "\<lambda>_ :: unit. t_shutdown" t_live t_inv
proof unfold_locales
  fix t and i :: "transport_config \<times> output_env" and s :: "bool \<times> nat \<times> output_env" and q
  obtain cfg env where i: "i = (cfg, env)" by fastforce
  obtain d n senv where s: "s = (d, n, senv)" using prod_cases3 by blast
  show "t_inv t \<Longrightarrow> t_inv (snd (t_init i t))"
    using srt_contract.init_inv[of "case t of TSrt x \<Rightarrow> x" "(cfg, oe_srt_init env)"]
    by (cases t) (auto simp: i split: prod.splits)
  show "t_inv t \<Longrightarrow> t_inv (snd (t_send s t))"
    using srt_contract.send_inv[of "case t of TSrt x \<Rightarrow> x" "(d, n, oe_srt_send senv)"]
    by (cases t) (auto simp: s split: prod.splits)
  show "t_inv t \<Longrightarrow> t_live t \<Longrightarrow> t_init i t = (False, t)"
    by (cases t) (simp_all add: i srt_contract.init_refused rtmp_contract.init_refused)
  show "t_inv t \<Longrightarrow> \<not> t_live t \<Longrightarrow> t_live (snd (t_init i t)) = fst (t_init i t)"
    using srt_contract.init_live[of "case t of TSrt x \<Rightarrow> x" "(cfg, oe_srt_init env)"]
      rtmp_contract.init_live[where t = "case t of TRtmp x \<Rightarrow> x" and i = "(cfg, oe_rtmp_init env)"]
    by (cases t) (auto simp: i split: prod.splits)
  show "t_inv t \<Longrightarrow> \<not> t_live t \<Longrightarrow> t_send s t = (False, t)"
    by (cases t) (simp_all add: s srt_contract.send_dead rtmp_contract.send_dead)
  show "t_inv t \<Longrightarrow> t_live (snd (t_send s t)) = t_live t"
    using srt_contract.send_live[of "case t of TSrt x \<Rightarrow> x" "(d, n, oe_srt_send senv)"]
      rtmp_contract.send_live[where t = "case t of TRtmp x \<Rightarrow> x" and s = "oe_rtmp_send senv"]
    by (cases t) (auto simp: s split: prod.splits)
  show "t_inv t \<Longrightarrow> t_connected q t \<Longrightarrow> t_live t"
    using srt_contract.connected_live rtmp_contract.connected_live by (cases t) auto
qed

section \<open>The output subsystem\<close>

text \<open>\<open>os_transport\<close> owns the transport; \<open>os_published\<close> is the atomic pointer, which is
  null or the owned transport; \<open>os_world\<close> is the process-wide SRT state while no SRT
  transport carries it. Dropping a transport runs its destructor.\<close>

record output_subsystem =
  os_transport :: "a_transport option"
  os_published :: bool
  os_world :: srt_world

definition output_new :: output_subsystem where
  "output_new = \<lparr>os_transport = None, os_published = False, os_world = srt_world_new\<rparr>"

fun destroy_transport :: "a_transport option \<Rightarrow> srt_world \<Rightarrow> srt_world" where
  "destroy_transport (Some (TSrt t)) w = snd (srt_destructor t)"
| "destroy_transport _ w = w"

definition output_init ::
  "transport_config \<Rightarrow> output_env \<Rightarrow> output_subsystem \<Rightarrow> bool \<times> output_subsystem" where
  "output_init cfg_in env os =
    (let cfg = cfg_in\<lparr>tc_on_connection_lost := True, tc_on_metrics := True\<rparr>;
         w = destroy_transport (os_transport os) (os_world os)
     in case t_init (cfg, env) (create_transport w (tc_protocol cfg)) of (ok, t) \<Rightarrow>
        if \<not> ok then (False, os\<lparr>os_transport := None, os_world := destroy_transport (Some t) w\<rparr>)
        else (True, os\<lparr>os_transport := Some t, os_world := w\<rparr>))"

definition output_set_streaming :: "bool \<Rightarrow> output_subsystem \<Rightarrow> output_subsystem" where
  "output_set_streaming active os =
     os\<lparr>os_published := (active \<and> os_transport os \<noteq> None)\<rparr>"

text \<open>The transport a packet callback sees.\<close>

definition output_target :: "output_subsystem \<Rightarrow> a_transport option" where
  "output_target os = (if os_published os then os_transport os else None)"

text \<open>\<open>seh_srt_send\<close>: 0 for sent, 1 for refused, -2 for a caught exception. \<open>crash\<close> tells
  that the call raised one.\<close>

definition seh_srt_send :: "bool \<Rightarrow> bool \<times> nat \<times> output_env \<Rightarrow> a_transport \<Rightarrow> int \<times> a_transport" where
  "seh_srt_send crash args t =
     (if crash then (-2, t) else case t_send args t of (b, t') \<Rightarrow> (if b then 0 else 1, t'))"

definition seh_srt_send_audio :: "bool \<Rightarrow> output_env \<Rightarrow> a_transport \<Rightarrow> int \<times> a_transport" where
  "seh_srt_send_audio crash env t =
     (if crash then (-2, t) else case t_send_audio env t of (b, t') \<Rightarrow> (if b then 0 else 1, t'))"

definition output_send ::
  "bool \<Rightarrow> bool \<Rightarrow> nat \<Rightarrow> output_env \<Rightarrow> output_subsystem \<Rightarrow> bool \<times> output_subsystem" where
  "output_send crash d n env os = (case output_target os of
     None \<Rightarrow> (True, os)
   | Some t \<Rightarrow>
       if \<not> t_connected env t then (True, os)
       else case seh_srt_send crash (d, n, env) t of (rv, t') \<Rightarrow>
         (rv = 0, os\<lparr>os_transport := Some t'\<rparr>))"

definition output_set_audio_config :: "bool \<Rightarrow> output_subsystem \<Rightarrow> bool" where
  "output_set_audio_config r os = (case output_target os of
     None \<Rightarrow> False | Some t \<Rightarrow> t_set_audio_config r t)"

definition output_send_audio :: "bool \<Rightarrow> output_env \<Rightarrow> output_subsystem \<Rightarrow> bool \<times> output_subsystem" where
  "output_send_audio crash env os = (case output_target os of
     None \<Rightarrow> (True, os)
   | Some t \<Rightarrow> (case seh_srt_send_audio crash env t of (rv, t') \<Rightarrow>
       (rv = 0, os\<lparr>os_transport := Some t'\<rparr>)))"

definition output_shutdown :: "output_subsystem \<Rightarrow> output_subsystem" where
  "output_shutdown os = os\<lparr>os_published := False, os_transport := None,
     os_world := destroy_transport (os_transport os) (os_world os)\<rparr>"

definition output_is_active :: "output_subsystem \<Rightarrow> bool" where
  "output_is_active os \<longleftrightarrow> os_transport os \<noteq> None"

section \<open>Properties\<close>

definition output_inv :: "output_subsystem \<Rightarrow> bool" where
  "output_inv os \<longleftrightarrow> (case os_transport os of None \<Rightarrow> True | Some t \<Rightarrow> t_inv t \<and> t_live t)"

lemma t_inv_created: "t_inv (create_transport w p)" "\<not> t_live (create_transport w p)"
  by (cases p; simp add: create_transport_def srt_new_inv rtmp_new_def)+

lemma output_init_inv: "output_inv (snd (output_init cfg env os))"
proof -
  let ?cfg = "cfg\<lparr>tc_on_connection_lost := True, tc_on_metrics := True\<rparr>"
  let ?t = "create_transport (destroy_transport (os_transport os) (os_world os)) (tc_protocol ?cfg)"
  have "t_inv (snd (t_init (?cfg, env) ?t))"
    "t_live (snd (t_init (?cfg, env) ?t)) = fst (t_init (?cfg, env) ?t)"
    using dispatch.init_inv dispatch.init_live t_inv_created by blast+
  then show ?thesis
    by (auto simp: output_init_def output_inv_def Let_def split: prod.splits option.splits)
qed

lemma output_send_inv: "output_inv os \<Longrightarrow> output_inv (snd (output_send crash d n env os))"
  using dispatch.send_inv[where s = "(d, n, env)"] dispatch.send_live[where s = "(d, n, env)"]
  by (auto simp: output_send_def output_inv_def output_target_def seh_srt_send_def
      split: option.splits prod.splits if_splits) (metis snd_conv)+

text \<open>C19: A dropped packet is a real send failure: \<open>OutputSubsystem::send\<close> answers
  \<open>false\<close> exactly when streaming is published, the transport is live and reports a
  connection, and the transport refused the packet or its call raised a structured exception.
  Without streaming or without a connection nothing is counted as dropped and nothing changes.\<close>

theorem output_send_drop_iff:
  assumes "output_inv os"
  shows "(\<not> fst (output_send crash d n env os) \<longleftrightarrow>
      (\<exists>t. output_target os = Some t \<and> t_live t \<and> t_connected env t \<and>
        (crash \<or> \<not> fst (t_send (d, n, env) t))))
    \<and> ((\<forall>t. output_target os = Some t \<longrightarrow> \<not> t_connected env t) \<longrightarrow>
        output_send crash d n env os = (True, os))"
proof -
  have "t_live t" if "output_target os = Some t" for t
    using assms that by (auto simp: output_inv_def output_target_def split: if_splits)
  then show ?thesis
    by (auto simp: output_send_def seh_srt_send_def split: option.splits prod.splits)
qed

definition demo_output_env :: output_env where
  "demo_output_env = \<lparr>oe_srt_init = demo_init_env, oe_rtmp_init = \<lparr>re_create = 1, re_init_ok = True\<rparr>,
     oe_srt_send = \<lparr>se_rv_error = False, se_error = OtherErr, se_raw_time = 0\<rparr>,
     oe_rtmp_send = Some True, oe_rtmp_connected = True\<rparr>"

definition demo_transport_config :: transport_config where
  "demo_transport_config = \<lparr>tc_protocol = Rtmp, tc_host = ''rtmp://host/app'', tc_stream_key = ''key'',
     tc_port = 0, tc_latency_ms = 0, tc_bandwidth_kbps = 0, tc_caller_mode = True,
     tc_on_connection_lost = False, tc_on_metrics = False\<rparr>"

lemma output_send_drop_iff_witness:
  "\<not> fst (output_send False True 10 (demo_output_env\<lparr>oe_rtmp_send := Some False\<rparr>)
     (output_set_streaming True (snd (output_init demo_transport_config demo_output_env output_new))))"
proof -
  let ?os = "snd (output_init demo_transport_config demo_output_env output_new)"
  have os: "os_transport ?os = Some (TRtmp \<lparr>rt_handle = 1\<rparr>)"
    by (simp add: output_init_def demo_transport_config_def demo_output_env_def output_new_def
        create_transport_def rtmp_init_def rtmp_new_def Let_def)
  have "output_inv (output_set_streaming True ?os)"
    using output_init_inv[of demo_transport_config demo_output_env output_new]
    by (simp add: output_inv_def output_set_streaming_def)
  from output_send_drop_iff[OF this, of False True 10 "demo_output_env\<lparr>oe_rtmp_send := Some False\<rparr>"]
  show ?thesis
    using os by (simp add: output_target_def output_set_streaming_def rtmp_is_connected_def
        rtmp_send_def caught_def demo_output_env_def)
qed

text \<open>Over SRT, every encoded packet of more than 1456 bytes is dropped: with a published and
  connected SRT transport \<open>OutputSubsystem::send\<close> answers \<open>false\<close> for it, whatever the
  network does, so it is counted as a frame drop.\<close>

theorem srt_large_packets_always_dropped:
  assumes "output_target os = Some (TSrt t)" "srt_is_connected t" "n > 1456"
  shows "\<not> fst (output_send crash d n env os)"
proof -
  obtain s w where "t = (s, w)" by fastforce
  then show ?thesis
    using assms
    by (simp add: output_send_def seh_srt_send_def srt_transport_send_def send_internal_def model_defs)
qed

lemma srt_large_packets_always_dropped_witness:
  "\<not> fst (output_send False True 12500 demo_output_env
     \<lparr>os_transport = Some (TSrt (srt_new\<lparr>so_connected := True\<rparr>, srt_world_new)), os_published = True,
      os_world = srt_world_new\<rparr>)"
  by (rule srt_large_packets_always_dropped[of _ "(srt_new\<lparr>so_connected := True\<rparr>, srt_world_new)"])
    (simp_all add: output_target_def srt_is_connected_def)

end
