(* ===== verification/Float32.thy ===== *)
theory Float32
  imports Complex_Main Prelude
begin

text \<open>
  Single precision arithmetic as the code uses it, on rationals: \<open>f32 x\<close> is \<open>x\<close>
  rounded to a 24 bit significand, to nearest, ties to even. A float expression of the source is
  the rational expression with \<open>f32\<close> around every operation and literal. Overflow, infinities,
  NaN and subnormal numbers are outside this model; the operands of the modelled code (bitrates,
  scale factors, percentages, durations) are far from both ends of the exponent range.
\<close>

fun bit_len :: "nat \<Rightarrow> nat" where
  "bit_len n = (if n = 0 then 0 else Suc (bit_len (n div 2)))"

declare bit_len.simps [simp del]

definition pow2 :: "int \<Rightarrow> rat" where
  "pow2 e = (if 0 \<le> e then 2 ^ nat e else 1 / 2 ^ nat (- e))"

text \<open>The binary exponent of a positive rational.\<close>

definition expo :: "rat \<Rightarrow> int" where
  "expo x = (case quotient_of x of (p, q) \<Rightarrow>
     let e = int (bit_len (nat p)) - int (bit_len (nat q)) in if x < pow2 e then e - 1 else e)"

definition round_half_even :: "rat \<Rightarrow> int" where
  "round_half_even x = (let f = \<lfloor>x\<rfloor>; r = x - of_int f in
     if r < 1/2 then f else if r > 1/2 then f + 1 else if even f then f else f + 1)"

definition f32_pos :: "rat \<Rightarrow> rat" where
  "f32_pos x = of_int (round_half_even (x / pow2 (expo x - 23))) * pow2 (expo x - 23)"

definition f32 :: "rat \<Rightarrow> rat" where
  "f32 x = (if x = 0 then 0 else if x > 0 then f32_pos x else - f32_pos (- x))"

text \<open>Conversion of a non-negative float to \<open>uint32_t\<close>: truncation.\<close>

definition f2u32 :: "rat \<Rightarrow> u32" where
  "f2u32 x = word_of_int \<lfloor>x\<rfloor>"

definition u2f :: "u32 \<Rightarrow> rat" where
  "u2f w = f32 (of_nat (unat w))"

section \<open>Exponents\<close>

lemma bit_len_bounds: "0 < n \<Longrightarrow> 2 ^ (bit_len n - 1) \<le> n \<and> n < 2 ^ bit_len n \<and> 0 < bit_len n"
proof (induction n rule: bit_len.induct)
  case (1 n)
  show ?case
  proof (cases "n = 1")
    case True
    then show ?thesis by (simp add: bit_len.simps)
  next
    case False
    then have "0 < n div 2" using 1(2) by linarith
    then have ih: "2 ^ (bit_len (n div 2) - 1) \<le> n div 2" "n div 2 < 2 ^ bit_len (n div 2)"
      "0 < bit_len (n div 2)" using 1 by auto
    have eq: "bit_len n = Suc (bit_len (n div 2))" using 1(2) by (subst bit_len.simps) simp
    obtain k where k: "bit_len (n div 2) = Suc k" using ih(3) by (cases "bit_len (n div 2)") auto
    from ih(1,2) k have "2 ^ k \<le> n div 2" "n div 2 < 2 * 2 ^ k" by simp_all
    then have "2 * 2 ^ k \<le> n" "n < 2 * (2 * 2 ^ k)" by linarith+
    then show ?thesis using eq k by simp
  qed
qed

lemma pow2_pos [simp]: "0 < pow2 e"
  by (simp add: pow2_def)

lemma pow2_neq_0 [simp]: "pow2 e \<noteq> 0"
  using pow2_pos[of e] by linarith

lemma pow2_add1: "pow2 (e + 1) = 2 * pow2 e"
proof (cases "0 \<le> e")
  case True
  then show ?thesis by (simp add: pow2_def nat_add_distrib)
next
  case False
  then obtain k where k: "e = - int (Suc k)" by (metis not_le zero_less_imp_eq_int minus_minus neg_0_less_iff_less gr0_conv_Suc)
  have "nat (- (e + 1)) = k" "nat (- e) = Suc k" using k by auto
  then show ?thesis using False k by (auto simp: pow2_def)
qed

lemma pow2_diff: "pow2 (int a - int b) = 2 ^ a / 2 ^ b"
proof (cases "b \<le> a")
  case True
  then obtain c where "a = b + c" using le_Suc_ex by blast
  then show ?thesis by (simp add: pow2_def power_add)
next
  case False
  then obtain c where "b = a + c" "0 < c" by (metis less_imp_add_positive not_le)
  then show ?thesis by (simp add: pow2_def power_add)
qed

lemma pow2_sub: "pow2 (e - int k) = pow2 e / 2 ^ k"
proof (induction k)
  case (Suc k)
  have "pow2 (e - int k) = 2 * pow2 (e - int (Suc k))"
    using pow2_add1[of "e - int (Suc k)"] by (simp add: algebra_simps)
  then show ?case using Suc by simp
qed simp

lemma expo_bounds:
  assumes "0 < x"
  shows "pow2 (expo x) \<le> x" and "x < 2 * pow2 (expo x)"
proof -
  obtain p q where pq: "quotient_of x = (p, q)" by fastforce
  have q: "0 < q" using quotient_of_denom_pos[OF pq] .
  have x: "x = of_int p / of_int q" using quotient_of_div[OF pq] .
  have p: "0 < p" using assms x q by (simp add: zero_less_divide_iff)
  let ?a = "bit_len (nat p)" and ?b = "bit_len (nat q)"
  obtain a b where ab: "?a = Suc a" "?b = Suc b"
    using bit_len_bounds[of "nat p"] bit_len_bounds[of "nat q"] p q
    by (metis gr0_conv_Suc zero_less_nat_eq)
  have np: "2 ^ a \<le> nat p" "nat p < 2 ^ Suc a" and nq: "2 ^ b \<le> nat q" "nat q < 2 ^ Suc b"
    using bit_len_bounds[of "nat p"] bit_len_bounds[of "nat q"] p q ab by simp_all
  have up: "(2 :: rat) ^ a \<le> of_int p" "of_int p < (2 :: rat) ^ Suc a"
    using of_nat_le_iff[where 'a = rat, THEN iffD2, OF np(1)]
      of_nat_less_iff[where 'a = rat, THEN iffD2, OF np(2)] p by simp_all
  have uq: "(2 :: rat) ^ b \<le> of_int q" "of_int q < (2 :: rat) ^ Suc b"
    using of_nat_le_iff[where 'a = rat, THEN iffD2, OF nq(1)]
      of_nat_less_iff[where 'a = rat, THEN iffD2, OF nq(2)] q by simp_all
  have q0: "(0 :: rat) < of_int q" using q by simp
  have lo: "(2 :: rat) ^ a / 2 ^ Suc b < x"
    unfolding x using up(1) uq(2) q0 p
    by (intro frac_less2) auto
  have hi: "x < (2 :: rat) ^ Suc a / 2 ^ b"
    unfolding x using up(2) uq(1) q0 p by (intro frac_less) auto
  let ?e = "int ?a - int ?b"
  have e: "pow2 ?e = 2 ^ a / 2 ^ b" using pow2_diff[of ?a ?b] ab by simp
  have e1: "pow2 ?e = 2 * pow2 (?e - 1)" using pow2_add1[of "?e - 1"] by simp
  have ex: "expo x = (if x < pow2 ?e then ?e - 1 else ?e)"
    by (simp add: expo_def pq Let_def)
  have "(2 :: rat) ^ a / 2 ^ Suc b = pow2 (?e - 1)" using e e1 by (simp add: field_simps)
  with lo have lo': "pow2 (?e - 1) < x" by simp
  have "(2 :: rat) ^ Suc a / 2 ^ b = 2 * pow2 ?e" using e by simp
  with hi have hi': "x < 2 * pow2 ?e" by simp
  show "pow2 (expo x) \<le> x"
    using lo' by (simp add: ex)
  show "x < 2 * pow2 (expo x)"
    using hi' e1 by (simp add: ex)
qed

section \<open>The rounding error\<close>

lemma round_half_even_error: "\<bar>of_int (round_half_even x) - x\<bar> \<le> 1 / 2"
proof -
  have "of_int \<lfloor>x\<rfloor> \<le> x" "x < of_int \<lfloor>x\<rfloor> + 1" by linarith+
  then show ?thesis unfolding round_half_even_def Let_def abs_le_iff
    by (simp split: if_split) linarith
qed

lemma round_half_even_of_int [simp]: "round_half_even (of_int n) = n"
  by (simp add: round_half_even_def)

lemma f32_pos_error:
  assumes "0 < x"
  shows "\<bar>f32_pos x - x\<bar> \<le> x / 2 ^ 24"
proof -
  let ?u = "pow2 (expo x - 23)"
  have u: "0 < ?u" by simp
  have "f32_pos x - x = (of_int (round_half_even (x / ?u)) - x / ?u) * ?u"
    by (simp add: f32_pos_def left_diff_distrib)
  then have "\<bar>f32_pos x - x\<bar> = \<bar>of_int (round_half_even (x / ?u)) - x / ?u\<bar> * ?u"
    by (simp only: abs_mult abs_of_pos[OF u])
  also have "\<dots> \<le> 1 / 2 * ?u"
    by (rule mult_right_mono[OF round_half_even_error]) (rule less_imp_le[OF u])
  also have "?u = pow2 (expo x) / 2 ^ 23" using pow2_sub[of "expo x" 23] by simp
  also have "1 / 2 * (pow2 (expo x) / 2 ^ 23) \<le> x / 2 ^ 24"
    using expo_bounds(1)[OF assms] by (simp add: field_simps)
  finally show ?thesis .
qed

lemma f32_error: "0 \<le> x \<Longrightarrow> \<bar>f32 x - x\<bar> \<le> x / 2 ^ 24"
  using f32_pos_error[of x] by (cases "x = 0") (auto simp: f32_def)

lemma f32_upper:
  assumes "0 \<le> x"
  shows "f32 x \<le> x * (1 + 1 / 2 ^ 24)"
proof -
  have "f32 x - x \<le> x / 2 ^ 24" using f32_error[OF assms] by (simp only: abs_le_iff)
  then show ?thesis unfolding distrib_left by simp
qed

lemma f32_lower:
  assumes "0 \<le> x"
  shows "x * (1 - 1 / 2 ^ 24) \<le> f32 x"
proof -
  have "- (f32 x - x) \<le> x / 2 ^ 24" using f32_error[OF assms] by (simp only: abs_le_iff)
  then show ?thesis unfolding right_diff_distrib by simp
qed

lemma f32_le:
  assumes "0 \<le> x" "x \<le> y"
  shows "f32 x \<le> y * (1 + 1 / 2 ^ 24)"
proof -
  have "x * (1 + 1 / 2 ^ 24) \<le> y * (1 + 1 / 2 ^ 24)" using assms(2) by (rule mult_right_mono) simp
  with f32_upper[OF assms(1)] show ?thesis by (rule order_trans)
qed

lemma f32_ge:
  assumes "0 \<le> x" "y \<le> x"
  shows "y * (1 - 1 / 2 ^ 24) \<le> f32 x"
proof -
  have "y * (1 - 1 / 2 ^ 24) \<le> x * (1 - 1 / 2 ^ 24)" using assms(2) by (rule mult_right_mono) simp
  with f32_lower[OF assms(1)] show ?thesis by (rule order_trans[rotated])
qed

lemma f32_nonneg [simp]: "0 \<le> x \<Longrightarrow> 0 \<le> f32 x"
proof -
  assume "0 \<le> x"
  then have "0 \<le> x * (1 - 1 / 2 ^ 24)" by simp
  with f32_lower[OF \<open>0 \<le> x\<close>] show ?thesis by linarith
qed

lemma f32_0 [simp]: "f32 0 = 0"
  by (simp add: f32_def)

text \<open>Integers of up to 24 bits are represented exactly.\<close>

lemma f32_of_nat_exact:
  assumes "n < 2 ^ 24"
  shows "f32 (of_nat n) = of_nat n"
proof (cases "n = 0")
  case False
  let ?x = "of_nat n :: rat"
  have pos: "0 < ?x" using False by simp
  have "pow2 (expo ?x) < 2 ^ 24"
    using expo_bounds(1)[OF pos] assms by (metis le_less_trans of_nat_less_iff of_nat_numeral of_nat_power)
  moreover have "expo ?x \<le> 23" if "pow2 (expo ?x) < 2 ^ 24"
  proof (rule ccontr)
    assume "\<not> expo ?x \<le> 23"
    then have "24 \<le> expo ?x" by simp
    then have "(2 :: rat) ^ 24 \<le> 2 ^ nat (expo ?x)" by (intro power_increasing) auto
    with that \<open>24 \<le> expo ?x\<close> show False by (simp add: pow2_def)
  qed
  ultimately have e: "expo ?x \<le> 23" by blast
  have u: "pow2 (expo ?x - 23) = 1 / 2 ^ nat (23 - expo ?x)"
    using e by (auto simp: pow2_def)
  have "?x / pow2 (expo ?x - 23) = of_int (int n * 2 ^ nat (23 - expo ?x))"
    by (simp add: u)
  then have "f32_pos ?x = of_int (int n * 2 ^ nat (23 - expo ?x)) * pow2 (expo ?x - 23)"
    by (simp only: f32_pos_def round_half_even_of_int)
  also have "\<dots> = ?x" by (simp add: u)
  finally show ?thesis using pos False by (simp add: f32_def)
qed simp

lemma u2f_nonneg [simp]: "0 \<le> u2f w"
  unfolding u2f_def by (rule f32_nonneg[OF of_nat_0_le_iff])

lemma unat_f2u32:
  assumes "0 \<le> x" "x < 2 ^ 32"
  shows "unat (f2u32 x) = nat \<lfloor>x\<rfloor>"
proof -
  have "0 \<le> \<lfloor>x\<rfloor>" "\<lfloor>x\<rfloor> < 2 ^ 32" using assms by (simp_all add: floor_less_iff)
  then show ?thesis by (simp add: f2u32_def unat_eq_nat_uint uint_word_of_int)
qed

lemma f2u32_unat: "f2u32 (rat_of_nat (unat d)) = d"
  unfolding f2u32_def floor_of_nat by simp

end
