(* ===== verification/Policies.thy ===== *)
theory Policies
  imports Float32
begin

text \<open>
  The pure decision policies under \<open>src/src/pipeline/include\<close>: bitrate steps of the healing
  actions, frame drop accounting, frame repetition and the fallback IDR cadence, the null frame
  streak, the level-to-edge trigger of a source reinitialisation, and the data types of the
  source contract. Handles are numbers, \<open>0\<close> is the null handle.
\<close>

type_synonym handle = nat

section \<open>Sources and frames\<close>

datatype handle_type = D3D11 | DmaBuf | IOSurface | CpuBuffer

record captured_frame =
  cf_type :: handle_type
  cf_handle :: handle
  cf_width :: u32
  cf_height :: u32
  cf_timestamp_us :: u64

record source_frame =
  sf_type :: handle_type
  sf_handle :: handle
  sf_width :: u32
  sf_height :: u32
  sf_format :: u32
  sf_timestamp_us :: u64

datatype source_state = Uninitialized | Running | NeedsReinit | Lost

definition kWgcFramePoolFormat :: u32 where [model_defs]: "kWgcFramePoolFormat = 87"
definition kNullStreakReinitThreshold :: int where [model_defs]: "kNullStreakReinitThreshold = 60"

definition map_captured_frame :: "captured_frame \<Rightarrow> u32 \<Rightarrow> u64 \<Rightarrow> source_frame" where
  "map_captured_frame inp format fallback_timestamp_us =
     \<lparr>sf_type = cf_type inp, sf_handle = cf_handle inp, sf_width = cf_width inp,
      sf_height = cf_height inp, sf_format = format,
      sf_timestamp_us = (if cf_timestamp_us inp \<noteq> 0 then cf_timestamp_us inp
                         else fallback_timestamp_us)\<rparr>"

section \<open>The null streak and the reinit trigger\<close>

record null_streak = ns_streak :: int

definition streak_on_frame :: "bool \<Rightarrow> null_streak \<Rightarrow> null_streak" where
  "streak_on_frame has_frame s =
     (if has_frame then s\<lparr>ns_streak := 0\<rparr> else s\<lparr>ns_streak := ns_streak s + 1\<rparr>)"

definition streak_reset :: "null_streak \<Rightarrow> null_streak" where
  "streak_reset s = s\<lparr>ns_streak := 0\<rparr>"

definition streak_needs_reinit :: "null_streak \<Rightarrow> bool" where
  "streak_needs_reinit s \<longleftrightarrow> ns_streak s \<ge> kNullStreakReinitThreshold"

record reinit_trigger =
  rp_was_needs_reinit :: bool
  rp_frames_since_trigger :: int

definition reinit_trigger_init :: reinit_trigger where
  "reinit_trigger_init = \<lparr>rp_was_needs_reinit = False, rp_frames_since_trigger = 0\<rparr>"

definition kRearmPeriodFrames :: int where [model_defs]:
  "kRearmPeriodFrames = kNullStreakReinitThreshold"

definition trigger_on_state :: "source_state \<Rightarrow> reinit_trigger \<Rightarrow> bool \<times> reinit_trigger" where
  "trigger_on_state s p =
    (let needs = (s = NeedsReinit);
         entered = (needs \<and> \<not> rp_was_needs_reinit p);
         p1 = p\<lparr>rp_was_needs_reinit := needs\<rparr>
     in if \<not> needs then (False, p1\<lparr>rp_frames_since_trigger := 0\<rparr>)
        else if entered then (True, p1\<lparr>rp_frames_since_trigger := 0\<rparr>)
        else
          let n = rp_frames_since_trigger p1 + 1
          in if n \<ge> kRearmPeriodFrames then (True, p1\<lparr>rp_frames_since_trigger := 0\<rparr>)
             else (False, p1\<lparr>rp_frames_since_trigger := n\<rparr>))"

section \<open>Frame drops, repetition and the IDR cadence\<close>

datatype frame_outcome = Encoded | EncodeFailed | NoNewFrame

definition counts_as_frame_drop :: "frame_outcome \<Rightarrow> bool" where
  "counts_as_frame_drop outcome \<longleftrightarrow> outcome = EncodeFailed"

definition should_repeat_frame :: "bool \<Rightarrow> bool \<Rightarrow> bool" where
  "should_repeat_frame have_copy is_null_tick \<longleftrightarrow> have_copy \<and> is_null_tick"

definition kDefaultIdrIntervalUs :: int where [model_defs]: "kDefaultIdrIntervalUs = 3000000"

record idr_cadence =
  ic_interval_us :: int
  ic_last_keyframe_pts_us :: int
  ic_have_epoch :: bool
  ic_pending :: bool

definition idr_cadence_init :: "int \<Rightarrow> idr_cadence" where
  "idr_cadence_init interval = \<lparr>ic_interval_us = interval, ic_last_keyframe_pts_us = 0,
     ic_have_epoch = False, ic_pending = False\<rparr>"

definition idr_on_keyframe :: "int \<Rightarrow> idr_cadence \<Rightarrow> idr_cadence" where
  "idr_on_keyframe pts c =
     c\<lparr>ic_last_keyframe_pts_us := pts, ic_have_epoch := True, ic_pending := False\<rparr>"

definition should_force_idr :: "int \<Rightarrow> idr_cadence \<Rightarrow> bool \<times> idr_cadence" where
  "should_force_idr now c =
    (if \<not> ic_have_epoch c \<or> ic_pending c then (False, c)
     else if now - ic_last_keyframe_pts_us c < ic_interval_us c then (False, c)
     else (True, c\<lparr>ic_pending := True\<rparr>))"

section \<open>Bitrate steps\<close>

definition reduce_floor_for_target :: "u32 \<Rightarrow> u32 \<Rightarrow> u32" where
  "reduce_floor_for_target configured_floor target = min configured_floor target"

definition reduce_step_bitrate :: "u32 \<Rightarrow> int \<Rightarrow> u32" where
  "reduce_step_bitrate current step_kbps =
    (if step_kbps > 0 then
       let step = word_of_int step_kbps in if current > step then current - step else 0
     else f2u32 (f32 (u2f current * f32 (85 / 100))))"

definition recover_step_bitrate :: "u32 \<Rightarrow> int \<Rightarrow> u32" where
  "recover_step_bitrate current step_kbps =
    (if step_kbps > 0 then current + word_of_int step_kbps
     else f2u32 (f32 (u2f current * f32 (115 / 100))))"

section \<open>Cadence of the reinit trigger\<close>

text \<open>One tick of a running source that is healthy apart from its frames: the null streak is fed,
  the state is derived from it and fed to the trigger.\<close>

definition source_tick :: "bool \<Rightarrow> null_streak \<times> reinit_trigger \<Rightarrow>
    bool \<times> null_streak \<times> reinit_trigger" where
  "source_tick has_frame st = (case st of (s, p) \<Rightarrow>
     let s' = streak_on_frame has_frame s;
         (t, p') = trigger_on_state (if streak_needs_reinit s' then NeedsReinit else Running) p
     in (t, s', p'))"

definition source_ticks :: "bool list \<Rightarrow> null_streak \<times> reinit_trigger" where
  "source_ticks bs = fold (\<lambda>b st. snd (source_tick b st)) bs (\<lparr>ns_streak = 0\<rparr>, reinit_trigger_init)"

text \<open>The number of null ticks since the last frame.\<close>

definition trailing_nulls :: "bool list \<Rightarrow> nat" where
  "trailing_nulls bs = length (takeWhile Not (rev bs))"

lemma trailing_nulls_snoc [simp]:
  "trailing_nulls [] = 0"
  "trailing_nulls (bs @ [b]) = (if b then 0 else Suc (trailing_nulls bs))"
  by (simp_all add: trailing_nulls_def)

lemma source_ticks_state:
  "source_ticks bs = (\<lparr>ns_streak = int (trailing_nulls bs)\<rparr>,
     \<lparr>rp_was_needs_reinit = (60 \<le> trailing_nulls bs),
      rp_frames_since_trigger =
        (if 60 \<le> trailing_nulls bs then int (trailing_nulls bs mod 60) else 0)\<rparr>)"
proof (induction bs rule: rev_induct)
  case Nil
  then show ?case by (simp add: source_ticks_def reinit_trigger_init_def)
next
  case (snoc b bs)
  define n where "n = trailing_nulls bs"
  have m: "int (Suc n mod 60) = (if int (n mod 60) + 1 \<ge> 60 then 0 else int (n mod 60) + 1)"
    using mod_less_divisor[of 60 n] by (simp add: mod_Suc) linarith
  have "source_ticks (bs @ [b]) = snd (source_tick b (source_ticks bs))"
    by (simp add: source_ticks_def)
  also have "\<dots> = snd (source_tick b (\<lparr>ns_streak = int n\<rparr>,
     \<lparr>rp_was_needs_reinit = (60 \<le> n), rp_frames_since_trigger = (if 60 \<le> n then int (n mod 60) else 0)\<rparr>))"
    using snoc by (simp add: n_def)
  also have "\<dots> = (\<lparr>ns_streak = int (trailing_nulls (bs @ [b]))\<rparr>,
     \<lparr>rp_was_needs_reinit = (60 \<le> trailing_nulls (bs @ [b])),
      rp_frames_since_trigger = (if 60 \<le> trailing_nulls (bs @ [b])
        then int (trailing_nulls (bs @ [b]) mod 60) else 0)\<rparr>)"
  proof (cases "b \<or> n < 59")
    case True
    then show ?thesis
      by (auto simp: source_tick_def streak_on_frame_def streak_needs_reinit_def trigger_on_state_def
          model_defs Let_def n_def[symmetric])
  next
    case False
    then consider "n = 59" "\<not> b" | "60 \<le> n" "\<not> b" by linarith
    then show ?thesis
      by cases (auto simp: source_tick_def streak_on_frame_def streak_needs_reinit_def
          trigger_on_state_def model_defs Let_def n_def[symmetric] m)
  qed
  finally show ?case .
qed

text \<open>The reinit trigger fires exactly on the 60th, 120th, 180th, ... consecutive tick
  without a frame, whatever happened before, and on no other tick: one attempt per 60 null
  frames, and none while frames arrive.\<close>

theorem reinit_trigger_cadence:
  "fst (source_tick b (source_ticks bs)) \<longleftrightarrow>
     (let n = trailing_nulls (bs @ [b]) in 0 < n \<and> n mod 60 = 0)"
proof -
  define n where "n = trailing_nulls bs"
  have st: "source_ticks bs = (\<lparr>ns_streak = int n\<rparr>,
     \<lparr>rp_was_needs_reinit = (60 \<le> n), rp_frames_since_trigger = (if 60 \<le> n then int (n mod 60) else 0)\<rparr>)"
    by (simp add: source_ticks_state n_def)
  consider "b" | "n < 59" "\<not> b" | "n = 59" "\<not> b" | "60 \<le> n" "\<not> b" by linarith
  then show ?thesis
    by cases (auto simp: st source_tick_def streak_on_frame_def streak_needs_reinit_def
        trigger_on_state_def model_defs Let_def n_def[symmetric] mod_Suc split: if_splits)
qed

section \<open>The IDR cadence over a trace\<close>

datatype idr_event = Keyframe int | Tick int

fun idr_step :: "idr_event \<Rightarrow> idr_cadence \<Rightarrow> idr_cadence" where
  "idr_step (Keyframe pts) c = idr_on_keyframe pts c"
| "idr_step (Tick now) c = snd (should_force_idr now c)"

fun last_keyframe :: "idr_event list \<Rightarrow> int option" where
  "last_keyframe [] = None"
| "last_keyframe (Keyframe k # es) = (case last_keyframe es of None \<Rightarrow> Some k | Some j \<Rightarrow> Some j)"
| "last_keyframe (Tick t # es) = last_keyframe es"

text \<open>The ticks after the last keyframe.\<close>

fun tick_pts :: "idr_event list \<Rightarrow> int list" where
  "tick_pts [] = []"
| "tick_pts (Keyframe k # es) = tick_pts es"
| "tick_pts (Tick t # es) = t # tick_pts es"

definition ticks_since_keyframe :: "idr_event list \<Rightarrow> int list" where
  "ticks_since_keyframe es = rev (tick_pts (takeWhile (\<lambda>e. \<exists>t. e = Tick t) (rev es)))"

lemma last_keyframe_snoc [simp]:
  "last_keyframe (es @ [Keyframe k]) = Some k"
  "last_keyframe (es @ [Tick t]) = last_keyframe es"
  by (induction es rule: last_keyframe.induct) (auto split: option.splits)

lemma ticks_since_keyframe_snoc [simp]:
  "ticks_since_keyframe [] = []"
  "ticks_since_keyframe (es @ [Keyframe k]) = []"
  "ticks_since_keyframe (es @ [Tick t]) = ticks_since_keyframe es @ [t]"
  by (simp_all add: ticks_since_keyframe_def)

lemma idr_trace_state:
  "fold idr_step es (idr_cadence_init iv) =
    \<lparr>ic_interval_us = iv,
     ic_last_keyframe_pts_us = (case last_keyframe es of None \<Rightarrow> 0 | Some k \<Rightarrow> k),
     ic_have_epoch = (last_keyframe es \<noteq> None),
     ic_pending = (case last_keyframe es of None \<Rightarrow> False
       | Some k \<Rightarrow> list_ex (\<lambda>t. iv \<le> t - k) (ticks_since_keyframe es))\<rparr>"
proof (induction es rule: rev_induct)
  case Nil
  then show ?case by (simp add: idr_cadence_init_def)
next
  case (snoc e es)
  then show ?case
    by (cases e) (auto simp: idr_on_keyframe_def should_force_idr_def split: option.splits)
qed

text \<open>C33: The fallback IDR is requested on a tick exactly when a keyframe has been produced, the
  last one is at least the interval (3 s by default) old, and no earlier tick since that
  keyframe has already requested one: never before the first keyframe, at most once per
  keyframe, and not again when the request was lost.\<close>

theorem force_idr_iff:
  "fst (should_force_idr now (fold idr_step es (idr_cadence_init iv))) \<longleftrightarrow>
    (case last_keyframe es of None \<Rightarrow> False
     | Some k \<Rightarrow> iv \<le> now - k \<and> list_all (\<lambda>t. t - k < iv) (ticks_since_keyframe es))"
  by (auto simp: idr_trace_state should_force_idr_def list_all_iff list_ex_iff not_less not_le
      split: option.splits)

section \<open>Bounds of the bitrate steps\<close>

lemma u2f_bounds:
  "rat_of_nat (unat w) * (1 - 1 / 2 ^ 24) \<le> u2f w" "u2f w \<le> rat_of_nat (unat w) * (1 + 1 / 2 ^ 24)"
  unfolding u2f_def by (rule f32_lower f32_upper, rule of_nat_0_le_iff)+

lemma unat_less_u32: "rat_of_nat (unat (w :: u32)) \<le> 4294967295"
proof -
  have "unat w < 2 ^ LENGTH(32)" by (rule unsigned_less)
  then have "unat w \<le> 4294967295" by simp
  then have "rat_of_nat (unat w) \<le> rat_of_nat 4294967295" by (rule of_nat_mono)
  then show ?thesis by simp
qed

lemma reduce_fallback_upper:
  "f32 (u2f w * f32 (85 / 100)) \<le> rat_of_nat (unat w) * (86 / 100)"
proof -
  define n where "n = rat_of_nat (unat w)"
  have n: "0 \<le> n" unfolding n_def by (rule of_nat_0_le_iff)
  note b = u2f_bounds[of w, folded n_def]
  have c: "0 \<le> f32 (85 / 100)" "f32 (85 / 100) \<le> 85 / 100 * (1 + 1 / 2 ^ 24)"
    by (simp, rule f32_upper) simp
  have "u2f w * f32 (85 / 100) \<le> (n * (1 + 1 / 2 ^ 24)) * (85 / 100 * (1 + 1 / 2 ^ 24))"
    using b(2) n c by (intro mult_mono) simp_all
  then have "f32 (u2f w * f32 (85 / 100)) \<le>
      (n * (1 + 1 / 2 ^ 24)) * (85 / 100 * (1 + 1 / 2 ^ 24)) * (1 + 1 / 2 ^ 24)"
    by (rule f32_le[rotated]) (use c in simp)
  also have "\<dots> \<le> n * (86 / 100)" using n by (simp add: field_simps)
  finally show ?thesis unfolding n_def .
qed

lemma recover_fallback_bounds:
  "rat_of_nat (unat w) * (1149 / 1000) \<le> f32 (u2f w * f32 (115 / 100))"
  "f32 (u2f w * f32 (115 / 100)) \<le> rat_of_nat (unat w) * (1151 / 1000)"
proof -
  define n where "n = rat_of_nat (unat w)"
  have n: "0 \<le> n" unfolding n_def by (rule of_nat_0_le_iff)
  note b = u2f_bounds[of w, folded n_def]
  have c: "115 / 100 * (1 - 1 / 2 ^ 24) \<le> f32 (115 / 100)" "f32 (115 / 100) \<le> 115 / 100 * (1 + 1 / 2 ^ 24)"
    "0 \<le> f32 (115 / 100)"
    by (rule f32_lower, simp, rule f32_upper, simp, simp)
  have p: "0 \<le> u2f w * f32 (115 / 100)" using c by simp
  have "u2f w * f32 (115 / 100) \<le> (n * (1 + 1 / 2 ^ 24)) * (115 / 100 * (1 + 1 / 2 ^ 24))"
    using b(2) n c by (intro mult_mono) simp_all
  then have "f32 (u2f w * f32 (115 / 100)) \<le>
      (n * (1 + 1 / 2 ^ 24)) * (115 / 100 * (1 + 1 / 2 ^ 24)) * (1 + 1 / 2 ^ 24)"
    by (rule f32_le[OF p])
  then show "f32 (u2f w * f32 (115 / 100)) \<le> rat_of_nat (unat w) * (1151 / 1000)"
    unfolding n_def[symmetric] by (rule order_trans) (use n in \<open>simp add: field_simps\<close>)
  have "(n * (1 - 1 / 2 ^ 24)) * (115 / 100 * (1 - 1 / 2 ^ 24)) \<le> u2f w * f32 (115 / 100)"
    using b(1) n c by (intro mult_mono) simp_all
  then have "(n * (1 - 1 / 2 ^ 24)) * (115 / 100 * (1 - 1 / 2 ^ 24)) * (1 - 1 / 2 ^ 24) \<le>
      f32 (u2f w * f32 (115 / 100))"
    by (rule f32_ge[OF p])
  then show "rat_of_nat (unat w) * (1149 / 1000) \<le> f32 (u2f w * f32 (115 / 100))"
    unfolding n_def[symmetric] by (rule order_trans[rotated]) (use n in \<open>simp add: field_simps\<close>)
qed

lemma reduce_step_less:
  assumes "0 < unat w" "step < 2 ^ 31"
  shows "unat (reduce_step_bitrate w step) < unat w"
proof (cases "step > 0")
  case True
  have s: "unat (word_of_int step :: u32) = nat step"
    using True assms(2) by (simp add: unat_eq_nat_uint uint_word_of_int)
  show ?thesis
  proof (cases "w > word_of_int step")
    case True
    then have "unat (w - word_of_int step) = unat w - nat step"
      using s by (simp add: unat_sub)
    with True \<open>step > 0\<close> assms(1) show ?thesis by (simp add: reduce_step_bitrate_def Let_def)
  next
    case False
    with \<open>step > 0\<close> assms(1) show ?thesis by (simp add: reduce_step_bitrate_def Let_def)
  qed
next
  case False
  let ?x = "f32 (u2f w * f32 (85 / 100))"
  define n where "n = rat_of_nat (unat w)"
  have n: "0 < n" "n \<le> 4294967295"
    unfolding n_def by (simp only: of_nat_0_less_iff assms(1), rule unat_less_u32)
  have x: "0 \<le> ?x" "?x \<le> n * (86 / 100)"
    using reduce_fallback_upper[of w] by (simp_all add: n_def)
  then have "?x < 2 ^ 32" "?x < n" using n by auto
  then have "unat (f2u32 ?x) = nat \<lfloor>?x\<rfloor>" "\<lfloor>?x\<rfloor> < int (unat w)"
    using x unat_f2u32[of ?x] by (simp_all add: floor_less_iff n_def)
  moreover have "0 \<le> \<lfloor>?x\<rfloor>" using x(1) by simp
  ultimately show ?thesis using False by (simp add: reduce_step_bitrate_def nat_less_iff)
qed

lemma reduce_step_zero: "unat w = 0 \<Longrightarrow> reduce_step_bitrate w step = 0"
  by (auto simp: unat_eq_0 reduce_step_bitrate_def Let_def u2f_def f2u32_def)

lemma reduce_step_le: "step < 2 ^ 31 \<Longrightarrow> reduce_step_bitrate w step \<le> w"
  using reduce_step_less[of w step] reduce_step_zero[of w step]
  by (cases "unat w = 0") (auto simp: word_le_nat_alt)

lemma recover_step_greater:
  assumes "step > 0 \<or> 7 \<le> unat w" "unat w + nat step < 2 ^ 32" "unat w \<le> 3000000000" "step < 2 ^ 31"
  shows "unat w < unat (recover_step_bitrate w step)"
proof (cases "step > 0")
  case True
  have s: "unat (word_of_int step :: u32) = nat step"
    using True assms(4) by (simp add: unat_eq_nat_uint uint_word_of_int)
  have "unat (w + word_of_int step) = unat w + nat step"
    using assms(2) s by (subst unat_add_lem[THEN iffD1]) simp_all
  with True show ?thesis by (simp add: recover_step_bitrate_def)
next
  case False
  let ?x = "f32 (u2f w * f32 (115 / 100))"
  define n where "n = rat_of_nat (unat w)"
  have n: "7 \<le> n" "n \<le> 3000000000"
    using assms(1,3) False of_nat_mono[where 'a = rat] unfolding n_def by fastforce+
  have x: "n * (1149 / 1000) \<le> ?x" "?x \<le> n * (1151 / 1000)"
    using recover_fallback_bounds[of w] unfolding n_def by simp_all
  then have lo: "n + 1 \<le> ?x" and "?x < 2 ^ 32" "0 \<le> ?x" using n by simp_all
  then have "unat (f2u32 ?x) = nat \<lfloor>?x\<rfloor>" by (simp add: unat_f2u32)
  moreover have "int (unat w) + 1 \<le> \<lfloor>?x\<rfloor>" using lo by (simp add: le_floor_iff n_def)
  ultimately show ?thesis using False
    by (simp add: recover_step_bitrate_def zless_nat_eq_int_zless)
qed

section \<open>The bitrates the healing actions ask for\<close>

definition reduce_target :: "u32 \<Rightarrow> u32 \<Rightarrow> int \<Rightarrow> u32" where
  "reduce_target min_bitrate current param1 = max (reduce_step_bitrate current param1) min_bitrate"

definition recover_target :: "u32 \<Rightarrow> u32 \<Rightarrow> int \<Rightarrow> u32 option" where
  "recover_target target current param1 =
    (if current < target then Some (min (recover_step_bitrate current param1) target) else None)"

lemma reduce_target_bounds:
  assumes "step < 2 ^ 31" "flr \<le> cur"
  shows "flr \<le> reduce_target flr cur step" "reduce_target flr cur step \<le> cur"
    "cur \<noteq> flr \<Longrightarrow> unat (reduce_target flr cur step) < unat cur"
proof -
  show "flr \<le> reduce_target flr cur step" by (simp add: reduce_target_def)
  show "reduce_target flr cur step \<le> cur"
    using assms reduce_step_le[of step cur] by (simp add: reduce_target_def)
  assume "cur \<noteq> flr"
  with assms(2) have "unat flr < unat cur" by (simp add: word_less_nat_alt[symmetric])
  with reduce_step_less[of cur step] assms(1)
  show "unat (reduce_target flr cur step) < unat cur" by (simp add: reduce_target_def max_def)
qed

text \<open>C29: Bitrate healing stays in its corridor. From a bitrate between floor and original,
  \<open>BITRATE_REDUCE\<close> asks for a bitrate in the corridor that is strictly lower unless the floor
  is reached; \<open>BITRATE_RECOVER\<close> does nothing at the original bitrate and otherwise asks for
  a bitrate in the corridor that is strictly higher (with a positive step, or from 7 kbps on
  with the 15 percent fallback).\<close>

theorem healing_bitrate_corridor:
  assumes "flr \<le> cur" "cur \<le> orig" "unat orig \<le> 2000000000" "step < 2 ^ 31"
  shows "flr \<le> reduce_target flr cur step \<and> reduce_target flr cur step \<le> cur
    \<and> (cur \<noteq> flr \<longrightarrow> reduce_target flr cur step < cur)
    \<and> (case recover_target orig cur step of
        None \<Rightarrow> cur = orig
      | Some b \<Rightarrow> b \<le> orig \<and> (step > 0 \<or> 7 \<le> unat cur \<longrightarrow> cur < b))"
proof -
  have "unat cur \<le> unat orig" using assms(2) by (simp add: word_le_nat_alt)
  then have "unat cur < unat (recover_step_bitrate cur step)" if "step > 0 \<or> 7 \<le> unat cur"
    using recover_step_greater[OF that] assms(3,4) by simp
  then have "cur < recover_step_bitrate cur step" if "step > 0 \<or> 7 \<le> unat cur"
    using that by (simp add: word_less_nat_alt)
  then have "case recover_target orig cur step of None \<Rightarrow> cur = orig
      | Some b \<Rightarrow> b \<le> orig \<and> (step > 0 \<or> 7 \<le> unat cur \<longrightarrow> cur < b)"
    using assms(2) by (auto simp: recover_target_def)
  then show ?thesis
    using reduce_target_bounds[OF assms(4,1)] by (simp add: word_less_nat_alt)
qed

lemma healing_bitrate_corridor_witness:
  "(1000 :: u32) \<le> reduce_target 1000 6000 500 \<and> reduce_target 1000 6000 500 < 6000"
  using healing_bitrate_corridor[of 1000 6000 6000 500] by simp

text \<open>Repeated \<open>BITRATE_REDUCE\<close> actions reach the floor after finitely many steps, whatever
  the step parameter of the rule is (a non-positive one selects the 15 percent fallback).\<close>

theorem repeated_reduce_reaches_floor:
  assumes "flr \<le> cur" "step < 2 ^ 31"
  shows "\<exists>n\<le>unat cur. ((\<lambda>b. reduce_target flr b step) ^^ n) cur = flr"
  using assms(1)
proof (induction "unat cur" arbitrary: cur rule: less_induct)
  case less
  show ?case
  proof (cases "cur = flr")
    case True
    then show ?thesis by (intro exI[of _ 0]) simp
  next
    case False
    let ?f = "\<lambda>b. reduce_target flr b step"
    have lt: "unat (?f cur) < unat cur" and ge: "flr \<le> ?f cur"
      using reduce_target_bounds[OF assms(2) less.prems] False by simp_all
    obtain n where n: "n \<le> unat (?f cur)" "(?f ^^ n) (?f cur) = flr"
      using less.hyps[OF lt ge] by blast
    then have "(?f ^^ Suc n) cur = flr" by (simp only: funpow_Suc_right o_apply n(2))
    with n(1) lt show ?thesis by (intro exI[of _ "Suc n"]) auto
  qed
qed

lemma repeated_reduce_reaches_floor_witness:
  "\<exists>n\<le>6000. ((\<lambda>b. reduce_target 1000 b 0) ^^ n) (6000 :: u32) = 1000"
  using repeated_reduce_reaches_floor[of 1000 6000 0] by simp

text \<open>The 15 percent fallback of the recovery step makes no progress from 6 kbps or less:
  the product is truncated back to the same bitrate.\<close>

theorem recover_fallback_stalls:
  assumes "unat cur \<le> 6" "step \<le> 0"
  shows "recover_step_bitrate cur step = cur"
proof -
  let ?x = "f32 (u2f cur * f32 (115 / 100))"
  define n where "n = rat_of_nat (unat cur)"
  have n: "0 \<le> n" "n \<le> 6"
    unfolding n_def by (rule of_nat_0_le_iff, use of_nat_mono[where 'a = rat, OF assms(1)] in simp)
  have x: "n * (1149 / 1000) \<le> ?x" "?x \<le> n * (1151 / 1000)"
    using recover_fallback_bounds[of cur] unfolding n_def by simp_all
  then have "n \<le> ?x" "?x < n + 1" using n by simp_all
  then have "\<lfloor>?x\<rfloor> = int (unat cur)" by (simp add: floor_eq_iff n_def)
  then show ?thesis using assms(2) by (simp add: recover_step_bitrate_def f2u32_def)
qed

lemma recover_fallback_stalls_witness: "recover_step_bitrate 6 0 = 6"
  using recover_fallback_stalls[of 6 0] by simp

end
