(* ===== verification/Resources.thy ===== *)
theory Resources
  imports Prelude "HOL-Library.Multiset"
begin

text \<open>
  Accounting of acquired and released resources over a trace of external calls. A component
  says for each of its calls whether it acquires or releases a handle; the live handles of a
  trace are those acquired and not yet released. Shared by the encoder, the capture and the
  interop components.
\<close>

datatype 'h res = Acq 'h | Rel 'h

fun live_update :: "'h res option \<Rightarrow> 'h multiset \<Rightarrow> 'h multiset" where
  "live_update None L = L"
| "live_update (Some (Acq h)) L = add_mset h L"
| "live_update (Some (Rel h)) L = L - {#h#}"

definition live_by :: "('c \<Rightarrow> 'h res option) \<Rightarrow> 'c list \<Rightarrow> 'h multiset" where
  "live_by f tr = fold (\<lambda>c. live_update (f c)) tr {#}"

lemma live_by_Nil [simp]: "live_by f [] = {#}"
  by (simp add: live_by_def)

lemma live_by_snoc [simp]: "live_by f (tr @ [c]) = live_update (f c) (live_by f tr)"
  by (simp add: live_by_def)

lemma live_by_append: "live_by f (tr @ cs) = fold (\<lambda>c. live_update (f c)) cs (live_by f tr)"
  by (simp add: live_by_def)

lemma live_by_neutral: "list_all (\<lambda>c. f c = None) cs \<Longrightarrow> live_by f (tr @ cs) = live_by f tr"
proof (induction cs arbitrary: tr)
  case (Cons c cs)
  then show ?case using Cons.IH[of "tr @ [c]"] by simp
qed simp

lemma live_update_cancel [simp]: "live_update (Some (Rel h)) (live_update (Some (Acq h)) L) = L"
  by simp

text \<open>An acquisition that is released again leaves no trace in the account.\<close>

lemma live_by_bracket:
  assumes "f a = Some (Acq h)" "f r = Some (Rel h)" "list_all (\<lambda>c. f c = None) cs"
  shows "live_by f (tr @ [a] @ cs @ [r]) = live_by f tr"
proof -
  have "fold (\<lambda>c. live_update (f c)) cs L = L" for L
    using assms(3) by (induction cs arbitrary: L) auto
  with assms(1,2) show ?thesis by (simp add: live_by_def)
qed

end
