(* ===== verification/Nvenc.thy ===== *)
theory Nvenc
  imports Float32 Policies Resources
begin

text \<open>
  \<open>src/src/pipeline/encode/encode_nvenc.cpp\<close> and \<open>encode_subsystem.cpp\<close>: the NVENC
  encoder and its owner. The NVENC driver is external; every operation takes what its calls
  answer, and records the calls that acquire and release something, the submitted pictures and
  the reconfigurations in a trace. The packet callback is modelled by the packet the operation
  returns: it runs between the lock and the unlock of the bitstream, on state that is not the
  encoder's. Durations are inputs (microseconds).
\<close>

section \<open>Parameters\<close>

definition kBitstreamPoolSize :: nat where [model_defs]: "kBitstreamPoolSize = 3"

definition vbv_bits :: "u32 \<Rightarrow> u32" where
  "vbv_bits bitrate_kbps = bitrate_kbps * 1000"

datatype codec = H264 | HEVC

record nvenc_config =
  nc_width :: u32
  nc_height :: u32
  nc_fps_num :: u32
  nc_fps_den :: u32
  nc_bitrate_kbps :: u32
  nc_max_bitrate_kbps :: u32
  nc_gop_size :: u32
  nc_codec :: codec

text \<open>The parts of \<open>NV_ENC_CONFIG\<close> and \<open>NV_ENC_INITIALIZE_PARAMS\<close> the code sets.\<close>

record rc_params =
  rc_average :: u32
  rc_max :: u32
  rc_vbv_size :: u32
  rc_vbv_delay :: u32
  rc_gop :: u32
  rc_frame_interval_p :: u32
  rc_repeat_spspps :: bool

record init_params =
  ip_width :: u32
  ip_height :: u32
  ip_max_width :: u32
  ip_max_height :: u32
  ip_dar_width :: u32
  ip_dar_height :: u32
  ip_fps_num :: u32
  ip_fps_den :: u32
  ip_codec :: codec

record packet =
  pk_size :: nat
  pk_is_keyframe :: bool
  pk_pts :: int

record timings =
  tm_encode_us :: u32
  tm_lock_us :: u32
  tm_cb_us :: u32

datatype nv_handle = Dll | Session | Bitstream handle | Registered handle | Mapped handle | Locked handle

datatype nv_call =
    Acquire nv_handle
  | Release nv_handle
  | Encode handle u32 u32 u32 bool int   \<comment> \<open>output buffer, width, height, frame index, forced IDR, pts\<close>
  | Reconfigure init_params rc_params
  | Eos

record nvenc =
  nv_dll :: bool
  nv_session :: bool
  nv_driver_api_ver :: u32
  nv_reg_tex :: handle
  nv_reg_res :: handle
  nv_out_bufs :: "handle list"
  nv_out_idx :: nat
  nv_saved_cfg :: rc_params
  nv_saved_init :: init_params
  nv_config :: nvenc_config
  nv_orig_width :: u32
  nv_orig_height :: u32
  nv_initialized :: bool
  nv_frame_idx :: int
  nv_timings :: timings
  nv_trace :: "nv_call list"

definition zero_rc :: rc_params where
  "zero_rc = \<lparr>rc_average = 0, rc_max = 0, rc_vbv_size = 0, rc_vbv_delay = 0, rc_gop = 0,
     rc_frame_interval_p = 0, rc_repeat_spspps = False\<rparr>"

definition zero_init :: init_params where
  "zero_init = \<lparr>ip_width = 0, ip_height = 0, ip_max_width = 0, ip_max_height = 0, ip_dar_width = 0,
     ip_dar_height = 0, ip_fps_num = 0, ip_fps_den = 0, ip_codec = H264\<rparr>"

definition default_nvenc_config :: nvenc_config where
  "default_nvenc_config = \<lparr>nc_width = 1920, nc_height = 1080, nc_fps_num = 60, nc_fps_den = 1,
     nc_bitrate_kbps = 6000, nc_max_bitrate_kbps = 8000, nc_gop_size = 120, nc_codec = H264\<rparr>"

definition zero_timings :: timings where
  "zero_timings = \<lparr>tm_encode_us = 0, tm_lock_us = 0, tm_cb_us = 0\<rparr>"

definition nvenc_new :: "u32 \<Rightarrow> nvenc" where
  "nvenc_new api_version = \<lparr>nv_dll = False, nv_session = False, nv_driver_api_ver = api_version,
     nv_reg_tex = 0, nv_reg_res = 0, nv_out_bufs = [0, 0, 0], nv_out_idx = 0,
     nv_saved_cfg = zero_rc, nv_saved_init = zero_init, nv_config = default_nvenc_config,
     nv_orig_width = 0, nv_orig_height = 0, nv_initialized = False, nv_frame_idx = 0,
     nv_timings = zero_timings, nv_trace = []\<rparr>"

definition nv_emit :: "nv_call \<Rightarrow> nvenc \<Rightarrow> nvenc" where
  "nv_emit c e = e\<lparr>nv_trace := nv_trace e @ [c]\<rparr>"

section \<open>Initialisation\<close>

text \<open>The version field of every driver struct.\<close>

definition sv :: "nvenc \<Rightarrow> u32 \<Rightarrow> bool \<Rightarrow> u32" where
  "sv e idx hi = nv_driver_api_ver e OR push_bit 16 idx OR push_bit 28 7
     OR (if hi then push_bit 31 1 else 0)"

definition negotiate_api :: "u32 \<Rightarrow> u32 option \<Rightarrow> u32" where
  "negotiate_api cur raw_max = (case raw_max of
     None \<Rightarrow> cur
   | Some raw \<Rightarrow>
       if raw \<noteq> 0 then
         let converted = drop_bit 4 raw OR push_bit 24 (raw AND 0xF)
         in if converted < cur then converted else cur
       else cur)"

record nvenc_init_env =
  ne_dll_ok :: bool
  ne_create_fn :: bool
  ne_max_version :: "u32 option"
  ne_create_ok :: bool
  ne_open_ok :: bool
  ne_preset :: "rc_params option"
  ne_init_ok :: bool
  ne_bufs :: "handle option list"

definition load_dll :: "nvenc_init_env \<Rightarrow> nvenc \<Rightarrow> bool \<times> nvenc" where
  "load_dll env e =
    (if \<not> ne_dll_ok env then (False, e\<lparr>nv_dll := False\<rparr>)
     else
       let e1 = nv_emit (Acquire Dll) (e\<lparr>nv_dll := True\<rparr>)
       in if \<not> ne_create_fn env then (False, e1)
          else
            let e2 = e1\<lparr>nv_driver_api_ver := negotiate_api (nv_driver_api_ver e1) (ne_max_version env)\<rparr>
            in (ne_create_ok env, e2))"

definition open_session :: "nvenc_init_env \<Rightarrow> nvenc \<Rightarrow> bool \<times> nvenc" where
  "open_session env e =
    (if ne_open_ok env then (True, nv_emit (Acquire Session) (e\<lparr>nv_session := True\<rparr>))
     else (False, e\<lparr>nv_session := False\<rparr>))"

text \<open>The encoder configuration built on the preset the driver returned.\<close>

definition encoder_rc :: "nvenc_config \<Rightarrow> rc_params \<Rightarrow> rc_params" where
  "encoder_rc c preset = preset\<lparr>
     rc_average := nc_bitrate_kbps c * 1000,
     rc_max := nc_max_bitrate_kbps c * 1000,
     rc_vbv_size := vbv_bits (nc_bitrate_kbps c),
     rc_vbv_delay := vbv_bits (nc_bitrate_kbps c),
     rc_frame_interval_p := 1,
     rc_gop := nc_gop_size c,
     rc_repeat_spspps := True\<rparr>"

definition encoder_init_params :: "nvenc_config \<Rightarrow> init_params" where
  "encoder_init_params c = \<lparr>ip_width = nc_width c, ip_height = nc_height c,
     ip_max_width = nc_width c, ip_max_height = nc_height c, ip_dar_width = nc_width c,
     ip_dar_height = nc_height c, ip_fps_num = nc_fps_num c, ip_fps_den = nc_fps_den c,
     ip_codec = nc_codec c\<rparr>"

definition init_encoder :: "nvenc_init_env \<Rightarrow> nvenc \<Rightarrow> bool \<times> nvenc" where
  "init_encoder env e = (case ne_preset env of
     None \<Rightarrow> (False, e)
   | Some preset \<Rightarrow>
       let c = nv_config e;
           e1 = e\<lparr>nv_orig_width := nc_width c, nv_orig_height := nc_height c\<rparr>
       in if ne_init_ok env
          then (True, e1\<lparr>nv_saved_cfg := encoder_rc c preset, nv_saved_init := encoder_init_params c\<rparr>)
          else (False, e1))"

function create_output_bufs :: "handle option list \<Rightarrow> nat \<Rightarrow> nvenc \<Rightarrow> bool \<times> nvenc" where
  "create_output_bufs bufs i e =
    (if i \<ge> kBitstreamPoolSize then (True, e)
     else case (if i < length bufs then bufs ! i else None) of
       None \<Rightarrow> (False, e)
     | Some h \<Rightarrow> create_output_bufs bufs (Suc i)
         (nv_emit (Acquire (Bitstream h)) (e\<lparr>nv_out_bufs := (nv_out_bufs e)[i := h]\<rparr>)))"

  by pat_completeness auto

termination
  by (relation "measure (\<lambda>(_, i, _). kBitstreamPoolSize - i)") (auto simp: kBitstreamPoolSize_def)

declare create_output_bufs.simps [simp del]

definition nvenc_init :: "bool \<Rightarrow> nvenc_config \<Rightarrow> nvenc_init_env \<Rightarrow> nvenc \<Rightarrow> bool \<times> nvenc" where
  "nvenc_init device cfg env e =
    (if \<not> device then (False, e)
     else if nc_fps_num cfg = 0 then (False, e)
     else
       let r1 = load_dll env (e\<lparr>nv_config := cfg\<rparr>);
           r2 = seq_ok r1 (open_session env);
           r3 = seq_ok r2 (init_encoder env);
           r4 = seq_ok r3 (create_output_bufs (ne_bufs env) 0)
       in seq_ok r4 (\<lambda>e4. (True, e4\<lparr>nv_initialized := True\<rparr>)))"

section \<open>Encoding\<close>

datatype enc_status = EncSuccess | NeedMoreInput | EncError

record encode_env =
  ee_register :: "handle option"
  ee_map :: "handle option"
  ee_encode :: enc_status
  ee_lock_ok :: bool
  ee_size :: nat
  ee_intra :: bool
  ee_encode_us :: u32
  ee_lock_us :: u32
  ee_cb_us :: u32

text \<open>Unregister the cached texture, if there is one.\<close>

definition destroy_reg :: "nvenc \<Rightarrow> nvenc" where
  "destroy_reg e =
    (if nv_reg_res e \<noteq> 0
     then nv_emit (Release (Registered (nv_reg_res e))) (e\<lparr>nv_reg_res := 0, nv_reg_tex := 0\<rparr>)
     else e)"

definition ensure_registered :: "handle \<Rightarrow> handle option \<Rightarrow> nvenc \<Rightarrow> bool \<times> nvenc" where
  "ensure_registered tex reg e =
    (if tex = nv_reg_tex e \<and> nv_reg_res e \<noteq> 0 then (True, e)
     else
       let e1 = destroy_reg e
       in case reg of
            None \<Rightarrow> (False, e1)
          | Some r \<Rightarrow> (True, nv_emit (Acquire (Registered r)) (e1\<lparr>nv_reg_res := r, nv_reg_tex := tex\<rparr>)))"

definition cur_buf :: "nvenc \<Rightarrow> handle" where
  "cur_buf e = nv_out_bufs e ! nv_out_idx e"

definition drain_one :: "int \<Rightarrow> encode_env \<Rightarrow> nvenc \<Rightarrow> bool \<times> packet option \<times> nvenc" where
  "drain_one pts env e =
    (let e1 = e\<lparr>nv_timings := (nv_timings e)\<lparr>tm_lock_us := ee_lock_us env\<rparr>\<rparr>
     in if \<not> ee_lock_ok env then (False, None, e1)
        else
          let e2 = nv_emit (Acquire (Locked (cur_buf e1))) e1;
              pkt = (if ee_size env > 0
                     then Some \<lparr>pk_size = ee_size env, pk_is_keyframe = ee_intra env, pk_pts = pts\<rparr>
                     else None);
              e3 = (if pkt \<noteq> None
                    then e2\<lparr>nv_timings := (nv_timings e2)\<lparr>tm_cb_us := ee_cb_us env\<rparr>\<rparr> else e2);
              e4 = nv_emit (Release (Locked (cur_buf e3))) e3
          in (True, pkt, e4\<lparr>nv_out_idx := (nv_out_idx e4 + 1) mod kBitstreamPoolSize\<rparr>))"

definition encode_one ::
  "handle \<Rightarrow> int \<Rightarrow> bool \<Rightarrow> encode_env \<Rightarrow> nvenc \<Rightarrow> bool \<times> packet option \<times> nvenc" where
  "encode_one tex pts force_idr env e =
    (case ensure_registered tex (ee_register env) (e\<lparr>nv_timings := zero_timings\<rparr>) of (ok, e1) \<Rightarrow>
     if \<not> ok then (False, None, e1)
     else case ee_map env of
       None \<Rightarrow> (False, None, e1)
     | Some m \<Rightarrow>
         let e2 = nv_emit (Acquire (Mapped m)) e1;
             e3 = nv_emit (Encode (cur_buf e2) (nc_width (nv_config e2)) (nc_height (nv_config e2))
                    (word_of_int (nv_frame_idx e2)) force_idr pts) e2;
             e4 = nv_emit (Release (Mapped m)) (e3\<lparr>nv_frame_idx := nv_frame_idx e3 + 1\<rparr>);
             e5 = e4\<lparr>nv_timings := (nv_timings e4)\<lparr>tm_encode_us := ee_encode_us env\<rparr>\<rparr>
         in case ee_encode env of
              NeedMoreInput \<Rightarrow> (True, None, e5)
            | EncError \<Rightarrow> (False, None, e5)
            | EncSuccess \<Rightarrow> drain_one pts env e5)"

definition nvenc_encode_frame ::
  "handle \<Rightarrow> int \<Rightarrow> bool \<Rightarrow> encode_env \<Rightarrow> nvenc \<Rightarrow> bool \<times> packet option \<times> nvenc" where
  "nvenc_encode_frame tex pts force_idr env e =
    (if \<not> nv_initialized e \<or> tex = 0 then (False, None, e) else encode_one tex pts force_idr env e)"

section \<open>Flush and teardown\<close>

definition nvenc_flush :: "nvenc \<Rightarrow> nvenc" where
  "nvenc_flush e = (if \<not> nv_initialized e \<or> \<not> nv_session e then e else nv_emit Eos e)"

definition destroy_buf :: "nat \<Rightarrow> nvenc \<Rightarrow> nvenc" where
  "destroy_buf i e =
    (if nv_out_bufs e ! i \<noteq> 0
     then nv_emit (Release (Bitstream (nv_out_bufs e ! i))) (e\<lparr>nv_out_bufs := (nv_out_bufs e)[i := 0]\<rparr>)
     else e)"

definition destroy_session :: "nvenc \<Rightarrow> nvenc" where
  "destroy_session e = (if nv_session e then nv_emit (Release Session) (e\<lparr>nv_session := False\<rparr>) else e)"

definition free_dll :: "nvenc \<Rightarrow> nvenc" where
  "free_dll e = (if nv_dll e then nv_emit (Release Dll) (e\<lparr>nv_dll := False\<rparr>) else e)"

definition nvenc_destroy :: "nvenc \<Rightarrow> nvenc" where
  "nvenc_destroy e =
     free_dll (destroy_session (destroy_buf 2 (destroy_buf 1 (destroy_buf 0 (destroy_reg e)))))"

definition nvenc_shutdown :: "nvenc \<Rightarrow> nvenc" where
  "nvenc_shutdown e =
    (if \<not> nv_initialized e then e
     else (nvenc_destroy (nvenc_flush e))\<lparr>nv_initialized := False\<rparr>)"

section \<open>Reconfiguration\<close>

definition reconfigure :: "nvenc \<Rightarrow> nvenc" where
  "reconfigure e = nv_emit (Reconfigure (nv_saved_init e) (nv_saved_cfg e)) e"

definition nvenc_set_bitrate :: "bool \<Rightarrow> u32 \<Rightarrow> nvenc \<Rightarrow> bool \<times> nvenc" where
  "nvenc_set_bitrate ok kbps e =
    (if \<not> nv_initialized e then (False, e)
     else
       let e1 = reconfigure (e\<lparr>nv_saved_cfg := (nv_saved_cfg e)\<lparr>rc_average := kbps * 1000,
                  rc_max := kbps * 1000, rc_vbv_size := vbv_bits kbps, rc_vbv_delay := vbv_bits kbps\<rparr>\<rparr>)
       in if \<not> ok then (False, e1)
          else (True, e1\<lparr>nv_config := (nv_config e1)\<lparr>nc_bitrate_kbps := kbps\<rparr>\<rparr>))"

definition scaled_dim :: "u32 \<Rightarrow> rat \<Rightarrow> u32" where
  "scaled_dim orig scale = f2u32 (f32 (u2f orig * scale))"

definition scaled_dims :: "rat \<Rightarrow> nvenc \<Rightarrow> u32 \<times> u32" where
  "scaled_dims scale e =
    (let w = scaled_dim (nv_orig_width e) scale; h = scaled_dim (nv_orig_height e) scale
     in if w > nv_orig_width e \<or> h > nv_orig_height e then (nv_orig_width e, nv_orig_height e)
        else (w, h))"

definition scale_too_small :: "rat \<Rightarrow> nvenc \<Rightarrow> bool" where
  "scale_too_small scale e \<longleftrightarrow>
     scaled_dim (nv_orig_width e) scale < 128 \<or> scaled_dim (nv_orig_height e) scale < 128"

definition nvenc_set_resolution :: "bool \<Rightarrow> rat \<Rightarrow> nvenc \<Rightarrow> bool \<times> nvenc" where
  "nvenc_set_resolution ok scale e =
    (if \<not> nv_initialized e \<or> scale \<le> 0 then (False, e)
     else if scale_too_small scale e then (False, e)
     else case scaled_dims scale e of (w, h) \<Rightarrow>
       let e1 = reconfigure (e\<lparr>nv_saved_init := (nv_saved_init e)\<lparr>ip_width := w, ip_height := h,
                  ip_max_width := nv_orig_width e, ip_max_height := nv_orig_height e\<rparr>\<rparr>)
       in if \<not> ok then (False, e1)
          else (True, e1\<lparr>nv_config := (nv_config e1)\<lparr>nc_width := w, nc_height := h\<rparr>\<rparr>))"

definition nvenc_set_fps_limit :: "bool \<Rightarrow> u32 \<Rightarrow> nvenc \<Rightarrow> bool \<times> nvenc" where
  "nvenc_set_fps_limit ok fps e =
    (if \<not> nv_initialized e \<or> fps < 1 \<or> fps > 120 then (False, e)
     else
       let e1 = reconfigure (e\<lparr>nv_config := (nv_config e)\<lparr>nc_fps_num := fps\<rparr>,
                  nv_saved_init := (nv_saved_init e)\<lparr>ip_fps_num := fps, ip_fps_den := 1\<rparr>\<rparr>)
       in (ok, e1))"

section \<open>The encode subsystem\<close>

record encode_subsystem =
  es_encoder :: "nvenc option"
  es_force_idr :: bool
  es_trace :: "nv_call list"   \<comment> \<open>calls of encoders that were dropped\<close>

definition encode_subsystem_new :: encode_subsystem where
  "encode_subsystem_new = \<lparr>es_encoder = None, es_force_idr = False, es_trace = []\<rparr>"

text \<open>Dropping the owned encoder runs its destructor, which shuts it down.\<close>

definition drop_encoder :: "encode_subsystem \<Rightarrow> encode_subsystem" where
  "drop_encoder s = (case es_encoder s of None \<Rightarrow> s
     | Some e \<Rightarrow> s\<lparr>es_encoder := None, es_trace := es_trace s @ nv_trace (nvenc_shutdown e)\<rparr>)"

definition encode_init ::
  "u32 \<Rightarrow> bool \<Rightarrow> nvenc_config \<Rightarrow> nvenc_init_env \<Rightarrow> encode_subsystem \<Rightarrow> bool \<times> encode_subsystem" where
  "encode_init api device cfg env s =
    (case nvenc_init device cfg env (nvenc_new api) of (ok, e) \<Rightarrow>
      let s1 = (drop_encoder s)\<lparr>es_encoder := Some e\<rparr>
      in if \<not> ok then (False, drop_encoder s1) else (True, s1))"

text \<open>\<open>reinit\<close> is the same construction with the stored callback.\<close>

definition encode_reinit ::
  "u32 \<Rightarrow> bool \<Rightarrow> nvenc_config \<Rightarrow> nvenc_init_env \<Rightarrow> encode_subsystem \<Rightarrow> bool \<times> encode_subsystem" where
  "encode_reinit api device cfg env s = encode_init api device cfg env s"

definition request_idr :: "encode_subsystem \<Rightarrow> encode_subsystem" where
  "request_idr s = s\<lparr>es_force_idr := True\<rparr>"

definition encode_sub_frame ::
  "handle \<Rightarrow> int \<Rightarrow> encode_env \<Rightarrow> encode_subsystem \<Rightarrow> bool \<times> packet option \<times> encode_subsystem" where
  "encode_sub_frame tex pts env s = (case es_encoder s of
     None \<Rightarrow> (True, None, s)
   | Some e \<Rightarrow> (case nvenc_encode_frame tex pts (es_force_idr s) env e of (ok, pkt, e') \<Rightarrow>
       (ok, pkt, s\<lparr>es_force_idr := False, es_encoder := Some e'\<rparr>)))"

definition encode_set_bitrate :: "bool \<Rightarrow> u32 \<Rightarrow> encode_subsystem \<Rightarrow> bool \<times> encode_subsystem" where
  "encode_set_bitrate ok kbps s = (case es_encoder s of None \<Rightarrow> (False, s)
     | Some e \<Rightarrow> (case nvenc_set_bitrate ok kbps e of (b, e') \<Rightarrow> (b, s\<lparr>es_encoder := Some e'\<rparr>)))"

definition encode_set_resolution :: "bool \<Rightarrow> rat \<Rightarrow> encode_subsystem \<Rightarrow> bool \<times> encode_subsystem" where
  "encode_set_resolution ok scale s = (case es_encoder s of None \<Rightarrow> (False, s)
     | Some e \<Rightarrow> (case nvenc_set_resolution ok scale e of (b, e') \<Rightarrow> (b, s\<lparr>es_encoder := Some e'\<rparr>)))"

definition encode_set_fps_limit :: "bool \<Rightarrow> u32 \<Rightarrow> encode_subsystem \<Rightarrow> bool \<times> encode_subsystem" where
  "encode_set_fps_limit ok fps s = (case es_encoder s of None \<Rightarrow> (False, s)
     | Some e \<Rightarrow> (case nvenc_set_fps_limit ok fps e of (b, e') \<Rightarrow> (b, s\<lparr>es_encoder := Some e'\<rparr>)))"

definition encode_flush :: "encode_subsystem \<Rightarrow> encode_subsystem" where
  "encode_flush s = (case es_encoder s of None \<Rightarrow> s | Some e \<Rightarrow> s\<lparr>es_encoder := Some (nvenc_flush e)\<rparr>)"

definition encode_shutdown :: "encode_subsystem \<Rightarrow> encode_subsystem" where
  "encode_shutdown s = drop_encoder s"

section \<open>Resources of the encoder\<close>

fun nv_res :: "nv_call \<Rightarrow> nv_handle res option" where
  "nv_res (Acquire h) = Some (Acq h)"
| "nv_res (Release h) = Some (Rel h)"
| "nv_res _ = None"

definition nv_live :: "nvenc \<Rightarrow> nv_handle multiset" where
  "nv_live e = live_by nv_res (nv_trace e)"

lemma nv_live_emit [simp]: "nv_live (nv_emit c e) = live_update (nv_res c) (nv_live e)"
  by (simp add: nv_live_def nv_emit_def)

lemma nv_emit_simps [simp]:
  "nv_dll (nv_emit c e) = nv_dll e" "nv_session (nv_emit c e) = nv_session e"
  "nv_driver_api_ver (nv_emit c e) = nv_driver_api_ver e"
  "nv_reg_tex (nv_emit c e) = nv_reg_tex e" "nv_reg_res (nv_emit c e) = nv_reg_res e"
  "nv_out_bufs (nv_emit c e) = nv_out_bufs e" "nv_out_idx (nv_emit c e) = nv_out_idx e"
  "nv_saved_cfg (nv_emit c e) = nv_saved_cfg e" "nv_saved_init (nv_emit c e) = nv_saved_init e"
  "nv_config (nv_emit c e) = nv_config e" "nv_orig_width (nv_emit c e) = nv_orig_width e"
  "nv_orig_height (nv_emit c e) = nv_orig_height e" "nv_initialized (nv_emit c e) = nv_initialized e"
  "nv_frame_idx (nv_emit c e) = nv_frame_idx e" "nv_timings (nv_emit c e) = nv_timings e"
  by (simp_all add: nv_emit_def)

text \<open>What the encoder holds according to its fields.\<close>

definition nv_held :: "nvenc \<Rightarrow> nv_handle multiset" where
  "nv_held e = (if nv_dll e then {#Dll#} else {#}) + (if nv_session e then {#Session#} else {#})
     + mset (map Bitstream (filter (\<lambda>h. h \<noteq> 0) (nv_out_bufs e)))
     + (if nv_reg_res e \<noteq> 0 then {#Registered (nv_reg_res e)#} else {#})"

definition nv_owns :: "nvenc \<Rightarrow> bool" where
  "nv_owns e \<longleftrightarrow> nv_live e = nv_held e \<and> length (nv_out_bufs e) = 3 \<and> nv_out_idx e < 3"

lemma nv_owns_fields [simp]:
  "nv_owns (e\<lparr>nv_timings := t\<rparr>) = nv_owns e"
  "nv_owns (e\<lparr>nv_frame_idx := i\<rparr>) = nv_owns e"
  "nv_owns (e\<lparr>nv_config := c\<rparr>) = nv_owns e"
  "nv_owns (e\<lparr>nv_saved_cfg := rc\<rparr>) = nv_owns e"
  "nv_owns (e\<lparr>nv_saved_init := ip\<rparr>) = nv_owns e"
  "nv_owns (e\<lparr>nv_orig_width := w\<rparr>) = nv_owns e"
  "nv_owns (e\<lparr>nv_orig_height := w\<rparr>) = nv_owns e"
  "nv_owns (e\<lparr>nv_initialized := b\<rparr>) = nv_owns e"
  "nv_owns (e\<lparr>nv_driver_api_ver := w\<rparr>) = nv_owns e"
  by (simp_all add: nv_owns_def nv_held_def nv_live_def)

lemma nv_live_fields [simp]:
  "nv_live (e\<lparr>nv_timings := t\<rparr>) = nv_live e"
  "nv_live (e\<lparr>nv_frame_idx := i\<rparr>) = nv_live e"
  "nv_live (e\<lparr>nv_out_idx := n\<rparr>) = nv_live e"
  "nv_live (e\<lparr>nv_out_bufs := bs\<rparr>) = nv_live e"
  "nv_live (e\<lparr>nv_session := b\<rparr>) = nv_live e"
  "nv_live (e\<lparr>nv_dll := b\<rparr>) = nv_live e"
  "nv_live (e\<lparr>nv_reg_res := h\<rparr>) = nv_live e"
  "nv_live (e\<lparr>nv_reg_tex := h\<rparr>) = nv_live e"
  "nv_live (e\<lparr>nv_initialized := b\<rparr>) = nv_live e"
  by (simp_all add: nv_live_def)

lemma nv_owns_neutral: "nv_res c = None \<Longrightarrow> nv_owns (nv_emit c e) = nv_owns e"
  by (simp add: nv_owns_def nv_held_def)

lemma nv_owns_out_idx: "nv_owns e \<Longrightarrow> nv_owns (e\<lparr>nv_out_idx := (nv_out_idx e + 1) mod kBitstreamPoolSize\<rparr>)"
  by (simp add: nv_owns_def nv_held_def kBitstreamPoolSize_def)

lemma nv_owns_bracket:
  assumes "nv_owns e"
  shows "nv_owns (nv_emit (Release h) (nv_emit (Acquire h) e))"
  using assms by (simp add: nv_owns_def nv_held_def)

lemma ensure_registered_owns:
  assumes "nv_owns e" "reg \<noteq> Some 0"
  shows "nv_owns (snd (ensure_registered tex reg e))"
  using assms
  by (auto simp: ensure_registered_def destroy_reg_def nv_owns_def nv_held_def Let_def
      split: option.splits)

lemma drain_one_owns: "nv_owns e \<Longrightarrow> nv_owns (snd (snd (drain_one pts env e)))"
  by (simp add: drain_one_def Let_def cur_buf_def nv_owns_def nv_held_def kBitstreamPoolSize_def)

lemma encode_one_owns:
  assumes "nv_owns e" "ee_register env \<noteq> Some 0"
  shows "nv_owns (snd (snd (encode_one tex pts idr env e)))"
proof -
  obtain ok e1 where r: "ensure_registered tex (ee_register env) (e\<lparr>nv_timings := zero_timings\<rparr>) = (ok, e1)"
    by fastforce
  have o1: "nv_owns e1"
    using ensure_registered_owns[of "e\<lparr>nv_timings := zero_timings\<rparr>" "ee_register env" tex] assms r by simp
  show ?thesis
  proof (cases "ok \<and> ee_map env \<noteq> None")
    case True
    then obtain m where m: "ee_map env = Some m" by blast
    let ?e2 = "nv_emit (Acquire (Mapped m)) e1"
    let ?enc = "Encode (cur_buf ?e2) (nc_width (nv_config ?e2)) (nc_height (nv_config ?e2))
      (word_of_int (nv_frame_idx ?e2)) idr pts"
    let ?e3 = "nv_emit ?enc ?e2"
    let ?e4 = "nv_emit (Release (Mapped m)) (?e3\<lparr>nv_frame_idx := nv_frame_idx ?e3 + 1\<rparr>)"
    let ?e5 = "?e4\<lparr>nv_timings := (nv_timings ?e4)\<lparr>tm_encode_us := ee_encode_us env\<rparr>\<rparr>"
    have "nv_owns ?e5" using o1 by (simp add: nv_owns_def nv_held_def)
    then show ?thesis
      using True r m drain_one_owns[of ?e5 pts env]
      by (simp add: encode_one_def Let_def split: enc_status.split)
  next
    case False
    with r o1 show ?thesis by (auto simp: encode_one_def split: option.splits)
  qed
qed

section \<open>Operations of a running encoder\<close>

datatype nvenc_op = OpEncode handle int bool encode_env | OpBitrate bool u32 | OpResolution bool rat
  | OpFps bool u32 | OpFlush

fun nvenc_op_step :: "nvenc_op \<Rightarrow> nvenc \<Rightarrow> nvenc" where
  "nvenc_op_step (OpEncode tex pts idr env) e = snd (snd (nvenc_encode_frame tex pts idr env e))"
| "nvenc_op_step (OpBitrate ok k) e = snd (nvenc_set_bitrate ok k e)"
| "nvenc_op_step (OpResolution ok s) e = snd (nvenc_set_resolution ok s e)"
| "nvenc_op_step (OpFps ok n) e = snd (nvenc_set_fps_limit ok n e)"
| "nvenc_op_step OpFlush e = nvenc_flush e"

text \<open>A successful registration returns a non-null handle.\<close>

fun nvenc_op_wf :: "nvenc_op \<Rightarrow> bool" where
  "nvenc_op_wf (OpEncode tex pts idr env) = (ee_register env \<noteq> Some 0)"
| "nvenc_op_wf _ = True"

lemma nvenc_op_owns: "nv_owns e \<Longrightarrow> nvenc_op_wf op \<Longrightarrow> nv_owns (nvenc_op_step op e)"
  by (cases op)
    (auto simp: nvenc_encode_frame_def encode_one_owns nvenc_set_bitrate_def nvenc_set_resolution_def
      nvenc_set_fps_limit_def nvenc_flush_def reconfigure_def nv_owns_neutral Let_def split: prod.splits)

lemma nvenc_ops_owns: "nv_owns e \<Longrightarrow> list_all nvenc_op_wf ops \<Longrightarrow> nv_owns (fold nvenc_op_step ops e)"
  by (induction ops arbitrary: e) (simp_all add: nvenc_op_owns)

section \<open>Initialisation and teardown\<close>

lemma nv_owns_new: "nv_owns (nvenc_new v)"
  by (simp add: nv_owns_def nv_held_def nv_live_def nvenc_new_def)

lemma load_dll_owns:
  assumes "nv_owns e" "\<not> nv_dll e"
  shows "nv_owns (snd (load_dll env e))"
  using assms by (auto simp: load_dll_def Let_def) (simp_all add: nv_owns_def nv_held_def)

lemma load_dll_frame:
  "nv_session (snd (load_dll env e)) = nv_session e"
  "nv_out_bufs (snd (load_dll env e)) = nv_out_bufs e"
  "nv_initialized (snd (load_dll env e)) = nv_initialized e"
  "nv_config (snd (load_dll env e)) = nv_config e"
  by (simp_all add: load_dll_def Let_def)

lemma open_session_owns:
  assumes "nv_owns e" "\<not> nv_session e"
  shows "nv_owns (snd (open_session env e))"
  using assms by (simp add: open_session_def nv_owns_def nv_held_def)

lemma open_session_frame:
  "nv_out_bufs (snd (open_session env e)) = nv_out_bufs e"
  "nv_initialized (snd (open_session env e)) = nv_initialized e"
  "nv_config (snd (open_session env e)) = nv_config e"
  by (simp_all add: open_session_def)

lemma init_encoder_owns: "nv_owns (snd (init_encoder env e)) = nv_owns e"
  by (simp add: init_encoder_def Let_def split: option.split)

lemma init_encoder_frame:
  "nv_out_bufs (snd (init_encoder env e)) = nv_out_bufs e"
  "nv_initialized (snd (init_encoder env e)) = nv_initialized e"
  by (simp_all add: init_encoder_def Let_def split: option.split)

lemma create_bufs_frame:
  "nv_initialized (snd (create_output_bufs bufs i e)) = nv_initialized e \<and>
   nv_orig_width (snd (create_output_bufs bufs i e)) = nv_orig_width e \<and>
   nv_orig_height (snd (create_output_bufs bufs i e)) = nv_orig_height e \<and>
   nv_saved_cfg (snd (create_output_bufs bufs i e)) = nv_saved_cfg e \<and>
   nv_saved_init (snd (create_output_bufs bufs i e)) = nv_saved_init e \<and>
   nv_config (snd (create_output_bufs bufs i e)) = nv_config e"
proof (induction bufs i e rule: create_output_bufs.induct)
  case (1 bufs i e)
  then show ?case
    by (subst (1 2 3 4 5 6) create_output_bufs.simps) (auto split: option.split if_splits)
qed

lemma nv_owns_new_buf:
  assumes "nv_owns e" "nv_out_bufs e ! i = 0" "i < 3" "h \<noteq> 0"
  shows "nv_owns (nv_emit (Acquire (Bitstream h)) (e\<lparr>nv_out_bufs := (nv_out_bufs e)[i := h]\<rparr>))"
proof -
  have len: "length (nv_out_bufs e) = 3" using assms(1) by (simp add: nv_owns_def)
  then obtain a b c where abc: "nv_out_bufs e = [a, b, c]"
    by (auto simp: numeral_3_eq_3 length_Suc_conv)
  then consider "i = 0" "a = 0" | "i = 1" "b = 0" | "i = 2" "c = 0"
    using assms(2,3) by (auto simp: less_Suc_eq numeral_3_eq_3 numeral_2_eq_2)
  then show ?thesis
    by cases (use assms(1,4) abc in \<open>auto simp: nv_owns_def nv_held_def\<close>)
qed

lemma create_bufs_owns:
  assumes "nv_owns e" "\<forall>j. i \<le> j \<and> j < 3 \<longrightarrow> nv_out_bufs e ! j = 0" "list_all (\<lambda>h. h \<noteq> Some 0) bufs"
  shows "nv_owns (snd (create_output_bufs bufs i e))"
  using assms
proof (induction bufs i e rule: create_output_bufs.induct)
  case (1 bufs i e)
  show ?case
  proof (cases "i \<ge> 3")
    case True
    with 1(2) show ?thesis by (simp add: create_output_bufs.simps kBitstreamPoolSize_def)
  next
    case False
    show ?thesis
    proof (cases "if i < length bufs then bufs ! i else None")
      case None
      with 1(2) False show ?thesis
        by (subst create_output_bufs.simps) (auto simp: kBitstreamPoolSize_def)
    next
      case (Some h)
      then have h: "h \<noteq> 0" using 1(4) by (auto simp: list_all_length split: if_splits)
      let ?e = "nv_emit (Acquire (Bitstream h)) (e\<lparr>nv_out_bufs := (nv_out_bufs e)[i := h]\<rparr>)"
      have "nv_owns ?e" using nv_owns_new_buf[OF 1(2) _ _ h] 1(3) False by simp
      moreover have "\<forall>j. Suc i \<le> j \<and> j < 3 \<longrightarrow> nv_out_bufs ?e ! j = 0" using 1(3) by auto
      ultimately have "nv_owns (snd (create_output_bufs bufs (Suc i) ?e))"
        using 1(1)[OF _ Some] False 1(4) by (simp add: kBitstreamPoolSize_def)
      then show ?thesis
        using Some False by (subst create_output_bufs.simps) (simp add: kBitstreamPoolSize_def)
    qed
  qed
qed

lemma nvenc_init_owns:
  assumes "list_all (\<lambda>h. h \<noteq> Some 0) (ne_bufs env)"
  shows "nv_owns (snd (nvenc_init dev cfg env (nvenc_new v)))"
proof -
  let ?e = "(nvenc_new v)\<lparr>nv_config := cfg\<rparr>"
  let ?P = "\<lambda>e. nv_owns e \<and> nv_out_bufs e = [0, 0, 0]"
  let ?r1 = "load_dll env ?e"
  have e: "nv_owns ?e" "\<not> nv_dll ?e" "\<not> nv_session ?e" "nv_out_bufs ?e = [0, 0, 0]"
    using nv_owns_new by (simp_all, simp_all add: nvenc_new_def)
  have 1: "nv_owns (snd ?r1) \<and> nv_out_bufs (snd ?r1) = [0, 0, 0] \<and> \<not> nv_session (snd ?r1)"
    using load_dll_owns[OF e(1,2)] e by (simp add: load_dll_frame)
  have 2: "?P (snd (seq_ok ?r1 (open_session env)))"
    using 1 by (cases ?r1) (auto simp: seq_ok_def open_session_owns open_session_frame)
  have 3: "?P (snd (seq_ok (seq_ok ?r1 (open_session env)) (init_encoder env)))"
    by (rule seq_ok_inv[where P = ?P, OF 2]) (simp add: init_encoder_owns init_encoder_frame)
  have "nv_owns (snd (create_output_bufs (ne_bufs env) 0 x))" if "?P x" for x
    by (rule create_bufs_owns[OF _ _ assms]) (use that in \<open>auto simp: less_Suc_eq numeral_3_eq_3\<close>)
  then have 4: "nv_owns (snd (seq_ok (seq_ok (seq_ok ?r1 (open_session env)) (init_encoder env))
      (create_output_bufs (ne_bufs env) 0)))"
    using 3 by (auto simp: seq_ok_def[of _ "create_output_bufs _ _"] split: prod.split)
  then have "nv_owns (snd (seq_ok (seq_ok (seq_ok (seq_ok ?r1 (open_session env)) (init_encoder env))
      (create_output_bufs (ne_bufs env) 0)) (\<lambda>e4. (True, e4\<lparr>nv_initialized := True\<rparr>))))"
    by (rule seq_ok_inv[where P = nv_owns]) simp
  then show ?thesis using nv_owns_new by (simp add: nvenc_init_def Let_def)
qed

lemma nvenc_init_initialized:
  "nv_initialized (snd (nvenc_init dev cfg env (nvenc_new v))) = fst (nvenc_init dev cfg env (nvenc_new v))"
proof -
  let ?e = "(nvenc_new v)\<lparr>nv_config := cfg\<rparr>"
  let ?N = "\<lambda>e. \<not> nv_initialized e"
  have n: "?N ?e" "?N (nvenc_new v)" by (simp_all add: nvenc_new_def)
  have 1: "?N (snd (load_dll env ?e))" using n by (simp add: load_dll_frame)
  have 2: "?N (snd (seq_ok (load_dll env ?e) (open_session env)))"
    by (rule seq_ok_inv[where P = ?N, OF 1]) (simp add: open_session_frame)
  have 3: "?N (snd (seq_ok (seq_ok (load_dll env ?e) (open_session env)) (init_encoder env)))"
    by (rule seq_ok_inv[where P = ?N, OF 2]) (simp add: init_encoder_frame)
  have 4: "?N (snd (seq_ok (seq_ok (seq_ok (load_dll env ?e) (open_session env)) (init_encoder env))
      (create_output_bufs (ne_bufs env) 0)))"
    by (rule seq_ok_inv[where P = ?N, OF 3]) (simp add: create_bufs_frame)
  then show ?thesis using n by (auto simp: nvenc_init_def Let_def seq_ok_def split: prod.splits)
qed

lemma destroy_buf_owns:
  assumes "nv_owns e" "i < 3"
  shows "nv_owns (destroy_buf i e) \<and> nv_out_bufs (destroy_buf i e) = (nv_out_bufs e)[i := 0]"
proof -
  have "length (nv_out_bufs e) = 3" using assms(1) by (simp add: nv_owns_def)
  then obtain a b c where abc: "nv_out_bufs e = [a, b, c]"
    by (auto simp: numeral_3_eq_3 length_Suc_conv)
  consider "i = 0" | "i = 1" | "i = 2" using assms(2) by linarith
  then show ?thesis
    by cases (use assms(1) abc in \<open>auto simp: destroy_buf_def nv_owns_def nv_held_def\<close>)
qed

lemma destroy_releases:
  assumes "nv_owns e"
  shows "nv_live (nvenc_destroy e) = {#}"
proof -
  have "length (nv_out_bufs e) = 3" using assms by (simp add: nv_owns_def)
  then obtain a b c where abc: "nv_out_bufs e = [a, b, c]"
    by (auto simp: numeral_3_eq_3 length_Suc_conv)
  let ?e1 = "destroy_reg e" and ?e4 = "destroy_buf 2 (destroy_buf 1 (destroy_buf 0 (destroy_reg e)))"
  have 1: "nv_owns ?e1" "nv_out_bufs ?e1 = [a, b, c]" "nv_reg_res ?e1 = 0"
    using assms abc by (auto simp: destroy_reg_def nv_owns_def nv_held_def)
  have 4: "nv_owns ?e4" "nv_out_bufs ?e4 = [0, 0, 0]"
    using destroy_buf_owns[of ?e1 0] destroy_buf_owns[of "destroy_buf 0 ?e1" 1]
      destroy_buf_owns[of "destroy_buf 1 (destroy_buf 0 ?e1)" 2] 1 by simp_all
  have "nv_reg_res ?e4 = 0" using 1(3) by (simp add: destroy_buf_def)
  with 4 show ?thesis
    by (auto simp: nvenc_destroy_def free_dll_def destroy_session_def nv_owns_def nv_held_def)
qed

lemma nvenc_shutdown_releases:
  assumes "nv_owns e" "nv_initialized e"
  shows "nv_live (nvenc_shutdown e) = {#}"
  using assms destroy_releases[of "nvenc_flush e"]
  by (simp add: nvenc_shutdown_def nvenc_flush_def nv_owns_neutral)

lemma nvenc_op_frame:
  "nv_initialized (nvenc_op_step op e) = nv_initialized e"
  "nv_orig_width (nvenc_op_step op e) = nv_orig_width e"
  "nv_orig_height (nvenc_op_step op e) = nv_orig_height e"
  by (cases op; auto simp: nvenc_encode_frame_def encode_one_def drain_one_def ensure_registered_def destroy_reg_def
      nvenc_set_bitrate_def nvenc_set_resolution_def nvenc_set_fps_limit_def nvenc_flush_def
      reconfigure_def Let_def split: prod.splits option.splits enc_status.splits if_splits)+

lemma ops_frame:
  "nv_initialized (fold nvenc_op_step ops e) = nv_initialized e"
  "nv_orig_width (fold nvenc_op_step ops e) = nv_orig_width e"
  "nv_orig_height (fold nvenc_op_step ops e) = nv_orig_height e"
  by (induction ops arbitrary: e; simp add: nvenc_op_frame)+

section \<open>Properties\<close>

definition demo_nvenc_env :: nvenc_init_env where
  "demo_nvenc_env = \<lparr>ne_dll_ok = True, ne_create_fn = True, ne_max_version = None, ne_create_ok = True,
     ne_open_ok = True, ne_preset = Some zero_rc, ne_init_ok = True, ne_bufs = [Some 11, Some 12, Some 13]\<rparr>"

definition demo_encode_env :: encode_env where
  "demo_encode_env = \<lparr>ee_register = Some 21, ee_map = Some 31, ee_encode = EncSuccess, ee_lock_ok = True,
     ee_size = 900, ee_intra = True, ee_encode_us = 100, ee_lock_us = 50, ee_cb_us = 20\<rparr>"

text \<open>C39: Every driver resource of the encoder is released: after a successful initialisation and
  any sequence of encodes (whatever the driver answers), reconfigurations and flushes, the
  shutdown leaves nothing live: no library, session, bitstream buffer, registered or mapped
  input and no locked bitstream.\<close>

theorem nvenc_releases_everything:
  assumes "list_all (\<lambda>h. h \<noteq> Some 0) (ne_bufs env)" "list_all nvenc_op_wf ops"
    and "nvenc_init dev cfg env (nvenc_new v) = (True, e)"
  shows "nv_live (nvenc_shutdown (fold nvenc_op_step ops e)) = {#}"
proof -
  have "nv_owns e" "nv_initialized e"
    using nvenc_init_owns[OF assms(1), of dev cfg v] nvenc_init_initialized[of dev cfg env v] assms(3)
    by simp_all
  then show ?thesis using nvenc_shutdown_releases nvenc_ops_owns assms(2) by (simp add: ops_frame)
qed

lemma demo_nvenc_init:
  "\<exists>e. nvenc_init True default_nvenc_config demo_nvenc_env (nvenc_new 12) = (True, e)"
  by (simp add: nvenc_init_def load_dll_def open_session_def init_encoder_def create_output_bufs.simps
      demo_nvenc_env_def default_nvenc_config_def Let_def kBitstreamPoolSize_def)

lemma nvenc_releases_everything_witness:
  "\<exists>e. nv_live (nvenc_shutdown (fold nvenc_op_step
      [OpEncode 7 0 True demo_encode_env, OpBitrate True 3000, OpEncode 8 1 False demo_encode_env] e)) = {#}"
proof -
  obtain e where e: "nvenc_init True default_nvenc_config demo_nvenc_env (nvenc_new 12) = (True, e)"
    using demo_nvenc_init by blast
  have "list_all (\<lambda>h. h \<noteq> Some 0) (ne_bufs demo_nvenc_env)"
    "list_all nvenc_op_wf [OpEncode 7 0 True demo_encode_env, OpBitrate True 3000, OpEncode 8 1 False demo_encode_env]"
    by (simp_all add: demo_nvenc_env_def demo_encode_env_def)
  from nvenc_releases_everything[OF this e] show ?thesis by blast
qed

text \<open>A failed initialisation is not cleaned up: once the driver library is loaded, any later
  failure leaves it loaded, and \<open>shutdown\<close> (which the owner's destructor runs) does
  nothing because the encoder is not initialised.\<close>

theorem nvenc_failed_init_leaks_library:
  assumes "nvenc_init True cfg env (nvenc_new v) = (False, e)"
    and "nc_fps_num cfg \<noteq> 0" "ne_dll_ok env" "list_all (\<lambda>h. h \<noteq> Some 0) (ne_bufs env)"
  shows "nvenc_shutdown e = e \<and> Dll \<in># nv_live (nvenc_shutdown e)"
proof -
  let ?e = "(nvenc_new v)\<lparr>nv_config := cfg\<rparr>"
  have own: "nv_owns e" and ninit: "\<not> nv_initialized e"
    using nvenc_init_owns[OF assms(4), of True cfg v] nvenc_init_initialized[of True cfg env v] assms(1)
    by simp_all
  have bufs: "nv_dll (snd (create_output_bufs bufs i x)) = nv_dll x" for bufs i x
  proof (induction bufs i x rule: create_output_bufs.induct)
    case (1 bufs i x)
    then show ?case by (subst create_output_bufs.simps) (auto split: option.split if_splits)
  qed
  have dll: "nv_dll (snd (load_dll env ?e))" using assms(3) by (simp add: load_dll_def Let_def)
  have step: "nv_dll (snd (open_session env x)) = nv_dll x" "nv_dll (snd (init_encoder env x)) = nv_dll x" for x
    by (simp_all add: open_session_def init_encoder_def Let_def split: option.split)
  have "nv_dll (snd (nvenc_init True cfg env (nvenc_new v)))"
    unfolding nvenc_init_def Let_def if_not_P[OF assms(2)] not_True_eq_False if_False
    by (rule seq_ok_inv[where P = nv_dll])+ (simp_all add: dll step bufs)
  then have "nv_dll e" using assms(1) by simp
  then have "Dll \<in># nv_live e" using own by (simp add: nv_owns_def nv_held_def)
  with ninit show ?thesis by (simp add: nvenc_shutdown_def)
qed

lemma nvenc_failed_init_leaks_library_witness:
  "\<exists>e. nvenc_init True default_nvenc_config (demo_nvenc_env\<lparr>ne_open_ok := False\<rparr>) (nvenc_new 12) = (False, e)
    \<and> Dll \<in># nv_live (nvenc_shutdown e)"
proof -
  obtain e where "nvenc_init True default_nvenc_config (demo_nvenc_env\<lparr>ne_open_ok := False\<rparr>) (nvenc_new 12) = (False, e)"
    by (simp add: nvenc_init_def load_dll_def open_session_def demo_nvenc_env_def
        default_nvenc_config_def Let_def)
  with nvenc_failed_init_leaks_library[OF this] show ?thesis
    by (auto simp: demo_nvenc_env_def default_nvenc_config_def)
qed

text \<open>What every reconfiguration and the saved state respect: rate control with a one second
  buffer at the average rate, and the session ceiling of the original dimensions.\<close>

definition saved_ok :: "nvenc \<Rightarrow> bool" where
  "saved_ok e \<longleftrightarrow> rc_vbv_size (nv_saved_cfg e) = rc_average (nv_saved_cfg e)
    \<and> rc_vbv_delay (nv_saved_cfg e) = rc_vbv_size (nv_saved_cfg e)
    \<and> ip_max_width (nv_saved_init e) = nv_orig_width e \<and> ip_max_height (nv_saved_init e) = nv_orig_height e
    \<and> ip_width (nv_saved_init e) \<le> nv_orig_width e \<and> ip_height (nv_saved_init e) \<le> nv_orig_height e"

fun call_ok :: "u32 \<Rightarrow> u32 \<Rightarrow> nv_call \<Rightarrow> bool" where
  "call_ok w h (Reconfigure ip rc) = (rc_vbv_size rc = rc_average rc \<and> rc_vbv_delay rc = rc_vbv_size rc
     \<and> ip_max_width ip = w \<and> ip_max_height ip = h \<and> ip_width ip \<le> w \<and> ip_height ip \<le> h)"
| "call_ok w h _ = True"

definition reconf_ok :: "nvenc \<Rightarrow> bool" where
  "reconf_ok e \<longleftrightarrow> saved_ok e \<and> list_all (call_ok (nv_orig_width e) (nv_orig_height e)) (nv_trace e)"

lemma scaled_dims_le: "scaled_dims s e = (w, h) \<Longrightarrow> w \<le> nv_orig_width e \<and> h \<le> nv_orig_height e"
  by (auto simp: scaled_dims_def Let_def split: if_splits)

lemma reconf_ok_reconfigure: "reconf_ok (reconfigure e) = (saved_ok e \<and> reconf_ok e)"
  by (auto simp: reconf_ok_def reconfigure_def saved_ok_def nv_emit_def)

lemma reconf_ok_emit:
  "call_ok (nv_orig_width e) (nv_orig_height e) c \<Longrightarrow> reconf_ok (nv_emit c e) = reconf_ok e"
  by (auto simp: reconf_ok_def saved_ok_def nv_emit_def)

lemma reconf_ok_fields:
  "reconf_ok (e\<lparr>nv_timings := t\<rparr>) = reconf_ok e"
  "reconf_ok (e\<lparr>nv_frame_idx := i\<rparr>) = reconf_ok e"
  "reconf_ok (e\<lparr>nv_out_idx := n\<rparr>) = reconf_ok e"
  "reconf_ok (e\<lparr>nv_config := c\<rparr>) = reconf_ok e"
  "reconf_ok (e\<lparr>nv_reg_res := r, nv_reg_tex := tx\<rparr>) = reconf_ok e"
  by (simp_all add: reconf_ok_def saved_ok_def)

lemma ensure_registered_reconf: "reconf_ok e \<Longrightarrow> reconf_ok (snd (ensure_registered tex reg e))"
  by (simp add: ensure_registered_def destroy_reg_def Let_def reconf_ok_emit reconf_ok_fields
      split: option.split)

lemma drain_one_reconf: "reconf_ok e \<Longrightarrow> reconf_ok (snd (snd (drain_one pts env e)))"
  by (simp add: drain_one_def Let_def reconf_ok_emit reconf_ok_fields)

lemma encode_one_reconf: "reconf_ok e \<Longrightarrow> reconf_ok (snd (snd (encode_one tex pts idr env e)))"
  using ensure_registered_reconf[of "e\<lparr>nv_timings := zero_timings\<rparr>" tex "ee_register env"]
  by (auto simp: encode_one_def Let_def reconf_ok_emit reconf_ok_fields intro!: drain_one_reconf
      split: prod.split option.split enc_status.split)

lemma op_reconf: "reconf_ok e \<Longrightarrow> reconf_ok (nvenc_op_step op e)"
proof (cases op)
  case (OpEncode tex pts idr env)
  then show "reconf_ok e \<Longrightarrow> ?thesis" by (simp add: nvenc_encode_frame_def encode_one_reconf)
next
  case (OpBitrate ok k)
  then show "reconf_ok e \<Longrightarrow> ?thesis"
    by (simp add: nvenc_set_bitrate_def Let_def reconf_ok_fields reconf_ok_reconfigure)
      (simp add: reconf_ok_def saved_ok_def vbv_bits_def)
next
  case (OpResolution ok s)
  obtain w h where wh: "scaled_dims s e = (w, h)" by fastforce
  then show "reconf_ok e \<Longrightarrow> ?thesis"
    using scaled_dims_le[OF wh] OpResolution
    by (simp add: nvenc_set_resolution_def Let_def reconf_ok_fields reconf_ok_reconfigure)
      (simp add: reconf_ok_def saved_ok_def)
next
  case (OpFps ok n)
  then show "reconf_ok e \<Longrightarrow> ?thesis"
    by (simp add: nvenc_set_fps_limit_def Let_def reconf_ok_fields reconf_ok_reconfigure)
      (simp add: reconf_ok_def saved_ok_def)
next
  case OpFlush
  then show "reconf_ok e \<Longrightarrow> ?thesis" by (simp add: nvenc_flush_def reconf_ok_emit)
qed

lemma ops_reconf: "reconf_ok e \<Longrightarrow> reconf_ok (fold nvenc_op_step ops e)"
  by (induction ops arbitrary: e) (simp_all add: op_reconf)

lemma no_reconf_create: "list_all (call_ok w h) (nv_trace e) \<Longrightarrow>
   list_all (call_ok w h) (nv_trace (snd (create_output_bufs bufs i e)))"
proof (induction bufs i e rule: create_output_bufs.induct)
  case (1 bufs i e)
  then show ?case
    by (subst create_output_bufs.simps) (auto simp: nv_emit_def split: option.split if_splits)
qed

lemma init_reconf:
  assumes "nvenc_init dev cfg env (nvenc_new v) = (True, e)"
  shows "reconf_ok e"
proof -
  obtain e1 e2 e3 e4 where e: "load_dll env ((nvenc_new v)\<lparr>nv_config := cfg\<rparr>) = (True, e1)"
    "open_session env e1 = (True, e2)" "init_encoder env e2 = (True, e3)"
    "create_output_bufs (ne_bufs env) 0 e3 = (True, e4)" "e = e4\<lparr>nv_initialized := True\<rparr>"
    using assms by (auto simp: nvenc_init_def Let_def seq_ok_True split: if_splits)
  have tr: "list_all (call_ok w h) (nv_trace e3)" for w h
    using e(1-3) by (auto simp: load_dll_def open_session_def init_encoder_def nv_emit_def nvenc_new_def
        Let_def split: if_splits option.splits)
  have "saved_ok e3"
    using e(3) by (auto simp: init_encoder_def saved_ok_def encoder_rc_def encoder_init_params_def
        vbv_bits_def Let_def split: if_splits option.splits)
  with tr no_reconf_create[OF tr] e(4,5) create_bufs_frame[of "ne_bufs env" 0 e3] show ?thesis
    by (simp add: reconf_ok_def saved_ok_def) (metis snd_conv)
qed

text \<open>Every reconfiguration sent to the driver, over the whole life of an encoder, keeps the
  streaming rate control (buffer size and initial delay equal to one second of the average
  rate) and the session ceiling (encode dimensions at most the dimensions of the
  initialisation, which stay the maximum), whatever bitrates, scales and frame rates are asked
  for and whether or not earlier reconfigurations failed.\<close>

theorem nvenc_reconfigurations_wellformed:
  assumes "nvenc_init dev cfg env (nvenc_new v) = (True, e)"
  shows "list_all (call_ok (nv_orig_width e) (nv_orig_height e)) (nv_trace (fold nvenc_op_step ops e))"
  using ops_reconf[OF init_reconf[OF assms], of ops] by (simp add: reconf_ok_def ops_frame)

lemma nvenc_reconfigurations_wellformed_witness:
  "\<exists>e. list_all (call_ok (nv_orig_width e) (nv_orig_height e))
     (nv_trace (fold nvenc_op_step [OpBitrate True 3000, OpResolution True (1 / 2)] e))"
  using nvenc_reconfigurations_wellformed demo_nvenc_init by blast

text \<open>Resolution scaling is absolute: whatever happened to the encoder before, a successful
  \<open>set_resolution\<close> encodes at the scaled dimensions of the initialisation, not of the
  current resolution, never above them; and scale 1 restores the initial resolution exactly.\<close>

theorem nvenc_set_resolution_absolute:
  assumes "nv_initialized e" "0 < scale" "\<not> scale_too_small scale e"
  shows "let e' = snd (nvenc_set_resolution True scale (fold nvenc_op_step ops e)) in
     (nc_width (nv_config e'), nc_height (nv_config e')) = scaled_dims scale e
     \<and> (ip_width (nv_saved_init e'), ip_height (nv_saved_init e')) = scaled_dims scale e
     \<and> nc_width (nv_config e') \<le> nv_orig_width e \<and> nc_height (nv_config e') \<le> nv_orig_height e
     \<and> (scale = 1 \<and> unat (nv_orig_width e) < 2 ^ 24 \<and> unat (nv_orig_height e) < 2 ^ 24 \<longrightarrow>
         nc_width (nv_config e') = nv_orig_width e \<and> nc_height (nv_config e') = nv_orig_height e)"
proof -
  let ?x = "fold nvenc_op_step ops e"
  have orig: "nv_orig_width ?x = nv_orig_width e" "nv_orig_height ?x = nv_orig_height e" by (simp_all add: ops_frame)
  then have same: "scaled_dims scale ?x = scaled_dims scale e" "scale_too_small scale ?x = scale_too_small scale e"
    by (simp_all add: scaled_dims_def scale_too_small_def Let_def)
  obtain w h where wh: "scaled_dims scale e = (w, h)" by fastforce
  have exact: "scaled_dim d 1 = d" if "unat d < 2 ^ 24" for d
  proof -
    have "u2f d = rat_of_nat (unat d)" using that by (simp only: u2f_def f32_of_nat_exact)
    then have "f32 (u2f d * 1) = rat_of_nat (unat d)" using that by (simp only: mult_1_right f32_of_nat_exact)
    then show ?thesis by (simp only: scaled_dim_def f2u32_unat)
  qed
  then have "scale = 1 \<and> unat (nv_orig_width e) < 2 ^ 24 \<and> unat (nv_orig_height e) < 2 ^ 24 \<longrightarrow>
      w = nv_orig_width e \<and> h = nv_orig_height e"
    using wh by (auto simp: scaled_dims_def Let_def split: if_splits)
  then show ?thesis
    using assms same wh scaled_dims_le[OF wh]
    by (simp add: nvenc_set_resolution_def ops_frame reconfigure_def Let_def)
qed

lemma nvenc_set_resolution_absolute_witness:
  "let e = (nvenc_new 12)\<lparr>nv_initialized := True, nv_orig_width := 1920, nv_orig_height := 1080\<rparr>;
       e' = snd (nvenc_set_resolution True 1 (fold nvenc_op_step [OpResolution True (1 / 2)] e))
   in nc_width (nv_config e') = 1920 \<and> nc_height (nv_config e') = 1080"
proof -
  let ?e = "(nvenc_new 12)\<lparr>nv_initialized := True, nv_orig_width := 1920, nv_orig_height := 1080\<rparr>"
  have "u2f 1920 = 1920" "u2f 1080 = 1080" "f32 1920 = 1920" "f32 1080 = 1080"
    using f32_of_nat_exact[of 1920] f32_of_nat_exact[of 1080] by (simp_all add: u2f_def)
  then have "\<not> scale_too_small 1 ?e"
    by (simp add: scale_too_small_def scaled_dim_def f2u32_def word_less_nat_alt)
  from nvenc_set_resolution_absolute[OF _ _ this, of "[OpResolution True (1 / 2)]"]
  show ?thesis by (simp add: Let_def)
qed

text \<open>A bitrate change that the driver refuses still reaches the driver later: the saved
  configuration keeps the refused bitrate, the next successful reconfiguration of another kind
  sends it, and \<open>config.bitrate_kbps\<close> does not show it.\<close>

theorem nvenc_refused_bitrate_applied_later:
  assumes "nv_initialized e" "1 \<le> fps" "fps \<le> 120"
  shows "let e' = snd (nvenc_set_fps_limit True fps (snd (nvenc_set_bitrate False kbps e))) in
    (\<exists>ip rc. last (nv_trace e') = Reconfigure ip rc \<and> rc_average rc = kbps * 1000)
    \<and> nc_bitrate_kbps (nv_config e') = nc_bitrate_kbps (nv_config e)"
  using assms
  by (simp add: nvenc_set_fps_limit_def nvenc_set_bitrate_def reconfigure_def nv_emit_def Let_def
      not_less)

lemma nvenc_refused_bitrate_applied_later_witness:
  "let e = (nvenc_new 12)\<lparr>nv_initialized := True\<rparr>;
       e' = snd (nvenc_set_fps_limit True 30 (snd (nvenc_set_bitrate False 9000 e)))
   in nc_bitrate_kbps (nv_config e') = 6000"
  using nvenc_refused_bitrate_applied_later[of "(nvenc_new 12)\<lparr>nv_initialized := True\<rparr>" 30 9000]
  by (simp add: Let_def nvenc_new_def default_nvenc_config_def)

text \<open>A requested IDR is consumed by the next frame: the encode call of that frame carries the
  force flag (when the frame reaches the driver), and the request is gone afterwards whether
  or not the encode succeeded; without a request the flag is not set.\<close>

theorem encode_frame_consumes_idr_request:
  assumes "es_encoder s = Some e" "nv_initialized e" "tex \<noteq> 0"
    and "ee_register env \<noteq> None" "ee_map env \<noteq> None"
  shows "case encode_sub_frame tex pts env s of (ok, pkt, s') \<Rightarrow>
    \<not> es_force_idr s' \<and> (\<exists>e' buf w h i. es_encoder s' = Some e' \<and>
       Encode buf w h i (es_force_idr s) pts \<in> set (nv_trace e'))"
proof -
  obtain ok e1 where r: "ensure_registered tex (ee_register env) (e\<lparr>nv_timings := zero_timings\<rparr>) = (ok, e1)"
    by fastforce
  have ok: "ok" using r assms(4) by (auto simp: ensure_registered_def Let_def split: if_splits)
  obtain m where m: "ee_map env = Some m" using assms(5) by blast
  let ?e2 = "nv_emit (Acquire (Mapped m)) e1"
  let ?enc = "Encode (cur_buf ?e2) (nc_width (nv_config ?e2)) (nc_height (nv_config ?e2))
    (word_of_int (nv_frame_idx ?e2)) (es_force_idr s) pts"
  let ?e4 = "nv_emit (Release (Mapped m)) ((nv_emit ?enc ?e2)\<lparr>nv_frame_idx := nv_frame_idx ?e2 + 1\<rparr>)"
  let ?e5 = "?e4\<lparr>nv_timings := (nv_timings ?e4)\<lparr>tm_encode_us := ee_encode_us env\<rparr>\<rparr>"
  have in5: "?enc \<in> set (nv_trace ?e5)" by (simp add: nv_emit_def)
  have drain: "set (nv_trace x) \<subseteq> set (nv_trace (snd (snd (drain_one pts env x))))" for x
    by (auto simp: drain_one_def Let_def nv_emit_def)
  let ?r = "encode_one tex pts (es_force_idr s) env e"
  have "?r = (case ee_encode env of NeedMoreInput \<Rightarrow> (True, None, ?e5) | EncError \<Rightarrow> (False, None, ?e5)
      | EncSuccess \<Rightarrow> drain_one pts env ?e5)"
    using r ok m by (simp add: encode_one_def Let_def split: enc_status.split)
  then have "?enc \<in> set (nv_trace (snd (snd ?r)))"
    using in5 subsetD[OF drain[of ?e5] in5] by (cases "ee_encode env") simp_all
  then show ?thesis
    using assms(1-3)
    by (auto simp: encode_sub_frame_def nvenc_encode_frame_def split: prod.split) blast
qed

lemma encode_frame_consumes_idr_request_witness:
  "case encode_sub_frame 7 0 demo_encode_env
      \<lparr>es_encoder = Some ((nvenc_new 12)\<lparr>nv_initialized := True\<rparr>), es_force_idr = True, es_trace = []\<rparr>
    of (ok, pkt, s') \<Rightarrow> \<not> es_force_idr s'"
  using encode_frame_consumes_idr_request[of
      "\<lparr>es_encoder = Some ((nvenc_new 12)\<lparr>nv_initialized := True\<rparr>), es_force_idr = True, es_trace = []\<rparr>"
      "(nvenc_new 12)\<lparr>nv_initialized := True\<rparr>" 7 demo_encode_env 0]
  by (auto simp: demo_encode_env_def split: prod.splits)

end
