(* ===== verification/CopyOptimizer.thy ===== *)
theory CopyOptimizer
  imports Resources
begin

text \<open>
  \<open>src/src/pipeline/copy_optimizer.cpp\<close> and \<open>copy_optimizer.h\<close>: the GPU copy of a captured
  frame into the image the preview draws. The members are a record; every Vulkan call that
  creates, destroys, records or submits something is appended to a trace. The answers of the
  Vulkan calls, which are not part of the repository, are inputs. A handle is a 64-bit word,
  0 is \<open>VK_NULL_HANDLE\<close>.
\<close>

section \<open>Data\<close>

type_synonym vk_handle = u64

definition POOL_SIZE :: u32 where [model_defs]: "POOL_SIZE = 3"
definition FRAME_INCREMENT :: u64 where [model_defs]: "FRAME_INCREMENT = 1"

datatype layout = Undefined | TransferSrc | TransferDst | ShaderReadOnly

text \<open>Queue families of a barrier: the external one of the D3D11 side, a family of this device,
  or the zero of a default-initialised barrier (no ownership transfer).\<close>

datatype family = ExternalFamily | Family u32

datatype vk_cmd =
    Barrier vk_handle layout layout family family
  | BlitImage vk_handle vk_handle u32 u32
  | CopyImage vk_handle vk_handle u32 u32

record submit =
  su_slot :: u32
  su_cmds :: "vk_cmd list"
  su_timeline_value :: u64
  su_gl_slot :: u32
  su_gl_signal :: "vk_handle option"
  su_keyed_mutex :: "vk_handle option"

datatype vk_call =
    CreatePool
  | DestroyPool
  | AllocateBuffers
  | FreeBuffers
  | CreateTimeline
  | DestroyTimeline
  | QueueSubmit submit
  | GlConsumed u32

record copy_opt =
  co_device :: vk_handle
  co_queue :: vk_handle
  co_phys :: vk_handle
  co_pool :: vk_handle
  co_buffers :: "vk_handle list"
  co_timeline :: vk_handle
  co_counter :: u64
  co_staging_layouts :: "layout list"
  co_target_layouts :: "layout list"
  co_gl_signaled :: "bool list"
  co_signal_value :: u64
  co_pfn_get :: bool
  co_pfn_wait :: bool
  co_alive :: bool
  co_use_blit :: bool
  co_family :: u32

definition copy_opt_new :: copy_opt where
  "copy_opt_new = \<lparr>co_device = 0, co_queue = 0, co_phys = 0, co_pool = 0, co_buffers = [0, 0, 0],
     co_timeline = 0, co_counter = 0, co_staging_layouts = [Undefined, Undefined, Undefined],
     co_target_layouts = [Undefined, Undefined, Undefined],
     co_gl_signaled = [False, False, False], co_signal_value = 0, co_pfn_get = False,
     co_pfn_wait = False, co_alive = True, co_use_blit = True, co_family = 0\<rparr>"

section \<open>Shutdown\<close>

definition reset_slots :: "copy_opt \<Rightarrow> copy_opt" where
  "reset_slots c = c\<lparr>co_target_layouts := [Undefined, Undefined, Undefined],
     co_staging_layouts := [Undefined, Undefined, Undefined],
     co_gl_signaled := [False, False, False]\<rparr>"

text \<open>The guarded block of \<open>shutdown\<close>; \<open>seh\<close> tells that the wait for the last submit raised
  a structured exception, after which nothing of the block has happened.\<close>

definition destroy_timeline :: "copy_opt \<times> vk_call list \<Rightarrow> copy_opt \<times> vk_call list" where
  "destroy_timeline st = (case st of (c, tr) \<Rightarrow>
     if co_timeline c \<noteq> 0 then (c\<lparr>co_timeline := 0\<rparr>, tr @ [DestroyTimeline]) else (c, tr))"

definition free_buffers :: "copy_opt \<times> vk_call list \<Rightarrow> copy_opt \<times> vk_call list" where
  "free_buffers st = (case st of (c, tr) \<Rightarrow>
     if co_buffers c ! 0 \<noteq> 0 \<and> co_pool c \<noteq> 0
     then (c\<lparr>co_buffers := [0, 0, 0]\<rparr>, tr @ [FreeBuffers]) else (c, tr))"

definition destroy_pool :: "copy_opt \<times> vk_call list \<Rightarrow> copy_opt \<times> vk_call list" where
  "destroy_pool st = (case st of (c, tr) \<Rightarrow>
     if co_pool c \<noteq> 0 then (c\<lparr>co_pool := 0\<rparr>, tr @ [DestroyPool]) else (c, tr))"

definition teardown_waits :: "copy_opt \<Rightarrow> bool" where
  "teardown_waits c \<longleftrightarrow> co_signal_value c > 0 \<and> co_pfn_wait c \<and> co_timeline c \<noteq> 0"

definition copy_shutdown :: "bool \<Rightarrow> copy_opt \<times> vk_call list \<Rightarrow> copy_opt \<times> vk_call list" where
  "copy_shutdown seh st = (case st of (c, tr) \<Rightarrow>
     let c = c\<lparr>co_alive := False\<rparr> in
     if co_device c = 0 then (c, tr)
     else if teardown_waits c \<and> seh then (reset_slots c, tr)
     else (case destroy_pool (free_buffers (destroy_timeline (c, tr))) of (c, tr) \<Rightarrow>
       (reset_slots (c\<lparr>co_device := 0, co_queue := 0, co_phys := 0, co_counter := 0,
          co_pfn_get := False\<rparr>), tr)))"

section \<open>Initialisation\<close>

record copy_init_env =
  ci_pool :: "vk_handle option"
  ci_buffers :: "vk_handle list option"
  ci_blit_src :: bool
  ci_blit_dst :: bool
  ci_timeline :: "vk_handle option"
  ci_pfn_get :: bool
  ci_pfn_wait :: bool
  ci_shutdown_seh :: bool

definition copy_init_fail ::
  "copy_init_env \<Rightarrow> copy_opt \<times> vk_call list \<Rightarrow> bool \<times> copy_opt \<times> vk_call list" where
  "copy_init_fail env st = (False, copy_shutdown (ci_shutdown_seh env) st)"

definition create_timeline ::
  "copy_init_env \<Rightarrow> copy_opt \<times> vk_call list \<Rightarrow> bool \<times> copy_opt \<times> vk_call list" where
  "create_timeline env st = (case st of (c, tr) \<Rightarrow>
     (case ci_timeline env of
        None \<Rightarrow> copy_init_fail env (c, tr)
      | Some sem \<Rightarrow>
        let c = c\<lparr>co_timeline := sem, co_pfn_get := ci_pfn_get env\<rparr>; tr = tr @ [CreateTimeline] in
        if \<not> ci_pfn_get env then copy_init_fail env (c, tr)
        else let c = c\<lparr>co_pfn_wait := ci_pfn_wait env\<rparr> in
          if \<not> ci_pfn_wait env then copy_init_fail env (c, tr) else (True, c, tr)))"

definition copy_init :: "vk_handle \<Rightarrow> vk_handle \<Rightarrow> vk_handle \<Rightarrow> u32 \<Rightarrow> copy_init_env \<Rightarrow>
    copy_opt \<times> vk_call list \<Rightarrow> bool \<times> copy_opt \<times> vk_call list" where
  "copy_init device queue phys fam env st = (case st of (c, tr) \<Rightarrow>
     if device = 0 \<or> queue = 0 \<or> phys = 0 then (False, c, tr)
     else
       let c = (reset_slots c)\<lparr>co_alive := True, co_device := device, co_queue := queue,
                 co_phys := phys, co_family := fam\<rparr> in
       (case ci_pool env of
          None \<Rightarrow> copy_init_fail env (c, tr)
        | Some pool \<Rightarrow>
          let c = c\<lparr>co_pool := pool\<rparr>; tr = tr @ [CreatePool] in
          (case ci_buffers env of
             None \<Rightarrow> copy_init_fail env (c, tr)
           | Some bufs \<Rightarrow>
             let c = c\<lparr>co_buffers := bufs, co_use_blit := ci_blit_src env \<and> ci_blit_dst env\<rparr>;
                 tr = tr @ [AllocateBuffers] in
             create_timeline env (c, tr))))"

section \<open>The copy of one frame\<close>

record copy_req =
  cr_staging :: vk_handle
  cr_target :: vk_handle
  cr_width :: u32
  cr_height :: u32
  cr_slot :: u32
  cr_gl_slot :: u32
  cr_out_ptrs :: bool
  cr_gl_sem :: vk_handle
  cr_memory :: vk_handle

record copy_env =
  ce_counter :: u64
  ce_wait_ok :: bool
  ce_reset_ok :: bool
  ce_begin_ok :: bool
  ce_end_ok :: bool
  ce_keyed_mutex :: bool
  ce_submit_ok :: bool

definition copy_args_ok :: "copy_req \<Rightarrow> copy_opt \<Rightarrow> bool" where
  "copy_args_ok q c \<longleftrightarrow>
     co_device c \<noteq> 0 \<and> co_buffers c ! 0 \<noteq> 0 \<and> co_queue c \<noteq> 0
     \<and> cr_slot q < POOL_SIZE \<and> cr_gl_slot q < POOL_SIZE
     \<and> cr_staging q \<noteq> 0 \<and> cr_target q \<noteq> 0 \<and> cr_width q \<noteq> 0 \<and> cr_height q \<noteq> 0 \<and> cr_out_ptrs q"

text \<open>The bounded wait for the previous submit; answers whether the command buffer may be reused.\<close>

definition wait_previous :: "copy_env \<Rightarrow> copy_opt \<Rightarrow> bool" where
  "wait_previous env c =
    (if co_signal_value c > 0 \<and> co_pfn_get c \<and> co_pfn_wait c
     then if ce_counter env < co_signal_value c then ce_wait_ok env else True
     else True)"

definition record_commands :: "copy_req \<Rightarrow> copy_opt \<Rightarrow> vk_cmd list" where
  "record_commands q c =
    [Barrier (cr_staging q) Undefined TransferSrc ExternalFamily (Family (co_family c)),
     Barrier (cr_target q) (co_target_layouts c ! unat (cr_slot q)) TransferDst (Family 0) (Family 0),
     (if co_use_blit c then BlitImage else CopyImage) (cr_staging q) (cr_target q)
       (cr_width q) (cr_height q),
     Barrier (cr_target q) TransferDst ShaderReadOnly (Family 0) (Family 0),
     Barrier (cr_staging q) TransferSrc TransferSrc (Family (co_family c)) ExternalFamily]"

definition gl_signal_for :: "copy_req \<Rightarrow> copy_opt \<Rightarrow> vk_handle option" where
  "gl_signal_for q c =
    (if co_gl_signaled c ! unat (cr_gl_slot q) then None
     else if cr_gl_sem q \<noteq> 0 then Some (cr_gl_sem q) else None)"

definition make_submit :: "copy_req \<Rightarrow> copy_env \<Rightarrow> vk_cmd list \<Rightarrow> copy_opt \<Rightarrow> submit" where
  "make_submit q env cmds c =
    \<lparr>su_slot = cr_slot q, su_cmds = cmds, su_timeline_value = co_signal_value c,
     su_gl_slot = cr_gl_slot q, su_gl_signal = gl_signal_for q c,
     su_keyed_mutex = (if ce_keyed_mutex env \<and> cr_memory q \<noteq> 0 then Some (cr_memory q) else None)\<rparr>"

definition commit_copy :: "copy_req \<Rightarrow> copy_opt \<Rightarrow> copy_opt" where
  "commit_copy q c =
    (let will_signal = (gl_signal_for q c \<noteq> None);
         c = c\<lparr>co_target_layouts := (co_target_layouts c)[unat (cr_slot q) := ShaderReadOnly],
               co_staging_layouts := (co_staging_layouts c)[unat (cr_slot q) := Undefined]\<rparr>
     in if will_signal
        then c\<lparr>co_gl_signaled := (co_gl_signaled c)[unat (cr_gl_slot q) := True]\<rparr> else c)"

text \<open>\<open>execute_copy\<close>: \<open>Some (semaphore, value, image)\<close> are the outputs after a success.\<close>

definition execute_copy :: "copy_req \<Rightarrow> copy_env \<Rightarrow> copy_opt \<times> vk_call list \<Rightarrow>
    (vk_handle \<times> u64 \<times> vk_handle) option \<times> copy_opt \<times> vk_call list" where
  "execute_copy q env st = (case st of (c, tr) \<Rightarrow>
     if \<not> copy_args_ok q c then (None, c, tr)
     else if \<not> wait_previous env c then (None, c, tr)
     else if \<not> ce_reset_ok env \<or> \<not> ce_begin_ok env then (None, c, tr)
     else
       let cmds = record_commands q c in
       if \<not> ce_end_ok env then (None, c, tr)
       else
         let c1 = c\<lparr>co_counter := co_counter c + FRAME_INCREMENT\<rparr>;
             c1 = c1\<lparr>co_signal_value := co_counter c1\<rparr> in
         if \<not> ce_submit_ok env
         then let c2 = c1\<lparr>co_counter := co_counter c1 - FRAME_INCREMENT\<rparr> in
           (None, c2\<lparr>co_signal_value := co_counter c2\<rparr>, tr)
         else (Some (co_timeline c1, co_signal_value c1, cr_target q), commit_copy q c1,
               tr @ [QueueSubmit (make_submit q env cmds c1)]))"

definition is_copy_ready :: "vk_handle \<Rightarrow> bool option \<Rightarrow> copy_opt \<Rightarrow> bool" where
  "is_copy_ready sem answer c =
    (if \<not> co_alive c then False
     else if co_device c = 0 \<or> \<not> co_pfn_wait c \<or> sem = 0 then False
     else answer = Some True)"

definition clear_gl_signal :: "u32 \<Rightarrow> copy_opt \<times> vk_call list \<Rightarrow> copy_opt \<times> vk_call list" where
  "clear_gl_signal slot st = (case st of (c, tr) \<Rightarrow>
     if slot < POOL_SIZE
     then (c\<lparr>co_gl_signaled := (co_gl_signaled c)[unat slot := False]\<rparr>, tr @ [GlConsumed slot])
     else (c, tr))"

definition is_slot_signaled :: "u32 \<Rightarrow> copy_opt \<Rightarrow> bool" where
  "is_slot_signaled slot c \<longleftrightarrow> slot < POOL_SIZE \<and> co_gl_signaled c ! unat slot"

section \<open>Runs\<close>

datatype copy_op = OpCopy copy_req copy_env | OpClear u32

fun copy_step :: "copy_op \<Rightarrow> copy_opt \<times> vk_call list \<Rightarrow> copy_opt \<times> vk_call list" where
  "copy_step (OpCopy q env) st = snd (execute_copy q env st)"
| "copy_step (OpClear slot) st = clear_gl_signal slot st"

text \<open>Every copy either leaves the state (up to the value it would signal next) or commits.\<close>

lemma execute_copy_cases:
  obtains (failed) c' where "execute_copy q env (c, tr) = (None, c', tr)"
      "c' = c \<or> c' = c\<lparr>co_signal_value := co_counter c\<rparr>"
  | (ok) c1 where "copy_args_ok q c" "wait_previous env c"
      "c1 = c\<lparr>co_counter := co_counter c + 1, co_signal_value := co_counter c + 1\<rparr>"
      "execute_copy q env (c, tr) = (Some (co_timeline c, co_counter c + 1, cr_target q),
         commit_copy q c1, tr @ [QueueSubmit (make_submit q env (record_commands q c) c1)])"
proof (cases "copy_args_ok q c \<and> wait_previous env c \<and> ce_reset_ok env \<and> ce_begin_ok env
    \<and> ce_end_ok env \<and> ce_submit_ok env")
  case True
  then show ?thesis by (intro ok) (auto simp: execute_copy_def FRAME_INCREMENT_def Let_def)
next
  case False
  have "execute_copy q env (c, tr) = (None, c, tr) \<or>
      execute_copy q env (c, tr) = (None, c\<lparr>co_signal_value := co_counter c\<rparr>, tr)"
    using False by (auto simp: execute_copy_def FRAME_INCREMENT_def Let_def)
  then show ?thesis using failed by blast
qed

definition copy_lists :: "copy_opt \<Rightarrow> bool" where
  "copy_lists c \<longleftrightarrow> length (co_gl_signaled c) = 3 \<and> length (co_target_layouts c) = 3"

lemma unat_slot_eq [simp]: "unat (a :: u32) = unat b \<longleftrightarrow> a = b"
  by (simp add: word_unat_eq_iff)

lemma slot_bound [simp]: "s < POOL_SIZE \<Longrightarrow> unat s < 3"
  by (simp add: POOL_SIZE_def word_less_nat_alt)

subsection \<open>Timeline values\<close>

fun timeline_of :: "vk_call \<Rightarrow> u64 list" where
  "timeline_of (QueueSubmit su) = [su_timeline_value su]"
| "timeline_of _ = []"

definition timeline_values :: "vk_call list \<Rightarrow> u64 list" where
  "timeline_values tr = concat (map timeline_of tr)"

lemma timeline_values_snoc [simp]: "timeline_values (tr @ [x]) = timeline_values tr @ timeline_of x"
  by (simp add: timeline_values_def)

definition timeline_inv :: "copy_opt \<times> vk_call list \<Rightarrow> bool" where
  "timeline_inv st = (case st of (c, tr) \<Rightarrow> let n = length (timeline_values tr) in
     timeline_values tr = map (\<lambda>i. word_of_nat (Suc i)) [0..<n]
     \<and> co_counter c = word_of_nat n \<and> co_signal_value c = word_of_nat n)"

lemma commit_copy_simps [simp]:
  "co_counter (commit_copy q c) = co_counter c"
  "co_signal_value (commit_copy q c) = co_signal_value c"
  "co_timeline (commit_copy q c) = co_timeline c"
  "co_target_layouts (commit_copy q c) = (co_target_layouts c)[unat (cr_slot q) := ShaderReadOnly]"
  "co_gl_signaled (commit_copy q c) = (if gl_signal_for q c = None then co_gl_signaled c
     else (co_gl_signaled c)[unat (cr_gl_slot q) := True])"
  by (simp_all add: commit_copy_def Let_def)

lemma copy_step_timeline: "timeline_inv st \<Longrightarrow> timeline_inv (copy_step op st)"
proof (cases op)
  case (OpCopy q env)
  assume inv: "timeline_inv st"
  obtain c tr where st: "st = (c, tr)" by fastforce
  show ?thesis
  proof (cases rule: execute_copy_cases[of q env c tr])
    case (failed c')
    with inv st OpCopy show ?thesis by (auto simp: timeline_inv_def Let_def)
  next
    case (ok c1)
    with inv st OpCopy show ?thesis
      by (simp add: timeline_inv_def Let_def make_submit_def add.commute)
  qed
next
  case (OpClear slot)
  assume "timeline_inv st"
  with OpClear show ?thesis
    by (cases st) (auto simp: clear_gl_signal_def timeline_inv_def Let_def)
qed

lemma fold_inv: "(\<And>x s. x \<in> set xs \<Longrightarrow> P s \<Longrightarrow> P (f x s)) \<Longrightarrow> P s \<Longrightarrow> P (fold f xs s)"
  by (induction xs arbitrary: s) auto

subsection \<open>Binary semaphores of the GL side\<close>

text \<open>\<open>Some b\<close>: the semaphore of image \<open>i\<close> is pending exactly if \<open>b\<close>; \<open>None\<close> once it was
  signalled a second time without having been consumed.\<close>

fun gl_step :: "u32 \<Rightarrow> vk_call \<Rightarrow> bool option \<Rightarrow> bool option" where
  "gl_step i (QueueSubmit su) (Some b) =
    (if su_gl_slot su = i \<and> su_gl_signal su \<noteq> None then if b then None else Some True else Some b)"
| "gl_step i (GlConsumed j) (Some b) = Some (if i = j then False else b)"
| "gl_step i _ x = x"

definition gl_pending :: "u32 \<Rightarrow> vk_call list \<Rightarrow> bool option" where
  "gl_pending i tr = fold (gl_step i) tr (Some False)"

lemma gl_pending_snoc [simp]: "gl_pending i (tr @ [x]) = gl_step i x (gl_pending i tr)"
  by (simp add: gl_pending_def)

definition gl_inv :: "copy_opt \<times> vk_call list \<Rightarrow> bool" where
  "gl_inv st = (case st of (c, tr) \<Rightarrow> copy_lists c \<and>
     (\<forall>i < POOL_SIZE. gl_pending i tr = Some (co_gl_signaled c ! unat i)))"

lemma copy_step_gl: "gl_inv st \<Longrightarrow> gl_inv (copy_step op st)"
proof (cases op)
  case (OpCopy q env)
  assume inv: "gl_inv st"
  obtain c tr where st: "st = (c, tr)" by fastforce
  show ?thesis
  proof (cases rule: execute_copy_cases[of q env c tr])
    case (failed c')
    with inv st OpCopy show ?thesis by (auto simp: gl_inv_def copy_lists_def)
  next
    case (ok c1)
    have b: "unat (cr_gl_slot q) < 3" using ok(1) by (simp add: copy_args_ok_def)
    from ok inv st OpCopy b show ?thesis
      by (auto simp: gl_inv_def copy_lists_def make_submit_def gl_signal_for_def nth_list_update
          split: if_splits)
  qed
next
  case (OpClear slot)
  assume "gl_inv st"
  with OpClear show ?thesis
    by (cases st) (auto simp: clear_gl_signal_def gl_inv_def copy_lists_def nth_list_update
        dest: slot_bound)
qed

subsection \<open>Image layouts\<close>

text \<open>What the device does with submitted commands: a barrier must start from the layout the
  image is in (or discard it), a copy needs both images in their transfer layouts.\<close>

fun exec_cmd :: "vk_cmd \<Rightarrow> (vk_handle \<Rightarrow> layout) option \<Rightarrow> (vk_handle \<Rightarrow> layout) option" where
  "exec_cmd (Barrier i old new _ _) (Some m) =
    (if old = Undefined \<or> m i = old then Some (m(i := new)) else None)"
| "exec_cmd (BlitImage s d _ _) (Some m) =
    (if m s = TransferSrc \<and> m d = TransferDst then Some m else None)"
| "exec_cmd (CopyImage s d _ _) (Some m) =
    (if m s = TransferSrc \<and> m d = TransferDst then Some m else None)"
| "exec_cmd _ None = None"

fun exec_call :: "vk_call \<Rightarrow> (vk_handle \<Rightarrow> layout) option \<Rightarrow> (vk_handle \<Rightarrow> layout) option" where
  "exec_call (QueueSubmit su) m = fold exec_cmd (su_cmds su) m"
| "exec_call _ m = m"

definition gpu_layouts :: "vk_call list \<Rightarrow> (vk_handle \<Rightarrow> layout) option" where
  "gpu_layouts tr = fold exec_call tr (Some (\<lambda>_. Undefined))"

lemma gpu_layouts_snoc [simp]: "gpu_layouts (tr @ [x]) = exec_call x (gpu_layouts tr)"
  by (simp add: gpu_layouts_def)

text \<open>The discipline of the caller: each slot has its own target image, and the staging image is
  none of them.\<close>

definition copy_op_wf :: "(u32 \<Rightarrow> vk_handle) \<Rightarrow> copy_op \<Rightarrow> bool" where
  "copy_op_wf img op = (case op of OpCopy q env \<Rightarrow>
       cr_target q = img (cr_slot q) \<and> cr_staging q \<notin> {img 0, img 1, img 2}
     | OpClear s \<Rightarrow> True)"

definition layout_inv :: "(u32 \<Rightarrow> vk_handle) \<Rightarrow> copy_opt \<times> vk_call list \<Rightarrow> bool" where
  "layout_inv img st = (case st of (c, tr) \<Rightarrow> copy_lists c \<and>
     (\<exists>m. gpu_layouts tr = Some m \<and> (\<forall>s < POOL_SIZE.
        co_target_layouts c ! unat s = Undefined \<or> m (img s) = co_target_layouts c ! unat s)))"

lemma record_commands_exec:
  assumes "co_target_layouts c ! unat (cr_slot q) = Undefined \<or>
      m (cr_target q) = co_target_layouts c ! unat (cr_slot q)" "cr_staging q \<noteq> cr_target q"
  shows "fold exec_cmd (record_commands q c) (Some m) =
    Some (m(cr_staging q := TransferSrc, cr_target q := ShaderReadOnly))"
  using assms by (auto simp: record_commands_def fun_upd_twist)

lemma slot_cases: "s < POOL_SIZE \<Longrightarrow> s = 0 \<or> s = 1 \<or> s = 2"
proof -
  assume "s < POOL_SIZE"
  then have "unat s < 3" by simp
  then have "unat s = unat (0 :: u32) \<or> unat s = unat (1 :: u32) \<or> unat s = unat (2 :: u32)"
    by (simp, linarith)
  then show ?thesis by (simp only: unat_slot_eq)
qed

lemma same_in_all_slots [simp]: "s < POOL_SIZE \<Longrightarrow> [x, x, x] ! unat s = x"
  using slot_cases[of s] by auto

lemma copy_step_layout:
  assumes img: "img 0 \<noteq> img 1" "img 0 \<noteq> img 2" "img 1 \<noteq> img 2"
    and wf: "copy_op_wf img op" and inv: "layout_inv img st"
  shows "layout_inv img (copy_step op st)"
proof (cases op)
  case (OpCopy q env)
  obtain c tr where st: "st = (c, tr)" by fastforce
  show ?thesis
  proof (cases rule: execute_copy_cases[of q env c tr])
    case (failed c')
    with inv st OpCopy show ?thesis by (auto simp: layout_inv_def copy_lists_def)
  next
    case (ok c1)
    from inv st obtain m where m: "gpu_layouts tr = Some m" "copy_lists c"
      and tracked: "\<And>s. s < POOL_SIZE \<Longrightarrow>
        co_target_layouts c ! unat s = Undefined \<or> m (img s) = co_target_layouts c ! unat s"
      by (auto simp: layout_inv_def)
    have slot: "cr_slot q < POOL_SIZE" using ok(1) by (simp add: copy_args_ok_def)
    have tgt: "cr_target q = img (cr_slot q)" "cr_staging q \<notin> {img 0, img 1, img 2}"
      using wf OpCopy by (simp_all add: copy_op_wf_def)
    have ne: "cr_staging q \<noteq> img s" if "s < POOL_SIZE" for s
      using slot_cases[OF that] tgt(2) by auto
    have inj: "img s = img t \<longleftrightarrow> s = t" if "s < POOL_SIZE" "t < POOL_SIZE" for s t
      using slot_cases[OF that(1)] slot_cases[OF that(2)] img by auto
    define m' where "m' = m(cr_staging q := TransferSrc, cr_target q := ShaderReadOnly)"
    have exec: "gpu_layouts (snd (copy_step op st)) = Some m'"
      using ok(4) m(1) record_commands_exec[of c q m] tracked[OF slot] ne[OF slot] st OpCopy tgt(1)
      by (simp add: make_submit_def m'_def)
    have "co_target_layouts (commit_copy q c1) ! unat s = Undefined \<or>
        m' (img s) = co_target_layouts (commit_copy q c1) ! unat s" if s: "s < POOL_SIZE" for s
      using ok(3) tracked[OF s] ne[OF s] inj[OF s slot] s slot tgt(1) m(2)
      by (auto simp: m'_def nth_list_update copy_lists_def)
    then show ?thesis
      using ok(3,4) exec st OpCopy m(2) by (auto simp: layout_inv_def copy_lists_def)
  qed
next
  case (OpClear slot)
  with inv show ?thesis
    by (cases st) (auto simp: clear_gl_signal_def layout_inv_def copy_lists_def)
qed

subsection \<open>Handles\<close>

datatype copy_res = ResPool | ResBuffers | ResTimeline

fun copy_res_of :: "vk_call \<Rightarrow> copy_res res option" where
  "copy_res_of CreatePool = Some (Acq ResPool)"
| "copy_res_of DestroyPool = Some (Rel ResPool)"
| "copy_res_of AllocateBuffers = Some (Acq ResBuffers)"
| "copy_res_of FreeBuffers = Some (Rel ResBuffers)"
| "copy_res_of CreateTimeline = Some (Acq ResTimeline)"
| "copy_res_of DestroyTimeline = Some (Rel ResTimeline)"
| "copy_res_of _ = None"

abbreviation copy_live :: "vk_call list \<Rightarrow> copy_res multiset" where
  "copy_live tr \<equiv> live_by copy_res_of tr"

text \<open>The handles the members hold are exactly the live ones.\<close>

definition copy_held :: "copy_opt \<Rightarrow> copy_res multiset" where
  "copy_held c = (if co_pool c \<noteq> 0 then {#ResPool#} else {#})
     + (if co_buffers c ! 0 \<noteq> 0 then {#ResBuffers#} else {#})
     + (if co_timeline c \<noteq> 0 then {#ResTimeline#} else {#})"

definition copy_owns :: "copy_opt \<times> vk_call list \<Rightarrow> bool" where
  "copy_owns st = (case st of (c, tr) \<Rightarrow> copy_live tr = copy_held c
     \<and> (co_pool c = 0 \<longrightarrow> co_buffers c ! 0 = 0)
     \<and> (co_device c = 0 \<longrightarrow> copy_held c = {#}))"

definition init_env_wf :: "copy_init_env \<Rightarrow> bool" where
  "init_env_wf env \<longleftrightarrow> ci_pool env \<noteq> Some 0 \<and> ci_timeline env \<noteq> Some 0
     \<and> (\<forall>b. ci_buffers env = Some b \<longrightarrow> b ! 0 \<noteq> 0) \<and> \<not> ci_shutdown_seh env"

lemma copy_step_owns: "copy_owns st \<Longrightarrow> copy_owns (copy_step op st)"
proof (cases op)
  case (OpCopy q env)
  assume inv: "copy_owns st"
  obtain c tr where st: "st = (c, tr)" by fastforce
  show ?thesis
  proof (cases rule: execute_copy_cases[of q env c tr])
    case (failed c')
    with inv st OpCopy show ?thesis by (auto simp: copy_owns_def copy_held_def)
  next
    case (ok c1)
    then have "copy_held (commit_copy q c1) = copy_held c"
      "co_device (commit_copy q c1) = co_device c" "co_pool (commit_copy q c1) = co_pool c"
      "co_buffers (commit_copy q c1) = co_buffers c"
      by (simp_all add: copy_held_def commit_copy_def Let_def)
    with ok(4) inv st OpCopy show ?thesis by (simp add: copy_owns_def)
  qed
next
  case (OpClear slot)
  assume "copy_owns st"
  with OpClear show ?thesis
    by (cases st) (auto simp: clear_gl_signal_def copy_owns_def copy_held_def)
qed

lemma destroy_chain:
  assumes "copy_live tr = copy_held c" "co_pool c = 0 \<longrightarrow> co_buffers c ! 0 = 0"
    and "destroy_pool (free_buffers (destroy_timeline (c, tr))) = (c', tr')"
  shows "copy_live tr' = {#} \<and> copy_held c' = {#}"
  using assms
  by (cases "co_timeline c = 0"; cases "co_pool c = 0"; cases "co_buffers c ! 0 = 0")
    (auto simp: destroy_timeline_def free_buffers_def destroy_pool_def copy_held_def live_by_append)

lemma copy_shutdown_owns:
  assumes "copy_owns st" and "\<not> (seh \<and> teardown_waits (fst st))"
  shows "copy_live (snd (copy_shutdown seh st)) = {#} \<and> copy_owns (copy_shutdown seh st)
    \<and> co_device (fst (copy_shutdown seh st)) = 0"
proof -
  obtain c tr where st: "st = (c, tr)" by fastforce
  let ?c = "c\<lparr>co_alive := False\<rparr>"
  have h: "copy_held ?c = copy_held c" by (simp add: copy_held_def)
  show ?thesis
  proof (cases "co_device c = 0")
    case True
    with assms st show ?thesis by (auto simp: copy_shutdown_def copy_owns_def copy_held_def)
  next
    case False
    obtain c' tr' where d: "destroy_pool (free_buffers (destroy_timeline (?c, tr))) = (c', tr')"
      by fastforce
    have e: "copy_live tr' = {#}" "copy_held c' = {#}"
      using destroy_chain[OF _ _ d] assms(1) st h by (auto simp: copy_owns_def)
    have "copy_shutdown seh st = (reset_slots (c'\<lparr>co_device := 0, co_queue := 0, co_phys := 0,
        co_counter := 0, co_pfn_get := False\<rparr>), tr')"
      using False st d assms(2) by (auto simp: copy_shutdown_def teardown_waits_def)
    with e show ?thesis
      by (auto simp: copy_owns_def copy_held_def reset_slots_def split: if_splits)
  qed
qed

lemma copy_init_owns:
  assumes wf: "init_env_wf env" and c: "co_pool c = 0" "co_buffers c ! 0 = 0" "co_timeline c = 0"
    and live: "copy_live tr = {#}"
  shows "copy_owns (snd (copy_init d q p f env (c, tr)))"
proof -
  have seh: "ci_shutdown_seh env = False" using wf by (simp add: init_env_wf_def)
  have fail: "copy_owns (snd (copy_init_fail env st))" if "copy_owns st" for st
    using that copy_shutdown_owns[of st False] by (simp add: copy_init_fail_def seh)
  have tl: "copy_owns (snd (create_timeline env (c', tr')))"
    if o: "copy_owns (c', tr')" and z: "co_device c' \<noteq> 0" "co_timeline c' = 0" for c' tr'
  proof (cases "ci_timeline env")
    case None
    with o fail show ?thesis by (simp add: create_timeline_def)
  next
    case (Some sem)
    with wf have "sem \<noteq> 0" by (auto simp: init_env_wf_def)
    with o z have "copy_owns (c'\<lparr>co_timeline := sem, co_pfn_get := g, co_pfn_wait := w\<rparr>,
        tr' @ [CreateTimeline])" "copy_owns (c'\<lparr>co_timeline := sem, co_pfn_get := g\<rparr>,
        tr' @ [CreateTimeline])" for g w
      by (simp_all add: copy_owns_def copy_held_def)
    with Some show ?thesis
      by (simp add: create_timeline_def Let_def fail)
  qed
  let ?c = "(reset_slots c)\<lparr>co_alive := True, co_device := d, co_queue := q, co_phys := p,
      co_family := f\<rparr>"
  show ?thesis
  proof (cases "d = 0 \<or> q = 0 \<or> p = 0")
    case True
    with c live show ?thesis by (auto simp: copy_init_def copy_owns_def copy_held_def)
  next
    case nz: False
    have h: "co_pool ?c = 0" "co_buffers ?c ! 0 = 0" "co_timeline ?c = 0" "co_device ?c = d"
      using c by (simp_all add: reset_slots_def)
    show ?thesis
    proof (cases "ci_pool env")
      case None
      have "copy_owns (?c, tr)" using h live nz by (simp add: copy_owns_def copy_held_def)
      with nz None show ?thesis by (simp add: copy_init_def Let_def fail)
    next
      case (Some pool)
      then have "pool \<noteq> 0" using wf by (auto simp: init_env_wf_def)
      then have o1: "copy_owns (?c\<lparr>co_pool := pool\<rparr>, tr @ [CreatePool])"
        using h live nz by (simp add: copy_owns_def copy_held_def)
      show ?thesis
      proof (cases "ci_buffers env")
        case None
        with nz Some o1 show ?thesis by (simp add: copy_init_def Let_def fail)
      next
        case (Some bufs)
        then have "bufs ! 0 \<noteq> 0" using wf by (auto simp: init_env_wf_def)
        then have "copy_owns (?c\<lparr>co_pool := pool, co_buffers := bufs,
            co_use_blit := ci_blit_src env \<and> ci_blit_dst env\<rparr>, tr @ [CreatePool, AllocateBuffers])"
          using h live nz \<open>pool \<noteq> 0\<close> live_by_snoc[of copy_res_of "tr @ [CreatePool]" AllocateBuffers]
          by (simp add: copy_owns_def copy_held_def)
        with nz Some \<open>ci_pool env = Some pool\<close> h show ?thesis
          by (simp add: copy_init_def Let_def tl)
      qed
    qed
  qed
qed

section \<open>Properties\<close>

definition demo_copy_init_env :: copy_init_env where
  "demo_copy_init_env = \<lparr>ci_pool = Some 11, ci_buffers = Some [21, 22, 23], ci_blit_src = True,
     ci_blit_dst = True, ci_timeline = Some 31, ci_pfn_get = True, ci_pfn_wait = True,
     ci_shutdown_seh = False\<rparr>"

definition demo_copy_env :: copy_env where
  "demo_copy_env = \<lparr>ce_counter = 0, ce_wait_ok = True, ce_reset_ok = True, ce_begin_ok = True,
     ce_end_ok = True, ce_keyed_mutex = True, ce_submit_ok = True\<rparr>"

definition demo_copy_req :: "u32 \<Rightarrow> copy_req" where
  "demo_copy_req s = \<lparr>cr_staging = 90, cr_target = 100 + ucast s, cr_width = 1920, cr_height = 1080,
     cr_slot = s, cr_gl_slot = (s + 1) mod 3, cr_out_ptrs = True, cr_gl_sem = 50, cr_memory = 60\<rparr>"

lemmas demo_copy_defs = demo_copy_init_env_def demo_copy_env_def demo_copy_req_def copy_opt_new_def

lemma copy_init_True:
  assumes "copy_init d q p f env (c, tr) = (True, c', tr')"
  shows "c' = (reset_slots c)\<lparr>co_alive := True, co_device := d, co_queue := q, co_phys := p,
      co_family := f, co_pool := the (ci_pool env), co_buffers := the (ci_buffers env),
      co_use_blit := ci_blit_src env \<and> ci_blit_dst env, co_timeline := the (ci_timeline env),
      co_pfn_get := True, co_pfn_wait := True\<rparr>"
    and "tr' = tr @ [CreatePool, AllocateBuffers, CreateTimeline]"
  using assms
  by (auto simp: copy_init_def create_timeline_def copy_init_fail_def Let_def
      split: option.splits if_splits)

text \<open>C34: Over the whole life of a freshly initialised copy optimizer, any mixture of copies (that
  succeed or fail at any call) and consumed signals submits exactly the timeline values
  1, 2, 3, ... in this order, with no value lost or repeated after a failed submit; and the
  binary semaphore of an image is never signalled again before the preview has consumed the
  last signal, with \<open>is_slot_signaled\<close> telling exactly whether one is pending.\<close>

theorem copy_signals_disciplined:
  assumes "copy_init d q p f env (copy_opt_new, []) = (True, c0, tr0)"
    and "fold copy_step ops (c0, tr0) = (c, tr)"
  shows "timeline_values tr = map (\<lambda>i. word_of_nat (Suc i)) [0..<length (timeline_values tr)]
    \<and> co_signal_value c = word_of_nat (length (timeline_values tr))
    \<and> (\<forall>i < POOL_SIZE. gl_pending i tr = Some (is_slot_signaled i c))"
proof -
  note i = copy_init_True[OF assms(1)]
  have "timeline_inv (c0, tr0)"
    by (simp add: timeline_inv_def i timeline_values_def copy_opt_new_def reset_slots_def)
  then have t: "timeline_inv (c, tr)"
    using fold_inv[of ops timeline_inv copy_step] copy_step_timeline assms(2) by metis
  have "gl_inv (c0, tr0)"
    by (auto simp: gl_inv_def i gl_pending_def copy_opt_new_def reset_slots_def copy_lists_def)
  then have "gl_inv (c, tr)"
    using fold_inv[of ops gl_inv copy_step] copy_step_gl assms(2) by metis
  with t show ?thesis by (simp add: timeline_inv_def gl_inv_def is_slot_signaled_def Let_def)
qed

lemma copy_signals_disciplined_witness:
  "timeline_values (snd (fold copy_step [OpCopy (demo_copy_req 0) demo_copy_env, OpClear 1,
      OpCopy (demo_copy_req 1) (demo_copy_env\<lparr>ce_submit_ok := False\<rparr>),
      OpCopy (demo_copy_req 1) demo_copy_env]
      (snd (copy_init 1 2 3 0 demo_copy_init_env (copy_opt_new, []))))) = [1, 2]"
proof -
  let ?ops = "[OpCopy (demo_copy_req 0) demo_copy_env, OpClear 1,
      OpCopy (demo_copy_req 1) (demo_copy_env\<lparr>ce_submit_ok := False\<rparr>),
      OpCopy (demo_copy_req 1) demo_copy_env]"
  obtain c0 tr0 where i: "copy_init 1 2 3 0 demo_copy_init_env (copy_opt_new, []) = (True, c0, tr0)"
    by (simp add: copy_init_def create_timeline_def demo_copy_defs)
  obtain c tr where r: "fold copy_step ?ops (c0, tr0) = (c, tr)" by fastforce
  have "length (timeline_values tr) = 2"
    using r copy_init_True[OF i]
    by (auto simp: execute_copy_def copy_args_ok_def wait_previous_def demo_copy_defs reset_slots_def
        POOL_SIZE_def FRAME_INCREMENT_def clear_gl_signal_def timeline_values_def commit_copy_def
        gl_signal_for_def Let_def simp del: commit_copy_simps)
  with copy_signals_disciplined[OF i r] i r show ?thesis by (simp add: numeral_2_eq_2)
qed



text \<open>No Vulkan object outlives the optimizer: whatever initialisation answers and whatever is
  copied in between, after \<open>shutdown\<close> (whose wait raised no structured exception) no pool,
  command buffer or semaphore is left; and a failed initialisation leaves none by itself.\<close>

theorem copy_no_handle_leak:
  assumes "init_env_wf env" and "copy_init d q p f env (copy_opt_new, []) = (r, st)"
  shows "copy_live (snd (copy_shutdown False (fold copy_step ops st))) = {#}
    \<and> (\<not> r \<longrightarrow> copy_live (snd st) = {#})"
proof -
  have o: "copy_owns st"
    using copy_init_owns[OF assms(1), of copy_opt_new "[]" d q p f] assms(2)
    by (simp add: copy_opt_new_def)
  then have "copy_owns (fold copy_step ops st)"
    using fold_inv[of ops copy_owns copy_step] copy_step_owns by metis
  moreover have "co_device (fst st) = 0" if "\<not> r"
    using assms that
    by (auto simp: copy_init_def create_timeline_def copy_init_fail_def Let_def copy_opt_new_def
        init_env_wf_def copy_shutdown_def reset_slots_def split: option.splits if_splits prod.splits)
  ultimately show ?thesis
    using copy_shutdown_owns[of _ False] o by (cases st) (auto simp: copy_owns_def)
qed

lemma copy_no_handle_leak_witness:
  "copy_live (snd (snd (copy_init 1 2 3 0 (demo_copy_init_env\<lparr>ci_pfn_wait := False\<rparr>)
    (copy_opt_new, [])))) = {#}" (is "copy_live (snd (snd ?i)) = _")
  using copy_no_handle_leak[of "demo_copy_init_env\<lparr>ci_pfn_wait := False\<rparr>" 1 2 3 0 False "snd ?i" "[]"]
  by (simp add: init_env_wf_def copy_init_def create_timeline_def copy_init_fail_def demo_copy_defs)

text \<open>Re-initialisation after a shutdown does not work once something was submitted: the last
  submitted value survives \<open>shutdown\<close>, while the new timeline starts at 0 and only this
  optimizer would signal it. Every later copy waits in vain, is skipped and changes nothing, for
  any number of frames. (\<open>shutdown\<close> is documented to support re-initialisation.)\<close>

theorem reinit_never_copies_again:
  assumes "co_device c \<noteq> 0" "co_signal_value c > 0"
    and "copy_init d q p f ienv (copy_shutdown False (c, tr)) = (True, st)"
    and "list_all (\<lambda>(q, env). ce_counter env = 0 \<and> \<not> ce_wait_ok env) frames"
  shows "fold (\<lambda>(q, env). copy_step (OpCopy q env)) frames st = st"
proof -
  obtain c1 tr1 where s: "copy_shutdown False (c, tr) = (c1, tr1)" by fastforce
  have "co_signal_value c1 = co_signal_value c"
    using s assms(1) by (auto simp: copy_shutdown_def Let_def reset_slots_def destroy_pool_def
        free_buffers_def destroy_timeline_def split: if_splits)
  moreover obtain c2 tr2 where st: "st = (c2, tr2)" by fastforce
  ultimately have "co_signal_value c2 > 0" "co_pfn_get c2" "co_pfn_wait c2"
    using copy_init_True[OF assms(3)[unfolded s st]] assms(2) by (simp_all add: reset_slots_def)
  then have "copy_step (OpCopy q env) st = st" if "ce_counter env = 0" "\<not> ce_wait_ok env" for q env
    using that st by (simp add: execute_copy_def wait_previous_def)
  then show ?thesis using assms(4) by (induction frames) auto
qed

lemma reinit_never_copies_again_witness:
  "fold (\<lambda>(q, env). copy_step (OpCopy q env))
     [(demo_copy_req 0, demo_copy_env\<lparr>ce_wait_ok := False\<rparr>)]
     (snd (copy_init 1 2 3 0 demo_copy_init_env
       (copy_shutdown False (copy_opt_new\<lparr>co_device := 1, co_signal_value := 5\<rparr>, [])))) =
   snd (copy_init 1 2 3 0 demo_copy_init_env
       (copy_shutdown False (copy_opt_new\<lparr>co_device := 1, co_signal_value := 5\<rparr>, [])))"
proof -
  obtain st where i: "copy_init 1 2 3 0 demo_copy_init_env
      (copy_shutdown False (copy_opt_new\<lparr>co_device := 1, co_signal_value := 5\<rparr>, [])) = (True, st)"
    by (cases "copy_shutdown False (copy_opt_new\<lparr>co_device := 1, co_signal_value := 5\<rparr>, [])")
      (simp add: copy_init_def create_timeline_def demo_copy_init_env_def Let_def)
  show ?thesis
    using reinit_never_copies_again[OF _ _ i, of "[(demo_copy_req 0, demo_copy_env\<lparr>ce_wait_ok := False\<rparr>)]"] i
    by (simp add: demo_copy_env_def copy_opt_new_def)
qed

end
