(* ===== verification/GpuInterop.thy ===== *)
theory GpuInterop
  imports CopyOptimizer
begin

text \<open>
  \<open>src/src/pipeline/gpu_interop_subsystem.cpp\<close>, \<open>gpu/external_memory_bridge.cpp\<close> and
  \<open>gpu/slot_ring.h\<close>: the bridge between the captured D3D11 texture and the Vulkan images of the
  preview, the slot it hands out per frame, and the cache of the last images the preview polls.
  The native half of the bridge (\<open>ext_bridge_*\<close>, Zig) answers as inputs; the calls into it are
  recorded in a trace.
\<close>

section \<open>The bridge\<close>

definition next_pool_slot :: "u32 \<Rightarrow> u32" where
  "next_pool_slot cur = (cur + 1) mod POOL_SIZE"

datatype ext_call = ExtInit | ExtSetDevice | ExtFrameImages u32 | ExtInitGlPool u32 u32
  | ExtResizeGlPool u32 u32 | ExtCreateGlSync | ExtShutdown

record bridge =
  br_pool_index :: u32
  br_gl_delete :: bool
  br_gl_objects :: "nat list"

definition bridge_members :: bridge where
  "bridge_members = \<lparr>br_pool_index = 0, br_gl_delete = False, br_gl_objects = []\<rparr>"

definition bridge_new :: "ext_call list \<Rightarrow> bridge \<times> ext_call list" where
  "bridge_new tr = (bridge_members, tr @ [ExtInit])"

text \<open>The two creation functions of an earlier design are stubs; the pool needs no preparation.\<close>

definition export_d3d11_handle :: "u64 \<Rightarrow> u64" where
  "export_d3d11_handle texture = 0"

definition create_vulkan_image_from_d3d11 :: "u64 \<Rightarrow> u32 \<Rightarrow> u32 \<Rightarrow> u32 \<Rightarrow> vk_handle" where
  "create_vulkan_image_from_d3d11 h w ht pool_idx = 0"

definition initialize_image_pool :: bool where
  "initialize_image_pool = True"

text \<open>\<open>locked\<close>: the preview thread holds \<open>gl_pool_mtx_\<close> (it is rebuilding the pool);
  \<open>answer\<close>: the images the native bridge gives, if it does.\<close>

definition bridge_frame_images :: "bool \<Rightarrow> (vk_handle \<times> vk_handle) option \<Rightarrow>
    bridge \<times> ext_call list \<Rightarrow> (vk_handle \<times> vk_handle \<times> u32) option \<times> bridge \<times> ext_call list" where
  "bridge_frame_images locked answer st = (case st of (b, tr) \<Rightarrow>
     if locked then (None, b, tr)
     else let tr = tr @ [ExtFrameImages (br_pool_index b)] in
       (case answer of
          None \<Rightarrow> (None, b, tr)
        | Some (staging, target) \<Rightarrow>
            (Some (staging, target, br_pool_index b),
             b\<lparr>br_pool_index := next_pool_slot (br_pool_index b)\<rparr>, tr)))"

text \<open>The explicit \<open>shutdown\<close> is followed by the destructor, which shuts down again.\<close>

definition ext_bridge_shutdown :: "bridge \<times> ext_call list \<Rightarrow> bridge \<times> ext_call list" where
  "ext_bridge_shutdown st = (case st of (b, tr) \<Rightarrow> (b, tr @ [ExtShutdown]))"

definition bridge_destroy :: "ext_call list \<Rightarrow> ext_call list" where
  "bridge_destroy tr = tr @ [ExtShutdown]"

subsection \<open>What the preview asks of the bridge\<close>

text \<open>The native half answers; the C++ half forwards. The memory behind the shared texture is found
  through the image of slot 0.\<close>

record ext_answers =
  ea_pooled_image :: "u32 \<Rightarrow> vk_handle"
  ea_execute_target :: "u32 \<Rightarrow> vk_handle"
  ea_target_handle :: "u32 \<Rightarrow> u64"
  ea_target_size :: "u32 \<Rightarrow> u64"
  ea_sync_created :: bool
  ea_sync_handle :: "u32 \<Rightarrow> u64"
  ea_staging_semaphore :: "u32 \<Rightarrow> vk_handle"
  ea_staging_memory :: "vk_handle \<Rightarrow> vk_handle"

definition get_pooled_image :: "ext_answers \<Rightarrow> u32 \<Rightarrow> vk_handle" where
  "get_pooled_image ea frame_idx = ea_pooled_image ea frame_idx"

definition get_execute_target :: "ext_answers \<Rightarrow> u32 \<Rightarrow> vk_handle" where
  "get_execute_target ea slot = ea_execute_target ea slot"

definition get_gl_target_handle :: "ext_answers \<Rightarrow> u32 \<Rightarrow> u64" where
  "get_gl_target_handle ea idx = ea_target_handle ea idx"

definition gl_target_size :: "ext_answers \<Rightarrow> u32 \<Rightarrow> u64" where
  "gl_target_size ea slot = ea_target_size ea slot"

definition create_gl_sync_semaphore :: "ext_answers \<Rightarrow> ext_call list \<Rightarrow> bool \<times> ext_call list" where
  "create_gl_sync_semaphore ea tr = (ea_sync_created ea, tr @ [ExtCreateGlSync])"

definition get_gl_sync_semaphore_handle :: "ext_answers \<Rightarrow> u32 \<Rightarrow> u64" where
  "get_gl_sync_semaphore_handle ea slot = ea_sync_handle ea slot"

definition get_gl_sync_semaphore :: "ext_answers \<Rightarrow> u32 \<Rightarrow> vk_handle" where
  "get_gl_sync_semaphore ea slot = ea_staging_semaphore ea slot"

definition get_staging_memory_for_image :: "ext_answers \<Rightarrow> vk_handle \<Rightarrow> vk_handle" where
  "get_staging_memory_for_image ea img = ea_staging_memory ea img"

definition get_shared_texture_memory :: "ext_answers \<Rightarrow> vk_handle" where
  "get_shared_texture_memory ea = get_staging_memory_for_image ea (get_pooled_image ea 0)"

definition initialize_gl_target_pool :: "u32 \<Rightarrow> u32 \<Rightarrow> ext_call list \<Rightarrow> ext_call list" where
  "initialize_gl_target_pool w h tr = tr @ [ExtInitGlPool w h]"

definition resize_gl_target_pool :: "u32 \<Rightarrow> u32 \<Rightarrow> ext_call list \<Rightarrow> ext_call list" where
  "resize_gl_target_pool w h tr = tr @ [ExtResizeGlPool w h]"

definition bridge_set_device :: "ext_call list \<Rightarrow> ext_call list" where
  "bridge_set_device tr = tr @ [ExtSetDevice]"

text \<open>The hook for the deletion of the imported GL memory is stored.\<close>

definition set_gl_memory_objects :: "bool \<Rightarrow> nat list \<Rightarrow> bridge \<Rightarrow> bridge" where
  "set_gl_memory_objects pfn objs b = b\<lparr>br_gl_delete := pfn, br_gl_objects := objs\<rparr>"

text \<open>Nothing reads it: the shutdown goes the same way with and without it.\<close>

lemma gl_hook_is_never_used:
  "snd (ext_bridge_shutdown (set_gl_memory_objects pfn objs b, tr)) = snd (ext_bridge_shutdown (b, tr)) \<and>
   br_gl_objects (fst (ext_bridge_shutdown (set_gl_memory_objects pfn objs b, tr))) = objs"
  by (simp add: ext_bridge_shutdown_def set_gl_memory_objects_def)

section \<open>The subsystem\<close>

record gpu_interop =
  gi_bridge :: "bridge option"
  gi_last_staging :: vk_handle
  gi_last_target :: vk_handle
  gi_last_slot :: u32

definition gpu_interop_new :: gpu_interop where
  "gpu_interop_new = \<lparr>gi_bridge = None, gi_last_staging = 0, gi_last_target = 0, gi_last_slot = 0\<rparr>"

definition interop_init :: "gpu_interop \<times> ext_call list \<Rightarrow> bool \<times> gpu_interop \<times> ext_call list" where
  "interop_init st = (case st of (g, tr) \<Rightarrow>
     (case bridge_new tr of (b, tr1) \<Rightarrow>
       (initialize_image_pool, g\<lparr>gi_bridge := Some b\<rparr>,
        if gi_bridge g = None then tr1 else bridge_destroy tr1)))"

definition interop_notify_vulkan_ready ::
  "u32 \<Rightarrow> u32 \<Rightarrow> gpu_interop \<times> ext_call list \<Rightarrow> gpu_interop \<times> ext_call list" where
  "interop_notify_vulkan_ready w h st = (case st of (g, tr) \<Rightarrow>
     if gi_bridge g = None then (g, tr)
     else (g, initialize_gl_target_pool w h (bridge_set_device tr) @ [ExtCreateGlSync]))"

definition interop_set_device :: "gpu_interop \<times> ext_call list \<Rightarrow> gpu_interop \<times> ext_call list" where
  "interop_set_device st = (case st of (g, tr) \<Rightarrow>
     if gi_bridge g = None then (g, tr) else (g, bridge_set_device tr))"

definition interop_frame_images :: "bool \<Rightarrow> (vk_handle \<times> vk_handle) option \<Rightarrow>
    gpu_interop \<times> ext_call list \<Rightarrow>
    (vk_handle \<times> vk_handle \<times> u32) option \<times> gpu_interop \<times> ext_call list" where
  "interop_frame_images locked answer st = (case st of (g, tr) \<Rightarrow>
     (case gi_bridge g of
        None \<Rightarrow> (None, g, tr)
      | Some b \<Rightarrow> (case bridge_frame_images locked answer (b, tr) of
          (r, b', tr') \<Rightarrow> (r, g\<lparr>gi_bridge := Some b'\<rparr>, tr'))))"

definition cache_last_images :: "vk_handle \<Rightarrow> vk_handle \<Rightarrow> u32 \<Rightarrow> gpu_interop \<Rightarrow> gpu_interop" where
  "cache_last_images staging target slot g =
    g\<lparr>gi_last_slot := slot, gi_last_staging := staging, gi_last_target := target\<rparr>"

definition get_last_frame_images :: "gpu_interop \<Rightarrow> (vk_handle \<times> vk_handle \<times> u32) option" where
  "get_last_frame_images g =
    (if gi_last_staging g \<noteq> 0 \<and> gi_last_target g \<noteq> 0
     then Some (gi_last_staging g, gi_last_target g, gi_last_slot g) else None)"

definition interop_shutdown :: "gpu_interop \<times> ext_call list \<Rightarrow> gpu_interop \<times> ext_call list" where
  "interop_shutdown st = (case st of (g, tr) \<Rightarrow>
     (g\<lparr>gi_bridge := None, gi_last_staging := 0, gi_last_target := 0, gi_last_slot := 0\<rparr>,
      case gi_bridge g of None \<Rightarrow> tr | Some b \<Rightarrow> bridge_destroy (snd (ext_bridge_shutdown (b, tr)))))"

text \<open>\<open>resize_gl_target_pool\<close>, on the preview thread.\<close>

definition interop_resize_gl :: "u32 \<Rightarrow> u32 \<Rightarrow> gpu_interop \<times> ext_call list \<Rightarrow> gpu_interop \<times> ext_call list" where
  "interop_resize_gl w h st = (case st of (g, tr) \<Rightarrow>
     if gi_bridge g = None then (g, tr) else (g, resize_gl_target_pool w h tr))"

text \<open>One frame of the frame loop: images are asked for and, when there are any, cached.\<close>

definition interop_frame :: "bool \<Rightarrow> (vk_handle \<times> vk_handle) option \<Rightarrow>
    gpu_interop \<times> ext_call list \<Rightarrow> u32 option \<times> gpu_interop \<times> ext_call list" where
  "interop_frame locked answer st =
    (case interop_frame_images locked answer st of
       (None, g, tr) \<Rightarrow> (None, g, tr)
     | (Some (staging, target, slot), g, tr) \<Rightarrow>
         (Some slot, cache_last_images staging target slot g, tr))"

fun interop_frames :: "(bool \<times> (vk_handle \<times> vk_handle) option) list \<Rightarrow>
    gpu_interop \<times> ext_call list \<Rightarrow> u32 list \<times> gpu_interop \<times> ext_call list" where
  "interop_frames [] st = ([], st)"
| "interop_frames ((locked, answer) # fs) st =
    (case interop_frame locked answer st of (r, st1) \<Rightarrow>
      (case interop_frames fs st1 of (slots, st2) \<Rightarrow>
        (case r of None \<Rightarrow> slots | Some s \<Rightarrow> s # slots, st2)))"

section \<open>The order of the slots\<close>

lemma next_pool_slot_nat: "s < POOL_SIZE \<Longrightarrow> unat (next_pool_slot s) = Suc (unat s) mod 3"
  using slot_cases[of s] by (auto simp: next_pool_slot_def POOL_SIZE_def)

lemma next_pool_slot_bound: "s < POOL_SIZE \<Longrightarrow> next_pool_slot s < POOL_SIZE"
  using slot_cases[of s] by (auto simp: next_pool_slot_def POOL_SIZE_def)

definition round_robin_from :: "nat \<Rightarrow> u32 list \<Rightarrow> bool" where
  "round_robin_from k slots \<longleftrightarrow> map unat slots = map (\<lambda>i. (k + i) mod 3) [0..<length slots]"

lemma round_robin_Cons:
  assumes "unat s = k mod 3" "round_robin_from (Suc k) slots"
  shows "round_robin_from k (s # slots)"
proof -
  have "map unat slots = map (\<lambda>i. (k + Suc i) mod 3) [0..<length slots]"
    using assms(2) by (simp add: round_robin_from_def)
  with assms(1) show ?thesis
    by (simp add: round_robin_from_def map_upt_Suc del: upt_Suc)
qed

lemma round_robin_mod: "round_robin_from (k mod 3) slots = round_robin_from k slots"
  by (simp add: round_robin_from_def mod_add_left_eq)

lemma interop_frames_slots:
  assumes "gi_bridge g = Some b" "br_pool_index b < POOL_SIZE"
    and "interop_frames fs (g, tr) = (slots, g', tr')"
  shows "round_robin_from (unat (br_pool_index b)) slots
    \<and> (slots \<noteq> [] \<longrightarrow> gi_last_slot g' = last slots)
    \<and> (slots = [] \<longrightarrow> gi_last_slot g' = gi_last_slot g \<and> get_last_frame_images g' = get_last_frame_images g)"
  using assms
proof (induction fs arbitrary: g b tr slots g' tr')
  case Nil
  then show ?case by (simp add: round_robin_from_def)
next
  case (Cons f fs)
  obtain locked answer where f: "f = (locked, answer)" by fastforce
  show ?case
  proof (cases "locked \<or> answer = None")
    case True
    define trx where "trx = (if locked then tr else tr @ [ExtFrameImages (br_pool_index b)])"
    have "interop_frame locked answer (g, tr) = (None, g\<lparr>gi_bridge := Some b\<rparr>, trx)"
      using Cons.prems(1) True
      by (cases locked)
        (simp_all add: interop_frame_def interop_frame_images_def bridge_frame_images_def trx_def)
    then have "interop_frames fs (g\<lparr>gi_bridge := Some b\<rparr>, trx) = (slots, g', tr')"
      using Cons.prems(3) f by (auto split: prod.splits)
    from Cons.IH[OF _ Cons.prems(2) this] show ?thesis by (simp add: get_last_frame_images_def)
  next
    case False
    then obtain s t where a: "answer = Some (s, t)" "\<not> locked" by auto
    define b' where "b' = b\<lparr>br_pool_index := next_pool_slot (br_pool_index b)\<rparr>"
    define gx where "gx = cache_last_images s t (br_pool_index b) (g\<lparr>gi_bridge := Some b'\<rparr>)"
    define trx where "trx = tr @ [ExtFrameImages (br_pool_index b)]"
    have step: "interop_frame locked answer (g, tr) = (Some (br_pool_index b), gx, trx)"
      using Cons.prems(1) a
      by (simp add: interop_frame_def interop_frame_images_def bridge_frame_images_def Let_def
          b'_def gx_def trx_def)
    obtain slots' where r: "interop_frames fs (gx, trx) = (slots', g', tr')"
      "slots = br_pool_index b # slots'"
      using Cons.prems(3) f step by (auto split: prod.splits)
    have gb: "gi_bridge gx = Some b'" by (simp add: gx_def cache_last_images_def)
    have bb: "br_pool_index b' < POOL_SIZE" using next_pool_slot_bound[OF Cons.prems(2)] by (simp add: b'_def)
    note ih = Cons.IH[OF gb bb r(1)]
    have "unat (br_pool_index b') = Suc (unat (br_pool_index b)) mod 3"
      using next_pool_slot_nat[OF Cons.prems(2)] by (simp add: b'_def)
    then have "round_robin_from (Suc (unat (br_pool_index b))) slots'"
      using ih round_robin_mod by metis
    then have "round_robin_from (unat (br_pool_index b)) slots"
      using round_robin_Cons[of "br_pool_index b"] Cons.prems(2) r(2) by simp
    moreover have "gi_last_slot gx = br_pool_index b" by (simp add: gx_def cache_last_images_def)
    ultimately show ?thesis using ih r(2) by auto
  qed
qed

text \<open>The slot in the cache and the next one of the bridge are slots of the pool.\<close>

definition slots_ok :: "gpu_interop \<Rightarrow> bool" where
  "slots_ok g \<longleftrightarrow> gi_last_slot g < POOL_SIZE \<and>
     (case gi_bridge g of None \<Rightarrow> True | Some b \<Rightarrow> br_pool_index b < POOL_SIZE)"

lemma slots_ok_new [simp]: "slots_ok gpu_interop_new"
  by (simp add: slots_ok_def gpu_interop_new_def POOL_SIZE_def)

lemma slots_ok_images:
  assumes "interop_frame_images locked answer (g, tr) = (r, g', tr')" and "slots_ok g"
  shows "slots_ok g' \<and> (case r of None \<Rightarrow> True | Some (staging, target, slot) \<Rightarrow> slot < POOL_SIZE)"
proof (cases "gi_bridge g")
  case None
  then show ?thesis using assms by (auto simp: interop_frame_images_def)
next
  case (Some b)
  have bound: "br_pool_index b < POOL_SIZE" "gi_last_slot g < POOL_SIZE"
    using assms(2) Some by (simp_all add: slots_ok_def)
  show ?thesis
  proof (cases "locked \<or> answer = None")
    case True
    then have "r = None \<and> g' = g\<lparr>gi_bridge := Some b\<rparr>"
      using assms(1) Some by (cases locked) (auto simp: interop_frame_images_def bridge_frame_images_def)
    then show ?thesis using bound by (simp add: slots_ok_def)
  next
    case False
    then obtain x y where "answer = Some (x, y)" "\<not> locked" by auto
    then have "r = Some (x, y, br_pool_index b) \<and>
        g' = g\<lparr>gi_bridge := Some (b\<lparr>br_pool_index := next_pool_slot (br_pool_index b)\<rparr>)\<rparr>"
      using assms(1) Some by (auto simp: interop_frame_images_def bridge_frame_images_def Let_def)
    then show ?thesis using bound next_pool_slot_bound[OF bound(1)] by (simp add: slots_ok_def)
  qed
qed

lemma slots_ok_cache: "slots_ok g \<Longrightarrow> slot < POOL_SIZE \<Longrightarrow> slots_ok (cache_last_images staging target slot g)"
  by (simp add: slots_ok_def cache_last_images_def)

lemma slots_ok_calls [simp]:
  "slots_ok g \<Longrightarrow> slots_ok (fst (snd (interop_init (g, tr))))" "slots_ok (fst (interop_shutdown (g, tr)))"
  "fst (interop_set_device (g, tr)) = g" "fst (interop_notify_vulkan_ready w h (g, tr)) = g"
  by (simp_all add: slots_ok_def interop_init_def bridge_new_def bridge_members_def interop_shutdown_def
      interop_set_device_def interop_notify_vulkan_ready_def initialize_image_pool_def POOL_SIZE_def)

lemma slots_ok_last:
  "slots_ok g \<Longrightarrow> get_last_frame_images g = Some (staging, target, slot) \<Longrightarrow> slot < POOL_SIZE"
  by (auto simp: slots_ok_def get_last_frame_images_def split: if_splits)

section \<open>Properties\<close>

text \<open>The slots handed out after initialisation are 0, 1, 2, 0, 1, 2, ... over the frames that
  got images, whatever frames are skipped in between because the preview holds the pool or the
  native bridge has no images; the cached slot is always the one of the last frame with images,
  and after \<open>shutdown\<close> no image of the destroyed bridge can be read any more.\<close>

theorem interop_slots_round_robin:
  assumes "interop_init (gpu_interop_new, tr) = (ok, g, tr1)"
    and "interop_frames fs (g, tr1) = (slots, g', tr2)"
  shows "map unat slots = map (\<lambda>i. i mod 3) [0..<length slots]
    \<and> (slots \<noteq> [] \<longrightarrow> gi_last_slot g' = last slots)
    \<and> get_last_frame_images (fst (interop_shutdown (g', tr2))) = None"
proof -
  have "gi_bridge g = Some bridge_members"
    using assms(1) by (auto simp: interop_init_def bridge_new_def)
  from interop_frames_slots[OF this _ assms(2)] show ?thesis
    by (auto simp: POOL_SIZE_def round_robin_from_def interop_shutdown_def get_last_frame_images_def bridge_members_def)
qed

lemma interop_slots_round_robin_witness:
  "map unat (fst (interop_frames [(False, Some (7, 8)), (True, Some (7, 8)), (False, Some (7, 9)),
      (False, None), (False, Some (7, 8)), (False, Some (7, 9))]
      (snd (interop_init (gpu_interop_new, []))))) = [0, 1, 2, 0]"
proof -
  let ?fs = "[(False, Some (7, 8)), (True, Some (7, 8)), (False, Some (7, 9)),
      (False, None), (False, Some (7, 8)), (False, Some (7, 9))]
      :: (bool \<times> (vk_handle \<times> vk_handle) option) list"
  let ?g = "gpu_interop_new\<lparr>gi_bridge := Some bridge_members\<rparr>"
  have i: "interop_init (gpu_interop_new, []) = (True, ?g, [ExtInit])"
    by (simp add: interop_init_def bridge_new_def initialize_image_pool_def gpu_interop_new_def)
  obtain slots g' tr2 where f: "interop_frames ?fs (?g, [ExtInit]) = (slots, g', tr2)"
    using prod_cases3 by blast
  have "length (fst (interop_frames ?fs (?g, [ExtInit]))) = 4"
    by (simp add: interop_frame_def interop_frame_images_def bridge_frame_images_def
        cache_last_images_def bridge_members_def del: length_greater_0_conv)
  then have len: "length slots = 4" by (simp only: f fst_conv)
  have "map unat slots = map (\<lambda>i. i mod 3) [0..<4]"
    using interop_slots_round_robin[OF i f] len by metis
  also have "\<dots> = [0, 1, 2, 0]" by (simp add: upt_rec)
  finally show ?thesis by (simp only: i f snd_conv fst_conv)
qed

end
