(* ===== verification/GpuTransfer.thy ===== *)
theory GpuTransfer
  imports Resources
begin

text \<open>
  \<open>src/src/pipeline/capture/pitch_copy.h\<close> and \<open>gpu_resource_manager.cpp\<close>: the transfer of a
  captured texture to the GPU that encodes. The mapped memory of a texture is a list of bytes
  with a row pitch; the answers of D3D11 are inputs, an \<open>HRESULT\<close> is an integer (negative is a
  failure, 0 is \<open>S_OK\<close>). The exported NT handle is traced.
\<close>

section \<open>Row by row copy\<close>

text \<open>\<open>memcpy\<close> of \<open>n\<close> bytes from position \<open>so\<close> of the source to position \<open>d\<close>.\<close>

definition memcpy_at :: "'b list \<Rightarrow> nat \<Rightarrow> 'b list \<Rightarrow> nat \<Rightarrow> nat \<Rightarrow> 'b list" where
  "memcpy_at dst d src so n = take d dst @ take n (drop so src) @ drop (d + n) dst"

fun copy_rows :: "nat \<Rightarrow> nat \<Rightarrow> nat \<Rightarrow> 'b list \<Rightarrow> 'b list \<Rightarrow> 'b list" where
  "copy_rows dp sp 0 src dst = dst"
| "copy_rows dp sp (Suc y) src dst =
    memcpy_at (copy_rows dp sp y src dst) (y * dp) src (y * sp) (min sp dp)"

definition copy_mapped_rows :: "u8 list \<Rightarrow> u32 \<Rightarrow> u8 list \<Rightarrow> u32 \<Rightarrow> u32 \<Rightarrow> u8 list" where
  "copy_mapped_rows dst dp src sp h = copy_rows (unat dp) (unat sp) (unat h) src dst"

lemma memcpy_at_spec:
  assumes "d + n \<le> length dst" "so + n \<le> length src"
  shows "length (memcpy_at dst d src so n) = length dst"
    and "i < length dst \<Longrightarrow> memcpy_at dst d src so n ! i =
      (if d \<le> i \<and> i < d + n then src ! (so + (i - d)) else dst ! i)"
proof -
  have len: "length (take n (drop so src)) = n" using assms(2) by simp
  show "length (memcpy_at dst d src so n) = length dst"
    using assms(1) len by (simp add: memcpy_at_def)
  show "memcpy_at dst d src so n ! i = (if d \<le> i \<and> i < d + n then src ! (so + (i - d)) else dst ! i)"
    if "i < length dst"
  proof -
    have tk: "length (take d dst) = d" using assms(1) by simp
    have sr: "i - d < n \<Longrightarrow> take n (drop so src) ! (i - d) = src ! (so + (i - d))"
      using assms(2) by simp
    have dr: "d + n \<le> i \<Longrightarrow> drop (d + n) dst ! (i - d - n) = dst ! i"
      using assms(1) that by simp
    consider "i < d" | "d \<le> i" "i < d + n" | "d + n \<le> i" by linarith
    then show ?thesis
      by cases (use tk sr dr len in
        \<open>auto simp: memcpy_at_def nth_append simp del: length_take length_drop nth_drop nth_take\<close>,
        use tk in simp)
  qed
qed

lemma row_of_index:
  fixes i y p :: nat
  assumes "0 < p"
  shows "i div p = y \<longleftrightarrow> y * p \<le> i \<and> i < y * p + p"
proof
  assume "i div p = y"
  then show "y * p \<le> i \<and> i < y * p + p"
    using assms dividend_less_div_times[of p i] by auto
next
  assume "y * p \<le> i \<and> i < y * p + p"
  then show "i div p = y" using assms by (intro div_nat_eqI) (auto simp: algebra_simps)
qed

lemma copy_rows_spec:
  assumes "y * dp \<le> length dst" "y * sp \<le> length src" "0 < dp"
  shows "length (copy_rows dp sp y src dst) = length dst \<and>
    (\<forall>i < length dst. copy_rows dp sp y src dst ! i =
      (if i div dp < y \<and> i mod dp < sp then src ! ((i div dp) * sp + i mod dp) else dst ! i))"
  using assms
proof (induction y)
  case (Suc y)
  then have le: "y * dp + dp \<le> length dst" "y * sp + sp \<le> length src" by auto
  then have ih: "length (copy_rows dp sp y src dst) = length dst"
    "\<And>i. i < length dst \<Longrightarrow> copy_rows dp sp y src dst ! i =
      (if i div dp < y \<and> i mod dp < sp then src ! ((i div dp) * sp + i mod dp) else dst ! i)"
    using Suc by auto
  have b: "y * dp + min sp dp \<le> length (copy_rows dp sp y src dst)"
    "y * sp + min sp dp \<le> length src"
    using le ih(1) by auto
  note m = memcpy_at_spec[OF b]
  have "copy_rows dp sp (Suc y) src dst ! i =
      (if i div dp < Suc y \<and> i mod dp < sp then src ! ((i div dp) * sp + i mod dp) else dst ! i)"
    if i: "i < length dst" for i
  proof (cases "i div dp = y")
    case True
    then have r: "y * dp \<le> i" "i < y * dp + dp" using row_of_index[OF Suc.prems(3)] by auto
    moreover have md: "i mod dp = i - y * dp" using True by (simp add: minus_div_mult_eq_mod[symmetric])
    ultimately show ?thesis using m(2)[of i] ih i True by (auto simp: min_def)
  next
    case False
    then have "\<not> (y * dp \<le> i \<and> i < y * dp + min sp dp)" using row_of_index[OF Suc.prems(3), of i y] by auto
    then show ?thesis using m(2)[of i] ih i False by (auto simp: less_Suc_eq)
  qed
  then show ?case using m(1) ih(1) by simp
qed simp

section \<open>The resource manager\<close>

text \<open>A texture: the D3D11 device it lives on and its size.\<close>

record tex =
  tx_device :: nat
  tx_w :: u32
  tx_h :: u32

record gpu_ctx =
  gc_device :: nat
  gc_luid :: u64

record gpu_rm =
  rm_display :: gpu_ctx
  rm_encode :: gpu_ctx
  rm_shared_tex :: "tex option"
  rm_encode_tex :: "tex option"
  rm_cpu_staging :: "tex option"
  rm_cpu_upload :: "tex option"
  rm_shared_handle :: bool
  rm_w :: u32
  rm_h :: u32
  rm_same_adapter :: bool
  rm_cpu_fallback :: bool
  rm_initialized :: bool

definition gpu_rm_new :: gpu_rm where
  "gpu_rm_new = \<lparr>rm_display = \<lparr>gc_device = 0, gc_luid = 0\<rparr>, rm_encode = \<lparr>gc_device = 0, gc_luid = 0\<rparr>,
     rm_shared_tex = None, rm_encode_tex = None, rm_cpu_staging = None, rm_cpu_upload = None,
     rm_shared_handle = False, rm_w = 0, rm_h = 0, rm_same_adapter = False,
     rm_cpu_fallback = False, rm_initialized = False\<rparr>"

datatype handle_call = HandleCreated | HandleClosed

fun handle_res :: "handle_call \<Rightarrow> unit res option" where
  "handle_res HandleCreated = Some (Acq ())"
| "handle_res HandleClosed = Some (Rel ())"

record rm_env =
  re_same_tex_ok :: bool
  re_shared_tex_ok :: bool
  re_qi_resource_ok :: bool
  re_shared_handle_ok :: bool
  re_qi_device1_ok :: bool
  re_open_ok :: bool
  re_cpu_display_ok :: bool
  re_cpu_encode_ok :: bool

definition new_tex :: "gpu_ctx \<Rightarrow> u32 \<Rightarrow> u32 \<Rightarrow> tex" where
  "new_tex g w h = \<lparr>tx_device = gc_device g, tx_w = w, tx_h = h\<rparr>"

definition create_same_adapter_staging ::
  "rm_env \<Rightarrow> u32 \<Rightarrow> u32 \<Rightarrow> gpu_rm \<Rightarrow> bool \<times> gpu_rm" where
  "create_same_adapter_staging env w h m =
    (if re_same_tex_ok env then (True, m\<lparr>rm_encode_tex := Some (new_tex (rm_display m) w h)\<rparr>)
     else (False, m))"

definition create_cross_adapter_shared :: "rm_env \<Rightarrow> u32 \<Rightarrow> u32 \<Rightarrow>
    gpu_rm \<times> handle_call list \<Rightarrow> bool \<times> gpu_rm \<times> handle_call list" where
  "create_cross_adapter_shared env w h st = (case st of (m, tr) \<Rightarrow>
     if \<not> re_shared_tex_ok env then (False, m, tr)
     else let m = m\<lparr>rm_shared_tex := Some (new_tex (rm_display m) w h)\<rparr> in
       if \<not> re_qi_resource_ok env then (False, m, tr)
       else if \<not> re_shared_handle_ok env then (False, m, tr)
       else let tr = tr @ [HandleCreated] in
         if \<not> re_qi_device1_ok env then (False, m\<lparr>rm_shared_handle := False\<rparr>, tr @ [HandleClosed])
         else if \<not> re_open_ok env then (False, m\<lparr>rm_shared_handle := False\<rparr>, tr @ [HandleClosed])
         else (True, m\<lparr>rm_shared_handle := True, rm_encode_tex := Some (new_tex (rm_encode m) w h)\<rparr>, tr))"

definition create_cpu_fallback_staging :: "rm_env \<Rightarrow> u32 \<Rightarrow> u32 \<Rightarrow> gpu_rm \<Rightarrow> bool \<times> gpu_rm" where
  "create_cpu_fallback_staging env w h m =
    (if \<not> re_cpu_display_ok env then (False, m)
     else let m = m\<lparr>rm_cpu_staging := Some (new_tex (rm_display m) w h)\<rparr> in
       if \<not> re_cpu_encode_ok env then (False, m)
       else (True, m\<lparr>rm_cpu_upload := Some (new_tex (rm_encode m) w h)\<rparr>))"

definition rm_choose_path :: "rm_env \<Rightarrow> u32 \<Rightarrow> u32 \<Rightarrow>
    gpu_rm \<times> handle_call list \<Rightarrow> bool \<times> gpu_rm \<times> handle_call list" where
  "rm_choose_path env w h st = (case st of (m, tr) \<Rightarrow>
     if rm_same_adapter m
     then (case create_same_adapter_staging env w h m of (ok, m) \<Rightarrow> (ok, m, tr))
     else (case create_cross_adapter_shared env w h (m, tr) of
         (True, m, tr) \<Rightarrow> (True, m, tr)
       | (False, m, tr) \<Rightarrow>
           (case create_cpu_fallback_staging env w h m of
              (ok, m) \<Rightarrow> (ok, m\<lparr>rm_cpu_fallback := ok\<rparr>, tr))))"

definition rm_init :: "rm_env \<Rightarrow> gpu_ctx \<Rightarrow> gpu_ctx \<Rightarrow> u32 \<Rightarrow> u32 \<Rightarrow>
    gpu_rm \<times> handle_call list \<Rightarrow> bool \<times> gpu_rm \<times> handle_call list" where
  "rm_init env display encode w h st = (case st of (m, tr) \<Rightarrow>
     let same = (gc_luid display = gc_luid encode);
         m = m\<lparr>rm_display := display, rm_same_adapter := same,
               rm_encode := (if same then display else encode), rm_w := w, rm_h := h\<rparr> in
     (case rm_choose_path env w h (m, tr) of
        (True, m, tr) \<Rightarrow> (True, m\<lparr>rm_initialized := True\<rparr>, tr)
      | (False, m, tr) \<Rightarrow> (False, m, tr)))"

definition rm_shutdown :: "gpu_rm \<times> handle_call list \<Rightarrow> gpu_rm \<times> handle_call list" where
  "rm_shutdown st = (case st of (m, tr) \<Rightarrow>
     (m\<lparr>rm_initialized := False, rm_cpu_fallback := False, rm_encode_tex := None,
        rm_shared_tex := None, rm_cpu_staging := None, rm_cpu_upload := None,
        rm_shared_handle := False\<rparr>,
      if rm_shared_handle m then tr @ [HandleClosed] else tr))"

text \<open>The answers of the two \<open>Map\<close> calls, each with the mapped memory and its row pitch.\<close>

record transfer_env =
  te_src_hr :: int
  te_src_pitch :: u32
  te_src_data :: "u8 list"
  te_dst_hr :: int
  te_dst_pitch :: u32
  te_dst_data :: "u8 list"

text \<open>The result is the texture for the encoder and, on the path over the CPU, the bytes left in
  the mapped memory of the upload texture.\<close>

definition transfer :: "transfer_env \<Rightarrow> bool \<Rightarrow> gpu_rm \<Rightarrow> tex option \<times> u8 list option" where
  "transfer env src m =
    (if \<not> rm_initialized m \<or> \<not> src then (None, None)
     else if rm_cpu_fallback m then
       (if te_src_hr env < 0 then (None, None)
        else let up = (if te_dst_hr env \<ge> 0
               then Some (copy_mapped_rows (te_dst_data env) (te_dst_pitch env)
                      (te_src_data env) (te_src_pitch env) (rm_h m)) else None)
          in (if te_dst_hr env = 0 then rm_cpu_upload m else None, up))
     else if rm_same_adapter m then (rm_encode_tex m, None)
     else (None, None))"

section \<open>Properties\<close>

text \<open>The row copy between two mapped textures is exact for any pair of pitches: if both
  mappings hold \<open>h\<close> rows, a byte of the destination changes exactly when its row is one of the
  \<open>h\<close> rows and its column is below both pitches, and then it is the byte of the same row and
  column of the source; nothing is written outside the destination.\<close>

theorem copy_mapped_rows_exact:
  assumes "unat h * unat dp \<le> length dst" "unat h * unat sp \<le> length src" "0 < dp"
  shows "length (copy_mapped_rows dst dp src sp h) = length dst \<and>
    (\<forall>i < length dst. copy_mapped_rows dst dp src sp h ! i =
      (if i div unat dp < unat h \<and> i mod unat dp < unat sp
       then src ! ((i div unat dp) * unat sp + i mod unat dp) else dst ! i))"
  using copy_rows_spec[of "unat h" "unat dp" dst "unat sp" src] assms
  by (simp add: copy_mapped_rows_def unat_gt_0)

lemma copy_mapped_rows_exact_witness:
  "copy_mapped_rows [9, 9, 9, 9, 9, 9] 3 [1, 2, 0, 0, 3, 4, 0, 0] 4 2 ! 4 = (4 :: u8)"
  using copy_mapped_rows_exact[of 2 3 "[9, 9, 9, 9, 9, 9]" 4 "[1, 2, 0, 0, 3, 4, 0, 0]"]
  by simp

lemma rm_init_result:
  assumes "rm_init env d e w h (gpu_rm_new, tr) = (True, m, tr')"
  shows "rm_initialized m" "rm_h m = h" "rm_display m = d"
    "rm_same_adapter m \<longleftrightarrow> gc_luid d = gc_luid e"
    "rm_same_adapter m \<Longrightarrow> rm_encode_tex m = Some (new_tex d w h) \<and> \<not> rm_cpu_fallback m"
    "\<not> rm_same_adapter m \<Longrightarrow> rm_cpu_fallback m \<Longrightarrow> rm_cpu_upload m = Some (new_tex e w h)"
    "\<not> rm_same_adapter m \<Longrightarrow> rm_cpu_fallback m \<longleftrightarrow>
       \<not> (re_shared_tex_ok env \<and> re_qi_resource_ok env \<and> re_shared_handle_ok env
          \<and> re_qi_device1_ok env \<and> re_open_ok env)"
  using assms
  by (auto simp: rm_init_def rm_choose_path_def create_same_adapter_staging_def gpu_rm_new_def
      create_cross_adapter_shared_def create_cpu_fallback_staging_def Let_def
      split: if_splits prod.splits bool.splits)

text \<open>What an initialised manager hands to the encoder: on one adapter always its own texture,
  on the display device; on two adapters whose driver refuses the shared texture, exactly when
  both mappings succeed, the upload texture on the encode device; and nothing at all where the
  driver accepts the shared texture, since that path is not synchronised (it fails closed).\<close>

theorem transfer_after_init:
  assumes "rm_init renv d e w h (gpu_rm_new, tr) = (True, m, tr')"
  shows "fst (transfer env True m) =
    (if gc_luid d = gc_luid e then Some (new_tex d w h)
     else if re_shared_tex_ok renv \<and> re_qi_resource_ok renv \<and> re_shared_handle_ok renv
          \<and> re_qi_device1_ok renv \<and> re_open_ok renv then None
     else if te_src_hr env \<ge> 0 \<and> te_dst_hr env = 0 then Some (new_tex e w h) else None)"
  using rm_init_result[OF assms] by (auto simp: transfer_def Let_def)

definition demo_rm_env :: rm_env where
  "demo_rm_env = \<lparr>re_same_tex_ok = True, re_shared_tex_ok = True, re_qi_resource_ok = True,
     re_shared_handle_ok = True, re_qi_device1_ok = True, re_open_ok = False,
     re_cpu_display_ok = True, re_cpu_encode_ok = True\<rparr>"

definition demo_transfer_env :: transfer_env where
  "demo_transfer_env = \<lparr>te_src_hr = 0, te_src_pitch = 4, te_src_data = [1, 2, 3, 4, 5, 6, 7, 8],
     te_dst_hr = 0, te_dst_pitch = 5, te_dst_data = [0, 0, 0, 0, 0, 0, 0, 0, 0, 0]\<rparr>"

lemma transfer_after_init_witness:
  "fst (transfer demo_transfer_env True
     (fst (snd (rm_init demo_rm_env \<lparr>gc_device = 1, gc_luid = 10\<rparr> \<lparr>gc_device = 2, gc_luid = 20\<rparr> 1 2
        (gpu_rm_new, []))))) = Some \<lparr>tx_device = 2, tx_w = 1, tx_h = 2\<rparr>"
proof -
  obtain m tr' where i: "rm_init demo_rm_env \<lparr>gc_device = 1, gc_luid = 10\<rparr> \<lparr>gc_device = 2, gc_luid = 20\<rparr>
      1 2 (gpu_rm_new, []) = (True, m, tr')"
    by (simp add: rm_init_def rm_choose_path_def create_cross_adapter_shared_def
        create_cpu_fallback_staging_def demo_rm_env_def gpu_rm_new_def Let_def)
  show ?thesis
    using transfer_after_init[OF i, of demo_transfer_env] i
    by (simp add: demo_transfer_env_def demo_rm_env_def new_tex_def)
qed

lemma rm_no_handle_leak:
  assumes "rm_init env d e w h (gpu_rm_new, tr) = (r, m, tr')"
  shows "live_by handle_res (snd (rm_shutdown (m, tr'))) = live_by handle_res tr"
  using assms
  by (auto simp: rm_init_def rm_choose_path_def create_same_adapter_staging_def gpu_rm_new_def
      create_cross_adapter_shared_def create_cpu_fallback_staging_def rm_shutdown_def Let_def
      live_by_append split: if_splits prod.splits bool.splits)

end
