(* ===== verification/DxgiCapture.thy ===== *)
theory DxgiCapture
  imports GpuTransfer
begin

text \<open>
  \<open>src/src/pipeline/capture/capture_dxgi.cpp\<close>: desktop duplication. The session wraps the
  duplication object of one output, the pipeline owns the two GPU contexts, the session, the
  resource manager and the textures of the preview. Answers of DXGI and D3D11 are inputs.
  Frames taken from and given back to the duplication object are traced; a call through a null
  duplication pointer, which the code does not exclude, is the outcome \<open>NullDeref\<close>.
\<close>

section \<open>The capture session\<close>

datatype dxgi_call = FrameAcquired | FrameReleased | DuplicationCreated
  | MutexAcquired | MutexHandedOver | CopiedShared | CopiedStaging

fun frame_res :: "dxgi_call \<Rightarrow> unit res option" where
  "frame_res FrameAcquired = Some (Acq ())"
| "frame_res FrameReleased = Some (Rel ())"
| "frame_res _ = None"

abbreviation frames_held :: "dxgi_call list \<Rightarrow> unit multiset" where
  "frames_held tr \<equiv> live_by frame_res tr"

record session =
  se_dupl :: bool
  se_frame_tex :: bool
  se_fmt :: u32
  se_w :: u32
  se_h :: u32
  se_held :: bool
  se_needs_reinit :: bool
  se_initialized :: bool

definition session_new :: session where
  "session_new = \<lparr>se_dupl = False, se_frame_tex = False, se_fmt = 0, se_w = 0, se_h = 0,
     se_held = False, se_needs_reinit = False, se_initialized = False\<rparr>"

text \<open>\<open>de_dupl\<close>: the answers of the attempts to duplicate the output, at most three are made.\<close>

record dupl_env =
  de_enum_ok :: bool
  de_left :: u32
  de_top :: u32
  de_right :: u32
  de_bottom :: u32
  de_output1_ok :: bool
  de_dupl :: "int list"
  de_fmt :: u32

fun try_duplicate :: "nat \<Rightarrow> int list \<Rightarrow> bool" where
  "try_duplicate (Suc k) (hr # hrs) = (if hr \<ge> 0 then True else try_duplicate k hrs)"
| "try_duplicate _ _ = False"

definition create_duplication ::
  "dupl_env \<Rightarrow> session \<times> dxgi_call list \<Rightarrow> bool \<times> session \<times> dxgi_call list" where
  "create_duplication env st = (case st of (s, tr) \<Rightarrow>
     let s = s\<lparr>se_dupl := False, se_frame_tex := False, se_held := False, se_needs_reinit := False\<rparr> in
     if \<not> de_enum_ok env then (False, s, tr)
     else let s = s\<lparr>se_w := de_right env - de_left env, se_h := de_bottom env - de_top env\<rparr> in
       if \<not> de_output1_ok env then (False, s, tr)
       else if \<not> try_duplicate 3 (de_dupl env) then (False, s, tr)
       else (True, s\<lparr>se_dupl := True, se_fmt := de_fmt env\<rparr>, tr @ [DuplicationCreated]))"

definition session_init ::
  "dupl_env \<Rightarrow> session \<times> dxgi_call list \<Rightarrow> bool \<times> session \<times> dxgi_call list" where
  "session_init env st = (case create_duplication env st of
      (True, s, tr) \<Rightarrow> (True, s\<lparr>se_initialized := True\<rparr>, tr)
    | (False, s, tr) \<Rightarrow> (False, s, tr))"

text \<open>Giving back a held frame before the duplication object goes away.\<close>

definition release_held :: "session \<times> dxgi_call list \<Rightarrow> session \<times> dxgi_call list" where
  "release_held st = (case st of (s, tr) \<Rightarrow>
     if se_held s \<and> se_dupl s then (s\<lparr>se_held := False\<rparr>, tr @ [FrameReleased]) else (s, tr))"

definition session_reinit ::
  "dupl_env \<Rightarrow> session \<times> dxgi_call list \<Rightarrow> bool \<times> session \<times> dxgi_call list" where
  "session_reinit env st = (case release_held st of (s, tr) \<Rightarrow>
     create_duplication env (s\<lparr>se_frame_tex := False\<rparr>, tr))"

definition session_shutdown :: "session \<times> dxgi_call list \<Rightarrow> session \<times> dxgi_call list" where
  "session_shutdown st = (case release_held st of (s, tr) \<Rightarrow>
     (s\<lparr>se_frame_tex := False, se_dupl := False, se_initialized := False, se_needs_reinit := False\<rparr>, tr))"

datatype 'a outcome = Val 'a | NullDeref | Spinning

datatype acquire_answer =
    AcquireTimeout
  | AccessLost
  | DeviceRemoved
  | AcquireFailed
  | AcquireFrame u32 bool int

record capture_frame =
  cf_w :: u32
  cf_h :: u32
  cf_fmt :: u32
  cf_present_time :: int

text \<open>The first part of \<open>acquire\<close>: a frame that was not released before is released now.\<close>

definition acquire_guard :: "session \<times> dxgi_call list \<Rightarrow> session \<times> dxgi_call list" where
  "acquire_guard st = (case st of (s, tr) \<Rightarrow>
     if se_held s then (s\<lparr>se_held := False, se_frame_tex := False\<rparr>, tr @ [FrameReleased]) else (s, tr))"

definition acquire :: "acquire_answer \<Rightarrow> session \<times> dxgi_call list \<Rightarrow>
    capture_frame option outcome \<times> session \<times> dxgi_call list" where
  "acquire a st = (case st of (s, tr) \<Rightarrow>
     if \<not> se_initialized s \<or> se_needs_reinit s then (Val None, s, tr)
     else if \<not> se_dupl s then (NullDeref, s, tr)
     else (case acquire_guard (s, tr) of (s, tr) \<Rightarrow>
       (case a of
          AcquireTimeout \<Rightarrow> (Val None, s, tr)
        | AccessLost \<Rightarrow> (Val None, s\<lparr>se_needs_reinit := True\<rparr>, tr)
        | DeviceRemoved \<Rightarrow> (Val None, s\<lparr>se_needs_reinit := True\<rparr>, tr)
        | AcquireFailed \<Rightarrow> (Val None, s, tr)
        | AcquireFrame accumulated tex_ok present \<Rightarrow>
            let tr = tr @ [FrameAcquired] in
            if accumulated = 0 then (Val None, s\<lparr>se_held := False\<rparr>, tr @ [FrameReleased])
            else if \<not> tex_ok then (Val None, s\<lparr>se_held := False\<rparr>, tr @ [FrameReleased])
            else (Val (Some \<lparr>cf_w = se_w s, cf_h = se_h s, cf_fmt = se_fmt s, cf_present_time = present\<rparr>),
                  s\<lparr>se_frame_tex := True, se_held := True\<rparr>, tr))))"

definition release_frame :: "session \<times> dxgi_call list \<Rightarrow> session \<times> dxgi_call list" where
  "release_frame st = (case st of (s, tr) \<Rightarrow>
     if \<not> se_held s then (s, tr)
     else (s\<lparr>se_held := False, se_frame_tex := False\<rparr>, tr @ [FrameReleased]))"

section \<open>Adapters\<close>

record adapter =
  ad_id :: nat
  ad_luid :: u64
  ad_software :: bool
  ad_vendor :: u32
  ad_vram :: u64
  ad_outputs :: u32

text \<open>\<open>scan_gpus\<close> keeps the first eight hardware adapters (vendor and memory in MB).\<close>

definition scan_gpus :: "adapter list \<Rightarrow> (u32 \<times> u64) list" where
  "scan_gpus ads = map (\<lambda>a. (ad_vendor a, ad_vram a div (1024 * 1024)))
     (take 8 (filter (\<lambda>a. \<not> ad_software a) ads))"

fun find_display_adapter :: "u32 \<Rightarrow> adapter list \<Rightarrow> adapter option" where
  "find_display_adapter out [] = None"
| "find_display_adapter out (a # ads) =
    (if ad_software a then find_display_adapter out ads
     else if out < ad_outputs a then Some a
     else find_display_adapter out ads)"

fun find_nvidia :: "nat \<Rightarrow> adapter list \<Rightarrow> adapter option" where
  "find_nvidia disp [] = None"
| "find_nvidia disp (a # ads) =
    (if ad_software a then find_nvidia disp ads
     else if ad_id a = disp then find_nvidia disp ads
     else if ad_vendor a = 0x10DE then Some a
     else find_nvidia disp ads)"

definition find_encode_adapter :: "bool \<Rightarrow> adapter \<Rightarrow> adapter list \<Rightarrow> adapter" where
  "find_encode_adapter allow_cross display ads =
    (if \<not> allow_cross then display
     else (case find_nvidia (ad_id display) ads of Some a \<Rightarrow> a | None \<Rightarrow> display))"

section \<open>The capture pipeline\<close>

record dxgi_pipeline =
  dp_display :: "gpu_ctx option"
  dp_encode :: "gpu_ctx option"
  dp_capture :: "session option"
  dp_rm :: "gpu_rm option"
  dp_shared_tex :: "(u32 \<times> u32) option"
  dp_keyed_mutex :: bool
  dp_staging_tex :: "(u32 \<times> u32) option"
  dp_staging_dirty :: bool
  dp_mapped :: bool
  dp_copy_fence :: bool
  dp_preview_cb :: bool
  dp_scan :: "(u32 \<times> u64) list"
  dp_initialized :: bool
  dp_use_keyed_mutex :: bool

definition dxgi_pipeline_new :: dxgi_pipeline where
  "dxgi_pipeline_new = \<lparr>dp_display = None, dp_encode = None, dp_capture = None, dp_rm = None,
     dp_shared_tex = None, dp_keyed_mutex = False, dp_staging_tex = None, dp_staging_dirty = False,
     dp_mapped = False, dp_copy_fence = False, dp_preview_cb = False, dp_scan = [],
     dp_initialized = False, dp_use_keyed_mutex = False\<rparr>"

text \<open>\<open>px_display\<close> and \<open>px_encode\<close>: the D3D11 devices created for the two adapters, if they are.
  The enumeration is asked twice, once per search.\<close>

record dxgi_init_env =
  px_output :: u32
  px_allow_cross :: bool
  px_factory_ok :: bool
  px_adapters :: "adapter list"
  px_adapters2 :: "adapter list"
  px_display :: "nat option"
  px_encode :: "nat option"
  px_dupl :: dupl_env
  px_rm :: rm_env

text \<open>Members are set as the construction goes on, so a failure leaves those already set.\<close>

definition dxgi_init_resources :: "dxgi_init_env \<Rightarrow> gpu_ctx \<Rightarrow> gpu_ctx \<Rightarrow> dxgi_pipeline \<times> dxgi_call list \<times> handle_call list \<Rightarrow>
    bool \<times> dxgi_pipeline \<times> dxgi_call list \<times> handle_call list" where
  "dxgi_init_resources env dctx ectx st = (case st of (p, tr, htr) \<Rightarrow>
     (case session_init (px_dupl env) (session_new, tr) of
        (False, s, tr) \<Rightarrow> (False, p\<lparr>dp_capture := Some s\<rparr>, tr, htr)
      | (True, s, tr) \<Rightarrow>
        let p = p\<lparr>dp_capture := Some s\<rparr> in
        (case rm_init (px_rm env) dctx ectx (se_w s) (se_h s) (gpu_rm_new, htr) of
           (False, m, htr) \<Rightarrow> (False, p\<lparr>dp_rm := Some m\<rparr>, tr, htr)
         | (True, m, htr) \<Rightarrow> (True, p\<lparr>dp_rm := Some m, dp_initialized := True\<rparr>, tr, htr))))"

definition dxgi_init :: "dxgi_init_env \<Rightarrow> dxgi_pipeline \<times> dxgi_call list \<times> handle_call list \<Rightarrow>
    bool \<times> dxgi_pipeline \<times> dxgi_call list \<times> handle_call list" where
  "dxgi_init env st = (case st of (p, tr, htr) \<Rightarrow>
     if \<not> px_factory_ok env then (False, p, tr, htr)
     else let p = p\<lparr>dp_scan := scan_gpus (px_adapters env)\<rparr> in
       (case find_display_adapter (px_output env) (px_adapters env) of
          None \<Rightarrow> (False, p, tr, htr)
        | Some da \<Rightarrow>
          let ea = find_encode_adapter (px_allow_cross env) da (px_adapters2 env) in
          (case px_display env of
             None \<Rightarrow> (False, p, tr, htr)
           | Some dd \<Rightarrow>
             let dctx = \<lparr>gc_device = dd, gc_luid = ad_luid da\<rparr>; p = p\<lparr>dp_display := Some dctx\<rparr> in
             (case px_encode env of
                None \<Rightarrow> (False, p, tr, htr)
              | Some ed \<Rightarrow>
                let ectx = \<lparr>gc_device = ed, gc_luid = ad_luid ea\<rparr>; p = p\<lparr>dp_encode := Some ectx\<rparr> in
                dxgi_init_resources env dctx ectx (p, tr, htr)))))"

definition dxgi_shutdown :: "dxgi_pipeline \<times> dxgi_call list \<times> handle_call list \<Rightarrow>
    dxgi_pipeline \<times> dxgi_call list \<times> handle_call list" where
  "dxgi_shutdown st = (case st of (p, tr, htr) \<Rightarrow>
     (p\<lparr>dp_initialized := False, dp_rm := None, dp_capture := None, dp_encode := None, dp_display := None\<rparr>,
      (case dp_capture p of None \<Rightarrow> tr | Some s \<Rightarrow> snd (session_shutdown (s, tr))),
      (case dp_rm p of None \<Rightarrow> htr | Some m \<Rightarrow> snd (rm_shutdown (m, htr)))))"

subsection \<open>Textures of the preview\<close>

record preview_env =
  pe_shared_ok :: bool
  pe_keyed_mutex_ok :: bool
  pe_staging_ok :: bool
  pe_query_ok :: bool

definition init_preview_staging :: "preview_env \<Rightarrow> dxgi_pipeline \<Rightarrow> bool \<times> dxgi_pipeline" where
  "init_preview_staging env p =
    (if dp_shared_tex p \<noteq> None then (True, p)
     else if \<not> dp_initialized p then (False, p)
     else (case dp_capture p of
         None \<Rightarrow> (False, p)
       | Some s \<Rightarrow>
         if \<not> pe_shared_ok env then (False, p)
         else let p = p\<lparr>dp_shared_tex := Some (se_w s, se_h s), dp_keyed_mutex := pe_keyed_mutex_ok env\<rparr> in
           if \<not> pe_staging_ok env then (False, p\<lparr>dp_shared_tex := None\<rparr>)
           else (True, p\<lparr>dp_staging_tex := Some (se_w s, se_h s), dp_copy_fence := pe_query_ok env\<rparr>)))"

text \<open>\<open>preview_staging_\<close>, the legacy texture, is never created, so the second branch of
  \<open>ensure_preview_staging\<close> never runs.\<close>

definition ensure_preview_staging :: "preview_env \<Rightarrow> dxgi_pipeline \<Rightarrow> dxgi_pipeline" where
  "ensure_preview_staging env p =
    (if dp_preview_cb p then snd (init_preview_staging env p) else p)"

definition set_preview_requested :: "bool \<Rightarrow> dxgi_pipeline \<Rightarrow> dxgi_pipeline" where
  "set_preview_requested b p = p\<lparr>dp_preview_cb := b\<rparr>"

definition map_preview_frame :: "int \<Rightarrow> dxgi_pipeline \<Rightarrow> bool \<times> dxgi_pipeline" where
  "map_preview_frame hr p =
    (if dp_staging_tex p = None \<or> \<not> dp_staging_dirty p then (False, p)
     else if hr < 0 then (False, p)
     else (True, p\<lparr>dp_mapped := True, dp_staging_dirty := False\<rparr>))"

definition unmap_preview_frame :: "dxgi_pipeline \<Rightarrow> bool \<times> dxgi_pipeline" where
  "unmap_preview_frame p = (if \<not> dp_mapped p then (False, p) else (True, p\<lparr>dp_mapped := False\<rparr>))"


subsection \<open>One captured frame\<close>

text \<open>The bounded spin on the copy fence: each poll is the answer of \<open>GetData\<close>, whether the copy is
  done, and the milliseconds since the spin began. \<open>Some b\<close> tells whether the copy completed;
  \<open>None\<close>: the polls given are used up and it still spins.\<close>

definition kAmdCopyTimeoutMs :: nat where [model_defs]: "kAmdCopyTimeoutMs = 100"
definition kBusySpinIters :: nat where [model_defs]: "kBusySpinIters = 4096"

fun fence_wait :: "nat \<Rightarrow> (int \<times> bool \<times> nat) list \<Rightarrow> bool option" where
  "fence_wait iter [] = None"
| "fence_wait iter ((hr, done, elapsed) # polls) =
    (if hr = 0 \<and> done then Some True
     else if hr < 0 then Some False
     else if iter < kBusySpinIters then fence_wait (Suc iter) polls
     else if elapsed \<ge> kAmdCopyTimeoutMs then Some False
     else fence_wait (Suc iter) polls)"

record capture_env =
  cx_preview :: preview_env
  cx_reinit :: dupl_env
  cx_acquire :: acquire_answer
  cx_transfer :: transfer_env
  cx_acquire_sync :: int
  cx_release_sync :: int
  cx_fence :: "(int \<times> bool \<times> nat) list"

text \<open>The copy into the texture shared with Vulkan: \<open>Some True\<close> to go on, \<open>Some False\<close> to drop
  the frame, \<open>None\<close> while it spins.\<close>

definition copy_shared :: "capture_env \<Rightarrow> dxgi_pipeline \<Rightarrow> dxgi_call list \<Rightarrow> bool option \<times> dxgi_call list" where
  "copy_shared env p tr =
    (if dp_shared_tex p = None then (Some True, tr)
     else if dp_use_keyed_mutex p \<and> dp_keyed_mutex p then
       (if cx_acquire_sync env \<noteq> 0 then (Some False, tr)
        else if cx_release_sync env \<noteq> 0 then (Some False, tr @ [MutexAcquired, CopiedShared])
        else (Some True, tr @ [MutexAcquired, CopiedShared, MutexHandedOver]))
     else (if dp_copy_fence p then fence_wait 0 (cx_fence env) else Some True, tr @ [CopiedShared]))"

definition capture_frame_copies :: "capture_env \<Rightarrow> session \<Rightarrow> gpu_rm \<Rightarrow>
    dxgi_pipeline \<times> dxgi_call list \<Rightarrow> tex option outcome \<times> dxgi_pipeline \<times> dxgi_call list" where
  "capture_frame_copies env s m st = (case st of (p, tr) \<Rightarrow>
     let encode_tex = fst (transfer (cx_transfer env) True m) in
     (case copy_shared env p tr of
        (None, tr) \<Rightarrow> (Spinning, p\<lparr>dp_capture := Some s\<rparr>, tr)
      | (Some False, tr) \<Rightarrow>
          (case release_frame (s, tr) of (s, tr) \<Rightarrow> (Val None, p\<lparr>dp_capture := Some s\<rparr>, tr))
      | (Some True, tr) \<Rightarrow>
          let (p, tr) = (if dp_staging_tex p \<noteq> None
               then (p\<lparr>dp_staging_dirty := True\<rparr>, tr @ [CopiedStaging]) else (p, tr)) in
          (case release_frame (s, tr) of
             (s, tr) \<Rightarrow> (Val encode_tex, p\<lparr>dp_capture := Some s\<rparr>, tr))))"

definition capture_acquired :: "capture_env \<Rightarrow> session \<Rightarrow> gpu_rm \<Rightarrow>
    dxgi_pipeline \<times> dxgi_call list \<Rightarrow> tex option outcome \<times> dxgi_pipeline \<times> dxgi_call list" where
  "capture_acquired env s m st = (case st of (p, tr) \<Rightarrow>
     (case acquire (cx_acquire env) (s, tr) of
        (Val (Some frame), s, tr) \<Rightarrow> capture_frame_copies env s m (p, tr)
      | (Val None, s, tr) \<Rightarrow> (Val None, p\<lparr>dp_capture := Some s\<rparr>, tr)
      | (NullDeref, s, tr) \<Rightarrow> (NullDeref, p\<lparr>dp_capture := Some s\<rparr>, tr)
      | (Spinning, s, tr) \<Rightarrow> (Spinning, p\<lparr>dp_capture := Some s\<rparr>, tr)))"

definition capture_next :: "capture_env \<Rightarrow> dxgi_pipeline \<times> dxgi_call list \<Rightarrow>
    tex option outcome \<times> dxgi_pipeline \<times> dxgi_call list" where
  "capture_next env st = (case st of (p, tr) \<Rightarrow>
     let p = ensure_preview_staging (cx_preview env) p in
     if \<not> dp_initialized p then (Val None, p, tr)
     else (case (dp_capture p, dp_rm p) of
         (Some s, Some m) \<Rightarrow>
           if se_needs_reinit s then
             (case session_reinit (cx_reinit env) (s, tr) of
                (False, s, tr) \<Rightarrow> (Val None, p\<lparr>dp_capture := Some s\<rparr>, tr)
              | (True, s, tr) \<Rightarrow> capture_acquired env s m (p, tr))
           else capture_acquired env s m (p, tr)
       | _ \<Rightarrow> (NullDeref, p, tr)))"

section \<open>The spin ends\<close>

lemma fence_wait_ends:
  assumes "kBusySpinIters \<le> iter + i" "i < length polls" "snd (snd (polls ! i)) \<ge> kAmdCopyTimeoutMs"
  shows "fence_wait iter polls \<noteq> None"
  using assms
proof (induction polls arbitrary: iter i)
  case (Cons x polls)
  obtain hr dn el where x: "x = (hr, dn, el)" by (metis prod_cases3)
  show ?case
  proof (cases i)
    case 0
    with Cons.prems x show ?thesis by auto
  next
    case (Suc j)
    have "fence_wait (Suc iter) polls \<noteq> None"
      using Cons.IH[of "Suc iter" j] Cons.prems Suc by simp
    then show ?thesis using x by auto
  qed
qed simp

section \<open>Frames are given back\<close>

definition session_ok :: "session \<times> dxgi_call list \<Rightarrow> bool" where
  "session_ok st = (case st of (s, tr) \<Rightarrow> frames_held tr = (if se_held s then {#()#} else {#})
     \<and> (se_held s \<longrightarrow> se_dupl s))"

definition idle :: "session \<times> dxgi_call list \<Rightarrow> bool" where
  "idle st = (case st of (s, tr) \<Rightarrow> frames_held tr = {#} \<and> \<not> se_held s)"

lemma idle_session_ok: "idle st \<Longrightarrow> session_ok st"
  by (auto simp: idle_def session_ok_def)

lemma create_duplication_idle:
  "frames_held tr = {#} \<Longrightarrow> idle (snd (create_duplication env (s, tr)))"
  by (auto simp: create_duplication_def idle_def Let_def)

lemma session_init_idle: "frames_held tr = {#} \<Longrightarrow> idle (snd (session_init env (s, tr)))"
  using create_duplication_idle[of tr env s]
  by (auto simp: session_init_def idle_def split: prod.splits bool.splits)

lemma session_reinit_idle: "session_ok (s, tr) \<Longrightarrow> idle (snd (session_reinit env (s, tr)))"
  by (auto simp: session_reinit_def release_held_def session_ok_def intro!: create_duplication_idle)

lemma session_shutdown_idle: "session_ok (s, tr) \<Longrightarrow> frames_held (snd (session_shutdown (s, tr))) = {#}"
  by (auto simp: session_shutdown_def release_held_def session_ok_def)

lemma release_frame_idle: "session_ok (s, tr) \<Longrightarrow> idle (release_frame (s, tr))"
  by (auto simp: release_frame_def session_ok_def idle_def)

lemma acquire_ok:
  assumes "idle (s, tr)"
  shows "session_ok (snd (acquire a (s, tr)))"
    and "idle (snd (acquire a (s, tr))) \<or> (\<exists>f. fst (acquire a (s, tr)) = Val (Some f))"
    and "fst (acquire a (s, tr)) \<noteq> Spinning"
  using assms
  by (auto simp: acquire_def acquire_guard_def idle_def session_ok_def Let_def live_by_append
      split: acquire_answer.splits if_splits)

lemma copy_shared_frames: "frames_held (snd (copy_shared env p tr)) = frames_held tr"
  by (auto simp: copy_shared_def live_by_append)

definition pipeline_idle :: "dxgi_pipeline \<times> dxgi_call list \<Rightarrow> bool" where
  "pipeline_idle st = (case st of (p, tr) \<Rightarrow>
     (case dp_capture p of None \<Rightarrow> frames_held tr = {#} | Some s \<Rightarrow> idle (s, tr)))"

lemma capture_frame_copies_idle:
  assumes "session_ok (s, tr)" "fst (capture_frame_copies env s m (p, tr)) \<noteq> Spinning"
  shows "pipeline_idle (snd (capture_frame_copies env s m (p, tr)))"
proof -
  obtain r tr1 where c: "copy_shared env p tr = (r, tr1)" by fastforce
  have fh: "frames_held tr1 = frames_held tr" using copy_shared_frames[of env p tr] c by simp
  then have ok: "session_ok (s, tr1)" "session_ok (s, tr1 @ [CopiedStaging])"
    using assms(1) by (auto simp: session_ok_def)
  obtain s2 tr2 where r: "release_frame (s, tr1) = (s2, tr2)" by fastforce
  obtain s3 tr3 where r': "release_frame (s, tr1 @ [CopiedStaging]) = (s3, tr3)" by fastforce
  have "idle (s2, tr2)" "idle (s3, tr3)"
    using release_frame_idle[OF ok(1)] release_frame_idle[OF ok(2)] r r' by simp_all
  with assms(2) c r r' show ?thesis
    by (auto simp: capture_frame_copies_def pipeline_idle_def Let_def split: option.splits bool.splits)
qed

lemma capture_acquired_idle:
  assumes "idle (s, tr)" "fst (capture_acquired env s m (p, tr)) \<noteq> Spinning"
  shows "pipeline_idle (snd (capture_acquired env s m (p, tr)))"
proof -
  obtain r s1 tr1 where a: "acquire (cx_acquire env) (s, tr) = (r, s1, tr1)" by (metis prod_cases3)
  note ok = acquire_ok[OF assms(1), of "cx_acquire env", unfolded a fst_conv snd_conv]
  show ?thesis
  proof (cases "\<exists>f. r = Val (Some f)")
    case True
    then have "capture_acquired env s m (p, tr) = capture_frame_copies env s1 m (p, tr1)"
      using a by (auto simp: capture_acquired_def)
    with capture_frame_copies_idle[OF ok(1)] assms(2) show ?thesis by simp
  next
    case False
    with ok a show ?thesis
      by (auto simp: capture_acquired_def pipeline_idle_def split: outcome.splits option.splits)
  qed
qed

lemma ensure_preview_keeps [simp]:
  "dp_capture (ensure_preview_staging e p) = dp_capture p"
  "dp_rm (ensure_preview_staging e p) = dp_rm p"
  "dp_initialized (ensure_preview_staging e p) = dp_initialized p"
  by (auto simp: ensure_preview_staging_def init_preview_staging_def Let_def split: option.splits)

lemma capture_next_idle:
  assumes "pipeline_idle (p, tr)" "fst (capture_next env (p, tr)) \<noteq> Spinning"
  shows "pipeline_idle (snd (capture_next env (p, tr)))"
proof (cases "dp_initialized p \<and> dp_capture p \<noteq> None \<and> dp_rm p \<noteq> None")
  case False
  with assms(1) show ?thesis
    by (auto simp: capture_next_def pipeline_idle_def Let_def split: option.splits)
next
  case True
  then obtain s m where sm: "dp_capture p = Some s" "dp_rm p = Some m" by auto
  let ?p = "ensure_preview_staging (cx_preview env) p"
  have id: "idle (s, tr)" using assms(1) sm by (simp add: pipeline_idle_def)
  show ?thesis
  proof (cases "se_needs_reinit s")
    case False
    then have "capture_next env (p, tr) = capture_acquired env s m (?p, tr)"
      using True sm by (simp add: capture_next_def Let_def)
    with capture_acquired_idle[OF id] assms(2) show ?thesis by simp
  next
    case re: True
    obtain ok s1 tr1 where r: "session_reinit (cx_reinit env) (s, tr) = (ok, s1, tr1)"
      by (metis prod_cases3)
    have id1: "idle (s1, tr1)"
      using session_reinit_idle[OF idle_session_ok[OF id], of "cx_reinit env"] r by simp
    show ?thesis
    proof (cases ok)
      case False
      with True sm re r id1 show ?thesis by (simp add: capture_next_def Let_def pipeline_idle_def)
    next
      case ok: True
      then have "capture_next env (p, tr) = capture_acquired env s1 m (?p, tr1)"
        using True sm re r by (simp add: capture_next_def Let_def)
      with capture_acquired_idle[OF id1] assms(2) show ?thesis by simp
    qed
  qed
qed


section \<open>Properties\<close>

text \<open>The frame loop: captures follow each other until one does not return.\<close>

fun capture_run :: "capture_env list \<Rightarrow> dxgi_pipeline \<times> dxgi_call list \<Rightarrow>
    (dxgi_pipeline \<times> dxgi_call list) outcome" where
  "capture_run [] st = Val st"
| "capture_run (env # envs) st = (case capture_next env st of
      (Val t, st') \<Rightarrow> capture_run envs st'
    | (NullDeref, st') \<Rightarrow> NullDeref
    | (Spinning, st') \<Rightarrow> Spinning)"

lemma capture_run_Cons:
  "capture_run (env # envs) st = Val st' \<longleftrightarrow>
    (\<exists>t st1. capture_next env st = (Val t, st1) \<and> capture_run envs st1 = Val st')"
  by (cases "capture_next env st"; cases "fst (capture_next env st)") auto

lemma capture_run_idle: "pipeline_idle st \<Longrightarrow> capture_run envs st = Val st' \<Longrightarrow> pipeline_idle st'"
proof (induction envs arbitrary: st)
  case (Cons env envs)
  from Cons.prems(2) obtain t st1 where s: "capture_next env st = (Val t, st1)" "capture_run envs st1 = Val st'"
    unfolding capture_run_Cons by iprover
  have "pipeline_idle st1"
    using capture_next_idle[of "fst st" "snd st" env] Cons.prems(1) s(1) by simp
  from Cons.IH[OF this s(2)] show ?case .
qed simp

lemma dxgi_init_idle:
  assumes "dxgi_init env (dxgi_pipeline_new, [], htr) = (r, p, tr, htr')"
  shows "pipeline_idle (p, tr)"
proof -
  have s: "idle (snd (session_init (px_dupl env) (session_new, [])))"
    using session_init_idle[of "[]"] by simp
  have "pipeline_idle (p', tr')" if "dxgi_init_resources env d e (q, [], h) = (b, p', tr', h')"
    for d e q h b p' tr' h'
    using that s
    by (auto simp: dxgi_init_resources_def pipeline_idle_def Let_def split: prod.splits bool.splits)
  note res = this
  have nil: "dp_capture q = None \<Longrightarrow> pipeline_idle (q, [])" for q
    by (simp add: pipeline_idle_def)
  show ?thesis
    using assms
    by (auto simp: dxgi_init_def Let_def dxgi_pipeline_new_def intro!: nil dest!: res
        split: if_splits option.splits)
qed

text \<open>C30: Every frame taken from the duplication object is given back: after an initialisation with
  any outcome, and after each of any number of captures that returned - whichever of the timeouts,
  lost sessions, failed copies, refused keyed mutexes or spent fences each of them met - no frame
  is outstanding, nor after \<open>shutdown\<close>.\<close>

theorem dxgi_frames_returned:
  assumes "dxgi_init env (dxgi_pipeline_new, [], []) = (r, p, tr, htr)"
    and "capture_run envs (p, tr) = Val (p', tr')"
  shows "frames_held tr' = {#}
    \<and> frames_held (fst (snd (dxgi_shutdown (p', tr', htr)))) = {#}"
proof -
  have "pipeline_idle (p', tr')" using capture_run_idle[OF dxgi_init_idle[OF assms(1)] assms(2)] .
  then show ?thesis
    using session_shutdown_idle idle_session_ok
    by (auto simp: pipeline_idle_def dxgi_shutdown_def idle_def split: option.splits)
qed

definition demo_dupl_env :: dupl_env where
  "demo_dupl_env = \<lparr>de_enum_ok = True, de_left = 0, de_top = 0, de_right = 1920, de_bottom = 1080,
     de_output1_ok = True, de_dupl = [-1, 0], de_fmt = 87\<rparr>"

definition demo_dxgi_env :: dxgi_init_env where
  "demo_dxgi_env = \<lparr>px_output = 0, px_allow_cross = True, px_factory_ok = True,
     px_adapters = [\<lparr>ad_id = 1, ad_luid = 10, ad_software = False, ad_vendor = 0x1002, ad_vram = 0, ad_outputs = 1\<rparr>],
     px_adapters2 = [], px_display = Some 1, px_encode = Some 2, px_dupl = demo_dupl_env,
     px_rm = demo_rm_env\<rparr>"

definition demo_capture_env :: capture_env where
  "demo_capture_env = \<lparr>cx_preview = \<lparr>pe_shared_ok = True, pe_keyed_mutex_ok = True, pe_staging_ok = True, pe_query_ok = True\<rparr>,
     cx_reinit = demo_dupl_env, cx_acquire = AcquireFrame 1 True 7, cx_transfer = demo_transfer_env,
     cx_acquire_sync = 0, cx_release_sync = 0, cx_fence = [(0, True, 0)]\<rparr>"

definition demo_session :: session where
  "demo_session = \<lparr>se_dupl = True, se_frame_tex = False, se_fmt = 87, se_w = 1920, se_h = 1080,
     se_held = False, se_needs_reinit = False, se_initialized = True\<rparr>"

lemma demo_session_init: "session_init demo_dupl_env (session_new, []) = (True, demo_session, [DuplicationCreated])"
  by (simp add: session_init_def create_duplication_def demo_dupl_env_def session_new_def
      demo_session_def numeral_3_eq_3)

definition demo_pipeline :: dxgi_pipeline where
  "demo_pipeline = dxgi_pipeline_new\<lparr>dp_scan := [(0x1002, 0)],
     dp_display := Some \<lparr>gc_device = 1, gc_luid = 10\<rparr>, dp_encode := Some \<lparr>gc_device = 2, gc_luid = 10\<rparr>,
     dp_capture := Some demo_session,
     dp_rm := Some (gpu_rm_new\<lparr>rm_display := \<lparr>gc_device = 1, gc_luid = 10\<rparr>, rm_same_adapter := True,
        rm_encode := \<lparr>gc_device = 1, gc_luid = 10\<rparr>, rm_w := 1920, rm_h := 1080,
        rm_encode_tex := Some \<lparr>tx_device = 1, tx_w = 1920, tx_h = 1080\<rparr>, rm_initialized := True\<rparr>),
     dp_initialized := True\<rparr>"

lemma demo_dxgi_init: "dxgi_init demo_dxgi_env (dxgi_pipeline_new, [], []) =
    (True, demo_pipeline, [DuplicationCreated], [])"
  by (simp add: dxgi_init_def demo_dxgi_env_def scan_gpus_def find_encode_adapter_def
      dxgi_init_resources_def demo_session_init rm_init_def rm_choose_path_def new_tex_def
      create_same_adapter_staging_def demo_rm_env_def demo_pipeline_def dxgi_pipeline_new_def
      demo_session_def gpu_rm_new_def Let_def)

lemma dxgi_frames_returned_witness:
  "\<exists>st. capture_run [demo_capture_env, demo_capture_env\<lparr>cx_acquire := AccessLost\<rparr>, demo_capture_env]
      (demo_pipeline, [DuplicationCreated]) = Val st \<and> frames_held (snd st) = {#}"
proof -
  have "\<exists>p' tr'. capture_run [demo_capture_env, demo_capture_env\<lparr>cx_acquire := AccessLost\<rparr>, demo_capture_env]
      (demo_pipeline, [DuplicationCreated]) = Val (p', tr')"
    by (simp add: capture_next_def ensure_preview_staging_def demo_pipeline_def dxgi_pipeline_new_def
        capture_acquired_def acquire_def acquire_guard_def demo_session_def demo_capture_env_def
        capture_frame_copies_def copy_shared_def release_frame_def transfer_def session_reinit_def
        release_held_def create_duplication_def demo_dupl_env_def numeral_3_eq_3 gpu_rm_new_def Let_def)
  then obtain p' tr' where run: "capture_run [demo_capture_env, demo_capture_env\<lparr>cx_acquire := AccessLost\<rparr>,
      demo_capture_env] (demo_pipeline, [DuplicationCreated]) = Val (p', tr')" by blast
  then show ?thesis using dxgi_frames_returned[OF demo_dxgi_init run] by auto
qed

text \<open>C37: The frame thread is never frozen by a hanging GPU: a capture always returns once the clock
  has passed 100 ms after the 4096 busy polls of the copy fence, whatever the GPU answers.\<close>

theorem capture_spin_bounded:
  assumes "kBusySpinIters \<le> i" "i < length (cx_fence env)"
    "snd (snd (cx_fence env ! i)) \<ge> kAmdCopyTimeoutMs"
  shows "fst (capture_next env st) \<noteq> Spinning"
proof -
  have f: "fence_wait 0 (cx_fence env) \<noteq> None" using fence_wait_ends[of 0 i] assms by simp
  have c: "fst (copy_shared env p tr) \<noteq> None" for p tr using f by (auto simp: copy_shared_def)
  have cf: "fst (capture_frame_copies env s m (p, tr)) \<noteq> Spinning" for s m p tr
    using c[of p tr]
    by (auto simp: capture_frame_copies_def Let_def split: prod.splits option.splits bool.splits)
  have a: "fst (acquire (cx_acquire env) (s, tr)) \<noteq> Spinning" for s tr
    by (auto simp: acquire_def acquire_guard_def Let_def split: acquire_answer.splits)
  have ca: "fst (capture_acquired env s m (p, tr)) \<noteq> Spinning" for s m p tr
    using a[of s tr] cf
    by (auto simp: capture_acquired_def split: prod.splits outcome.splits option.splits)
  show ?thesis
    using ca by (cases st) (auto simp: capture_next_def Let_def split: option.splits prod.splits bool.splits)
qed

lemma capture_spin_bounded_witness:
  "fst (capture_next (demo_capture_env\<lparr>cx_fence := replicate 4096 (1, False, 0) @ [(1, False, 100)]\<rparr>)
     (demo_pipeline, [])) \<noteq> Spinning"
  by (rule capture_spin_bounded[of 4096])
    (simp_all add: model_defs demo_capture_env_def nth_append)

text \<open>Recovery from a lost session is attempted only once: if the attempt fails, the
  session no longer asks for one, and the next capture calls through the null duplication
  pointer, whatever the state of the desktop then.\<close>

theorem failed_reinit_then_null_deref:
  assumes "dp_initialized p" "dp_capture p = Some s" "dp_rm p = Some m"
    and "se_initialized s" "se_needs_reinit s"
    and "\<not> de_enum_ok (cx_reinit env) \<or> \<not> de_output1_ok (cx_reinit env)
      \<or> \<not> try_duplicate 3 (de_dupl (cx_reinit env))"
  shows "fst (capture_next env (p, tr)) = Val None
    \<and> fst (capture_next env' (snd (capture_next env (p, tr)))) = NullDeref"
proof -
  let ?p = "ensure_preview_staging (cx_preview env) p"
  let ?r = "session_reinit (cx_reinit env) (s, tr)"
  have "\<not> fst ?r \<and> se_initialized (fst (snd ?r)) \<and> \<not> se_needs_reinit (fst (snd ?r)) \<and> \<not> se_dupl (fst (snd ?r))"
    using assms(4,6)
    by (cases "se_held s \<and> se_dupl s")
      (auto simp: session_reinit_def release_held_def create_duplication_def Let_def)
  then obtain s1 tr1 where r: "?r = (False, s1, tr1)"
    and s1: "se_initialized s1" "\<not> se_needs_reinit s1" "\<not> se_dupl s1"
    by (cases ?r) auto
  have n: "capture_next env (p, tr) = (Val None, ?p\<lparr>dp_capture := Some s1\<rparr>, tr1)"
    using assms(1-3,5) r by (simp add: capture_next_def Let_def)
  have "fst (capture_next env' (?p\<lparr>dp_capture := Some s1\<rparr>, tr1)) = NullDeref"
    using assms(1,3) s1 by (simp add: capture_next_def capture_acquired_def acquire_def Let_def)
  with n show ?thesis by simp
qed

lemma failed_reinit_then_null_deref_witness:
  "fst (capture_next demo_capture_env (snd (capture_next
      (demo_capture_env\<lparr>cx_reinit := demo_dupl_env\<lparr>de_dupl := [-1, -1, -1, 0]\<rparr>\<rparr>)
      (demo_pipeline\<lparr>dp_capture := Some (demo_session\<lparr>se_needs_reinit := True\<rparr>)\<rparr>, [])))) = NullDeref"
  by (rule failed_reinit_then_null_deref[of _ "demo_session\<lparr>se_needs_reinit := True\<rparr>"
      "the (dp_rm demo_pipeline)", THEN conjunct2])
    (simp_all add: demo_pipeline_def demo_session_def demo_dupl_env_def numeral_3_eq_3)

end
