(* ===== verification/DesktopSource.thy ===== *)
theory DesktopSource
  imports DxgiCapture Policies
begin

text \<open>
  \<open>src/src/pipeline/existing_desktop_source.cpp\<close> with the two captures behind it,
  \<open>capture/capture_wgc.cpp\<close> (Windows.Graphics.Capture) and \<open>capture/capture_dxgi_screen.h\<close>
  (duplication), and the factory that chooses between them, \<open>screen_capture_factory.cpp\<close>.
  The source contract (\<open>i_source.h\<close>) is a locale, interpreted on the desktop source.
  \<open>addr\<close> gives the address of a texture object, which is never null.
\<close>

section \<open>Windows.Graphics.Capture\<close>

record wgc =
  wg_device :: "nat option"
  wg_pool :: bool
  wg_session :: bool
  wg_last_frame :: bool
  wg_last_tex :: "tex option"
  wg_w :: u32
  wg_h :: u32

definition wgc_new :: wgc where
  "wgc_new = \<lparr>wg_device = None, wg_pool = False, wg_session = False, wg_last_frame = False,
     wg_last_tex = None, wg_w = 0, wg_h = 0\<rparr>"

text \<open>An output: attached to the desktop, and its rectangle.\<close>

record monitor_output =
  ou_attached :: bool
  ou_left :: u32
  ou_top :: u32
  ou_right :: u32
  ou_bottom :: u32

text \<open>\<open>we_outputs\<close>: the outputs of each adapter. \<open>we_device\<close>: the device created on the adapter
  with this index, if it is.\<close>

record wgc_env =
  we_factory_ok :: bool
  we_vendors :: "u32 list"
  we_device :: "nat \<Rightarrow> nat option"
  we_outputs :: "monitor_output list list"
  we_item_ok :: bool

fun first_nvidia :: "nat \<Rightarrow> u32 list \<Rightarrow> nat option" where
  "first_nvidia i [] = None"
| "first_nvidia i (v # vs) = (if v = 0x10DE then Some i else first_nvidia (Suc i) vs)"

fun find_in_adapter :: "u32 \<Rightarrow> u32 \<Rightarrow> monitor_output list \<Rightarrow> monitor_output option \<times> u32" where
  "find_in_adapter idx g [] = (None, g)"
| "find_in_adapter idx g (o1 # os) =
    (if \<not> ou_attached o1 then find_in_adapter idx g os
     else if g = idx then (Some o1, g)
     else find_in_adapter idx (g + 1) os)"

fun find_output :: "u32 \<Rightarrow> u32 \<Rightarrow> monitor_output list list \<Rightarrow> monitor_output option" where
  "find_output idx g [] = None"
| "find_output idx g (a # as) =
    (case find_in_adapter idx g a of (Some o1, g') \<Rightarrow> Some o1 | (None, g') \<Rightarrow> find_output idx g' as)"

definition wgc_init_capture :: "wgc_env \<Rightarrow> wgc \<Rightarrow> bool \<times> wgc" where
  "wgc_init_capture env s =
    (if \<not> we_item_ok env then (False, s) else (True, s\<lparr>wg_pool := True, wg_session := True\<rparr>))"

definition wgc_init :: "u32 \<Rightarrow> wgc_env \<Rightarrow> wgc \<Rightarrow> bool \<times> wgc" where
  "wgc_init output_index env s =
    (if \<not> we_factory_ok env then (False, s)
     else let i = (case first_nvidia 0 (we_vendors env) of Some i \<Rightarrow> i | None \<Rightarrow> 0) in
       (case we_device env i of
          None \<Rightarrow> (False, s)
        | Some d \<Rightarrow>
          let s = s\<lparr>wg_device := Some d\<rparr> in
          (case find_output output_index 0 (we_outputs env) of
             None \<Rightarrow> (False, s)
           | Some o1 \<Rightarrow> wgc_init_capture env
               (s\<lparr>wg_w := ou_right o1 - ou_left o1, wg_h := ou_bottom o1 - ou_top o1\<rparr>))))"

text \<open>The next frame of the pool: the interop answers and the system time in 100 ns ticks.\<close>

datatype wgc_answer = NoFrame | PoolFrame bool "(u32 \<times> u32) option" int

definition null_captured :: captured_frame where
  "null_captured = \<lparr>cf_type = D3D11, cf_handle = 0, cf_width = 0, cf_height = 0, cf_timestamp_us = 0\<rparr>"

definition wgc_next_frame :: "(tex \<Rightarrow> handle) \<Rightarrow> wgc_answer \<Rightarrow> wgc \<Rightarrow> captured_frame outcome \<times> wgc" where
  "wgc_next_frame addr a s =
    (let s = s\<lparr>wg_last_tex := None, wg_last_frame := False\<rparr> in
     if \<not> wg_pool s then (NullDeref, s)
     else (case a of
         NoFrame \<Rightarrow> (Val null_captured, s)
       | PoolFrame access_ok tex ticks \<Rightarrow>
           (case (access_ok, tex) of
              (True, Some (w, h)) \<Rightarrow>
                let t = \<lparr>tx_device = the (wg_device s), tx_w = w, tx_h = h\<rparr> in
                (Val \<lparr>cf_type = D3D11, cf_handle = addr t, cf_width = wg_w s, cf_height = wg_h s,
                   cf_timestamp_us = word_of_int (ticks div 10)\<rparr>,
                 s\<lparr>wg_last_frame := True, wg_last_tex := Some t\<rparr>)
            | _ \<Rightarrow> (Val null_captured, s))))"

definition wgc_shutdown :: "wgc \<Rightarrow> wgc" where
  "wgc_shutdown s = s\<lparr>wg_last_tex := None, wg_last_frame := False, wg_session := False,
     wg_pool := False, wg_device := None\<rparr>"

section \<open>The capture behind the source\<close>

datatype screen_capture = Wgc wgc | Dxgi "dxgi_pipeline option"

text \<open>\<open>IScreenCapture::create\<close>: Windows.Graphics.Capture where the system has it.\<close>

definition create_capture :: "bool \<Rightarrow> screen_capture" where
  "create_capture wgc_supported = (if wgc_supported then Wgc wgc_new else Dxgi None)"

type_synonym capture_state = "screen_capture \<times> dxgi_call list \<times> handle_call list"

text \<open>\<open>DxgiScreenCapture::init\<close> drops the pipeline again when its initialisation fails, whose
  destructor shuts it down.\<close>

definition capture_init :: "u32 \<Rightarrow> wgc_env \<Rightarrow> dxgi_init_env \<Rightarrow> capture_state \<Rightarrow> bool \<times> capture_state" where
  "capture_init idx wenv denv st = (case st of
      (Wgc s, trs) \<Rightarrow> (case wgc_init idx wenv s of (ok, s) \<Rightarrow> (ok, Wgc s, trs))
    | (Dxgi _, tr, htr) \<Rightarrow>
        (case dxgi_init denv (dxgi_pipeline_new, tr, htr) of
           (True, p, tr, htr) \<Rightarrow> (True, Dxgi (Some p), tr, htr)
         | (False, st') \<Rightarrow> (case dxgi_shutdown st' of (p, tr, htr) \<Rightarrow> (False, Dxgi None, tr, htr))))"

definition capture_w :: "screen_capture \<Rightarrow> u32" where
  "capture_w c = (case c of Wgc s \<Rightarrow> wg_w s
    | Dxgi None \<Rightarrow> 0 | Dxgi (Some p) \<Rightarrow> (case dp_capture p of None \<Rightarrow> 0 | Some s \<Rightarrow> se_w s))"

definition capture_h :: "screen_capture \<Rightarrow> u32" where
  "capture_h c = (case c of Wgc s \<Rightarrow> wg_h s
    | Dxgi None \<Rightarrow> 0 | Dxgi (Some p) \<Rightarrow> (case dp_capture p of None \<Rightarrow> 0 | Some s \<Rightarrow> se_h s))"

text \<open>The virtual \<open>d3d_device\<close>; the duplication capture does not override the null default.\<close>

definition capture_device :: "screen_capture \<Rightarrow> nat option" where
  "capture_device c = (case c of Wgc s \<Rightarrow> wg_device s | Dxgi _ \<Rightarrow> None)"

text \<open>One frame, with the texture the handle points to.\<close>

definition capture_frame_of :: "(tex \<Rightarrow> handle) \<Rightarrow> wgc_answer \<Rightarrow> capture_env \<Rightarrow> capture_state \<Rightarrow>
    (captured_frame \<times> tex option) outcome \<times> capture_state" where
  "capture_frame_of addr a env st = (case st of
      (Wgc s, trs) \<Rightarrow> (case wgc_next_frame addr a s of
          (Val f, s) \<Rightarrow> (Val (f, wg_last_tex s), Wgc s, trs)
        | (_, s) \<Rightarrow> (NullDeref, Wgc s, trs))
    | (Dxgi None, trs) \<Rightarrow> (Val (null_captured, None), Dxgi None, trs)
    | (Dxgi (Some p), tr, htr) \<Rightarrow> (case capture_next env (p, tr) of
          (Val t, p, tr) \<Rightarrow>
            (Val (\<lparr>cf_type = D3D11, cf_handle = (case t of None \<Rightarrow> 0 | Some t \<Rightarrow> addr t),
                   cf_width = capture_w (Dxgi (Some p)), cf_height = capture_h (Dxgi (Some p)),
                   cf_timestamp_us = 0\<rparr>, t), Dxgi (Some p), tr, htr)
        | (NullDeref, p, tr) \<Rightarrow> (NullDeref, Dxgi (Some p), tr, htr)
        | (Spinning, p, tr) \<Rightarrow> (Spinning, Dxgi (Some p), tr, htr)))"

definition capture_shutdown :: "capture_state \<Rightarrow> capture_state" where
  "capture_shutdown st = (case st of
      (Wgc s, trs) \<Rightarrow> (Wgc (wgc_shutdown s), trs)
    | (Dxgi None, trs) \<Rightarrow> (Dxgi None, trs)
    | (Dxgi (Some p), tr, htr) \<Rightarrow> (case dxgi_shutdown (p, tr, htr) of (p, tr, htr) \<Rightarrow> (Dxgi None, tr, htr)))"

section \<open>The desktop source\<close>

definition qpc_us :: "u64 \<Rightarrow> u64 \<Rightarrow> u64" where
  "qpc_us freq ticks = (if freq = 0 then 0
     else (ticks div freq) * 1000000 + (ticks mod freq) * 1000000 div freq)"

text \<open>A staging slot of the preview: size and (as a ghost) the number of the frame last copied.\<close>

record staging_slot =
  sl_w :: u32
  sl_h :: u32
  sl_frame :: "nat option"

record desktop_source =
  ds_capture :: "screen_capture option"
  ds_dxgi :: bool
  ds_format :: u32
  ds_qpc_freq :: u64
  ds_streak :: null_streak
  ds_staging :: "staging_slot option list"
  ds_staging_valid :: "bool list"
  ds_write_idx :: u32

definition desktop_source_new :: desktop_source where
  "desktop_source_new = \<lparr>ds_capture = None, ds_dxgi = False, ds_format = 0, ds_qpc_freq = 0,
     ds_streak = \<lparr>ns_streak = 0\<rparr>, ds_staging = [None, None], ds_staging_valid = [False, False],
     ds_write_idx = 0\<rparr>"

type_synonym source_world = "desktop_source \<times> dxgi_call list \<times> handle_call list"

record source_init_env =
  si_wgc_supported :: bool
  si_output :: u32
  si_wgc :: wgc_env
  si_dxgi :: dxgi_init_env
  si_qpc_freq :: u64

definition drop_capture :: "source_world \<Rightarrow> source_world" where
  "drop_capture st = (case st of (s, tr, htr) \<Rightarrow> (case ds_capture s of
      None \<Rightarrow> st
    | Some c \<Rightarrow> (case capture_shutdown (c, tr, htr) of (c, tr, htr) \<Rightarrow> (s\<lparr>ds_capture := None\<rparr>, tr, htr))))"

definition dxgi_of :: "screen_capture \<Rightarrow> dxgi_pipeline option" where
  "dxgi_of c = (case c of Wgc _ \<Rightarrow> None | Dxgi p \<Rightarrow> p)"

definition source_init :: "source_init_env \<Rightarrow> source_world \<Rightarrow> bool \<times> source_world" where
  "source_init env st = (case drop_capture st of (s, tr, htr) \<Rightarrow>
     let s = s\<lparr>ds_dxgi := False\<rparr> in
     (case capture_init (si_output env) (si_wgc env) (si_dxgi env)
          (create_capture (si_wgc_supported env), tr, htr) of
        (False, c, tr, htr) \<Rightarrow> (False, drop_capture (s\<lparr>ds_capture := Some c\<rparr>, tr, htr))
      | (True, c, tr, htr) \<Rightarrow>
          (True, s\<lparr>ds_capture := Some c, ds_dxgi := dxgi_of c \<noteq> None,
             ds_format := (case dxgi_of c of
                Some p \<Rightarrow> (case dp_capture p of None \<Rightarrow> 0 | Some x \<Rightarrow> se_fmt x)
              | None \<Rightarrow> kWgcFramePoolFormat),
             ds_qpc_freq := si_qpc_freq env, ds_streak := streak_reset (ds_streak s)\<rparr>, tr, htr)))"

record source_tick_env =
  st_wgc :: wgc_answer
  st_capture :: capture_env
  st_qpc :: u64

definition null_source_frame :: source_frame where
  "null_source_frame = \<lparr>sf_type = D3D11, sf_handle = 0, sf_width = 0, sf_height = 0, sf_format = 0,
     sf_timestamp_us = 0\<rparr>"

definition source_next_frame :: "(tex \<Rightarrow> handle) \<Rightarrow> source_tick_env \<Rightarrow> source_world \<Rightarrow>
    (source_frame \<times> tex option) outcome \<times> source_world" where
  "source_next_frame addr env st = (case st of (s, tr, htr) \<Rightarrow> (case ds_capture s of
      None \<Rightarrow> (Val (null_source_frame, None), st)
    | Some c \<Rightarrow> (case capture_frame_of addr (st_wgc env) (st_capture env) (c, tr, htr) of
          (Val (f, t), c, tr, htr) \<Rightarrow>
            (Val (map_captured_frame f (ds_format s) (qpc_us (ds_qpc_freq s) (st_qpc env)), t),
             s\<lparr>ds_capture := Some c, ds_streak := streak_on_frame (cf_handle f \<noteq> 0) (ds_streak s)\<rparr>,
             tr, htr)
        | (NullDeref, c, tr, htr) \<Rightarrow> (NullDeref, s\<lparr>ds_capture := Some c\<rparr>, tr, htr)
        | (Spinning, c, tr, htr) \<Rightarrow> (Spinning, s\<lparr>ds_capture := Some c\<rparr>, tr, htr))))"

definition source_metadata :: "desktop_source \<Rightarrow> u32 \<times> u32 \<times> u32 \<times> nat option" where
  "source_metadata s = (case ds_capture s of
      None \<Rightarrow> (0, 0, 0, None)
    | Some c \<Rightarrow> (capture_w c, capture_h c, ds_format s,
        (case dxgi_of c of
           Some p \<Rightarrow> (case dp_encode p of Some g \<Rightarrow> Some (gc_device g) | None \<Rightarrow> capture_device c)
         | None \<Rightarrow> capture_device c)))"

definition source_state_of :: "desktop_source \<Rightarrow> source_state" where
  "source_state_of s = (if ds_capture s = None then Uninitialized
     else if streak_needs_reinit (ds_streak s) then NeedsReinit else Running)"

definition source_shutdown :: "source_world \<Rightarrow> source_world" where
  "source_shutdown st = (case st of (s, tr, htr) \<Rightarrow> drop_capture (s\<lparr>ds_dxgi := False\<rparr>, tr, htr))"

subsection \<open>The staging ring of the preview\<close>

record emit_env =
  em_w :: u32
  em_h :: u32
  em_frame :: nat
  em_dev_ok :: bool
  em_create_ok :: "bool list"
  em_map_ok :: bool

definition slot_stale :: "emit_env \<Rightarrow> staging_slot option \<Rightarrow> bool" where
  "slot_stale env x = (case x of None \<Rightarrow> False | Some sl \<Rightarrow> sl_w sl \<noteq> em_w env \<or> sl_h sl \<noteq> em_h env)"

definition reset_stale :: "emit_env \<Rightarrow> desktop_source \<Rightarrow> desktop_source" where
  "reset_stale env s = (if list_ex (slot_stale env) (ds_staging s)
     then s\<lparr>ds_staging := [None, None], ds_staging_valid := [False, False]\<rparr> else s)"

definition create_slot :: "emit_env \<Rightarrow> nat \<Rightarrow> staging_slot option \<Rightarrow> staging_slot option" where
  "create_slot env i x = (case x of
      Some sl \<Rightarrow> Some sl
    | None \<Rightarrow> if em_dev_ok env \<and> em_create_ok env ! i
              then Some \<lparr>sl_w = em_w env, sl_h = em_h env, sl_frame = None\<rparr> else None)"

definition create_slots :: "emit_env \<Rightarrow> desktop_source \<Rightarrow> desktop_source" where
  "create_slots env s = s\<lparr>ds_staging := [create_slot env 0 (ds_staging s ! 0), create_slot env 1 (ds_staging s ! 1)]\<rparr>"

text \<open>\<open>emit_wgc_preview\<close>: \<open>Some\<close> of the mapped slot when the callback was called.\<close>

definition emit_wgc_preview :: "emit_env \<Rightarrow> desktop_source \<Rightarrow> staging_slot option \<times> desktop_source" where
  "emit_wgc_preview env s =
    (let s = create_slots env (reset_stale env s) in
     if list_ex (\<lambda>x. x = None) (ds_staging s) then (None, s)
     else if \<not> em_dev_ok env then (None, s)
     else let w = unat (ds_write_idx s);
              s = s\<lparr>ds_staging := (ds_staging s)[w := map_option (\<lambda>sl. sl\<lparr>sl_frame := Some (em_frame env)\<rparr>)
                      (ds_staging s ! w)],
                    ds_staging_valid := (ds_staging_valid s)[w := True]\<rparr>;
              ri = ds_write_idx s XOR 1;
              r = unat ri;
              out = (if ds_staging_valid s ! r \<and> em_map_ok env then ds_staging s ! r else None)
          in (out, s\<lparr>ds_write_idx := ri\<rparr>))"

section \<open>The contract of a source\<close>

lemma no_frame_run: "True \<notin> set bs \<Longrightarrow> trailing_nulls bs = length bs"
proof -
  assume "True \<notin> set bs"
  then have "\<forall>x \<in> set (rev bs). \<not> x" by (metis set_rev)
  then have "takeWhile Not (rev bs) = rev bs" using takeWhile_eq_all_conv[of Not "rev bs"] by blast
  then show ?thesis unfolding trailing_nulls_def by (metis length_rev)
qed

lemma trailing_nulls_Cons:
  "trailing_nulls (b # bs) = (if True \<in> set bs then trailing_nulls bs else length bs + (if b then 0 else 1))"
proof (cases "True \<in> set bs")
  case True
  then show ?thesis by (simp add: trailing_nulls_def takeWhile_append1[of True])
next
  case False
  then have "\<forall>x \<in> set (rev bs). \<not> x" by (metis set_rev)
  then have "takeWhile Not (rev bs @ [b]) = rev bs @ takeWhile Not [b]"
    using takeWhile_append2[of "rev bs" Not "[b]"] by blast
  with False show ?thesis by (simp add: trailing_nulls_def)
qed

text \<open>What the frame loop relies on, for any source: \<open>next\<close> answers whether there was a new frame
  (\<open>None\<close>: it did not return).\<close>

locale frame_source =
  fixes start :: "'i \<Rightarrow> 's \<Rightarrow> bool \<times> 's"
    and tick :: "'f \<Rightarrow> 's \<Rightarrow> bool option \<times> 's"
    and state :: "'s \<Rightarrow> source_state"
    and stop :: "'s \<Rightarrow> 's"
    and streak :: "'s \<Rightarrow> int"
  assumes start_ok: "start i s = (True, s') \<Longrightarrow> state s' = Running \<and> streak s' = 0"
    and start_failed: "start i s = (False, s') \<Longrightarrow> state s' = Uninitialized"
    and stopped: "state (stop s) = Uninitialized"
    and ticked: "state s \<noteq> Uninitialized \<Longrightarrow> tick f s = (Some b, s') \<Longrightarrow>
      streak s' = (if b then 0 else streak s + 1)
      \<and> state s' = (if streak s' \<ge> 60 then NeedsReinit else Running)"
begin

fun ticks :: "'f list \<Rightarrow> 's \<Rightarrow> bool list option \<times> 's" where
  "ticks [] s = (Some [], s)"
| "ticks (f # fs) s = (case tick f s of
      (None, s') \<Rightarrow> (None, s')
    | (Some b, s') \<Rightarrow> (case ticks fs s' of (None, s'') \<Rightarrow> (None, s'') | (Some bs, s'') \<Rightarrow> (Some (b # bs), s'')))"

lemma ticks_streak:
  assumes "state s \<noteq> Uninitialized" "ticks fs s = (Some bs, s')"
    and "state s = (if streak s \<ge> 60 then NeedsReinit else Running)"
  shows "streak s' = (if True \<in> set bs then int (trailing_nulls bs) else streak s + int (length bs))
    \<and> state s' = (if streak s' \<ge> 60 then NeedsReinit else Running)"
  using assms
proof (induction fs arbitrary: s bs)
  case Nil
  then show ?case by (simp add: trailing_nulls_def)
next
  case (Cons f fs)
  obtain b s1 bs' where t: "tick f s = (Some b, s1)" "ticks fs s1 = (Some bs', s')" "bs = b # bs'"
    using Cons.prems(2) by (auto split: prod.splits option.splits)
  note st = ticked[OF Cons.prems(1) t(1)]
  then have ne: "state s1 \<noteq> Uninitialized" by auto
  note ih = Cons.IH[OF ne t(2) conjunct2[OF st]]
  with ih st t(3) trailing_nulls_Cons[of b bs'] show ?case by auto
qed

lemma state_after_ticks:
  assumes "start i s = (True, s0)" "ticks fs s0 = (Some bs, s')"
  shows "state s' = (if 60 \<le> trailing_nulls bs then NeedsReinit else Running)"
proof -
  note st = start_ok[OF assms(1)]
  then have "streak s' = (if True \<in> set bs then int (trailing_nulls bs) else int (length bs))
      \<and> state s' = (if streak s' \<ge> 60 then NeedsReinit else Running)"
    using ticks_streak[OF _ assms(2)] by simp
  then show ?thesis using no_frame_run[of bs] by (auto split: if_splits)
qed

end

definition source_tick_of :: "(tex \<Rightarrow> handle) \<Rightarrow> source_tick_env \<Rightarrow> source_world \<Rightarrow> bool option \<times> source_world" where
  "source_tick_of addr env st = (case source_next_frame addr env st of
      (Val (f, t), st') \<Rightarrow> (Some (sf_handle f \<noteq> 0), st')
    | (NullDeref, st') \<Rightarrow> (None, st')
    | (Spinning, st') \<Rightarrow> (None, st'))"

lemma drop_capture_None: "ds_capture (fst (drop_capture st)) = None"
  by (auto simp: drop_capture_def split: prod.splits option.splits)

lemma source_init_states:
  "source_init env st = (True, s') \<Longrightarrow>
     source_state_of (fst s') = Running \<and> ns_streak (ds_streak (fst s')) = 0"
  "source_init env st = (False, s') \<Longrightarrow> source_state_of (fst s') = Uninitialized"
  using drop_capture_None
  by (auto simp: source_init_def Let_def source_state_of_def streak_needs_reinit_def streak_reset_def
      model_defs split: prod.splits bool.splits)

lemma source_tick_states:
  assumes "source_state_of (fst st) \<noteq> Uninitialized" "source_tick_of addr env st = (Some b, st')"
  shows "ns_streak (ds_streak (fst st')) = (if b then 0 else ns_streak (ds_streak (fst st)) + 1)
    \<and> source_state_of (fst st') =
      (if ns_streak (ds_streak (fst st')) \<ge> 60 then NeedsReinit else Running)"
proof -
  obtain s tr htr where st: "st = (s, tr, htr)" by (metis prod_cases3)
  obtain c where c: "ds_capture s = Some c"
    using assms(1) st by (auto simp: source_state_of_def split: if_splits)
  obtain r cs where r: "capture_frame_of addr (st_wgc env) (st_capture env) (c, tr, htr) = (r, cs)"
    by (rule prod.exhaust)
  obtain c1 tr1 htr1 where cs: "cs = (c1, tr1, htr1)" by (metis prod_cases3)
  have "st' = (s\<lparr>ds_capture := Some c1, ds_streak := streak_on_frame b (ds_streak s)\<rparr>, tr1, htr1)"
    using assms(2) st c r cs
    by (cases r) (auto simp: source_tick_of_def source_next_frame_def map_captured_frame_def)
  then show ?thesis
    using st by (simp add: streak_on_frame_def source_state_of_def streak_needs_reinit_def model_defs)
qed

interpretation ds: frame_source source_init "source_tick_of addr" "\<lambda>st. source_state_of (fst st)"
    source_shutdown "\<lambda>st. ns_streak (ds_streak (fst st))" for addr
proof (unfold_locales, goal_cases)
  case (1 i s s') then show ?case by (rule source_init_states(1))
next
  case (2 i s s') then show ?case by (rule source_init_states(2))
next
  case (3 s)
  then show ?case by (cases s) (simp add: source_shutdown_def source_state_of_def drop_capture_None)
next
  case (4 s f b s') then show ?case by (rule source_tick_states)
qed

section \<open>The preview ring\<close>

definition preview_inv :: "nat option \<Rightarrow> desktop_source \<Rightarrow> bool" where
  "preview_inv lastf s \<longleftrightarrow> (ds_write_idx s = 0 \<or> ds_write_idx s = 1)
     \<and> (\<exists>a b. ds_staging s = [a, b]) \<and> (\<exists>a b. ds_staging_valid s = [a, b])
     \<and> (ds_staging_valid s ! unat (ds_write_idx s XOR 1) \<longrightarrow>
         (\<exists>sl. ds_staging s ! unat (ds_write_idx s XOR 1) = Some sl \<and> sl_frame sl = lastf \<and> lastf \<noteq> None))"

definition emit_submits :: "emit_env \<Rightarrow> desktop_source \<Rightarrow> bool" where
  "emit_submits env s \<longleftrightarrow> ds_write_idx (snd (emit_wgc_preview env s)) \<noteq> ds_write_idx s"

text \<open>The frame submitted lastf, over a sequence of calls.\<close>

fun emit_run :: "emit_env list \<Rightarrow> nat option \<times> desktop_source \<Rightarrow> nat option \<times> desktop_source" where
  "emit_run [] st = st"
| "emit_run (env # envs) (lastf, s) = emit_run envs
    (if emit_submits env s then Some (em_frame env) else lastf, snd (emit_wgc_preview env s))"

definition slots_fit :: "emit_env \<Rightarrow> desktop_source \<Rightarrow> bool" where
  "slots_fit env s \<longleftrightarrow> (\<forall>x \<in> set (ds_staging s). \<forall>sl. x = Some sl \<longrightarrow> sl_w sl = em_w env \<and> sl_h sl = em_h env)"

lemma reset_stale_inv:
  assumes "preview_inv lastf s"
  shows "preview_inv lastf (reset_stale env s)" "slots_fit env (reset_stale env s)"
    "ds_write_idx (reset_stale env s) = ds_write_idx s"
  using assms
  by (auto simp: reset_stale_def preview_inv_def slots_fit_def slot_stale_def split: option.splits)

lemma create_slots_inv:
  assumes "preview_inv lastf s" "slots_fit env s"
  shows "preview_inv lastf (create_slots env s) \<and> slots_fit env (create_slots env s)
    \<and> ds_write_idx (create_slots env s) = ds_write_idx s"
proof -
  obtain a b where l: "ds_staging s = [a, b]" using assms(1) by (auto simp: preview_inv_def)
  have k: "create_slot env i (Some sl) = Some sl" for i sl by (simp add: create_slot_def)
  have n: "create_slot env i None = Some sl \<Longrightarrow> sl_w sl = em_w env \<and> sl_h sl = em_h env" for i sl
    by (auto simp: create_slot_def split: if_splits)
  have "slots_fit env (create_slots env s)"
    using assms(2) l n by (cases a; cases b) (auto simp: slots_fit_def create_slots_def k)
  moreover have "preview_inv lastf (create_slots env s)"
  proof -
    consider "ds_write_idx s = 0" | "ds_write_idx s = 1" using assms(1) by (auto simp: preview_inv_def)
    then show ?thesis
      by cases (use assms(1) l in \<open>auto simp: preview_inv_def create_slots_def k\<close>)
  qed
  ultimately show ?thesis by (simp add: create_slots_def)
qed

lemma emit_step:
  assumes inv: "preview_inv lastf s"
  shows "preview_inv (if emit_submits env s then Some (em_frame env) else lastf) (snd (emit_wgc_preview env s))
    \<and> (\<forall>sl. fst (emit_wgc_preview env s) = Some sl \<longrightarrow>
        sl_frame sl = lastf \<and> lastf \<noteq> None \<and> sl_w sl = em_w env \<and> sl_h sl = em_h env)"
proof -
  define s1 where "s1 = create_slots env (reset_stale env s)"
  note r = reset_stale_inv[OF inv, of env]
  have s1: "preview_inv lastf s1" "slots_fit env s1" "ds_write_idx s1 = ds_write_idx s"
    using create_slots_inv[OF r(1,2)] r(3) by (auto simp: s1_def)
  show ?thesis
  proof (cases "list_ex (\<lambda>x. x = None) (ds_staging s1) \<or> \<not> em_dev_ok env")
    case True
    then have "emit_wgc_preview env s = (None, s1)"
      by (auto simp: emit_wgc_preview_def s1_def[symmetric] Let_def)
    with s1 show ?thesis by (simp add: emit_submits_def)
  next
    case False
    with s1(1) obtain a b va vb where l: "ds_staging s1 = [Some a, Some b]" "ds_staging_valid s1 = [va, vb]"
      by (auto simp: preview_inv_def)
    have e: "emit_wgc_preview env s = (let w = unat (ds_write_idx s1);
              s2 = s1\<lparr>ds_staging := (ds_staging s1)[w := map_option (\<lambda>sl. sl\<lparr>sl_frame := Some (em_frame env)\<rparr>)
                      (ds_staging s1 ! w)],
                    ds_staging_valid := (ds_staging_valid s1)[w := True]\<rparr>;
              ri = ds_write_idx s1 XOR 1; r = unat ri
          in (if ds_staging_valid s2 ! r \<and> em_map_ok env then ds_staging s2 ! r else None,
              s2\<lparr>ds_write_idx := ri\<rparr>))"
      using False by (simp add: emit_wgc_preview_def s1_def[symmetric] Let_def)
    consider (zero) "ds_write_idx s1 = 0" | (one) "ds_write_idx s1 = 1"
      using s1(1) by (auto simp: preview_inv_def)
    then show ?thesis
    proof cases
      case zero
      with l s1 e show ?thesis by (auto simp: preview_inv_def emit_submits_def slots_fit_def Let_def)
    next
      case one
      with l s1 e show ?thesis by (auto simp: preview_inv_def emit_submits_def slots_fit_def Let_def)
    qed
  qed
qed

lemma emit_run_inv: "preview_inv (fst st) (snd st) \<Longrightarrow> preview_inv (fst (emit_run envs st)) (snd (emit_run envs st))"
proof (induction envs arbitrary: st)
  case (Cons env envs)
  obtain l s where st: "st = (l, s)" by (rule prod.exhaust)
  show ?case using Cons.IH emit_step[of l s env] Cons.prems by (simp add: st)
qed simp

section \<open>Properties\<close>

text \<open>The source tells its user exactly when it needs to be started again: after a successful
  \<open>init\<close> and any frames that returned, \<open>state()\<close> is \<open>NeedsReinit\<close> if the last 60 or more of them
  brought no new frame and \<open>Running\<close> otherwise, for both captures; after \<open>shutdown()\<close> it is
  \<open>Uninitialized\<close>.\<close>

theorem source_state_tracks_null_frames:
  assumes "source_init env st = (True, s0)" "ds.ticks addr fs s0 = (Some bs, s')"
  shows "source_state_of (fst s') = (if 60 \<le> trailing_nulls bs then NeedsReinit else Running)
    \<and> source_state_of (fst (source_shutdown s')) = Uninitialized"
  using ds.state_after_ticks[OF assms] ds.stopped by blast

definition demo_wgc_env :: wgc_env where
  "demo_wgc_env = \<lparr>we_factory_ok = True, we_vendors = [0x1002, 0x10DE], we_device = (\<lambda>i. Some i),
     we_outputs = [[], [\<lparr>ou_attached = True, ou_left = 0, ou_top = 0, ou_right = 1920, ou_bottom = 1080\<rparr>]],
     we_item_ok = True\<rparr>"

definition demo_source_env :: source_init_env where
  "demo_source_env = \<lparr>si_wgc_supported = True, si_output = 0, si_wgc = demo_wgc_env,
     si_dxgi = demo_dxgi_env, si_qpc_freq = 10000000\<rparr>"

definition demo_tick_env :: "wgc_answer \<Rightarrow> source_tick_env" where
  "demo_tick_env a = \<lparr>st_wgc = a, st_capture = demo_capture_env, st_qpc = 5\<rparr>"

lemmas demo_source_defs = demo_wgc_env_def demo_source_env_def source_init_def drop_capture_def
  desktop_source_new_def create_capture_def capture_init_def wgc_init_def wgc_init_capture_def
  wgc_new_def dxgi_of_def streak_reset_def

definition demo_source :: desktop_source where
  "demo_source = desktop_source_new\<lparr>ds_capture := Some (Wgc \<lparr>wg_device = Some 1, wg_pool = True,
     wg_session = True, wg_last_frame = False, wg_last_tex = None, wg_w = 1920, wg_h = 1080\<rparr>),
     ds_format := 87, ds_qpc_freq := 10000000\<rparr>"

lemma demo_source_init: "source_init demo_source_env (desktop_source_new, [], []) = (True, demo_source, [], [])"
  by (simp add: demo_source_defs demo_source_def kWgcFramePoolFormat_def)

lemma source_state_tracks_null_frames_witness:
  "source_state_of (fst (snd (ds.ticks (\<lambda>_. 1) [demo_tick_env NoFrame,
      demo_tick_env (PoolFrame True (Some (1920, 1080)) 70), demo_tick_env NoFrame]
      (demo_source, [], [])))) = Running"
proof -
  let ?fs = "[demo_tick_env NoFrame, demo_tick_env (PoolFrame True (Some (1920, 1080)) 70), demo_tick_env NoFrame]"
  obtain s' where t: "ds.ticks (\<lambda>_. 1) ?fs (demo_source, [], []) = (Some [False, True, False], s')"
    by (simp add: ds.ticks.simps source_tick_of_def source_next_frame_def capture_frame_of_def
        wgc_next_frame_def demo_source_def desktop_source_new_def demo_tick_env_def
        map_captured_frame_def null_captured_def Let_def)
  have "trailing_nulls [False, True, False] = 1" by (simp add: trailing_nulls_def)
  with source_state_tracks_null_frames[OF demo_source_init t] t show ?thesis by simp
qed

text \<open>The preview of the Windows.Graphics.Capture path is one frame late and never stale: what a
  call gives to the callback is always the frame submitted by the last call that submitted one, in
  the resolution of the current frame; after a change of resolution nothing of the old size is
  shown.\<close>

theorem preview_shows_last_submitted:
  assumes "emit_run envs (None, desktop_source_new) = (lastf, s)"
    and "fst (emit_wgc_preview env s) = Some sl"
  shows "lastf = sl_frame sl \<and> lastf \<noteq> None \<and> sl_w sl = em_w env \<and> sl_h sl = em_h env"
proof -
  have "preview_inv None desktop_source_new" by (auto simp: preview_inv_def desktop_source_new_def)
  then have "preview_inv lastf s" using emit_run_inv[of "(None, desktop_source_new)" envs] assms(1) by simp
  from emit_step[OF this, of env] assms(2) show ?thesis by auto
qed

definition demo_emit_env :: "u32 \<Rightarrow> nat \<Rightarrow> emit_env" where
  "demo_emit_env w n = \<lparr>em_w = w, em_h = 1080, em_frame = n, em_dev_ok = True,
     em_create_ok = [True, True], em_map_ok = True\<rparr>"

lemma preview_shows_last_submitted_witness:
  "fst (emit_wgc_preview (demo_emit_env 1920 8)
     (snd (emit_run [demo_emit_env 1280 6, demo_emit_env 1920 7] (None, desktop_source_new))))
   = Some \<lparr>sl_w = 1920, sl_h = 1080, sl_frame = Some 7\<rparr>"
proof -
  obtain lastf s where r: "emit_run [demo_emit_env 1280 6, demo_emit_env 1920 7] (None, desktop_source_new) = (lastf, s)"
    by fastforce
  then have l: "lastf = Some 7"
    and "\<exists>sl. fst (emit_wgc_preview (demo_emit_env 1920 8) s) = Some sl"
    by (auto simp: emit_submits_def emit_wgc_preview_def reset_stale_def slot_stale_def create_slots_def
        create_slot_def demo_emit_env_def desktop_source_new_def Let_def)
  then obtain sl where e: "fst (emit_wgc_preview (demo_emit_env 1920 8) s) = Some sl" by blast
  from preview_shows_last_submitted[OF r e] l e r show ?thesis
    by (cases sl) (simp add: demo_emit_env_def)
qed

text \<open>On a system with a single GPU the duplication capture reports the wrong device: its
  textures live on the display device, while \<open>metadata()\<close>, documented as the device the frames
  live on, names the separate device created for the encoder.\<close>

theorem single_gpu_metadata_names_other_device:
  assumes "dxgi_init env (dxgi_pipeline_new, tr, htr) = (True, p, tr1, htr1)"
    and "dp_display p = Some d" "dp_encode p = Some e" "gc_luid d = gc_luid e"
    and "dp_rm p = Some m" "fst (transfer tenv True m) = Some t" "ds_capture s = Some (Dxgi (Some p))"
  shows "tx_device t = gc_device d \<and> snd (snd (snd (source_metadata s))) = Some (gc_device e)"
proof -
  have res: "dp_display p' = dp_display q \<and> dp_encode p' = dp_encode q \<and>
      (\<exists>w h tr0. rm_init (px_rm env) dc ec w h (gpu_rm_new, tr0) = (True, the (dp_rm p'), h') \<and> dp_rm p' \<noteq> None)"
    if "dxgi_init_resources env dc ec (q, a, hh) = (True, p', tr', h')" for dc ec q a hh p' tr' h'
    using that unfolding dxgi_init_resources_def Let_def
    by (clarsimp split: prod.splits bool.splits) blast
  obtain w h tr0 where "rm_init (px_rm env) d e w h (gpu_rm_new, tr0) = (True, m, htr1)"
    using assms(1-3,5)
    by (auto simp: dxgi_init_def Let_def dxgi_pipeline_new_def dest!: res split: if_splits option.splits)
  from transfer_after_init[OF this, of tenv] assms(4,6) have "t = new_tex d w h" by simp
  with assms(3,7) show ?thesis by (simp add: new_tex_def source_metadata_def dxgi_of_def)
qed

lemma single_gpu_metadata_names_other_device_witness:
  "snd (snd (snd (source_metadata (desktop_source_new\<lparr>ds_capture := Some (Dxgi (Some demo_pipeline))\<rparr>)))) = Some 2"
proof -
  have m: "fst (transfer demo_transfer_env True (the (dp_rm demo_pipeline))) = Some \<lparr>tx_device = 1, tx_w = 1920, tx_h = 1080\<rparr>"
    by (simp add: transfer_def demo_pipeline_def gpu_rm_new_def)
  show ?thesis
    using single_gpu_metadata_names_other_device[OF demo_dxgi_init, of "\<lparr>gc_device = 1, gc_luid = 10\<rparr>"
      "\<lparr>gc_device = 2, gc_luid = 10\<rparr>" "the (dp_rm demo_pipeline)" demo_transfer_env _
      "desktop_source_new\<lparr>ds_capture := Some (Dxgi (Some demo_pipeline))\<rparr>"] m
    by (simp add: demo_pipeline_def)
qed

end
