(* ===== verification/Timing.thy ===== *)
theory Timing
  imports Prelude "HOL-Library.Signed_Division"
begin

text \<open>
  The clock of the frame loop: \<open>src/src/pipeline/frame_pacer.cpp\<close> (deadlines and time stamps)
  and \<open>include/send_diag.h\<close> (durations collected per second). Ticks of the performance counter
  are integers, \<open>sdiv\<close> is the truncating division of the code; the readings of the counter are
  inputs.
\<close>

section \<open>The frame pacer\<close>

definition kResyncFrames :: int where [model_defs]: "kResyncFrames = 4"

definition ticks_to_us :: "int \<Rightarrow> int \<Rightarrow> int" where
  "ticks_to_us t freq = (t * 1000000) sdiv freq"

record pacer =
  pc_qpc_freq :: int
  pc_frame_ticks :: int
  pc_next_deadline :: int
  pc_pts_origin :: int

definition pacer_new :: pacer where
  "pacer_new = \<lparr>pc_qpc_freq = 1, pc_frame_ticks = 0, pc_next_deadline = 0, pc_pts_origin = 0\<rparr>"

text \<open>\<open>freq\<close>: the answer of \<open>QueryPerformanceFrequency\<close>; \<open>now1\<close>, \<open>now2\<close>: the two readings.\<close>

definition pacer_init :: "u32 \<Rightarrow> int option \<Rightarrow> int \<Rightarrow> int \<Rightarrow> pacer \<Rightarrow> bool \<times> pacer" where
  "pacer_init fps freq now1 now2 p =
    (if fps = 0 then (False, p)
     else (case freq of
         None \<Rightarrow> (False, p)
       | Some f \<Rightarrow>
         if f = 0 then (False, p)
         else let ft = f sdiv uint fps in
           (True, p\<lparr>pc_qpc_freq := f, pc_frame_ticks := ft, pc_pts_origin := now1,
                    pc_next_deadline := now2 + ft\<rparr>)))"

definition pacer_pts_us :: "int \<Rightarrow> pacer \<Rightarrow> int" where
  "pacer_pts_us frame_start p = ticks_to_us (frame_start - pc_pts_origin p) (pc_qpc_freq p)"

definition pacer_origin_us :: "pacer \<Rightarrow> int" where
  "pacer_origin_us p = (if pc_qpc_freq p > 0 then (pc_pts_origin p * 1000000) sdiv pc_qpc_freq p else 0)"

text \<open>What \<open>pace\<close> does to the thread: the milliseconds it sleeps, and the tick up to which it spins.\<close>

datatype pace_wait = NoWait | WaitUntil int int

definition pace :: "int \<Rightarrow> pacer \<Rightarrow> pace_wait \<times> pacer" where
  "pace now p =
    (let p = p\<lparr>pc_next_deadline := pc_next_deadline p + pc_frame_ticks p\<rparr>;
         remain = pc_next_deadline p - now in
     if remain < - pc_frame_ticks p * kResyncFrames
     then (NoWait, p\<lparr>pc_next_deadline := now + pc_frame_ticks p\<rparr>)
     else if remain > 0 then
       (let remain_us = ticks_to_us remain (pc_qpc_freq p) in
        (WaitUntil (if remain_us > 1500 then (remain_us - 1000) sdiv 1000 else 0) (pc_next_deadline p), p))
     else (NoWait, p))"

text \<open>The tick at which \<open>pace\<close> returns at the earliest.\<close>

fun pace_return :: "int \<Rightarrow> pace_wait \<Rightarrow> int" where
  "pace_return now NoWait = now"
| "pace_return now (WaitUntil ms dl) = dl"

fun pace_run :: "int list \<Rightarrow> pacer \<Rightarrow> pacer" where
  "pace_run [] p = p"
| "pace_run (now # nows) p = pace_run nows (snd (pace now p))"

text \<open>A frame is late when it ends more than four frames after the deadline it should meet.\<close>

definition late :: "int \<Rightarrow> pacer \<Rightarrow> bool" where
  "late now p \<longleftrightarrow> now > pc_next_deadline p + pc_frame_ticks p + 4 * pc_frame_ticks p"

lemma pace_deadline:
  "pc_next_deadline (snd (pace now p)) =
     (if late now p then now + pc_frame_ticks p else pc_next_deadline p + pc_frame_ticks p)"
  "pc_frame_ticks (snd (pace now p)) = pc_frame_ticks p"
  "pc_qpc_freq (snd (pace now p)) = pc_qpc_freq p"
  by (auto simp: pace_def late_def kResyncFrames_def Let_def)

fun on_time :: "int list \<Rightarrow> pacer \<Rightarrow> bool" where
  "on_time [] p = True"
| "on_time (now # nows) p = (\<not> late now p \<and> on_time nows (snd (pace now p)))"

lemma pace_run_deadline:
  assumes "on_time nows p"
  shows "pc_next_deadline (pace_run nows p) = pc_next_deadline p + int (length nows) * pc_frame_ticks p
    \<and> pc_frame_ticks (pace_run nows p) = pc_frame_ticks p"
  using assms
  by (induction nows arbitrary: p) (auto simp: pace_deadline algebra_simps)

lemma sdiv_nonneg: "0 \<le> (a :: int) \<Longrightarrow> 0 < b \<Longrightarrow> a sdiv b = a div b"
  by (cases "a = 0") (simp_all add: signed_divide_int_def sgn_if)

lemma pace_run_const:
  "pc_frame_ticks (pace_run nows p) = pc_frame_ticks p" "pc_qpc_freq (pace_run nows p) = pc_qpc_freq p"
  by (induction nows arbitrary: p) (auto simp: pace_deadline)

lemma pace_sleep_in_time:
  assumes "0 < pc_qpc_freq q" "fst (pace now q) = WaitUntil ms dl"
  shows "0 \<le> ms \<and> ms * 1000 * pc_qpc_freq q \<le> (dl - now) * 1000000 \<and> now < dl"
proof -
  define f where "f = pc_qpc_freq q"
  define r where "r = pc_next_deadline q + pc_frame_ticks q - now"
  define u where "u = r * 1000000 div f"
  have f: "0 < f" using assms(1) by (simp add: f_def)
  have r: "0 < r" and dl: "dl - now = r" and ms: "ms = (if u > 1500 then (u - 1000) div 1000 else 0)"
    using assms(2) f
    by (auto simp: pace_def Let_def ticks_to_us_def r_def[symmetric] u_def f_def[symmetric] sdiv_nonneg
        split: if_splits)
  have uf: "u * f \<le> r * 1000000" using f by (simp add: u_def minus_mod_eq_div_mult[symmetric])
  have m: "ms * 1000 \<le> u \<or> ms = 0" "0 \<le> ms" using ms by (auto split: if_splits)
  have "ms * 1000 * f \<le> r * 1000000"
  proof (cases "ms = 0")
    case False
    then have "ms * 1000 * f \<le> u * f" using m f by (intro mult_right_mono) auto
    from this uf show ?thesis by (rule order_trans)
  qed (use r in simp)
  then show ?thesis using dl r m(2) by (simp add: f_def)
qed

text \<open>The pacing does not drift: as long as no frame is more than four frames late, after \<open>n\<close>
  frames the deadline is exactly \<open>n + 1\<close> frame times after the first reading, however long the
  single frames took; a later frame resynchronises, so the deadline is never more than four
  frames in the past; and the sleep before the spin always ends before the deadline.\<close>

theorem pacing_does_not_drift:
  assumes "pacer_init fps (Some f) now1 now2 pacer_new = (True, p)" and "0 < f"
  shows "(on_time nows p \<longrightarrow>
       pc_next_deadline (pace_run nows p) = now2 + (int (length nows) + 1) * (f div uint fps))
    \<and> now \<le> pc_next_deadline (snd (pace now (pace_run nows p))) + 4 * (f div uint fps)
    \<and> (\<forall>ms dl. fst (pace now (pace_run nows p)) = WaitUntil ms dl \<longrightarrow>
         0 \<le> ms \<and> ms * 1000 * f \<le> (dl - now) * 1000000)"
proof -
  have "fps \<noteq> 0" using assms(1) by (auto simp: pacer_init_def)
  then have "uint fps \<noteq> 0" by (simp add: unsigned_eq_0_iff)
  then have fps: "0 < uint fps" by (metis less_le unsigned_greater_eq)
  have p: "pc_qpc_freq p = f" "pc_frame_ticks p = f div uint fps"
    "pc_next_deadline p = now2 + f div uint fps"
    using assms fps by (auto simp: pacer_init_def Let_def sdiv_nonneg split: if_splits)
  let ?q = "pace_run nows p"
  have nn: "0 \<le> f div uint fps" using assms(2) fps by (simp add: pos_imp_zdiv_nonneg_iff)
  have "on_time nows p \<Longrightarrow>
       pc_next_deadline ?q = now2 + (int (length nows) + 1) * (f div uint fps)"
    using pace_run_deadline[of nows p] p by (simp add: algebra_simps)
  moreover have "now \<le> pc_next_deadline (snd (pace now ?q)) + 4 * (f div uint fps)"
    using pace_deadline(1)[of now ?q] p pace_run_const[of nows p] nn
    by (auto simp: late_def)
  moreover have "0 \<le> ms \<and> ms * 1000 * f \<le> (dl - now) * 1000000"
    if "fst (pace now ?q) = WaitUntil ms dl" for ms dl
    using pace_sleep_in_time[OF _ that] assms(2) p(1) pace_run_const(2)[of nows p] by simp
  ultimately show ?thesis by blast
qed

lemma pacing_does_not_drift_witness:
  "pc_next_deadline (pace_run [170000, 600000, 500500]
     (snd (pacer_init 60 (Some 10000000) 0 0 pacer_new))) = 4 * 166666"
proof -
  obtain p where i: "pacer_init 60 (Some 10000000) 0 0 pacer_new = (True, p)"
    by (simp add: pacer_init_def)
  have "on_time [170000, 600000, 500500] p"
    using i by (auto simp: pacer_init_def Let_def sdiv_nonneg late_def pace_deadline)
  with pacing_does_not_drift[OF i, of "[170000, 600000, 500500]" 0] i show ?thesis by simp
qed

section \<open>Durations per second\<close>

text \<open>The accumulators and counters of \<open>SendDiag\<close>, one constructor per member.\<close>

datatype diag_chan = Cap | CapNull | Enc | SendV | SendA | D3d | Prev | Tot | Pace | CopyC | EncP | LockB | EncCb

datatype diag_cnt = NFrames | NNull | NPrevMiss | NSendOk | NSendFail | NDup | NIdrFallback

record acc =
  ac_sum :: u64
  ac_max :: u32
  ac_count :: u32

definition acc_zero :: acc where
  "acc_zero = \<lparr>ac_sum = 0, ac_max = 0, ac_count = 0\<rparr>"

definition acc_add :: "u32 \<Rightarrow> acc \<Rightarrow> acc" where
  "acc_add us a = \<lparr>ac_sum = ac_sum a + ucast us,
     ac_max = (if us > ac_max a then us else ac_max a), ac_count = ac_count a + 1\<rparr>"

definition acc_avg :: "acc \<Rightarrow> u32" where
  "acc_avg a = (if ac_count a \<noteq> 0 then ucast (ac_sum a div ucast (ac_count a)) else 0)"

record send_diag =
  sd_window_start :: u64
  sd_acc :: "diag_chan \<Rightarrow> acc"
  sd_cnt :: "diag_cnt \<Rightarrow> u32"

definition kWindowUs :: u64 where [model_defs]: "kWindowUs = 1000000"

definition send_diag_new :: send_diag where
  "send_diag_new = \<lparr>sd_window_start = 0, sd_acc = (\<lambda>_. acc_zero), sd_cnt = (\<lambda>_. 0)\<rparr>"

definition begin_window :: "u64 \<Rightarrow> send_diag \<Rightarrow> send_diag" where
  "begin_window now d = d\<lparr>sd_window_start := now\<rparr>"

definition diag_reset :: "u64 \<Rightarrow> send_diag \<Rightarrow> send_diag" where
  "diag_reset now d = d\<lparr>sd_acc := (\<lambda>_. acc_zero), sd_cnt := (\<lambda>_. 0), sd_window_start := now\<rparr>"

definition add_to :: "diag_chan \<Rightarrow> u32 \<Rightarrow> send_diag \<Rightarrow> send_diag" where
  "add_to c us d = d\<lparr>sd_acc := (sd_acc d)(c := acc_add us (sd_acc d c))\<rparr>"

definition count_up :: "diag_cnt \<Rightarrow> send_diag \<Rightarrow> send_diag" where
  "count_up c d = d\<lparr>sd_cnt := (sd_cnt d)(c := sd_cnt d c + 1)\<rparr>"

text \<open>The \<open>record_\<close> calls.\<close>

datatype diag_event = RCapture u32 bool | REncode u32 | REncSplit u32 u32 u32 | RPreviewMiss
  | RInterop u32 | RPreview u32 | RTotal u32 | RPace u32 | RSendVideo u32 bool | RAudioDrain u32
  | RRepeat | RCopy u32 | RIdrFallback

fun diag_record :: "diag_event \<Rightarrow> send_diag \<Rightarrow> send_diag" where
  "diag_record (RCapture us had) d =
     (if had then count_up NFrames (add_to Cap us d) else count_up NNull (add_to CapNull us d))"
| "diag_record (REncode us) d = add_to Enc us d"
| "diag_record (REncSplit p l c) d = add_to EncCb c (add_to LockB l (add_to EncP p d))"
| "diag_record RPreviewMiss d = count_up NPrevMiss d"
| "diag_record (RInterop us) d = add_to D3d us d"
| "diag_record (RPreview us) d = add_to Prev us d"
| "diag_record (RTotal us) d = add_to Tot us d"
| "diag_record (RPace us) d = add_to Pace us d"
| "diag_record (RSendVideo us ok) d =
     (let d = add_to SendV us d in if ok then count_up NSendOk d else count_up NSendFail d)"
| "diag_record (RAudioDrain us) d = add_to SendA us d"
| "diag_record RRepeat d = count_up NDup d"
| "diag_record (RCopy us) d = add_to CopyC us d"
| "diag_record RIdrFallback d = count_up NIdrFallback d"

text \<open>The statistics of a window: average and maximum of each accumulator, the counters, and the
  number of audio drains, which is the count of its accumulator.\<close>

record diag_stats =
  dg_avg :: "diag_chan \<Rightarrow> u32"
  dg_max :: "diag_chan \<Rightarrow> u32"
  dg_cnt :: "diag_cnt \<Rightarrow> u32"
  dg_senda :: u32

definition maybe_flush :: "u64 \<Rightarrow> send_diag \<Rightarrow> diag_stats option \<times> send_diag" where
  "maybe_flush now d =
    (if now - sd_window_start d < kWindowUs then (None, d)
     else (Some \<lparr>dg_avg = (\<lambda>c. acc_avg (sd_acc d c)), dg_max = (\<lambda>c. ac_max (sd_acc d c)),
             dg_cnt = sd_cnt d, dg_senda = ac_count (sd_acc d SendA)\<rparr>, diag_reset now d))"

subsection \<open>A flush reports exactly what was recorded\<close>

fun samples :: "diag_chan \<Rightarrow> diag_event \<Rightarrow> u32 list" where
  "samples c (RCapture us had) = (if c = (if had then Cap else CapNull) then [us] else [])"
| "samples c (REncode us) = (if c = Enc then [us] else [])"
| "samples c (REncSplit p l cb) = (if c = EncP then [p] else if c = LockB then [l] else if c = EncCb then [cb] else [])"
| "samples c (RInterop us) = (if c = D3d then [us] else [])"
| "samples c (RPreview us) = (if c = Prev then [us] else [])"
| "samples c (RTotal us) = (if c = Tot then [us] else [])"
| "samples c (RPace us) = (if c = Pace then [us] else [])"
| "samples c (RSendVideo us ok) = (if c = SendV then [us] else [])"
| "samples c (RAudioDrain us) = (if c = SendA then [us] else [])"
| "samples c (RCopy us) = (if c = CopyC then [us] else [])"
| "samples c _ = []"

fun counts :: "diag_cnt \<Rightarrow> diag_event \<Rightarrow> nat" where
  "counts c (RCapture us had) = (if c = (if had then NFrames else NNull) then 1 else 0)"
| "counts c (RSendVideo us ok) = (if c = (if ok then NSendOk else NSendFail) then 1 else 0)"
| "counts c RPreviewMiss = (if c = NPrevMiss then 1 else 0)"
| "counts c RRepeat = (if c = NDup then 1 else 0)"
| "counts c RIdrFallback = (if c = NIdrFallback then 1 else 0)"
| "counts c _ = 0"

lemma record_acc: "sd_acc (diag_record r d) c = fold acc_add (samples c r) (sd_acc d c)"
  by (cases r) (auto simp: add_to_def count_up_def Let_def)

lemma record_cnt: "sd_cnt (diag_record r d) c = sd_cnt d c + word_of_nat (counts c r)"
  by (cases r) (auto simp: add_to_def count_up_def Let_def)

lemma record_start: "sd_window_start (diag_record r d) = sd_window_start d"
  by (cases r) (auto simp: add_to_def count_up_def Let_def)

lemma records_acc: "sd_acc (fold diag_record rs d) c = fold acc_add (concat (map (samples c) rs)) (sd_acc d c)"
  by (induction rs arbitrary: d) (simp_all add: record_acc)

lemma records_cnt: "sd_cnt (fold diag_record rs d) c = sd_cnt d c + word_of_nat (sum_list (map (counts c) rs))"
  by (induction rs arbitrary: d) (simp_all add: record_cnt add.assoc)

lemma records_start: "sd_window_start (fold diag_record rs d) = sd_window_start d"
  by (induction rs arbitrary: d) (simp_all add: record_start)

definition avg_of :: "u32 list \<Rightarrow> nat" where
  "avg_of us = (if us = [] then 0 else sum_list (map unat us) div length us)"

lemma unat_max_u32: "unat (if (b :: u32) > a then b else a) = max (unat a) (unat b)"
  by (auto simp: word_less_nat_alt max_def)

lemma acc_fold:
  assumes "length us + n < 2 ^ 32" "unat (ac_count a) = n" "unat (ac_sum a) < n * 2 ^ 32 \<or> n = 0 \<and> ac_sum a = 0"
  shows "unat (ac_count (fold acc_add us a)) = n + length us
    \<and> unat (ac_sum (fold acc_add us a)) = unat (ac_sum a) + sum_list (map unat us)
    \<and> unat (ac_max (fold acc_add us a)) = fold max (map unat us) (unat (ac_max a))"
  using assms
proof (induction us arbitrary: a n)
  case Nil
  then show ?case by simp
next
  case (Cons u us)
  have c: "unat (ac_count (acc_add u a)) = Suc n"
    using Cons.prems unat_add_lem[of "ac_count a" 1] by (simp add: acc_add_def)
  have lt: "unat (ac_sum a) + unat u < Suc n * 2 ^ 32"
    using Cons.prems(3) unsigned_less[of u] by auto
  also have "\<dots> \<le> 2 ^ 32 * 2 ^ 32" using Cons.prems(1) by (intro mult_right_mono) simp_all
  finally have s: "unat (ac_sum (acc_add u a)) = unat (ac_sum a) + unat u"
    using unat_add_lem[of "ac_sum a" "ucast u"] by (simp add: acc_add_def)
  have m: "unat (ac_max (acc_add u a)) = max (unat (ac_max a)) (unat u)"
    using unat_max_u32[of "ac_max a" u] by (simp add: acc_add_def)
  have "length us + Suc n < 2 ^ 32" using Cons.prems(1) by simp
  from Cons.IH[OF this c] s lt c m show ?case by (simp add: max.commute)
qed


lemma div_le_bound: "s \<le> n * (k :: nat) \<Longrightarrow> n \<noteq> 0 \<Longrightarrow> s div n \<le> k"
  by (metis div_le_mono nonzero_mult_div_cancel_left)

definition max_of :: "u32 list \<Rightarrow> nat" where
  "max_of us = fold max (map unat us) 0"

text \<open>The diagnostic window loses and invents nothing: starting from a window just opened, a
  flush reports for every channel exactly the floor of the average and the maximum of all the
  durations recorded since, and for every counter the number of its events; the following window
  starts empty, and before a second has passed nothing is reported.\<close>

theorem send_diag_window_exact:
  assumes "length (concat (map (samples c) rs)) < 2 ^ 32" and "sum_list (map (counts k) rs) < 2 ^ 32"
    and "maybe_flush now (fold diag_record rs (diag_reset t0 d)) = (r, d')"
  shows "(case r of
      None \<Rightarrow> now - t0 < 1000000 \<and> d' = fold diag_record rs (diag_reset t0 d)
    | Some st \<Rightarrow> \<not> now - t0 < 1000000
        \<and> unat (dg_avg st c) = avg_of (concat (map (samples c) rs))
        \<and> unat (dg_max st c) = max_of (concat (map (samples c) rs))
        \<and> unat (dg_cnt st k) = sum_list (map (counts k) rs)
        \<and> d' = diag_reset now d')"
proof (cases r)
  case None
  with assms(3) show ?thesis
    by (auto simp: maybe_flush_def records_start diag_reset_def model_defs split: if_splits)
next
  case (Some st)
  let ?us = "concat (map (samples c) rs)"
  let ?a = "fold acc_add ?us acc_zero"
  have f: "unat (ac_count ?a) = length ?us" "unat (ac_sum ?a) = sum_list (map unat ?us)"
    "unat (ac_max ?a) = max_of ?us"
    using acc_fold[of ?us 0 acc_zero] assms(1) by (simp_all add: acc_zero_def max_of_def)
  have st: "dg_avg st c = acc_avg ?a" "dg_max st c = ac_max ?a"
    "dg_cnt st k = word_of_nat (sum_list (map (counts k) rs))" "\<not> now - t0 < 1000000"
    "d' = diag_reset now (fold diag_record rs (diag_reset t0 d))"
    using assms(3) Some
    by (auto simp: maybe_flush_def records_start records_acc records_cnt diag_reset_def model_defs
        split: if_splits)
  have "unat (acc_avg ?a) = avg_of ?us"
  proof (cases "?us = []")
    case True
    show ?thesis unfolding True by (simp add: acc_avg_def acc_zero_def avg_of_def)
  next
    case False
    then have n0: "ac_count ?a \<noteq> 0" using f(1) by (metis length_0_conv unsigned_0)
    have le: "unat (u :: u32) \<le> 2 ^ 32 - 1" for u
    proof -
      have "unat u < 2 ^ 32" using unsigned_less[of u] by simp
      then show ?thesis by simp
    qed
    have "sum_list (map unat ?us) \<le> sum_list (map (\<lambda>_. 2 ^ 32 - 1) ?us)"
      by (rule sum_list_mono) (rule le)
    then have "sum_list (map unat ?us) \<le> length ?us * (2 ^ 32 - 1)" by (simp only: sum_list_triv of_nat_id)
    then have "sum_list (map unat ?us) div length ?us \<le> 2 ^ 32 - 1"
      using False by (intro div_le_bound) simp_all
    moreover have "avg_of ?us = sum_list (map unat ?us) div length ?us"
      using False by (simp only: avg_of_def if_False)
    ultimately show ?thesis
      using n0 f by (simp add: acc_avg_def unsigned_ucast_eq unat_div take_bit_nat_eq_self)
  qed
  then show ?thesis
    using Some st f assms(2) by (simp add: unat_of_nat diag_reset_def)
qed

lemma send_diag_window_exact_witness:
  "\<exists>st d'. maybe_flush 1500000 (fold diag_record [RSendVideo 100 True, RSendVideo 201 False]
      (diag_reset 500000 send_diag_new)) = (Some st, d')
    \<and> unat (dg_avg st SendV) = 150 \<and> unat (dg_max st SendV) = 201 \<and> unat (dg_cnt st NSendOk) = 1"
proof -
  let ?rs = "[RSendVideo 100 True, RSendVideo 201 False]"
  obtain r d' where m: "maybe_flush 1500000 (fold diag_record ?rs (diag_reset 500000 send_diag_new)) = (r, d')"
    by (rule prod.exhaust)
  then obtain st where st: "r = Some st"
    by (auto simp: maybe_flush_def add_to_def count_up_def diag_reset_def model_defs split: if_splits)
  show ?thesis
    using send_diag_window_exact[of SendV ?rs NSendOk, OF _ _ m] m st
    by (simp add: avg_of_def max_of_def flip: numeral_2_eq_2)
qed

end
