(* ===== verification/Metrics.thy ===== *)
theory Metrics
  imports Float32 Timing
begin

text \<open>
  \<open>src/src/pipeline/metrics_collector.cpp\<close>, \<open>metrics_subsystem.cpp\<close> and \<open>seh_filter.cpp\<close>:
  the counters of frames and drops with their 30 poll window, the processor meter, the sample
  pushed per frame, and the shared filter of structured exceptions with its escalation valve.
  Answers of the performance counters and clocks are inputs; percentages are single precision
  values (\<open>Float32\<close>).
\<close>

section \<open>The collector\<close>

definition WINDOW :: nat where [model_defs]: "WINDOW = 30"
definition POLL_INTERVAL_US :: int where [model_defs]: "POLL_INTERVAL_US = 1000000"

record metrics =
  mt_frame_drop_pct :: u32
  mt_total_frames :: u32
  mt_dropped_frames :: u32
  mt_gpu_temp :: u16
  mt_cpu_temp :: u16
  mt_memory_pct :: u32
  mt_cpu_load :: u32
  mt_gpu_load :: u32
  mt_rtt_ms :: u16
  mt_loss_pct :: u8
  mt_timestamp :: int

record collector =
  cl_metrics :: metrics
  cl_drop_ring :: "u32 list"
  cl_frame_ring :: "u32 list"
  cl_head :: nat
  cl_count :: nat
  cl_total_frames :: u32
  cl_total_drops :: u32
  cl_prev_frames :: u32
  cl_prev_drops :: u32
  cl_last_poll :: int

definition metrics_zero :: metrics where
  "metrics_zero = \<lparr>mt_frame_drop_pct = 0, mt_total_frames = 0, mt_dropped_frames = 0,
     mt_gpu_temp = 0, mt_cpu_temp = 0, mt_memory_pct = 0, mt_cpu_load = 0, mt_gpu_load = 0,
     mt_rtt_ms = 0, mt_loss_pct = 0, mt_timestamp = 0\<rparr>"

definition collector_new :: "int \<Rightarrow> collector" where
  "collector_new now = \<lparr>cl_metrics = metrics_zero\<lparr>mt_timestamp := now\<rparr>,
     cl_drop_ring = replicate 30 0, cl_frame_ring = replicate 30 0, cl_head = 0, cl_count = 0,
     cl_total_frames = 0, cl_total_drops = 0, cl_prev_frames = 0, cl_prev_drops = 0,
     cl_last_poll = now\<rparr>"

definition record_frame_drop :: "collector \<Rightarrow> collector" where
  "record_frame_drop c = c\<lparr>cl_total_drops := cl_total_drops c + 1\<rparr>"

definition record_frame :: "collector \<Rightarrow> collector" where
  "record_frame c = c\<lparr>cl_total_frames := cl_total_frames c + 1\<rparr>"

definition calculate_frame_drop_pct :: "collector \<Rightarrow> collector" where
  "calculate_frame_drop_pct c =
    (let dd = cl_total_drops c - cl_prev_drops c;
         df = cl_total_frames c - cl_prev_frames c;
         i = cl_head c mod WINDOW;
         c = c\<lparr>cl_prev_drops := cl_total_drops c, cl_prev_frames := cl_total_frames c,
               cl_drop_ring := (cl_drop_ring c)[i := dd],
               cl_frame_ring := (cl_frame_ring c)[i := df],
               cl_head := cl_head c + 1, cl_count := min (cl_count c + 1) WINDOW\<rparr>;
         td = sum_list (take (cl_count c) (cl_drop_ring c));
         tf = sum_list (take (cl_count c) (cl_frame_ring c))
     in c\<lparr>cl_metrics := (cl_metrics c)\<lparr>mt_frame_drop_pct := (if tf > 0 then td * 100 div tf else 0),
            mt_total_frames := cl_total_frames c, mt_dropped_frames := cl_total_drops c\<rparr>\<rparr>)"

text \<open>The thermal queries are constant stubs in the code.\<close>

definition query_temp :: u16 where
  "query_temp = 0"

text \<open>A percentage answered by a counter (none, if the query failed), clamped and truncated.\<close>

definition load_pct :: "rat option \<Rightarrow> u32" where
  "load_pct v = (case v of None \<Rightarrow> 0
     | Some x \<Rightarrow> f2u32 (if x < 0 then 0 else if x > 100 then 100 else x))"

definition query_gpu_load_pct :: "rat list option \<Rightarrow> u32" where
  "query_gpu_load_pct items = (case items of
      None \<Rightarrow> 0
    | Some [] \<Rightarrow> 0
    | Some xs \<Rightarrow> load_pct (Some (fold max xs 0)))"

record poll_env =
  po_now :: int
  po_memory :: "u32 option"
  po_cpu :: "rat option"
  po_gpu :: "rat list option"

definition poll :: "poll_env \<Rightarrow> collector \<Rightarrow> collector" where
  "poll env c =
    (if po_now env - cl_last_poll c < POLL_INTERVAL_US then c
     else let m = (cl_metrics c)\<lparr>mt_gpu_temp := query_temp, mt_cpu_temp := query_temp,
                mt_memory_pct := (case po_memory env of Some v \<Rightarrow> v | None \<Rightarrow> 0),
                mt_cpu_load := load_pct (po_cpu env), mt_gpu_load := query_gpu_load_pct (po_gpu env)\<rparr>;
              c = calculate_frame_drop_pct (c\<lparr>cl_metrics := m\<rparr>)
          in c\<lparr>cl_metrics := (cl_metrics c)\<lparr>mt_timestamp := po_now env\<rparr>, cl_last_poll := po_now env\<rparr>)"

section \<open>The subsystem\<close>

record cpu_meter =
  cm_prev_wall :: u64
  cm_prev_busy :: u64
  cm_ncpus :: u32
  cm_last :: rat

definition cpu_meter_new :: "u32 \<Rightarrow> cpu_meter" where
  "cpu_meter_new n = \<lparr>cm_prev_wall = 0, cm_prev_busy = 0, cm_ncpus = (if n \<noteq> 0 then n else 1), cm_last = 0\<rparr>"

definition u64f :: "u64 \<Rightarrow> rat" where
  "u64f w = f32 (of_nat (unat w))"

definition cpu_pct :: "u64 \<Rightarrow> u64 \<Rightarrow> u32 \<Rightarrow> rat" where
  "cpu_pct dbusy dwall ncpus =
     (let pct = f32 (f32 (u64f dbusy / f32 (u64f dwall * u2f ncpus)) * 100)
      in if pct < 0 then 0 else if pct > 100 then 100 else pct)"

text \<open>\<open>ptimes\<close>: busy time of the process, if the query succeeds, and the wall clock.\<close>

definition cpu_sample :: "(u64 \<times> u64) option \<Rightarrow> cpu_meter \<Rightarrow> rat \<times> cpu_meter" where
  "cpu_sample ptimes m = (case ptimes of
      None \<Rightarrow> (cm_last m, m)
    | Some (busy, wall) \<Rightarrow>
        let last' = (if cm_prev_wall m \<noteq> 0 \<and> wall - cm_prev_wall m \<noteq> 0
               then cpu_pct (busy - cm_prev_busy m) (wall - cm_prev_wall m) (cm_ncpus m) else cm_last m)
        in (last', m\<lparr>cm_last := last', cm_prev_wall := wall, cm_prev_busy := busy\<rparr>))"

record metric_sample =
  ms_magic_head :: u32
  ms_magic_tail :: u32
  ms_timestamp_us :: u64
  ms_bitrate_kbps :: u32
  ms_fps_actual :: rat
  ms_cpu_percent :: rat
  ms_frame_drops :: u32
  ms_frame_drop_pct :: u32
  ms_gpu_temp :: u16
  ms_cpu_temp :: u16
  ms_memory_pct :: u32
  ms_cpu_load :: u32
  ms_gpu_load :: u32
  ms_rtt_ms :: u16
  ms_loss_pct :: u8
  ms_source_id :: u8

definition RJ_METRIC_MAGIC :: u32 where [model_defs]: "RJ_METRIC_MAGIC = 0xEEFF1234"

record metrics_subsystem =
  mx_cpu :: cpu_meter
  mx_collector :: "collector option"
  mx_last_frame_ticks :: int
  mx_poll_running :: bool

definition metrics_init :: "int \<Rightarrow> metrics_subsystem \<Rightarrow> metrics_subsystem" where
  "metrics_init now s = s\<lparr>mx_collector := Some (collector_new now), mx_poll_running := True\<rparr>"

definition metrics_stop :: "metrics_subsystem \<Rightarrow> metrics_subsystem" where
  "metrics_stop s = s\<lparr>mx_poll_running := False\<rparr>"

text \<open>One turn of the background thread.\<close>

definition poll_loop_step :: "poll_env \<Rightarrow> metrics_subsystem \<Rightarrow> metrics_subsystem" where
  "poll_loop_step env s =
    (if mx_poll_running s then s\<lparr>mx_collector := map_option (poll env) (mx_collector s)\<rparr> else s)"

definition apply_collector_metrics :: "metric_sample \<Rightarrow> metrics \<Rightarrow> metric_sample" where
  "apply_collector_metrics m latest = m\<lparr>ms_frame_drop_pct := mt_frame_drop_pct latest,
     ms_gpu_temp := mt_gpu_temp latest, ms_cpu_temp := mt_cpu_temp latest,
     ms_memory_pct := mt_memory_pct latest, ms_cpu_load := mt_cpu_load latest,
     ms_gpu_load := mt_gpu_load latest, ms_rtt_ms := mt_rtt_ms latest, ms_loss_pct := mt_loss_pct latest\<rparr>"

definition i64f :: "int \<Rightarrow> rat" where
  "i64f t = f32 (of_int t)"

definition fps_actual :: "int \<Rightarrow> int \<Rightarrow> rat" where
  "fps_actual freq delta =
    (if delta > 0 then (let v = f32 (i64f freq / i64f delta) in if v < 0 then 0 else if v > 240 then 240 else v)
     else 0)"

definition build_sample :: "u32 \<Rightarrow> u32 \<Rightarrow> int \<Rightarrow> int \<Rightarrow> (u64 \<times> u64) option \<Rightarrow> metrics_subsystem \<Rightarrow>
    metric_sample \<times> metrics_subsystem" where
  "build_sample bitrate drops start freq ptimes s =
    (let fps = fps_actual freq (start - mx_last_frame_ticks s) in
     (case cpu_sample ptimes (mx_cpu s) of (cpu, cm) \<Rightarrow>
       let m = \<lparr>ms_magic_head = RJ_METRIC_MAGIC, ms_magic_tail = RJ_METRIC_MAGIC,
             ms_timestamp_us = word_of_int (ticks_to_us start freq), ms_bitrate_kbps = bitrate,
             ms_fps_actual = fps, ms_cpu_percent = cpu, ms_frame_drops = drops,
             ms_frame_drop_pct = 0, ms_gpu_temp = 0, ms_cpu_temp = 0, ms_memory_pct = 0,
             ms_cpu_load = 0, ms_gpu_load = 0, ms_rtt_ms = 0, ms_loss_pct = 0, ms_source_id = 0\<rparr>
       in ((case mx_collector s of None \<Rightarrow> m | Some c \<Rightarrow> apply_collector_metrics m (cl_metrics c)),
           s\<lparr>mx_cpu := cm\<rparr>)))"

definition record_frame_start :: "int \<Rightarrow> metrics_subsystem \<Rightarrow> metrics_subsystem" where
  "record_frame_start start s = s\<lparr>mx_last_frame_ticks := start\<rparr>"

definition mx_record_frame :: "metrics_subsystem \<Rightarrow> metrics_subsystem" where
  "mx_record_frame s = s\<lparr>mx_collector := map_option record_frame (mx_collector s)\<rparr>"

definition mx_record_frame_drop :: "metrics_subsystem \<Rightarrow> metrics_subsystem" where
  "mx_record_frame_drop s = s\<lparr>mx_collector := map_option record_frame_drop (mx_collector s)\<rparr>"

section \<open>The exception filter\<close>

definition kSehAvWindowMs :: u64 where [model_defs]: "kSehAvWindowMs = 60000"
definition kSehAvThreshold :: u32 where [model_defs]: "kSehAvThreshold = 3"

definition EXCEPTION_ACCESS_VIOLATION :: u32 where [model_defs]: "EXCEPTION_ACCESS_VIOLATION = 0xC0000005"
definition EXCEPTION_STACK_OVERFLOW :: u32 where [model_defs]: "EXCEPTION_STACK_OVERFLOW = 0xC00000FD"
definition EXCEPTION_BREAKPOINT :: u32 where [model_defs]: "EXCEPTION_BREAKPOINT = 0x80000003"
definition EXCEPTION_SINGLE_STEP :: u32 where [model_defs]: "EXCEPTION_SINGLE_STEP = 0x80000004"

definition seh_is_passthrough :: "u32 \<Rightarrow> bool" where
  "seh_is_passthrough code \<longleftrightarrow> code = EXCEPTION_STACK_OVERFLOW \<or> code = EXCEPTION_BREAKPOINT
     \<or> code = EXCEPTION_SINGLE_STEP"

text \<open>Start of the window and count, of one site.\<close>

type_synonym av_site = "u64 \<times> u32"

definition seh_register_av :: "u64 \<Rightarrow> av_site \<Rightarrow> bool \<times> av_site" where
  "seh_register_av now s = (case s of (start, count) \<Rightarrow>
     if now - start > kSehAvWindowMs then (1 \<ge> kSehAvThreshold, now, 1)
     else (count + 1 \<ge> kSehAvThreshold, start, count + 1))"

datatype filter_result = ContinueSearch | ExecuteHandler

record seh_capture =
  sc_code :: u32
  sc_fired :: bool
  sc_escalate :: bool

definition seh_filter :: "u32 option \<Rightarrow> u64 \<Rightarrow> seh_capture \<times> av_site \<Rightarrow> filter_result \<times> seh_capture \<times> av_site" where
  "seh_filter rec now st = (case st of (cap, site) \<Rightarrow>
     let code = (case rec of Some c \<Rightarrow> c | None \<Rightarrow> 0) in
     if seh_is_passthrough code then (ContinueSearch, cap, site)
     else if code = EXCEPTION_ACCESS_VIOLATION then
       (case seh_register_av now site of (esc, site) \<Rightarrow>
          (ExecuteHandler, \<lparr>sc_code = code, sc_fired = True, sc_escalate = esc\<rparr>, site))
     else (ExecuteHandler, \<lparr>sc_code = code, sc_fired = True, sc_escalate = False\<rparr>, site))"

datatype report = Silent | ReportedError | FailedFast

definition seh_report :: "seh_capture \<Rightarrow> report" where
  "seh_report cap = (if \<not> sc_fired cap then Silent else if sc_escalate cap then FailedFast else ReportedError)"

text \<open>A sequence of access violations at one site, by their times.\<close>

fun av_run :: "u64 list \<Rightarrow> av_site \<Rightarrow> bool list \<times> av_site" where
  "av_run [] s = ([], s)"
| "av_run (t # ts) s = (case seh_register_av t s of (e, s') \<Rightarrow>
     (case av_run ts s' of (es, s'') \<Rightarrow> (e # es, s'')))"

section \<open>The drop window\<close>

text \<open>The deltas of all polls so far, oldest first, against the two rings.\<close>

definition ring_of :: "u32 list \<Rightarrow> u32 list \<Rightarrow> bool" where
  "ring_of ds ring \<longleftrightarrow> length ring = 30
     \<and> (\<forall>k < length ds. length ds \<le> k + 30 \<longrightarrow> ring ! (k mod 30) = ds ! k)"

definition last_window :: "'a list \<Rightarrow> 'a list" where
  "last_window ds = drop (length ds - 30) ds"

lemma ring_of_snoc:
  assumes "ring_of ds ring"
  shows "ring_of (ds @ [d]) (ring[length ds mod 30 := d])"
proof -
  have "ring[length ds mod 30 := d] ! (k mod 30) = (ds @ [d]) ! k"
    if k: "k < Suc (length ds)" "Suc (length ds) \<le> k + 30" for k
  proof (cases "k = length ds")
    case True
    with assms show ?thesis by (simp add: ring_of_def)
  next
    case False
    then have "k < length ds" using k(1) by simp
    moreover have "length ds mod 30 \<noteq> k mod 30"
    proof
      assume "length ds mod 30 = k mod 30"
      then have "30 dvd length ds - k" using \<open>k < length ds\<close> by (simp add: mod_eq_dvd_iff_nat)
      with \<open>k < length ds\<close> k(2) show False by (auto dest!: dvd_imp_le)
    qed
    ultimately show ?thesis using assms k by (simp add: ring_of_def nth_append)
  qed
  with assms show ?thesis by (simp add: ring_of_def)
qed

lemma ring_of_window:
  assumes "ring_of ds ring"
  shows "sum_list (take (min (length ds) 30) ring) = sum_list (last_window ds)"
proof -
  let ?n = "length ds"
  let ?m = "min ?n 30"
  let ?idx = "\<lambda>k. k mod (30 :: nat)"
  have len: "length ring = 30" using assms by (simp add: ring_of_def)
  have lw: "last_window ds = map (nth ds) [?n - 30..<?n]"
    by (rule nth_equalityI) (auto simp: last_window_def)
  have "sum_list (last_window ds) = (\<Sum>k\<in>{?n - 30..<?n}. ds ! k)"
    by (simp add: lw sum_list_distinct_conv_sum_set)
  also have "\<dots> = (\<Sum>k\<in>{?n - 30..<?n}. ring ! ?idx k)"
    using assms by (intro sum.cong) (auto simp: ring_of_def)
  also have "\<dots> = (\<Sum>i\<in>{0..<?m}. ring ! i)"
  proof (cases "?n \<le> 30")
    case True
    then have "?n - 30 = 0" "?m = ?n" by simp_all
    then show ?thesis using True by (intro sum.cong) auto
  next
    case False
    have inj: "inj_on ?idx {?n - 30..<?n}"
    proof (rule inj_onI)
      fix x y assume xy: "x \<in> {?n - 30..<?n}" "y \<in> {?n - 30..<?n}" "?idx x = ?idx y"
      define i where "i = x - (?n - 30)"
      define j where "j = y - (?n - 30)"
      have "x = ?n - 30 + i" "y = ?n - 30 + j" "i < 30" "j < 30"
        using xy False by (auto simp: i_def j_def)
      with xy(3) mod_add_inj[of "?n - 30" i 30 j] show "x = y" by simp
    qed
    have "?idx ` {?n - 30..<?n} = {0..<30}"
      by (rule card_subset_eq) (use False card_image[OF inj] in auto)
    then have "(\<Sum>k\<in>{?n - 30..<?n}. ring ! ?idx k) = (\<Sum>i\<in>{0..<30}. ring ! i)"
      using sum.reindex[OF inj, of "nth ring"] by simp
    then show ?thesis using False by simp
  qed
  also have "\<dots> = sum_list (take ?m ring)"
    using len by (simp add: sum_list_sum_nth)
  finally show ?thesis by simp
qed

definition window_inv :: "u32 list \<Rightarrow> u32 list \<Rightarrow> collector \<Rightarrow> bool" where
  "window_inv dds dfs c \<longleftrightarrow> length dfs = length dds \<and> cl_head c = length dds
     \<and> cl_count c = min (length dds) 30 \<and> ring_of dds (cl_drop_ring c) \<and> ring_of dfs (cl_frame_ring c)"

lemma window_inv_calculate:
  assumes "window_inv dds dfs c"
  shows "window_inv (dds @ [cl_total_drops c - cl_prev_drops c]) (dfs @ [cl_total_frames c - cl_prev_frames c])
      (calculate_frame_drop_pct c)"
    and "mt_frame_drop_pct (cl_metrics (calculate_frame_drop_pct c)) =
      (let td = sum_list (last_window (dds @ [cl_total_drops c - cl_prev_drops c]));
           tf = sum_list (last_window (dfs @ [cl_total_frames c - cl_prev_frames c]))
       in if tf > 0 then td * 100 div tf else 0)"
proof -
  let ?d = "cl_total_drops c - cl_prev_drops c"
  let ?f = "cl_total_frames c - cl_prev_frames c"
  have r: "ring_of (dds @ [?d]) ((cl_drop_ring c)[length dds mod 30 := ?d])"
    "ring_of (dfs @ [?f]) ((cl_frame_ring c)[length dds mod 30 := ?f])"
    using assms ring_of_snoc[of dds "cl_drop_ring c" ?d] ring_of_snoc[of dfs "cl_frame_ring c" ?f]
    by (simp_all add: window_inv_def)
  have m: "min (Suc (min (length dds) 30)) 30 = min (Suc (length dds)) 30" by simp
  show "window_inv (dds @ [?d]) (dfs @ [?f]) (calculate_frame_drop_pct c)"
    using assms r m by (simp add: calculate_frame_drop_pct_def window_inv_def WINDOW_def Let_def)
  show "mt_frame_drop_pct (cl_metrics (calculate_frame_drop_pct c)) =
      (let td = sum_list (last_window (dds @ [?d])); tf = sum_list (last_window (dfs @ [?f]))
       in if tf > 0 then td * 100 div tf else 0)"
    using assms ring_of_window[OF r(1)] ring_of_window[OF r(2)] m
    by (simp add: calculate_frame_drop_pct_def window_inv_def WINDOW_def Let_def)
qed

subsection \<open>Histories of the collector\<close>

datatype metric_event = EvFrame | EvDrop | EvPoll poll_env

fun metric_step :: "metric_event \<Rightarrow> collector \<Rightarrow> collector" where
  "metric_step EvFrame c = record_frame c"
| "metric_step EvDrop c = record_frame_drop c"
| "metric_step (EvPoll env) c = poll env c"

text \<open>The frames and drops counted since the last effective poll, and those of each interval before.\<close>

record history =
  hi_last :: int
  hi_frames :: u32
  hi_drops :: u32
  hi_dfs :: "u32 list"
  hi_dds :: "u32 list"

fun history_step :: "metric_event \<Rightarrow> history \<Rightarrow> history" where
  "history_step EvFrame h = h\<lparr>hi_frames := hi_frames h + 1\<rparr>"
| "history_step EvDrop h = h\<lparr>hi_drops := hi_drops h + 1\<rparr>"
| "history_step (EvPoll env) h = (if po_now env - hi_last h < 1000000 then h
     else h\<lparr>hi_last := po_now env, hi_frames := 0, hi_drops := 0,
            hi_dfs := hi_dfs h @ [hi_frames h], hi_dds := hi_dds h @ [hi_drops h]\<rparr>)"

definition history_new :: "int \<Rightarrow> history" where
  "history_new now = \<lparr>hi_last = now, hi_frames = 0, hi_drops = 0, hi_dfs = [], hi_dds = []\<rparr>"

definition drop_pct :: "history \<Rightarrow> u32" where
  "drop_pct h = (let td = sum_list (last_window (hi_dds h)); tf = sum_list (last_window (hi_dfs h))
     in if tf > 0 then td * 100 div tf else 0)"

definition collector_inv :: "history \<Rightarrow> collector \<Rightarrow> bool" where
  "collector_inv h c \<longleftrightarrow> window_inv (hi_dds h) (hi_dfs h) c
     \<and> cl_total_drops c - cl_prev_drops c = hi_drops h \<and> cl_total_frames c - cl_prev_frames c = hi_frames h
     \<and> cl_last_poll c = hi_last h \<and> mt_frame_drop_pct (cl_metrics c) = drop_pct h"

lemma window_inv_cong:
  "window_inv a b c \<Longrightarrow> cl_head c' = cl_head c \<Longrightarrow> cl_count c' = cl_count c \<Longrightarrow>
   cl_drop_ring c' = cl_drop_ring c \<Longrightarrow> cl_frame_ring c' = cl_frame_ring c \<Longrightarrow> window_inv a b c'"
  by (simp add: window_inv_def)

lemma collector_step_inv:
  assumes "collector_inv h c"
  shows "collector_inv (history_step e h) (metric_step e c)"
proof (cases e)
  case EvFrame
  with assms show ?thesis
    by (auto simp: collector_inv_def record_frame_def drop_pct_def algebra_simps elim: window_inv_cong)
next
  case EvDrop
  with assms show ?thesis
    by (auto simp: collector_inv_def record_frame_drop_def drop_pct_def algebra_simps elim: window_inv_cong)
next
  case (EvPoll env)
  show ?thesis
  proof (cases "po_now env - hi_last h < 1000000")
    case True
    with assms EvPoll show ?thesis by (simp add: collector_inv_def poll_def POLL_INTERVAL_US_def)
  next
    case False
    define c1 where "c1 = c\<lparr>cl_metrics := (cl_metrics c)\<lparr>mt_gpu_temp := query_temp, mt_cpu_temp := query_temp,
                mt_memory_pct := (case po_memory env of Some v \<Rightarrow> v | None \<Rightarrow> 0),
                mt_cpu_load := load_pct (po_cpu env), mt_gpu_load := query_gpu_load_pct (po_gpu env)\<rparr>\<rparr>"
    let ?c2 = "calculate_frame_drop_pct c1"
    have w: "window_inv (hi_dds h) (hi_dfs h) c1"
      and d: "cl_total_drops c1 - cl_prev_drops c1 = hi_drops h" "cl_total_frames c1 - cl_prev_frames c1 = hi_frames h"
      using assms by (auto simp: collector_inv_def c1_def elim: window_inv_cong)
    note calc = window_inv_calculate[OF w, unfolded d]
    have p: "poll env c = ?c2\<lparr>cl_metrics := (cl_metrics ?c2)\<lparr>mt_timestamp := po_now env\<rparr>, cl_last_poll := po_now env\<rparr>"
      using False assms by (simp add: poll_def POLL_INTERVAL_US_def collector_inv_def c1_def Let_def)
    have "cl_total_drops ?c2 = cl_prev_drops ?c2" "cl_total_frames ?c2 = cl_prev_frames ?c2"
      by (simp_all add: calculate_frame_drop_pct_def Let_def)
    with calc p EvPoll False show ?thesis
      by (auto simp: collector_inv_def drop_pct_def elim!: window_inv_cong)
  qed
qed

lemma collector_run_inv:
  "collector_inv h c \<Longrightarrow> collector_inv (fold history_step es h) (fold metric_step es c)"
  by (induction es arbitrary: h c) (simp_all add: collector_step_inv)


section \<open>Properties\<close>

text \<open>C32: The drop percentage is that of the last 30 polls: over any history of frames, drops and
  polls (those within a second of the last one are skipped), the published value is one hundred
  times the drops counted in the last 30 effective poll intervals divided by the frames counted in
  them, 0 without frames, in 32-bit arithmetic.\<close>

theorem drop_pct_is_last_30_polls:
  "mt_frame_drop_pct (cl_metrics (fold metric_step es (collector_new now))) =
     drop_pct (fold history_step es (history_new now))"
proof -
  have "collector_inv (history_new now) (collector_new now)"
    by (simp add: collector_inv_def history_new_def collector_new_def window_inv_def ring_of_def
        drop_pct_def last_window_def metrics_zero_def)
  from collector_run_inv[OF this] show ?thesis by (simp add: collector_inv_def)
qed

text \<open>The value is not a percentage in all cases: a drop is counted after its frame, so a poll in
  between moves it to the next interval, and once its frame has left the window there are more
  drops than frames.\<close>

lemma drop_pct_can_exceed_100:
  "drop_pct (history_new 0\<lparr>hi_dds := 0 # 2 # replicate 29 0, hi_dfs := 1 # 1 # replicate 29 0\<rparr>) = 200"
  by (simp add: drop_pct_def last_window_def history_new_def numeral_eq_Suc)

definition av_inv :: "u64 list \<Rightarrow> av_site \<Rightarrow> bool" where
  "av_inv ts s \<longleftrightarrow> unat (snd s) \<le> length (filter (\<lambda>u. unat (fst s) \<le> unat u) ts)
     \<and> (fst s = 0 \<or> fst s \<in> set ts)"

lemma length_filter_imp:
  "(\<And>x. P x \<Longrightarrow> Q x) \<Longrightarrow> length (filter P xs) \<le> length (filter Q xs)"
  by (induction xs) (auto simp: le_SucI)

lemma av_step:
  assumes "av_inv ts s" "\<forall>u \<in> set ts. unat u \<le> unat t"
  shows "av_inv (ts @ [t]) (snd (seh_register_av t s))"
    and "fst (seh_register_av t s) \<Longrightarrow> 3 \<le> length (filter (\<lambda>u. unat t - unat u \<le> 60000) (ts @ [t]))"
proof -
  obtain start count where s: "s = (start, count)" by fastforce
  have st: "unat start \<le> unat t" using assms s by (auto simp: av_inv_def)
  then have d: "unat (t - start) = unat t - unat start" by (simp add: unat_sub word_le_nat_alt)
  have c1: "unat (count + 1) \<le> Suc (unat count)" by (simp add: unat_word_ariths)
  have cnt: "unat count \<le> length (filter (\<lambda>u. unat start \<le> unat u) ts)"
    using assms(1) s by (simp add: av_inv_def)
  show "av_inv (ts @ [t]) (snd (seh_register_av t s))"
    using s st cnt c1 assms(1) by (auto simp: seh_register_av_def av_inv_def)
  assume e: "fst (seh_register_av t s)"
  have w: "\<not> t - start > 60000" and c3: "count + 1 \<ge> 3"
    using e s by (auto simp: seh_register_av_def model_defs word_le_nat_alt split: if_splits)
  have in_window: "unat t - unat start \<le> 60000" using w d by (simp add: word_less_nat_alt not_less)
  have "length (filter (\<lambda>u. unat start \<le> unat u) ts) \<le> length (filter (\<lambda>u. unat t - unat u \<le> 60000) ts)"
    using in_window by (intro length_filter_imp) auto
  moreover have "3 \<le> unat (count + 1)" using c3 by (simp add: word_le_nat_alt)
  ultimately show "3 \<le> length (filter (\<lambda>u. unat t - unat u \<le> 60000) (ts @ [t]))"
    using cnt c1 by simp
qed


lemma av_run_snoc_state: "snd (av_run (ts @ [t]) s) = snd (seh_register_av t (snd (av_run ts s)))"
  by (induction ts arbitrary: s) (simp_all add: case_prod_beta)

lemma av_run_inv: "sorted (map unat ts) \<Longrightarrow> av_inv ts (snd (av_run ts (0, 0)))"
proof (induction ts rule: rev_induct)
  case (snoc t ts)
  then have "av_inv ts (snd (av_run ts (0, 0)))" "\<forall>u \<in> set ts. unat u \<le> unat t"
    by (auto simp: sorted_append)
  from av_step(1)[OF this] show ?case by (simp add: av_run_snoc_state)
qed (simp add: av_inv_def)

text \<open>The escalation valve never ends the process without cause: with a clock that does not run
  backwards, it fires at an access violation only if this site has had at least three of them,
  this one included, within the last 60 seconds.\<close>

theorem seh_escalation_sound:
  assumes "sorted (map unat (ts @ [t]))" and "fst (seh_register_av t (snd (av_run ts (0, 0))))"
  shows "3 \<le> length (filter (\<lambda>u. unat t - unat u \<le> 60000) (ts @ [t]))"
  using av_step(2)[OF av_run_inv _ assms(2)] assms(1) by (simp add: sorted_append)

lemma seh_escalation_sound_witness:
  "3 \<le> length (filter (\<lambda>u. unat (150000 :: u64) - unat u \<le> 60000) [100000, 120000, 150000 :: u64])"
  using seh_escalation_sound[of "[100000, 120000]" 150000]
  by (simp add: seh_register_av_def model_defs word_le_nat_alt)

text \<open>The converse does not hold: the window is fixed, it starts at the first violation after the
  previous window ran out. Three violations within two seconds go unnoticed when a window ends
  between them.\<close>

lemma seh_escalation_incomplete:
  "fst (av_run [100000, 159900, 160100, 160900] (0, 0)) = [False, False, False, False]"
  by (simp add: seh_register_av_def model_defs word_le_nat_alt)

end
