(* ===== verification/Samples.thy ===== *)
theory Samples
  imports Float32
begin

text \<open>
  Audio samples: the bit patterns of single precision floats, the conversion of device formats to
  float (\<open>WasapiCapture::convert_to_float\<close>, \<open>src/src/pipeline/audio/wasapi_capture.cpp\<close>) and of
  float to 16-bit PCM (\<open>audio/pcm_convert.h\<close>). The properties show that 16-bit audio passes
  through the float path of the program unchanged. Infinities, NaN and subnormal results are
  outside this model.
\<close>

section \<open>Exactly representable numbers\<close>

lemma pow2_add: "pow2 (a + b) = pow2 a * pow2 b"
proof -
  have nat: "pow2 (a + int k) = pow2 a * 2 ^ k" for a k
  proof (induction k)
    case (Suc k)
    have "pow2 (a + int (Suc k)) = 2 * pow2 (a + int k)"
      using pow2_add1[of "a + int k"] by (simp add: algebra_simps)
    then show ?case using Suc by simp
  qed simp
  show ?thesis
  proof (cases "0 \<le> b")
    case True
    then show ?thesis using nat[of a "nat b"] by (simp add: pow2_def)
  next
    case False
    have "pow2 a = pow2 (a + b) * 2 ^ nat (- b)" using nat[of "a + b" "nat (- b)"] False by simp
    then show ?thesis using False by (simp add: pow2_def[of b])
  qed
qed

lemma pow2_less_iff: "pow2 a < pow2 b \<longleftrightarrow> a < b"
proof -
  have mono: "pow2 a < pow2 b" if "a < b" for a b
  proof -
    have "pow2 b = pow2 a * 2 ^ nat (b - a)" using that pow2_add[of a "b - a"] by (simp add: pow2_def[of "b - a"])
    moreover have "(1 :: rat) < 2 ^ nat (b - a)" using that by simp
    ultimately show ?thesis by (metis mult.right_neutral mult_less_cancel_left_pos pow2_pos)
  qed
  show ?thesis using mono[of a b] mono[of b a] by (metis linorder_neqE_linordered_idom not_less_iff_gr_or_eq)
qed

lemma abs_pow2 [simp]: "\<bar>pow2 e\<bar> = pow2 e"
  using pow2_pos[of e] by linarith

lemma pow2_numerals [simp]: "pow2 0 = 1" "pow2 (-15) = 1 / 32768" "pow2 (-31) = 1 / 2147483648" "pow2 15 = 32768"
  by (simp_all add: pow2_def)

lemma expo_unique:
  assumes "pow2 e \<le> x" "x < 2 * pow2 e"
  shows "expo x = e"
proof -
  have "0 < x" using assms(1) pow2_pos[of e] by linarith
  note b = expo_bounds[OF this]
  have "pow2 (expo x) < pow2 (e + 1)" "pow2 e < pow2 (expo x + 1)"
    using assms b by (simp_all add: pow2_add1)
  then show ?thesis by (simp add: pow2_less_iff)
qed

lemma expo_of_scaled:
  assumes "0 < m" "m < 2 ^ 24"
  shows "expo (of_int m * pow2 e) \<le> 23 + e"
proof -
  have "(of_int m :: rat) < 2 ^ 24" using of_int_less_iff[where 'a = rat, THEN iffD2, OF assms(2)] by simp
  then have "of_int m * pow2 e < 2 ^ 24 * pow2 e" by simp
  also have "2 ^ 24 * pow2 e = pow2 (24 + e)" using pow2_add[of 24 e] by (simp add: pow2_def[of 24])
  finally have "pow2 (expo (of_int m * pow2 e)) < pow2 (24 + e)"
    using expo_bounds(1)[of "of_int m * pow2 e"] assms(1) by simp
  then show ?thesis by (simp add: pow2_less_iff)
qed

text \<open>The significand of a scaled 24-bit integer is an integer.\<close>

lemma scaled_significand:
  fixes m e :: int
  assumes "0 < m" "m < 2 ^ 24"
  defines "x \<equiv> of_int m * pow2 e"
  shows "x / pow2 (expo x - 23) = of_int (m * 2 ^ nat (23 + e - expo x))"
proof -
  have "0 \<le> 23 + e - expo x" using expo_of_scaled[OF assms(1,2), of e] by (simp add: x_def)
  then have "pow2 (e - (expo x - 23)) = 2 ^ nat (23 + e - expo x)" by (simp add: pow2_def)
  moreover have "pow2 e / pow2 (expo x - 23) = pow2 (e - (expo x - 23))"
    using pow2_add[of "e - (expo x - 23)" "expo x - 23"]
    by (metis diff_add_cancel nonzero_mult_div_cancel_right pow2_neq_0)
  ultimately show ?thesis by (simp add: x_def times_divide_eq_right[symmetric] del: times_divide_eq_right)
qed

lemma f32_scaled_exact:
  assumes "\<bar>m\<bar> < 2 ^ 24"
  shows "f32 (of_int m * pow2 e) = of_int m * pow2 e"
proof -
  have pos: "f32_pos (of_int k * pow2 e) = of_int k * pow2 e" if "0 < k" "k < 2 ^ 24" for k
  proof -
    let ?x = "of_int k * pow2 e" let ?u = "pow2 (expo ?x - 23)"
    have "f32_pos ?x = ?x / ?u * ?u"
      by (simp only: f32_pos_def scaled_significand[OF that] round_half_even_of_int)
    also have "\<dots> = ?x" by simp
    finally show ?thesis .
  qed
  show ?thesis
  proof (cases "m < 0")
    case True
    then have "f32_pos (- (of_int m * pow2 e)) = - (of_int m * pow2 e)"
      using pos[of "- m"] assms by simp
    moreover have "of_int m * pow2 e < 0" using True by (simp add: mult_neg_pos)
    ultimately show ?thesis by (simp add: f32_def)
  next
    case False
    show ?thesis
    proof (cases "m = 0")
      case False
      with \<open>\<not> m < 0\<close> show ?thesis using pos[of m] assms by (simp add: f32_def)
    qed simp
  qed
qed

section \<open>Bit patterns\<close>

definition float_val :: "u32 \<Rightarrow> rat" where
  "float_val w =
    (let n = unat w; e = n div 2 ^ 23 mod 256; m = n mod 2 ^ 23;
         v = (if e = 0 then of_nat m * pow2 (-149) else of_nat (2 ^ 23 + m) * pow2 (int e - 150))
     in if 2 ^ 31 \<le> n then - v else v)"

definition f32_bits :: "rat \<Rightarrow> u32" where
  "f32_bits x =
    (if x = 0 then 0
     else let e = expo \<bar>x\<bar>; m = nat \<lfloor>\<bar>x\<bar> / pow2 (e - 23)\<rfloor>
          in word_of_nat ((if x < 0 then 2 ^ 31 else 0) + nat (e + 127) * 2 ^ 23 + (m - 2 ^ 23)))"

lemma significand_bounds:
  fixes m e :: int
  assumes "0 < m" "m < 2 ^ 24"
  defines "x \<equiv> of_int m * pow2 e"
  shows "2 ^ 23 \<le> m * 2 ^ nat (23 + e - expo x)" "m * 2 ^ nat (23 + e - expo x) < 2 ^ 24"
proof -
  have "0 < x" using assms(1) by (simp add: x_def)
  note b = expo_bounds[OF this]
  have p: "pow2 (expo x) = 2 ^ 23 * pow2 (expo x - 23)"
    using pow2_add[of 23 "expo x - 23"] by (simp add: pow2_def)
  have u: "0 < pow2 (expo x - 23)" by simp
  have "(2 :: rat) ^ 23 \<le> x / pow2 (expo x - 23)" "x / pow2 (expo x - 23) < 2 ^ 24"
    using b p by (simp_all add: pos_le_divide_eq[OF u] pos_divide_less_eq[OF u])
  define N where "N = m * 2 ^ nat (23 + e - expo x)"
  have "(2 :: rat) ^ 23 \<le> of_int N" "of_int N < (2 :: rat) ^ 24"
    using \<open>2 ^ 23 \<le> x / pow2 (expo x - 23)\<close> \<open>x / pow2 (expo x - 23) < 2 ^ 24\<close>
    unfolding N_def x_def scaled_significand[OF assms(1,2)] by blast+
  then show "2 ^ 23 \<le> m * 2 ^ nat (23 + e - expo x)" "m * 2 ^ nat (23 + e - expo x) < 2 ^ 24"
    unfolding N_def[symmetric] by simp_all
qed

lemma float_val_pattern:
  assumes "e \<noteq> 0" "e < 256" "m < 2 ^ 23"
  shows "float_val (word_of_nat ((if neg then 2 ^ 31 else 0) + e * 2 ^ 23 + m)) =
    (if neg then - (of_nat (2 ^ 23 + m) * pow2 (int e - 150)) else of_nat (2 ^ 23 + m) * pow2 (int e - 150))"
proof -
  define b :: nat where "b = (if neg then 1 else 0)"
  define D :: nat where "D = 2 ^ 23"
  define n where "n = (if neg then 2 ^ 31 else 0) + e * 2 ^ 23 + m"
  have n: "n = (b * 256 + e) * D + m" by (simp add: n_def b_def D_def algebra_simps)
  have mD: "m < D" using assms(3) by (simp add: D_def)
  have "n div D = b * 256 + e" "n mod D = m" using mD by (simp_all add: n)
  moreover have "(b * 256 + e) mod 256 = e" using assms(2) by (simp add: b_def)
  moreover have "n < 2 ^ 32" "2 ^ 31 \<le> n \<longleftrightarrow> neg" using assms by (auto simp: n_def)
  moreover from this have "unat (word_of_nat n :: u32) = n"
    by (simp add: unsigned_of_nat take_bit_nat_eq_self)
  ultimately show ?thesis
    using assms(1) unfolding n_def[symmetric] by (simp only: float_val_def Let_def D_def if_False)
qed

text \<open>Encoding a representable number loses nothing.\<close>

lemma float_val_f32_bits:
  fixes m e :: int
  assumes "\<bar>m\<bar> < 2 ^ 24" and x: "x = of_int m * pow2 e"
    and range: "x \<noteq> 0 \<longrightarrow> -127 < expo \<bar>x\<bar> \<and> expo \<bar>x\<bar> < 128"
  shows "float_val (f32_bits x) = x"
proof (cases "m = 0")
  case False
  have ax: "\<bar>x\<bar> = of_int \<bar>m\<bar> * pow2 e" using x by (simp add: abs_mult)
  have am: "0 < \<bar>m\<bar>" using False by simp
  define y where "y = \<bar>x\<bar>"
  define s where "s = nat (\<bar>m\<bar> * 2 ^ nat (23 + e - expo y))"
  have y: "y = of_int \<bar>m\<bar> * pow2 e" using ax by (simp add: y_def)
  have ys: "y / pow2 (expo y - 23) = of_nat s"
    unfolding s_def y using scaled_significand[OF am assms(1), of e] am by simp
  have sb: "2 ^ 23 \<le> s" "s < 2 ^ 24"
    using significand_bounds[OF am assms(1), of e] unfolding s_def y[symmetric] by simp_all
  have x0: "x \<noteq> 0" using x False by simp
  have er: "-127 < expo y" "expo y < 128" using range x0 by (simp_all add: y_def)
  have bits: "f32_bits x = word_of_nat ((if x < 0 then 2 ^ 31 else 0) + nat (expo y + 127) * 2 ^ 23 + (s - 2 ^ 23))"
    using x0 ys by (simp add: f32_bits_def y_def[symmetric] Let_def)
  have "float_val (f32_bits x) = (if x < 0 then - (of_nat (2 ^ 23 + (s - 2 ^ 23)) * pow2 (int (nat (expo y + 127)) - 150))
      else of_nat (2 ^ 23 + (s - 2 ^ 23)) * pow2 (int (nat (expo y + 127)) - 150))"
    unfolding bits by (rule float_val_pattern) (use er sb in auto)
  moreover have "of_nat (2 ^ 23 + (s - 2 ^ 23)) * pow2 (int (nat (expo y + 127)) - 150) = y"
    using ys sb(1) er by (simp add: field_simps)
  ultimately show ?thesis by (simp add: y_def abs_if split: if_splits)
qed (simp add: x f32_bits_def float_val_def)

section \<open>Conversions\<close>

text \<open>The device formats: one sample of 16 or 32-bit PCM times the reciprocal of full scale.\<close>

definition pcm16_to_float :: "16 word \<Rightarrow> u32" where
  "pcm16_to_float s = f32_bits (f32 (f32 (of_int (sint s)) * f32 (1 / 32768)))"

definition pcm32_to_float :: "32 word \<Rightarrow> u32" where
  "pcm32_to_float s = f32_bits (f32 (f32 (of_int (sint s)) * f32 (1 / 2147483648)))"

text \<open>\<open>lroundf\<close>: to nearest, halves away from zero.\<close>

definition lroundf :: "rat \<Rightarrow> int" where
  "lroundf x = (if 0 \<le> x then \<lfloor>x + 1 / 2\<rfloor> else - \<lfloor>- x + 1 / 2\<rfloor>)"

definition float_to_s16 :: "u32 \<Rightarrow> int" where
  "float_to_s16 w = max (-32768) (min 32767 (lroundf (f32 (float_val w * 32768))))"

lemma lroundf_of_int [simp]: "lroundf (of_int k) = k"
  by (auto simp: lroundf_def floor_eq_iff)

lemma sint16_bounds: "-32768 \<le> sint (s :: 16 word)" "sint s \<le> 32767"
  using sint_ge[of s] sint_lt[of s] by simp_all

lemma expo_16bit:
  assumes "k \<noteq> 0" "\<bar>k\<bar> \<le> 2 ^ 15"
  shows "-127 < expo \<bar>of_int k * pow2 (-15)\<bar> \<and> expo \<bar>of_int k * pow2 (-15)\<bar> < 128"
proof -
  let ?y = "of_int \<bar>k\<bar> * pow2 (-15) :: rat"
  have y: "0 < ?y" using assms(1) by simp
  have "(of_int \<bar>k\<bar> :: rat) \<le> 2 ^ 15" using of_int_le_iff[where 'a = rat, THEN iffD2, OF assms(2)] by simp
  then have "?y \<le> 1" by simp
  then have "pow2 (expo ?y) < pow2 1" using expo_bounds(1)[OF y] by (simp add: pow2_def)
  then have up: "expo ?y < 1" by (simp only: pow2_less_iff)
  have "1 \<le> \<bar>k\<bar>" using assms(1) by simp
  then have "(1 :: rat) \<le> of_int \<bar>k\<bar>" using of_int_le_iff[of 1, where 'a = rat] by simp
  then have "pow2 (-15) \<le> ?y" by simp
  then have "pow2 (-15) < pow2 (expo ?y + 1)" using expo_bounds(2)[OF y] by (simp add: pow2_add1)
  then have "-15 < expo ?y + 1" by (simp only: pow2_less_iff)
  with up show ?thesis by (simp add: abs_mult)
qed

lemma pcm16_value:
  assumes "k = sint s"
  shows "float_val (pcm16_to_float s) = of_int k / 32768"
proof -
  have k: "\<bar>k\<bar> \<le> 2 ^ 15" "\<bar>k\<bar> < 2 ^ 24" using sint16_bounds[of s] assms by auto
  have "f32 (of_int k) = of_int k" using f32_scaled_exact[OF k(2), of 0] by simp
  moreover have "f32 (1 / 32768) = 1 / 32768" using f32_scaled_exact[of 1 "-15"] by simp
  moreover have "f32 (of_int k * (1 / 32768)) = of_int k * pow2 (-15)"
    using f32_scaled_exact[OF k(2), of "-15"] by simp
  ultimately have b: "pcm16_to_float s = f32_bits (of_int k * pow2 (-15))"
    unfolding pcm16_to_float_def assms[symmetric] by (simp only:)
  show ?thesis
    unfolding b by (subst float_val_f32_bits[OF k(2) refl]) (use expo_16bit[OF _ k(1)] in auto)
qed

section \<open>Properties\<close>

text \<open>C38: 16-bit audio survives the float path: a 16-bit device sample, converted to float by the
  capture and back to 16 bits by the encoder, is the same sample, for all 65536 of them.\<close>

theorem pcm16_roundtrip: "float_to_s16 (pcm16_to_float s) = sint s"
proof -
  define k where "k = sint s"
  have "\<bar>k\<bar> < 2 ^ 24" "-32768 \<le> k" "k \<le> 32767" using sint16_bounds[of s] by (auto simp: k_def)
  then have "f32 (of_int k) = of_int k" using f32_scaled_exact[of k 0] by simp
  then show ?thesis
    unfolding k_def[symmetric] using \<open>-32768 \<le> k\<close> \<open>k \<le> 32767\<close>
    by (simp add: float_to_s16_def pcm16_value[OF k_def])
qed

text \<open>The result always fits 16 bits; full scale and beyond saturates instead of wrapping.\<close>

lemma float_to_s16_range: "-32768 \<le> float_to_s16 w \<and> float_to_s16 w \<le> 32767"
  by (simp add: float_to_s16_def)

lemma float_to_s16_saturates: "float_to_s16 0x3F800000 = 32767" "float_to_s16 0xBF800000 = -32768"
proof -
  have "float_val 0x3F800000 = 1" "float_val 0xBF800000 = -1" by (simp_all add: float_val_def pow2_def)
  moreover have "f32 32768 = 32768" using f32_scaled_exact[of 32768 0] by simp
  moreover have "f32 (- 32768) = - 32768" using f32_scaled_exact[of "-32768" 0] by simp
  ultimately show "float_to_s16 0x3F800000 = 32767" "float_to_s16 0xBF800000 = -32768"
    using lroundf_of_int[of 32768] lroundf_of_int[of "-32768"] by (simp_all add: float_to_s16_def)
qed

end
