(* ===== verification/AacEncoder.thy ===== *)
theory AacEncoder
  imports Samples Resources "HOL-Library.Signed_Division"
begin

text \<open>
  Under \<open>src/src/pipeline/audio\<close>: the wire formats \<open>aac_config.h\<close> and
  \<open>flv_audio_tag.h\<close>, the decisions of \<open>av_sync.h\<close>, \<open>format_gate.h\<close> and
  \<open>asc_state.h\<close>, and the encoder \<open>aac_encoder.cpp\<close> around the Media Foundation
  transform, whose answers are inputs. What the encoder acquires and gives back and the samples
  the transform accepted are recorded in a trace.
\<close>

unbundle bit_operations_syntax

section \<open>Wire formats and small decisions\<close>

definition sampling_frequency_index :: "u32 \<Rightarrow> int" where
  "sampling_frequency_index sample_rate =
    (if sample_rate = 96000 then 0
     else if sample_rate = 88200 then 1
     else if sample_rate = 64000 then 2
     else if sample_rate = 48000 then 3
     else if sample_rate = 44100 then 4
     else if sample_rate = 32000 then 5
     else if sample_rate = 24000 then 6
     else if sample_rate = 22050 then 7
     else if sample_rate = 16000 then 8
     else if sample_rate = 12000 then 9
     else if sample_rate = 11025 then 10
     else if sample_rate = 8000 then 11
     else if sample_rate = 7350 then 12
     else -1)"

definition kAacLcObjectType :: u32 where [model_defs]: "kAacLcObjectType = 2"

definition make_audio_specific_config :: "u32 \<Rightarrow> u32 \<Rightarrow> (u8 \<times> u8) option" where
  "make_audio_specific_config sample_rate channels =
    (let freq = sampling_frequency_index sample_rate in
     if freq < 0 then None
     else if channels < 1 \<or> channels > 7 then None
     else
       let bits = (ucast (push_bit 11 kAacLcObjectType OR push_bit 7 (word_of_int freq :: u32)
                     OR push_bit 3 channels) :: u16)
       in Some (ucast (drop_bit 8 bits), ucast (bits AND 0xFF)))"

datatype aac_packet_type = SequenceHeader | RawPacket

definition flv_aac_audio_header :: "aac_packet_type \<Rightarrow> u8 \<times> u8" where
  "flv_aac_audio_header t = (0xAF, case t of SequenceHeader \<Rightarrow> 0 | RawPacket \<Rightarrow> 1)"

definition kAvDriftWarnThresholdMs :: int where [model_defs]: "kAvDriftWarnThresholdMs = 200"
definition kAvDriftWarnPeriodMs :: int where [model_defs]: "kAvDriftWarnPeriodMs = 1000"

text \<open>\<open>None\<close> is the sentinel \<open>kNoPriorWarn\<close>.\<close>

definition should_warn_av_drift :: "int \<Rightarrow> int \<Rightarrow> int option \<Rightarrow> bool" where
  "should_warn_av_drift drift_ms now_ms last_warn_ms =
    (let magnitude = (if drift_ms < 0 then - drift_ms else drift_ms) in
     if magnitude \<le> kAvDriftWarnThresholdMs then False
     else case last_warn_ms of None \<Rightarrow> True | Some l \<Rightarrow> now_ms - l \<ge> kAvDriftWarnPeriodMs)"

definition rebase_audio_pts :: "int \<Rightarrow> int \<Rightarrow> int" where
  "rebase_audio_pts audio_pts_us origin_us =
    (let rebased = audio_pts_us - origin_us in if rebased > 0 then rebased else 0)"

definition format_matches :: "u32 \<Rightarrow> u32 \<Rightarrow> u32 \<Rightarrow> u32 \<Rightarrow> bool" where
  "format_matches ch sr cfg_ch cfg_sr \<longleftrightarrow> ch = cfg_ch \<and> sr = cfg_sr"

definition asc_retry_needed :: "bool \<Rightarrow> bool \<Rightarrow> bool" where
  "asc_retry_needed encoder_ready asc_sent \<longleftrightarrow> encoder_ready \<and> \<not> asc_sent"

section \<open>The AAC encoder\<close>

definition us_to_hns :: "int \<Rightarrow> int" where "us_to_hns us = us * 10"
definition hns_to_us :: "int \<Rightarrow> int" where "hns_to_us hns = hns sdiv 10"
definition kMinOutputBuffer :: u32 where [model_defs]: "kMinOutputBuffer = 8192"

record aac_config =
  ac_sample_rate :: u32
  ac_channels :: u32
  ac_bitrate_bps :: u32

text \<open>The calls recorded: pairs of acquisition and release, the media types and the samples the
  transform accepted (PCM, time and duration in 100 ns).\<close>

datatype aac_call =
    MFStarted | MFStopped | MftCreated | MftReleased | SampleProvided | SampleReleased
  | OutputType u32 u32 u32
  | InputType u32 u32 u32 u32
  | Input "int list" int int
  | BeginStreaming | StartOfStream | EndOfStream | DrainMessage | EndStreaming

record aac =
  aa_mft :: bool
  aa_sink :: bool
  aa_cfg :: aac_config
  aa_asc :: "u8 list"
  aa_mf_started :: bool
  aa_initialized :: bool
  aa_in_id :: u32
  aa_out_id :: u32
  aa_provides :: bool
  aa_out_size :: u32
  aa_trace :: "aac_call list"

definition aac_new :: aac where
  "aac_new = \<lparr>aa_mft = False, aa_sink = False,
     aa_cfg = \<lparr>ac_sample_rate = 0, ac_channels = 0, ac_bitrate_bps = 0\<rparr>, aa_asc = [],
     aa_mf_started = False, aa_initialized = False, aa_in_id = 0, aa_out_id = 0,
     aa_provides = False, aa_out_size = 0, aa_trace = []\<rparr>"

definition aac_emit :: "aac_call \<Rightarrow> aac \<Rightarrow> aac" where
  "aac_emit c a = a\<lparr>aa_trace := aa_trace a @ [c]\<rparr>"

definition aac_shutdown :: "aac \<Rightarrow> aac" where
  "aac_shutdown a =
    (let a1 = (if aa_mft a then aac_emit MftReleased (aac_emit EndStreaming (a\<lparr>aa_mft := False\<rparr>)) else a);
         a2 = (if aa_mf_started a1 then aac_emit MFStopped (a1\<lparr>aa_mf_started := False\<rparr>) else a1)
     in a2\<lparr>aa_initialized := False, aa_sink := False\<rparr>)"

record aac_init_env =
  ai_startup :: bool
  ai_create :: bool
  ai_stream_ids :: "(u32 \<times> u32) option"
  ai_out_type :: bool
  ai_in_type :: bool
  ai_stream_info :: "(bool \<times> u32) option"
  ai_begin :: bool
  ai_start :: bool

text \<open>The media types; \<open>ok\<close> answers for the creation, the attributes and the setter.\<close>

definition set_output_type :: "bool \<Rightarrow> aac \<Rightarrow> bool \<times> aac" where
  "set_output_type ok a = (ok, if ok then aac_emit (OutputType (ac_sample_rate (aa_cfg a))
      (ac_channels (aa_cfg a)) (ac_bitrate_bps (aa_cfg a) div 8)) a else a)"

definition set_input_type :: "bool \<Rightarrow> aac \<Rightarrow> bool \<times> aac" where
  "set_input_type ok a =
    (let block_align = ac_channels (aa_cfg a) * 2; avg_bytes = ac_sample_rate (aa_cfg a) * block_align
     in (ok, if ok then aac_emit (InputType (ac_sample_rate (aa_cfg a)) (ac_channels (aa_cfg a))
          block_align avg_bytes) a else a))"

text \<open>The steps of \<open>init\<close> after the validation; the first failure ends in \<open>shutdown\<close>.\<close>

definition aac_init_steps :: "aac_init_env \<Rightarrow> aac \<Rightarrow> bool \<times> aac" where
  "aac_init_steps env a =
    (if \<not> ai_startup env then (False, a)
     else let a = aac_emit MFStarted (a\<lparr>aa_mf_started := True\<rparr>) in
       if \<not> ai_create env then (False, a)
       else let a = aac_emit MftCreated (a\<lparr>aa_mft := True\<rparr>);
                a = (case ai_stream_ids env of None \<Rightarrow> a | Some (i, j) \<Rightarrow> a\<lparr>aa_in_id := i, aa_out_id := j\<rparr>)
            in seq_ok (seq_ok (set_output_type (ai_out_type env) a) (set_input_type (ai_in_type env)))
                 (\<lambda>a. case ai_stream_info env of
                    None \<Rightarrow> (False, a)
                  | Some (provides, cb_size) \<Rightarrow>
                      let a = a\<lparr>aa_provides := provides, aa_out_size := if cb_size > 0 then cb_size else kMinOutputBuffer\<rparr>
                      in if \<not> ai_begin env then (False, a)
                         else let a = aac_emit BeginStreaming a in
                           if \<not> ai_start env then (False, a)
                           else (True, (aac_emit StartOfStream a)\<lparr>aa_initialized := True\<rparr>)))"

definition aac_init :: "aac_config \<Rightarrow> bool \<Rightarrow> aac_init_env \<Rightarrow> aac \<Rightarrow> bool \<times> aac" where
  "aac_init cfg cb env a =
    (if aa_initialized a then (False, a)
     else if \<not> cb then (False, a)
     else if ac_channels cfg < 1 \<or> ac_channels cfg > 2 then (False, a)
     else if ac_sample_rate cfg \<noteq> 48000 \<and> ac_sample_rate cfg \<noteq> 44100 then (False, a)
     else
       let a = a\<lparr>aa_cfg := cfg, aa_sink := cb\<rparr> in
       case make_audio_specific_config (ac_sample_rate cfg) (ac_channels cfg) of
         None \<Rightarrow> (False, a)
       | Some (b0, b1) \<Rightarrow>
           (case aac_init_steps env (a\<lparr>aa_asc := [b0, b1]\<rparr>) of (ok, a) \<Rightarrow>
              if ok then (True, a) else (False, aac_shutdown a)))"

text \<open>One turn of the output loop: whether the caller's sample could be allocated, and what
  \<open>ProcessOutput\<close> answers. The flag tells whether the transform set \<open>pSample\<close>; a
  produced sample is its bytes and time where the buffer can be locked.\<close>

datatype mft_output = NeedInput bool | OutputFailed bool | Produced bool "(u8 list \<times> int) option"

definition provided_calls :: "bool \<Rightarrow> aac \<Rightarrow> aac" where
  "provided_calls set_sample a =
    (if aa_provides a \<and> set_sample then aac_emit SampleReleased (aac_emit SampleProvided a) else a)"

text \<open>The frames given to the sink, and whether the loop returned; \<open>None\<close>: it is still running.\<close>

fun drain_outputs :: "(bool \<times> mft_output) list \<Rightarrow> aac \<Rightarrow> bool option \<times> (u8 list \<times> int) list \<times> aac" where
  "drain_outputs [] a = (None, [], a)"
| "drain_outputs ((alloc_ok, r) # rs) a =
    (if \<not> aa_provides a \<and> \<not> alloc_ok then (Some False, [], a)
     else case r of
       NeedInput p \<Rightarrow> (Some True, [], provided_calls p a)
     | OutputFailed p \<Rightarrow> (Some False, [], provided_calls p a)
     | Produced p x \<Rightarrow>
         (case drain_outputs rs (provided_calls p a) of (ret, fs, a') \<Rightarrow>
           (ret, (if aa_provides a \<and> \<not> p then fs
                  else case x of Some (bytes, t) \<Rightarrow>
                         if bytes \<noteq> [] \<and> aa_sink a then (bytes, hns_to_us t) # fs else fs
                       | None \<Rightarrow> fs), a')))"

datatype input_answer = Accepted | NotAccepting | Refused

record feed_env =
  fe_sample_ok :: bool
  fe_input :: input_answer
  fe_drain :: "(bool \<times> mft_output) list"
  fe_input2 :: input_answer

definition accept_input :: "int list \<Rightarrow> int \<Rightarrow> int \<Rightarrow> aac \<Rightarrow> aac" where
  "accept_input pcm t d a = aac_emit (Input pcm t d) a"

definition feed_pcm :: "int list \<Rightarrow> u32 \<Rightarrow> int \<Rightarrow> feed_env \<Rightarrow> aac \<Rightarrow>
    bool option \<times> (u8 list \<times> int) list \<times> aac" where
  "feed_pcm pcm sample_count pts_us env a =
    (if \<not> fe_sample_ok env then (Some False, [], a)
     else
       let frames = sample_count div ac_channels (aa_cfg a);
           t = us_to_hns pts_us;
           d = uint frames * 10000000 div uint (ac_sample_rate (aa_cfg a))
       in case fe_input env of
            Accepted \<Rightarrow> (Some True, [], accept_input pcm t d a)
          | Refused \<Rightarrow> (Some False, [], a)
          | NotAccepting \<Rightarrow>
              (case drain_outputs (fe_drain env) a of (ret, fs, a) \<Rightarrow>
                 if ret \<noteq> Some True then (ret, fs, a)
                 else (case fe_input2 env of
                     Accepted \<Rightarrow> (Some True, fs, accept_input pcm t d a)
                   | _ \<Rightarrow> (Some False, fs, a))))"

definition aac_encode :: "u32 list option \<Rightarrow> u32 \<Rightarrow> int \<Rightarrow> feed_env \<Rightarrow> (bool \<times> mft_output) list \<Rightarrow> aac \<Rightarrow>
    bool option \<times> (u8 list \<times> int) list \<times> aac" where
  "aac_encode interleaved frames pts_us fenv outs a =
    (case interleaved of
       None \<Rightarrow> (Some False, [], a)
     | Some xs \<Rightarrow>
         if \<not> aa_initialized a \<or> frames = 0 then (Some False, [], a)
         else
           let samples = frames * ac_channels (aa_cfg a);
               pcm = map float_to_s16 (take (unat samples) xs)
           in case feed_pcm pcm samples pts_us fenv a of (ret, fs, a) \<Rightarrow>
                if ret \<noteq> Some True then (ret, fs, a)
                else (case drain_outputs outs a of (ret, fs', a) \<Rightarrow> (ret, fs @ fs', a)))"

definition aac_drain :: "bool \<Rightarrow> bool \<Rightarrow> (bool \<times> mft_output) list \<Rightarrow> aac \<Rightarrow>
    bool option \<times> (u8 list \<times> int) list \<times> aac" where
  "aac_drain end_ok drain_ok outs a =
    (if \<not> aa_initialized a then (Some False, [], a)
     else if \<not> end_ok then (Some False, [], a)
     else let a = aac_emit EndOfStream a in
       if \<not> drain_ok then (Some False, [], a)
       else drain_outputs outs (aac_emit DrainMessage a))"

section \<open>Resources of the encoder\<close>

datatype aac_handle = Mf | Mft | OutSample

fun aac_res :: "aac_call \<Rightarrow> aac_handle res option" where
  "aac_res MFStarted = Some (Acq Mf)"
| "aac_res MFStopped = Some (Rel Mf)"
| "aac_res MftCreated = Some (Acq Mft)"
| "aac_res MftReleased = Some (Rel Mft)"
| "aac_res SampleProvided = Some (Acq OutSample)"
| "aac_res SampleReleased = Some (Rel OutSample)"
| "aac_res _ = None"

definition aac_live :: "aac \<Rightarrow> aac_handle multiset" where
  "aac_live a = live_by aac_res (aa_trace a)"

definition aac_owns :: "aac \<Rightarrow> bool" where
  "aac_owns a \<longleftrightarrow> aac_live a = (if aa_mf_started a then {#Mf#} else {#}) + (if aa_mft a then {#Mft#} else {#})
     \<and> (aa_initialized a \<longrightarrow> aa_mf_started a \<and> aa_mft a)"


lemma aac_emit_simps [simp]:
  "aa_mft (aac_emit c a) = aa_mft a" "aa_sink (aac_emit c a) = aa_sink a" "aa_cfg (aac_emit c a) = aa_cfg a"
  "aa_asc (aac_emit c a) = aa_asc a" "aa_mf_started (aac_emit c a) = aa_mf_started a"
  "aa_initialized (aac_emit c a) = aa_initialized a" "aa_provides (aac_emit c a) = aa_provides a"
  "aa_trace (aac_emit c a) = aa_trace a @ [c]"
  "aac_live (aac_emit c a) = live_update (aac_res c) (aac_live a)"
  by (simp_all add: aac_emit_def aac_live_def)

lemma aac_live_fields [simp]:
  "aac_live (a\<lparr>aa_mft := b\<rparr>) = aac_live a" "aac_live (a\<lparr>aa_mf_started := b\<rparr>) = aac_live a"
  "aac_live (a\<lparr>aa_initialized := b\<rparr>) = aac_live a" "aac_live (a\<lparr>aa_sink := b\<rparr>) = aac_live a"
  "aac_live (a\<lparr>aa_cfg := c\<rparr>) = aac_live a" "aac_live (a\<lparr>aa_asc := s\<rparr>) = aac_live a"
  "aac_live (a\<lparr>aa_in_id := i\<rparr>) = aac_live a" "aac_live (a\<lparr>aa_out_id := i\<rparr>) = aac_live a"
  "aac_live (a\<lparr>aa_provides := b\<rparr>) = aac_live a" "aac_live (a\<lparr>aa_out_size := i\<rparr>) = aac_live a"
  by (simp_all add: aac_live_def)

lemma aac_owns_shutdown:
  "aac_owns a \<Longrightarrow> aac_owns (aac_shutdown a) \<and> aac_live (aac_shutdown a) = {#}"
  by (auto simp: aac_owns_def aac_shutdown_def Let_def)

lemma provided_calls_simps [simp]:
  "aac_live (provided_calls p a) = aac_live a" "aa_mft (provided_calls p a) = aa_mft a"
  "aa_mf_started (provided_calls p a) = aa_mf_started a" "aa_initialized (provided_calls p a) = aa_initialized a"
  "aa_provides (provided_calls p a) = aa_provides a" "aa_sink (provided_calls p a) = aa_sink a"
  "aa_cfg (provided_calls p a) = aa_cfg a" "aa_asc (provided_calls p a) = aa_asc a"
  by (simp_all add: provided_calls_def)

text \<open>The output loop leaves the encoder's fields alone and every sample given back.\<close>

lemma drain_outputs_frame:
  "drain_outputs rs a = (ret, fs, a') \<Longrightarrow> aac_live a' = aac_live a \<and> aa_mft a' = aa_mft a
    \<and> aa_mf_started a' = aa_mf_started a \<and> aa_initialized a' = aa_initialized a
    \<and> aa_cfg a' = aa_cfg a \<and> aa_sink a' = aa_sink a \<and> aa_asc a' = aa_asc a \<and> aa_provides a' = aa_provides a"
proof (induction rs arbitrary: a ret fs a')
  case (Cons r rs)
  obtain alloc x where r: "r = (alloc, x)" by (rule prod.exhaust)
  show ?case
  proof (cases x)
    case (Produced p y)
    obtain ret1 fs1 a1 where d: "drain_outputs rs (provided_calls p a) = (ret1, fs1, a1)"
      by (rule prod_cases3)
    from Cons.IH[OF d] Cons.prems show ?thesis
      by (auto simp: r Produced d split: if_splits)
  qed (use Cons.prems in \<open>auto simp: r split: if_splits\<close>)
qed simp

lemma drain_outputs_owns: "drain_outputs rs a = (ret, fs, a') \<Longrightarrow> aac_owns a \<Longrightarrow> aac_owns a'"
  using drain_outputs_frame[of rs a ret fs a'] by (simp add: aac_owns_def)

lemma feed_pcm_owns:
  assumes "aac_owns a" "feed_pcm pcm n pts env a = (ret, fs, a')"
  shows "aac_owns a'"
proof (cases "fe_sample_ok env")
  case True
  show ?thesis
  proof (cases "fe_input env")
    case NotAccepting
    obtain r1 f1 a1 where d: "drain_outputs (fe_drain env) a = (r1, f1, a1)" by (rule prod_cases3)
    from drain_outputs_owns[OF this assms(1)] assms(2) True d NotAccepting show ?thesis
      by (auto simp: feed_pcm_def accept_input_def aac_owns_def Let_def split: if_splits input_answer.splits)
  qed (use assms True in \<open>auto simp: feed_pcm_def accept_input_def aac_owns_def Let_def\<close>)
qed (use assms in \<open>auto simp: feed_pcm_def\<close>)

lemma aac_encode_owns:
  assumes "aac_owns a" "aac_encode xs frames pts fenv outs a = (ret, fs, a')"
  shows "aac_owns a'"
proof (cases "xs = None \<or> \<not> aa_initialized a \<or> frames = 0")
  case False
  then obtain ys where ys: "xs = Some ys" by auto
  let ?n = "frames * ac_channels (aa_cfg a)"
  obtain r1 f1 a1 where f: "feed_pcm (map float_to_s16 (take (unat ?n) ys)) ?n pts fenv a = (r1, f1, a1)"
    by (rule prod_cases3)
  obtain r2 f2 a2 where d: "drain_outputs outs a1 = (r2, f2, a2)" by (rule prod_cases3)
  have "aac_owns a1" using feed_pcm_owns[OF assms(1) f] .
  with drain_outputs_owns[OF d] assms(2) False f d show ?thesis
    by (auto simp: aac_encode_def ys split: if_splits)
qed (use assms in \<open>auto simp: aac_encode_def split: option.splits\<close>)

lemma aac_drain_owns:
  assumes "aac_owns a" "aac_drain end_ok drain_ok outs a = (ret, fs, a')"
  shows "aac_owns a'"
  using assms by (auto simp: aac_drain_def Let_def aac_owns_def dest!: drain_outputs_frame split: if_splits)

lemma aac_init_steps_owns:
  assumes "aac_live a = {#}" "\<not> aa_mft a" "\<not> aa_mf_started a" "\<not> aa_initialized a"
  shows "aac_owns (snd (aac_init_steps env a))"
    and "fst (aac_init_steps env a) = aa_initialized (snd (aac_init_steps env a))"
  using assms
  by (auto simp: aac_init_steps_def aac_owns_def seq_ok_def set_output_type_def set_input_type_def Let_def
      split: prod.splits option.splits if_splits)

definition aac_idle :: "aac \<Rightarrow> bool" where
  "aac_idle a \<longleftrightarrow> aac_live a = {#} \<and> \<not> aa_mft a \<and> \<not> aa_mf_started a \<and> \<not> aa_initialized a"

lemma aac_shutdown_idle: "aac_owns a \<Longrightarrow> aac_idle (aac_shutdown a)"
  by (auto simp: aac_owns_def aac_shutdown_def Let_def aac_idle_def)

lemma aac_init_owns:
  assumes "aac_idle a" "aac_init cfg cb env a = (ok, a')"
  shows "aac_owns a' \<and> (\<not> ok \<longrightarrow> aac_idle a') \<and> aa_initialized a' = ok"
proof -
  have idle_owns: "aac_idle x \<Longrightarrow> aac_owns x" for x by (simp add: aac_idle_def aac_owns_def)
  show ?thesis
  proof (cases "\<not> cb \<or> ac_channels cfg < 1 \<or> ac_channels cfg > 2
      \<or> ac_sample_rate cfg \<noteq> 48000 \<and> ac_sample_rate cfg \<noteq> 44100
      \<or> make_audio_specific_config (ac_sample_rate cfg) (ac_channels cfg) = None")
    case True
    with assms idle_owns show ?thesis
      by (auto simp: aac_init_def aac_idle_def Let_def split: if_splits)
  next
    case False
    then obtain b0 b1 where asc: "make_audio_specific_config (ac_sample_rate cfg) (ac_channels cfg) = Some (b0, b1)"
      by (metis option.exhaust prod.exhaust)
    let ?a = "a\<lparr>aa_cfg := cfg, aa_sink := cb, aa_asc := [b0, b1]\<rparr>"
    obtain ok1 a1 where s: "aac_init_steps env ?a = (ok1, a1)" by (rule prod.exhaust)
    have i: "aac_live ?a = {#}" "\<not> aa_mft ?a" "\<not> aa_mf_started ?a" "\<not> aa_initialized ?a"
      using assms(1) by (simp_all add: aac_idle_def)
    have "aac_owns a1" "ok1 = aa_initialized a1" using aac_init_steps_owns[OF i, of env] s by simp_all
    with aac_shutdown_idle[of a1] idle_owns assms False asc s show ?thesis
      by (auto simp: aac_init_def aac_idle_def Let_def split: if_splits)
  qed
qed


text \<open>The operations between \<open>init\<close> and \<open>shutdown\<close>; a loop that does not return ends the run.\<close>

datatype aac_op = OpEncode "u32 list option" u32 int feed_env "(bool \<times> mft_output) list"
  | OpDrain bool bool "(bool \<times> mft_output) list"

fun aac_step :: "aac_op \<Rightarrow> aac \<Rightarrow> aac" where
  "aac_step (OpEncode xs n pts fenv outs) a = snd (snd (aac_encode xs n pts fenv outs a))"
| "aac_step (OpDrain e d outs) a = snd (snd (aac_drain e d outs a))"

lemma aac_steps_owns: "aac_owns a \<Longrightarrow> aac_owns (fold aac_step ops a)"
proof (induction ops arbitrary: a)
  case (Cons op ops)
  have "aac_owns (aac_step op a)"
  proof (cases op)
    case (OpEncode xs n pts fenv outs)
    then show ?thesis
      using aac_encode_owns[OF Cons.prems] by (metis aac_step.simps(1) prod.collapse)
  next
    case (OpDrain e d outs)
    then show ?thesis
      using aac_drain_owns[OF Cons.prems] by (metis aac_step.simps(2) prod.collapse)
  qed
  then show ?case using Cons.IH by simp
qed simp

lemma aac_new_idle: "aac_idle aac_new"
  by (simp add: aac_idle_def aac_new_def aac_live_def)

section \<open>Properties\<close>

text \<open>C40: The AAC encoder gives back what it took: after any initialisation, successful or not, any
  encodes and drains and \<open>shutdown\<close>, Media Foundation is shut down as often as started, the
  transform is released and so is every sample the transform provided; a failed initialisation
  releases everything by itself.\<close>

theorem aac_releases_everything:
  "aac_live (aac_shutdown (fold aac_step ops (snd (aac_init cfg cb env aac_new)))) = {#}
    \<and> (fst (aac_init cfg cb env aac_new) \<or> aac_live (snd (aac_init cfg cb env aac_new)) = {#})"
proof -
  obtain ok a where i: "aac_init cfg cb env aac_new = (ok, a)" by (rule prod.exhaust)
  have o: "aac_owns a" "\<not> ok \<longrightarrow> aac_idle a"
    using aac_init_owns[OF aac_new_idle i] by simp_all
  show ?thesis
    using aac_owns_shutdown[OF aac_steps_owns[OF o(1)], of ops] o(2) i by (auto simp: aac_idle_def)
qed

text \<open>Reading an AudioSpecificConfig back: object type, frequency index, channel configuration
  and the three bits of the general audio part; and the table of the frequency indices.\<close>

definition asc_decode :: "u8 \<times> u8 \<Rightarrow> nat \<times> nat \<times> nat \<times> nat" where
  "asc_decode b = (let w = unat (fst b) * 256 + unat (snd b) in
     (w div 2 ^ 11, w div 2 ^ 7 mod 16, w div 2 ^ 3 mod 16, w mod 8))"

definition asc_rates :: "nat list" where
  "asc_rates = [96000, 88200, 64000, 48000, 44100, 32000, 24000, 22050, 16000, 12000, 11025, 8000, 7350]"

definition asc_supported :: "u32 \<Rightarrow> u32 \<Rightarrow> bool" where
  "asc_supported rate channels \<longleftrightarrow> unat rate \<in> set asc_rates \<and> channels \<in> {1, 2, 3, 4, 5, 6, 7}"

lemma sampling_frequency_index_table:
  "(if sampling_frequency_index rate < 0 then unat rate \<notin> set asc_rates
    else sampling_frequency_index rate < 13 \<and> asc_rates ! nat (sampling_frequency_index rate) = unat rate)"
proof -
  define n where "n = unat rate"
  have u: "rate = v \<longleftrightarrow> n = unat v" for v by (simp add: word_unat_eq_iff n_def)
  show ?thesis
    unfolding sampling_frequency_index_def u n_def[symmetric]
    by (simp add: asc_rates_def split: if_split)
qed

lemma channels_1_7: "\<not> (channels < 1 \<or> channels > 7) \<longleftrightarrow> channels \<in> {1, 2, 3, 4, 5, 6, 7 :: u32}"
proof
  assume "\<not> (channels < 1 \<or> channels > 7)"
  then have "1 \<le> unat channels" "unat channels \<le> 7" by (simp_all add: word_less_nat_alt not_less)
  then have "unat channels \<in> {1, 2, 3, 4, 5, 6, 7}" by auto
  then show "channels \<in> {1, 2, 3, 4, 5, 6, 7}" by (auto simp: word_unat_eq_iff)
qed (auto simp: word_less_nat_alt)

lemma asc_decode_make:
  assumes "0 \<le> f" "f < 13" "channels \<in> {1, 2, 3, 4, 5, 6, 7 :: u32}"
  defines "bits \<equiv> ucast (push_bit 11 kAacLcObjectType OR push_bit 7 (word_of_int f :: u32) OR push_bit 3 channels) :: u16"
  shows "asc_decode (ucast (drop_bit 8 bits), ucast (bits AND 0xFF)) = (2, nat f, unat channels, 0)"
proof -
  have "f \<in> {0, 1, 2, 3, 4, 5, 6, 7, 8, 9, 10, 11, 12}" using assms(1,2) by (simp, presburger)
  then show ?thesis
    using assms(3) unfolding bits_def by (auto simp: kAacLcObjectType_def asc_decode_def)
qed

text \<open>The AudioSpecificConfig round trip: for every sample rate of the MPEG-4 table and 1 to 7
  channels, and for no others, a configuration is made, and reading its bits back gives object
  type 2 (AAC-LC), the table index of the rate, the channel count and zero for the rest.\<close>

theorem asc_roundtrip:
  "case make_audio_specific_config rate channels of
     None \<Rightarrow> \<not> asc_supported rate channels
   | Some b \<Rightarrow> asc_supported rate channels
       \<and> asc_decode b = (2, nat (sampling_frequency_index rate), unat channels, 0)
       \<and> asc_rates ! nat (sampling_frequency_index rate) = unat rate"
proof (cases "sampling_frequency_index rate < 0 \<or> channels < 1 \<or> channels > 7")
  case True
  then show ?thesis
    using sampling_frequency_index_table[of rate] channels_1_7[of channels]
    by (auto simp: make_audio_specific_config_def asc_supported_def Let_def split: if_splits)
next
  case False
  let ?f = "sampling_frequency_index rate"
  have f: "0 \<le> ?f" "?f < 13" "asc_rates ! nat ?f = unat rate"
    using sampling_frequency_index_table[of rate] False by (auto split: if_splits)
  have c: "channels \<in> {1, 2, 3, 4, 5, 6, 7}" using False channels_1_7 by blast
  have "nat ?f < length asc_rates" using f(1,2) by (simp add: asc_rates_def)
  then have r: "unat rate \<in> set asc_rates" unfolding f(3)[symmetric] by (rule nth_mem)
  show ?thesis
    using False asc_decode_make[OF f(1,2) c] f(3) c r
    by (simp add: make_audio_specific_config_def asc_supported_def Let_def)
qed


section \<open>What the transform is given\<close>

fun is_input :: "aac_call \<Rightarrow> bool" where
  "is_input (Input _ _ _) = True"
| "is_input _ = False"

definition aac_inputs :: "aac \<Rightarrow> aac_call list" where
  "aac_inputs a = filter is_input (aa_trace a)"

text \<open>How the output loop ends, from the answers alone.\<close>

fun out_result :: "bool \<Rightarrow> (bool \<times> mft_output) list \<Rightarrow> bool option" where
  "out_result p [] = None"
| "out_result p ((alloc_ok, r) # rs) =
    (if \<not> p \<and> \<not> alloc_ok then Some False
     else case r of NeedInput _ \<Rightarrow> Some True | OutputFailed _ \<Rightarrow> Some False | Produced _ _ \<Rightarrow> out_result p rs)"

definition feed_ok :: "bool \<Rightarrow> feed_env \<Rightarrow> bool" where
  "feed_ok p env \<longleftrightarrow> fe_sample_ok env \<and> (fe_input env = Accepted
     \<or> (fe_input env = NotAccepting \<and> out_result p (fe_drain env) = Some True \<and> fe_input2 env = Accepted))"

text \<open>The sample a chunk becomes: its PCM, its time and duration in units of 100 ns.\<close>

definition pcm_input :: "aac_config \<Rightarrow> u32 list \<Rightarrow> u32 \<Rightarrow> int \<Rightarrow> aac_call" where
  "pcm_input cfg xs frames pts =
     Input (map float_to_s16 (take (unat (frames * ac_channels cfg)) xs)) (pts * 10)
       (uint (frames * ac_channels cfg div ac_channels cfg) * 10000000 div uint (ac_sample_rate cfg))"

lemma aac_inputs_emit [simp]: "aac_inputs (aac_emit c a) = aac_inputs a @ (if is_input c then [c] else [])"
  by (simp add: aac_inputs_def)

lemma aac_inputs_provided [simp]: "aac_inputs (provided_calls p a) = aac_inputs a"
  by (simp add: provided_calls_def)

lemma drain_outputs_result:
  "drain_outputs rs a = (ret, fs, a') \<Longrightarrow> aac_inputs a' = aac_inputs a \<and> ret = out_result (aa_provides a) rs"
proof (induction rs arbitrary: a ret fs a')
  case (Cons r rs)
  obtain alloc x where r: "r = (alloc, x)" by (rule prod.exhaust)
  show ?case
  proof (cases x)
    case (Produced p y)
    obtain ret1 fs1 a1 where d: "drain_outputs rs (provided_calls p a) = (ret1, fs1, a1)"
      by (rule prod_cases3)
    from Cons.IH[OF d] Cons.prems show ?thesis
      by (auto simp: r Produced d split: if_splits)
  qed (use Cons.prems in \<open>auto simp: r split: if_splits\<close>)
qed simp

text \<open>An encode the transform accepts hands it exactly the chunk and leaves the encoder ready.\<close>

lemma aac_encode_accepted:
  assumes "aa_initialized a" "frames \<noteq> 0" "feed_ok (aa_provides a) fenv" "out_result (aa_provides a) outs \<noteq> None"
    and e: "aac_encode (Some xs) frames pts fenv outs a = (ret, fs, a')"
  shows "ret \<noteq> None" "aac_inputs a' = aac_inputs a @ [pcm_input (aa_cfg a) xs frames pts]"
    "aa_initialized a' \<and> aa_cfg a' = aa_cfg a \<and> aa_provides a' = aa_provides a"
proof -
  let ?n = "frames * ac_channels (aa_cfg a)"
  obtain r1 f1 a1 where f: "feed_pcm (map float_to_s16 (take (unat ?n) xs)) ?n pts fenv a = (r1, f1, a1)"
    by (rule prod_cases3)
  obtain r2 f2 a2 where d: "drain_outputs outs a1 = (r2, f2, a2)" by (rule prod_cases3)
  have a1: "r1 = Some True \<and> aac_inputs a1 = aac_inputs a @ [pcm_input (aa_cfg a) xs frames pts]
      \<and> aa_initialized a1 \<and> aa_cfg a1 = aa_cfg a \<and> aa_provides a1 = aa_provides a"
  proof (cases "fe_input fenv = Accepted")
    case True
    with f assms show ?thesis
      by (auto simp: feed_pcm_def feed_ok_def accept_input_def pcm_input_def us_to_hns_def Let_def)
  next
    case False
    then have n: "fe_input fenv = NotAccepting" "out_result (aa_provides a) (fe_drain fenv) = Some True"
      "fe_input2 fenv = Accepted" "fe_sample_ok fenv"
      using assms(3) by (auto simp: feed_ok_def)
    obtain r3 f3 a3 where d3: "drain_outputs (fe_drain fenv) a = (r3, f3, a3)" by (rule prod_cases3)
    from f d3 n drain_outputs_result[OF d3] drain_outputs_frame[OF d3] assms(1) show ?thesis
      by (auto simp: feed_pcm_def accept_input_def pcm_input_def us_to_hns_def Let_def)
  qed
  have "ret = r2" "a' = a2" using e f a1 d assms(1,2) by (simp_all add: aac_encode_def)
  then show "ret \<noteq> None" "aac_inputs a' = aac_inputs a @ [pcm_input (aa_cfg a) xs frames pts]"
    "aa_initialized a' \<and> aa_cfg a' = aa_cfg a \<and> aa_provides a' = aa_provides a"
    using drain_outputs_result[OF d] drain_outputs_frame[OF d] a1 assms(4) by simp_all
qed

end
