(* ===== verification/AudioBridge.thy ===== *)
theory AudioBridge
  imports AudioRing AacEncoder OutputSubsystem
begin

text \<open>
  \<open>src/src/pipeline/audio/audio_encode_bridge.cpp\<close>: the capture thread pushes chunks into the
  ring; the encode thread, at every video packet, takes them out, encodes them and sends the AAC
  frames to the output.
\<close>

section \<open>The bridge\<close>

record audio_bridge =
  ab_ring :: audio_ring
  ab_encoder :: aac
  ab_out :: bool
  ab_sample_rate :: u32
  ab_channels :: u32
  ab_bitrate_bps :: u32
  ab_enabled :: bool
  ab_ready :: bool
  ab_failed :: bool
  ab_asc_sent :: bool
  ab_mismatch_logged :: bool
  ab_last_audio_pts :: int
  ab_last_drift_warn :: "int option"

definition audio_bridge_new :: audio_bridge where
  "audio_bridge_new = \<lparr>ab_ring = audio_ring_init, ab_encoder = aac_new, ab_out = False,
     ab_sample_rate = 0, ab_channels = 0, ab_bitrate_bps = 0, ab_enabled = False, ab_ready = False,
     ab_failed = False, ab_asc_sent = False, ab_mismatch_logged = False, ab_last_audio_pts = 0,
     ab_last_drift_warn = None\<rparr>"

definition bridge_configure :: "u32 \<Rightarrow> u32 \<Rightarrow> u32 \<Rightarrow> bool \<Rightarrow> audio_bridge \<Rightarrow> audio_bridge" where
  "bridge_configure rate channels bps out b = b\<lparr>ab_sample_rate := rate, ab_channels := channels,
     ab_bitrate_bps := bps, ab_out := out, ab_enabled := True\<rparr>"

definition bridge_push :: "push_args \<Rightarrow> audio_bridge \<Rightarrow> audio_bridge" where
  "bridge_push a b = (if \<not> ab_enabled b then b else b\<lparr>ab_ring := snd (audio_push a (ab_ring b))\<rparr>)"

text \<open>\<open>on_aac\<close> for each frame the encoder gives to the sink; \<open>env\<close>: whether the send raised
  a structured exception, and what the transport answers.\<close>

definition bridge_on_aac :: "bool \<times> output_env \<Rightarrow> u8 list \<times> int \<Rightarrow>
    audio_bridge \<times> output_subsystem \<Rightarrow> audio_bridge \<times> output_subsystem" where
  "bridge_on_aac env f st = (case st of (b, os) \<Rightarrow>
     (b\<lparr>ab_last_audio_pts := snd f\<rparr>,
      if ab_out b then snd (output_send_audio (fst env) (snd env) os) else os))"

fun bridge_on_aacs :: "(nat \<Rightarrow> bool \<times> output_env) \<Rightarrow> (u8 list \<times> int) list \<Rightarrow>
    audio_bridge \<times> output_subsystem \<Rightarrow> audio_bridge \<times> output_subsystem" where
  "bridge_on_aacs env [] st = st"
| "bridge_on_aacs env (f # fs) st = bridge_on_aacs (\<lambda>i. env (Suc i)) fs (bridge_on_aac (env 0) f st)"

definition send_asc_if_ready :: "bool \<Rightarrow> audio_bridge \<Rightarrow> output_subsystem \<Rightarrow> audio_bridge" where
  "send_asc_if_ready r b os = (if ab_out b \<and> aa_asc (ab_encoder b) \<noteq> []
     then b\<lparr>ab_asc_sent := output_set_audio_config r os\<rparr> else b)"

definition ensure_encoder :: "aac_init_env \<Rightarrow> bool \<Rightarrow> audio_bridge \<Rightarrow> output_subsystem \<Rightarrow> bool \<times> audio_bridge" where
  "ensure_encoder ienv r b os =
    (if ab_ready b then (True, b)
     else if ab_failed b then (False, b)
     else (case aac_init \<lparr>ac_sample_rate = ab_sample_rate b, ac_channels = ab_channels b,
              ac_bitrate_bps = ab_bitrate_bps b\<rparr> True ienv (ab_encoder b) of (ok, e) \<Rightarrow>
            let b = b\<lparr>ab_encoder := e\<rparr> in
            if \<not> ok then (False, b\<lparr>ab_failed := True\<rparr>)
            else (True, (send_asc_if_ready r b os)\<lparr>ab_ready := True\<rparr>)))"

text \<open>What the transform and the output answer for one chunk.\<close>

record chunk_env =
  ck_feed :: feed_env
  ck_outs :: "(bool \<times> mft_output) list"
  ck_send :: "nat \<Rightarrow> bool \<times> output_env"

text \<open>The callback of \<open>consume\<close>; \<open>None\<close>: the encoder's output loop does not return.\<close>

definition bridge_chunk :: "chunk_env \<Rightarrow> chunk \<Rightarrow> audio_bridge \<times> output_subsystem \<Rightarrow>
    (audio_bridge \<times> output_subsystem) option" where
  "bridge_chunk env c st = (case st of (b, os) \<Rightarrow>
     if \<not> format_matches (ch_channels c) (ch_sample_rate c) (ab_channels b) (ab_sample_rate b)
     then Some (b\<lparr>ab_mismatch_logged := True, ab_enabled := False\<rparr>, os)
     else (case aac_encode (Some (ch_samples c)) (ch_frames c) (ch_pts_us c) (ck_feed env) (ck_outs env)
              (ab_encoder b) of (ret, fs, e) \<Rightarrow>
            if ret = None then None else Some (bridge_on_aacs (ck_send env) fs (b\<lparr>ab_encoder := e\<rparr>, os))))"

text \<open>\<open>while (ring_.consume(...)) {}\<close>: the loop ends because nothing is pushed meanwhile in
  this model; the producer's thread is interleaved in \<open>AudioRing\<close>.\<close>

function drain_ring :: "(nat \<Rightarrow> chunk_env) \<Rightarrow> audio_bridge \<times> output_subsystem \<Rightarrow>
    (audio_bridge \<times> output_subsystem) option" where
  "drain_ring envs st =
    (if ar_head (ab_ring (fst st)) = ar_tail (ab_ring (fst st)) then Some st
     else (case audio_consume (ab_ring (fst st)) of
         (None, r) \<Rightarrow> Some st
       | (Some c, r) \<Rightarrow> (case bridge_chunk (envs 0) c st of
           None \<Rightarrow> None
         | Some (b, os) \<Rightarrow> drain_ring (\<lambda>i. envs (Suc i)) (b\<lparr>ab_ring := r\<rparr>, os))))"
  by pat_completeness auto

termination
proof (relation "measure (\<lambda>(_, b, _). unat (ar_tail (ab_ring b) - ar_head (ab_ring b)))", goal_cases)
  case (2 envs st p c r o1 b os)
  then have "unat (ar_tail (ab_ring (fst st)) - (ar_head (ab_ring (fst st)) + 1)) <
      unat (ar_tail (ab_ring (fst st)) - ar_head (ab_ring (fst st)))"
    using unat_diff_pred[of "ar_tail (ab_ring (fst st))" "ar_head (ab_ring (fst st))"]
    by (simp add: unat_gt_0)
  with 2 show ?case by (cases st) (auto simp: audio_consume_def)
qed simp

declare drain_ring.simps [simp del]

record drain_env =
  dr_init :: aac_init_env
  dr_asc1 :: bool
  dr_asc2 :: bool
  dr_chunks :: "nat \<Rightarrow> chunk_env"

definition drift_check :: "int \<Rightarrow> audio_bridge \<Rightarrow> audio_bridge" where
  "drift_check video_pts_us b =
    (let drift_ms = (ab_last_audio_pts b - video_pts_us) sdiv 1000; now_ms = video_pts_us sdiv 1000
     in if should_warn_av_drift drift_ms now_ms (ab_last_drift_warn b)
        then b\<lparr>ab_last_drift_warn := Some now_ms\<rparr> else b)"

definition bridge_drain :: "int \<Rightarrow> drain_env \<Rightarrow> audio_bridge \<times> output_subsystem \<Rightarrow>
    (audio_bridge \<times> output_subsystem) option" where
  "bridge_drain video_pts_us env st = (case st of (b, os) \<Rightarrow>
     if \<not> ab_enabled b then Some (b, os)
     else (case ensure_encoder (dr_init env) (dr_asc1 env) b os of (ok, b) \<Rightarrow>
       if \<not> ok then Some (b, os)
       else
         let b = (if asc_retry_needed (ab_ready b) (ab_asc_sent b) then send_asc_if_ready (dr_asc2 env) b os else b)
         in (case drain_ring (dr_chunks env) (b, os) of
               None \<Rightarrow> None
             | Some (b, os) \<Rightarrow> Some (drift_check video_pts_us b, os))))"

text \<open>\<open>shutdown\<close>: the remaining frames of the encoder are offered to the output.\<close>

definition bridge_shutdown :: "bool \<Rightarrow> bool \<Rightarrow> (bool \<times> mft_output) list \<Rightarrow> (nat \<Rightarrow> bool \<times> output_env) \<Rightarrow>
    audio_bridge \<times> output_subsystem \<Rightarrow> (audio_bridge \<times> output_subsystem) option" where
  "bridge_shutdown end_ok drain_ok outs sends st = (case st of (b, os) \<Rightarrow>
     let b = b\<lparr>ab_enabled := False\<rparr> in
     if \<not> ab_ready b then Some (b, os)
     else (case aac_drain end_ok drain_ok outs (ab_encoder b) of (ret, fs, e) \<Rightarrow>
       if ret = None then None
       else (case bridge_on_aacs sends fs (b\<lparr>ab_encoder := e\<rparr>, os) of (b, os) \<Rightarrow>
         Some (b\<lparr>ab_encoder := aac_shutdown (ab_encoder b), ab_ready := False, ab_asc_sent := False\<rparr>, os))))"


section \<open>The drain as a function of the queued chunks\<close>

definition chunk_matches :: "audio_bridge \<Rightarrow> chunk \<Rightarrow> bool" where
  "chunk_matches b c \<longleftrightarrow> format_matches (ch_channels c) (ch_sample_rate c) (ab_channels b) (ab_sample_rate b)"

definition chunk_input :: "audio_bridge \<Rightarrow> chunk \<Rightarrow> aac_call" where
  "chunk_input b c = pcm_input (aa_cfg (ab_encoder b)) (ch_samples c) (ch_frames c) (ch_pts_us c)"

definition chunk_ok :: "bool \<Rightarrow> chunk_env \<Rightarrow> bool" where
  "chunk_ok p env \<longleftrightarrow> feed_ok p (ck_feed env) \<and> out_result p (ck_outs env) \<noteq> None"

text \<open>What stays as it is over a drain.\<close>

definition same_setup :: "audio_bridge \<Rightarrow> audio_bridge \<Rightarrow> bool" where
  "same_setup b' b \<longleftrightarrow> ab_channels b' = ab_channels b \<and> ab_sample_rate b' = ab_sample_rate b
     \<and> ab_ready b' = ab_ready b \<and> aa_cfg (ab_encoder b') = aa_cfg (ab_encoder b)
     \<and> aa_initialized (ab_encoder b') = aa_initialized (ab_encoder b)
     \<and> aa_provides (ab_encoder b') = aa_provides (ab_encoder b)"

lemma bridge_on_aacs_fields:
  "bridge_on_aacs env fs (b, os) = (b', os') \<Longrightarrow> \<exists>t. b' = b\<lparr>ab_last_audio_pts := t\<rparr>"
proof (induction env fs "(b, os)" arbitrary: b os rule: bridge_on_aacs.induct)
  case (1 env)
  then show ?case by (intro exI[of _ "ab_last_audio_pts b"]) simp
next
  case (2 env f fs)
  obtain b1 os1 where s: "bridge_on_aac (env 0) f (b, os) = (b1, os1)" by (rule prod.exhaust)
  from 2(1)[OF s] 2(2) s obtain t where "b' = b1\<lparr>ab_last_audio_pts := t\<rparr>" by auto
  moreover have "b1 = b\<lparr>ab_last_audio_pts := snd f\<rparr>" using s by (auto simp: bridge_on_aac_def)
  ultimately show ?case by auto
qed

lemma bridge_chunk_result:
  assumes "aa_initialized (ab_encoder b)" "ch_frames c \<noteq> 0" "chunk_ok (aa_provides (ab_encoder b)) env"
  obtains b' os' where "bridge_chunk env c (b, os) = Some (b', os')" "same_setup b' b"
    "aac_inputs (ab_encoder b') = aac_inputs (ab_encoder b) @ (if chunk_matches b c then [chunk_input b c] else [])"
    "ab_enabled b' \<longleftrightarrow> ab_enabled b \<and> chunk_matches b c"
proof (cases "chunk_matches b c")
  case False
  then show ?thesis
    by (intro that[of "b\<lparr>ab_mismatch_logged := True, ab_enabled := False\<rparr>" os])
      (auto simp: bridge_chunk_def chunk_matches_def same_setup_def)
next
  case True
  obtain ret fs e where enc: "aac_encode (Some (ch_samples c)) (ch_frames c) (ch_pts_us c) (ck_feed env)
      (ck_outs env) (ab_encoder b) = (ret, fs, e)" by (rule prod_cases3)
  obtain b' os' where s: "bridge_on_aacs (ck_send env) fs (b\<lparr>ab_encoder := e\<rparr>, os) = (b', os')"
    by (rule prod.exhaust)
  from bridge_on_aacs_fields[OF s] obtain t where t: "b' = b\<lparr>ab_encoder := e, ab_last_audio_pts := t\<rparr>" by auto
  note acc = aac_encode_accepted[OF assms(1,2) _ _ enc]
  show ?thesis
    using True assms(3) acc t
    by (intro that[of b' os'])
      (auto simp: bridge_chunk_def chunk_matches_def enc s chunk_ok_def same_setup_def chunk_input_def assms(1))
qed

lemma drain_ring_result:
  assumes "ring_contents (ab_ring b) = cs" "ring_inv (ab_ring b)" "aa_initialized (ab_encoder b)"
    and "\<forall>c \<in> set cs. ch_frames c \<noteq> 0" "\<forall>i. chunk_ok (aa_provides (ab_encoder b)) (envs i)"
  shows "\<exists>b' os'. drain_ring envs (b, os) = Some (b', os') \<and> same_setup b' b
    \<and> ring_contents (ab_ring b') = []
    \<and> aac_inputs (ab_encoder b') = aac_inputs (ab_encoder b) @ map (chunk_input b) (filter (chunk_matches b) cs)
    \<and> (ab_enabled b' \<longleftrightarrow> ab_enabled b \<and> list_all (chunk_matches b) cs)"
  using assms
proof (induction cs arbitrary: b os envs)
  case Nil
  then have "ring_len (ab_ring b) = 0" by (metis length_ring_contents list.size(3))
  then show ?case
    using Nil by (subst drain_ring.simps) (simp add: ring_len_0_iff same_setup_def)
next
  case (Cons c cs)
  have ne: "ar_head (ab_ring b) \<noteq> ar_tail (ab_ring b)"
    using Cons.prems(1) by (metis length_ring_contents list.size(3) list.simps(3) length_0_conv ring_len_0_iff)
  obtain x r where xr: "audio_consume (ab_ring b) = (x, r)" by (rule prod.exhaust)
  have x: "x = Some c" "ring_contents r = cs" "ring_inv r"
    using ring_contents_consume[OF Cons.prems(2)] ring_inv_consume[OF Cons.prems(2)] xr Cons.prems(1) by simp_all
  have "ch_frames c \<noteq> 0" "chunk_ok (aa_provides (ab_encoder b)) (envs 0)" using Cons.prems by simp_all
  from bridge_chunk_result[OF Cons.prems(3) this] obtain b1 os1 where
    s: "bridge_chunk (envs 0) c (b, os) = Some (b1, os1)" "same_setup b1 b"
      "aac_inputs (ab_encoder b1) = aac_inputs (ab_encoder b) @ (if chunk_matches b c then [chunk_input b c] else [])"
      "ab_enabled b1 \<longleftrightarrow> ab_enabled b \<and> chunk_matches b c" by blast
  let ?b = "b1\<lparr>ab_ring := r\<rparr>"
  have st: "same_setup ?b b" using s(2) by (simp add: same_setup_def)
  have eq: "chunk_matches ?b = chunk_matches b" "chunk_input ?b = chunk_input b"
    using st by (auto simp: same_setup_def chunk_matches_def chunk_input_def fun_eq_iff)
  have "\<exists>b' os'. drain_ring (\<lambda>i. envs (Suc i)) (?b, os1) = Some (b', os') \<and> same_setup b' ?b
    \<and> ring_contents (ab_ring b') = []
    \<and> aac_inputs (ab_encoder b') = aac_inputs (ab_encoder ?b) @ map (chunk_input ?b) (filter (chunk_matches ?b) cs)
    \<and> (ab_enabled b' \<longleftrightarrow> ab_enabled ?b \<and> list_all (chunk_matches ?b) cs)"
    by (rule Cons.IH) (use x st Cons.prems in \<open>auto simp: same_setup_def\<close>)
  then obtain b' os' where r: "drain_ring (\<lambda>i. envs (Suc i)) (?b, os1) = Some (b', os')" "same_setup b' ?b"
    "ring_contents (ab_ring b') = []"
    "aac_inputs (ab_encoder b') = aac_inputs (ab_encoder ?b) @ map (chunk_input b) (filter (chunk_matches b) cs)"
    "ab_enabled b' \<longleftrightarrow> ab_enabled ?b \<and> list_all (chunk_matches b) cs"
    unfolding eq by blast
  have "drain_ring envs (b, os) = Some (b', os')"
    by (subst drain_ring.simps) (simp add: ne xr x s r)
  moreover have "same_setup b' b" using r(2) st by (simp add: same_setup_def)
  ultimately show ?case using r s by auto
qed

section \<open>Properties\<close>

text \<open>C27: The audio drain encodes exactly the queued audio of the configured format: with a working
  encoder, one drain empties the ring; the transform is given, in order, one sample per queued
  chunk whose format is the configured one, with the chunk's PCM and time, and never a chunk of
  another format; and the audio path is switched off if and only if there was such a chunk.\<close>

theorem drain_encodes_matching_chunks:
  assumes "ab_enabled b" "ab_ready b" "ab_asc_sent b" "aa_initialized (ab_encoder b)" "ring_inv (ab_ring b)"
    and "\<forall>c \<in> set (ring_contents (ab_ring b)). ch_frames c \<noteq> 0"
    and "\<forall>i. chunk_ok (aa_provides (ab_encoder b)) (dr_chunks env i)"
  shows "\<exists>b' os'. bridge_drain pts env (b, os) = Some (b', os')
    \<and> ring_contents (ab_ring b') = []
    \<and> aac_inputs (ab_encoder b') = aac_inputs (ab_encoder b)
        @ map (chunk_input b) (filter (chunk_matches b) (ring_contents (ab_ring b)))
    \<and> (ab_enabled b' \<longleftrightarrow> list_all (chunk_matches b) (ring_contents (ab_ring b)))"
proof -
  obtain b' os' where d: "drain_ring (dr_chunks env) (b, os) = Some (b', os')"
    "ring_contents (ab_ring b') = []"
    "aac_inputs (ab_encoder b') = aac_inputs (ab_encoder b)
        @ map (chunk_input b) (filter (chunk_matches b) (ring_contents (ab_ring b)))"
    "ab_enabled b' \<longleftrightarrow> ab_enabled b \<and> list_all (chunk_matches b) (ring_contents (ab_ring b))"
    using drain_ring_result[OF refl assms(5,4,6,7)] by blast
  have "drift_check pts b' = b' \<or> (\<exists>w. drift_check pts b' = b'\<lparr>ab_last_drift_warn := w\<rparr>)"
    by (auto simp: drift_check_def Let_def)
  then have f: "ab_ring (drift_check pts b') = ab_ring b'" "ab_encoder (drift_check pts b') = ab_encoder b'"
    "ab_enabled (drift_check pts b') = ab_enabled b'" by auto
  have "bridge_drain pts env (b, os) = Some (drift_check pts b', os')"
    using assms(1-3) d(1) by (simp add: bridge_drain_def ensure_encoder_def asc_retry_needed_def)
  then show ?thesis using d(2-4) f assms(1) by auto
qed


definition demo_aac_init_env :: aac_init_env where
  "demo_aac_init_env = \<lparr>ai_startup = True, ai_create = True, ai_stream_ids = None, ai_out_type = True,
     ai_in_type = True, ai_stream_info = Some (False, 0), ai_begin = True, ai_start = True\<rparr>"

definition demo_chunk_env :: chunk_env where
  "demo_chunk_env = \<lparr>ck_feed = \<lparr>fe_sample_ok = True, fe_input = Accepted, fe_drain = [], fe_input2 = Refused\<rparr>,
     ck_outs = [(True, NeedInput False)], ck_send = (\<lambda>_. (False, demo_output_env))\<rparr>"

definition demo_drain_env :: drain_env where
  "demo_drain_env = \<lparr>dr_init = demo_aac_init_env, dr_asc1 = True, dr_asc2 = True, dr_chunks = (\<lambda>_. demo_chunk_env)\<rparr>"

definition demo_push :: push_args where
  "demo_push = \<lparr>pa_samples = Some [0x3F800000, 0xBF800000], pa_frames = 1, pa_channels = 2,
     pa_sample_rate = 48000, pa_pts_us = 1000\<rparr>"

definition demo_audio_bridge :: audio_bridge where
  "demo_audio_bridge = audio_bridge_new\<lparr>ab_ring := snd (audio_push demo_push audio_ring_init),
     ab_encoder := aac_new\<lparr>aa_initialized := True, aa_sink := True,
       aa_cfg := \<lparr>ac_sample_rate = 48000, ac_channels = 2, ac_bitrate_bps = 128000\<rparr>\<rparr>,
     ab_sample_rate := 48000, ab_channels := 2, ab_enabled := True, ab_ready := True, ab_asc_sent := True\<rparr>"

lemma drain_encodes_matching_chunks_witness:
  "\<exists>b' os'. bridge_drain 1000 demo_drain_env (demo_audio_bridge, output_new) = Some (b', os')
     \<and> aac_inputs (ab_encoder b') = [Input [32767, -32768] 10000 208]"
proof -
  have wf: "push_wf demo_push" "\<not> push_invalid demo_push"
    by (simp_all add: demo_push_def push_wf_def push_invalid_def push_n_def model_defs)
  have inv: "ring_inv (ab_ring demo_audio_bridge)"
    using ring_inv_push[OF ring_inv_init wf(1)] by (simp add: demo_audio_bridge_def)
  have "fst (audio_push demo_push audio_ring_init)"
    using push_rejected_or_full[OF ring_inv_init wf(1)] wf(2) by (simp add: ring_contents_init)
  then have c: "ring_contents (ab_ring demo_audio_bridge) = [push_chunk demo_push]"
    using ring_contents_push[OF ring_inv_init wf(1)] by (simp add: demo_audio_bridge_def ring_contents_init)
  have ok: "chunk_ok p demo_chunk_env" for p
    by (simp add: chunk_ok_def demo_chunk_env_def feed_ok_def)
  have "chunk_matches demo_audio_bridge (push_chunk demo_push)"
    "chunk_input demo_audio_bridge (push_chunk demo_push) = Input [32767, -32768] 10000 208"
    by (simp_all add: chunk_matches_def format_matches_def push_chunk_def demo_push_def demo_audio_bridge_def
        chunk_input_def pcm_input_def push_n_def float_to_s16_saturates)
  with drain_encodes_matching_chunks[of demo_audio_bridge demo_drain_env 1000 output_new] inv c ok
  show ?thesis
    by (auto simp: demo_audio_bridge_def push_chunk_def demo_push_def demo_drain_env_def aac_inputs_def aac_new_def)
qed

end
