(* ===== verification/Wasapi.thy ===== *)
theory Wasapi
  imports Samples Metrics Resources
begin

text \<open>
  \<open>src/src/pipeline/audio/wasapi_capture.cpp\<close>: the audio capture with its supervisor thread.
  Other threads (start, stop, device notifications) act between the checks of the loops: a run is
  a list in which their operations are interleaved with what the waits and the audio engine
  answer. Samples are bit patterns of floats. What is taken from and given back to the system,
  the calls of the three sinks and the initialisations of the engine are recorded in a trace.
\<close>

section \<open>State\<close>

definition kSilenceUs :: int where [model_defs]: "kSilenceUs = 500000"
definition kMetricPeriodUs :: int where [model_defs]: "kMetricPeriodUs = 1000000"
definition kSilenceAmplitude :: rat where [model_defs]: "kSilenceAmplitude = 1 / 32768"
definition kMaxFrames :: u32 where [model_defs]: "kMaxFrames = 8192"
definition kMaxChannels :: u32 where [model_defs]: "kMaxChannels = 8"

record wasapi_config =
  wc_exclusive :: bool
  wc_sample_rate :: u32
  wc_channels :: u32
  wc_bit_depth :: u32
  wc_buffer_ms :: u32
  wc_loopback :: bool
  wc_device_id :: string

datatype wave_tag = TagPcm | TagFloat | TagExtensible bool   \<comment> \<open>whether the sub-format is float\<close>

record wave_format =
  wf_tag :: wave_tag
  wf_channels :: u16
  wf_rate :: u32
  wf_bits :: u16

datatype lost_cause = DefaultDeviceChanged | DeviceGone | DeviceStateChanged | AudioDeviceInvalidated

datatype wasapi_call =
    ComInit | ComUninit | Registered | Unregistered
  | EngineInit bool wave_format int          \<comment> \<open>exclusive, format, buffer duration in 100 ns\<close>
  | EngineStarted | EngineStopped
  | GotBuffer u32 | ReleasedBuffer u32
  | AudioFrames "u32 list" u32 u32 u32 int   \<comment> \<open>samples, frames, channels, rate, time\<close>
  | ConnectionLost lost_cause
  | MetricPushed metric_sample

record wasapi =
  wa_enumerator :: bool
  wa_notify :: bool
  wa_owner :: bool
  wa_device :: bool
  wa_client :: bool
  wa_capture :: bool
  wa_mix :: bool
  wa_events :: bool
  wa_supervisor :: bool
  wa_com :: bool
  wa_initialized :: bool
  wa_start_requested :: bool
  wa_stop_thread :: bool
  wa_running :: bool
  wa_dirty :: bool
  wa_engine_active :: bool
  wa_cfg :: wasapi_config
  wa_rate :: u32
  wa_channels :: u32
  wa_bits :: u32
  wa_is_float :: bool
  wa_buffer_frames :: u32
  wa_exclusive :: bool
  wa_scratch :: "u32 list"
  wa_overruns :: u32
  wa_underruns :: u32
  wa_frame_drops :: u32
  wa_glitches :: u32
  wa_window_count :: u8
  wa_silence_start :: int
  wa_silence_logged :: bool
  wa_last_metric :: int
  wa_cpu_prev :: u64
  wa_wall_prev :: u64
  wa_trace :: "wasapi_call list"

definition wasapi_new :: wasapi where
  "wasapi_new = \<lparr>wa_enumerator = False, wa_notify = False, wa_owner = False, wa_device = False,
     wa_client = False, wa_capture = False, wa_mix = False, wa_events = False, wa_supervisor = False,
     wa_com = False, wa_initialized = False, wa_start_requested = False, wa_stop_thread = False,
     wa_running = False, wa_dirty = False, wa_engine_active = False,
     wa_cfg = \<lparr>wc_exclusive = False, wc_sample_rate = 0, wc_channels = 0, wc_bit_depth = 0,
       wc_buffer_ms = 0, wc_loopback = False, wc_device_id = []\<rparr>,
     wa_rate = 0, wa_channels = 0, wa_bits = 0, wa_is_float = False, wa_buffer_frames = 0,
     wa_exclusive = False, wa_scratch = replicate 65536 0, wa_overruns = 0, wa_underruns = 0,
     wa_frame_drops = 0, wa_glitches = 0, wa_window_count = 0, wa_silence_start = 0,
     wa_silence_logged = False, wa_last_metric = 0, wa_cpu_prev = 0, wa_wall_prev = 0, wa_trace = []\<rparr>"

definition wa_emit :: "wasapi_call \<Rightarrow> wasapi \<Rightarrow> wasapi" where
  "wa_emit c s = s\<lparr>wa_trace := wa_trace s @ [c]\<rparr>"

section \<open>Lifecycle\<close>

text \<open>\<open>shutdown\<close> joins the supervisor thread: \<open>supervisor_main\<close> below has run to its end.\<close>

definition wasapi_shutdown :: "wasapi \<Rightarrow> wasapi" where
  "wasapi_shutdown s =
    (let s = s\<lparr>wa_stop_thread := True, wa_start_requested := False, wa_supervisor := False\<rparr>;
         s = (if wa_notify s then s\<lparr>wa_owner := False\<rparr> else s);
         s = (if wa_enumerator s \<and> wa_notify s then wa_emit Unregistered s else s);
         s = s\<lparr>wa_capture := False, wa_client := False, wa_device := False, wa_notify := False,
               wa_enumerator := False, wa_mix := False, wa_events := False\<rparr>;
         s = (if wa_com s then wa_emit ComUninit (s\<lparr>wa_com := False\<rparr>) else s)
     in s\<lparr>wa_initialized := False\<rparr>)"

record wasapi_init_env =
  wi_com :: com_result
  wi_enumerator :: bool
  wi_notify_alloc :: bool
  wi_register :: bool
  wi_events :: bool
  wi_thread :: bool

definition wasapi_config_ok :: "wasapi_config \<Rightarrow> bool" where
  "wasapi_config_ok cfg \<longleftrightarrow> \<not> (wc_channels cfg = 0 \<or> wc_channels cfg > kMaxChannels)
     \<and> \<not> (wc_sample_rate cfg < 8000 \<or> wc_sample_rate cfg > 192000)
     \<and> \<not> (wc_bit_depth cfg \<noteq> 16 \<and> wc_bit_depth cfg \<noteq> 32)
     \<and> \<not> (wc_buffer_ms cfg = 0 \<or> wc_buffer_ms cfg > 1000)"

definition wasapi_init :: "wasapi_config \<Rightarrow> bool \<Rightarrow> wasapi_init_env \<Rightarrow> wasapi \<Rightarrow> bool \<times> wasapi" where
  "wasapi_init cfg sinks env s =
    (if wa_initialized s then (False, s)
     else if \<not> sinks then (False, s)
     else if \<not> wasapi_config_ok cfg then (False, s)
     else
       let s = s\<lparr>wa_cfg := cfg\<rparr> in
       if wi_com env = ComFailed then (False, s)
       else
         let s = (if wi_com env = RPC_E_CHANGED_MODE then s\<lparr>wa_com := False\<rparr>
                  else wa_emit ComInit (s\<lparr>wa_com := True\<rparr>)) in
         if \<not> wi_enumerator env then (False, wasapi_shutdown s)
         else let s = s\<lparr>wa_enumerator := True\<rparr> in
         if \<not> wi_notify_alloc env then (False, wasapi_shutdown s)
         else let s = s\<lparr>wa_notify := True, wa_owner := True\<rparr> in
         if \<not> wi_register env then (False, wasapi_shutdown s)
         else let s = wa_emit Registered s in
         if \<not> wi_events env then (False, wasapi_shutdown s)
         else let s = s\<lparr>wa_events := True, wa_stop_thread := False\<rparr> in
         if \<not> wi_thread env then (False, wasapi_shutdown s)
         else (True, s\<lparr>wa_supervisor := True, wa_initialized := True\<rparr>))"

definition wasapi_start :: "wasapi \<Rightarrow> bool \<times> wasapi" where
  "wasapi_start s = (if \<not> wa_initialized s then (False, s)
     else if wa_start_requested s then (False, s)
     else (True, s\<lparr>wa_start_requested := True\<rparr>))"

definition wasapi_stop :: "wasapi \<Rightarrow> bool \<times> wasapi" where
  "wasapi_stop s = (if \<not> wa_initialized s then (False, s)
     else if \<not> wa_start_requested s then (False, s)
     else (True, s\<lparr>wa_start_requested := False\<rparr>))"

definition on_device_change :: "lost_cause \<Rightarrow> wasapi \<Rightarrow> wasapi" where
  "on_device_change reason s = wa_emit (ConnectionLost reason) (s\<lparr>wa_dirty := True\<rparr>)"

text \<open>The notification client: three of its callbacks reach the owner, if there still is one.\<close>

definition DEVICE_STATE_DISABLED :: u32 where [model_defs]: "DEVICE_STATE_DISABLED = 2"
definition DEVICE_STATE_NOTPRESENT :: u32 where [model_defs]: "DEVICE_STATE_NOTPRESENT = 4"
definition DEVICE_STATE_UNPLUGGED :: u32 where [model_defs]: "DEVICE_STATE_UNPLUGGED = 8"

datatype notification = DefaultChanged bool | DeviceRemovedNote | StateChanged u32

definition notify_client :: "notification \<Rightarrow> wasapi \<Rightarrow> wasapi" where
  "notify_client n s = (if \<not> wa_owner s then s else case n of
      DefaultChanged console \<Rightarrow> if console then on_device_change DefaultDeviceChanged s else s
    | DeviceRemovedNote \<Rightarrow> on_device_change DeviceGone s
    | StateChanged st \<Rightarrow>
        if st = DEVICE_STATE_DISABLED \<or> st = DEVICE_STATE_NOTPRESENT \<or> st = DEVICE_STATE_UNPLUGGED then on_device_change DeviceStateChanged s else s)"

section \<open>The engine\<close>

definition release_engine :: "wasapi \<Rightarrow> wasapi" where
  "release_engine s =
    (let s = (if wa_client s then wa_emit EngineStopped s else s)
     in s\<lparr>wa_capture := False, wa_client := False, wa_device := False, wa_mix := False,
          wa_engine_active := False, wa_running := False\<rparr>)"

datatype excl_answer = ExclOk | NotAligned | ExclFailed

text \<open>Answers of the device calls, in the order of the code; \<open>oe_activate\<close> numbers the activations.\<close>

record open_env =
  oe_get_device :: bool
  oe_default :: bool
  oe_activate :: "nat \<Rightarrow> bool"
  oe_excl1 :: excl_answer
  oe_excl_frames :: "u32 option"
  oe_excl2 :: bool
  oe_shared :: bool
  oe_mix_format :: "wave_format option"
  oe_mix_init :: bool
  oe_set_event :: bool
  oe_service :: bool
  oe_buffer_size :: "u32 option"

definition user_format :: "wasapi_config \<Rightarrow> wave_format" where
  "user_format cfg = \<lparr>wf_tag = TagExtensible False, wf_channels = ucast (wc_channels cfg),
     wf_rate = wc_sample_rate cfg, wf_bits = ucast (wc_bit_depth cfg)\<rparr>"

definition find_device :: "open_env \<Rightarrow> wasapi_config \<Rightarrow> bool" where
  "find_device env cfg = (if wc_device_id cfg \<noteq> [] then oe_get_device env \<or> oe_default env else oe_default env)"

definition engine_init :: "bool \<Rightarrow> wave_format \<Rightarrow> int \<Rightarrow> bool \<Rightarrow> wasapi \<Rightarrow> wasapi" where
  "engine_init excl f hns ok s = (if ok then wa_emit (EngineInit excl f hns) s else s)"

text \<open>First strategy: exclusive, with one retry at the aligned duration. Answers whether the
  engine is initialised, the duration to go on with and the state.\<close>

definition aligned_hns :: "u32 \<Rightarrow> u32 \<Rightarrow> int" where
  "aligned_hns frames rate = \<lfloor>10000 * 1000 * rat_of_nat (unat frames) / rat_of_nat (unat rate) + 1 / 2\<rfloor>"

definition try_exclusive :: "open_env \<Rightarrow> int \<Rightarrow> wasapi \<Rightarrow> bool \<times> int \<times> wasapi" where
  "try_exclusive env hns s =
    (let cfg = wa_cfg s; f = user_format cfg;
         (ok, hns, s) =
           (case oe_excl1 env of
              ExclOk \<Rightarrow> (True, hns, engine_init True f hns True s)
            | ExclFailed \<Rightarrow> (False, hns, s)
            | NotAligned \<Rightarrow> (case oe_excl_frames env of
                None \<Rightarrow> (False, hns, s)
              | Some frames \<Rightarrow>
                  let hns = aligned_hns frames (wc_sample_rate cfg);
                      s = s\<lparr>wa_client := oe_activate env 1\<rparr>
                  in if oe_activate env 1 then (oe_excl2 env, hns, engine_init True f hns (oe_excl2 env) s)
                     else (False, hns, s)))
     in (ok, hns, s\<lparr>wa_exclusive := ok\<rparr>))"

text \<open>Second strategy: shared with the user's format; the flag tells whether to go on at all.\<close>

definition try_shared :: "open_env \<Rightarrow> int \<Rightarrow> wasapi \<Rightarrow> bool \<times> bool \<times> wasapi" where
  "try_shared env hns s =
    (let s = s\<lparr>wa_exclusive := False\<rparr> in
     if \<not> wa_client s \<and> \<not> oe_activate env 2 then (False, False, s)
     else let s = s\<lparr>wa_client := True\<rparr>
          in (True, oe_shared env, engine_init False (user_format (wa_cfg s)) hns (oe_shared env) s))"

text \<open>Third strategy: shared with the mix format, which becomes the format in use.\<close>

definition try_mix :: "open_env \<Rightarrow> int \<Rightarrow> wasapi \<Rightarrow> bool \<times> bool \<times> wave_format \<times> wasapi" where
  "try_mix env hns s = (case oe_mix_format env of
      None \<Rightarrow> (True, False, user_format (wa_cfg s), s)
    | Some f \<Rightarrow>
        let s = s\<lparr>wa_mix := True, wa_client := oe_activate env 3\<rparr>
        in if \<not> oe_activate env 3 then (False, False, f, s)
           else (True, oe_mix_init env, f, engine_init False f hns (oe_mix_init env) s))"

definition detect_float :: "wave_format \<Rightarrow> bool" where
  "detect_float f = (case wf_tag f of TagFloat \<Rightarrow> True | TagExtensible b \<Rightarrow> b | TagPcm \<Rightarrow> False)"

definition use_format :: "open_env \<Rightarrow> wave_format \<Rightarrow> wasapi \<Rightarrow> bool \<times> wasapi" where
  "use_format env f s =
    (let s = s\<lparr>wa_is_float := detect_float f, wa_rate := wf_rate f,
               wa_channels := ucast (wf_channels f), wa_bits := ucast (wf_bits f)\<rparr>
     in if \<not> oe_set_event env then (False, s)
        else if \<not> oe_service env then (False, s\<lparr>wa_capture := False\<rparr>)
        else let s = s\<lparr>wa_capture := True\<rparr>
             in (True, case oe_buffer_size env of None \<Rightarrow> s | Some bf \<Rightarrow> s\<lparr>wa_buffer_frames := bf\<rparr>))"

definition open_engine :: "open_env \<Rightarrow> wasapi \<Rightarrow> bool \<times> wasapi" where
  "open_engine env s =
    (let cfg = wa_cfg s in
     if \<not> find_device env cfg then (False, s\<lparr>wa_device := False\<rparr>)
     else let s = s\<lparr>wa_device := True, wa_client := oe_activate env 0\<rparr> in
     if \<not> oe_activate env 0 then (False, s)
     else
       let hns = uint (wc_buffer_ms cfg) * 10000;
           (ok, hns, s) = (if wc_exclusive cfg \<and> \<not> wc_loopback cfg then try_exclusive env hns s else (False, hns, s))
       in if ok then use_format env (user_format cfg) s
          else (case try_shared env hns s of (go, ok, s) \<Rightarrow>
            if \<not> go then (False, s)
            else if ok then use_format env (user_format cfg) s
            else (case try_mix env hns s of (go, ok, f, s) \<Rightarrow>
              if \<not> go \<or> \<not> ok then (False, s) else use_format env f s)))"


section \<open>One packet\<close>

definition AUDCLNT_BUFFERFLAGS_DATA_DISCONTINUITY :: u32 where [model_defs]:
  "AUDCLNT_BUFFERFLAGS_DATA_DISCONTINUITY = 1"
definition AUDCLNT_BUFFERFLAGS_SILENT :: u32 where [model_defs]: "AUDCLNT_BUFFERFLAGS_SILENT = 2"

text \<open>Little-endian samples in the device's buffer.\<close>

definition le16 :: "u8 list \<Rightarrow> nat \<Rightarrow> u16" where
  "le16 bs i = word_of_nat (unat (bs ! (2 * i)) + 256 * unat (bs ! (2 * i + 1)))"

definition le32 :: "u8 list \<Rightarrow> nat \<Rightarrow> u32" where
  "le32 bs i = word_of_nat (unat (bs ! (4 * i)) + 2 ^ 8 * unat (bs ! (4 * i + 1))
     + 2 ^ 16 * unat (bs ! (4 * i + 2)) + 2 ^ 24 * unat (bs ! (4 * i + 3)))"

text \<open>Writing the first elements of the fixed buffer; more than its 65536 would be out of bounds.\<close>

definition write_scratch :: "u32 list \<Rightarrow> wasapi \<Rightarrow> wasapi" where
  "write_scratch xs s = s\<lparr>wa_scratch := xs @ drop (length xs) (wa_scratch s)\<rparr>"

definition total_samples :: "u32 \<Rightarrow> wasapi \<Rightarrow> nat" where
  "total_samples frames s = unat (frames * wa_channels s)"

definition converted :: "u8 list \<Rightarrow> u32 \<Rightarrow> u32 \<Rightarrow> wasapi \<Rightarrow> u32 list" where
  "converted src frames flags s =
    (let total = total_samples frames s in
     if flags AND AUDCLNT_BUFFERFLAGS_SILENT \<noteq> 0 then replicate total 0
     else if wa_is_float s then map (le32 src) [0..<total]
     else if wa_bits s = 16 then map (\<lambda>i. pcm16_to_float (le16 src i)) [0..<total]
     else if wa_bits s = 32 then map (\<lambda>i. pcm32_to_float (le32 src i)) [0..<total]
     else replicate total 0)"

definition convert_to_float :: "u8 list \<Rightarrow> u32 \<Rightarrow> u32 \<Rightarrow> wasapi \<Rightarrow> wasapi" where
  "convert_to_float src frames flags s = write_scratch (converted src frames flags s) s"

definition count_jitter :: "u32 \<Rightarrow> wasapi \<Rightarrow> wasapi" where
  "count_jitter flags s =
    (let s = (if flags AND AUDCLNT_BUFFERFLAGS_DATA_DISCONTINUITY \<noteq> 0
              then s\<lparr>wa_underruns := wa_underruns s + 1, wa_glitches := wa_glitches s + 1\<rparr> else s);
         s = s\<lparr>wa_window_count := wa_window_count s + 1\<rparr>
     in if wa_window_count s \<ge> 5 then s\<lparr>wa_window_count := 0, wa_glitches := 0\<rparr> else s)"

definition peak :: "u32 list \<Rightarrow> rat" where
  "peak xs = fold (\<lambda>x p. let a = \<bar>float_val x\<bar> in if a > p then a else p) xs 0"

definition detect_silence_and_jitter :: "u32 \<Rightarrow> u32 \<Rightarrow> int \<Rightarrow> wasapi \<Rightarrow> wasapi" where
  "detect_silence_and_jitter frames flags now s =
    (let s = count_jitter flags s in
     if peak (take (total_samples frames s) (wa_scratch s)) < kSilenceAmplitude
     then if wa_silence_start s = 0 then s\<lparr>wa_silence_start := now, wa_silence_logged := False\<rparr>
          else if \<not> wa_silence_logged s \<and> now - wa_silence_start s \<ge> kSilenceUs
          then s\<lparr>wa_silence_logged := True\<rparr> else s
     else s\<lparr>wa_silence_start := 0, wa_silence_logged := False\<rparr>)"

text \<open>A packet: what \<open>GetBuffer\<close> gives (bytes, frames, flags, time in 100 ns), or whether it failed
  because the device is gone; the clock; the answers of \<open>ReleaseBuffer\<close> and of the next
  \<open>GetNextPacketSize\<close> (\<open>None\<close>: failed).\<close>

record packet_env =
  pe_buffer :: "(u8 list \<times> u32 \<times> u32 \<times> u64) option"
  pe_invalidated :: bool
  pe_now :: int
  pe_release :: bool
  pe_next :: "u32 option"

definition clamp_frames :: "u32 \<Rightarrow> wasapi \<Rightarrow> u32 \<times> wasapi" where
  "clamp_frames frames s = (if frames > kMaxFrames
     then (kMaxFrames, s\<lparr>wa_overruns := wa_overruns s + 1, wa_frame_drops := wa_frame_drops s + 1\<rparr>)
     else (frames, s))"

text \<open>\<open>False\<close>: the capture loop returns \<open>false\<close>.\<close>

definition capture_packet :: "packet_env \<Rightarrow> wasapi \<Rightarrow> bool \<times> wasapi" where
  "capture_packet env s = (case pe_buffer env of
      None \<Rightarrow> (False, if pe_invalidated env then wa_emit (ConnectionLost AudioDeviceInvalidated) s else s)
    | Some (src, available, flags, qpc) \<Rightarrow>
        let s = wa_emit (GotBuffer available) s;
            pts = (if qpc \<noteq> 0 then uint (qpc div 10) else pe_now env);
            (frames, s) = clamp_frames available s
        in if wa_channels s = 0 \<or> wa_channels s > kMaxChannels
           then (False, wa_emit (ReleasedBuffer available) s)
           else
             let s = detect_silence_and_jitter frames flags pts (convert_to_float src frames flags s);
                 s = wa_emit (AudioFrames (take (total_samples frames s) (wa_scratch s)) frames
                       (wa_channels s) (wa_rate s) pts) s
             in (pe_release env, wa_emit (ReleasedBuffer available) s))"

text \<open>The packets of one wake-up; \<open>None\<close>: the list ends before the loop does.\<close>

fun capture_packets :: "u32 option \<Rightarrow> packet_env list \<Rightarrow> wasapi \<Rightarrow> bool option \<times> wasapi" where
  "capture_packets pkt envs s = (case pkt of
      None \<Rightarrow> (Some True, s)
    | Some n \<Rightarrow> if n = 0 then (Some True, s) else (case envs of
        [] \<Rightarrow> (None, s)
      | env # envs' \<Rightarrow> (case capture_packet env s of
          (False, s) \<Rightarrow> (Some False, s)
        | (True, s) \<Rightarrow> capture_packets (pe_next env) envs' s)))"

declare capture_packets.simps [simp del]

section \<open>Metrics\<close>

definition compute_cpu_percent :: "(u64 \<times> u64 \<times> u64 \<times> u32) option \<Rightarrow> wasapi \<Rightarrow> rat \<times> wasapi" where
  "compute_cpu_percent ptimes s = (case ptimes of
      None \<Rightarrow> (0, s)
    | Some (cpu, qpc, freq, ncpus) \<Rightarrow>
        if wa_wall_prev s = 0 then (0, s\<lparr>wa_cpu_prev := cpu, wa_wall_prev := qpc\<rparr>)
        else
          let d_cpu = cpu - wa_cpu_prev s; d_wall = qpc - wa_wall_prev s;
              s = s\<lparr>wa_cpu_prev := cpu, wa_wall_prev := qpc\<rparr>
          in if d_wall = 0 then (0, s)
             else let cores = (if ncpus = 0 then 1 else ncpus)
               in (f32 (f32 (f32 (u64f d_cpu * u64f freq) / f32 (f32 (u64f d_wall * 10000000) * u2f cores)) * 100), s))"

definition publish_metrics :: "int \<Rightarrow> (u64 \<times> u64 \<times> u64 \<times> u32) option \<Rightarrow> wasapi \<Rightarrow> wasapi" where
  "publish_metrics now ptimes s =
    (if now - wa_last_metric s < kMetricPeriodUs then s
     else (case compute_cpu_percent ptimes (s\<lparr>wa_last_metric := now\<rparr>) of (cpu, s) \<Rightarrow>
       wa_emit (MetricPushed \<lparr>ms_magic_head = RJ_METRIC_MAGIC, ms_magic_tail = RJ_METRIC_MAGIC,
           ms_timestamp_us = word_of_int now,
           ms_bitrate_kbps = (wa_rate s * wa_channels s * 32) div 1000,
           ms_fps_actual = (if wa_buffer_frames s > 0 then f32 (u2f (wa_rate s) / u2f (wa_buffer_frames s)) else 0),
           ms_cpu_percent = cpu, ms_frame_drops = wa_frame_drops s,
           ms_frame_drop_pct = 0, ms_gpu_temp = 0, ms_cpu_temp = 0, ms_memory_pct = 0, ms_cpu_load = 0,
           ms_gpu_load = 0, ms_rtt_ms = 0, ms_loss_pct = 0, ms_source_id = 1\<rparr>)
         (s\<lparr>wa_frame_drops := 0\<rparr>)))"

section \<open>The loops\<close>

text \<open>What other threads do between two checks.\<close>

datatype control = CtlStart | CtlStop | CtlNotify notification | CtlShutdown

fun control_step :: "control \<Rightarrow> wasapi \<Rightarrow> wasapi" where
  "control_step CtlStart s = snd (wasapi_start s)"
| "control_step CtlStop s = snd (wasapi_stop s)"
| "control_step (CtlNotify n) s = notify_client n s"
| "control_step CtlShutdown s = s\<lparr>wa_stop_thread := True, wa_start_requested := False\<rparr>"

text \<open>One wait of the capture loop and its answer; clock and process times for the metrics.\<close>

datatype wake = WaitTimeout | WakeEvent | WaitFailed | AudioEvent "u32 option" "packet_env list"

record loop_turn =
  lt_before :: "control list"
  lt_wake :: wake
  lt_now :: int
  lt_times :: "(u64 \<times> u64 \<times> u64 \<times> u32) option"

fun capture_loop :: "loop_turn list \<Rightarrow> wasapi \<Rightarrow> bool option \<times> wasapi" where
  "capture_loop [] s = (None, s)"
| "capture_loop (t # ts) s =
    (let s = fold control_step (lt_before t) s in
     if wa_stop_thread s \<or> \<not> wa_start_requested s \<or> wa_dirty s then (Some True, s)
     else (case lt_wake t of
         WaitTimeout \<Rightarrow> capture_loop ts (publish_metrics (lt_now t) (lt_times t) s)
       | WakeEvent \<Rightarrow> capture_loop ts s
       | WaitFailed \<Rightarrow> (Some False, s)
       | AudioEvent pkt envs \<Rightarrow> (case capture_packets pkt envs s of
           (None, s) \<Rightarrow> (None, s)
         | (Some False, s) \<Rightarrow> (Some False, s)
         | (Some True, s) \<Rightarrow> capture_loop ts (publish_metrics (lt_now t) (lt_times t) s))))"

text \<open>One turn of the supervisor: what others did, the answers to opening and starting the engine,
  and the capture loop. The first answer is \<open>None\<close> while the capture loop is still running.\<close>

record super_turn =
  su_before :: "control list"
  su_open :: open_env
  su_start :: bool
  su_loop :: "loop_turn list"

definition start_engine :: "super_turn \<Rightarrow> wasapi \<Rightarrow> bool \<times> wasapi" where
  "start_engine t s =
    (if wa_engine_active s then (True, s)
     else (case open_engine (su_open t) s of
         (False, s) \<Rightarrow> (False, s)
       | (True, s) \<Rightarrow>
           if \<not> su_start t then (False, release_engine s)
           else (True, wa_emit EngineStarted (s\<lparr>wa_engine_active := True, wa_running := True\<rparr>))))"

definition supervisor_turn :: "super_turn \<Rightarrow> wasapi \<Rightarrow> unit option \<times> wasapi" where
  "supervisor_turn t s =
    (if \<not> wa_start_requested s then (Some (), s)
     else
       let s = (if wa_dirty s then release_engine (s\<lparr>wa_dirty := False\<rparr>) else s) in
       (case start_engine t s of
          (False, s) \<Rightarrow> (Some (), s)
        | (True, s) \<Rightarrow> (case capture_loop (su_loop t) s of
            (None, s) \<Rightarrow> (None, s)
          | (Some ok, s) \<Rightarrow>
              let s = (if ok then s else release_engine s)
              in (Some (), if wa_start_requested s then s else release_engine s))))"

text \<open>The thread: turns until it is told to stop, then the final release. \<open>None\<close>: it still runs.\<close>

fun supervisor_main :: "super_turn list \<Rightarrow> wasapi \<Rightarrow> unit option \<times> wasapi" where
  "supervisor_main [] s = (None, s)"
| "supervisor_main (t # ts) s =
    (let s = fold control_step (su_before t) s in
     if wa_stop_thread s then (Some (), release_engine s)
     else (case supervisor_turn t s of (None, s) \<Rightarrow> (None, s) | (Some _, s) \<Rightarrow> supervisor_main ts s))"


section \<open>Buffers and bounds\<close>

fun buf_res :: "wasapi_call \<Rightarrow> u32 res option" where
  "buf_res (GotBuffer n) = Some (Acq n)"
| "buf_res (ReleasedBuffer n) = Some (Rel n)"
| "buf_res _ = None"

text \<open>Frames handed to the sink: as many samples as announced, within the fixed buffer.\<close>

fun frames_ok :: "wasapi_call \<Rightarrow> bool" where
  "frames_ok (AudioFrames xs n ch r t) \<longleftrightarrow> length xs = unat n * unat ch
     \<and> unat n \<le> 8192 \<and> 1 \<le> unat ch \<and> unat ch \<le> 8"
| "frames_ok _ \<longleftrightarrow> True"

text \<open>What the capture holds of the system: the COM reference and the registered notification client.\<close>

datatype sys_handle = ComRef | Notification

fun sys_res :: "wasapi_call \<Rightarrow> sys_handle res option" where
  "sys_res ComInit = Some (Acq ComRef)"
| "sys_res ComUninit = Some (Rel ComRef)"
| "sys_res Registered = Some (Acq Notification)"
| "sys_res Unregistered = Some (Rel Notification)"
| "sys_res _ = None"

definition wa_ok :: "sys_handle multiset \<Rightarrow> wasapi \<Rightarrow> bool" where
  "wa_ok h s \<longleftrightarrow> length (wa_scratch s) = 65536 \<and> list_all frames_ok (wa_trace s)
     \<and> live_by buf_res (wa_trace s) = {#} \<and> live_by sys_res (wa_trace s) = h"

lemma wa_emit_simps [simp]:
  "wa_trace (wa_emit c s) = wa_trace s @ [c]" "wa_scratch (wa_emit c s) = wa_scratch s"
  "wa_channels (wa_emit c s) = wa_channels s" "wa_rate (wa_emit c s) = wa_rate s"
  "wa_cfg (wa_emit c s) = wa_cfg s" "wa_client (wa_emit c s) = wa_client s"
  "wa_capture (wa_emit c s) = wa_capture s" "wa_device (wa_emit c s) = wa_device s"
  "wa_engine_active (wa_emit c s) = wa_engine_active s" "wa_running (wa_emit c s) = wa_running s"
  "wa_start_requested (wa_emit c s) = wa_start_requested s" "wa_stop_thread (wa_emit c s) = wa_stop_thread s"
  "wa_dirty (wa_emit c s) = wa_dirty s" "wa_initialized (wa_emit c s) = wa_initialized s"
  "wa_is_float (wa_emit c s) = wa_is_float s" "wa_bits (wa_emit c s) = wa_bits s"
  "wa_com (wa_emit c s) = wa_com s" "wa_notify (wa_emit c s) = wa_notify s"
  "wa_enumerator (wa_emit c s) = wa_enumerator s" "wa_exclusive (wa_emit c s) = wa_exclusive s"
  "wa_mix (wa_emit c s) = wa_mix s"
  by (simp_all add: wa_emit_def)

text \<open>An operation that writes nothing into the buffer and hands out nothing keeps \<open>wa_ok\<close>.\<close>

fun quiet :: "wasapi_call \<Rightarrow> bool" where
  "quiet ComInit \<longleftrightarrow> False"
| "quiet ComUninit \<longleftrightarrow> False"
| "quiet Registered \<longleftrightarrow> False"
| "quiet Unregistered \<longleftrightarrow> False"
| "quiet (GotBuffer _) \<longleftrightarrow> False"
| "quiet (ReleasedBuffer _) \<longleftrightarrow> False"
| "quiet (AudioFrames _ _ _ _ _) \<longleftrightarrow> False"
| "quiet _ \<longleftrightarrow> True"

definition quiet_step :: "wasapi \<Rightarrow> wasapi \<Rightarrow> bool" where
  "quiet_step s s' \<longleftrightarrow> wa_scratch s' = wa_scratch s
     \<and> (\<exists>cs. list_all quiet cs \<and> wa_trace s' = wa_trace s @ cs)"

lemma quiet_neutral: "quiet c \<Longrightarrow> buf_res c = None \<and> sys_res c = None \<and> frames_ok c"
  by (cases c) simp_all

lemma quiet_live: "list_all quiet cs \<Longrightarrow>
    live_by buf_res (tr @ cs) = live_by buf_res tr \<and> live_by sys_res (tr @ cs) = live_by sys_res tr"
proof (induction cs arbitrary: tr)
  case (Cons c cs)
  have "live_by buf_res (tr @ [c]) = live_by buf_res tr" "live_by sys_res (tr @ [c]) = live_by sys_res tr"
    using Cons.prems quiet_neutral[of c] by simp_all
  then show ?case using Cons.IH[of "tr @ [c]"] Cons.prems by simp
qed simp

lemma quiet_step_ok: "quiet_step s s' \<Longrightarrow> wa_ok h s \<Longrightarrow> wa_ok h s'"
  using quiet_live by (auto simp: quiet_step_def wa_ok_def list_all_iff dest: quiet_neutral)

lemma quiet_refl [simp]: "quiet_step s s"
  by (simp add: quiet_step_def)

lemma quiet_trans: "quiet_step a b \<Longrightarrow> quiet_step b c \<Longrightarrow> quiet_step a c"
proof -
  assume ab: "quiet_step a b" and bc: "quiet_step b c"
  then obtain cs ds where "list_all quiet cs" "wa_trace b = wa_trace a @ cs" "list_all quiet ds"
    "wa_trace c = wa_trace b @ ds" by (auto simp: quiet_step_def)
  then have "list_all quiet (cs @ ds)" "wa_trace c = wa_trace a @ (cs @ ds)" by simp_all
  then show ?thesis using ab bc by (auto simp: quiet_step_def)
qed

lemma quiet_same: "wa_trace s' = wa_trace s \<Longrightarrow> wa_scratch s' = wa_scratch s \<Longrightarrow> quiet_step s s'"
  by (simp add: quiet_step_def)

lemma quiet_emit:
  "wa_trace s' = wa_trace s @ [c] \<Longrightarrow> wa_scratch s' = wa_scratch s \<Longrightarrow> quiet c \<Longrightarrow> quiet_step s s'"
  unfolding quiet_step_def by (intro conjI exI[of _ "[c]"]) simp_all

lemma wa_ok_emit: "quiet c \<Longrightarrow> wa_ok h s \<Longrightarrow> wa_ok h (wa_emit c s)"
  by (rule quiet_step_ok[OF quiet_emit[of _ _ c]]) simp_all

lemma quiet_release_engine: "quiet_step s (release_engine s)"
  by (cases "wa_client s")
    (auto simp: release_engine_def Let_def intro: quiet_same quiet_emit[where c = EngineStopped])

lemma quiet_notify: "quiet_step s (notify_client n s)"
  by (cases n) (auto simp: notify_client_def on_device_change_def intro: quiet_emit)

lemma quiet_control: "quiet_step s (control_step c s)"
  by (cases c) (auto simp: wasapi_start_def wasapi_stop_def quiet_notify intro: quiet_same)

lemma quiet_controls: "quiet_step s (fold control_step cs s)"
proof (induction cs arbitrary: s)
  case (Cons c cs)
  then show ?case using quiet_trans[OF quiet_control[of s c]] by simp
qed simp

lemma quiet_publish: "quiet_step s (publish_metrics now pt s)"
  by (auto simp: publish_metrics_def compute_cpu_percent_def Let_def
      intro: quiet_same quiet_emit split: option.splits prod.splits)

lemma quiet_use_format: "quiet_step s (snd (use_format env f s))"
  by (auto simp: use_format_def Let_def intro!: quiet_same split: option.splits)

lemma quiet_try_exclusive: "try_exclusive env hns s = (ok, h, s') \<Longrightarrow> quiet_step s s'"
  by (auto simp: try_exclusive_def engine_init_def Let_def
      intro: quiet_same quiet_emit split: excl_answer.splits option.splits if_splits)

lemma quiet_try_shared: "try_shared env hns s = (go, ok, s') \<Longrightarrow> quiet_step s s'"
  by (auto simp: try_shared_def engine_init_def Let_def intro: quiet_same quiet_emit split: if_splits)

lemma quiet_try_mix: "try_mix env hns s = (go, ok, f, s') \<Longrightarrow> quiet_step s s'"
  by (auto simp: try_mix_def engine_init_def Let_def intro: quiet_same quiet_emit
      split: option.splits if_splits)

lemma quiet_open_engine: "quiet_step s (snd (open_engine env s))"
proof (cases "find_device env (wa_cfg s) \<and> oe_activate env 0")
  case False
  then show ?thesis by (auto simp: open_engine_def Let_def intro: quiet_same)
next
  case True
  let ?s1 = "s\<lparr>wa_device := True, wa_client := True\<rparr>"
  let ?hns = "uint (wc_buffer_ms (wa_cfg s)) * 10000"
  let ?ex = "if wc_exclusive (wa_cfg s) \<and> \<not> wc_loopback (wa_cfg s) then try_exclusive env ?hns ?s1 else (False, ?hns, ?s1)"
  obtain ok hns s2 where ex: "?ex = (ok, hns, s2)" by (rule prod_cases3)
  obtain go3 ok3 s3 where sh: "try_shared env hns s2 = (go3, ok3, s3)" by (rule prod_cases3)
  obtain go4 ok4 f s4 where mx: "try_mix env hns s3 = (go4, ok4, f, s4)" by (rule prod_cases4)
  have q1: "quiet_step s ?s1" by (rule quiet_same) simp_all
  have q2: "quiet_step ?s1 s2" using ex quiet_try_exclusive by (auto split: if_splits)
  note q3 = quiet_try_shared[OF sh] and q4 = quiet_try_mix[OF mx]
  note q = quiet_trans[OF q1 q2] quiet_trans[OF quiet_trans[OF q1 q2] q3]
    quiet_trans[OF quiet_trans[OF quiet_trans[OF q1 q2] q3] q4]
  show ?thesis
    using q quiet_use_format quiet_trans[OF q(1) quiet_use_format] quiet_trans[OF q(2) quiet_use_format]
      quiet_trans[OF q(3) quiet_use_format] True
    by (simp add: open_engine_def Let_def ex sh mx)
qed


subsection \<open>Packets\<close>

lemma length_converted [simp]: "length (converted src frames flags s) = total_samples frames s"
  by (simp add: converted_def Let_def)

lemma count_jitter_simps [simp]:
  "wa_scratch (count_jitter fl s) = wa_scratch s" "wa_trace (count_jitter fl s) = wa_trace s"
  "wa_channels (count_jitter fl s) = wa_channels s" "wa_rate (count_jitter fl s) = wa_rate s"
  by (simp_all add: count_jitter_def Let_def)

lemma detect_simps [simp]:
  "wa_scratch (detect_silence_and_jitter n fl now s) = wa_scratch s"
  "wa_trace (detect_silence_and_jitter n fl now s) = wa_trace s"
  "wa_channels (detect_silence_and_jitter n fl now s) = wa_channels s"
  "wa_rate (detect_silence_and_jitter n fl now s) = wa_rate s"
  by (simp_all add: detect_silence_and_jitter_def Let_def)

lemma convert_simps [simp]:
  "wa_trace (convert_to_float src n fl s) = wa_trace s"
  "wa_channels (convert_to_float src n fl s) = wa_channels s"
  "wa_rate (convert_to_float src n fl s) = wa_rate s"
  "wa_scratch (convert_to_float src n fl s) = converted src n fl s @ drop (total_samples n s) (wa_scratch s)"
  by (simp_all add: convert_to_float_def write_scratch_def)

lemma clamp_frames_bound: "clamp_frames n s = (m, s') \<Longrightarrow> unat m \<le> 8192"
  by (auto simp: clamp_frames_def kMaxFrames_def word_less_nat_alt split: if_splits)

lemma clamp_frames_simps:
  "clamp_frames n s = (m, s') \<Longrightarrow> wa_trace s' = wa_trace s \<and> wa_scratch s' = wa_scratch s
    \<and> wa_channels s' = wa_channels s \<and> wa_rate s' = wa_rate s \<and> wa_is_float s' = wa_is_float s \<and> wa_bits s' = wa_bits s"
  by (auto simp: clamp_frames_def split: if_splits)

text \<open>The product of the clamped counts does not wrap and fits the buffer.\<close>

lemma total_samples_bound:
  assumes "unat n \<le> 8192" "unat (wa_channels s) \<le> 8"
  shows "total_samples n s = unat n * unat (wa_channels s)" "total_samples n s \<le> 65536"
proof -
  have "unat n * unat (wa_channels s) \<le> 8192 * 8" using assms by (rule mult_le_mono)
  then show "total_samples n s = unat n * unat (wa_channels s)" "total_samples n s \<le> 65536"
    by (simp_all add: total_samples_def unat_word_ariths)
qed

lemma total_samples_cong: "wa_channels s' = wa_channels s \<Longrightarrow> total_samples n s' = total_samples n s"
  by (simp add: total_samples_def)

text \<open>What a packet does: the buffer is returned with its full count, and what the sink is given
  is exactly the converted packet.\<close>

lemma capture_packet_trace:
  assumes "pe_buffer env = Some (src, available, flags, qpc)" "clamp_frames available (wa_emit (GotBuffer available) s) = (frames, s1)"
  shows "wa_trace (snd (capture_packet env s)) = wa_trace s @ [GotBuffer available]
      @ (if wa_channels s = 0 \<or> wa_channels s > kMaxChannels then []
         else [AudioFrames (converted src frames flags s1) frames (wa_channels s) (wa_rate s)
                 (if qpc \<noteq> 0 then uint (qpc div 10) else pe_now env)])
      @ [ReleasedBuffer available]"
  using assms clamp_frames_simps[OF assms(2)]
  by (auto simp: capture_packet_def Let_def total_samples_def)

lemma capture_packet_ok:
  assumes "wa_ok h s"
  shows "wa_ok h (snd (capture_packet env s))"
proof (cases "pe_buffer env")
  case None
  then show ?thesis
    using assms by (simp add: capture_packet_def wa_ok_emit)
next
  case (Some b)
  obtain src available flags qpc where b: "b = (src, available, flags, qpc)" by (rule prod_cases4)
  obtain frames s1 where c: "clamp_frames available (wa_emit (GotBuffer available) s) = (frames, s1)" by (rule prod.exhaust)
  note tr = capture_packet_trace[OF Some[unfolded b] c]
  note cs = clamp_frames_simps[OF c] and cb = clamp_frames_bound[OF c]
  show ?thesis
  proof (cases "wa_channels s = 0 \<or> wa_channels s > kMaxChannels")
    case True
    have "wa_scratch (snd (capture_packet env s)) = wa_scratch s"
      using Some b c cs True by (simp add: capture_packet_def Let_def)
    with tr True assms show ?thesis
      by (simp add: wa_ok_def live_by_bracket[of buf_res "GotBuffer available" available "ReleasedBuffer available" "[]", simplified]
        live_by_neutral[of sys_res "[GotBuffer available, ReleasedBuffer available]"])
  next
    case False
    then have ch: "1 \<le> unat (wa_channels s)" "unat (wa_channels s) \<le> 8"
      by (simp_all add: kMaxChannels_def word_less_nat_alt not_less unat_gt_0 Suc_leI)
    have t: "total_samples frames s1 = unat frames * unat (wa_channels s)" "total_samples frames s1 \<le> 65536"
      using total_samples_bound[OF cb, of s1] ch cs by simp_all
    have scr: "wa_scratch (snd (capture_packet env s)) = converted src frames flags s1 @ drop (total_samples frames s1) (wa_scratch s)"
      using Some b c cs False by (simp add: capture_packet_def Let_def)
    have "length (wa_scratch (snd (capture_packet env s))) = 65536"
      using scr t(2) assms by (simp add: wa_ok_def)
    moreover have "frames_ok (AudioFrames (converted src frames flags s1) frames (wa_channels s) (wa_rate s) p)" for p
      using t cb ch by simp
    ultimately show ?thesis
      using tr False assms live_by_bracket[of buf_res "GotBuffer available" available "ReleasedBuffer available"
          "[AudioFrames (converted src frames flags s1) frames (wa_channels s) (wa_rate s)
                 (if qpc \<noteq> 0 then uint (qpc div 10) else pe_now env)]" "wa_trace s"]
        live_by_neutral[of sys_res "[GotBuffer available, AudioFrames (converted src frames flags s1) frames
          (wa_channels s) (wa_rate s) (if qpc \<noteq> 0 then uint (qpc div 10) else pe_now env), ReleasedBuffer available]"]
      by (simp add: wa_ok_def)
  qed
qed

lemma capture_packets_ok: "wa_ok h s \<Longrightarrow> wa_ok h (snd (capture_packets pkt envs s))"
proof (induction pkt envs s rule: capture_packets.induct)
  case (1 pkt envs s)
  show ?case
  proof (cases "pkt = None \<or> pkt = Some 0 \<or> envs = []")
    case True
    with 1(2) show ?thesis by (subst capture_packets.simps) (auto split: option.splits list.splits)
  next
    case False
    then obtain n env envs' where n: "pkt = Some n" "n \<noteq> 0" "envs = env # envs'"
      by (metis list.exhaust option.exhaust)
    obtain r s1 where p: "capture_packet env s = (r, s1)" by (rule prod.exhaust)
    have ok: "wa_ok h s1" using capture_packet_ok[OF 1(2), of env] p by simp
    show ?thesis
      using 1(1)[OF n(1,2,3) p[symmetric]] ok n p by (subst capture_packets.simps) (cases r; simp)
  qed
qed

lemma capture_loop_ok: "wa_ok h s \<Longrightarrow> wa_ok h (snd (capture_loop ts s))"
proof (induction ts arbitrary: s)
  case (Cons t ts)
  define s1 where "s1 = fold control_step (lt_before t) s"
  have ok: "wa_ok h s1" unfolding s1_def by (rule quiet_step_ok[OF quiet_controls Cons.prems])
  note ih = Cons.IH[OF ok] and pub = Cons.IH[OF quiet_step_ok[OF quiet_publish]]
  show ?case
  proof (cases "lt_wake t")
    case (AudioEvent pkt envs)
    obtain r s2 where p: "capture_packets pkt envs s1 = (r, s2)" by (rule prod.exhaust)
    have "wa_ok h s2" using capture_packets_ok[OF ok, of pkt envs] p by simp
    with pub[OF this] ok AudioEvent p show ?thesis
      by (auto simp: s1_def[symmetric] Let_def split: option.splits bool.splits)
  qed (use ok ih pub[OF ok] in \<open>auto simp: s1_def[symmetric] Let_def\<close>)
qed simp

lemma start_engine_ok: "wa_ok h s \<Longrightarrow> wa_ok h (snd (start_engine t s))"
proof -
  assume ok: "wa_ok h s"
  obtain b s1 where o: "open_engine (su_open t) s = (b, s1)" by (rule prod.exhaust)
  have s1: "wa_ok h s1" using quiet_step_ok[OF quiet_open_engine ok, of "su_open t"] o by simp
  have s2: "wa_ok h (wa_emit EngineStarted (s1\<lparr>wa_engine_active := True, wa_running := True\<rparr>))"
    by (rule wa_ok_emit[OF _ quiet_step_ok[OF quiet_same s1]]) simp_all
  have s3: "wa_ok h (release_engine s1)" by (rule quiet_step_ok[OF quiet_release_engine s1])
  from s1 s2 s3 ok o show ?thesis
    by (simp add: start_engine_def split: bool.splits)
qed

lemma supervisor_turn_ok: "wa_ok h s \<Longrightarrow> wa_ok h (snd (supervisor_turn t s))"
proof -
  assume ok: "wa_ok h s"
  have rel: "wa_ok h (release_engine x)" if "wa_ok h x" for x by (rule quiet_step_ok[OF quiet_release_engine that])
  have dirty: "wa_ok h (s\<lparr>wa_dirty := False\<rparr>)" by (rule quiet_step_ok[OF quiet_same ok]) simp_all
  define s1 where "s1 = (if wa_dirty s then release_engine (s\<lparr>wa_dirty := False\<rparr>) else s)"
  have s1: "wa_ok h s1" using rel[OF dirty] ok by (simp add: s1_def)
  obtain b s2 where st: "start_engine t s1 = (b, s2)" by (rule prod.exhaust)
  have s2: "wa_ok h s2" using start_engine_ok[OF s1, of t] st by simp
  obtain r s3 where lp: "capture_loop (su_loop t) s2 = (r, s3)" by (rule prod.exhaust)
  have s3: "wa_ok h s3" using capture_loop_ok[OF s2, of "su_loop t"] lp by simp
  from ok s2 s3 rel[OF s3] rel[OF rel[OF s3]] st lp show ?thesis
    by (simp add: supervisor_turn_def s1_def[symmetric] Let_def split: bool.splits option.splits)
qed

lemma supervisor_main_ok: "wa_ok h s \<Longrightarrow> wa_ok h (snd (supervisor_main ts s))"
proof (induction ts arbitrary: s)
  case (Cons t ts)
  define s1 where "s1 = fold control_step (su_before t) s"
  have ok: "wa_ok h s1" unfolding s1_def by (rule quiet_step_ok[OF quiet_controls Cons.prems])
  obtain r s2 where p: "supervisor_turn t s1 = (r, s2)" by (rule prod.exhaust)
  have "wa_ok h s2" using supervisor_turn_ok[OF ok, of t] p by simp
  with Cons.IH[OF this] quiet_step_ok[OF quiet_release_engine ok] p show ?case
    by (auto simp: s1_def[symmetric] Let_def split: option.splits)
qed simp


section \<open>The engine's states\<close>

text \<open>An active engine has its device, client and capture service, runs in exclusive mode only if
  that was asked for, and is active exactly while \<open>is_running\<close> says so.\<close>

definition engine_inv :: "wasapi \<Rightarrow> bool" where
  "engine_inv s \<longleftrightarrow> (wa_running s \<longleftrightarrow> wa_engine_active s)
     \<and> (wa_engine_active s \<longrightarrow> wa_device s \<and> wa_client s \<and> wa_capture s
        \<and> (wa_exclusive s \<longrightarrow> wc_exclusive (wa_cfg s) \<and> \<not> wc_loopback (wa_cfg s)))"

text \<open>The last successful initialisation of the engine.\<close>

fun last_init :: "wasapi_call list \<Rightarrow> (bool \<times> wave_format) option" where
  "last_init [] = None"
| "last_init (EngineInit x f h # cs) = (case last_init cs of None \<Rightarrow> Some (x, f) | Some r \<Rightarrow> Some r)"
| "last_init (_ # cs) = last_init cs"

lemma last_init_snoc [simp]:
  "last_init (tr @ [EngineInit x f h]) = Some (x, f)"
  by (induction tr rule: last_init.induct) simp_all

definition format_of :: "wasapi \<Rightarrow> wave_format \<Rightarrow> bool" where
  "format_of s f \<longleftrightarrow> wa_rate s = wf_rate f \<and> wa_channels s = ucast (wf_channels f)
     \<and> wa_bits s = ucast (wf_bits f) \<and> wa_is_float s = detect_float f"

lemma use_format_True:
  assumes "use_format env f s = (True, s')"
  shows "format_of s' f" "wa_capture s'" "wa_device s' = wa_device s" "wa_client s' = wa_client s"
    "wa_exclusive s' = wa_exclusive s" "wa_trace s' = wa_trace s" "wa_cfg s' = wa_cfg s"
    "wa_engine_active s' = wa_engine_active s" "wa_running s' = wa_running s"
  using assms by (auto simp: use_format_def Let_def format_of_def split: if_splits option.splits)

definition opened_with :: "bool \<Rightarrow> wave_format \<Rightarrow> wasapi \<Rightarrow> wasapi \<Rightarrow> bool" where
  "opened_with x f s s' \<longleftrightarrow> last_init (wa_trace s') = Some (x, f) \<and> wa_exclusive s' = x \<and> wa_client s'
     \<and> wa_device s' = wa_device s \<and> wa_cfg s' = wa_cfg s \<and> wa_engine_active s' = wa_engine_active s
     \<and> wa_running s' = wa_running s"

lemma try_exclusive_ok:
  "try_exclusive env hns s = (True, h, s') \<Longrightarrow> wa_client s \<Longrightarrow> opened_with True (user_format (wa_cfg s)) s s'"
  by (auto simp: try_exclusive_def engine_init_def Let_def opened_with_def
      split: excl_answer.splits option.splits if_splits)

lemma try_exclusive_fail:
  "try_exclusive env hns s = (False, h, s') \<Longrightarrow> wa_device s' = wa_device s \<and> wa_cfg s' = wa_cfg s
    \<and> wa_engine_active s' = wa_engine_active s \<and> wa_running s' = wa_running s"
  by (auto simp: try_exclusive_def engine_init_def Let_def
      split: excl_answer.splits option.splits if_splits)

lemma try_shared_go:
  "try_shared env hns s = (True, ok, s') \<Longrightarrow> wa_device s' = wa_device s \<and> wa_cfg s' = wa_cfg s
    \<and> wa_engine_active s' = wa_engine_active s \<and> wa_running s' = wa_running s \<and> \<not> wa_exclusive s' \<and> wa_client s'
    \<and> (ok \<longrightarrow> opened_with False (user_format (wa_cfg s)) s s')"
  by (auto simp: try_shared_def engine_init_def Let_def opened_with_def split: if_splits)

lemma try_mix_ok:
  "try_mix env hns s = (True, True, f, s') \<Longrightarrow> \<not> wa_exclusive s \<Longrightarrow>
    opened_with False f s s' \<and> oe_mix_format env = Some f"
  by (auto simp: try_mix_def engine_init_def Let_def opened_with_def split: option.splits if_splits)

lemma open_engine_opened:
  assumes "open_engine env s = (True, s')"
  shows "\<exists>x f. opened_with x f (s\<lparr>wa_device := True\<rparr>) s' \<and> format_of s' f \<and> wa_capture s'
    \<and> (x \<longrightarrow> wc_exclusive (wa_cfg s) \<and> \<not> wc_loopback (wa_cfg s))
    \<and> (f = user_format (wa_cfg s) \<or> \<not> x \<and> oe_mix_format env = Some f)"
proof -
  let ?s1 = "s\<lparr>wa_device := True, wa_client := True\<rparr>"
  let ?hns = "uint (wc_buffer_ms (wa_cfg s)) * 10000"
  let ?want = "wc_exclusive (wa_cfg s) \<and> \<not> wc_loopback (wa_cfg s)"
  have found: "find_device env (wa_cfg s)" "oe_activate env 0"
    using assms by (auto simp: open_engine_def Let_def split: if_splits)
  obtain ok hns s2 where ex: "(if ?want then try_exclusive env ?hns ?s1 else (False, ?hns, ?s1)) = (ok, hns, s2)"
    by (rule prod_cases3)
  obtain go3 ok3 s3 where sh: "try_shared env hns s2 = (go3, ok3, s3)" by (rule prod_cases3)
  obtain go4 ok4 f4 s4 where mx: "try_mix env hns s3 = (go4, ok4, f4, s4)" by (rule prod_cases4)
  note op = assms[unfolded open_engine_def Let_def, simplified found ex, simplified]
  have s2: "wa_device s2" "wa_cfg s2 = wa_cfg s" "wa_engine_active s2 = wa_engine_active s" "wa_running s2 = wa_running s"
    if "\<not> ok" using that ex try_exclusive_fail[of env ?hns ?s1 hns s2] by (auto split: if_splits)
  have opened: ?thesis if "opened_with x f (s\<lparr>wa_device := True\<rparr>) t" "use_format env f t = (True, s')"
      "x \<longrightarrow> ?want" "f = user_format (wa_cfg s) \<or> \<not> x \<and> oe_mix_format env = Some f" for x f t
    using that use_format_True[OF that(2)] by (intro exI[of _ x] exI[of _ f]) (simp add: opened_with_def)
  show ?thesis
  proof (cases ok)
    case True
    then have w: ?want using ex by (auto split: if_splits)
    then have "opened_with True (user_format (wa_cfg s)) (s\<lparr>wa_device := True\<rparr>) s2"
      using True ex try_exclusive_ok[of env ?hns ?s1 hns s2] by (simp add: opened_with_def)
    then show ?thesis by (rule opened) (use op True w in simp_all)
  next
    case False
    note s2 = s2[OF False]
    have go3: go3 using op False sh by (auto split: if_splits)
    note s3 = try_shared_go[OF sh[unfolded eqTrueI[OF go3]]]
    show ?thesis
    proof (cases ok3)
      case True
      then have "opened_with False (user_format (wa_cfg s)) (s\<lparr>wa_device := True\<rparr>) s3"
        using s3 s2 by (simp add: opened_with_def)
      then show ?thesis by (rule opened) (use op False go3 True sh in simp_all)
    next
      case ok3: False
      then have go4: "go4" "ok4" "use_format env f4 s4 = (True, s')" using op False go3 sh mx ok3 by (auto split: if_splits)
      have m: "opened_with False f4 s3 s4" "oe_mix_format env = Some f4"
        using try_mix_ok[of env hns s3 f4 s4] mx go4 s3 by simp_all
      then have "opened_with False f4 (s\<lparr>wa_device := True\<rparr>) s4" using s3 s2 by (simp add: opened_with_def)
      then show ?thesis by (rule opened) (use go4 m in simp_all)
    qed
  qed
qed


definition same_engine :: "wasapi \<Rightarrow> wasapi \<Rightarrow> bool" where
  "same_engine s s' \<longleftrightarrow> wa_device s' = wa_device s \<and> wa_client s' = wa_client s \<and> wa_capture s' = wa_capture s
     \<and> wa_exclusive s' = wa_exclusive s \<and> wa_cfg s' = wa_cfg s \<and> wa_engine_active s' = wa_engine_active s
     \<and> wa_running s' = wa_running s \<and> wa_com s' = wa_com s \<and> wa_notify s' = wa_notify s
     \<and> wa_enumerator s' = wa_enumerator s"

lemma same_engine_trans: "same_engine a b \<Longrightarrow> same_engine b c \<Longrightarrow> same_engine a c"
  by (simp add: same_engine_def)

lemma same_engine_inv: "same_engine s s' \<Longrightarrow> engine_inv s \<Longrightarrow> engine_inv s'"
  by (simp add: same_engine_def engine_inv_def)

lemma same_engine_control: "same_engine s (control_step c s)"
proof (cases c)
  case (CtlNotify n)
  then show ?thesis
    by (cases n) (auto simp: same_engine_def notify_client_def on_device_change_def)
qed (auto simp: same_engine_def wasapi_start_def wasapi_stop_def)

lemma same_engine_controls: "same_engine s (fold control_step cs s)"
proof (induction cs arbitrary: s)
  case (Cons c cs)
  show ?case using same_engine_trans[OF same_engine_control[of s c] Cons.IH] by simp
qed (simp add: same_engine_def)

lemma same_engine_publish: "same_engine s (publish_metrics now pt s)"
  by (auto simp: publish_metrics_def compute_cpu_percent_def Let_def same_engine_def
      split: option.splits prod.splits)

lemma same_engine_steps [simp]:
  "same_engine s (wa_emit c s') = same_engine s s'"
  "same_engine s (convert_to_float src n fl s') = same_engine s s'"
  "same_engine s (count_jitter fl s') = same_engine s s'"
  by (simp_all add: same_engine_def wa_emit_def convert_to_float_def write_scratch_def count_jitter_def Let_def)

lemma same_engine_refl [simp]: "same_engine s s"
  by (simp add: same_engine_def)

lemma same_engine_detect [simp]:
  "same_engine s (detect_silence_and_jitter n fl now s') = same_engine s s'"
proof -
  define c where "c = count_jitter fl s'"
  have "same_engine c (detect_silence_and_jitter n fl now s')"
    "same_engine (detect_silence_and_jitter n fl now s') c"
    unfolding detect_silence_and_jitter_def c_def[symmetric] by (simp_all add: Let_def same_engine_def)
  then have "same_engine (count_jitter fl s') (detect_silence_and_jitter n fl now s')"
    "same_engine (detect_silence_and_jitter n fl now s') (count_jitter fl s')" by (simp_all add: c_def)
  then show ?thesis using same_engine_trans same_engine_steps(3) by metis
qed

lemma same_engine_clamp: "clamp_frames n s = (m, s') \<Longrightarrow> same_engine s s'"
  by (auto simp: clamp_frames_def same_engine_def split: if_splits)

lemma same_engine_packet: "same_engine s (snd (capture_packet env s))"
proof (cases "pe_buffer env")
  case (Some b)
  obtain src n fl qpc where b: "b = (src, n, fl, qpc)" by (rule prod_cases4)
  obtain m s1 where c: "clamp_frames n (wa_emit (GotBuffer n) s) = (m, s1)" by (rule prod.exhaust)
  have "same_engine s s1" using same_engine_trans[OF _ same_engine_clamp[OF c], of s] by simp
  then show ?thesis by (simp add: capture_packet_def Some b Let_def c)
qed (simp add: capture_packet_def)

lemma same_engine_packets: "same_engine s (snd (capture_packets pkt envs s))"
proof (induction pkt envs s rule: capture_packets.induct)
  case (1 pkt envs s)
  show ?case
  proof (cases "pkt = None \<or> pkt = Some 0 \<or> envs = []")
    case True
    then show ?thesis
      by (subst capture_packets.simps) (auto simp: same_engine_def split: option.splits list.splits)
  next
    case False
    then obtain n env envs' where n: "pkt = Some n" "n \<noteq> 0" "envs = env # envs'"
      by (metis list.exhaust option.exhaust)
    obtain r s1 where p: "capture_packet env s = (r, s1)" by (rule prod.exhaust)
    have s1: "same_engine s s1" using same_engine_packet[of s env] p by simp
    show ?thesis
      using same_engine_trans[OF s1 1(1)[OF n(1,2,3) p[symmetric]]] s1 n p
      by (subst capture_packets.simps) (cases r; simp)
  qed
qed

lemma same_engine_loop: "same_engine s (snd (capture_loop ts s))"
proof (induction ts arbitrary: s)
  case (Cons t ts)
  define s1 where "s1 = fold control_step (lt_before t) s"
  have s1: "same_engine s s1" unfolding s1_def by (rule same_engine_controls)
  note ih = same_engine_trans[OF s1 Cons.IH]
    and pub = same_engine_trans[OF same_engine_trans[OF s1 same_engine_publish] Cons.IH]
  show ?case
  proof (cases "lt_wake t")
    case (AudioEvent pkt envs)
    obtain r s2 where p: "capture_packets pkt envs s1 = (r, s2)" by (rule prod.exhaust)
    have s2: "same_engine s s2" using same_engine_trans[OF s1] same_engine_packets[of s1 pkt envs] p by simp
    note same_engine_trans[OF same_engine_trans[OF s2 same_engine_publish] Cons.IH]
    with s1 s2 AudioEvent p show ?thesis
      by (auto simp: s1_def[symmetric] Let_def split: option.splits bool.splits)
  qed (use s1 ih pub in \<open>auto simp: s1_def[symmetric] Let_def\<close>)
qed (simp add: same_engine_def)

lemma engine_inv_release [simp]: "engine_inv (release_engine s)"
  by (simp add: engine_inv_def release_engine_def Let_def)

lemma runs_try_exclusive:
  "try_exclusive env hns s = (ok, h, s') \<Longrightarrow> wa_engine_active s' = wa_engine_active s \<and> wa_running s' = wa_running s"
  by (auto simp: try_exclusive_def engine_init_def Let_def
      split: excl_answer.splits option.splits if_splits)

lemma runs_try_shared:
  "try_shared env hns s = (go, ok, s') \<Longrightarrow> wa_engine_active s' = wa_engine_active s \<and> wa_running s' = wa_running s"
  by (auto simp: try_shared_def engine_init_def Let_def split: if_splits)

lemma runs_try_mix:
  "try_mix env hns s = (go, ok, f, s') \<Longrightarrow> wa_engine_active s' = wa_engine_active s \<and> wa_running s' = wa_running s"
  by (auto simp: try_mix_def engine_init_def Let_def split: option.splits if_splits)

lemma runs_use_format:
  "wa_engine_active (snd (use_format env f s)) = wa_engine_active s"
  "wa_running (snd (use_format env f s)) = wa_running s"
  by (auto simp: use_format_def Let_def split: option.splits)

lemma open_engine_runs:
  "wa_engine_active (snd (open_engine env s)) = wa_engine_active s \<and> wa_running (snd (open_engine env s)) = wa_running s"
proof (cases "find_device env (wa_cfg s) \<and> oe_activate env 0")
  case False
  then show ?thesis by (auto simp: open_engine_def Let_def)
next
  case True
  let ?s1 = "s\<lparr>wa_device := True, wa_client := True\<rparr>"
  let ?hns = "uint (wc_buffer_ms (wa_cfg s)) * 10000"
  let ?ex = "if wc_exclusive (wa_cfg s) \<and> \<not> wc_loopback (wa_cfg s) then try_exclusive env ?hns ?s1 else (False, ?hns, ?s1)"
  obtain ok hns s2 where ex: "?ex = (ok, hns, s2)" by (rule prod_cases3)
  obtain go3 ok3 s3 where sh: "try_shared env hns s2 = (go3, ok3, s3)" by (rule prod_cases3)
  obtain go4 ok4 f s4 where mx: "try_mix env hns s3 = (go4, ok4, f, s4)" by (rule prod_cases4)
  have "wa_engine_active s2 = wa_engine_active s \<and> wa_running s2 = wa_running s"
    using ex runs_try_exclusive[of env ?hns ?s1] by (auto split: if_splits)
  then show ?thesis
    using runs_try_shared[OF sh] runs_try_mix[OF mx] True
    by (simp add: open_engine_def Let_def ex sh mx runs_use_format)
qed

lemma open_engine_False:
  "open_engine env s = (False, s') \<Longrightarrow> engine_inv s \<Longrightarrow> \<not> wa_engine_active s \<Longrightarrow> engine_inv s'"
  using open_engine_runs[of env s] by (simp add: engine_inv_def)

lemma start_engine_inv:
  assumes "engine_inv s"
  shows "engine_inv (snd (start_engine t s))"
proof (cases "wa_engine_active s")
  case False
  obtain b s1 where o: "open_engine (su_open t) s = (b, s1)" by (rule prod.exhaust)
  show ?thesis
  proof (cases b)
    case True
    from open_engine_opened[OF o[unfolded eqTrueI[OF True]]] obtain x f where
      "opened_with x f (s\<lparr>wa_device := True\<rparr>) s1" "wa_capture s1"
      "x \<longrightarrow> wc_exclusive (wa_cfg s) \<and> \<not> wc_loopback (wa_cfg s)" by blast
    then show ?thesis
      using False o True
      by (cases "su_start t") (auto simp: start_engine_def engine_inv_def[of "wa_emit c s" for c s] opened_with_def)
  next
    case b: False
    then show ?thesis
      using open_engine_False[of "su_open t" s s1] assms False o b by (simp add: start_engine_def)
  qed
qed (use assms in \<open>simp add: start_engine_def\<close>)

lemma supervisor_turn_inv:
  assumes "engine_inv s"
  shows "engine_inv (snd (supervisor_turn t s))"
proof -
  define s1 where "s1 = (if wa_dirty s then release_engine (s\<lparr>wa_dirty := False\<rparr>) else s)"
  have s1: "engine_inv s1" using assms by (simp add: s1_def)
  obtain b s2 where st: "start_engine t s1 = (b, s2)" by (rule prod.exhaust)
  have s2: "engine_inv s2" using start_engine_inv[OF s1, of t] st by simp
  obtain r s3 where lp: "capture_loop (su_loop t) s2 = (r, s3)" by (rule prod.exhaust)
  have s3: "engine_inv s3" using same_engine_inv[OF same_engine_loop s2, of "su_loop t"] lp by simp
  from assms s2 s3 st lp show ?thesis
    by (simp add: supervisor_turn_def s1_def[symmetric] Let_def split: bool.splits option.splits)
qed

lemma supervisor_main_inv:
  "engine_inv s \<Longrightarrow> engine_inv (snd (supervisor_main ts s))
    \<and> (fst (supervisor_main ts s) \<noteq> None \<longrightarrow> \<not> wa_client (snd (supervisor_main ts s)))"
proof (induction ts arbitrary: s)
  case (Cons t ts)
  define s1 where "s1 = fold control_step (su_before t) s"
  have inv: "engine_inv s1" unfolding s1_def by (rule same_engine_inv[OF same_engine_controls Cons.prems])
  obtain r s2 where p: "supervisor_turn t s1 = (r, s2)" by (rule prod.exhaust)
  have s2: "engine_inv s2" using supervisor_turn_inv[OF inv, of t] p by simp
  note ih = Cons.IH[OF this]
  have rel: "\<not> wa_client (release_engine s1)" by (simp add: release_engine_def Let_def)
  show ?case
    using s2 ih p rel by (simp add: s1_def[symmetric] Let_def split: option.splits)
qed simp

section \<open>The lifecycle\<close>

lemma wa_ok_fields [simp]:
  "wa_ok h (s\<lparr>wa_cfg := c\<rparr>) = wa_ok h s" "wa_ok h (s\<lparr>wa_com := b\<rparr>) = wa_ok h s"
  "wa_ok h (s\<lparr>wa_enumerator := b\<rparr>) = wa_ok h s" "wa_ok h (s\<lparr>wa_notify := b\<rparr>) = wa_ok h s"
  "wa_ok h (s\<lparr>wa_owner := b\<rparr>) = wa_ok h s" "wa_ok h (s\<lparr>wa_events := b\<rparr>) = wa_ok h s"
  "wa_ok h (s\<lparr>wa_stop_thread := b\<rparr>) = wa_ok h s" "wa_ok h (s\<lparr>wa_supervisor := b\<rparr>) = wa_ok h s"
  "wa_ok h (s\<lparr>wa_initialized := b\<rparr>) = wa_ok h s"
  by (simp_all add: wa_ok_def)

lemma wa_ok_ComInit: "wa_ok {#} s \<Longrightarrow> wa_ok {#ComRef#} (wa_emit ComInit s)"
  and wa_ok_Registered: "wa_ok h s \<Longrightarrow> wa_ok (add_mset Notification h) (wa_emit Registered s)"
  by (simp_all add: wa_ok_def)

text \<open>What \<open>shutdown\<close> gives back, with the capture's fields saying what it holds.\<close>

lemma wasapi_shutdown_ok:
  assumes "wa_ok h s"
  shows "wa_ok (h - (if wa_enumerator s \<and> wa_notify s then {#Notification#} else {#})
      - (if wa_com s then {#ComRef#} else {#})) (wasapi_shutdown s)"
proof -
  let ?cs = "(if wa_enumerator s \<and> wa_notify s then [Unregistered] else []) @ (if wa_com s then [ComUninit] else [])"
  have "wa_trace (wasapi_shutdown s) = wa_trace s @ ?cs" "wa_scratch (wasapi_shutdown s) = wa_scratch s"
    by (simp_all add: wasapi_shutdown_def Let_def)
  with assms show ?thesis by (simp add: wa_ok_def live_by_append add_mset_commute[of ComRef])
qed

definition com_held :: "bool \<Rightarrow> sys_handle multiset" where
  "com_held b = (if b then {#ComRef#} else {#})"

lemma wasapi_init_ok:
  assumes "wa_ok {#} s" "\<not> wa_com s" "\<not> wa_notify s" "\<not> wa_enumerator s" "wasapi_init cfg sinks env s = (ok, s')"
  shows "if ok then wa_ok (add_mset Notification (com_held (wa_com s'))) s' \<and> wa_notify s' \<and> wa_enumerator s'
    else wa_ok {#} s'"
proof (cases "wa_initialized s \<or> \<not> sinks \<or> \<not> wasapi_config_ok cfg \<or> wi_com env = ComFailed")
  case True
  then have "wasapi_init cfg sinks env s = (False, s) \<or> wasapi_init cfg sinks env s = (False, s\<lparr>wa_cfg := cfg\<rparr>)"
    by (elim disjE) (simp_all add: wasapi_init_def Let_def)
  with assms show ?thesis by auto
next
  case False
  define s1 where "s1 = (if wi_com env = RPC_E_CHANGED_MODE then s\<lparr>wa_cfg := cfg, wa_com := False\<rparr>
    else wa_emit ComInit (s\<lparr>wa_cfg := cfg, wa_com := True\<rparr>))"
  have s1: "wa_ok (com_held (wa_com s1)) s1" "\<not> wa_notify s1" "\<not> wa_enumerator s1"
    using assms(1-4) by (auto simp: s1_def com_held_def wa_ok_ComInit)
  have init: "wasapi_init cfg sinks env s =
     (if \<not> wi_enumerator env then (False, wasapi_shutdown s1)
      else let s = s1\<lparr>wa_enumerator := True\<rparr> in
      if \<not> wi_notify_alloc env then (False, wasapi_shutdown s)
      else let s = s\<lparr>wa_notify := True, wa_owner := True\<rparr> in
      if \<not> wi_register env then (False, wasapi_shutdown s)
      else let s = wa_emit Registered s in
      if \<not> wi_events env then (False, wasapi_shutdown s)
      else let s = s\<lparr>wa_events := True, wa_stop_thread := False\<rparr> in
      if \<not> wi_thread env then (False, wasapi_shutdown s)
      else (True, s\<lparr>wa_supervisor := True, wa_initialized := True\<rparr>))"
    using False by (simp add: wasapi_init_def s1_def Let_def)
  have com: "com_held b - (if b then {#ComRef#} else {#}) = {#}" for b by (simp add: com_held_def)
  have down1: "wa_ok {#} (wasapi_shutdown x)"
    if "wa_ok (com_held (wa_com x)) x" "\<not> wa_notify x" for x
    using wasapi_shutdown_ok[OF that(1)] that(2) by (simp add: com)
  have down2: "wa_ok {#} (wasapi_shutdown x)"
    if "wa_ok (add_mset Notification (com_held (wa_com x))) x" "wa_enumerator x" "wa_notify x" for x
    using wasapi_shutdown_ok[OF that(1)] that(2,3) by (simp add: com)
  define s2 where "s2 = s1\<lparr>wa_enumerator := True, wa_notify := True, wa_owner := True\<rparr>"
  have s2: "wa_ok (com_held (wa_com s2)) s2" "wa_enumerator s2" "wa_notify s2"
    using s1 by (simp_all add: s2_def)
  have down0: "wa_ok {#} (wasapi_shutdown s2)"
    using wasapi_shutdown_ok[OF s2(1)] s2(2,3) by (cases "wa_com s2") (simp_all add: com_held_def)
  define s3 where "s3 = wa_emit Registered s2"
  have s3: "wa_ok (add_mset Notification (com_held (wa_com s3))) s3" "wa_enumerator s3" "wa_notify s3"
    using wa_ok_Registered[OF s2(1)] s2(2,3) by (simp_all add: s3_def)
  consider "\<not> wi_enumerator env" | "wi_enumerator env" "\<not> wi_notify_alloc env"
    | "wi_enumerator env" "wi_notify_alloc env" "\<not> wi_register env"
    | "wi_enumerator env" "wi_notify_alloc env" "wi_register env" "\<not> wi_events env"
    | "wi_enumerator env" "wi_notify_alloc env" "wi_register env" "wi_events env" "\<not> wi_thread env"
    | "wi_enumerator env" "wi_notify_alloc env" "wi_register env" "wi_events env" "wi_thread env"
    by blast
  then show ?thesis
  proof cases
    case 1
    with init assms(5) have "ok = False" "s' = wasapi_shutdown s1" by simp_all
    with down1[OF s1(1,2)] show ?thesis by simp
  next
    case 2
    with init assms(5) have "ok = False" "s' = wasapi_shutdown (s1\<lparr>wa_enumerator := True\<rparr>)" by simp_all
    with down1[of "s1\<lparr>wa_enumerator := True\<rparr>"] s1 show ?thesis by simp
  next
    case 3
    with init assms(5) have "ok = False" "s' = wasapi_shutdown s2" by (simp_all add: s2_def)
    with down0 show ?thesis by simp
  next
    case 4
    with init assms(5) have "ok = False" "s' = wasapi_shutdown s3" by (simp_all add: s2_def s3_def)
    with down2[OF s3] show ?thesis by simp
  next
    case 5
    with init assms(5) have "ok = False" "s' = wasapi_shutdown (s3\<lparr>wa_events := True, wa_stop_thread := False\<rparr>)"
      by (simp_all add: s2_def s3_def)
    with down2[of "s3\<lparr>wa_events := True, wa_stop_thread := False\<rparr>"] s3 show ?thesis by simp
  next
    case 6
    with init assms(5) have "ok" "s' = s3\<lparr>wa_events := True, wa_stop_thread := False, wa_supervisor := True, wa_initialized := True\<rparr>"
      by (simp_all add: s2_def s3_def)
    with s3 show ?thesis by simp
  qed
qed

lemma same_engine_supervisor_fields:
  assumes "same_engine s s'"
  shows "wa_com s' = wa_com s" "wa_notify s' = wa_notify s" "wa_enumerator s' = wa_enumerator s"
  using assms by (simp_all add: same_engine_def)

definition holds :: "wasapi \<Rightarrow> bool \<times> bool \<times> bool" where
  "holds s = (wa_com s, wa_notify s, wa_enumerator s)"

lemma holds_steps [simp]:
  "holds (release_engine s) = holds s" "holds (wa_emit c s) = holds s"
  "holds (s\<lparr>wa_dirty := b\<rparr>) = holds s" "holds (s\<lparr>wa_engine_active := b, wa_running := b'\<rparr>) = holds s"
  by (simp_all add: holds_def release_engine_def Let_def)

lemma same_engine_holds: "same_engine s s' \<Longrightarrow> holds s' = holds s"
  by (simp add: same_engine_def holds_def)

lemma holds_open: "holds (snd (open_engine env s)) = holds s"
proof (cases "find_device env (wa_cfg s) \<and> oe_activate env 0")
  case False
  then show ?thesis by (auto simp: open_engine_def Let_def holds_def)
next
  case True
  let ?s1 = "s\<lparr>wa_device := True, wa_client := True\<rparr>"
  let ?hns = "uint (wc_buffer_ms (wa_cfg s)) * 10000"
  let ?ex = "if wc_exclusive (wa_cfg s) \<and> \<not> wc_loopback (wa_cfg s) then try_exclusive env ?hns ?s1 else (False, ?hns, ?s1)"
  obtain ok hns s2 where ex: "?ex = (ok, hns, s2)" by (rule prod_cases3)
  obtain go3 ok3 s3 where sh: "try_shared env hns s2 = (go3, ok3, s3)" by (rule prod_cases3)
  obtain go4 ok4 f s4 where mx: "try_mix env hns s3 = (go4, ok4, f, s4)" by (rule prod_cases4)
  have "holds s2 = holds s"
    using ex by (auto simp: holds_def try_exclusive_def engine_init_def Let_def
        split: excl_answer.splits option.splits if_splits)
  moreover have "holds s3 = holds s2"
    using sh by (auto simp: holds_def try_shared_def engine_init_def Let_def split: if_splits)
  moreover have "holds s4 = holds s3"
    using mx by (auto simp: holds_def try_mix_def engine_init_def Let_def split: option.splits if_splits)
  moreover have "holds (snd (use_format env f x)) = holds x" for f x
    by (auto simp: holds_def use_format_def Let_def split: option.splits)
  ultimately show ?thesis
    using True by (simp add: open_engine_def Let_def ex sh mx)
qed

lemma holds_supervisor_turn: "holds (snd (supervisor_turn t s)) = holds s"
proof -
  define s1 where "s1 = (if wa_dirty s then release_engine (s\<lparr>wa_dirty := False\<rparr>) else s)"
  have s1: "holds s1 = holds s" by (simp add: s1_def)
  obtain b s2 where st: "start_engine t s1 = (b, s2)" by (rule prod.exhaust)
  have "holds (snd (start_engine t s1)) = holds s1"
  proof (cases "wa_engine_active s1")
    case False
    obtain c s' where "open_engine (su_open t) s1 = (c, s')" by (rule prod.exhaust)
    with False show ?thesis
      using holds_open[of "su_open t" s1] by (cases c; cases "su_start t") (simp_all add: start_engine_def)
  qed (simp add: start_engine_def)
  then have s2: "holds s2 = holds s1" by (simp add: st)
  obtain r s3 where lp: "capture_loop (su_loop t) s2 = (r, s3)" by (rule prod.exhaust)
  have s3: "holds s3 = holds s2" using same_engine_holds[OF same_engine_loop, of "su_loop t" s2] lp by simp
  from s1 s2 s3 st lp show ?thesis
    by (simp add: supervisor_turn_def s1_def[symmetric] Let_def split: bool.splits option.splits)
qed

lemma holds_supervisor: "holds (snd (supervisor_main ts s)) = holds s"
proof (induction ts arbitrary: s)
  case (Cons t ts)
  define s1 where "s1 = fold control_step (su_before t) s"
  have "holds s1 = holds s" unfolding s1_def by (rule same_engine_holds[OF same_engine_controls])
  then show ?case
    using Cons.IH holds_supervisor_turn[of t s1]
    by (auto simp: s1_def[symmetric] Let_def split: option.splits prod.splits)
qed simp

section \<open>Properties\<close>

lemma wasapi_new_ok: "wa_ok {#} wasapi_new" "\<not> wa_com wasapi_new" "\<not> wa_notify wasapi_new"
  "\<not> wa_enumerator wasapi_new"
  by (simp_all add: wa_ok_def wasapi_new_def)

text \<open>C28: Capturing loses no device buffer and never leaves the fixed sample buffer: whatever the
  device answers and however other threads start, stop and notify, after any number of turns of
  the supervisor thread every buffer taken with \<open>GetBuffer\<close> has been given back with its full
  frame count, the sample buffer still has its 65536 elements, and every call of the audio sink got
  exactly frames times channels samples, of at most 8192 frames and 8 channels; and \<open>shutdown\<close>
  gives back COM and the notification client, as a failed initialisation does by itself.\<close>

theorem wasapi_buffers_and_bounds:
  "let (ok, s0) = wasapi_init cfg sinks env wasapi_new;
       s = snd (supervisor_main ts s0);
       s' = wasapi_shutdown s
   in live_by buf_res (wa_trace s) = {#} \<and> length (wa_scratch s) = 65536 \<and> list_all frames_ok (wa_trace s)
      \<and> live_by sys_res (wa_trace (if ok then s' else s0)) = {#}"
proof -
  obtain ok s0 where i: "wasapi_init cfg sinks env wasapi_new = (ok, s0)" by (rule prod.exhaust)
  note io = wasapi_init_ok[OF wasapi_new_ok i]
  define s where "s = snd (supervisor_main ts s0)"
  obtain h where h: "wa_ok h s0" using io by (cases ok) auto
  have s: "wa_ok h s" unfolding s_def by (rule supervisor_main_ok[OF h])
  have "live_by sys_res (wa_trace (if ok then wasapi_shutdown s else s0)) = {#}"
  proof (cases ok)
    case True
    then have s0: "wa_ok (add_mset Notification (com_held (wa_com s0))) s0" "wa_notify s0" "wa_enumerator s0"
      using io by simp_all
    have hs: "wa_com s = wa_com s0" "wa_notify s" "wa_enumerator s"
      using holds_supervisor[of ts s0] s0 by (simp_all add: s_def holds_def)
    have "wa_ok (add_mset Notification (com_held (wa_com s0))) s"
      unfolding s_def by (rule supervisor_main_ok[OF s0(1)])
    from wasapi_shutdown_ok[OF this] hs True show ?thesis
      by (simp add: wa_ok_def com_held_def)
  qed (use io in \<open>simp add: wa_ok_def\<close>)
  then show ?thesis
    unfolding i Let_def prod.case s_def[symmetric] using s by (simp add: wa_ok_def)
qed

text \<open>The capture interprets samples in the format the engine really runs in: when opening the
  device succeeds, the rate, channel count, width and float flag are those of the last successful
  \<open>Initialize\<close>; that format is the configured one or, in shared mode only, the device's mix
  format; and exclusive mode is used only if it was configured and the capture is no loopback.\<close>

theorem engine_format_negotiated:
  assumes "open_engine env s = (True, s')"
  shows "\<exists>x f. last_init (wa_trace s') = Some (x, f) \<and> format_of s' f \<and> wa_exclusive s' = x
    \<and> wa_device s' \<and> wa_client s' \<and> wa_capture s'
    \<and> (f = user_format (wa_cfg s) \<or> \<not> x \<and> oe_mix_format env = Some f)
    \<and> (\<not> x \<or> wc_exclusive (wa_cfg s) \<and> \<not> wc_loopback (wa_cfg s))"
proof -
  from open_engine_opened[OF assms] obtain x f where
    o: "opened_with x f (s\<lparr>wa_device := True\<rparr>) s'" "format_of s' f" "wa_capture s'"
    "x \<longrightarrow> wc_exclusive (wa_cfg s) \<and> \<not> wc_loopback (wa_cfg s)"
    "f = user_format (wa_cfg s) \<or> \<not> x \<and> oe_mix_format env = Some f" by blast
  then show ?thesis
    by (intro exI[of _ x] exI[of _ f]) (auto simp: opened_with_def)
qed

theorem engine_format_negotiated_witness:
  "let env = \<lparr>oe_get_device = False, oe_default = True, oe_activate = (\<lambda>_. True), oe_excl1 = ExclFailed,
       oe_excl_frames = None, oe_excl2 = False, oe_shared = False,
       oe_mix_format = Some \<lparr>wf_tag = TagFloat, wf_channels = 2, wf_rate = 44100, wf_bits = 32\<rparr>,
       oe_mix_init = True, oe_set_event = True, oe_service = True, oe_buffer_size = None\<rparr>
   in \<exists>x f. last_init (wa_trace (snd (open_engine env wasapi_new))) = Some (x, f)
     \<and> format_of (snd (open_engine env wasapi_new)) f
     \<and> wa_rate (snd (open_engine env wasapi_new)) = 44100"
proof -
  define env where "env = \<lparr>oe_get_device = False, oe_default = True, oe_activate = (\<lambda>_::nat. True), oe_excl1 = ExclFailed,
       oe_excl_frames = None, oe_excl2 = False, oe_shared = False,
       oe_mix_format = Some \<lparr>wf_tag = TagFloat, wf_channels = 2, wf_rate = 44100, wf_bits = 32\<rparr>,
       oe_mix_init = True, oe_set_event = True, oe_service = True, oe_buffer_size = None\<rparr>"
  obtain b s' where o: "open_engine env wasapi_new = (b, s')" by (rule prod.exhaust)
  have b: "b \<and> wa_rate s' = 44100"
    using o by (simp add: env_def open_engine_def wasapi_new_def find_device_def try_exclusive_def try_shared_def
        try_mix_def engine_init_def use_format_def Let_def split: if_splits) auto
  then have "open_engine env wasapi_new = (True, s')" using o by simp
  from engine_format_negotiated[OF this] show ?thesis
    unfolding env_def[symmetric] Let_def using o b by auto
qed

end
