(* ===== verification/Recovery.thy ===== *)
theory Recovery
  imports DesktopSource Nvenc
begin

text \<open>
  \<open>src/src/pipeline/recovery_coordinator.cpp\<close>: what the frame loop does after an encode error or a
  long streak of null frames. The references \<open>handle_device_lost\<close> gets are the fields of the record
  \<open>video_io\<close>, which the state of the whole pipeline extends; the calls the capture made and the
  reasons told to the orchestrator are traces.
\<close>

section \<open>State\<close>

datatype device_lost = WgcDeviceLost | GpuDeviceLost

record video_io =
  vi_source :: desktop_source
  vi_dxgi_calls :: "dxgi_call list"
  vi_handle_calls :: "handle_call list"
  vi_encode :: encode_subsystem
  vi_width :: u32
  vi_height :: u32
  vi_lost :: "device_lost list"

text \<open>An operation of the source, on the state that contains it.\<close>

definition set_source :: "source_world \<Rightarrow> 'a video_io_scheme \<Rightarrow> 'a video_io_scheme" where
  "set_source w s = (case w of (d, tr, htr) \<Rightarrow>
     s\<lparr>vi_source := d, vi_dxgi_calls := tr, vi_handle_calls := htr\<rparr>)"

definition source_of :: "'a video_io_scheme \<Rightarrow> source_world" where
  "source_of s = (vi_source s, vi_dxgi_calls s, vi_handle_calls s)"

text \<open>\<open>dxgi()\<close>: the duplication pipeline behind the source.\<close>

definition source_dxgi :: "desktop_source \<Rightarrow> dxgi_pipeline option" where
  "source_dxgi s = (if \<not> ds_dxgi s then None
     else (case ds_capture s of None \<Rightarrow> None | Some c \<Rightarrow> dxgi_of c))"

definition source_device :: "desktop_source \<Rightarrow> nat option" where
  "source_device s = (case source_metadata s of (w, h, fmt, dev) \<Rightarrow> dev)"

section \<open>Recovery\<close>

text \<open>\<open>rv_reason\<close>: the answer of \<open>GetDeviceRemovedReason\<close>.\<close>

record recovery_env =
  rv_reason :: int
  rv_source :: source_init_env
  rv_api :: u32
  rv_encode :: nvenc_init_env

definition hr_S_OK :: int where [model_defs]: "hr_S_OK = 0"

definition reinit_config :: "u32 \<Rightarrow> u32 \<Rightarrow> u32 \<Rightarrow> u32 \<Rightarrow> nvenc_config" where
  "reinit_config w h fps bps = default_nvenc_config\<lparr>nc_width := w, nc_height := h, nc_fps_num := fps,
     nc_fps_den := 1, nc_bitrate_kbps := bps, nc_max_bitrate_kbps := bps + bps div 4\<rparr>"

definition recover_wgc :: "recovery_env \<Rightarrow> 'a video_io_scheme \<Rightarrow> bool \<times> 'a video_io_scheme" where
  "recover_wgc env s =
    (case source_device (vi_source s) of
       None \<Rightarrow> (False, s)
     | Some dev \<Rightarrow>
       if rv_reason env = hr_S_OK then (False, s)
       else let s = s\<lparr>vi_lost := vi_lost s @ [WgcDeviceLost]\<rparr>
         in (case source_init (rv_source env) (source_shutdown (source_of s)) of (ok, w) \<Rightarrow>
              (ok, set_source w s)))"

definition recover_dxgi :: "recovery_env \<Rightarrow> u32 \<Rightarrow> u32 \<Rightarrow> dxgi_pipeline \<Rightarrow> 'a video_io_scheme \<Rightarrow>
    bool \<times> 'a video_io_scheme" where
  "recover_dxgi env fps bitrate p s =
    (case dp_encode p of
       None \<Rightarrow> (False, s)
     | Some dev \<Rightarrow>
       if rv_reason env = hr_S_OK then (False, s)
       else
         let s = s\<lparr>vi_lost := vi_lost s @ [GpuDeviceLost]\<rparr>;
             s = s\<lparr>vi_encode := encode_shutdown (vi_encode s)\<rparr>
         in (case source_init (rv_source env) (source_shutdown (source_of s)) of
              (False, w) \<Rightarrow> (False, set_source w s)
            | (True, w) \<Rightarrow>
                let s = set_source w s in
                (case source_metadata (vi_source s) of (mw, mh, fmt, dev) \<Rightarrow>
                  let s = s\<lparr>vi_width := mw, vi_height := mh\<rparr> in
                  (case dev of
                     None \<Rightarrow> (True, s)
                   | Some d \<Rightarrow>
                       (case encode_reinit (rv_api env) True
                          (reinit_config (vi_width s) (vi_height s) fps bitrate) (rv_encode env) (vi_encode s) of
                          (ok, e) \<Rightarrow> (ok, s\<lparr>vi_encode := e\<rparr>))))))"

definition handle_device_lost :: "recovery_env \<Rightarrow> u32 \<Rightarrow> u32 \<Rightarrow> 'a video_io_scheme \<Rightarrow>
    bool \<times> 'a video_io_scheme" where
  "handle_device_lost env fps bitrate s =
    (case source_dxgi (vi_source s) of
       None \<Rightarrow> recover_wgc env s
     | Some p \<Rightarrow> recover_dxgi env fps bitrate p s)"

section \<open>What a recovery leaves behind\<close>

text \<open>The cause a recovery acts on; none, when the device still answers or there is none.\<close>

definition lost_cause_of :: "recovery_env \<Rightarrow> 'a video_io_scheme \<Rightarrow> device_lost option" where
  "lost_cause_of env s =
    (if rv_reason env = hr_S_OK then None
     else (case source_dxgi (vi_source s) of
         None \<Rightarrow> if source_device (vi_source s) = None then None else Some WgcDeviceLost
       | Some p \<Rightarrow> if dp_encode p = None then None else Some GpuDeviceLost))"

lemma set_source_simps [simp]:
  "vi_encode (set_source w s) = vi_encode s" "vi_width (set_source w s) = vi_width s"
  "vi_height (set_source w s) = vi_height s" "vi_lost (set_source w s) = vi_lost s"
  "vi_source (set_source w s) = fst w" "video_io.more (set_source w s) = video_io.more s"
  by (simp_all add: set_source_def split: prod.splits)

lemma source_init_state:
  "source_init env w = (ok, w') \<Longrightarrow> source_state_of (fst w') = (if ok then Running else Uninitialized)"
  using source_init_states by (cases ok) auto

lemma nvenc_init_config:
  assumes "nvenc_init dev cfg env (nvenc_new v) = (True, e)"
  shows "nv_config e = cfg \<and> nv_initialized e"
proof -
  have load: "nv_config (snd (load_dll env x)) = nv_config x" for x
    by (simp add: load_dll_def nv_emit_def Let_def)
  have sess: "nv_config (snd (open_session env x)) = nv_config x" for x
    by (simp add: open_session_def nv_emit_def)
  have enc: "nv_config (snd (init_encoder env x)) = nv_config x" for x
    by (simp add: init_encoder_def Let_def split: option.split)
  have bufs: "nv_config (snd (create_output_bufs bs i x)) = nv_config x" for bs i x
  proof (induction bs i x rule: create_output_bufs.induct)
    case (1 bs i x)
    then show ?case by (subst create_output_bufs.simps) (simp add: nv_emit_def split: option.split)
  qed
  obtain e1 e2 e3 e4 where s: "load_dll env ((nvenc_new v)\<lparr>nv_config := cfg\<rparr>) = (True, e1)"
    "open_session env e1 = (True, e2)" "init_encoder env e2 = (True, e3)"
    "create_output_bufs (ne_bufs env) 0 e3 = (True, e4)" "e = e4\<lparr>nv_initialized := True\<rparr>"
    using assms by (auto simp: nvenc_init_def Let_def seq_ok_def split: if_splits prod.splits)
  have "nv_config e1 = cfg" using load[of "(nvenc_new v)\<lparr>nv_config := cfg\<rparr>"] s(1) by simp
  moreover have "nv_config e2 = nv_config e1" using sess[of e1] s(2) by simp
  moreover have "nv_config e3 = nv_config e2" using enc[of e2] s(3) by simp
  moreover have "nv_config e4 = nv_config e3" using bufs[of "ne_bufs env" 0 e3] s(4) by simp
  ultimately show ?thesis using s(5) by simp
qed

lemma encode_init_encoder:
  "case encode_init api True cfg env s of (ok, s') \<Rightarrow>
    (case es_encoder s' of None \<Rightarrow> \<not> ok | Some e \<Rightarrow> ok \<and> nv_initialized e \<and> nv_config e = cfg)"
proof -
  obtain ok e where i: "nvenc_init True cfg env (nvenc_new api) = (ok, e)" by (rule prod.exhaust)
  show ?thesis
    using nvenc_init_config[of True cfg env api e] i by (cases ok) (simp_all add: encode_init_def drop_encoder_def)
qed

lemma drop_encoder_None [simp]: "es_encoder (drop_encoder s) = None"
  by (simp add: drop_encoder_def split: option.split)

lemma recover_wgc_effect:
  assumes "source_dxgi (vi_source s) = None" "lost_cause_of env s = Some c"
  shows "c = WgcDeviceLost \<and> (\<exists>w. source_init (rv_source env) (source_shutdown (source_of s)) = (fst (recover_wgc env s), w)
    \<and> snd (recover_wgc env s) = set_source w (s\<lparr>vi_lost := vi_lost s @ [c]\<rparr>))"
proof -
  obtain d where d: "source_device (vi_source s) = Some d" "rv_reason env \<noteq> hr_S_OK" "c = WgcDeviceLost"
    using assms by (auto simp: lost_cause_of_def split: if_splits)
  obtain ok w where "source_init (rv_source env) (source_shutdown (source_of s)) = (ok, w)" by (rule prod.exhaust)
  with d show ?thesis by (simp add: recover_wgc_def source_of_def)
qed

lemma recover_gpu_effect:
  assumes p: "source_dxgi (vi_source s) = Some p" and d: "dp_encode p = Some d" "rv_reason env \<noteq> hr_S_OK"
  shows "case handle_device_lost env fps bps s of (ok, s') \<Rightarrow>
     vi_lost s' = vi_lost s @ [GpuDeviceLost]
     \<and> source_state_of (vi_source s') =
         (if fst (source_init (rv_source env) (source_shutdown (source_of s))) then Running else Uninitialized)
     \<and> (if source_state_of (vi_source s') = Uninitialized
        then \<not> ok \<and> es_encoder (vi_encode s') = None \<and> vi_width s' = vi_width s \<and> vi_height s' = vi_height s
        else (case source_metadata (vi_source s') of (mw, mh, fmt, dev) \<Rightarrow>
          vi_width s' = mw \<and> vi_height s' = mh
          \<and> (case es_encoder (vi_encode s') of
               None \<Rightarrow> ok = (dev = None)
             | Some e \<Rightarrow> ok \<and> dev \<noteq> None \<and> nv_initialized e \<and> nv_config e = reinit_config mw mh fps bps)))"
proof -
  obtain ok1 w where si: "source_init (rv_source env) (source_shutdown (source_of s)) = (ok1, w)" by (rule prod.exhaust)
  note st = source_init_state[OF si]
  define s1 where "s1 = s\<lparr>vi_lost := vi_lost s @ [GpuDeviceLost], vi_encode := encode_shutdown (vi_encode s)\<rparr>"
  have si1: "source_init (rv_source env) (source_shutdown (source_of s1)) = (ok1, w)"
    using si by (simp add: s1_def source_of_def)
  have es: "es_encoder (vi_encode s1) = None" by (simp add: s1_def encode_shutdown_def)
  have h: "handle_device_lost env fps bps s = (case (ok1, w) of
            (False, w) \<Rightarrow> (False, set_source w s1)
          | (True, w) \<Rightarrow>
              let s = set_source w s1 in
              (case source_metadata (vi_source s) of (mw, mh, fmt, dev) \<Rightarrow>
                let s = s\<lparr>vi_width := mw, vi_height := mh\<rparr> in
                (case dev of
                   None \<Rightarrow> (True, s)
                 | Some d \<Rightarrow>
                     (case encode_reinit (rv_api env) True
                        (reinit_config (vi_width s) (vi_height s) fps bps) (rv_encode env) (vi_encode s) of
                        (ok, e) \<Rightarrow> (ok, s\<lparr>vi_encode := e\<rparr>)))))"
    using d p si1 by (cases ok1) (simp_all add: handle_device_lost_def recover_dxgi_def s1_def Let_def)
  show ?thesis
  proof (cases ok1)
    case False
    with h st es show ?thesis by (simp add: s1_def si)
  next
    case True
    obtain mw mh fmt dev where md: "source_metadata (fst w) = (mw, mh, fmt, dev)" by (rule prod_cases4)
    show ?thesis
    proof (cases dev)
      case None
      with h st es True md show ?thesis by (simp add: s1_def si)
    next
      case dv: (Some dv)
      obtain ok e where r: "encode_reinit (rv_api env) True (reinit_config mw mh fps bps) (rv_encode env)
          (vi_encode s1) = (ok, e)" by (rule prod.exhaust)
      have "case es_encoder e of None \<Rightarrow> \<not> ok
          | Some x \<Rightarrow> ok \<and> nv_initialized x \<and> nv_config x = reinit_config mw mh fps bps"
        using encode_init_encoder[where api = "rv_api env" and cfg = "reinit_config mw mh fps bps"
            and env = "rv_encode env" and s = "vi_encode s1"] r
        by (simp add: encode_reinit_def)
      with h st True md dv r show ?thesis by (simp add: s1_def si split: option.splits)
    qed
  qed
qed

text \<open>C5: What a recovery does is determined by the device: while it is not removed (or there is
  none), nothing changes and the answer is no. Otherwise the loss is reported exactly once, the
  source runs again or is left uninitialised as its restart succeeds or fails, and the answer is
  yes only with a running source. On the Windows.Graphics.Capture path the encoder and the
  dimensions are left as they were; on the duplication path the old encoder is gone, the dimensions
  are those of the new source, and there is a new encoder, initialised for those dimensions, the
  frame rate and the current bitrate, exactly when the answer is yes and the source has a device.\<close>

theorem recovery_outcomes:
  "case handle_device_lost env fps bps s of (ok, s') \<Rightarrow>
     (case lost_cause_of env s of
        None \<Rightarrow> \<not> ok \<and> s' = s
      | Some c \<Rightarrow>
          vi_lost s' = vi_lost s @ [c]
          \<and> source_state_of (vi_source s') =
              (if fst (source_init (rv_source env) (source_shutdown (source_of s))) then Running else Uninitialized)
          \<and> (case c of
               WgcDeviceLost \<Rightarrow> vi_encode s' = vi_encode s \<and> vi_width s' = vi_width s \<and> vi_height s' = vi_height s
                 \<and> ok = (source_state_of (vi_source s') = Running)
             | GpuDeviceLost \<Rightarrow>
                 if source_state_of (vi_source s') = Uninitialized
                 then \<not> ok \<and> es_encoder (vi_encode s') = None \<and> vi_width s' = vi_width s \<and> vi_height s' = vi_height s
                 else (case source_metadata (vi_source s') of (mw, mh, fmt, dev) \<Rightarrow>
                   vi_width s' = mw \<and> vi_height s' = mh
                   \<and> (case es_encoder (vi_encode s') of
                        None \<Rightarrow> ok = (dev = None)
                      | Some e \<Rightarrow> ok \<and> dev \<noteq> None \<and> nv_initialized e \<and> nv_config e = reinit_config mw mh fps bps))))"
proof (cases "lost_cause_of env s")
  case None
  then show ?thesis
    by (auto simp: lost_cause_of_def handle_device_lost_def recover_wgc_def recover_dxgi_def hr_S_OK_def
        split: option.splits if_splits)
next
  case (Some c)
  obtain ok1 w where si: "source_init (rv_source env) (source_shutdown (source_of s)) = (ok1, w)" by (rule prod.exhaust)
  show ?thesis
  proof (cases "source_dxgi (vi_source s)")
    case None
    from recover_wgc_effect[OF None Some] si source_init_state[OF si] Some None show ?thesis
      by (auto simp: handle_device_lost_def)
  next
    case p: (Some p)
    then obtain d where "dp_encode p = Some d" "rv_reason env \<noteq> hr_S_OK" "c = GpuDeviceLost"
      using Some by (auto simp: lost_cause_of_def split: if_splits)
    with recover_gpu_effect[OF p this(1,2), of fps bps] Some show ?thesis by (simp split: prod.splits)
  qed
qed

text \<open>A recovery touches nothing but the fields it is given.\<close>

lemma recover_wgc_more: "video_io.more (snd (recover_wgc env s)) = video_io.more s"
proof -
  obtain ok w where "source_init (rv_source env) (source_shutdown
      (source_of (s\<lparr>vi_lost := vi_lost s @ [WgcDeviceLost]\<rparr>))) = (ok, w)" by (rule prod.exhaust)
  then show ?thesis by (simp add: recover_wgc_def Let_def split: option.split)
qed

lemma recover_dxgi_more: "video_io.more (snd (recover_dxgi env fps b p s)) = video_io.more s"
proof (cases "dp_encode p = None \<or> rv_reason env = hr_S_OK")
  case True
  then show ?thesis by (auto simp: recover_dxgi_def split: option.split)
next
  case False
  then obtain d where d: "dp_encode p = Some d" "rv_reason env \<noteq> hr_S_OK" by auto
  define s1 where "s1 = s\<lparr>vi_lost := vi_lost s @ [GpuDeviceLost], vi_encode := encode_shutdown (vi_encode s)\<rparr>"
  have m1: "video_io.more s1 = video_io.more s" by (simp add: s1_def)
  obtain ok w where i: "source_init (rv_source env) (source_shutdown (source_of s1)) = (ok, w)" by (rule prod.exhaust)
  have h: "recover_dxgi env fps b p s = (case (ok, w) of
      (False, w) \<Rightarrow> (False, set_source w s1)
    | (True, w) \<Rightarrow>
        let s = set_source w s1 in
        (case source_metadata (vi_source s) of (mw, mh, fmt, dev) \<Rightarrow>
          let s = s\<lparr>vi_width := mw, vi_height := mh\<rparr> in
          (case dev of
             None \<Rightarrow> (True, s)
           | Some d \<Rightarrow>
               (case encode_reinit (rv_api env) True
                  (reinit_config (vi_width s) (vi_height s) fps b) (rv_encode env) (vi_encode s) of
                  (ok, e) \<Rightarrow> (ok, s\<lparr>vi_encode := e\<rparr>)))))"
    using d i by (cases ok) (simp_all add: recover_dxgi_def s1_def Let_def)
  have e: "video_io.more (snd (case X of (ok, e) \<Rightarrow> (ok, y\<lparr>vi_encode := e\<rparr>))) = video_io.more y" for X y
    by (cases X) simp
  show ?thesis
  proof (cases ok)
    case True
    obtain mw mh fmt dev where "source_metadata (fst w) = (mw, mh, fmt, dev)" by (rule prod_cases4)
    with True show ?thesis unfolding h Let_def by (cases dev) (simp_all add: m1 e)
  qed (simp add: h m1)
qed

lemma handle_device_lost_more: "video_io.more (snd (handle_device_lost env fps b s)) = video_io.more s"
  by (simp add: handle_device_lost_def recover_wgc_more recover_dxgi_more split: option.split)

lemma video_io_more_eq:
  "video_io.more s' = video_io.more s \<Longrightarrow> s' = s\<lparr>vi_source := vi_source s', vi_dxgi_calls := vi_dxgi_calls s',
     vi_handle_calls := vi_handle_calls s', vi_encode := vi_encode s', vi_width := vi_width s',
     vi_height := vi_height s', vi_lost := vi_lost s'\<rparr>"
  by simp

end
