(* ===== verification/FrameLoop.thy ===== *)
theory FrameLoop
  imports Recovery CommandRouter OutputSubsystem GpuInterop Metrics AudioBridge Wasapi
begin

text \<open>
  \<open>src/src/pipeline/pipeline.cpp\<close>, first half: the state of \<open>Pipeline::Impl\<close> with the subsystems it
  owns, the commands applied to it, and one turn of the frame loop (\<open>run_frame\<close>): drain the
  commands, capture, encode (or repeat the last frame), recover, sample the metrics, pace. What
  the clock, the drivers and the system answer during a frame is its environment; the calls the
  pipeline makes to the orchestrator and to the callbacks of the user interface are a trace. The
  command router holds functions on the state, so it stands beside the state, as does the ring
  the action thread pushes into.
\<close>

section \<open>State\<close>

record pipe_config =
  cg_width :: u32
  cg_height :: u32
  cg_fps :: u32
  cg_bitrate :: u32
  cg_min_bitrate :: u32
  cg_original_bitrate :: u32
  cg_audio :: bool
  cg_loopback :: bool
  cg_audio_device :: string
  cg_srt_host :: string
  cg_srt_port :: u16
  cg_protocol :: u32
  cg_rtmp_url :: string
  cg_rtmp_key :: string

text \<open>The persistent copy of the last frame: its texture, dimensions, format and device.\<close>

record repeat_copy =
  rp_handle :: handle
  rp_w :: u32
  rp_h :: u32
  rp_fmt :: u32
  rp_dev :: nat

text \<open>\<open>EncodeCalled\<close> and \<open>PacketSent\<close> record what the encoder and the output answered.\<close>

datatype pipe_event =
    BitrateState u32 u32
  | EncodeCalled handle int bool
  | PacketSent bool
  | MetricsPushed metric_sample
  | InteropCallback u32 u32
  | PreviewCallback u32 u32
  | SceneCallback int u32
  | MonitorStarted
  | TimerBegun | TimerEnded
  | ComOwned | ComLeft

record impl = video_io +
  im_cfg :: pipe_config
  im_has_source :: bool
  im_trigger :: reinit_trigger
  im_audio :: "wasapi option"
  im_audio_calls :: "wasapi_call list"   \<comment> \<open>calls of captures that were dropped\<close>
  im_bridge :: audio_bridge
  im_output :: output_subsystem
  im_gpu :: gpu_interop
  im_ext :: "ext_call list"
  im_metrics :: metrics_subsystem
  im_diag :: send_diag
  im_diag_open :: bool
  im_preview_seq :: u32
  im_repeat :: "repeat_copy option"
  im_cadence :: idr_cadence
  im_initialized :: bool
  im_streaming :: bool
  im_com_owned :: bool
  im_timer_set :: bool
  im_pacer :: pacer
  im_bitrate :: u32
  im_drops :: u32
  im_last_sample :: "metric_sample option"
  im_fallback_scan :: "(u32 \<times> u64) list"
  im_preview_cb :: bool
  im_d3d_cb :: bool
  im_scene_cb :: bool
  im_reconfs :: nat          \<comment> \<open>reconfigurations asked of the driver so far\<close>
  im_trace :: "pipe_event list"

definition pipe_emit :: "pipe_event \<Rightarrow> impl \<Rightarrow> impl" where
  "pipe_emit e s = s\<lparr>im_trace := im_trace s @ [e]\<rparr>"

definition diag :: "diag_event \<Rightarrow> impl \<Rightarrow> impl" where
  "diag e s = s\<lparr>im_diag := diag_record e (im_diag s)\<rparr>"

definition ticks_us :: "int \<Rightarrow> impl \<Rightarrow> u32" where
  "ticks_us dt s = (let f = pc_qpc_freq (im_pacer s)
     in if f > 0 then word_of_int ((dt * 1000000) sdiv f) else 0)"

section \<open>Commands\<close>

definition RJ_ACTION_BITRATE_REDUCE :: int where [model_defs]: "RJ_ACTION_BITRATE_REDUCE = 0"
definition RJ_ACTION_BITRATE_RECOVER :: int where [model_defs]: "RJ_ACTION_BITRATE_RECOVER = 1"
definition RJ_ACTION_SCALE_RESOLUTION :: int where [model_defs]: "RJ_ACTION_SCALE_RESOLUTION = 2"
definition RJ_ACTION_RESTORE_RESOLUTION :: int where [model_defs]: "RJ_ACTION_RESTORE_RESOLUTION = 3"
definition RJ_ACTION_CAP_FPS :: int where [model_defs]: "RJ_ACTION_CAP_FPS = 4"
definition RJ_CMD_BITRATE_SET :: int where [model_defs]: "RJ_CMD_BITRATE_SET = 1"

record rj_command =
  rj_cmd_type :: int
  rj_param :: u32

text \<open>A reconfiguration of the encoder; \<open>ans\<close> numbers the answers of the driver.\<close>

definition reconf_step :: "(nat \<Rightarrow> bool) \<Rightarrow> (bool \<Rightarrow> encode_subsystem \<Rightarrow> bool \<times> encode_subsystem) \<Rightarrow> impl \<Rightarrow> impl" where
  "reconf_step ans f s = s\<lparr>vi_encode := snd (f (ans (im_reconfs s)) (vi_encode s)), im_reconfs := im_reconfs s + 1\<rparr>"

definition change_bitrate :: "(nat \<Rightarrow> bool) \<Rightarrow> u32 \<Rightarrow> impl \<Rightarrow> impl" where
  "change_bitrate ans b s =
    (let s = reconf_step ans (\<lambda>ok. encode_set_bitrate ok b) s;
         s = s\<lparr>im_bitrate := b\<rparr>
     in pipe_emit (BitrateState b (cg_original_bitrate (im_cfg s))) s)"

definition scale_of :: "int \<Rightarrow> rat" where
  "scale_of param1 = f32 (f32 (of_int param1) / 1000)"

definition apply_frame_cmd :: "(nat \<Rightarrow> bool) \<Rightarrow> frame_cmd \<Rightarrow> impl \<Rightarrow> impl" where
  "apply_frame_cmd ans c s =
    (if es_encoder (vi_encode s) = None then s
     else if fc_action_type c = RJ_ACTION_BITRATE_REDUCE \<or> fc_action_type c = RJ_ACTION_BITRATE_RECOVER then
       (if fc_param1 c > 0 then change_bitrate ans (word_of_int (fc_param1 c)) s else s)
     else if fc_action_type c = RJ_ACTION_SCALE_RESOLUTION \<or> fc_action_type c = RJ_ACTION_RESTORE_RESOLUTION then
       reconf_step ans (\<lambda>ok. encode_set_resolution ok (scale_of (fc_param1 c))) s
     else if fc_action_type c = RJ_ACTION_CAP_FPS then
       reconf_step ans (\<lambda>ok. encode_set_fps_limit ok (word_of_int (fc_param1 c))) s
     else s)"

definition apply_command :: "(nat \<Rightarrow> bool) \<Rightarrow> rj_command \<Rightarrow> impl \<Rightarrow> impl" where
  "apply_command ans c s =
    (if rj_cmd_type c = RJ_CMD_BITRATE_SET then
       (if es_encoder (vi_encode s) \<noteq> None \<and> rj_param c > 0 then change_bitrate ans (rj_param c) s else s)
     else s)"

definition impl_start_stream :: "impl \<Rightarrow> bool \<times> impl" where
  "impl_start_stream s =
    (if \<not> im_initialized s then (False, s)
     else if im_streaming s then (True, s)
     else
       let s = s\<lparr>im_streaming := True\<rparr>;
           s = s\<lparr>vi_encode := request_idr (vi_encode s)\<rparr>;
           s = s\<lparr>im_output := output_set_streaming True (im_output s)\<rparr>
       in (True, s\<lparr>im_audio := map_option (\<lambda>w. snd (wasapi_start w)) (im_audio s)\<rparr>))"

definition impl_stop_stream :: "impl \<Rightarrow> bool \<times> impl" where
  "impl_stop_stream s =
    (if \<not> im_streaming s then (True, s)
     else
       let s = s\<lparr>im_streaming := False\<rparr>;
           s = s\<lparr>im_output := output_set_streaming False (im_output s)\<rparr>
       in (True, s\<lparr>im_audio := map_option (\<lambda>w. snd (wasapi_stop w)) (im_audio s)\<rparr>))"

definition ws_start_stop :: "int \<Rightarrow> impl \<Rightarrow> impl" where
  "ws_start_stop cmd s =
    (if cmd = 1 then snd (impl_start_stream s) else if cmd = 2 then snd (impl_stop_stream s) else s)"

definition invoke_scene_cmd :: "int \<Rightarrow> u32 \<Rightarrow> impl \<Rightarrow> impl" where
  "invoke_scene_cmd cmd param s = (if im_scene_cb s then pipe_emit (SceneCallback cmd param) s else s)"

definition scene_callback :: "int \<Rightarrow> u32 \<Rightarrow> impl \<times> cmd_ring \<Rightarrow> impl \<times> cmd_ring" where
  "scene_callback cmd param x = apfst (invoke_scene_cmd cmd param) x"

section \<open>The environment of a frame\<close>

text \<open>The sections of a frame whose duration is measured.\<close>

datatype span = SpCapture | SpCopy | SpEncode | SpSend | SpAudio | SpInterop | SpPreview | SpTotal | SpPace

record copy_env =
  ce_device :: bool
  ce_fmt :: u32
  ce_create :: "handle option"
  ce_context :: bool

record frame_env =
  fe_start :: int
  fe_inbox :: "rj_command frame_inbox"
  fe_reconf :: "nat \<Rightarrow> bool"
  fe_source :: source_tick_env
  fe_copy :: copy_env
  fe_encode :: encode_env
  fe_send :: "bool \<times> bool \<times> output_env"
  fe_drain :: drain_env
  fe_recovery :: recovery_env
  fe_interop :: "bool \<times> (vk_handle \<times> vk_handle) option"
  fe_map :: int
  fe_emit :: emit_env
  fe_span :: "span \<Rightarrow> int"
  fe_ptimes :: "(u64 \<times> u64) option"
  fe_now :: int
  fe_pace_now :: int

text \<open>Steps that may not return, or call through a null pointer.\<close>

fun and_then :: "'a outcome \<Rightarrow> ('a \<Rightarrow> 'b outcome) \<Rightarrow> 'b outcome" where
  "and_then (Val x) f = f x"
| "and_then NullDeref f = NullDeref"
| "and_then Spinning f = Spinning"

definition returns :: "'a option \<Rightarrow> 'a outcome" where
  "returns r = (case r of None \<Rightarrow> Spinning | Some x \<Rightarrow> Val x)"

lemma and_then_Val: "and_then m f = Val y \<longleftrightarrow> (\<exists>x. m = Val x \<and> f x = Val y)"
  by (cases m) simp_all

lemma returns_Val [simp]: "returns r = Val x \<longleftrightarrow> r = Some x"
  by (simp add: returns_def split: option.splits)

section \<open>The packet callback\<close>

definition on_packet :: "frame_env \<Rightarrow> packet \<Rightarrow> impl \<Rightarrow> impl outcome" where
  "on_packet env pkt s =
    (let s = (if pk_is_keyframe pkt then s\<lparr>im_cadence := idr_on_keyframe (pk_pts pkt) (im_cadence s)\<rparr> else s) in
     if \<not> im_streaming s then Val s
     else
       let s = s\<lparr>im_metrics := mx_record_frame (im_metrics s)\<rparr> in
       (case fe_send env of (crash, data, oenv) \<Rightarrow>
         (case output_send crash data (pk_size pkt) oenv (im_output s) of (sent, os) \<Rightarrow>
           let s = pipe_emit (PacketSent sent) (s\<lparr>im_output := os\<rparr>);
               s = diag (RSendVideo (ticks_us (fe_span env SpSend) s) sent) s;
               s = (if \<not> sent then s\<lparr>im_drops := im_drops s + 1, im_metrics := mx_record_frame_drop (im_metrics s)\<rparr>
                    else s)
           in and_then (returns (bridge_drain (pk_pts pkt) (fe_drain env) (im_bridge s, im_output s))) (\<lambda>(b, os).
                let s = s\<lparr>im_bridge := b, im_output := os\<rparr>
                in Val (diag (RAudioDrain (ticks_us (fe_span env SpAudio) s)) s)))))"

text \<open>The capture thread's callback.\<close>

definition on_audio_capture :: "push_args \<Rightarrow> impl \<Rightarrow> impl" where
  "on_audio_capture a s = s\<lparr>im_bridge :=
     bridge_push (a\<lparr>pa_pts_us := rebase_audio_pts (pa_pts_us a) (pacer_origin_us (im_pacer s))\<rparr>) (im_bridge s)\<rparr>"

section \<open>Encoding one frame\<close>

definition maybe_force_idr :: "int \<Rightarrow> impl \<Rightarrow> impl" where
  "maybe_force_idr pts s = (case should_force_idr pts (im_cadence s) of (force, c) \<Rightarrow>
     let s = s\<lparr>im_cadence := c\<rparr>
     in if force then diag RIdrFallback (s\<lparr>vi_encode := request_idr (vi_encode s)\<rparr>) else s)"

definition copy_fits :: "tex \<Rightarrow> u32 \<Rightarrow> repeat_copy \<Rightarrow> bool" where
  "copy_fits t fmt r \<longleftrightarrow> rp_w r = tx_w t \<and> rp_h r = tx_h t \<and> rp_fmt r = fmt \<and> rp_dev r = tx_device t"

definition copy_for_repeat :: "copy_env \<Rightarrow> tex \<Rightarrow> impl \<Rightarrow> handle option \<times> impl" where
  "copy_for_repeat env t s =
    (if \<not> ce_device env then (None, s)
     else
       let s = (case im_repeat s of None \<Rightarrow> s
                | Some r \<Rightarrow> if copy_fits t (ce_fmt env) r then s else s\<lparr>im_repeat := None\<rparr>);
           r = (case im_repeat s of
                  Some r \<Rightarrow> Some r
                | None \<Rightarrow> map_option (\<lambda>h. \<lparr>rp_handle = h, rp_w = tx_w t, rp_h = tx_h t, rp_fmt = ce_fmt env,
                    rp_dev = tx_device t\<rparr>) (ce_create env));
           s = s\<lparr>im_repeat := r\<rparr>
       in (case r of
             None \<Rightarrow> (None, s)
           | Some r \<Rightarrow> if \<not> ce_context env then (None, s) else (Some (rp_handle r), s)))"

text \<open>The encode call of both branches with what surrounds it; the packet comes back inside it.\<close>

definition record_enc_split :: "impl \<Rightarrow> impl" where
  "record_enc_split s = (case es_encoder (vi_encode s) of
      None \<Rightarrow> s
    | Some e \<Rightarrow> (case nv_timings e of t \<Rightarrow> diag (REncSplit (tm_encode_us t) (tm_lock_us t) (tm_cb_us t)) s))"

definition encode_tick :: "frame_env \<Rightarrow> handle \<Rightarrow> int \<Rightarrow> impl \<Rightarrow> (bool \<times> impl) outcome" where
  "encode_tick env tex pts s =
    (let s = maybe_force_idr pts s in
     (case encode_sub_frame tex pts (fe_encode env) (vi_encode s) of (ok, pkt, es) \<Rightarrow>
       let s = pipe_emit (EncodeCalled tex pts ok) (s\<lparr>vi_encode := es\<rparr>)
       in and_then (case pkt of None \<Rightarrow> Val s | Some p \<Rightarrow> on_packet env p s) (\<lambda>s.
            Val (ok, record_enc_split (diag (REncode (ticks_us (fe_span env SpEncode) s)) s)))))"

definition recover :: "frame_env \<Rightarrow> impl \<Rightarrow> impl" where
  "recover env s = snd (handle_device_lost (fe_recovery env) (cg_fps (im_cfg s)) (im_bitrate s) s)"

definition count_drop :: "frame_outcome \<Rightarrow> impl \<Rightarrow> impl" where
  "count_drop oc s = (if counts_as_frame_drop oc then s\<lparr>im_drops := im_drops s + 1\<rparr> else s)"

definition encode_failed :: "frame_env \<Rightarrow> impl \<Rightarrow> impl" where
  "encode_failed env s = recover env (count_drop EncodeFailed s)"

section \<open>A captured frame\<close>

definition interop_step :: "frame_env \<Rightarrow> u32 \<Rightarrow> u32 \<Rightarrow> impl \<Rightarrow> impl" where
  "interop_step env mw mh s =
    (let s = (if gi_bridge (im_gpu s) \<noteq> None \<and> (case source_dxgi (vi_source s) of None \<Rightarrow> False
                  | Some p \<Rightarrow> dp_shared_tex p \<noteq> None)
              then (case interop_frame_images (fst (fe_interop env)) (snd (fe_interop env)) (im_gpu s, im_ext s) of
                  (None, g, tr) \<Rightarrow> s\<lparr>im_gpu := g, im_ext := tr\<rparr>
                | (Some (staging, target, slot), g, tr) \<Rightarrow>
                    s\<lparr>im_gpu := cache_last_images staging target slot g, im_ext := tr\<rparr>)
              else s);
         s = pipe_emit (InteropCallback mw mh) s
     in diag (RInterop (ticks_us (fe_span env SpInterop) s)) s)"

definition set_dxgi :: "dxgi_pipeline \<Rightarrow> impl \<Rightarrow> impl" where
  "set_dxgi p s = s\<lparr>vi_source := (vi_source s)\<lparr>ds_capture := Some (Dxgi (Some p))\<rparr>\<rparr>"

definition preview_dxgi :: "frame_env \<Rightarrow> u32 \<Rightarrow> u32 \<Rightarrow> impl \<Rightarrow> impl" where
  "preview_dxgi env mw mh s = (case source_dxgi (vi_source s) of
      None \<Rightarrow> s
    | Some p \<Rightarrow> (case map_preview_frame (fe_map env) p of
        (False, p) \<Rightarrow> set_dxgi p s
      | (True, p) \<Rightarrow> set_dxgi (snd (unmap_preview_frame p)) (pipe_emit (PreviewCallback mw mh) s)))"

definition source_is_wgc :: "desktop_source \<Rightarrow> bool" where
  "source_is_wgc s \<longleftrightarrow> ds_capture s \<noteq> None \<and> source_dxgi s = None"

definition preview_wgc :: "frame_env \<Rightarrow> source_frame \<Rightarrow> tex \<Rightarrow> impl \<Rightarrow> impl" where
  "preview_wgc env f t s =
    (if \<not> source_is_wgc (vi_source s) then s
     else
       let seq = im_preview_seq s; s = s\<lparr>im_preview_seq := seq + 1\<rparr> in
       if seq AND 1 = 0
       then (case emit_wgc_preview ((fe_emit env)\<lparr>em_w := tx_w t, em_h := tx_h t\<rparr>) (vi_source s) of
           (None, d) \<Rightarrow> diag RPreviewMiss (s\<lparr>vi_source := d\<rparr>)
         | (Some sl, d) \<Rightarrow> pipe_emit (PreviewCallback (sf_width f) (sf_height f)) (s\<lparr>vi_source := d\<rparr>))
       else s)"

definition preview_step :: "frame_env \<Rightarrow> source_frame \<Rightarrow> tex \<Rightarrow> u32 \<Rightarrow> u32 \<Rightarrow> impl \<Rightarrow> impl" where
  "preview_step env f t mw mh s =
    (let s = preview_wgc env f t (preview_dxgi env mw mh s)
     in diag (RPreview (ticks_us (fe_span env SpPreview) s)) s)"

text \<open>The callbacks of the user interface get the live texture.\<close>

definition show_frame :: "frame_env \<Rightarrow> source_frame \<Rightarrow> tex \<Rightarrow> impl \<Rightarrow> impl" where
  "show_frame env f t s = (case source_metadata (vi_source s) of (mw, mh, fmt, dev) \<Rightarrow>
     let s = (if im_d3d_cb s then interop_step env mw mh s else s)
     in if im_preview_cb s then preview_step env f t mw mh s else s)"

definition valid_frame :: "frame_env \<Rightarrow> source_frame \<Rightarrow> tex \<Rightarrow> impl \<Rightarrow> impl outcome" where
  "valid_frame env f t s =
    (let pts = pacer_pts_us (fe_start env) (im_pacer s) in
     (case copy_for_repeat (fe_copy env) t s of (copy, s) \<Rightarrow>
       let enc_tex = (case copy of Some h \<Rightarrow> h | None \<Rightarrow> sf_handle f);
           s = diag (RCopy (ticks_us (fe_span env SpCopy) s)) s
       in and_then (encode_tick env enc_tex pts s) (\<lambda>(ok, s).
            Val (show_frame env f t (if \<not> ok then encode_failed env s else s)))))"

text \<open>No new frame: the last one is encoded again, if there is a copy of it.\<close>

definition repeat_handle :: "impl \<Rightarrow> handle" where
  "repeat_handle s = (case im_repeat s of None \<Rightarrow> 0 | Some r \<Rightarrow> rp_handle r)"

definition null_frame :: "frame_env \<Rightarrow> bool \<Rightarrow> impl \<Rightarrow> impl outcome" where
  "null_frame env reinit_edge s =
    (let s = count_drop NoNewFrame s in
     and_then
       (if should_repeat_frame (im_repeat s \<noteq> None) True then
          and_then (encode_tick env (repeat_handle s) (pacer_pts_us (fe_start env) (im_pacer s)) s) (\<lambda>(ok, s).
            let s = diag RRepeat s
            in if \<not> ok then Val (True, encode_failed env s) else Val (False, s))
        else Val (False, s))
       (\<lambda>(recovered, s). Val (if reinit_edge \<and> \<not> recovered then recover env s else s)))"

section \<open>One turn of the frame loop\<close>

definition capture_encode :: "(tex \<Rightarrow> handle) \<Rightarrow> frame_env \<Rightarrow> impl \<Rightarrow> impl outcome" where
  "capture_encode addr env s =
    (if source_state_of (vi_source s) = Uninitialized then Val s
     else (case source_next_frame addr (fe_source env) (source_of s) of
         (NullDeref, w) \<Rightarrow> NullDeref
       | (Spinning, w) \<Rightarrow> Spinning
       | (Val (f, t), w) \<Rightarrow>
           let s = set_source w s in
           (case trigger_on_state (source_state_of (vi_source s)) (im_trigger s) of (reinit_edge, tr) \<Rightarrow>
             let s = s\<lparr>im_trigger := tr\<rparr>;
                 s = diag (RCapture (ticks_us (fe_span env SpCapture) s) (sf_handle f \<noteq> 0)) s
             in (case (sf_handle f \<noteq> 0, t) of
                   (True, Some tx) \<Rightarrow> valid_frame env f tx s
                 | _ \<Rightarrow> null_frame env reinit_edge s))))"

definition push_metrics :: "frame_env \<Rightarrow> impl \<Rightarrow> impl" where
  "push_metrics env s =
    (let drops = im_drops s; s = s\<lparr>im_drops := 0\<rparr> in
     (case build_sample (im_bitrate s) drops (fe_start env) (pc_qpc_freq (im_pacer s)) (fe_ptimes env) (im_metrics s) of
       (m, mx) \<Rightarrow>
         let s = pipe_emit (MetricsPushed m) (s\<lparr>im_metrics := mx\<rparr>);
             s = s\<lparr>im_last_sample := Some m\<rparr>
         in s\<lparr>im_metrics := record_frame_start (fe_start env) (im_metrics s)\<rparr>))"

definition flush_diag :: "frame_env \<Rightarrow> impl \<Rightarrow> impl" where
  "flush_diag env s =
    (let f = pc_qpc_freq (im_pacer s);
         now_us = (if f > 0 then word_of_int ((fe_now env * 1000000) sdiv f) else 0);
         s = (if \<not> im_diag_open s then s\<lparr>im_diag := begin_window now_us (im_diag s), im_diag_open := True\<rparr> else s);
         s = diag (RTotal (ticks_us (fe_span env SpTotal) s)) s
     in s\<lparr>im_diag := snd (maybe_flush now_us (im_diag s))\<rparr>)"

definition pace_frame :: "frame_env \<Rightarrow> impl \<Rightarrow> impl" where
  "pace_frame env s =
    (let s = s\<lparr>im_pacer := snd (pace (fe_pace_now env) (im_pacer s))\<rparr>
     in diag (RPace (ticks_us (fe_span env SpPace) s)) s)"

text \<open>The callbacks of the router act on the state; the ring the action thread pushes into is the
  router's own.\<close>

record rj_action =
  ra_type :: int
  ra_param1 :: int

type_synonym pipe_router = "(rj_command, rj_action, impl \<times> cmd_ring) router"

definition drain_commands :: "frame_env \<Rightarrow> pipe_router \<Rightarrow> impl \<Rightarrow> (pipe_router \<times> impl) option" where
  "drain_commands env r s =
    map_option (apsnd fst)
      (drain_and_apply (\<lambda>c. apfst (apply_command (fe_reconf env) c))
         (\<lambda>c. apfst (apply_frame_cmd (fe_reconf env) c)) (\<lambda>cmd. apfst (ws_start_stop cmd))
         (fe_inbox env) r (s, rt_ring r))"

record pipe =
  pp_impl :: "impl option"
  pp_router :: pipe_router
  pp_profiler :: bool
  pp_shutdown_done :: bool

definition run_frame :: "(tex \<Rightarrow> handle) \<Rightarrow> frame_env \<Rightarrow> pipe \<Rightarrow> (bool \<times> pipe) outcome" where
  "run_frame addr env p = (case pp_impl p of
      None \<Rightarrow> Val (False, p)
    | Some s \<Rightarrow>
        if \<not> im_has_source s \<or> source_state_of (vi_source s) = Uninitialized then Val (False, p)
        else and_then (returns (drain_commands env (pp_router p) s)) (\<lambda>(r, s).
          and_then (capture_encode addr env s) (\<lambda>s.
            Val (True, p\<lparr>pp_impl := Some (pace_frame env (flush_diag env (push_metrics env s))), pp_router := r\<rparr>))))"

end
