(* ===== verification/Pipeline.thy ===== *)
theory Pipeline
  imports FrameLoop
begin

text \<open>
  \<open>src/src/pipeline/pipeline.cpp\<close>, second half, with \<open>audio_subsystem.cpp\<close>: construction, start and
  stop, the setters, the actions of the rule engine and the teardown. A \<open>pipe\<close> is the public
  object: the implementation once it exists, the router, the profiler and the once flag of
  \<open>shutdown\<close>.
\<close>

section \<open>Construction\<close>

definition impl_new :: "u32 \<Rightarrow> impl" where
  "impl_new ncpus = \<lparr>vi_source = desktop_source_new, vi_dxgi_calls = [], vi_handle_calls = [],
     vi_encode = encode_subsystem_new, vi_width = 0, vi_height = 0, vi_lost = [],
     im_cfg = \<lparr>cg_width = 1920, cg_height = 1080, cg_fps = 60, cg_bitrate = 6000,
       cg_min_bitrate = 1000, cg_original_bitrate = 0, cg_audio = False, cg_loopback = True,
       cg_audio_device = [], cg_srt_host = [], cg_srt_port = 4200, cg_protocol = 0, cg_rtmp_url = [],
       cg_rtmp_key = []\<rparr>,
     im_has_source = False, im_trigger = reinit_trigger_init, im_audio = None, im_audio_calls = [],
     im_bridge = audio_bridge_new, im_output = output_new, im_gpu = gpu_interop_new, im_ext = [],
     im_metrics = \<lparr>mx_cpu = cpu_meter_new ncpus, mx_collector = None, mx_last_frame_ticks = 0,
       mx_poll_running = False\<rparr>,
     im_diag = send_diag_new, im_diag_open = False, im_preview_seq = 0, im_repeat = None,
     im_cadence = idr_cadence_init kDefaultIdrIntervalUs, im_initialized = False,
     im_streaming = False, im_com_owned = False, im_timer_set = False, im_pacer = pacer_new,
     im_bitrate = 0, im_drops = 0, im_last_sample = None, im_fallback_scan = [],
     im_preview_cb = False, im_d3d_cb = False, im_scene_cb = False, im_reconfs = 0, im_trace = []\<rparr>"

definition router_new :: pipe_router where
  "router_new = \<lparr>rt_ring = cmd_ring_init, rt_cmd_buf = replicate 8 \<lparr>rj_cmd_type = 0, rj_param = 0\<rparr>,
     rt_ws_port_logged = False, rt_running = False, rt_scene_cb = None, rt_on_action = None\<rparr>"

definition pipe_new :: pipe where
  "pipe_new = \<lparr>pp_impl = None, pp_router = router_new, pp_profiler = False, pp_shutdown_done = False\<rparr>"

text \<open>\<open>if (!impl_) impl_ = make_unique<Impl>()\<close>.\<close>

definition ensure_impl :: "u32 \<Rightarrow> pipe \<Rightarrow> pipe \<times> impl" where
  "ensure_impl ncpus p = (case pp_impl p of
      Some s \<Rightarrow> (p, s)
    | None \<Rightarrow> (p\<lparr>pp_impl := Some (impl_new ncpus), pp_router := router_new\<rparr>, impl_new ncpus))"

section \<open>Actions of the rule engine\<close>

definition queue_cmd :: "int \<Rightarrow> int \<Rightarrow> impl \<times> cmd_ring \<Rightarrow> impl \<times> cmd_ring" where
  "queue_cmd ty param x = (fst x, snd (push_frame_cmd \<lparr>fc_action_type = ty, fc_param1 = param\<rparr> (snd x)))"

definition apply_action :: "rj_action \<Rightarrow> impl \<times> cmd_ring \<Rightarrow> bool \<times> impl \<times> cmd_ring" where
  "apply_action a x =
    (let s = fst x in
     if ra_type a = RJ_ACTION_BITRATE_REDUCE then
       (True, queue_cmd RJ_ACTION_BITRATE_REDUCE
          (sint (reduce_target (cg_min_bitrate (im_cfg s)) (im_bitrate s) (ra_param1 a))) x)
     else if ra_type a = RJ_ACTION_BITRATE_RECOVER then
       (case recover_target (cg_original_bitrate (im_cfg s)) (im_bitrate s) (ra_param1 a) of
          Some b \<Rightarrow> (True, queue_cmd RJ_ACTION_BITRATE_RECOVER (sint b) x)
        | None \<Rightarrow> (False, x))
     else if ra_type a = RJ_ACTION_SCALE_RESOLUTION then
       (True, queue_cmd RJ_ACTION_SCALE_RESOLUTION (ra_param1 a) x)
     else if ra_type a = RJ_ACTION_RESTORE_RESOLUTION then
       (True, queue_cmd RJ_ACTION_RESTORE_RESOLUTION (ra_param1 a) x)
     else if ra_type a = RJ_ACTION_CAP_FPS then
       (True, queue_cmd RJ_ACTION_CAP_FPS (ra_param1 a) x)
     else (False, x))"

section \<open>The audio subsystem\<close>

text \<open>Destroying the capture joins its supervisor, which releases the engine on its way out.\<close>

definition wasapi_join :: "wasapi \<Rightarrow> wasapi" where
  "wasapi_join w = (if wa_supervisor w
     then release_engine (w\<lparr>wa_stop_thread := True, wa_start_requested := False\<rparr>) else w)"

definition wasapi_close :: "wasapi \<Rightarrow> wasapi" where
  "wasapi_close w = wasapi_shutdown (wasapi_join w)"

definition audio_shutdown :: "impl \<Rightarrow> impl" where
  "audio_shutdown s = (case im_audio s of None \<Rightarrow> s
     | Some w \<Rightarrow> s\<lparr>im_audio := None, im_audio_calls := im_audio_calls s @ wa_trace (wasapi_close w)\<rparr>)"

definition audio_init :: "wasapi_config \<Rightarrow> wasapi_init_env \<Rightarrow> impl \<Rightarrow> bool \<times> impl" where
  "audio_init cfg env s =
    (case wasapi_init cfg True env wasapi_new of (ok, w) \<Rightarrow>
      let s = (audio_shutdown s)\<lparr>im_audio := Some w\<rparr>
      in if \<not> ok then (False, audio_shutdown s) else (True, s))"

text \<open>The supervisor thread runs, and its sink feeds the bridge.\<close>

fun sink_args :: "wasapi_call \<Rightarrow> push_args option" where
  "sink_args (AudioFrames xs n ch r t) = Some \<lparr>pa_samples = Some xs, pa_frames = n, pa_channels = ch,
     pa_sample_rate = r, pa_pts_us = t\<rparr>"
| "sink_args _ = None"

definition audio_turns :: "super_turn list \<Rightarrow> impl \<Rightarrow> impl" where
  "audio_turns ts s = (case im_audio s of
      None \<Rightarrow> s
    | Some w \<Rightarrow>
        let w' = snd (supervisor_main ts w);
            calls = drop (length (wa_trace w)) (wa_trace w')
        in fold on_audio_capture (List.map_filter sink_args calls) (s\<lparr>im_audio := Some w'\<rparr>))"

section \<open>Teardown\<close>

text \<open>\<open>sd_done\<close>: how many of the five guarded calls end before one raises a structured exception.\<close>

record shutdown_env =
  sd_done :: nat
  sd_com_ok :: bool
  sd_end_ok :: bool
  sd_drain_ok :: bool
  sd_outs :: "(bool \<times> mft_output) list"
  sd_sends :: "nat \<Rightarrow> bool \<times> output_env"

definition seh_steps :: "(impl \<Rightarrow> impl) list" where
  "seh_steps =
    [\<lambda>s. s\<lparr>im_audio := map_option (\<lambda>w. snd (wasapi_stop w)) (im_audio s)\<rparr>,
     \<lambda>s. s\<lparr>im_audio := map_option wasapi_close (im_audio s)\<rparr>,
     \<lambda>s. s\<lparr>vi_encode := encode_flush (vi_encode s)\<rparr>,
     \<lambda>s. s\<lparr>vi_encode := (vi_encode s)\<lparr>es_encoder := map_option nvenc_shutdown (es_encoder (vi_encode s))\<rparr>\<rparr>,
     \<lambda>s. s\<lparr>im_output := (im_output s)\<lparr>os_transport := map_option t_shutdown (os_transport (im_output s))\<rparr>\<rparr>]"

definition seh_shutdown_subsystems :: "nat \<Rightarrow> impl \<Rightarrow> bool \<times> impl" where
  "seh_shutdown_subsystems n s = (n \<ge> length seh_steps, fold (\<lambda>f. f) (take n seh_steps) s)"

definition leave_system :: "bool \<Rightarrow> bool \<Rightarrow> impl \<Rightarrow> bool \<times> impl" where
  "leave_system com_ok ok s =
    (let s = (if im_timer_set s then pipe_emit TimerEnded (s\<lparr>im_timer_set := False\<rparr>) else s) in
     if im_com_owned s then (ok \<and> com_ok, pipe_emit ComLeft (s\<lparr>im_com_owned := False\<rparr>)) else (ok, s))"

definition stop_sending :: "impl \<Rightarrow> impl" where
  "stop_sending s = s\<lparr>im_streaming := False, im_output := output_set_streaming False (im_output s)\<rparr>"

definition shutdown_rest :: "shutdown_env \<Rightarrow> bool \<Rightarrow> impl \<Rightarrow> bool \<times> impl" where
  "shutdown_rest env ok s =
    (let s = s\<lparr>im_output := output_shutdown (im_output s)\<rparr>;
         s = s\<lparr>vi_encode := encode_shutdown (vi_encode s)\<rparr>;
         s = (if im_has_source s then set_source (source_shutdown (source_of s)) s else s);
         s = s\<lparr>im_repeat := None\<rparr>
     in (case interop_shutdown (im_gpu s, im_ext s) of (g, tr) \<Rightarrow>
          (case leave_system (sd_com_ok env) ok (s\<lparr>im_gpu := g, im_ext := tr\<rparr>) of (ok, s) \<Rightarrow>
            (ok, s\<lparr>im_initialized := False\<rparr>))))"

definition shutdown_body :: "shutdown_env \<Rightarrow> impl \<Rightarrow> (bool \<times> impl) outcome" where
  "shutdown_body env s =
    (let s = stop_sending s;
         s = s\<lparr>im_metrics := metrics_stop (im_metrics s)\<rparr>
     in (case seh_shutdown_subsystems (sd_done env) s of (ok, s) \<Rightarrow>
       let s = audio_shutdown s in
       and_then (returns (bridge_shutdown (sd_end_ok env) (sd_drain_ok env) (sd_outs env) (sd_sends env)
           (im_bridge s, im_output s))) (\<lambda>(b, os).
         Val (shutdown_rest env ok (s\<lparr>im_bridge := b, im_output := os\<rparr>)))))"

definition pipe_shutdown :: "shutdown_env \<Rightarrow> pipe \<Rightarrow> (bool \<times> pipe) outcome" where
  "pipe_shutdown env p = (case pp_impl p of
      None \<Rightarrow> Val (True, p)
    | Some s \<Rightarrow>
        if pp_shutdown_done p then Val (True, p)
        else and_then (shutdown_body env s) (\<lambda>(ok, s).
          Val (ok, p\<lparr>pp_impl := Some s, pp_router := router_stop (pp_router p), pp_shutdown_done := True\<rparr>)))"

section \<open>Initialisation\<close>

definition kCaptureTimeout :: u32 where [model_defs]: "kCaptureTimeout = 17"
definition kAudioSampleRate :: u32 where [model_defs]: "kAudioSampleRate = 48000"
definition kAudioChannels :: u32 where [model_defs]: "kAudioChannels = 2"
definition kAudioBitrateBps :: u32 where [model_defs]: "kAudioBitrateBps = 128000"

text \<open>\<open>ie_vulkan\<close>: whether the Vulkan device asks for the keyed mutex, if there is one.\<close>

record pipe_init_env =
  ie_ncpus :: u32
  ie_now :: int
  ie_com :: com_result
  ie_timer :: bool
  ie_freq :: "int option"
  ie_now1 :: int
  ie_now2 :: int
  ie_source :: source_init_env
  ie_scan :: "adapter list option"
  ie_vulkan :: "bool option"
  ie_api :: u32
  ie_encode :: nvenc_init_env
  ie_output :: output_env
  ie_audio :: wasapi_init_env
  ie_preview :: preview_env
  ie_down :: shutdown_env

definition protocol_of :: "u32 \<Rightarrow> protocol" where
  "protocol_of w = (if w = 1 then Rtmp else Srt)"

definition output_config :: "pipe_config \<Rightarrow> transport_config" where
  "output_config cfg = \<lparr>tc_protocol = protocol_of (cg_protocol cfg),
     tc_host = (if cg_protocol cfg = 1 then cg_rtmp_url cfg else cg_srt_host cfg),
     tc_stream_key = (if cg_protocol cfg = 1 then cg_rtmp_key cfg else []),
     tc_port = (if cg_protocol cfg = 1 then 9000 else cg_srt_port cfg), tc_latency_ms = 200,
     tc_bandwidth_kbps = 0, tc_caller_mode = True, tc_on_connection_lost = False, tc_on_metrics = False\<rparr>"

definition capture_config :: "pipe_config \<Rightarrow> wasapi_config" where
  "capture_config cfg = \<lparr>wc_exclusive = False, wc_sample_rate = kAudioSampleRate,
     wc_channels = kAudioChannels, wc_bit_depth = 32, wc_buffer_ms = 50, wc_loopback = cg_loopback cfg,
     wc_device_id = cg_audio_device cfg\<rparr>"

definition begin_init :: "pipe_config \<Rightarrow> pipe_init_env \<Rightarrow> impl \<Rightarrow> impl" where
  "begin_init cfg env s =
    (let s = s\<lparr>im_metrics := metrics_init (ie_now env) (im_metrics s)\<rparr>;
         s = s\<lparr>im_cfg := cfg\<lparr>cg_original_bitrate := cg_bitrate cfg,
                 cg_min_bitrate := reduce_floor_for_target (cg_min_bitrate cfg) (cg_bitrate cfg)\<rparr>,
               im_bitrate := cg_bitrate cfg\<rparr>
     in pipe_emit (BitrateState (cg_bitrate cfg) (cg_bitrate cfg)) s)"

definition enter_system :: "pipe_init_env \<Rightarrow> impl \<Rightarrow> bool \<times> impl" where
  "enter_system env s =
    (if ie_com env = ComFailed then (False, s)
     else
       let s = (if ie_com env = RPC_E_CHANGED_MODE then s\<lparr>im_com_owned := False\<rparr>
                else pipe_emit ComOwned (s\<lparr>im_com_owned := True\<rparr>))
       in (True, if ie_timer env then pipe_emit TimerBegun (s\<lparr>im_timer_set := True\<rparr>) else s))"

definition init_pacer :: "pipe_config \<Rightarrow> pipe_init_env \<Rightarrow> impl \<Rightarrow> bool \<times> impl" where
  "init_pacer cfg env s =
    (case pacer_init (cg_fps cfg) (ie_freq env) (ie_now1 env) (ie_now2 env) (im_pacer s) of
       (ok, pc) \<Rightarrow> (ok, s\<lparr>im_pacer := pc\<rparr>))"

text \<open>A new source replaces the old one, whose destructor shuts it down.\<close>

definition init_source :: "pipe_init_env \<Rightarrow> impl \<Rightarrow> bool \<times> impl" where
  "init_source env s =
    (case (if im_has_source s then source_shutdown (source_of s) else source_of s) of (d, trs) \<Rightarrow>
     (case source_init (ie_source env) (desktop_source_new, trs) of (ok, w) \<Rightarrow>
       (ok, (set_source w s)\<lparr>im_has_source := True\<rparr>)))"

definition learn_dimensions :: "pipe_init_env \<Rightarrow> impl \<Rightarrow> impl" where
  "learn_dimensions env s =
    (let s = (if source_dxgi (vi_source s) = None
              then s\<lparr>im_fallback_scan := (case ie_scan env of None \<Rightarrow> [] | Some ads \<Rightarrow> scan_gpus ads)\<rparr> else s)
     in (case source_metadata (vi_source s) of (w, h, fmt, dev) \<Rightarrow>
       s\<lparr>im_cfg := (im_cfg s)\<lparr>cg_width := w, cg_height := h\<rparr>, vi_width := w, vi_height := h\<rparr>))"

definition init_interop :: "pipe_init_env \<Rightarrow> impl \<Rightarrow> impl" where
  "init_interop env s = (case source_dxgi (vi_source s) of
      None \<Rightarrow> s
    | Some p \<Rightarrow>
        let s = set_dxgi (p\<lparr>dp_use_keyed_mutex := (ie_vulkan env = Some True)\<rparr>) s
        in (case interop_init (im_gpu s, im_ext s) of (ok, g, tr) \<Rightarrow> s\<lparr>im_gpu := g, im_ext := tr\<rparr>))"

definition init_encoder_for :: "pipe_config \<Rightarrow> pipe_init_env \<Rightarrow> impl \<Rightarrow> impl" where
  "init_encoder_for cfg env s = (case source_device (vi_source s) of
      None \<Rightarrow> s
    | Some d \<Rightarrow> s\<lparr>vi_encode := snd (encode_init (ie_api env) True
        (reinit_config (cg_width (im_cfg s)) (cg_height (im_cfg s)) (cg_fps cfg) (cg_bitrate cfg))
        (ie_encode env) (vi_encode s))\<rparr>)"

definition init_output :: "pipe_config \<Rightarrow> pipe_init_env \<Rightarrow> impl \<Rightarrow> impl" where
  "init_output cfg env s =
    s\<lparr>im_output := snd (output_init (output_config cfg) (ie_output env) (im_output s))\<rparr>"

definition init_audio :: "pipe_config \<Rightarrow> pipe_init_env \<Rightarrow> impl \<Rightarrow> impl" where
  "init_audio cfg env s =
    (if cg_audio cfg \<and> protocol_of (cg_protocol cfg) = Rtmp then
       snd (audio_init (capture_config cfg) (ie_audio env)
         (s\<lparr>im_bridge := bridge_configure kAudioSampleRate kAudioChannels kAudioBitrateBps True (im_bridge s)\<rparr>))
     else s)"

definition init_preview :: "pipe_init_env \<Rightarrow> impl \<Rightarrow> impl" where
  "init_preview env s = (case source_dxgi (vi_source s) of
      None \<Rightarrow> s
    | Some p \<Rightarrow> if im_preview_cb s then set_dxgi (snd (init_preview_staging (ie_preview env) p)) s else s)"

definition init_subsystems :: "pipe_config \<Rightarrow> pipe_init_env \<Rightarrow> impl \<Rightarrow> impl" where
  "init_subsystems cfg env s =
    (let s = init_encoder_for cfg env (init_interop env (learn_dimensions env s));
         s = init_preview env (init_audio cfg env (init_output cfg env s))
     in (pipe_emit MonitorStarted s)\<lparr>im_initialized := True\<rparr>)"

definition router_callbacks :: "pipe_router \<Rightarrow> pipe_router" where
  "router_callbacks r = snd (router_start (Some scene_callback)
     (Some (\<lambda>a x. snd (apply_action a x))) r)"

definition pipe_init :: "pipe_config \<Rightarrow> pipe_init_env \<Rightarrow> pipe \<Rightarrow> (bool \<times> pipe) outcome" where
  "pipe_init cfg env p = (case ensure_impl (ie_ncpus env) p of (p, s) \<Rightarrow>
     if im_initialized s then Val (True, p)
     else if cg_fps cfg = 0 then Val (False, p)
     else
       let p = p\<lparr>pp_profiler := True\<rparr>;
           give_up = (\<lambda>s. and_then (pipe_shutdown (ie_down env) (p\<lparr>pp_impl := Some s\<rparr>)) (\<lambda>(ok, p). Val (False, p)))
       in (case enter_system env (begin_init cfg env s) of
         (False, s) \<Rightarrow> Val (False, p\<lparr>pp_impl := Some s\<rparr>)
       | (True, s) \<Rightarrow> (case init_pacer cfg env s of
         (False, s) \<Rightarrow> give_up s
       | (True, s) \<Rightarrow> (case init_source env s of
         (False, s) \<Rightarrow> give_up s
       | (True, s) \<Rightarrow> Val (True, p\<lparr>pp_impl := Some (init_subsystems cfg env s),
                              pp_router := router_callbacks (pp_router p)\<rparr>)))))"

section \<open>The public operations\<close>

definition on_impl :: "(impl \<Rightarrow> bool \<times> impl) \<Rightarrow> pipe \<Rightarrow> bool \<times> pipe" where
  "on_impl f p = (case pp_impl p of
      None \<Rightarrow> (False, p)
    | Some s \<Rightarrow> (case f s of (r, s) \<Rightarrow> (r, p\<lparr>pp_impl := Some s\<rparr>)))"

definition start_stream :: "pipe \<Rightarrow> bool \<times> pipe" where
  "start_stream p = on_impl impl_start_stream p"

definition stop_stream :: "pipe \<Rightarrow> bool \<times> pipe" where
  "stop_stream p = on_impl impl_stop_stream p"

definition is_running :: "pipe \<Rightarrow> bool" where
  "is_running p = (case pp_impl p of None \<Rightarrow> False | Some s \<Rightarrow> im_initialized s \<and> im_streaming s)"

definition on_source_dxgi :: "(dxgi_pipeline \<Rightarrow> dxgi_pipeline) \<Rightarrow> impl \<Rightarrow> impl" where
  "on_source_dxgi f s = (if \<not> im_has_source s then s
     else (case source_dxgi (vi_source s) of None \<Rightarrow> s | Some p \<Rightarrow> set_dxgi (f p) s))"

definition set_preview_callback :: "u32 \<Rightarrow> bool \<Rightarrow> pipe \<Rightarrow> bool \<times> pipe" where
  "set_preview_callback ncpus cb p = (case ensure_impl ncpus p of (p, s) \<Rightarrow>
     (True, p\<lparr>pp_impl := Some (on_source_dxgi (set_preview_requested cb) (s\<lparr>im_preview_cb := cb\<rparr>))\<rparr>))"

definition set_d3d11_frame_callback :: "u32 \<Rightarrow> bool \<Rightarrow> preview_env \<Rightarrow> bool \<Rightarrow> pipe \<Rightarrow> bool \<times> pipe" where
  "set_d3d11_frame_callback ncpus cb env vk_device p = (case ensure_impl ncpus p of (p, s) \<Rightarrow>
     let s = on_source_dxgi (\<lambda>d. if dp_shared_tex d = None then snd (init_preview_staging env d) else d)
               (s\<lparr>im_d3d_cb := cb\<rparr>);
         s = (if vk_device then (case interop_set_device (im_gpu s, im_ext s) of (g, tr) \<Rightarrow> s\<lparr>im_gpu := g, im_ext := tr\<rparr>)
              else s)
     in (True, p\<lparr>pp_impl := Some s\<rparr>))"

definition set_scene_command_callback :: "u32 \<Rightarrow> bool \<Rightarrow> pipe \<Rightarrow> bool \<times> pipe" where
  "set_scene_command_callback ncpus cb p = (case ensure_impl ncpus p of (p, s) \<Rightarrow>
     (True, p\<lparr>pp_impl := Some (s\<lparr>im_scene_cb := cb\<rparr>)\<rparr>))"

definition notify_vulkan_ready :: "bool option \<Rightarrow> pipe \<Rightarrow> bool \<times> pipe" where
  "notify_vulkan_ready vulkan p = (case pp_impl p of
      None \<Rightarrow> (True, p)
    | Some s \<Rightarrow>
        if gi_bridge (im_gpu s) = None then (True, p)
        else (case interop_notify_vulkan_ready (vi_width s) (vi_height s) (im_gpu s, im_ext s) of (g, tr) \<Rightarrow>
          (True, p\<lparr>pp_impl := Some (on_source_dxgi (\<lambda>d. d\<lparr>dp_use_keyed_mutex := (vulkan = Some True)\<rparr>)
             (s\<lparr>im_gpu := g, im_ext := tr\<rparr>))\<rparr>)))"

definition last_frame_images :: "pipe \<Rightarrow> (vk_handle \<times> vk_handle \<times> u32) option" where
  "last_frame_images p = (case pp_impl p of None \<Rightarrow> None | Some s \<Rightarrow> get_last_frame_images (im_gpu s))"

definition last_metric_sample :: "pipe \<Rightarrow> metric_sample option" where
  "last_metric_sample p = (case pp_impl p of
      None \<Rightarrow> None
    | Some s \<Rightarrow> (case im_last_sample s of
        None \<Rightarrow> None
      | Some m \<Rightarrow> if ms_magic_head m = RJ_METRIC_MAGIC then Some m else None))"

definition current_scan :: "impl \<Rightarrow> (u32 \<times> u64) list" where
  "current_scan s = (if \<not> im_has_source s then im_fallback_scan s
     else (case source_dxgi (vi_source s) of None \<Rightarrow> im_fallback_scan s | Some p \<Rightarrow> dp_scan p))"

definition display_vendor_id :: "pipe \<Rightarrow> u32" where
  "display_vendor_id p = (case pp_impl p of None \<Rightarrow> 0
     | Some s \<Rightarrow> (case current_scan s of [] \<Rightarrow> 0 | (v, m) # _ \<Rightarrow> v))"

definition max_gpu_vram_mb :: "pipe \<Rightarrow> u64" where
  "max_gpu_vram_mb p = (case pp_impl p of None \<Rightarrow> 0
     | Some s \<Rightarrow> fold (\<lambda>(v, m) best. if m > best then m else best) (current_scan s) 0)"

definition max_vram_vendor_id :: "pipe \<Rightarrow> u32" where
  "max_vram_vendor_id p = (case pp_impl p of None \<Rightarrow> 0
     | Some s \<Rightarrow>
        let scan = current_scan s in
        if scan = [] then 0
        else fst (scan ! fold (\<lambda>i best. if snd (scan ! i) > snd (scan ! best) then i else best) [1..<length scan] 0))"


end
