(* ===== verification/FrameFacts.thy ===== *)
theory FrameFacts
  imports FrameLoop
begin

text \<open>
  What one turn of the frame loop does to the state: which fields it leaves alone, which calls it
  makes, and how many drops it counts. The properties of the loop follow from one relation,
  \<open>vstep\<close>, established for each step and composed along \<open>run_frame\<close>.
\<close>

section \<open>Events\<close>

fun failed_event :: "pipe_event \<Rightarrow> bool" where
  "failed_event (EncodeCalled h pts ok) \<longleftrightarrow> \<not> ok"
| "failed_event (PacketSent ok) \<longleftrightarrow> \<not> ok"
| "failed_event _ \<longleftrightarrow> False"

definition failures :: "pipe_event list \<Rightarrow> nat" where
  "failures es = length (filter failed_event es)"

fun is_encode :: "pipe_event \<Rightarrow> bool" where
  "is_encode (EncodeCalled h pts ok) \<longleftrightarrow> True"
| "is_encode _ \<longleftrightarrow> False"

fun frame_event :: "pipe_event \<Rightarrow> bool" where
  "frame_event (EncodeCalled h pts ok) \<longleftrightarrow> True"
| "frame_event (PacketSent ok) \<longleftrightarrow> True"
| "frame_event (InteropCallback w h) \<longleftrightarrow> True"
| "frame_event (PreviewCallback w h) \<longleftrightarrow> True"
| "frame_event _ \<longleftrightarrow> False"

lemma failures_simps [simp]:
  "failures [] = 0" "failures (e # es) = (if failed_event e then Suc (failures es) else failures es)"
  "failures (xs @ ys) = failures xs + failures ys"
  by (simp_all add: failures_def)

section \<open>The relation\<close>

text \<open>The fields no step of capturing and encoding touches.\<close>

definition fixed where
  "fixed (s :: impl) = (im_cfg s, im_bitrate s, im_initialized s, im_streaming s, im_pacer s, im_has_source s,
     im_preview_cb s, im_d3d_cb s, im_scene_cb s, im_com_owned s, im_timer_set s, im_last_sample s,
     im_audio s, im_diag_open s)"

definition vstep :: "pipe_event list \<Rightarrow> nat \<Rightarrow> impl \<Rightarrow> impl \<Rightarrow> bool" where
  "vstep es n s s' \<longleftrightarrow> im_trace s' = im_trace s @ es \<and> im_drops s' = im_drops s + of_nat n
     \<and> fixed s' = fixed s \<and> list_all frame_event es \<and> (slots_ok (im_gpu s) \<longrightarrow> slots_ok (im_gpu s'))"

lemma vstep_refl [simp]: "vstep [] 0 s s"
  by (simp add: vstep_def)

lemma vstep_trans: "vstep es n s s' \<Longrightarrow> vstep es' n' s' s'' \<Longrightarrow> vstep (es @ es') (n + n') s s''"
  by (simp add: vstep_def)

lemma vstep_then: "vstep [] 0 s s' \<Longrightarrow> vstep es n s' s'' \<Longrightarrow> vstep es n s s''"
  using vstep_trans[of "[]" 0 s s' es n s''] by simp

lemma then_vstep: "vstep es n s s' \<Longrightarrow> vstep [] 0 s' s'' \<Longrightarrow> vstep es n s s''"
  using vstep_trans[of es n s s' "[]" 0 s''] by simp

lemma vstep_diag [simp]: "vstep es n s (diag e s') = vstep es n s s'"
  by (simp add: vstep_def diag_def fixed_def)

lemma diag_fields [simp]:
  "im_repeat (diag e s) = im_repeat s" "im_trace (diag e s) = im_trace s" "im_drops (diag e s) = im_drops s"
  "fixed (diag e s) = fixed s" "im_metrics (diag e s) = im_metrics s" "im_output (diag e s) = im_output s"
  "im_bridge (diag e s) = im_bridge s" "im_streaming (diag e s) = im_streaming s"
  "im_pacer (diag e s) = im_pacer s" "vi_encode (diag e s) = vi_encode s" "vi_source (diag e s) = vi_source s"
  "im_gpu (diag e s) = im_gpu s"
  by (simp_all add: diag_def fixed_def)

lemma fixed_updates [simp]:
  "fixed (s\<lparr>vi_encode := e\<rparr>) = fixed s" "fixed (s\<lparr>im_cadence := c\<rparr>) = fixed s"
  "fixed (s\<lparr>im_metrics := m\<rparr>) = fixed s" "fixed (s\<lparr>im_output := os\<rparr>) = fixed s"
  "fixed (s\<lparr>im_bridge := b\<rparr>) = fixed s" "fixed (s\<lparr>im_drops := n\<rparr>) = fixed s"
  "fixed (s\<lparr>im_repeat := r\<rparr>) = fixed s" "fixed (s\<lparr>im_gpu := g\<rparr>) = fixed s"
  "fixed (s\<lparr>im_ext := x\<rparr>) = fixed s" "fixed (s\<lparr>vi_source := d\<rparr>) = fixed s"
  "fixed (s\<lparr>im_preview_seq := q\<rparr>) = fixed s" "fixed (s\<lparr>im_trigger := t\<rparr>) = fixed s"
  "fixed (s\<lparr>im_diag := di\<rparr>) = fixed s" "fixed (pipe_emit ev s) = fixed s"
  by (simp_all add: fixed_def pipe_emit_def)

lemma emit_fields [simp]:
  "im_trace (pipe_emit ev s) = im_trace s @ [ev]" "im_drops (pipe_emit ev s) = im_drops s"
  "im_repeat (pipe_emit ev s) = im_repeat s" "im_metrics (pipe_emit ev s) = im_metrics s"
  "im_output (pipe_emit ev s) = im_output s" "im_bridge (pipe_emit ev s) = im_bridge s"
  "im_streaming (pipe_emit ev s) = im_streaming s" "im_pacer (pipe_emit ev s) = im_pacer s"
  "vi_encode (pipe_emit ev s) = vi_encode s" "vi_source (pipe_emit ev s) = vi_source s"
  "im_gpu (pipe_emit ev s) = im_gpu s"
  by (simp_all add: pipe_emit_def)

lemma more_eq:
  assumes "video_io.more s' = video_io.more (s :: impl)"
  shows "im_trace s' = im_trace s" "im_drops s' = im_drops s" "fixed s' = fixed s" "im_repeat s' = im_repeat s"
    "im_gpu s' = im_gpu s"
proof -
  note e = video_io_more_eq[OF assms]
  show "im_trace s' = im_trace s" by (subst e) simp
  show "im_drops s' = im_drops s" by (subst e) simp
  show "im_repeat s' = im_repeat s" by (subst e) simp
  show "im_gpu s' = im_gpu s" by (subst e) simp
  show "fixed s' = fixed s" by (rule ssubst[OF e, where P = "\<lambda>x. fixed x = fixed s"]) (simp add: fixed_def)
qed

lemma vstep_more: "video_io.more s' = video_io.more s \<Longrightarrow> vstep [] 0 s s'"
  using more_eq[of s' s] by (simp add: vstep_def)

section \<open>The steps\<close>

lemma vstep_recover [simp]: "vstep [] 0 s (recover env s)" "im_repeat (recover env s) = im_repeat s"
  unfolding recover_def by (rule vstep_more[OF handle_device_lost_more], rule more_eq(4)[OF handle_device_lost_more])

lemma vstep_count_drop [simp]:
  "vstep [] (Suc 0) s (count_drop EncodeFailed s)" "count_drop NoNewFrame s = s"
  "im_repeat (count_drop oc s) = im_repeat s"
  by (simp_all add: count_drop_def counts_as_frame_drop_def vstep_def)

lemma vstep_encode_failed [simp]:
  "vstep [] (Suc 0) s (encode_failed env s)" "im_repeat (encode_failed env s) = im_repeat s"
  using then_vstep[OF vstep_count_drop(1) vstep_recover(1), of s env] by (simp_all add: encode_failed_def)

lemma vstep_force_idr [simp]: "vstep [] 0 s (maybe_force_idr pts s)" "im_repeat (maybe_force_idr pts s) = im_repeat s"
  by (simp_all add: maybe_force_idr_def vstep_def Let_def diag_def split: prod.split)

lemma vstep_enc_split [simp]:
  "vstep es n s (record_enc_split s') = vstep es n s s'" "im_repeat (record_enc_split s) = im_repeat s"
  by (simp_all add: record_enc_split_def split: option.split)

lemma on_packet_vstep:
  assumes "on_packet env pkt s = Val s'"
  shows "\<exists>es. vstep es (failures es) s s' \<and> \<not> list_ex is_encode es \<and> im_repeat s' = im_repeat s
    \<and> (es = [] \<longleftrightarrow> \<not> im_streaming s)"
proof -
  define s1 where "s1 = (if pk_is_keyframe pkt then s\<lparr>im_cadence := idr_on_keyframe (pk_pts pkt) (im_cadence s)\<rparr> else s)"
  have s1: "vstep [] 0 s s1" "im_repeat s1 = im_repeat s" "im_streaming s1 = im_streaming s"
    by (simp_all add: s1_def vstep_def)
  show ?thesis
  proof (cases "im_streaming s")
    case False
    with assms s1 have "s' = s1" by (simp add: on_packet_def s1_def[symmetric] Let_def)
    with s1 False show ?thesis by (intro exI[of _ "[]"]) simp
  next
    case True
    obtain crash data oenv where e: "fe_send env = (crash, data, oenv)" by (rule prod_cases3)
    obtain sent os where o: "output_send crash data (pk_size pkt) oenv (im_output s1) = (sent, os)"
      by (rule prod.exhaust)
    define s2 where "s2 = pipe_emit (PacketSent sent)
      (s1\<lparr>im_metrics := mx_record_frame (im_metrics s1), im_output := os\<rparr>)"
    define s3 where "s3 = diag (RSendVideo (ticks_us (fe_span env SpSend) s2) sent) s2"
    define s4 where "s4 = (if \<not> sent then s3\<lparr>im_drops := im_drops s3 + 1,
      im_metrics := mx_record_frame_drop (im_metrics s3)\<rparr> else s3)"
    have "vstep [PacketSent sent] 0 s1 s3" by (simp add: s3_def s2_def vstep_def)
    moreover have "vstep [] (if sent then 0 else 1) s3 s4" by (simp add: s4_def vstep_def)
    ultimately have s4: "vstep [PacketSent sent] (failures [PacketSent sent]) s1 s4"
      using vstep_trans by fastforce
    have r4: "im_repeat s4 = im_repeat s" using s1 by (simp add: s4_def s3_def s2_def pipe_emit_def)
    have "output_send crash data (pk_size pkt) oenv (im_output (s1\<lparr>im_metrics := mx_record_frame (im_metrics s1)\<rparr>)) = (sent, os)"
      using o by simp
    then obtain b os' where "s' = diag (RAudioDrain (ticks_us (fe_span env SpAudio) (s4\<lparr>im_bridge := b, im_output := os'\<rparr>)))
        (s4\<lparr>im_bridge := b, im_output := os'\<rparr>)"
      using assms True s1(3)
      unfolding s4_def s3_def s2_def by (auto simp: on_packet_def s1_def[symmetric] e Let_def and_then_Val)
    then have "vstep [] 0 s4 s'" "im_repeat s' = im_repeat s" using r4 by (simp_all, simp add: vstep_def)
    with s4 have "vstep [PacketSent sent] (failures [PacketSent sent]) s s'"
      using vstep_then[OF s1(1)] then_vstep by blast
    with \<open>im_repeat s' = im_repeat s\<close> True show ?thesis
      by (intro exI[of _ "[PacketSent sent]"]) simp
  qed
qed

lemma encode_tick_vstep:
  assumes "encode_tick env tex pts s = Val (ok, s')"
  shows "\<exists>es. vstep (EncodeCalled tex pts ok # es) (failures es) s s' \<and> \<not> list_ex is_encode es
    \<and> im_repeat s' = im_repeat s"
proof -
  let ?s0 = "maybe_force_idr pts s"
  obtain ok' pkt es where e: "encode_sub_frame tex pts (fe_encode env) (vi_encode ?s0) = (ok', pkt, es)"
    by (rule prod_cases3)
  define s1 where "s1 = pipe_emit (EncodeCalled tex pts ok') (?s0\<lparr>vi_encode := es\<rparr>)"
  have "vstep [EncodeCalled tex pts ok'] 0 ?s0 s1" by (simp add: s1_def vstep_def)
  then have s1: "vstep [EncodeCalled tex pts ok'] 0 s s1" "im_repeat s1 = im_repeat s"
    using vstep_then[OF vstep_force_idr(1)] by (simp_all add: s1_def pipe_emit_def)
  obtain s2 where s2: "(case pkt of None \<Rightarrow> Val s1 | Some p \<Rightarrow> on_packet env p s1) = Val s2"
    and s': "ok = ok'" "s' = record_enc_split (diag (REncode (ticks_us (fe_span env SpEncode) s2)) s2)"
  proof -
    have "and_then (case pkt of None \<Rightarrow> Val s1 | Some p \<Rightarrow> on_packet env p s1)
        (\<lambda>s. Val (ok', record_enc_split (diag (REncode (ticks_us (fe_span env SpEncode) s)) s))) = Val (ok, s')"
      using assms unfolding s1_def by (simp add: encode_tick_def Let_def e)
    then show ?thesis using that by (auto simp: and_then_Val)
  qed
  obtain es' where es': "vstep es' (failures es') s1 s2" "\<not> list_ex is_encode es'" "im_repeat s2 = im_repeat s1"
  proof (cases pkt)
    case None
    then show ?thesis using s2 that[of "[]"] by simp
  next
    case (Some p)
    then show ?thesis using s2 on_packet_vstep[of env p s1 s2] that by auto
  qed
  have "vstep (EncodeCalled tex pts ok # es') (failures es') s s2"
    using vstep_trans[OF s1(1) es'(1)] s' by simp
  with es' s1(2) s' show ?thesis by auto
qed

lemma vstep_copy:
  assumes "copy_for_repeat env t s = (copy, s')"
  shows "vstep [] 0 s s'" "im_streaming s' = im_streaming s" "im_pacer s' = im_pacer s"
    "copy \<noteq> None \<longrightarrow> (\<exists>r. im_repeat s' = Some r \<and> copy = Some (rp_handle r) \<and> copy_fits t (ce_fmt env) r)"
    "ce_create env \<noteq> None \<and> im_repeat s \<noteq> None \<longrightarrow> im_repeat s' \<noteq> None"
  using assms
  by (auto simp: copy_for_repeat_def vstep_def Let_def copy_fits_def split: if_splits option.splits)

lemma vstep_interop [simp]:
  "vstep [InteropCallback mw mh] 0 s (interop_step env mw mh s)"
  "im_repeat (interop_step env mw mh s) = im_repeat s" "im_preview_cb (interop_step env mw mh s) = im_preview_cb s"
proof -
  define s1 where "s1 = (if gi_bridge (im_gpu s) \<noteq> None \<and> (case source_dxgi (vi_source s) of None \<Rightarrow> False
                  | Some p \<Rightarrow> dp_shared_tex p \<noteq> None)
              then (case interop_frame_images (fst (fe_interop env)) (snd (fe_interop env)) (im_gpu s, im_ext s) of
                  (None, g, tr) \<Rightarrow> s\<lparr>im_gpu := g, im_ext := tr\<rparr>
                | (Some (staging, target, slot), g, tr) \<Rightarrow>
                    s\<lparr>im_gpu := cache_last_images staging target slot g, im_ext := tr\<rparr>)
              else s)"
  have "slots_ok (im_gpu s) \<longrightarrow> slots_ok (im_gpu s1)"
  proof (cases "interop_frame_images (fst (fe_interop env)) (snd (fe_interop env)) (im_gpu s, im_ext s)")
    case (fields r g tr)
    then show ?thesis using slots_ok_images[OF fields] slots_ok_cache
      by (auto simp: s1_def split: option.split)
  qed
  then have s1: "vstep [] 0 s s1" "im_repeat s1 = im_repeat s"
    by (auto simp: s1_def vstep_def split: prod.splits option.splits)
  have e: "interop_step env mw mh s = diag (RInterop (ticks_us (fe_span env SpInterop)
      (pipe_emit (InteropCallback mw mh) s1))) (pipe_emit (InteropCallback mw mh) s1)"
    by (simp add: interop_step_def s1_def Let_def)
  have "vstep [InteropCallback mw mh] 0 s1 (pipe_emit (InteropCallback mw mh) s1)" by (simp add: vstep_def)
  with s1 show v: "vstep [InteropCallback mw mh] 0 s (interop_step env mw mh s)"
    "im_repeat (interop_step env mw mh s) = im_repeat s"
    using vstep_then by (simp_all add: e)
  from v(1) show "im_preview_cb (interop_step env mw mh s) = im_preview_cb s"
    by (simp add: vstep_def fixed_def)
qed

lemma set_dxgi_fields [simp]:
  "vstep es n s (set_dxgi p s') = vstep es n s s'" "im_repeat (set_dxgi p s) = im_repeat s"
  by (simp_all add: set_dxgi_def vstep_def)

lemma preview_step_vstep:
  "\<exists>es. vstep es 0 s (preview_step env f t mw mh s) \<and> failures es = 0 \<and> \<not> list_ex is_encode es
    \<and> im_repeat (preview_step env f t mw mh s) = im_repeat s"
proof -
  let ?P = "\<lambda>s s'. \<exists>es. vstep es 0 s s' \<and> failures es = 0 \<and> \<not> list_ex is_encode es \<and> im_repeat s' = im_repeat s"
  have emit: "?P s (pipe_emit (PreviewCallback w h) s)" for w h s
    by (intro exI[of _ "[PreviewCallback w h]"]) (simp add: vstep_def)
  have refl: "?P s s" for s by (intro exI[of _ "[]"]) simp
  have tr: "?P x z" if "?P x y" "?P y z" for x y z
    using that vstep_trans[of _ 0 x y _ 0 z] by fastforce
  have dx: "?P s (preview_dxgi env mw mh s)"
    using emit[of s mw mh] refl[of s]
    by (simp add: preview_dxgi_def split: option.split prod.split bool.split)
  have upd: "?P x (y\<lparr>vi_source := d\<rparr>)" "?P x (y\<lparr>im_preview_seq := q\<rparr>)" if "?P x y" for x y d q
    using that by (simp_all add: vstep_def)
  have wg: "?P s (preview_wgc env f t s)" for s
  proof (cases "source_is_wgc (vi_source s) \<and> im_preview_seq s AND 1 = 0")
    case False
    then show ?thesis using refl[of s] upd(2)[OF refl] by (auto simp: preview_wgc_def Let_def)
  next
    case True
    let ?s = "s\<lparr>im_preview_seq := im_preview_seq s + 1\<rparr>"
    obtain r d where e: "emit_wgc_preview ((fe_emit env)\<lparr>em_w := tx_w t, em_h := tx_h t\<rparr>) (vi_source ?s) = (r, d)"
      by (rule prod.exhaust)
    show ?thesis
    proof (cases r)
      case None
      with True e have "preview_wgc env f t s = diag RPreviewMiss (?s\<lparr>vi_source := d\<rparr>)"
        by (simp add: preview_wgc_def Let_def)
      then show ?thesis using upd(1)[OF upd(2)[OF refl[of s]]] by simp
    next
      case (Some sl)
      with True e have "preview_wgc env f t s = pipe_emit (PreviewCallback (sf_width f) (sf_height f)) (?s\<lparr>vi_source := d\<rparr>)"
        by (simp add: preview_wgc_def Let_def)
      then show ?thesis using tr[OF upd(1)[OF upd(2)[OF refl[of s]]] emit] by metis
    qed
  qed
  show ?thesis using tr[OF dx wg] by (simp add: preview_step_def Let_def)
qed

section \<open>A whole frame\<close>

definition encodes_of :: "pipe_event list \<Rightarrow> (handle \<times> int) list" where
  "encodes_of es = List.map_filter (\<lambda>e. case e of EncodeCalled h pts ok \<Rightarrow> Some (h, pts) | _ \<Rightarrow> None) es"

lemma encodes_of_simps [simp]:
  "encodes_of [] = []" "encodes_of (EncodeCalled h pts ok # es) = (h, pts) # encodes_of es"
  "encodes_of (xs @ ys) = encodes_of xs @ encodes_of ys"
  by (simp_all add: encodes_of_def map_filter_def)

lemma no_encodes: "\<not> list_ex is_encode es \<Longrightarrow> encodes_of es = []"
  by (induction es) (auto simp: encodes_of_def map_filter_def split: pipe_event.splits)

text \<open>What a frame did: the events, the drops they stand for, and the one encode call.\<close>

definition frame_effect :: "(handle \<times> int) list \<Rightarrow> impl \<Rightarrow> impl \<Rightarrow> bool" where
  "frame_effect enc s s' \<longleftrightarrow> (\<exists>es. vstep es (failures es) s s' \<and> encodes_of es = enc)"

lemma encode_and_recover:
  assumes "encode_tick env tex pts s = Val (ok, s1)" "vstep [] (if ok then 0 else 1) s1 s2"
  shows "frame_effect [(tex, pts)] s s2"
proof -
  obtain es where es: "vstep (EncodeCalled tex pts ok # es) (failures es) s s1" "\<not> list_ex is_encode es"
    using encode_tick_vstep[OF assms(1)] by blast
  have "vstep (EncodeCalled tex pts ok # es) (failures (EncodeCalled tex pts ok # es)) s s2"
    using vstep_trans[OF es(1) assms(2)] by (cases ok) simp_all
  with es(2) show ?thesis unfolding frame_effect_def by (metis encodes_of_simps(2) no_encodes)
qed

lemma frame_effect_then:
  "frame_effect enc s s1 \<Longrightarrow> vstep es 0 s1 s2 \<Longrightarrow> failures es = 0 \<Longrightarrow> \<not> list_ex is_encode es \<Longrightarrow> frame_effect enc s s2"
  unfolding frame_effect_def using vstep_trans[of _ _ s s1 es 0 s2] no_encodes[of es]
  by (metis (no_types, lifting) add.right_neutral append_Nil2 encodes_of_simps(3) failures_simps(3))

lemma frame_effect_refl: "frame_effect [] s s"
  unfolding frame_effect_def by (intro exI[of _ "[]"]) simp

lemma frame_effect_before: "vstep [] 0 s s1 \<Longrightarrow> frame_effect enc s1 s2 \<Longrightarrow> frame_effect enc s s2"
  unfolding frame_effect_def using vstep_then by blast

lemma show_frame_vstep:
  "\<exists>es. vstep es 0 s (show_frame env f t s) \<and> failures es = 0 \<and> \<not> list_ex is_encode es
    \<and> im_repeat (show_frame env f t s) = im_repeat s"
proof -
  obtain mw mh fmt dev where m: "source_metadata (vi_source s) = (mw, mh, fmt, dev)" by (rule prod_cases4)
  define s1 where "s1 = (if im_d3d_cb s then interop_step env mw mh s else s)"
  obtain es where es: "vstep es 0 s s1" "failures es = 0" "\<not> list_ex is_encode es" "im_repeat s1 = im_repeat s"
  proof (cases "im_d3d_cb s")
    case True
    then show ?thesis using that[of "[InteropCallback mw mh]"] by (simp add: s1_def)
  next
    case False
    then show ?thesis using that[of "[]"] by (simp add: s1_def)
  qed
  have e: "show_frame env f t s = (if im_preview_cb s1 then preview_step env f t mw mh s1 else s1)"
    by (simp add: show_frame_def m s1_def Let_def)
  show ?thesis
  proof (cases "im_preview_cb s1")
    case True
    obtain es' where "vstep es' 0 s1 (preview_step env f t mw mh s1)" "failures es' = 0" "\<not> list_ex is_encode es'"
      "im_repeat (preview_step env f t mw mh s1) = im_repeat s1" using preview_step_vstep by blast
    with es vstep_trans[OF es(1)] True show ?thesis by (intro exI[of _ "es @ es'"]) (simp add: e)
  next
    case False
    with es show ?thesis by (auto simp: e)
  qed
qed

lemma valid_frame_effect:
  assumes "valid_frame env f t s = Val s'"
  shows "\<exists>h. frame_effect [(h, pacer_pts_us (fe_start env) (im_pacer s))] s s'
    \<and> (ce_create (fe_copy env) \<noteq> None \<and> im_repeat s \<noteq> None \<longrightarrow> im_repeat s' \<noteq> None)"
proof -
  let ?pts = "pacer_pts_us (fe_start env) (im_pacer s)"
  obtain copy s1 where c: "copy_for_repeat (fe_copy env) t s = (copy, s1)" by (rule prod.exhaust)
  define s2 where "s2 = diag (RCopy (ticks_us (fe_span env SpCopy) s1)) s1"
  define h where "h = (case copy of Some h \<Rightarrow> h | None \<Rightarrow> sf_handle f)"
  note vc = vstep_copy[OF c]
  have s2: "vstep [] 0 s s2" "im_repeat s2 = im_repeat s1" using vc by (simp_all add: s2_def)
  obtain ok s3 where t: "encode_tick env h ?pts s2 = Val (ok, s3)"
    and s': "s' = show_frame env f t (if \<not> ok then encode_failed env s3 else s3)"
    using assms by (auto simp: valid_frame_def Let_def c s2_def h_def and_then_Val)
  define s4 where "s4 = (if \<not> ok then encode_failed env s3 else s3)"
  have r4: "im_repeat s4 = im_repeat s1" using encode_tick_vstep[OF t] s2(2) by (auto simp: s4_def)
  have e4: "frame_effect [(h, ?pts)] s s4"
    using encode_and_recover[OF t, of s4] s2(1) frame_effect_before by (cases ok) (auto simp: s4_def)
  obtain es where "vstep es 0 s4 s'" "failures es = 0" "\<not> list_ex is_encode es" "im_repeat s' = im_repeat s4"
    using show_frame_vstep s' unfolding s4_def by blast
  with frame_effect_then[OF e4] vc(5) r4 show ?thesis by auto
qed

lemma null_frame_effect:
  assumes "null_frame env edge s = Val s'"
  shows "frame_effect (case im_repeat s of None \<Rightarrow> [] | Some r \<Rightarrow> [(rp_handle r, pacer_pts_us (fe_start env) (im_pacer s))]) s s'
    \<and> im_repeat s' = im_repeat s"
proof (cases "im_repeat s")
  case None
  with assms show ?thesis
    using frame_effect_refl frame_effect_then[OF frame_effect_refl, of "[]" s "recover env s"]
    by (auto simp: null_frame_def should_repeat_frame_def and_then_Val split: if_splits)
next
  case (Some r)
  let ?pts = "pacer_pts_us (fe_start env) (im_pacer s)"
  have h: "repeat_handle s = rp_handle r" using Some by (simp add: repeat_handle_def)
  from assms obtain ok s1 where t: "encode_tick env (rp_handle r) ?pts s = Val (ok, s1)"
    and s': "s' = (if \<not> ok then encode_failed env (diag RRepeat s1)
        else if edge then recover env (diag RRepeat s1) else diag RRepeat s1)"
    by (auto simp: null_frame_def should_repeat_frame_def and_then_Val Some h Let_def split: prod.splits if_splits)
  have "vstep [] (if ok then 0 else 1) s1 s'"
    using vstep_then[of s1 "diag RRepeat s1" "[]"] by (auto simp: s')
  from encode_and_recover[OF t this] show ?thesis
    using encode_tick_vstep[OF t] by (auto simp: Some s')
qed

definition frame_pts :: "frame_env \<Rightarrow> impl \<Rightarrow> int" where
  "frame_pts env s = pacer_pts_us (fe_start env) (im_pacer s)"

lemma set_source_fields [simp]:
  "im_trace (set_source w s) = im_trace s" "im_drops (set_source w s) = im_drops s"
  "fixed (set_source w s) = fixed s" "im_repeat (set_source w s) = im_repeat s"
  "im_pacer (set_source w s) = im_pacer s" "im_trigger (set_source w s) = im_trigger s"
  "im_streaming (set_source w s) = im_streaming s" "im_gpu (set_source w s) = im_gpu s"
  by (simp_all add: set_source_def fixed_def split: prod.split)

lemma capture_encode_effect:
  assumes "capture_encode addr env s = Val s'"
  shows "\<exists>enc. frame_effect enc s s' \<and> length enc \<le> 1 \<and> (\<forall>x \<in> set enc. snd x = frame_pts env s)
    \<and> (source_state_of (vi_source s) \<noteq> Uninitialized \<and> ce_create (fe_copy env) \<noteq> None \<and> im_repeat s \<noteq> None
        \<longrightarrow> length enc = 1 \<and> im_repeat s' \<noteq> None)"
proof (cases "source_state_of (vi_source s) = Uninitialized")
  case True
  with assms have "s' = s" by (simp add: capture_encode_def)
  with True show ?thesis using frame_effect_refl by fastforce
next
  case False
  obtain x w where n: "source_next_frame addr (fe_source env) (source_of s) = (x, w)" by (rule prod.exhaust)
  obtain f t where x: "x = Val (f, t)"
    using assms False n by (cases x) (auto simp: capture_encode_def)
  obtain edge tr where e: "trigger_on_state (source_state_of (vi_source (set_source w s))) (im_trigger (set_source w s)) = (edge, tr)"
    by (rule prod.exhaust)
  define s1 where "s1 = (set_source w s)\<lparr>im_trigger := tr\<rparr>"
  define s2 where "s2 = diag (RCapture (ticks_us (fe_span env SpCapture) s1) (sf_handle f \<noteq> 0)) s1"
  have c: "(case (sf_handle f \<noteq> 0, t) of (True, Some tx) \<Rightarrow> valid_frame env f tx s2
      | _ \<Rightarrow> null_frame env edge s2) = Val s'"
    using assms False n x e unfolding s2_def s1_def
    by (cases "sf_handle f = 0"; cases t) (simp_all add: capture_encode_def Let_def)
  have s2: "vstep [] 0 s s2" "im_repeat s2 = im_repeat s" "im_pacer s2 = im_pacer s"
    by (simp_all add: s2_def s1_def vstep_def)
  have pts: "pacer_pts_us (fe_start env) (im_pacer s2) = frame_pts env s" by (simp add: frame_pts_def s2)
  show ?thesis
  proof (cases "\<exists>tx. sf_handle f \<noteq> 0 \<and> t = Some tx")
    case True
    then obtain tx where "valid_frame env f tx s2 = Val s'" using c by auto
    from valid_frame_effect[OF this] obtain h where
      h: "frame_effect [(h, frame_pts env s)] s2 s'"
        "ce_create (fe_copy env) \<noteq> None \<and> im_repeat s \<noteq> None \<longrightarrow> im_repeat s' \<noteq> None"
      unfolding pts s2(2) by blast
    from frame_effect_before[OF s2(1) h(1)] h(2) show ?thesis
      by (intro exI[of _ "[(h, frame_pts env s)]"]) auto
  next
    case False
    then have "null_frame env edge s2 = Val s'" using c by (cases "sf_handle f = 0"; cases t) simp_all
    note nf = null_frame_effect[OF this, unfolded pts s2(2)]
    from frame_effect_before[OF s2(1) nf[THEN conjunct1]] nf[THEN conjunct2] show ?thesis
      by (intro exI[of _ "case im_repeat s of None \<Rightarrow> [] | Some r \<Rightarrow> [(rp_handle r, frame_pts env s)]"])
        (auto split: option.splits)
  qed
qed

section \<open>The drain\<close>

text \<open>A property of the state kept by every command that may be applied is kept by the drain.\<close>

lemma drain_ws_invariant:
  "(\<And>cp p. Q p \<Longrightarrow> Q (f cp p)) \<Longrightarrow> Q p \<Longrightarrow> Q (drain_ws f rs p)"
proof (induction rs arbitrary: p)
  case (Cons r rs)
  then show ?case by (cases r) (simp_all add: seh_ws_command_dequeue_def)
qed simp

definition router_ready :: "pipe_router \<Rightarrow> bool" where
  "router_ready r \<longleftrightarrow> cmd_ring_inv (rt_ring r) \<and> length (rt_cmd_buf r) = 8
     \<and> (rt_scene_cb r = None \<or> rt_scene_cb r = Some scene_callback)"

lemma drain_commands_invariant:
  assumes "router_ready r" "P s"
    and "\<And>c s. c \<in> set (drained_cmds (fe_inbox env) r) \<Longrightarrow> P s \<Longrightarrow> P (apply_command (fe_reconf env) c s)"
    and "\<And>c s. c \<in> set (cmd_ring_contents (rt_ring r)) \<Longrightarrow> P s \<Longrightarrow> P (apply_frame_cmd (fe_reconf env) c s)"
    and "\<And>cmd s. P s \<Longrightarrow> P (ws_start_stop cmd s)" "\<And>cmd param s. P s \<Longrightarrow> P (invoke_scene_cmd cmd param s)"
  shows "\<exists>r' s'. drain_commands env r s = Some (r', s') \<and> P s' \<and> router_ready r'
    \<and> cmd_ring_contents (rt_ring r') = [] \<and> rt_on_action r' = rt_on_action r"
proof -
  let ?Q = "\<lambda>x :: impl \<times> cmd_ring. P (fst x)"
  let ?f = "\<lambda>c. apfst (apply_command (fe_reconf env) c) :: impl \<times> cmd_ring \<Rightarrow> impl \<times> cmd_ring"
  let ?g = "\<lambda>c. apfst (apply_frame_cmd (fe_reconf env) c) :: impl \<times> cmd_ring \<Rightarrow> impl \<times> cmd_ring"
  let ?h = "\<lambda>cmd. apfst (ws_start_stop cmd) :: impl \<times> cmd_ring \<Rightarrow> impl \<times> cmd_ring"
  let ?env = "fe_inbox env"
  have inv: "cmd_ring_inv (rt_ring r)" "length (rt_cmd_buf r) = 8"
    "rt_scene_cb r = None \<or> rt_scene_cb r = Some scene_callback"
    using assms(1) by (simp_all add: router_ready_def)
  define x1 where "x1 = fold ?f (drained_cmds ?env r) (s, rt_ring r)"
  define x2 where "x2 = drain_ws (apply_ws_command ?h (rt_scene_cb r)) (fi_ws ?env) x1"
  define x3 where "x3 = fold ?g (cmd_ring_contents (rt_ring r)) x2"
  have q1: "?Q x1" unfolding x1_def
    by (rule fold_invariant[where Q = "\<lambda>c. c \<in> set (drained_cmds ?env r)"]) (use assms(2,3) in auto)
  have "?Q (apply_ws_command ?h (rt_scene_cb r) cp x)" if "?Q x" for cp x
    using that inv(3) assms(5,6) by (cases cp) (auto simp: apply_ws_command_def scene_callback_def)
  then have q2: "?Q x2" unfolding x2_def using q1 drain_ws_invariant[of ?Q] by blast
  have q3: "?Q x3" unfolding x3_def
    by (rule fold_invariant[where Q = "\<lambda>c. c \<in> set (cmd_ring_contents (rt_ring r))"]) (use q2 assms(4) in auto)
  let ?r = "(fill_cmd_buf (snd (seh_command_drain (fi_commands ?env))) (log_ws_port (fi_ws_port ?env) r))
     \<lparr>rt_ring := (rt_ring r)\<lparr>cr_tail := cr_head (rt_ring r)\<rparr>\<rparr>"
  have "drain_commands env r s = Some (?r, fst x3)"
    using drain_and_apply_result[OF inv(1), of ?f ?g ?h ?env "(s, rt_ring r)"]
    by (simp add: drain_commands_def x1_def x2_def x3_def)
  moreover have "router_ready ?r" "cmd_ring_contents (rt_ring ?r) = []"
    using inv cmd_ring_emptied[OF inv(1)] by (simp_all add: router_ready_def)
  moreover have "rt_on_action ?r = rt_on_action r" by (simp add: fill_cmd_buf_def log_ws_port_def)
  ultimately show ?thesis using q3 by blast
qed


end
