(* ===== verification/PipeRun.thy ===== *)
theory PipeRun
  imports Pipeline FrameFacts
begin

text \<open>
  The public object as a state machine: the calls of the user interface, the turns of the frame
  loop, the wake-ups of the action thread, of the audio supervisor and of the metrics thread are
  its steps. The locale \<open>pipe_ledger\<close> says what a property of the bookkeeping fields must
  survive to hold after every run; it is proved once that the elementary steps suffice.
\<close>

section \<open>Steps\<close>

datatype pipe_op =
    PInit pipe_config pipe_init_env
  | PFrame frame_env
  | PActions "rj_action list"
  | PAudio "super_turn list"
  | PPoll poll_env
  | PStart | PStop
  | PPreview u32 bool
  | PD3d u32 bool preview_env bool
  | PScene u32 bool
  | PVulkan "bool option"
  | PDown shutdown_env

definition on_impl_state :: "(impl \<Rightarrow> impl) \<Rightarrow> pipe \<Rightarrow> pipe" where
  "on_impl_state f p = p\<lparr>pp_impl := map_option f (pp_impl p)\<rparr>"

text \<open>The action thread wakes up: the handler sees the state and the ring it pushes into.\<close>

definition wake_actions :: "rj_action list \<Rightarrow> pipe \<Rightarrow> pipe" where
  "wake_actions as p = (case pp_impl p of
      None \<Rightarrow> p
    | Some s \<Rightarrow> (case action_wakeup (pp_router p) as (s, rt_ring (pp_router p)) of (s, ring) \<Rightarrow>
        p\<lparr>pp_impl := Some s, pp_router := (pp_router p)\<lparr>rt_ring := ring\<rparr>\<rparr>))"

definition wake_metrics :: "poll_env \<Rightarrow> impl \<Rightarrow> impl" where
  "wake_metrics env s = s\<lparr>im_metrics := poll_loop_step env (im_metrics s)\<rparr>"

definition result_of :: "('a \<times> 'b) outcome \<Rightarrow> 'b outcome" where
  "result_of m = and_then m (\<lambda>x. Val (snd x))"

fun pipe_step :: "(tex \<Rightarrow> handle) \<Rightarrow> pipe_op \<Rightarrow> pipe \<Rightarrow> pipe outcome" where
  "pipe_step addr (PInit cfg env) p = result_of (pipe_init cfg env p)"
| "pipe_step addr (PFrame env) p = result_of (run_frame addr env p)"
| "pipe_step addr (PActions as) p = Val (wake_actions as p)"
| "pipe_step addr (PAudio ts) p = Val (on_impl_state (audio_turns ts) p)"
| "pipe_step addr (PPoll env) p = Val (on_impl_state (wake_metrics env) p)"
| "pipe_step addr PStart p = Val (snd (start_stream p))"
| "pipe_step addr PStop p = Val (snd (stop_stream p))"
| "pipe_step addr (PPreview n cb) p = Val (snd (set_preview_callback n cb p))"
| "pipe_step addr (PD3d n cb env vk) p = Val (snd (set_d3d11_frame_callback n cb env vk p))"
| "pipe_step addr (PScene n cb) p = Val (snd (set_scene_command_callback n cb p))"
| "pipe_step addr (PVulkan v) p = Val (snd (notify_vulkan_ready v p))"
| "pipe_step addr (PDown env) p = result_of (pipe_shutdown env p)"

inductive pipe_run :: "(tex \<Rightarrow> handle) \<Rightarrow> (pipe_op \<Rightarrow> bool) \<Rightarrow> pipe \<Rightarrow> pipe \<Rightarrow> bool" for addr ok where
  pipe_run_refl: "pipe_run addr ok p p"
| pipe_run_step: "pipe_run addr ok p q \<Longrightarrow> ok op \<Longrightarrow> pipe_step addr op q = Val q' \<Longrightarrow> pipe_run addr ok p q'"

section \<open>The bookkeeping fields\<close>

text \<open>The limits are what a start fixes for the bitrate.\<close>

definition limits :: "impl \<Rightarrow> u32 \<times> u32" where
  "limits s = (cg_min_bitrate (im_cfg s), cg_original_bitrate (im_cfg s))"

definition ledger where
  "ledger s = (im_trace s, im_drops s, limits s, im_bitrate s, im_timer_set s, im_com_owned s)"

lemma ledger_updates [simp]:
  "ledger (s\<lparr>im_audio := a\<rparr>) = ledger s" "ledger (s\<lparr>im_audio_calls := c\<rparr>) = ledger s"
  "ledger (s\<lparr>im_streaming := b\<rparr>) = ledger s" "ledger (s\<lparr>im_output := os\<rparr>) = ledger s"
  "ledger (s\<lparr>im_metrics := m\<rparr>) = ledger s" "ledger (s\<lparr>im_bridge := br\<rparr>) = ledger s"
  "ledger (s\<lparr>im_repeat := r\<rparr>) = ledger s" "ledger (s\<lparr>im_gpu := g\<rparr>) = ledger s"
  "ledger (s\<lparr>im_ext := x\<rparr>) = ledger s" "ledger (s\<lparr>im_initialized := b\<rparr>) = ledger s"
  "ledger (s\<lparr>im_has_source := b\<rparr>) = ledger s" "ledger (s\<lparr>im_pacer := pc\<rparr>) = ledger s"
  "ledger (s\<lparr>im_preview_cb := b\<rparr>) = ledger s" "ledger (s\<lparr>im_d3d_cb := b\<rparr>) = ledger s"
  "ledger (s\<lparr>im_scene_cb := b\<rparr>) = ledger s" "ledger (s\<lparr>im_fallback_scan := fs\<rparr>) = ledger s"
  "ledger (s\<lparr>vi_encode := e\<rparr>) = ledger s" "ledger (s\<lparr>vi_source := d\<rparr>) = ledger s"
  "ledger (s\<lparr>vi_width := w\<rparr>) = ledger s" "ledger (s\<lparr>vi_height := h\<rparr>) = ledger s"
  "ledger (s\<lparr>im_reconfs := n\<rparr>) = ledger s" "ledger (s\<lparr>im_diag := di\<rparr>) = ledger s"
  "ledger (s\<lparr>im_diag_open := b\<rparr>) = ledger s" "ledger (s\<lparr>im_last_sample := l\<rparr>) = ledger s"
  "ledger (set_source sw s) = ledger s" "ledger (set_dxgi dp s) = ledger s" "ledger (diag ev s) = ledger s"
  by (simp_all add: ledger_def limits_def set_source_def set_dxgi_def diag_def split: prod.split)

lemma ledger_eqD:
  assumes "ledger s' = ledger s"
  shows "im_trace s' = im_trace s" "im_drops s' = im_drops s" "limits s' = limits s"
    "im_bitrate s' = im_bitrate s" "im_timer_set s' = im_timer_set s" "im_com_owned s' = im_com_owned s"
  using assms by (simp_all add: ledger_def)

subsection \<open>Steps that leave them alone\<close>

lemma ledger_start_stop [simp]:
  "ledger (snd (impl_start_stream s)) = ledger s" "ledger (snd (impl_stop_stream s)) = ledger s"
  "ledger (ws_start_stop cmd s) = ledger s"
  by (simp_all add: ws_start_stop_def impl_start_stream_def impl_stop_stream_def Let_def)

lemma ledger_wake_metrics [simp]: "ledger (wake_metrics env s) = ledger s"
  by (simp add: wake_metrics_def)

lemma ledger_on_audio_capture: "ledger (on_audio_capture a s) = ledger s"
  by (simp add: on_audio_capture_def)

lemma ledger_captures: "ledger (fold on_audio_capture as s) = ledger s"
  by (induction as arbitrary: s) (simp_all add: ledger_on_audio_capture)

lemma ledger_audio_turns [simp]: "ledger (audio_turns ts s) = ledger s"
  by (simp add: audio_turns_def Let_def ledger_captures split: option.split)

lemma ledger_on_source_dxgi [simp]: "ledger (on_source_dxgi f s) = ledger s"
  by (simp add: on_source_dxgi_def split: option.split)

lemma ledger_reconf_step [simp]: "ledger (reconf_step ans f s) = ledger s"
  by (simp add: reconf_step_def)

lemma ledger_audio_shutdown [simp]: "ledger (audio_shutdown s) = ledger s"
  by (simp add: audio_shutdown_def split: option.split)

lemma ledger_seh_shutdown [simp]: "ledger (snd (seh_shutdown_subsystems n s)) = ledger s"
proof -
  have one: "ledger (f s) = ledger s" if "f \<in> set seh_steps" for f s
    using that by (auto simp: seh_steps_def)
  have "ledger (fold (\<lambda>f. f) fs s) = ledger s" if "set fs \<subseteq> set seh_steps" for fs s
    using that one by (induction fs arbitrary: s) simp_all
  from this[OF set_take_subset] show ?thesis by (simp add: seh_shutdown_subsystems_def)
qed

lemma ledger_stop_sending [simp]: "ledger (stop_sending s) = ledger s"
  by (simp add: stop_sending_def)

lemma ledger_init_pacer [simp]: "ledger (snd (init_pacer cfg env s)) = ledger s"
  by (simp add: init_pacer_def split: prod.split)

lemma ledger_init_source [simp]: "ledger (snd (init_source env s)) = ledger s"
  by (simp add: init_source_def split: prod.split)

lemma limits_dimensions: "limits (s\<lparr>im_cfg := (im_cfg s)\<lparr>cg_width := w, cg_height := h\<rparr>\<rparr>) = limits s"
  by (simp add: limits_def)

lemma ledger_learn_dimensions [simp]: "ledger (learn_dimensions env s) = ledger s"
  by (simp add: learn_dimensions_def ledger_def limits_def Let_def split: prod.split option.split)

lemma ledger_init_steps [simp]:
  "ledger (init_interop env s) = ledger s" "ledger (init_encoder_for cfg env s) = ledger s"
  "ledger (init_output cfg env s) = ledger s" "ledger (init_preview env s) = ledger s"
  "ledger (init_audio cfg env s) = ledger s"
  by (simp_all add: init_interop_def init_encoder_for_def init_output_def init_preview_def init_audio_def
      audio_init_def Let_def split: option.split prod.split)

lemma ledger_emit: "ledger s' = ledger s \<Longrightarrow> ledger (pipe_emit ev s') = ledger (pipe_emit ev s)"
  by (simp add: ledger_def pipe_emit_def limits_def)

lemma ledger_init_subsystems [simp]:
  "ledger (init_subsystems cfg env s) = ledger (pipe_emit MonitorStarted s)"
  unfolding init_subsystems_def Let_def ledger_updates by (rule ledger_emit) simp

lemma shutdown_rest_steps:
  "\<exists>s1. ledger s1 = ledger s \<and> ledger (snd (shutdown_rest env a s)) = ledger (snd (leave_system (sd_com_ok env) a s1))"
proof -
  define s3 where "s3 = s\<lparr>im_output := output_shutdown (im_output s), vi_encode := encode_shutdown (vi_encode s)\<rparr>"
  define s4 where "s4 = (if im_has_source s3 then set_source (source_shutdown (source_of s3)) s3 else s3)\<lparr>im_repeat := None\<rparr>"
  obtain g tr where g: "interop_shutdown (im_gpu s4, im_ext s4) = (g, tr)" by (rule prod.exhaust)
  define s5 where "s5 = s4\<lparr>im_gpu := g, im_ext := tr\<rparr>"
  obtain ok' s6 where e6: "leave_system (sd_com_ok env) a s5 = (ok', s6)" by (rule prod.exhaust)
  have "ledger s3 = ledger s" by (simp add: s3_def)
  then have "ledger s4 = ledger s" by (simp add: s4_def)
  then have "ledger s5 = ledger s" by (simp add: s5_def)
  moreover have "shutdown_rest env a s = (ok', s6\<lparr>im_initialized := False\<rparr>)"
    using g e6 by (simp add: shutdown_rest_def Let_def s5_def s4_def s3_def cong: if_cong)
  ultimately show ?thesis using e6 by (intro exI[of _ s5]) simp
qed

lemma shutdown_body_steps:
  assumes "shutdown_body env s = Val (ok, s')"
  shows "\<exists>s1 a. ledger s1 = ledger s \<and> ledger s' = ledger (snd (leave_system (sd_com_ok env) a s1))"
proof -
  define s0 where "s0 = (stop_sending s)\<lparr>im_metrics := metrics_stop (im_metrics (stop_sending s))\<rparr>"
  obtain a s1 where e1: "seh_shutdown_subsystems (sd_done env) s0 = (a, s1)" by (rule prod.exhaust)
  have "ledger s0 = ledger s" by (simp add: s0_def)
  then have l1: "ledger (audio_shutdown s1) = ledger s"
    using ledger_seh_shutdown[of "sd_done env" s0, unfolded e1] by simp
  from assms obtain b os where
    r: "shutdown_rest env a ((audio_shutdown s1)\<lparr>im_bridge := b, im_output := os\<rparr>) = (ok, s')"
    unfolding shutdown_body_def Let_def s0_def[symmetric] e1 prod.case by (auto simp: and_then_Val)
  from shutdown_rest_steps[of "(audio_shutdown s1)\<lparr>im_bridge := b, im_output := os\<rparr>" env a] l1
  show ?thesis unfolding r by (metis ledger_updates(4,6) snd_conv)
qed

section \<open>What a property of the bookkeeping must survive\<close>

lemma cmd_ring_contents_init: "cmd_ring_contents cmd_ring_init = []"
  by (simp add: cmd_ring_contents_def cmd_ring_len_def cmd_ring_init_def)

definition is_bitrate_cmd :: "int \<Rightarrow> bool" where
  "is_bitrate_cmd ty \<longleftrightarrow> ty = RJ_ACTION_BITRATE_REDUCE \<or> ty = RJ_ACTION_BITRATE_RECOVER"

definition action_handler :: "(rj_action \<Rightarrow> impl \<times> cmd_ring \<Rightarrow> impl \<times> cmd_ring)" where
  "action_handler a x = snd (apply_action a x)"

lemma apply_action_fst [simp]: "fst (action_handler a x) = fst x"
  by (simp add: action_handler_def apply_action_def queue_cmd_def Let_def split: option.split)

text \<open>What an action may put into the ring.\<close>

lemma apply_action_ring:
  assumes "cmd_ring_inv (snd x)"
  shows "cmd_ring_inv (snd (action_handler a x))"
    "c \<in> set (cmd_ring_contents (snd (action_handler a x))) \<Longrightarrow> c \<in> set (cmd_ring_contents (snd x))
      \<or> \<not> is_bitrate_cmd (fc_action_type c)
      \<or> word_of_int (fc_param1 c) = reduce_target (fst (limits (fst x))) (im_bitrate (fst x)) (ra_param1 a)
      \<or> Some (word_of_int (fc_param1 c)) = recover_target (snd (limits (fst x))) (im_bitrate (fst x)) (ra_param1 a)"
proof -
  have q: "cmd_ring_inv (snd (queue_cmd ty v x))"
    "set (cmd_ring_contents (snd (queue_cmd ty v x))) \<subseteq> insert \<lparr>fc_action_type = ty, fc_param1 = v\<rparr> (set (cmd_ring_contents (snd x)))"
    for ty v
    using cmd_ring_inv_push[OF assms] cmd_ring_contents_push[OF assms] by (auto simp: queue_cmd_def)
  show "cmd_ring_inv (snd (action_handler a x))"
    using q(1) assms by (simp add: action_handler_def apply_action_def Let_def split: option.split)
  assume c: "c \<in> set (cmd_ring_contents (snd (action_handler a x)))"
  let ?red = "reduce_target (fst (limits (fst x))) (im_bitrate (fst x)) (ra_param1 a)"
  let ?rec = "recover_target (snd (limits (fst x))) (im_bitrate (fst x)) (ra_param1 a)"
  consider (same) "action_handler a x = x"
    | (push) ty v where "action_handler a x = queue_cmd ty v x"
      "\<not> is_bitrate_cmd ty \<or> word_of_int v = ?red \<or> Some (word_of_int v) = ?rec"
  proof -
    consider (reduce) "ra_type a = RJ_ACTION_BITRATE_REDUCE" | (recover) "ra_type a = RJ_ACTION_BITRATE_RECOVER"
      | (other) "\<not> is_bitrate_cmd (ra_type a)" by (auto simp: is_bitrate_cmd_def)
    then show thesis
    proof cases
      case reduce
      then have "action_handler a x = queue_cmd RJ_ACTION_BITRATE_REDUCE (sint ?red) x"
        by (simp add: action_handler_def apply_action_def limits_def Let_def)
      then show ?thesis by (rule push) simp
    next
      case recover
      then have h: "action_handler a x = (case ?rec of None \<Rightarrow> x | Some b \<Rightarrow> queue_cmd RJ_ACTION_BITRATE_RECOVER (sint b) x)"
        by (simp add: action_handler_def apply_action_def limits_def Let_def model_defs split: option.split)
      show ?thesis
      proof (cases ?rec)
        case (Some b)
        with h push[of RJ_ACTION_BITRATE_RECOVER "sint b"] show ?thesis by simp
      qed (use h same in simp)
    next
      case other
      then have "action_handler a x = x \<or> action_handler a x = queue_cmd (ra_type a) (ra_param1 a) x"
        by (simp add: action_handler_def apply_action_def is_bitrate_cmd_def Let_def)
      with other show ?thesis using same push by blast
    qed
  qed
  then show "c \<in> set (cmd_ring_contents (snd x)) \<or> \<not> is_bitrate_cmd (fc_action_type c)
      \<or> word_of_int (fc_param1 c) = reduce_target (fst (limits (fst x))) (im_bitrate (fst x)) (ra_param1 a)
      \<or> Some (word_of_int (fc_param1 c)) = recover_target (snd (limits (fst x))) (im_bitrate (fst x)) (ra_param1 a)"
  proof cases
    case (push ty v)
    then have "c = \<lparr>fc_action_type = ty, fc_param1 = v\<rparr> \<or> c \<in> set (cmd_ring_contents (snd x))"
      using c q(2)[of ty v] by auto
    with push(2) show ?thesis by auto
  qed (use c in simp)
qed

text \<open>\<open>okb\<close> says which bitrates commands may ask for.\<close>

locale pipe_ledger =
  fixes P :: "impl \<Rightarrow> bool" and ok :: "pipe_op \<Rightarrow> bool" and okb :: "u32 \<Rightarrow> bool"
  assumes same: "ledger s' = ledger s \<Longrightarrow> P s \<Longrightarrow> P s'"
    and starts: "ok (PInit cfg env) \<Longrightarrow> P s \<Longrightarrow> P (snd (enter_system env (begin_init cfg env s)))"
    and monitor: "P s \<Longrightarrow> P (pipe_emit MonitorStarted s)"
    and scene: "P s \<Longrightarrow> P (pipe_emit (SceneCallback c v) s)"
    and bitrate: "P s \<Longrightarrow> okb b \<Longrightarrow> P (pipe_emit (BitrateState b (cg_original_bitrate (im_cfg s))) (s\<lparr>im_bitrate := b\<rparr>))"
    and frame: "vstep es (failures es) s s' \<Longrightarrow> P s \<Longrightarrow> P s'"
    and sample: "P s \<Longrightarrow> P (push_metrics fenv s)"
    and leave: "P s \<Longrightarrow> P (snd (leave_system com_ok all_ok s))"
    and rust: "ok (PFrame fenv) \<Longrightarrow> length (rt_cmd_buf (r :: pipe_router)) = 8 \<Longrightarrow> cmd \<in> set (drained_cmds (fe_inbox fenv) r) \<Longrightarrow>
      rj_cmd_type cmd = RJ_CMD_BITRATE_SET \<Longrightarrow> okb (rj_param cmd)"
    and reduce: "ok (PActions as) \<Longrightarrow> act \<in> set as \<Longrightarrow> P s \<Longrightarrow>
      okb (reduce_target (fst (limits s)) (im_bitrate s) (ra_param1 act))"
    and recovers: "ok (PActions as) \<Longrightarrow> act \<in> set as \<Longrightarrow> P s \<Longrightarrow>
      recover_target (snd (limits s)) (im_bitrate s) (ra_param1 act) = Some b \<Longrightarrow> okb b"
begin

definition queued_ok :: "cmd_ring \<Rightarrow> bool" where
  "queued_ok ring \<longleftrightarrow> cmd_ring_inv ring \<and>
     (\<forall>c \<in> set (cmd_ring_contents ring). is_bitrate_cmd (fc_action_type c) \<longrightarrow> okb (word_of_int (fc_param1 c)))"

definition R :: "pipe \<Rightarrow> bool" where
  "R p \<longleftrightarrow> router_ready (pp_router p) \<and> queued_ok (rt_ring (pp_router p))
     \<and> (rt_on_action (pp_router p) = None \<or> rt_on_action (pp_router p) = Some action_handler)"

definition J :: "pipe \<Rightarrow> bool" where
  "J p \<longleftrightarrow> R p \<and> (\<exists>s. pp_impl p = Some s \<and> P s)"

lemma change_bitrate_P: "P s \<Longrightarrow> okb b \<Longrightarrow> P (change_bitrate ans b s)"
proof -
  assume a: "P s" "okb b"
  define s1 where "s1 = reconf_step ans (\<lambda>ok. encode_set_bitrate ok b) s"
  have "P s1" "cg_original_bitrate (im_cfg s1) = cg_original_bitrate (im_cfg s)"
    using a(1) same[OF ledger_reconf_step] by (simp_all add: s1_def reconf_step_def)
  with bitrate[of s1 b] a(2) show ?thesis by (simp add: change_bitrate_def s1_def Let_def)
qed

lemma apply_frame_cmd_P:
  "P s \<Longrightarrow> (is_bitrate_cmd (fc_action_type c) \<longrightarrow> okb (word_of_int (fc_param1 c))) \<Longrightarrow> P (apply_frame_cmd ans c s)"
  using change_bitrate_P same[OF ledger_reconf_step] by (simp add: apply_frame_cmd_def is_bitrate_cmd_def)

lemma apply_command_P:
  "P s \<Longrightarrow> (rj_cmd_type c = RJ_CMD_BITRATE_SET \<longrightarrow> okb (rj_param c)) \<Longrightarrow> P (apply_command ans c s)"
  using change_bitrate_P by (simp add: apply_command_def)

lemma drain_P:
  assumes "ok (PFrame env)" "router_ready r" "queued_ok (rt_ring r)" "P s"
  shows "\<exists>r' s'. drain_commands env r s = Some (r', s') \<and> P s' \<and> router_ready r' \<and> queued_ok (rt_ring r')
    \<and> rt_on_action r' = rt_on_action r"
proof -
  have "length (rt_cmd_buf r) = 8" using assms(2) by (simp add: router_ready_def)
  with rust[OF assms(1), of r]
  have rust: "P (apply_command (fe_reconf env) c s)" if "c \<in> set (drained_cmds (fe_inbox env) r)" "P s" for c s
    using that apply_command_P by blast
  have frame: "P (apply_frame_cmd (fe_reconf env) c s)" if "c \<in> set (cmd_ring_contents (rt_ring r))" "P s" for c s
    using that assms(3) apply_frame_cmd_P by (simp add: queued_ok_def)
  have ws: "P (ws_start_stop cmd s)" "P (invoke_scene_cmd cmd v s)" if "P s" for cmd v s
    using that same[OF ledger_start_stop(3)] scene by (simp_all add: invoke_scene_cmd_def)
  have "\<exists>r' s'. drain_commands env r s = Some (r', s') \<and> P s' \<and> router_ready r'
    \<and> cmd_ring_contents (rt_ring r') = [] \<and> rt_on_action r' = rt_on_action r"
    by (rule drain_commands_invariant[where P = P, OF assms(2,4) rust frame ws])
  then show ?thesis by (auto simp: queued_ok_def router_ready_def)
qed

end

lemma ledger_flush_pace: "ledger (pace_frame env (flush_diag env s)) = ledger s"
  by (simp add: pace_frame_def flush_diag_def Let_def)

context pipe_ledger begin

lemma J_I:
  "J p \<Longrightarrow> P s \<Longrightarrow> J (p\<lparr>pp_impl := Some s\<rparr>)"
  by (simp add: J_def R_def)

lemma J_frame:
  assumes "J p" "ok (PFrame env)" "run_frame addr env p = Val (b, p')"
  shows "J p'"
proof -
  obtain s where s: "pp_impl p = Some s" "P s" and j: "router_ready (pp_router p)" "queued_ok (rt_ring (pp_router p))"
    "rt_on_action (pp_router p) = None \<or> rt_on_action (pp_router p) = Some action_handler"
    using assms(1) by (auto simp: J_def R_def)
  show ?thesis
  proof (cases "\<not> im_has_source s \<or> source_state_of (vi_source s) = Uninitialized")
    case True
    with assms s show ?thesis by (simp add: run_frame_def)
  next
    case False
    obtain r s1 where d: "drain_commands env (pp_router p) s = Some (r, s1)" "P s1" "router_ready r"
      "queued_ok (rt_ring r)" "rt_on_action r = rt_on_action (pp_router p)"
      using drain_P[OF assms(2) j(1,2) s(2)] by blast
    then have "and_then (capture_encode addr env s1) (\<lambda>s.
        Val (True, p\<lparr>pp_impl := Some (pace_frame env (flush_diag env (push_metrics env s))), pp_router := r\<rparr>)) = Val (b, p')"
      using assms(3) s(1) False by (simp add: run_frame_def returns_def)
    then obtain s2 where c: "capture_encode addr env s1 = Val s2"
      and p': "p' = p\<lparr>pp_impl := Some (pace_frame env (flush_diag env (push_metrics env s2))), pp_router := r\<rparr>"
      by (auto simp: and_then_Val)
    have "P s2" using capture_encode_effect[OF c] frame d(2) unfolding frame_effect_def by blast
    then have "P (pace_frame env (flush_diag env (push_metrics env s2)))"
      using same[OF ledger_flush_pace sample] by blast
    with d j(3) show ?thesis by (simp add: p' J_def R_def)
  qed
qed

lemma J_actions:
  assumes "J p" "ok (PActions as)"
  shows "J (wake_actions as p)"
proof -
  obtain s where s: "pp_impl p = Some s" "P s" using assms(1) by (auto simp: J_def R_def)
  let ?r = "pp_router p"
  have step: "fst (action_handler a x) = s \<and> queued_ok (snd (action_handler a x))"
    if "a \<in> set as" "fst x = s \<and> queued_ok (snd x)" for a x
    using that apply_action_ring(1)[of x a] apply_action_ring(2)[of x _ a]
      reduce[OF assms(2) that(1) s(2)] recovers[OF assms(2) that(1) s(2)]
    unfolding queued_ok_def by (metis apply_action_fst)
  define y where "y = action_wakeup ?r as (s, rt_ring ?r)"
  have "fst y = s \<and> queued_ok (snd y)"
  proof (cases "rt_on_action ?r")
    case None
    with assms(1) show ?thesis by (simp add: y_def action_wakeup_def J_def R_def)
  next
    case (Some f)
    then have "y = fold action_handler as (s, rt_ring ?r)" using assms(1) by (auto simp: y_def action_wakeup_def J_def R_def)
    moreover have "fst (fold action_handler as (s, rt_ring ?r)) = s \<and> queued_ok (snd (fold action_handler as (s, rt_ring ?r)))"
      by (rule fold_invariant[where Q = "\<lambda>a. a \<in> set as" and P = "\<lambda>x. fst x = s \<and> queued_ok (snd x)"])
        (use step assms(1) in \<open>auto simp: J_def R_def\<close>)
    ultimately show ?thesis by simp
  qed
  moreover have "wake_actions as p = p\<lparr>pp_impl := Some (fst y), pp_router := ?r\<lparr>rt_ring := snd y\<rparr>\<rparr>"
    by (simp add: wake_actions_def s y_def split: prod.split)
  ultimately show ?thesis using assms(1) s by (auto simp: J_def R_def queued_ok_def router_ready_def)
qed

lemma J_same: "J p \<Longrightarrow> pp_impl p = Some s \<Longrightarrow> ledger s' = ledger s \<Longrightarrow> J (p\<lparr>pp_impl := Some s'\<rparr>)"
  using same by (auto simp: J_def R_def)

lemma J_on_impl_state: "J p \<Longrightarrow> (\<And>s. ledger (f s) = ledger s) \<Longrightarrow> J (on_impl_state f p)"
  using same by (auto simp: J_def R_def on_impl_state_def)

lemma J_on_impl: "J p \<Longrightarrow> (\<And>s. ledger (snd (f s)) = ledger s) \<Longrightarrow> J (snd (on_impl f p))"
proof -
  assume a: "J p" "\<And>s. ledger (snd (f s)) = ledger s"
  then obtain s where s: "pp_impl p = Some s" by (auto simp: J_def R_def)
  show ?thesis using J_same[OF a(1) s a(2)] by (cases "f s") (simp add: on_impl_def s)
qed

lemma J_setters:
  assumes "J p"
  shows "J (snd (set_preview_callback n cb p))" "J (snd (set_scene_command_callback n cb p))"
    "J (snd (set_d3d11_frame_callback n cb env vk p))" "J (snd (notify_vulkan_ready v p))"
proof -
  obtain s where s: "pp_impl p = Some s" using assms by (auto simp: J_def R_def)
  note J = J_same[OF assms s]
  show "J (snd (set_preview_callback n cb p))" "J (snd (set_scene_command_callback n cb p))"
    by (simp_all add: set_preview_callback_def set_scene_command_callback_def ensure_impl_def s J)
  show "J (snd (set_d3d11_frame_callback n cb env vk p))"
    by (simp add: set_d3d11_frame_callback_def ensure_impl_def s J Let_def split: prod.split)
  show "J (snd (notify_vulkan_ready v p))"
    using assms by (simp add: notify_vulkan_ready_def s J split: prod.split)
qed

lemma J_shutdown:
  assumes "J p" "pipe_shutdown env p = Val (b, p')"
  shows "J p'"
proof -
  obtain s where s: "pp_impl p = Some s" "P s" using assms(1) by (auto simp: J_def R_def)
  show ?thesis
  proof (cases "pp_shutdown_done p")
    case True
    with assms s show ?thesis by (simp add: pipe_shutdown_def)
  next
    case False
    with assms(2) s obtain s' where d: "shutdown_body env s = Val (b, s')"
      and p': "p' = p\<lparr>pp_impl := Some s', pp_router := router_stop (pp_router p), pp_shutdown_done := True\<rparr>"
      by (auto simp: pipe_shutdown_def and_then_Val)
    from shutdown_body_steps[OF d] obtain s1 a where "ledger s1 = ledger s"
      "ledger s' = ledger (snd (leave_system (sd_com_ok env) a s1))" by blast
    then have "P s'" using same leave s(2) by blast
    with assms(1) show ?thesis by (simp add: J_def R_def p' router_stop_def router_ready_def)
  qed
qed

lemma J_start:
  assumes "R p" "pp_impl p = Some s" "\<not> im_initialized s" "cg_fps cfg \<noteq> 0"
    "P (snd (enter_system env (begin_init cfg env s)))" "pipe_init cfg env p = Val (b, p')"
  shows "J p'"
proof -
  define q where "q = p\<lparr>pp_profiler := True\<rparr>"
  have q: "J (q\<lparr>pp_impl := Some x\<rparr>)" if "P x" for x using that assms(1) by (simp add: q_def J_def R_def)
  obtain ok1 s1 where e: "enter_system env (begin_init cfg env s) = (ok1, s1)" by (rule prod.exhaust)
  obtain ok2 s2 where i: "init_pacer cfg env s1 = (ok2, s2)" by (rule prod.exhaust)
  obtain ok3 s3 where c: "init_source env s2 = (ok3, s3)" by (rule prod.exhaust)
  have P1: "P s1" using assms(5) e by simp
  have P2: "P s2" using same[OF ledger_init_pacer P1, of cfg env] i by simp
  have P3: "P s3" using same[OF ledger_init_source P2, of env] c by simp
  have P4: "P (init_subsystems cfg env s3)" using same[OF ledger_init_subsystems monitor[OF P3]] by blast
  have give_up: "J p'" if "P x" "and_then (pipe_shutdown (ie_down env) (q\<lparr>pp_impl := Some x\<rparr>)) (\<lambda>(ok, p). Val (False, p)) = Val (b, p')" for x
    using that J_shutdown[OF q[OF that(1)]] by (auto simp: and_then_Val)
  have "rt_scene_cb (router_callbacks r) = Some scene_callback" "rt_on_action (router_callbacks r) = Some action_handler"
    "rt_ring (router_callbacks r) = rt_ring r" "rt_cmd_buf (router_callbacks r) = rt_cmd_buf r" for r
    by (simp_all add: router_callbacks_def router_start_def action_handler_def fun_eq_iff)
  then have fin: "J (q\<lparr>pp_impl := Some (init_subsystems cfg env s3), pp_router := router_callbacks (pp_router q)\<rparr>)"
    using assms(1) P4 by (simp add: J_def R_def q_def router_ready_def)
  have h: "pipe_init cfg env p = (case (ok1, s1) of
       (False, s) \<Rightarrow> Val (False, q\<lparr>pp_impl := Some s\<rparr>)
     | (True, s) \<Rightarrow> (case init_pacer cfg env s of
       (False, s) \<Rightarrow> and_then (pipe_shutdown (ie_down env) (q\<lparr>pp_impl := Some s\<rparr>)) (\<lambda>(ok, p). Val (False, p))
     | (True, s) \<Rightarrow> (case init_source env s of
       (False, s) \<Rightarrow> and_then (pipe_shutdown (ie_down env) (q\<lparr>pp_impl := Some s\<rparr>)) (\<lambda>(ok, p). Val (False, p))
     | (True, s) \<Rightarrow> Val (True, q\<lparr>pp_impl := Some (init_subsystems cfg env s),
                            pp_router := router_callbacks (pp_router q)\<rparr>))))"
    using assms(3,4) unfolding pipe_init_def ensure_impl_def q_def Let_def by (simp add: assms(2) e)
  show ?thesis
    using assms(6) q[OF P1] give_up[OF P2] give_up[OF P3] fin unfolding h
    by (cases ok1; cases ok2; cases ok3) (auto simp: i c)
qed

lemma J_init:
  assumes "J p" "ok (PInit cfg env)" "pipe_init cfg env p = Val (b, p')"
  shows "J p'"
proof -
  obtain s where s: "R p" "pp_impl p = Some s" "P s" using assms(1) by (auto simp: J_def)
  show ?thesis
  proof (cases "im_initialized s \<or> cg_fps cfg = 0")
    case True
    with assms s have "p' = p" by (cases "im_initialized s") (simp_all add: pipe_init_def ensure_impl_def)
    with assms(1) show ?thesis by simp
  next
    case False
    then show ?thesis using J_start[OF s(1,2)] starts[OF assms(2) s(3)] assms(3) by blast
  qed
qed

text \<open>The first start of a pipeline.\<close>

lemma J_first:
  assumes "pipe_init cfg env pipe_new = Val (b, p)" "cg_fps cfg \<noteq> 0"
    "P (snd (enter_system env (begin_init cfg env (impl_new (ie_ncpus env)))))"
  shows "J p"
proof -
  let ?p = "pipe_new\<lparr>pp_impl := Some (impl_new (ie_ncpus env)), pp_router := router_new\<rparr>"
  have "ensure_impl (ie_ncpus env) pipe_new = ensure_impl (ie_ncpus env) ?p"
    by (simp add: ensure_impl_def pipe_new_def)
  then have "pipe_init cfg env ?p = Val (b, p)" using assms(1) by (simp add: pipe_init_def)
  moreover have "R ?p"
    using cmd_ring_inv_init
    by (simp add: R_def router_ready_def router_new_def queued_ok_def cmd_ring_contents_init)
  ultimately show ?thesis
    using J_start[of ?p "impl_new (ie_ncpus env)"] assms(2,3) by (simp add: impl_new_def)
qed

lemma J_step:
  assumes "J p" "ok op" "pipe_step addr op p = Val p'"
  shows "J p'"
proof (cases op)
  case (PInit cfg env)
  with assms obtain b where "pipe_init cfg env p = Val (b, p')" by (auto simp: result_of_def and_then_Val)
  then show ?thesis using J_init[OF assms(1)] assms(2) PInit by blast
next
  case (PFrame env)
  with assms obtain b where "run_frame addr env p = Val (b, p')" by (auto simp: result_of_def and_then_Val)
  then show ?thesis using J_frame[OF assms(1)] assms(2) PFrame by blast
next
  case (PDown env)
  with assms obtain b where "pipe_shutdown env p = Val (b, p')" by (auto simp: result_of_def and_then_Val)
  then show ?thesis using J_shutdown[OF assms(1)] by blast
next
  case (PActions as)
  with assms J_actions[OF assms(1), of as] show ?thesis by simp
next
  case (PAudio ts)
  with assms(3) J_on_impl_state[OF assms(1), of "audio_turns ts"] show ?thesis by simp
next
  case (PPoll env)
  with assms(3) J_on_impl_state[OF assms(1), of "wake_metrics env"] show ?thesis by simp
next
  case PStart
  with assms(3) J_on_impl[OF assms(1), of impl_start_stream] show ?thesis by (simp add: start_stream_def)
next
  case PStop
  with assms(3) J_on_impl[OF assms(1), of impl_stop_stream] show ?thesis by (simp add: stop_stream_def)
qed (use assms(3) J_setters[OF assms(1)] in auto)

lemma J_run: "pipe_run addr ok p q \<Longrightarrow> J p \<Longrightarrow> J q"
  by (induction rule: pipe_run.induct) (blast intro: J_step)+

lemma run_P: "pipe_run addr ok p q \<Longrightarrow> J p \<Longrightarrow> \<exists>s. pp_impl q = Some s \<and> P s"
  using J_run by (simp add: J_def R_def)

end


end
