(* ===== verification/PipeProps.thy ===== *)
theory PipeProps
  imports PipeRun
begin

text \<open>
  The properties of the pipeline as a whole. Three instances of \<open>pipe_ledger\<close> say what every run
  keeps: the drops counted and reported, the resources of the system taken and given back, and
  the bitrate with what the orchestrator is told about it. The others are about single calls.
\<close>

section \<open>Drops\<close>

fun drops_of :: "pipe_event \<Rightarrow> u32" where
  "drops_of (MetricsPushed m) = ms_frame_drops m"
| "drops_of _ = 0"

definition reported_drops :: "pipe_event list \<Rightarrow> u32" where
  "reported_drops es = sum_list (map drops_of es)"

lemma reported_drops_simps [simp]:
  "reported_drops [] = 0" "reported_drops (xs @ ys) = reported_drops xs + reported_drops ys"
  "reported_drops (e # es) = drops_of e + reported_drops es"
  by (simp_all add: reported_drops_def)

lemma reported_frame: "list_all frame_event es \<Longrightarrow> reported_drops es = 0"
proof (induction es)
  case (Cons e es)
  then show ?case by (cases e) (simp_all add: reported_drops_def)
qed simp

definition accounted :: "impl \<Rightarrow> bool" where
  "accounted s \<longleftrightarrow> reported_drops (im_trace s) + im_drops s = of_nat (failures (im_trace s))"

lemma accounted_emit:
  "accounted s \<Longrightarrow> drops_of e = 0 \<Longrightarrow> \<not> failed_event e \<Longrightarrow> accounted (pipe_emit e s)"
  by (simp add: accounted_def)

lemma build_sample_drops: "ms_frame_drops (fst (build_sample b drops t f pt s)) = drops"
  by (simp add: build_sample_def apply_collector_metrics_def Let_def split: prod.split option.split)

lemma push_metrics_trace:
  "\<exists>m. im_trace (push_metrics env s) = im_trace s @ [MetricsPushed m] \<and> ms_frame_drops m = im_drops s
    \<and> im_drops (push_metrics env s) = 0 \<and> fixed ((push_metrics env s)\<lparr>im_last_sample := im_last_sample s\<rparr>) = fixed s"
proof -
  obtain m mx where b: "build_sample (im_bitrate s) (im_drops s) (fe_start env) (pc_qpc_freq (im_pacer s)) (fe_ptimes env)
      (im_metrics s) = (m, mx)" by (rule prod.exhaust)
  then have "ms_frame_drops m = im_drops s" using build_sample_drops by (metis fst_conv)
  with b show ?thesis by (intro exI[of _ m]) (simp add: push_metrics_def Let_def fixed_def pipe_emit_def)
qed

lemma leave_system_trace:
  "\<exists>es. im_trace (snd (leave_system c a s)) = im_trace s @ es \<and> set es \<subseteq> {TimerEnded, ComLeft}
    \<and> im_drops (snd (leave_system c a s)) = im_drops s \<and> limits (snd (leave_system c a s)) = limits s
    \<and> im_bitrate (snd (leave_system c a s)) = im_bitrate s
    \<and> filter (\<lambda>e. e = TimerEnded) es = (if im_timer_set s then [TimerEnded] else [])
    \<and> filter (\<lambda>e. e = ComLeft) es = (if im_com_owned s then [ComLeft] else [])
    \<and> \<not> im_timer_set (snd (leave_system c a s)) \<and> \<not> im_com_owned (snd (leave_system c a s))"
  by (intro exI[of _ "(if im_timer_set s then [TimerEnded] else []) @ (if im_com_owned s then [ComLeft] else [])"])
    (simp add: leave_system_def Let_def pipe_emit_def limits_def)

lemma begin_enter_trace:
  "\<exists>es. im_trace (snd (enter_system env (begin_init cfg env s))) = im_trace s @ BitrateState (cg_bitrate cfg) (cg_bitrate cfg) # es
    \<and> set es \<subseteq> {TimerBegun, ComOwned}
    \<and> im_drops (snd (enter_system env (begin_init cfg env s))) = im_drops s
    \<and> limits (snd (enter_system env (begin_init cfg env s))) = (reduce_floor_for_target (cg_min_bitrate cfg) (cg_bitrate cfg), cg_bitrate cfg)
    \<and> im_bitrate (snd (enter_system env (begin_init cfg env s))) = cg_bitrate cfg"
  by (intro exI[of _ "(if ie_com env = ComFailed \<or> ie_com env = RPC_E_CHANGED_MODE then [] else [ComOwned])
      @ (if ie_com env \<noteq> ComFailed \<and> ie_timer env then [TimerBegun] else [])"])
    (simp add: enter_system_def begin_init_def Let_def pipe_emit_def limits_def)

lemma quiet_events:
  "set es \<subseteq> {TimerEnded, ComLeft, TimerBegun, ComOwned} \<Longrightarrow> failures es = 0 \<and> reported_drops es = 0"
  by (induction es) (auto simp: reported_drops_def)

interpretation acc: pipe_ledger accounted "\<lambda>_. True" "\<lambda>_. True"
proof unfold_locales
  show "accounted s'" if "ledger s' = ledger s" "accounted s" for s s'
    using that ledger_eqD(1,2)[OF that(1)] by (simp add: accounted_def)
  show "accounted (snd (enter_system env (begin_init cfg env s)))" if "accounted s" for cfg env s
  proof -
    obtain es where es: "im_trace (snd (enter_system env (begin_init cfg env s))) =
        im_trace s @ [BitrateState (cg_bitrate cfg) (cg_bitrate cfg)] @ es" "set es \<subseteq> {TimerBegun, ComOwned}"
      "im_drops (snd (enter_system env (begin_init cfg env s))) = im_drops s"
      using begin_enter_trace[of env cfg s] by auto
    have "failures es = 0 \<and> reported_drops es = 0" using es(2) by (intro quiet_events) auto
    with es that show ?thesis by (simp add: accounted_def)
  qed
  show "accounted (pipe_emit MonitorStarted s)" "accounted (pipe_emit (SceneCallback c v) s)" if "accounted s" for s c v
    using that by (simp_all add: accounted_emit)
  show "accounted (pipe_emit (BitrateState b (cg_original_bitrate (im_cfg s))) (s\<lparr>im_bitrate := b\<rparr>))" if "accounted s" for s b
    using that by (simp add: accounted_def)
  show "accounted s'" if "vstep es (failures es) s s'" "accounted s" for es s s'
    using that reported_frame by (simp add: vstep_def accounted_def)
  show "accounted (push_metrics fenv s)" if "accounted s" for fenv s
    using that push_metrics_trace[of fenv s] by (auto simp: accounted_def)
  show "accounted (snd (leave_system com_ok all_ok s))" if "accounted s" for com_ok all_ok s
    using that leave_system_trace[of com_ok all_ok s] quiet_events by (fastforce simp: accounted_def)
qed simp_all

section \<open>Resources of the system\<close>

text \<open>The timer resolution and the apartment are held exactly while the flags say so.\<close>

definition balanced :: "impl \<Rightarrow> bool" where
  "balanced s \<longleftrightarrow>
     count_list (im_trace s) TimerBegun = count_list (im_trace s) TimerEnded + of_bool (im_timer_set s)
   \<and> count_list (im_trace s) ComOwned = count_list (im_trace s) ComLeft + of_bool (im_com_owned s)"

definition resource_event :: "pipe_event \<Rightarrow> bool" where
  "resource_event e \<longleftrightarrow> e = TimerBegun \<or> e = TimerEnded \<or> e = ComOwned \<or> e = ComLeft"

lemma balanced_more:
  assumes "balanced s" "im_trace s' = im_trace s @ es" "\<not> list_ex resource_event es"
    "im_timer_set s' = im_timer_set s" "im_com_owned s' = im_com_owned s"
  shows "balanced s'"
proof -
  have "TimerBegun \<notin> set es" "TimerEnded \<notin> set es" "ComOwned \<notin> set es" "ComLeft \<notin> set es"
    using assms(3) by (auto simp: list_ex_iff resource_event_def)
  with assms show ?thesis by (simp add: balanced_def count_list_0_iff)
qed

lemma frame_events_free: "list_all frame_event es \<Longrightarrow> \<not> list_ex resource_event es"
  by (auto simp: list_all_iff list_ex_iff resource_event_def)

definition not_init :: "pipe_op \<Rightarrow> bool" where
  "not_init op \<longleftrightarrow> (case op of PInit cfg env \<Rightarrow> False | _ \<Rightarrow> True)"

interpretation bal: pipe_ledger balanced not_init "\<lambda>_. True"
proof unfold_locales
  show "balanced s'" if "ledger s' = ledger s" "balanced s" for s s'
    using that(2) by (rule balanced_more[where es = "[]"]) (use ledger_eqD[OF that(1)] in simp_all)
  show "balanced (pipe_emit MonitorStarted s)" "balanced (pipe_emit (SceneCallback c v) s)"
    "balanced (pipe_emit (BitrateState b (cg_original_bitrate (im_cfg s))) (s\<lparr>im_bitrate := b\<rparr>))"
    if "balanced s" for s c v b
    using that by (simp_all add: balanced_def pipe_emit_def)
  show "balanced s'" if "vstep es (failures es) s s'" "balanced s" for es s s'
    using that(2) by (rule balanced_more[where es = es]) (use that(1) frame_events_free in \<open>simp_all add: vstep_def fixed_def\<close>)
  show "balanced (push_metrics fenv s)" if "balanced s" for fenv s
  proof -
    obtain m where "im_trace (push_metrics fenv s) = im_trace s @ [MetricsPushed m]"
      "fixed ((push_metrics fenv s)\<lparr>im_last_sample := im_last_sample s\<rparr>) = fixed s"
      using push_metrics_trace[of fenv s] by blast
    then show ?thesis by (intro balanced_more[OF that, where es = "[MetricsPushed m]"]) (simp_all add: resource_event_def fixed_def)
  qed
  show "balanced (snd (leave_system com_ok all_ok s))" if "balanced s" for com_ok all_ok s
    using that by (simp add: leave_system_def balanced_def Let_def pipe_emit_def)
qed (simp_all add: not_init_def)

section \<open>The bitrate\<close>

definition told :: "pipe_event list \<Rightarrow> (u32 \<times> u32) list" where
  "told es = List.map_filter (\<lambda>e. case e of BitrateState b orig \<Rightarrow> Some (b, orig) | _ \<Rightarrow> None) es"

lemma told_simps [simp]:
  "told [] = []" "told (xs @ ys) = told xs @ told ys" "told (BitrateState b orig # es) = (b, orig) # told es"
  "told [MetricsPushed m] = []" "told [MonitorStarted] = []" "told [SceneCallback c v] = []"
  by (simp_all add: told_def map_filter_def)

lemma told_quiet:
  "list_all (\<lambda>e. frame_event e \<or> resource_event e) es \<Longrightarrow> told es = []"
proof (induction es)
  case (Cons e es)
  then show ?case by (cases e) (simp_all add: told_def map_filter_def resource_event_def)
qed simp

definition between :: "u32 \<Rightarrow> u32 \<Rightarrow> u32 \<Rightarrow> bool" where
  "between flr orig b \<longleftrightarrow> flr \<le> b \<and> b \<le> orig"

definition corridor :: "u32 \<Rightarrow> u32 \<Rightarrow> impl \<Rightarrow> bool" where
  "corridor flr orig s \<longleftrightarrow> limits s = (flr, orig) \<and> between flr orig (im_bitrate s)
     \<and> (\<exists>xs. told (im_trace s) = xs @ [(im_bitrate s, orig)])
     \<and> list_all (\<lambda>(b, to). between flr orig b \<and> to = orig) (told (im_trace s))"

lemma corridor_more:
  assumes "corridor flr orig s" "im_trace s' = im_trace s @ es" "told es = []"
    "limits s' = limits s" "im_bitrate s' = im_bitrate s"
  shows "corridor flr orig s'"
  using assms by (simp add: corridor_def)

lemma recover_step_ge:
  assumes "unat w \<le> 2000000000" "step < 2 ^ 31"
  shows "w \<le> recover_step_bitrate w step"
proof (cases "step > 0 \<or> 7 \<le> unat w")
  case True
  have "nat step < 2147483648" using assms(2) by (cases "0 \<le> step") (simp_all add: nat_less_iff)
  then show ?thesis using recover_step_greater[OF True] assms by (simp add: word_le_nat_alt)
next
  case False
  let ?x = "f32 (u2f w * f32 (115 / 100))"
  define n where "n = rat_of_nat (unat w)"
  have n: "0 \<le> n" unfolding n_def by (rule of_nat_0_le_iff)
  have "n \<le> 7" using False of_nat_mono[where 'a = rat, of "unat w" 7] by (simp add: n_def)
  have x: "n * (1149 / 1000) \<le> ?x" "?x \<le> n * (1151 / 1000)"
    using recover_fallback_bounds[of w] unfolding n_def by simp_all
  then have lo: "n \<le> ?x" "?x < 2 ^ 32" "0 \<le> ?x" using n \<open>n \<le> 7\<close> by simp_all
  then have "unat (f2u32 ?x) = nat \<lfloor>?x\<rfloor>" by (simp add: unat_f2u32)
  moreover have "int (unat w) \<le> \<lfloor>?x\<rfloor>" using lo by (simp add: le_floor_iff n_def)
  ultimately show ?thesis using False by (simp add: recover_step_bitrate_def word_le_nat_alt le_nat_iff)
qed

text \<open>The commands of the orchestrator: as many as it claims, with bitrates inside the limits, for
  starts with the same limits.\<close>

fun within_limits :: "pipe_config \<Rightarrow> pipe_op \<Rightarrow> bool" where
  "within_limits cfg (PInit cfg' env) \<longleftrightarrow> cg_bitrate cfg' = cg_bitrate cfg \<and> cg_min_bitrate cfg' = cg_min_bitrate cfg"
| "within_limits cfg (PFrame env) \<longleftrightarrow> (case fi_commands (fe_inbox env) of
     None \<Rightarrow> True
   | Some (n, ws) \<Rightarrow> n \<le> int (length ws) \<and> list_all (\<lambda>c. rj_cmd_type c \<noteq> RJ_CMD_BITRATE_SET
       \<or> between (reduce_floor_for_target (cg_min_bitrate cfg) (cg_bitrate cfg)) (cg_bitrate cfg) (rj_param c)) ws)"
| "within_limits cfg (PActions as) \<longleftrightarrow> list_all (\<lambda>a. ra_param1 a < 2 ^ 31) as"
| "within_limits cfg _ \<longleftrightarrow> True"

lemma drained_from_answer:
  assumes "length (rt_cmd_buf r) = 8" "c \<in> set (drained_cmds env r)"
    "fi_commands env = None \<or> (\<exists>n ws. fi_commands env = Some (n, ws) \<and> n \<le> int (length ws))"
  shows "\<exists>n ws. fi_commands env = Some (n, ws) \<and> c \<in> set ws"
proof -
  obtain n ws where e: "seh_command_drain (fi_commands env) = (n, ws)" by (rule prod.exhaust)
  show ?thesis
  proof (cases "fi_commands env")
    case None
    then show ?thesis using assms(2) e by (simp add: drained_cmds_def seh_command_drain_def clamp_drain_def)
  next
    case (Some x)
    then have x: "x = (n, ws)" "n \<le> int (length ws)" using e assms(3) by (auto simp: seh_command_drain_def)
    have "clamp_drain n \<le> length ws" "clamp_drain n \<le> 8" using x(2) by (auto simp: clamp_drain_def model_defs)
    then have "drained_cmds env r = take (clamp_drain n) ws"
      using assms(1) e by (simp add: drained_cmds_def fill_cmd_buf_def min_absorb1)
    then have "c \<in> set ws" using assms(2) by (auto dest: in_set_takeD)
    with Some x show ?thesis by blast
  qed
qed

lemma corridor_pipe:
  assumes "unat (cg_bitrate cfg) \<le> 2000000000"
  defines "flr \<equiv> reduce_floor_for_target (cg_min_bitrate cfg) (cg_bitrate cfg)"
  shows "pipe_ledger (corridor flr (cg_bitrate cfg)) (within_limits cfg) (between flr (cg_bitrate cfg))"
proof unfold_locales
  let ?orig = "cg_bitrate cfg"
  let ?C = "corridor flr ?orig" and ?B = "between flr ?orig"
  have orig: "?B ?orig" by (simp add: between_def flr_def reduce_floor_for_target_def)
  show "?C s'" if "ledger s' = ledger s" "?C s" for s s'
    using that(2) by (rule corridor_more[where es = "[]"]) (use ledger_eqD[OF that(1)] in simp_all)
  show "?C (snd (enter_system env (begin_init cfg' env s)))" if "within_limits cfg (PInit cfg' env)" "?C s" for cfg' env s
  proof -
    have c: "cg_bitrate cfg' = ?orig" "reduce_floor_for_target (cg_min_bitrate cfg') ?orig = flr"
      using that(1) by (simp_all add: flr_def)
    obtain es where es: "im_trace (snd (enter_system env (begin_init cfg' env s))) =
        im_trace s @ [BitrateState ?orig ?orig] @ es" "set es \<subseteq> {TimerBegun, ComOwned}"
      "limits (snd (enter_system env (begin_init cfg' env s))) = (flr, ?orig)"
      "im_bitrate (snd (enter_system env (begin_init cfg' env s))) = ?orig"
      using begin_enter_trace[of env cfg' s] unfolding c by auto
    moreover have "told es = []" using es(2) by (intro told_quiet) (auto simp: list_all_iff resource_event_def)
    ultimately show ?thesis using that(2) orig by (simp add: corridor_def)
  qed
  show "?C (pipe_emit MonitorStarted s)" "?C (pipe_emit (SceneCallback c v) s)" if "?C s" for s c v
    using that by (simp_all add: corridor_def limits_def pipe_emit_def)
  show "?C (pipe_emit (BitrateState b (cg_original_bitrate (im_cfg s))) (s\<lparr>im_bitrate := b\<rparr>))" if "?C s" "?B b" for s b
    using that by (simp add: corridor_def pipe_emit_def limits_def)
  show "?C s'" if "vstep es (failures es) s s'" "?C s" for es s s'
  proof -
    have v: "im_trace s' = im_trace s @ es" "list_all frame_event es" "fixed s' = fixed s"
      using that(1) by (simp_all add: vstep_def)
    have "told es = []" using v(2) by (intro told_quiet) (simp add: list_all_iff)
    moreover have "limits s' = limits s" "im_bitrate s' = im_bitrate s" using v(3) by (simp_all add: fixed_def limits_def)
    ultimately show ?thesis by (rule corridor_more[OF that(2) v(1)])
  qed
  show "?C (push_metrics fenv s)" if "?C s" for fenv s
  proof -
    obtain m where "im_trace (push_metrics fenv s) = im_trace s @ [MetricsPushed m]"
      "fixed ((push_metrics fenv s)\<lparr>im_last_sample := im_last_sample s\<rparr>) = fixed s"
      using push_metrics_trace[of fenv s] by blast
    then show ?thesis by (intro corridor_more[OF that, where es = "[MetricsPushed m]"]) (simp_all add: limits_def fixed_def)
  qed
  show "?C (snd (leave_system com_ok all_ok s))" if "?C s" for com_ok all_ok s
  proof -
    obtain es where es: "im_trace (snd (leave_system com_ok all_ok s)) = im_trace s @ es" "set es \<subseteq> {TimerEnded, ComLeft}"
      "limits (snd (leave_system com_ok all_ok s)) = limits s" "im_bitrate (snd (leave_system com_ok all_ok s)) = im_bitrate s"
      using leave_system_trace[of com_ok all_ok s] by blast
    moreover have "told es = []" using es(2) by (intro told_quiet) (auto simp: list_all_iff resource_event_def)
    ultimately show ?thesis using corridor_more[OF that] by blast
  qed
  show "?B (rj_param cmd)" if "within_limits cfg (PFrame fenv)" "length (rt_cmd_buf r) = 8"
    "cmd \<in> set (drained_cmds (fe_inbox fenv) r)" "rj_cmd_type cmd = RJ_CMD_BITRATE_SET" for fenv r cmd
  proof -
    have "fi_commands (fe_inbox fenv) = None \<or> (\<exists>n ws. fi_commands (fe_inbox fenv) = Some (n, ws) \<and> n \<le> int (length ws))"
      using that(1) by (auto split: option.splits)
    from drained_from_answer[OF that(2,3) this] obtain n ws where
      "fi_commands (fe_inbox fenv) = Some (n, ws)" "cmd \<in> set ws" by blast
    with that(1,4) show ?thesis by (simp add: flr_def list_all_iff)
  qed
  show "?B (reduce_target (fst (limits s)) (im_bitrate s) (ra_param1 act))"
    if "within_limits cfg (PActions as)" "act \<in> set as" "?C s" for as act s
  proof -
    have c: "fst (limits s) = flr" "flr \<le> im_bitrate s" "im_bitrate s \<le> ?orig" "ra_param1 act < 2 ^ 31"
      using that by (auto simp: corridor_def between_def list_all_iff)
    with reduce_target_bounds(1,2)[OF c(4,2)] show ?thesis by (auto simp: between_def intro: order_trans)
  qed
  show "?B b" if "within_limits cfg (PActions as)" "act \<in> set as" "?C s"
    "recover_target (snd (limits s)) (im_bitrate s) (ra_param1 act) = Some b" for as act s b
  proof -
    have c: "limits s = (flr, ?orig)" "flr \<le> im_bitrate s" "im_bitrate s \<le> ?orig" "ra_param1 act < 2 ^ 31"
      using that by (auto simp: corridor_def between_def list_all_iff)
    then have "unat (im_bitrate s) \<le> 2000000000" using assms(1) by (simp add: word_le_nat_alt)
    from recover_step_ge[OF this c(4)] c that(4) show ?thesis
      by (auto simp: recover_target_def between_def split: if_splits)
  qed
qed

lemma shutdown_rest_uninitialized: "\<not> im_initialized (snd (shutdown_rest env a s))"
  unfolding shutdown_rest_def Let_def by (simp split: prod.split)

lemma shutdown_uninitialized:
  assumes "shutdown_body env s = Val (ok, s')"
  shows "\<not> im_initialized s'"
proof -
  obtain a s1 where "shutdown_rest env a s1 = (ok, s')"
    using assms by (auto simp: shutdown_body_def Let_def and_then_Val split: prod.splits)
  then show ?thesis using shutdown_rest_uninitialized[of env a s1] by simp
qed

section \<open>What every run keeps\<close>

lemma first_start_J:
  assumes "pipe_init cfg env pipe_new = Val (True, p)"
  shows "cg_fps cfg \<noteq> 0" "acc.J p" "bal.J p"
    "unat (cg_bitrate cfg) \<le> 2000000000 \<Longrightarrow> pipe_ledger.J
       (corridor (reduce_floor_for_target (cg_min_bitrate cfg) (cg_bitrate cfg)) (cg_bitrate cfg))
       (between (reduce_floor_for_target (cg_min_bitrate cfg) (cg_bitrate cfg)) (cg_bitrate cfg)) p"
proof -
  show fps: "cg_fps cfg \<noteq> 0"
    using assms by (auto simp: pipe_init_def ensure_impl_def pipe_new_def impl_new_def)
  let ?s = "snd (enter_system env (begin_init cfg env (impl_new (ie_ncpus env))))"
  have "accounted ?s"
    by (simp add: accounted_def enter_system_def begin_init_def impl_new_def pipe_emit_def Let_def)
  then show "acc.J p" using acc.J_first[OF assms fps] by blast
  have "balanced ?s"
    by (simp add: balanced_def enter_system_def begin_init_def impl_new_def pipe_emit_def Let_def)
  then show "bal.J p" using bal.J_first[OF assms fps] by blast
  assume b: "unat (cg_bitrate cfg) \<le> 2000000000"
  let ?flr = "reduce_floor_for_target (cg_min_bitrate cfg) (cg_bitrate cfg)"
  have "corridor ?flr (cg_bitrate cfg) ?s"
    by (simp add: corridor_def between_def limits_def reduce_floor_for_target_def enter_system_def begin_init_def
        impl_new_def pipe_emit_def Let_def told_def map_filter_def)
  then show "pipe_ledger.J (corridor ?flr (cg_bitrate cfg)) (between ?flr (cg_bitrate cfg)) p"
    using pipe_ledger.J_first[OF corridor_pipe[OF b] assms fps] by blast
qed

section \<open>A concrete start\<close>

definition demo_down :: shutdown_env where
  "demo_down = \<lparr>sd_done = 5, sd_com_ok = True, sd_end_ok = True, sd_drain_ok = True, sd_outs = [],
     sd_sends = (\<lambda>_. (False, demo_output_env))\<rparr>"

definition demo_pipe_cfg :: pipe_config where
  "demo_pipe_cfg = im_cfg (impl_new 8)"

definition demo_pipe_env :: pipe_init_env where
  "demo_pipe_env = \<lparr>ie_ncpus = 8, ie_now = 0, ie_com = S_OK, ie_timer = True, ie_freq = Some 10000000,
     ie_now1 = 0, ie_now2 = 0, ie_source = demo_source_env, ie_scan = Some [], ie_vulkan = None, ie_api = 12,
     ie_encode = demo_nvenc_env, ie_output = demo_output_env,
     ie_audio = \<lparr>wi_com = S_OK, wi_enumerator = True, wi_notify_alloc = True, wi_register = True,
       wi_events = True, wi_thread = True\<rparr>,
     ie_preview = \<lparr>pe_shared_ok = True, pe_keyed_mutex_ok = True, pe_staging_ok = True, pe_query_ok = True\<rparr>,
     ie_down = demo_down\<rparr>"

definition demo_entered :: impl where
  "demo_entered = snd (init_pacer demo_pipe_cfg demo_pipe_env
     (snd (enter_system demo_pipe_env (begin_init demo_pipe_cfg demo_pipe_env (impl_new 8)))))"

definition demo_sourced :: impl where
  "demo_sourced = (set_source (demo_source, [], []) demo_entered)\<lparr>im_has_source := True\<rparr>"

definition demo_started :: pipe where
  "demo_started = \<lparr>pp_impl = Some (init_subsystems demo_pipe_cfg demo_pipe_env demo_sourced),
     pp_router = router_callbacks router_new, pp_profiler = True, pp_shutdown_done = False\<rparr>"

lemma demo_start: "pipe_init demo_pipe_cfg demo_pipe_env pipe_new = Val (True, demo_started)"
proof -
  let ?b = "begin_init demo_pipe_cfg demo_pipe_env (impl_new 8)"
  obtain s1 where e: "enter_system demo_pipe_env ?b = (True, s1)"
    by (simp add: enter_system_def demo_pipe_env_def)
  obtain s2 where p: "init_pacer demo_pipe_cfg demo_pipe_env s1 = (True, s2)"
    by (simp add: init_pacer_def pacer_init_def demo_pipe_env_def demo_pipe_cfg_def impl_new_def Let_def)
  have s2: "demo_entered = s2" by (simp add: demo_entered_def e p)
  have "vi_source s2 = desktop_source_new" "vi_dxgi_calls s2 = []" "vi_handle_calls s2 = []" "\<not> im_has_source s2"
    using e p by (auto simp: enter_system_def begin_init_def init_pacer_def impl_new_def pipe_emit_def Let_def
        split: prod.splits if_splits)
  then have "init_source demo_pipe_env demo_entered = (True, demo_sourced)"
    by (simp add: init_source_def s2 source_of_def demo_sourced_def demo_source_init demo_pipe_env_def)
  moreover have "cg_fps demo_pipe_cfg = 60" "ie_ncpus demo_pipe_env = 8" "\<not> im_initialized (impl_new 8)"
    by (simp_all add: demo_pipe_cfg_def impl_new_def demo_pipe_env_def)
  ultimately show ?thesis
    using e p unfolding s2 by (simp add: pipe_init_def pipe_new_def ensure_impl_def demo_started_def Let_def)
qed

text \<open>C3: After a successful start, whatever is called in whatever order: the drops reported to the
  orchestrator so far plus those not yet reported are exactly the failed encode calls and the
  failed sends. No drop is lost or counted twice; waiting for a new frame is not a drop.\<close>

theorem drops_accounted:
  assumes "pipe_init cfg env pipe_new = Val (True, p)" "pipe_run addr (\<lambda>_. True) p q"
  shows "\<exists>s. pp_impl q = Some s
    \<and> reported_drops (im_trace s) + im_drops s = of_nat (failures (im_trace s))"
  using acc.run_P[OF assms(2) first_start_J(2)[OF assms(1)]] by (simp add: accounted_def)

definition demo_ops :: "pipe_op list" where
  "demo_ops = [PActions [\<lparr>ra_type = 0, ra_param1 = 500\<rparr>], PScene 8 True, PStart]"

definition demo_after :: pipe where
  "demo_after = snd (start_stream (snd (set_scene_command_callback 8 True
     (wake_actions [\<lparr>ra_type = 0, ra_param1 = 500\<rparr>] demo_started))))"

lemma demo_run: "list_all ok demo_ops \<Longrightarrow> pipe_run addr ok demo_started demo_after"
  unfolding demo_after_def demo_ops_def
  by (rule pipe_run_step[where op = PStart, OF pipe_run_step[where op = "PScene 8 True",
        OF pipe_run_step[where op = "PActions [\<lparr>ra_type = 0, ra_param1 = 500\<rparr>]", OF pipe_run_refl]]]) simp_all

lemma drops_accounted_witness:
  "\<exists>s. pp_impl demo_after = Some s \<and> reported_drops (im_trace s) + im_drops s = of_nat (failures (im_trace s))"
  using drops_accounted[OF demo_start demo_run] by (simp add: demo_ops_def)



text \<open>C6: A pipeline started once gives back what it took from the system: whatever is called in
  between, after the shutdown the timer resolution has been reset as often as it was raised, the
  apartment left as often as it was entered, and the pipeline is not running. No unfinished
  operation holds either of them back.\<close>

theorem system_given_back:
  assumes "pipe_init cfg env pipe_new = Val (True, p)" "pipe_run addr not_init p q"
    "pp_shutdown_done q = False" "pipe_shutdown denv q = Val (ok, q')"
  shows "\<exists>s. pp_impl q' = Some s \<and> \<not> im_initialized s
    \<and> count_list (im_trace s) TimerBegun = count_list (im_trace s) TimerEnded
    \<and> count_list (im_trace s) ComOwned = count_list (im_trace s) ComLeft"
proof -
  have J: "bal.J q'" using bal.J_shutdown[OF bal.J_run[OF assms(2) first_start_J(3)[OF assms(1)]] assms(4)] .
  obtain s where s: "pp_impl q = Some s" using bal.run_P[OF assms(2) first_start_J(3)[OF assms(1)]] by blast
  obtain s' where s': "shutdown_body denv s = Val (ok, s')" "pp_impl q' = Some s'"
    using assms(3,4) s by (auto simp: pipe_shutdown_def and_then_Val)
  obtain s1 a where "ledger s' = ledger (snd (leave_system (sd_com_ok denv) a s1))"
    using shutdown_body_steps[OF s'(1)] by blast
  then have "\<not> im_timer_set s'" "\<not> im_com_owned s'"
    using leave_system_trace[of "sd_com_ok denv" a s1] ledger_eqD[of s'] by auto
  moreover have "\<not> im_initialized s'" by (rule shutdown_uninitialized[OF s'(1)])
  moreover have "balanced s'" using J s'(2) by (auto simp: bal.J_def)
  ultimately show ?thesis using s'(2) by (auto simp: balanced_def)
qed

text \<open>The shutdown returns when the audio encoder never ran.\<close>

lemma shutdown_returns:
  assumes "\<not> ab_ready (im_bridge s)"
  shows "\<exists>ok s'. shutdown_body env s = Val (ok, s')"
proof -
  define s0 where "s0 = (stop_sending s)\<lparr>im_metrics := metrics_stop (im_metrics (stop_sending s))\<rparr>"
  obtain a s1 where e: "seh_shutdown_subsystems (sd_done env) s0 = (a, s1)" by (rule prod.exhaust)
  have one: "im_bridge (f x) = im_bridge x" if "f \<in> set seh_steps" for f x
    using that by (auto simp: seh_steps_def)
  have "im_bridge (fold (\<lambda>f. f) fs x) = im_bridge x" if "set fs \<subseteq> set seh_steps" for fs x
    using that one by (induction fs arbitrary: x) simp_all
  then have "im_bridge s1 = im_bridge s0"
    using e set_take_subset[of "sd_done env" seh_steps] by (auto simp: seh_shutdown_subsystems_def)
  then have "im_bridge (audio_shutdown s1) = im_bridge s"
    by (simp add: s0_def stop_sending_def audio_shutdown_def split: option.split)
  with assms have b: "bridge_shutdown eo dr outs sends (im_bridge (audio_shutdown s1), os) \<noteq> None" for eo dr outs sends os
    by (simp add: bridge_shutdown_def)
  show ?thesis
    unfolding shutdown_body_def Let_def s0_def[symmetric] e prod.case
    using b by (auto simp: returns_def split: option.split)
qed

lemma init_subsystems_bridge: "\<not> cg_audio cfg \<Longrightarrow> im_bridge (init_subsystems cfg env s) = im_bridge s"
proof -
  assume a: "\<not> cg_audio cfg"
  have 1: "im_bridge (learn_dimensions env s) = im_bridge s" for s
    by (simp add: learn_dimensions_def Let_def split: prod.split)
  have 2: "im_bridge (init_interop env s) = im_bridge s" "im_bridge (init_encoder_for cfg env s) = im_bridge s"
    "im_bridge (init_output cfg env s) = im_bridge s" "im_bridge (init_preview env s) = im_bridge s" for s
    by (simp_all add: init_interop_def init_encoder_for_def init_output_def init_preview_def set_dxgi_def Let_def
        split: option.split prod.split)
  show ?thesis using a by (simp add: init_subsystems_def init_audio_def 1 2 Let_def)
qed

lemma demo_bridge: "im_bridge (the (pp_impl demo_started)) = audio_bridge_new"
proof -
  have "im_bridge demo_sourced = im_bridge demo_entered" by (simp add: demo_sourced_def set_source_def)
  also have "\<dots> = audio_bridge_new"
    by (simp add: demo_entered_def init_pacer_def enter_system_def begin_init_def impl_new_def pipe_emit_def Let_def
        split: prod.split)
  finally have "im_bridge (init_subsystems demo_pipe_cfg demo_pipe_env demo_sourced) = audio_bridge_new"
    by (subst init_subsystems_bridge) (simp_all add: demo_pipe_cfg_def impl_new_def)
  then show ?thesis by (simp add: demo_started_def)
qed

lemma system_given_back_witness:
  "\<exists>ok q' s. pipe_shutdown demo_down demo_started = Val (ok, q') \<and> pp_impl q' = Some s \<and> \<not> im_initialized s
    \<and> count_list (im_trace s) TimerBegun = count_list (im_trace s) TimerEnded"
proof -
  obtain x where x: "pp_impl demo_started = Some x" and i: "\<not> pp_shutdown_done demo_started"
    by (simp add: demo_started_def)
  obtain ok s' where "shutdown_body demo_down x = Val (ok, s')"
    using shutdown_returns[of x demo_down] demo_bridge x by (auto simp: audio_bridge_new_def)
  then obtain q' where q': "pipe_shutdown demo_down demo_started = Val (ok, q')"
    using i x by (simp add: pipe_shutdown_def)
  from system_given_back[OF demo_start pipe_run_refl _ q'] i q' show ?thesis by auto
qed

section \<open>Recovery that fails, and starting again\<close>

text \<open>When a recovery failed, the source is gone for good: from then on every frame is refused and
  changes nothing, while a further start is answered with success without doing anything. Nothing
  but a new pipeline helps.\<close>

lemma failed_recovery_is_final:
  assumes "pp_impl p = Some s" "im_initialized s" "source_state_of (vi_source s) = Uninitialized"
  shows "run_frame addr fenv p = Val (False, p) \<and> pipe_init cfg env p = Val (True, p)"
  using assms by (simp add: run_frame_def pipe_init_def ensure_impl_def)

section \<open>The constant frame rate\<close>

fun run_frames :: "(tex \<Rightarrow> handle) \<Rightarrow> frame_env list \<Rightarrow> pipe \<Rightarrow> pipe option" where
  "run_frames addr [] p = Some p"
| "run_frames addr (env # envs) p = (case run_frame addr env p of
     Val (True, p') \<Rightarrow> run_frames addr envs p'
   | _ \<Rightarrow> None)"

definition paced where
  "paced (s :: impl) = (im_repeat s, pc_pts_origin (im_pacer s), pc_qpc_freq (im_pacer s), encodes_of (im_trace s))"

lemma paced_simps [simp]:
  "paced (ws_start_stop cmd s) = paced s" "paced (reconf_step ans f s) = paced s"
  "paced (invoke_scene_cmd cmd param s) = paced s"
  "paced (pace_frame env (flush_diag env (push_metrics env s))) = paced s"
proof -
  have e: "encodes_of [SceneCallback c v] = []" "encodes_of [MetricsPushed m] = []" for c v m
    by (simp_all add: encodes_of_def map_filter_def)
  show "paced (ws_start_stop cmd s) = paced s" "paced (reconf_step ans f s) = paced s"
    "paced (invoke_scene_cmd cmd param s) = paced s"
    using ledger_eqD(1)[OF ledger_start_stop(3)[of cmd s]]
    by (simp_all add: paced_def e ws_start_stop_def impl_start_stream_def impl_stop_stream_def reconf_step_def
        invoke_scene_cmd_def pipe_emit_def Let_def)
  have p: "pc_pts_origin (snd (pace now pc)) = pc_pts_origin pc" "pc_qpc_freq (snd (pace now pc)) = pc_qpc_freq pc" for now pc
    by (simp_all add: pace_def Let_def)
  show "paced (pace_frame env (flush_diag env (push_metrics env s))) = paced s"
    by (simp add: paced_def pace_frame_def flush_diag_def push_metrics_def pipe_emit_def diag_def e p Let_def split: prod.split)
qed

lemma paced_commands: "paced (apply_command ans c s) = paced s" "paced (apply_frame_cmd ans fc s) = paced s"
proof -
  have "paced (change_bitrate ans b s) = paced s" for b
  proof -
    have "paced (reconf_step ans (\<lambda>ok. encode_set_bitrate ok b) s) = paced s" by simp
    then show ?thesis
      by (simp add: change_bitrate_def paced_def pipe_emit_def Let_def) (simp add: encodes_of_def map_filter_def)
  qed
  then show "paced (apply_command ans c s) = paced s" "paced (apply_frame_cmd ans fc s) = paced s"
    by (simp_all add: apply_command_def apply_frame_cmd_def)
qed

lemma drain_paced:
  assumes "router_ready r"
  shows "\<exists>r' s'. drain_commands env r s = Some (r', s') \<and> paced s' = paced s \<and> vi_source s' = vi_source s \<and> router_ready r'"
proof -
  let ?P = "\<lambda>x. paced x = paced s \<and> vi_source x = vi_source s"
  have src: "vi_source (apply_command ans c x) = vi_source x" "vi_source (apply_frame_cmd ans fc x) = vi_source x"
    "vi_source (ws_start_stop cmd x) = vi_source x" "vi_source (invoke_scene_cmd cmd v x) = vi_source x" for ans c fc cmd v x
    by (simp_all add: apply_command_def apply_frame_cmd_def change_bitrate_def reconf_step_def ws_start_stop_def
        impl_start_stream_def impl_stop_stream_def invoke_scene_cmd_def Let_def)
  have "\<exists>r' s'. drain_commands env r s = Some (r', s') \<and> ?P s' \<and> router_ready r'
    \<and> cmd_ring_contents (rt_ring r') = [] \<and> rt_on_action r' = rt_on_action r"
    by (rule drain_commands_invariant[where P = ?P, OF assms]) (simp_all add: src paced_commands)
  then show ?thesis by blast
qed

lemma failed_recovery_is_final_witness:
  "run_frame (\<lambda>_. 1) fenv (pipe_new\<lparr>pp_impl := Some ((impl_new 8)\<lparr>im_initialized := True, im_has_source := True\<rparr>)\<rparr>) =
     Val (False, pipe_new\<lparr>pp_impl := Some ((impl_new 8)\<lparr>im_initialized := True, im_has_source := True\<rparr>)\<rparr>)"
  using failed_recovery_is_final[of "pipe_new\<lparr>pp_impl := Some ((impl_new 8)\<lparr>im_initialized := True, im_has_source := True\<rparr>)\<rparr>"
      "(impl_new 8)\<lparr>im_initialized := True, im_has_source := True\<rparr>" "\<lambda>_. 1"]
  by (simp add: impl_new_def source_state_of_def desktop_source_new_def)

lemma run_frame_encodes:
  assumes "router_ready (pp_router p)" "pp_impl p = Some s" "im_repeat s \<noteq> None" "ce_create (fe_copy env) \<noteq> None"
    "run_frame addr env p = Val (True, p')"
  shows "\<exists>s' h. pp_impl p' = Some s' \<and> router_ready (pp_router p') \<and> im_repeat s' \<noteq> None
    \<and> pc_pts_origin (im_pacer s') = pc_pts_origin (im_pacer s) \<and> pc_qpc_freq (im_pacer s') = pc_qpc_freq (im_pacer s)
    \<and> encodes_of (im_trace s') = encodes_of (im_trace s) @ [(h, frame_pts env s)]"
proof -
  have src: "im_has_source s \<and> source_state_of (vi_source s) \<noteq> Uninitialized"
  proof (rule ccontr)
    assume "\<not> ?thesis"
    then have "run_frame addr env p = Val (False, p)" using assms(2) by (auto simp: run_frame_def)
    with assms(5) show False by simp
  qed
  obtain r s1 where d: "drain_commands env (pp_router p) s = Some (r, s1)" "paced s1 = paced s"
    "vi_source s1 = vi_source s" "router_ready r" using drain_paced[OF assms(1)] by blast
  have "and_then (capture_encode addr env s1) (\<lambda>s.
      Val (True, p\<lparr>pp_impl := Some (pace_frame env (flush_diag env (push_metrics env s))), pp_router := r\<rparr>)) = Val (True, p')"
    using assms(2,5) src d(1) by (simp add: run_frame_def returns_def)
  then obtain s2 where c: "capture_encode addr env s1 = Val s2"
    and p': "p' = p\<lparr>pp_impl := Some (pace_frame env (flush_diag env (push_metrics env s2))), pp_router := r\<rparr>"
    unfolding and_then_Val by blast
  have s: "im_repeat s1 = im_repeat s" "pc_pts_origin (im_pacer s1) = pc_pts_origin (im_pacer s)"
    "pc_qpc_freq (im_pacer s1) = pc_qpc_freq (im_pacer s)" "encodes_of (im_trace s1) = encodes_of (im_trace s)"
    using d(2) unfolding paced_def by (simp_all only: prod.inject)
  have pts: "frame_pts env s1 = frame_pts env s" using s(2,3) by (simp add: frame_pts_def pacer_pts_us_def)
  obtain enc where enc: "frame_effect enc s1 s2" "\<forall>x \<in> set enc. snd x = frame_pts env s" "length enc = 1" "im_repeat s2 \<noteq> None"
    using capture_encode_effect[OF c] assms(3,4) src d(3) s(1) pts by metis
  then obtain h where h: "enc = [(h, frame_pts env s)]" by (cases enc) auto
  obtain es where es: "vstep es (failures es) s1 s2" "encodes_of es = enc" using enc(1) unfolding frame_effect_def by blast
  then have s2: "encodes_of (im_trace s2) = encodes_of (im_trace s) @ enc" using s(4) by (simp add: vstep_def)
  have "fixed s2 = fixed s1" using es(1) by (simp add: vstep_def)
  then have pc: "im_pacer s2 = im_pacer s1" unfolding fixed_def by (simp only: prod.inject)
  define x where "x = pace_frame env (flush_diag env (push_metrics env s2))"
  have "paced x = paced s2" unfolding x_def by (rule paced_simps(4))
  then have x: "im_repeat x = im_repeat s2" "pc_pts_origin (im_pacer x) = pc_pts_origin (im_pacer s2)"
    "pc_qpc_freq (im_pacer x) = pc_qpc_freq (im_pacer s2)" "encodes_of (im_trace x) = encodes_of (im_trace s2)"
    by (simp_all add: paced_def)
  have "pp_impl p' = Some x" "pp_router p' = r" by (simp_all add: p' x_def)
  with s2 enc(4) h d(4) x s pc show ?thesis by (intro exI[of _ x] exI[of _ h]) simp
qed

text \<open>C2: The stream has a constant frame rate: once there is a copy of a frame to repeat, and as long
  as the texture for such a copy can be made, every frame of the loop that is not refused makes
  exactly one encode call, whether the capture had a new frame or not, with the time stamp of the
  start of that frame on one common clock, whatever commands arrive in between and whatever fails.\<close>

theorem every_frame_encodes_once:
  assumes "router_ready (pp_router p)" "pp_impl p = Some s" "im_repeat s \<noteq> None"
    "list_all (\<lambda>env. ce_create (fe_copy env) \<noteq> None) envs" "run_frames addr envs p = Some p'"
  shows "\<exists>s'. pp_impl p' = Some s'
    \<and> map snd (encodes_of (im_trace s')) = map snd (encodes_of (im_trace s)) @ map (\<lambda>env. frame_pts env s) envs"
  using assms
proof (induction envs arbitrary: p s)
  case (Cons env envs)
  then obtain q where q: "run_frame addr env p = Val (True, q)" "run_frames addr envs q = Some p'"
    by (auto split: outcome.splits bool.splits)
  obtain s1 h where s1: "pp_impl q = Some s1" "router_ready (pp_router q)" "im_repeat s1 \<noteq> None"
    "pc_pts_origin (im_pacer s1) = pc_pts_origin (im_pacer s)" "pc_qpc_freq (im_pacer s1) = pc_qpc_freq (im_pacer s)"
    "encodes_of (im_trace s1) = encodes_of (im_trace s) @ [(h, frame_pts env s)]"
    using run_frame_encodes[OF Cons.prems(1-3) _ q(1)] Cons.prems(4) by auto
  have "frame_pts env' s1 = frame_pts env' s" for env'
    using s1(4,5) by (simp add: frame_pts_def pacer_pts_us_def)
  with Cons.IH[OF s1(2,1,3) _ q(2)] Cons.prems(4) s1(6) show ?case by simp
qed simp

definition demo_frame_env :: frame_env where
  "demo_frame_env = \<lparr>fe_start = 170000, fe_inbox = \<lparr>fi_ws_port = None, fi_commands = None, fi_ws = []\<rparr>,
     fe_reconf = (\<lambda>_. True), fe_source = demo_tick_env NoFrame,
     fe_copy = \<lparr>ce_device = True, ce_fmt = 87, ce_create = Some 5, ce_context = True\<rparr>,
     fe_encode = demo_encode_env, fe_send = (False, True, demo_output_env), fe_drain = demo_drain_env,
     fe_recovery = \<lparr>rv_reason = 0, rv_source = demo_source_env, rv_api = 12, rv_encode = demo_nvenc_env\<rparr>,
     fe_interop = (False, None), fe_map = 0, fe_emit = demo_emit_env 1920 1, fe_span = (\<lambda>_. 10),
     fe_ptimes = None, fe_now = 171000, fe_pace_now = 172000\<rparr>"

definition demo_impl :: impl where
  "demo_impl = (impl_new 8)\<lparr>vi_source := demo_source, im_has_source := True, im_initialized := True,
     im_repeat := Some \<lparr>rp_handle = 5, rp_w = 1920, rp_h = 1080, rp_fmt = 87, rp_dev = 1\<rparr>\<rparr>"

definition demo_running :: pipe where
  "demo_running = pipe_new\<lparr>pp_impl := Some demo_impl\<rparr>"

lemma null_frame_returns:
  assumes "es_encoder (vi_encode s) = None"
  shows "\<exists>s'. null_frame env edge s = Val s'"
proof -
  have "\<exists>s1. encode_tick env tex pts s = Val (True, s1)" for tex pts
  proof -
    have "es_encoder (vi_encode (maybe_force_idr pts s)) = None"
      using assms by (simp add: maybe_force_idr_def request_idr_def Let_def diag_def split: prod.split)
    then show ?thesis by (simp add: encode_tick_def encode_sub_frame_def Let_def)
  qed
  then obtain s1 where "encode_tick env (repeat_handle s) (pacer_pts_us (fe_start env) (im_pacer s)) s = Val (True, s1)" by blast
  then show ?thesis by (simp add: null_frame_def Let_def)
qed

lemma demo_frame: "\<exists>p. run_frame (\<lambda>_. 1) demo_frame_env demo_running = Val (True, p)"
proof -
  have d: "drain_commands demo_frame_env router_new demo_impl =
      Some (router_new\<lparr>rt_ring := (rt_ring router_new)\<lparr>cr_tail := cr_head (rt_ring router_new)\<rparr>\<rparr>, demo_impl)"
  proof -
    have "drained_cmds (fe_inbox demo_frame_env) router_new = []"
      by (simp add: drained_cmds_def demo_frame_env_def seh_command_drain_def clamp_drain_def)
    moreover have "cmd_ring_contents (rt_ring router_new) = []" "cmd_ring_inv (rt_ring router_new)"
      by (simp_all add: router_new_def cmd_ring_contents_init cmd_ring_inv_init)
    moreover have "fi_ws (fe_inbox demo_frame_env) = []" "fi_ws_port (fe_inbox demo_frame_env) = None"
      "fi_commands (fe_inbox demo_frame_env) = None" by (simp_all add: demo_frame_env_def)
    ultimately show ?thesis
      by (simp add: drain_commands_def drain_and_apply_result seh_command_drain_def fill_cmd_buf_def log_ws_port_def
          seh_get_ws_port_def router_new_def)
  qed
  obtain f w where n: "source_next_frame (\<lambda>_. 1) (demo_tick_env NoFrame) (source_of demo_impl) = (Val (f, None), w)"
    "sf_handle f = 0"
    by (simp add: source_next_frame_def capture_frame_of_def wgc_next_frame_def demo_source_def desktop_source_new_def
        demo_tick_env_def map_captured_frame_def null_captured_def Let_def demo_impl_def source_of_def impl_new_def)
  have e: "es_encoder (vi_encode demo_impl) = None" "source_state_of (vi_source demo_impl) \<noteq> Uninitialized" "im_has_source demo_impl"
    by (simp_all add: demo_impl_def impl_new_def encode_subsystem_new_def source_state_of_def demo_source_def)
  have "\<exists>s'. capture_encode (\<lambda>_. 1) demo_frame_env demo_impl = Val s'"
  proof -
    obtain edge tr where "trigger_on_state (source_state_of (vi_source (set_source w demo_impl))) (im_trigger (set_source w demo_impl)) = (edge, tr)"
      by (rule prod.exhaust)
    then show ?thesis
      using e n null_frame_returns[of _ demo_frame_env edge]
      by (simp add: capture_encode_def demo_frame_env_def[THEN arg_cong, of fe_source] Let_def diag_def)
  qed
  then show ?thesis
    using d e by (auto simp: run_frame_def demo_running_def pipe_new_def returns_def)
qed

lemma every_frame_encodes_once_witness:
  "\<exists>p' s'. run_frames (\<lambda>_. 1) [demo_frame_env] demo_running = Some p' \<and> pp_impl p' = Some s'
    \<and> map snd (encodes_of (im_trace s')) = [frame_pts demo_frame_env demo_impl]"
proof -
  obtain p where p: "run_frames (\<lambda>_. 1) [demo_frame_env] demo_running = Some p" using demo_frame by auto
  have "router_ready (pp_router demo_running)" "im_repeat demo_impl \<noteq> None" "pp_impl demo_running = Some demo_impl"
    "list_all (\<lambda>env. ce_create (fe_copy env) \<noteq> None) [demo_frame_env]" "im_trace demo_impl = []"
    by (simp_all add: demo_running_def pipe_new_def router_ready_def router_new_def cmd_ring_inv_init demo_impl_def
        impl_new_def demo_frame_env_def)
  from every_frame_encodes_once[OF this(1,3,2,4) p] this(5) p show ?thesis by auto
qed

section \<open>The adapter with the most memory\<close>

definition argmax_step :: "('v \<times> u64) list \<Rightarrow> nat \<Rightarrow> nat \<Rightarrow> nat" where
  "argmax_step xs i best = (if snd (xs ! i) > snd (xs ! best) then i else best)"

lemma argmax_prefix:
  assumes "xs \<noteq> []" "k < length xs"
  defines "b \<equiv> fold (argmax_step xs) [1..<Suc k] 0"
  shows "b \<le> k \<and> (\<forall>j \<le> k. snd (xs ! j) \<le> snd (xs ! b)) \<and> (\<forall>j < b. snd (xs ! j) < snd (xs ! b))"
  using assms(2) unfolding b_def
proof (induction k)
  case (Suc k)
  define c where "c = fold (argmax_step xs) [1..<Suc k] 0"
  have IH: "c \<le> k" "\<forall>j \<le> k. snd (xs ! j) \<le> snd (xs ! c)" "\<forall>j < c. snd (xs ! j) < snd (xs ! c)"
    using Suc unfolding c_def by (simp_all del: upt_Suc)
  have "[1..<Suc (Suc k)] = [1..<Suc k] @ [Suc k]" by (subst upt_Suc) simp
  then have e: "fold (argmax_step xs) [1..<Suc (Suc k)] 0 = argmax_step xs (Suc k) c" by (simp add: c_def del: upt_Suc)
  show ?case
  proof (cases "snd (xs ! Suc k) > snd (xs ! c)")
    case True
    have "snd (xs ! j) < snd (xs ! Suc k)" if "j \<le> k" for j using IH(2) that True by (meson le_less_trans)
    moreover have "argmax_step xs (Suc k) c = Suc k" using True by (simp add: argmax_step_def)
    ultimately show ?thesis unfolding e by (auto simp: le_Suc_eq less_Suc_eq_le intro: less_imp_le)
  next
    case False
    then have "argmax_step xs (Suc k) c = c" by (simp add: argmax_step_def)
    with IH False show ?thesis unfolding e by (auto simp: le_Suc_eq not_less)
  qed
qed simp

definition memory_max :: "('v \<times> u64) list \<Rightarrow> u64 \<Rightarrow> u64" where
  "memory_max xs b = fold (\<lambda>(v, m) best. if m > best then m else best) xs b"

lemma memory_max_ge: "b \<le> memory_max xs b \<and> (\<forall>x \<in> set xs. snd x \<le> memory_max xs b)
    \<and> (memory_max xs b = b \<or> (\<exists>x \<in> set xs. snd x = memory_max xs b))"
proof (induction xs arbitrary: b)
  case (Cons x xs)
  obtain v m where x: "x = (v, m)" by (rule prod.exhaust)
  define b' where "b' = (if m > b then m else b)"
  have e: "memory_max (x # xs) b = memory_max xs b'" by (simp add: memory_max_def x b'_def)
  have "b \<le> b'" "m \<le> b'" "b' = b \<or> b' = m" by (auto simp: b'_def)
  with Cons[of b'] show ?case unfolding e by (auto simp: x)
qed (simp add: memory_max_def)

text \<open>C36: The two questions the user interface asks about the adapters have consistent answers:
  \<open>max_vram_vendor_id\<close> is the vendor of the first adapter whose memory is \<open>max_gpu_vram_mb\<close>, found
  by a search for it instead of the loop over indices; without adapters both are 0.\<close>

theorem max_vram_adapter:
  "case pp_impl p of None \<Rightarrow> max_vram_vendor_id p = 0 \<and> max_gpu_vram_mb p = 0
   | Some s \<Rightarrow> (case find (\<lambda>a. snd a = max_gpu_vram_mb p) (current_scan s) of
       None \<Rightarrow> current_scan s = [] \<and> max_vram_vendor_id p = 0 \<and> max_gpu_vram_mb p = 0
     | Some a \<Rightarrow> fst a = max_vram_vendor_id p)"
proof (cases "pp_impl p")
  case None
  then show ?thesis by (simp add: max_vram_vendor_id_def max_gpu_vram_mb_def)
next
  case (Some s)
  let ?xs = "current_scan s"
  have m: "max_gpu_vram_mb p = memory_max ?xs 0" by (simp add: max_gpu_vram_mb_def Some memory_max_def)
  show ?thesis
  proof (cases "?xs = []")
    case True
    with m Some show ?thesis by (simp add: max_vram_vendor_id_def memory_max_def)
  next
    case False
    define b where "b = fold (argmax_step ?xs) [1..<length ?xs] 0"
    have len: "Suc (length ?xs - 1) = length ?xs" using False by (cases ?xs) simp_all
    have b: "b < length ?xs" "\<forall>j < length ?xs. snd (?xs ! j) \<le> snd (?xs ! b)" "\<forall>j < b. snd (?xs ! j) < snd (?xs ! b)"
      using argmax_prefix[OF False, of "length ?xs - 1", unfolded len] len unfolding b_def
      by (auto simp: less_eq_Suc_le)
    have "snd (?xs ! b) \<le> memory_max ?xs 0" using memory_max_ge[of 0 ?xs] b(1) by simp
    moreover have "memory_max ?xs 0 \<le> snd (?xs ! b)"
    proof -
      consider "memory_max ?xs 0 = 0" | x where "x \<in> set ?xs" "snd x = memory_max ?xs 0" using memory_max_ge[of 0 ?xs] by blast
      then show ?thesis
      proof cases
        case (2 x)
        then obtain i where "i < length ?xs" "?xs ! i = x" by (auto simp: in_set_conv_nth)
        with b(2) 2(2) show ?thesis by metis
      qed simp
    qed
    ultimately have eq: "snd (?xs ! b) = memory_max ?xs 0" by simp
    have "find (\<lambda>a. snd a = max_gpu_vram_mb p) ?xs = Some (?xs ! b)"
      unfolding find_Some_iff m using b eq by (intro exI[of _ b]) auto
    moreover have "max_vram_vendor_id p = fst (?xs ! b)"
      using False by (simp add: max_vram_vendor_id_def Some b_def argmax_step_def[abs_def] Let_def)
    ultimately show ?thesis using Some by simp
  qed
qed

section \<open>A start that failed\<close>

lemma restart_result:
  assumes "pipe_init cfg env p = Val (True, p')"
  shows "pp_shutdown_done p' = pp_shutdown_done p \<and> (\<exists>s. pp_impl p' = Some s \<and> im_initialized s)"
proof -
  obtain q s where q: "ensure_impl (ie_ncpus env) p = (q, s)" by (rule prod.exhaust)
  then have d: "pp_shutdown_done q = pp_shutdown_done p" "pp_impl q = Some s"
    by (auto simp: ensure_impl_def split: option.splits)
  show ?thesis
  proof (cases "im_initialized s")
    case True
    with assms q d show ?thesis by (simp add: pipe_init_def)
  next
    case False
    obtain ok1 s1 where e: "enter_system env (begin_init cfg env s) = (ok1, s1)" by (rule prod.exhaust)
    obtain ok2 s2 where i: "init_pacer cfg env s1 = (ok2, s2)" by (rule prod.exhaust)
    obtain ok3 s3 where c: "init_source env s2 = (ok3, s3)" by (rule prod.exhaust)
    have no: "and_then m (\<lambda>(ok, p). Val (False, p)) \<noteq> Val (True, p')" for m :: "(bool \<times> pipe) outcome"
      by (auto simp: and_then_Val)
    have "ok1 \<and> ok2 \<and> ok3"
      using assms False q e i c no
      by (cases ok1; cases ok2; cases ok3) (simp_all add: pipe_init_def Let_def split: if_splits)
    with assms False q e i c d show ?thesis
      by (auto simp: pipe_init_def Let_def init_subsystems_def split: if_splits)
  qed
qed

text \<open>The shutdown runs at most once in the life of a pipeline, and a failed start uses it up: when
  the same object is started again, as a second call of the public \<open>initPipeline\<close> of the main
  window would (it keeps the object of a failed start), the shutdown that should end the
  second life answers success and does nothing. The pipeline stays initialised, with its threads,
  transport, encoder and the resources of the system still held.\<close>

theorem failed_start_uses_up_shutdown:
  assumes "pipe_init cfg env pipe_new = Val (False, p)" "cg_fps cfg \<noteq> 0" "ie_com env \<noteq> ComFailed"
    "pipe_init cfg2 env2 p = Val (True, p')"
  shows "pipe_shutdown denv p' = Val (True, p') \<and> (\<exists>s. pp_impl p' = Some s \<and> im_initialized s)"
proof -
  let ?s = "begin_init cfg env (impl_new (ie_ncpus env))"
  let ?q = "pipe_new\<lparr>pp_impl := Some (impl_new (ie_ncpus env)), pp_router := router_new, pp_profiler := True\<rparr>"
  obtain s1 where e: "enter_system env ?s = (True, s1)" using assms(3) by (simp add: enter_system_def Let_def)
  obtain ok2 s2 where i: "init_pacer cfg env s1 = (ok2, s2)" by (rule prod.exhaust)
  obtain ok3 s3 where c: "init_source env s2 = (ok3, s3)" by (rule prod.exhaust)
  have n: "\<not> im_initialized (impl_new (ie_ncpus env))" by (simp add: impl_new_def)
  have "\<exists>x. and_then (pipe_shutdown (ie_down env) (?q\<lparr>pp_impl := Some x\<rparr>)) (\<lambda>(ok, p). Val (False, p)) = Val (False, p)"
    using assms(1,2) n e i c
    by (cases ok2; cases ok3) (auto simp: pipe_init_def ensure_impl_def pipe_new_def Let_def)
  then obtain x ok where "pipe_shutdown (ie_down env) (?q\<lparr>pp_impl := Some x\<rparr>) = Val (ok, p)"
    by (auto simp: and_then_Val)
  then have "pp_shutdown_done p" by (auto simp: pipe_shutdown_def pipe_new_def and_then_Val split: if_splits)
  with restart_result[OF assms(4)] show ?thesis by (auto simp: pipe_shutdown_def)
qed

lemma seh_shutdown_source:
  "(im_has_source (snd (seh_shutdown_subsystems n s)), source_of (snd (seh_shutdown_subsystems n s))) = (im_has_source s, source_of s)"
proof -
  have one: "(im_has_source (f s), source_of (f s)) = (im_has_source s, source_of s)" if "f \<in> set seh_steps" for f s
    using that by (auto simp: seh_steps_def source_of_def)
  have "(im_has_source (fold (\<lambda>f. f) fs s), source_of (fold (\<lambda>f. f) fs s)) = (im_has_source s, source_of s)"
    if "set fs \<subseteq> set seh_steps" for fs s
    using that one by (induction fs arbitrary: s) simp_all
  from this[OF set_take_subset] show ?thesis by (simp add: seh_shutdown_subsystems_def)
qed

lemma shutdown_body_source:
  assumes "shutdown_body env s = Val (ok, s')" "\<not> im_has_source s"
  shows "\<not> im_has_source s' \<and> source_of s' = source_of s"
proof -
  define s0 where "s0 = (stop_sending s)\<lparr>im_metrics := metrics_stop (im_metrics (stop_sending s))\<rparr>"
  obtain a s1 where e: "seh_shutdown_subsystems (sd_done env) s0 = (a, s1)" by (rule prod.exhaust)
  have "im_has_source s1 = im_has_source s \<and> source_of s1 = source_of s"
    using seh_shutdown_source[of "sd_done env" s0, unfolded e] by (simp add: s0_def stop_sending_def source_of_def)
  then have s1: "\<not> im_has_source (audio_shutdown s1) \<and> source_of (audio_shutdown s1) = source_of s"
    using assms(2) by (simp add: audio_shutdown_def source_of_def split: option.split)
  have rest: "\<not> im_has_source (snd (shutdown_rest env a x)) \<and> source_of (snd (shutdown_rest env a x)) = source_of x"
    if "\<not> im_has_source x" for x
    using that by (simp add: shutdown_rest_def leave_system_def pipe_emit_def source_of_def Let_def split: prod.split)
  from assms(1) obtain b os where
    "shutdown_rest env a ((audio_shutdown s1)\<lparr>im_bridge := b, im_output := os\<rparr>) = (ok, s')"
    unfolding shutdown_body_def Let_def s0_def[symmetric] e prod.case by (auto simp: and_then_Val)
  with rest[of "(audio_shutdown s1)\<lparr>im_bridge := b, im_output := os\<rparr>"] s1 show ?thesis by (simp add: source_of_def)
qed

lemma demo_restart:
  assumes "pp_impl p = Some s" "\<not> im_initialized s" "\<not> im_has_source s" "source_of s = (desktop_source_new, [], [])"
  shows "\<exists>p'. pipe_init demo_pipe_cfg demo_pipe_env p = Val (True, p')"
proof -
  obtain s1 where e: "enter_system demo_pipe_env (begin_init demo_pipe_cfg demo_pipe_env s) = (True, s1)"
    by (simp add: enter_system_def demo_pipe_env_def)
  obtain s2 where i: "init_pacer demo_pipe_cfg demo_pipe_env s1 = (True, s2)"
    by (simp add: init_pacer_def pacer_init_def demo_pipe_env_def demo_pipe_cfg_def impl_new_def Let_def)
  have "source_of s2 = (desktop_source_new, [], [])" "\<not> im_has_source s2"
    using assms(3,4) e i by (auto simp: enter_system_def begin_init_def init_pacer_def pipe_emit_def source_of_def Let_def
        split: prod.splits if_splits)
  then obtain s3 where "init_source demo_pipe_env s2 = (True, s3)"
    by (simp add: init_source_def demo_source_init demo_pipe_env_def)
  moreover have "cg_fps demo_pipe_cfg = 60" by (simp add: demo_pipe_cfg_def impl_new_def)
  ultimately show ?thesis using e i assms(1,2) by (simp add: pipe_init_def ensure_impl_def Let_def)
qed

lemma failed_start_uses_up_shutdown_witness:
  "\<exists>p p'. pipe_init demo_pipe_cfg (demo_pipe_env\<lparr>ie_freq := None\<rparr>) pipe_new = Val (False, p)
    \<and> pipe_init demo_pipe_cfg demo_pipe_env p = Val (True, p') \<and> pipe_shutdown demo_down p' = Val (True, p')"
proof -
  let ?e = "demo_pipe_env\<lparr>ie_freq := None\<rparr>"
  let ?b = "begin_init demo_pipe_cfg ?e (impl_new 8)"
  let ?q = "pipe_new\<lparr>pp_impl := Some (impl_new 8), pp_router := router_new, pp_profiler := True\<rparr>"
  obtain s1 where e: "enter_system ?e ?b = (True, s1)" by (simp add: enter_system_def demo_pipe_env_def)
  have s1: "im_bridge s1 = audio_bridge_new" "\<not> im_has_source s1" "source_of s1 = (desktop_source_new, [], [])"
    using e by (auto simp: enter_system_def begin_init_def impl_new_def pipe_emit_def source_of_def Let_def split: if_splits)
  obtain s2 where i: "init_pacer demo_pipe_cfg ?e s1 = (False, s2)" "s2 = s1"
    by (simp add: init_pacer_def pacer_init_def)
  have "\<not> ab_ready (im_bridge s1)" using s1(1) by (simp add: audio_bridge_new_def)
  then obtain ok s' where d: "shutdown_body demo_down s1 = Val (ok, s')" using shutdown_returns by blast
  define p where "p = ?q\<lparr>pp_impl := Some s', pp_router := router_stop (pp_router ?q), pp_shutdown_done := True\<rparr>"
  have "cg_fps demo_pipe_cfg = 60" "ie_ncpus ?e = 8" "\<not> im_initialized (impl_new 8)" "ie_down ?e = demo_down"
    by (simp_all add: demo_pipe_cfg_def impl_new_def demo_pipe_env_def)
  then have 1: "pipe_init demo_pipe_cfg ?e pipe_new = Val (False, p)"
    using e i d by (simp add: pipe_init_def ensure_impl_def pipe_new_def pipe_shutdown_def p_def Let_def)
  have "pp_impl p = Some s'" "\<not> im_initialized s'" "\<not> im_has_source s'" "source_of s' = (desktop_source_new, [], [])"
    using shutdown_uninitialized[OF d] shutdown_body_source[OF d s1(2)] s1(3) by (simp_all add: p_def)
  then obtain p' where 2: "pipe_init demo_pipe_cfg demo_pipe_env p = Val (True, p')" using demo_restart by blast
  have "ie_com ?e \<noteq> ComFailed" "cg_fps demo_pipe_cfg \<noteq> 0" by (simp_all add: demo_pipe_env_def demo_pipe_cfg_def impl_new_def)
  from failed_start_uses_up_shutdown[OF 1 this(2,1) 2] 1 2 show ?thesis by blast
qed

end
