(* ===== verification/Steps.thy ===== *)
theory Steps
  imports Prelude
begin

text \<open>
  The contract of a component that is driven by inputs one at a time: a step function and a
  predicate that every admissible input keeps. What holds at the start then holds after any run,
  and at every point of it. The components of the user interface interpret it with their own step
  functions.
\<close>

locale kept_by_steps =
  fixes ok :: "'i \<Rightarrow> bool" and step :: "'i \<Rightarrow> 's \<Rightarrow> 's" and inv :: "'s \<Rightarrow> bool"
  assumes step_keeps: "inv s \<Longrightarrow> ok i \<Longrightarrow> inv (step i s)"
begin

lemma run_keeps: "inv s \<Longrightarrow> list_all ok is \<Longrightarrow> inv (fold step is s)"
  by (induction "is" arbitrary: s) (simp_all add: step_keeps)

lemma always: "inv s \<Longrightarrow> list_all ok is \<Longrightarrow> inv (fold step (take n is) s)"
  by (rule run_keeps) (auto simp: list_all_iff dest: in_set_takeD)

lemma cannot_happen:
  assumes "inv s" and "list_all ok is" and "\<And>t. inv t \<Longrightarrow> \<not> bad t"
  shows "\<not> bad (fold step is s)"
  using assms(3)[OF run_keeps[OF assms(1,2)]] .

end

text \<open>Components all of whose inputs are admissible.\<close>

locale always_kept = kept_by_steps "\<lambda>_. True" step inv
  for step :: "'i \<Rightarrow> 's \<Rightarrow> 's" and inv :: "'s \<Rightarrow> bool"
begin

lemma any_run_keeps: "inv s \<Longrightarrow> inv (fold step is s)"
  by (rule run_keeps) (simp_all add: list_all_iff)

end

end
