(* ===== verification/HealingOverlay.thy ===== *)
theory HealingOverlay
  imports Steps
begin

text \<open>
  The healing panel of the user interface (\<open>src/src/ui/healing_overlay.cpp\<close>) and the part of
  the main window that feeds it (\<open>pollHealingActions\<close>, \<open>formatActionExplanation\<close> and the
  signal connections of \<open>main_window.cpp\<close>).

  A widget is what the code reads and writes of it: the text of a label, whether it was shown
  or hidden, the rows of a list with their check mark, whether a timer runs. Translated texts
  are constructors with the arguments the code fills in. The signals the panel emits are a log,
  oldest first. A user can only click a child that is shown inside a visible panel; a timer
  only ticks while it runs: these two facts of Qt are guards of the step, not of the handlers.
\<close>

section \<open>Events of the rule engine and their texts\<close>

datatype healing_mode = AutoPilot | CoPilot | Assist | Manual

datatype action_type = BitrateReduce | BitrateRecover | ResolutionScale | ResolutionRestore
  | FpsLimit | FpsRestore | LogOnly

datatype rj_action_type = RjBitrateReduce | RjBitrateRecover | RjScaleResolution
  | RjRestoreResolution | RjCapFps | RjRestoreFps | RjLogOnly

datatype rj_metric_id = FrameDropPct | GpuTempC | CpuTempC | MemoryUsagePct | CpuLoadPct
  | GpuLoadPct | NetworkRttMs | NetworkLossPct | MetricNone

record rj_action_event =
  re_id :: u32
  re_type :: rj_action_type
  re_param1 :: int
  re_require_approval :: u32
  re_kind :: u32
  re_metric :: rj_metric_id
  re_current :: int
  re_threshold :: int
  re_calibrated :: u32

definition RJ_ACTION_EVENT_INVALIDATED :: u32 where [model_defs]: "RJ_ACTION_EVENT_INVALIDATED = 1"
definition kCoPilotApprovalTimeoutMs :: int where [model_defs]: "kCoPilotApprovalTimeoutMs = 30000"
definition kHealingBannerTimeoutMs :: int where [model_defs]: "kHealingBannerTimeoutMs = 10000"

datatype metric_unit = Celsius | Percent | Millis

text \<open>\<open>Explanation name value unit threshold calibrated\<close> is the line
  "name: value unit (threshold unit)", with the mark of a calibrated threshold.\<close>

datatype explanation = Explanation rj_metric_id int metric_unit int bool

datatype action_text = TxtReduce int | TxtRecover int | TxtScale int | TxtRestoreResolution
  | TxtCapFps int | TxtRestoreFps | TxtLogOnly

type_synonym description = "action_text \<times> explanation option"

record action_event =
  ae_id :: u32
  ae_type :: action_type
  ae_description :: description
  ae_require_approval :: bool
  ae_timestamp :: string

definition metric_unit_of :: "rj_metric_id \<Rightarrow> metric_unit option" where
  "metric_unit_of m = (case m of
       GpuTempC \<Rightarrow> Some Celsius
     | CpuTempC \<Rightarrow> Some Celsius
     | FrameDropPct \<Rightarrow> Some Percent
     | MemoryUsagePct \<Rightarrow> Some Percent
     | CpuLoadPct \<Rightarrow> Some Percent
     | GpuLoadPct \<Rightarrow> Some Percent
     | NetworkRttMs \<Rightarrow> Some Millis
     | NetworkLossPct \<Rightarrow> Some Percent
     | MetricNone \<Rightarrow> None)"

definition formatActionExplanation :: "rj_action_event \<Rightarrow> explanation option" where
  "formatActionExplanation ev =
     (case metric_unit_of (re_metric ev) of
        None \<Rightarrow> None
      | Some u \<Rightarrow> Some (Explanation (re_metric ev) (re_current ev) u (re_threshold ev)
                          (re_calibrated ev \<noteq> 0)))"

definition describe_action :: "rj_action_event \<Rightarrow> action_type \<times> action_text" where
  "describe_action ev = (case re_type ev of
       RjBitrateReduce \<Rightarrow> (BitrateReduce, TxtReduce (re_param1 ev))
     | RjBitrateRecover \<Rightarrow> (BitrateRecover, TxtRecover (re_param1 ev))
     | RjScaleResolution \<Rightarrow> (ResolutionScale, TxtScale (re_param1 ev))
     | RjRestoreResolution \<Rightarrow> (ResolutionRestore, TxtRestoreResolution)
     | RjCapFps \<Rightarrow> (FpsLimit, TxtCapFps (re_param1 ev))
     | RjRestoreFps \<Rightarrow> (FpsRestore, TxtRestoreFps)
     | _ \<Rightarrow> (LogOnly, TxtLogOnly))"

definition event_of :: "string \<Rightarrow> rj_action_event \<Rightarrow> action_event" where
  "event_of now ev =
     \<lparr>ae_id = re_id ev, ae_type = fst (describe_action ev),
      ae_description = (snd (describe_action ev), formatActionExplanation ev),
      ae_require_approval = (re_require_approval ev \<noteq> 0), ae_timestamp = now\<rparr>"

section \<open>The panel\<close>

datatype info_prefix = PrefixAssist | PrefixLog | PrefixAutomatic

datatype overlay_text = TextEmpty
  | TextPlain string
  | TextReduce u32 string
  | TextVulkan
  | TextPrompt int
  | TextInfo info_prefix description
  | TextRejected
  | TextApproved
  | TextTimedOut

datatype overlay_signal = UndoRequested | ActionApproved u32 | ActionRejected u32

record overlay =
  ov_message :: overlay_text
  ov_countdown :: "int option"
  ov_timer :: bool
  ov_remaining :: int
  ov_mode :: healing_mode
  ov_items :: "(description \<times> bool) list"
  ov_items_shown :: bool
  ov_on_check :: "u32 option"
  ov_reject_shown :: bool
  ov_history :: "(string \<times> description) list"
  ov_history_shown :: bool
  ov_current :: u32
  ov_warned :: bool
  ov_visible :: bool
  ov_signals :: "overlay_signal list"

definition overlay_new :: overlay where
  "overlay_new =
     \<lparr>ov_message = TextEmpty, ov_countdown = None, ov_timer = False, ov_remaining = 0,
      ov_mode = CoPilot, ov_items = [], ov_items_shown = False, ov_on_check = None,
      ov_reject_shown = False, ov_history = [], ov_history_shown = False, ov_current = 0,
      ov_warned = False, ov_visible = False, ov_signals = []\<rparr>"

definition ov_emit :: "overlay_signal \<Rightarrow> overlay \<Rightarrow> overlay" where
  "ov_emit x s = s\<lparr>ov_signals := ov_signals s @ [x]\<rparr>"

text \<open>\<open>count_down t ms s\<close> writes the message, restarts the one second timer and the countdown
  label, the way all four banners end.\<close>

definition count_down :: "overlay_text \<Rightarrow> int \<Rightarrow> overlay \<Rightarrow> overlay" where
  "count_down t ms s =
     s\<lparr>ov_message := t, ov_remaining := ms, ov_countdown := Some (ms div 1000), ov_timer := True\<rparr>"

definition showMessage :: "overlay_text \<Rightarrow> int \<Rightarrow> overlay \<Rightarrow> overlay" where
  "showMessage msg timeout_ms s = (count_down msg timeout_ms s)\<lparr>ov_visible := True\<rparr>"

definition onVulkanInitFailed :: "overlay \<Rightarrow> overlay" where
  "onVulkanInitFailed s = showMessage TextVulkan 5000 s"

definition onTick :: "overlay \<Rightarrow> overlay" where
  "onTick s =
     (let r = ov_remaining s - 1000; s = s\<lparr>ov_remaining := r\<rparr> in
      if r \<le> 0 then s\<lparr>ov_timer := False, ov_visible := False\<rparr>
      else s\<lparr>ov_countdown := Some (r div 1000)\<rparr>)"

definition clearApprovalPrompt :: "overlay \<Rightarrow> overlay" where
  "clearApprovalPrompt s =
     s\<lparr>ov_items := [], ov_items_shown := False, ov_reject_shown := False, ov_current := 0\<rparr>"

definition showApprovalPrompt :: "action_event \<Rightarrow> overlay \<Rightarrow> overlay" where
  "showApprovalPrompt ev s =
     s\<lparr>ov_message := TextPrompt (kCoPilotApprovalTimeoutMs div 1000),
       ov_items := [(ae_description ev, False)], ov_items_shown := True,
       ov_current := ae_id ev, ov_on_check := Some (ae_id ev), ov_reject_shown := True,
       ov_history_shown := True, ov_visible := True\<rparr>"

text \<open>The handler connected to the list: row 0 has changed; only a checked box approves.\<close>

definition check_changed :: "overlay \<Rightarrow> overlay" where
  "check_changed s =
     (case (ov_on_check s, ov_items s) of
        (Some i, (_, True) # _) \<Rightarrow>
          count_down TextApproved 2000 (clearApprovalPrompt (ov_emit (ActionApproved i) s))
      | _ \<Rightarrow> s)"

definition toggle_check :: "overlay \<Rightarrow> overlay" where
  "toggle_check s =
     (case ov_items s of
        [] \<Rightarrow> s
      | (d, c) # r \<Rightarrow> check_changed (s\<lparr>ov_items := (d, \<not> c) # r\<rparr>))"

definition reject_clicked :: "overlay \<Rightarrow> overlay" where
  "reject_clicked s =
     (if ov_current s \<noteq> 0 then
        count_down TextRejected 2000 (clearApprovalPrompt (ov_emit (ActionRejected (ov_current s)) s))
      else s)"

definition undo_clicked :: "overlay \<Rightarrow> overlay" where
  "undo_clicked s = (ov_emit UndoRequested s)\<lparr>ov_visible := False\<rparr>"

definition keep_history :: "'a list \<Rightarrow> 'a list" where
  "keep_history h = take 10 h"

definition info_prefix_of :: "healing_mode \<Rightarrow> info_prefix" where
  "info_prefix_of m = (case m of Assist \<Rightarrow> PrefixAssist | Manual \<Rightarrow> PrefixLog | _ \<Rightarrow> PrefixAutomatic)"

definition onActionEvent :: "action_event \<Rightarrow> overlay \<Rightarrow> overlay" where
  "onActionEvent ev s =
     (let s = s\<lparr>ov_history := keep_history ((ae_timestamp ev, ae_description ev) # ov_history s)\<rparr> in
      if ae_require_approval ev then showApprovalPrompt ev s
      else count_down (TextInfo (info_prefix_of (ov_mode s)) (ae_description ev)) 3000
             (s\<lparr>ov_history_shown := True, ov_visible := True\<rparr>))"

definition onActionInvalidated :: "u32 \<Rightarrow> overlay \<Rightarrow> overlay" where
  "onActionInvalidated action_id s =
     (if action_id = ov_current s then count_down TextTimedOut 2000 (clearApprovalPrompt s) else s)"

definition setHealingMode :: "healing_mode \<Rightarrow> overlay \<Rightarrow> overlay" where
  "setHealingMode mode s =
     (let s = s\<lparr>ov_mode := mode\<rparr> in if mode = Manual then s\<lparr>ov_warned := False\<rparr> else s)"

definition actionHistory :: "int \<Rightarrow> overlay \<Rightarrow> (string \<times> description) list" where
  "actionHistory limit s = take (nat (min limit (int (length (ov_history s))))) (ov_history s)"

section \<open>The main window around the panel\<close>

definition pollHealingActions :: "string \<Rightarrow> rj_action_event option \<Rightarrow> overlay \<Rightarrow> overlay" where
  "pollHealingActions now dequeued s =
     (case dequeued of
        None \<Rightarrow> s
      | Some ev \<Rightarrow>
          if re_kind ev = RJ_ACTION_EVENT_INVALIDATED then onActionInvalidated (re_id ev) s
          else onActionEvent (event_of now ev) s)"

definition onReduceBitrate :: "u32 \<Rightarrow> string \<Rightarrow> overlay \<Rightarrow> overlay" where
  "onReduceBitrate target_kbps reason s =
     showMessage (TextReduce target_kbps reason) kHealingBannerTimeoutMs s"

datatype rust_answer = RjActionApprove u32 | RjActionReject u32

text \<open>What the connections of the main window make of a signal: approvals and rejections go to
  the rule engine, the undo button only writes the status line.\<close>

definition rust_answers :: "overlay_signal list \<Rightarrow> rust_answer list" where
  "rust_answers log = concat (map (\<lambda>x. case x of
       ActionApproved i \<Rightarrow> [RjActionApprove i]
     | ActionRejected i \<Rightarrow> [RjActionReject i]
     | UndoRequested \<Rightarrow> []) log)"

datatype overlay_input =
    InPoll string "rj_action_event option"
  | InReduce u32 string
  | InVulkanFailed
  | InMode healing_mode
  | InTick
  | InCheck
  | InReject
  | InUndo

definition overlay_step :: "overlay_input \<Rightarrow> overlay \<Rightarrow> overlay" where
  "overlay_step i s = (case i of
       InPoll now ev \<Rightarrow> pollHealingActions now ev s
     | InReduce kbps reason \<Rightarrow> onReduceBitrate kbps reason s
     | InVulkanFailed \<Rightarrow> onVulkanInitFailed s
     | InMode m \<Rightarrow> setHealingMode m s
     | InTick \<Rightarrow> if ov_timer s then onTick s else s
     | InCheck \<Rightarrow> if ov_visible s \<and> ov_items_shown s then toggle_check s else s
     | InReject \<Rightarrow> if ov_visible s \<and> ov_reject_shown s then reject_clicked s else s
     | InUndo \<Rightarrow> if ov_visible s then undo_clicked s else s)"

definition overlay_run :: "overlay_input list \<Rightarrow> overlay \<Rightarrow> overlay" where
  "overlay_run is s = fold overlay_step is s"

section \<open>Well formed panels\<close>

text \<open>Typing of the panel: at most ten history lines; the list, the reject button and the
  pending id belong to one prompt with one unchecked box, or there is none of them.\<close>

fun prompt_shape ::
  "(description \<times> bool) list \<Rightarrow> bool \<Rightarrow> bool \<Rightarrow> u32 option \<Rightarrow> u32 \<Rightarrow> bool \<Rightarrow> bool" where
  "prompt_shape [] shown reject on_check current history \<longleftrightarrow> \<not> shown \<and> \<not> reject \<and> current = 0"
| "prompt_shape [(d, c)] shown reject on_check current history \<longleftrightarrow>
     \<not> c \<and> shown \<and> reject \<and> history \<and> on_check = Some current"
| "prompt_shape _ shown reject on_check current history \<longleftrightarrow> False"

definition prompt_ok :: "overlay \<Rightarrow> bool" where
  "prompt_ok s = prompt_shape (ov_items s) (ov_items_shown s) (ov_reject_shown s) (ov_on_check s)
     (ov_current s) (ov_history_shown s)"

definition overlay_wf :: "overlay \<Rightarrow> bool" where
  "overlay_wf s \<longleftrightarrow>
     length (ov_history s) \<le> 10 \<and> prompt_ok s \<and>
     (ov_visible s \<longrightarrow> ov_items s \<noteq> [] \<or> ov_timer s)"

lemmas overlay_defs = ov_emit_def count_down_def showMessage_def onVulkanInitFailed_def onTick_def
  clearApprovalPrompt_def showApprovalPrompt_def check_changed_def toggle_check_def
  reject_clicked_def undo_clicked_def onActionEvent_def onActionInvalidated_def
  setHealingMode_def pollHealingActions_def onReduceBitrate_def Let_def

lemma overlay_wf_new: "overlay_wf overlay_new"
  by (simp add: overlay_wf_def prompt_ok_def overlay_new_def)

lemma prompt_ok_cases [consumes 1, case_names idle pending]:
  assumes "prompt_ok s"
  obtains (idle) "ov_items s = []" "ov_current s = 0" "\<not> ov_items_shown s" "\<not> ov_reject_shown s"
  | (pending) d where "ov_items s = [(d, False)]" "ov_on_check s = Some (ov_current s)"
      "ov_items_shown s" "ov_reject_shown s" "ov_history_shown s"
  using assms unfolding prompt_ok_def by (elim prompt_shape.elims) auto

lemma overlay_wf_count_down [intro]:
  "overlay_wf s \<Longrightarrow> overlay_wf (count_down t ms s)"
  by (simp add: overlay_wf_def prompt_ok_def count_down_def)

lemma overlay_wf_cleared [intro]:
  assumes "overlay_wf s"
  shows "overlay_wf (count_down t ms (clearApprovalPrompt (ov_emit x s)))"
    and "overlay_wf (count_down t ms (clearApprovalPrompt s))"
  using assms by (simp_all add: overlay_wf_def prompt_ok_def overlay_defs)

lemma overlay_wf_tick: "overlay_wf s \<Longrightarrow> overlay_wf (onTick s)"
  by (auto simp: overlay_wf_def prompt_ok_def onTick_def Let_def)

lemma overlay_wf_toggle:
  assumes "overlay_wf s"
  shows "overlay_wf (toggle_check s)"
proof -
  have "prompt_ok s" using assms by (simp add: overlay_wf_def)
  then show ?thesis
  proof (cases rule: prompt_ok_cases)
    case idle
    then show ?thesis using assms by (simp add: toggle_check_def)
  next
    case (pending d)
    then show ?thesis
      using assms by (auto simp: overlay_wf_def prompt_ok_def overlay_defs)
  qed
qed

lemma prompt_shape_history:
  "prompt_shape xs shown reject on_check current h \<Longrightarrow>
   prompt_shape xs shown reject on_check current True"
  by (elim prompt_shape.elims) auto

lemma overlay_wf_event: "overlay_wf s \<Longrightarrow> overlay_wf (onActionEvent ev s)"
  by (auto simp: overlay_wf_def prompt_ok_def overlay_defs keep_history_def
      intro: prompt_shape_history)

lemma overlay_wf_step: "overlay_wf s \<Longrightarrow> overlay_wf (overlay_step i s)"
proof (cases i)
  case (InPoll now ev)
  assume "overlay_wf s"
  then show ?thesis
    by (auto simp: InPoll overlay_step_def pollHealingActions_def onActionInvalidated_def
        intro: overlay_wf_event split: option.split)
next
  case InReject
  assume "overlay_wf s"
  then show ?thesis by (auto simp: InReject overlay_step_def reject_clicked_def)
next
  case InCheck
  assume "overlay_wf s"
  then show ?thesis by (auto simp: InCheck overlay_step_def overlay_wf_toggle)
next
  case InTick
  assume "overlay_wf s"
  then show ?thesis by (auto simp: InTick overlay_step_def overlay_wf_tick)
qed (auto simp: overlay_step_def overlay_wf_def prompt_ok_def overlay_defs)

lemma overlay_run_simps [simp]:
  "overlay_run [] s = s"
  "overlay_run (i # is) s = overlay_run is (overlay_step i s)"
  by (simp_all add: overlay_run_def)

interpretation panel: always_kept overlay_step overlay_wf
  by unfold_locales (rule overlay_wf_step)

lemma overlay_run_wf: "overlay_wf s \<Longrightarrow> overlay_wf (overlay_run is s)"
  unfolding overlay_run_def by (rule panel.any_run_keeps)

section \<open>Decisions\<close>

definition prompts_of :: "overlay_input \<Rightarrow> u32 list" where
  "prompts_of i = (case i of
       InPoll _ (Some ev) \<Rightarrow>
         if re_kind ev \<noteq> RJ_ACTION_EVENT_INVALIDATED \<and> re_require_approval ev \<noteq> 0 then [re_id ev] else []
     | _ \<Rightarrow> [])"

definition decided :: "overlay_signal \<Rightarrow> u32 list" where
  "decided x = (case x of ActionApproved i \<Rightarrow> [i] | ActionRejected i \<Rightarrow> [i] | UndoRequested \<Rightarrow> [])"

fun open_ids :: "(description \<times> bool) list \<Rightarrow> u32 option \<Rightarrow> u32 list" where
  "open_ids (_ # _) (Some i) = [i]"
| "open_ids _ _ = []"

definition open_prompt :: "overlay \<Rightarrow> u32 list" where
  "open_prompt s = open_ids (ov_items s) (ov_on_check s)"

text \<open>The credit of an id: what has been answered for it and what may still be.\<close>

definition credit :: "u32 \<Rightarrow> overlay \<Rightarrow> nat" where
  "credit i s = count_list (concat (map decided (ov_signals s))) i + count_list (open_prompt s) i"

lemma count_list_concat_snoc:
  "count_list (concat (map f (xs @ [x]))) i = count_list (concat (map f xs)) i + count_list (f x) i"
  by simp

lemma credit_cleared:
  "credit i (count_down t ms (clearApprovalPrompt s)) \<le> credit i s"
  by (simp add: credit_def open_prompt_def overlay_defs)

lemma credit_answer:
  assumes "open_prompt s = [j]" and "x = ActionApproved j \<or> x = ActionRejected j"
  shows "credit i (count_down t ms (clearApprovalPrompt (ov_emit x s))) = credit i s"
  using assms by (auto simp: credit_def open_prompt_def overlay_defs decided_def)

lemma credit_toggle:
  assumes "overlay_wf s"
  shows "credit i (toggle_check s) = credit i s"
proof -
  have "prompt_ok s" using assms by (simp add: overlay_wf_def)
  then show ?thesis
  proof (cases rule: prompt_ok_cases)
    case idle
    then show ?thesis by (simp add: toggle_check_def)
  next
    case (pending d)
    let ?s = "s\<lparr>ov_items := [(d, True)]\<rparr>"
    have "toggle_check s =
        count_down TextApproved 2000 (clearApprovalPrompt (ov_emit (ActionApproved (ov_current s)) ?s))"
      using pending by (simp add: toggle_check_def check_changed_def)
    moreover have "open_prompt ?s = [ov_current s]" using pending by (simp add: open_prompt_def)
    moreover have "credit i ?s = credit i s" using pending by (simp add: credit_def open_prompt_def)
    ultimately show ?thesis by (simp add: credit_answer)
  qed
qed

lemma credit_reject:
  assumes "overlay_wf s"
  shows "credit i (reject_clicked s) = credit i s"
proof -
  have "prompt_ok s" using assms by (simp add: overlay_wf_def)
  then show ?thesis
  proof (cases rule: prompt_ok_cases)
    case idle
    then show ?thesis by (simp add: reject_clicked_def)
  next
    case (pending d)
    then have "open_prompt s = [ov_current s]" by (simp add: open_prompt_def)
    then show ?thesis by (simp add: reject_clicked_def credit_answer)
  qed
qed

lemma credit_event:
  "credit i (onActionEvent ev s)
     \<le> credit i s + count_list (if ae_require_approval ev then [ae_id ev] else []) i"
  by (simp add: credit_def open_prompt_def overlay_defs)

lemma credit_step:
  assumes "overlay_wf s"
  shows "credit i (overlay_step a s) \<le> credit i s + count_list (prompts_of a) i"
proof (cases a)
  case (InPoll now ev)
  then show ?thesis
    using credit_event[of i "event_of now (the ev)" s] credit_cleared[of i TextTimedOut 2000 s]
    by (cases ev) (auto simp: overlay_step_def pollHealingActions_def onActionInvalidated_def
        prompts_of_def event_of_def)
next
  case InCheck
  then show ?thesis using credit_toggle[OF assms] by (simp add: overlay_step_def)
next
  case InReject
  then show ?thesis using credit_reject[OF assms] by (simp add: overlay_step_def)
qed (simp_all add: overlay_step_def credit_def open_prompt_def overlay_defs decided_def)

lemma credit_run:
  "overlay_wf s \<Longrightarrow>
   credit i (overlay_run is s) \<le> credit i s + count_list (concat (map prompts_of is)) i"
proof (induction "is" arbitrary: s)
  case (Cons a "is")
  have "credit i (overlay_run (a # is) s)
      \<le> credit i (overlay_step a s) + count_list (concat (map prompts_of is)) i"
    using Cons.IH[OF overlay_wf_step[OF Cons.prems, of a]] by simp
  then show ?case using credit_step[OF Cons.prems, of i a] by simp
qed simp

definition answered_id :: "rust_answer \<Rightarrow> u32" where
  "answered_id a = (case a of RjActionApprove i \<Rightarrow> i | RjActionReject i \<Rightarrow> i)"

lemma answered_decided: "map answered_id (rust_answers log) = concat (map decided log)"
  by (induction log)
    (auto simp: rust_answers_def decided_def answered_id_def split: overlay_signal.splits)

section \<open>Banners\<close>

lemma tick_counts:
  assumes "ov_timer s"
  shows "ov_remaining (overlay_step InTick s) = ov_remaining s - 1000"
    and "ov_timer (overlay_step InTick s) \<longleftrightarrow> 1000 < ov_remaining s"
    and "ov_remaining s \<le> 1000 \<Longrightarrow> \<not> ov_visible (overlay_step InTick s)"
  using assms by (simp_all add: overlay_step_def onTick_def Let_def)

lemma tick_idle: "\<not> ov_timer s \<Longrightarrow> overlay_step InTick s = s"
  by (simp add: overlay_step_def)

lemma ticks_idle: "\<not> ov_timer s \<Longrightarrow> overlay_run (replicate n InTick) s = s"
  by (induction n) (simp_all add: tick_idle)

lemma ticks_close:
  assumes "ov_timer s" and "ov_remaining s \<le> int n * 1000" and "0 < n"
  shows "\<not> ov_visible (overlay_run (replicate n InTick) s)"
  using assms
proof (induction n arbitrary: s)
  case (Suc n)
  show ?case
  proof (cases "1000 < ov_remaining s")
    case True
    then have "0 < n" using Suc.prems by (cases n) auto
    then show ?thesis
      using Suc.IH[of "overlay_step InTick s"] True Suc.prems tick_counts[of s] by simp
  next
    case False
    then show ?thesis
      using tick_counts[OF Suc.prems(1)] by (simp add: ticks_idle)
  qed
qed simp

text \<open>A prompt does not stop a countdown that is running, and an event for information starts
  one: either hides the panel while the decision is still open.\<close>

definition sample_event :: "u32 \<Rightarrow> u32 \<Rightarrow> u32 \<Rightarrow> rj_action_event" where
  "sample_event i approval kind =
     \<lparr>re_id = i, re_type = RjBitrateReduce, re_param1 = 500, re_require_approval = approval,
      re_kind = kind, re_metric = GpuTempC, re_current = 87, re_threshold = 85, re_calibrated = 0\<rparr>"

lemma prompt_hidden_while_pending:
  "let s = overlay_run [InPoll t (Some (sample_event 7 1 0)), InPoll t (Some (sample_event 8 0 0)),
                        InTick, InTick, InTick] overlay_new in
   \<not> ov_visible s \<and> open_prompt s = [7] \<and> overlay_step InReject s = s \<and> overlay_step InCheck s = s"
  by (simp add: overlay_step_def overlay_defs overlay_new_def sample_event_def event_of_def
      describe_action_def formatActionExplanation_def metric_unit_of_def keep_history_def
      open_prompt_def model_defs)

lemma second_prompt_replaces_first:
  "let s = overlay_run [InPoll t (Some (sample_event 7 1 0)), InPoll t (Some (sample_event 8 1 0)),
                        InCheck] overlay_new in
   rust_answers (ov_signals s) = [RjActionApprove 8] \<and> open_prompt s = []"
  by (simp add: overlay_step_def overlay_defs overlay_new_def sample_event_def event_of_def
      describe_action_def formatActionExplanation_def metric_unit_of_def keep_history_def
      open_prompt_def rust_answers_def model_defs)

section \<open>Properties\<close>

text \<open>Whatever the rule engine, the timers and the user do, in whatever order, the panel
  stays well formed: at most ten history lines, the check box, the reject button and the pending
  id together or not at all, the box unchecked and bound to the id on display, and a visible
  panel shows an open decision or has its countdown running.\<close>

theorem overlay_stays_well_formed:
  "overlay_wf (overlay_run is overlay_new)"
  by (rule overlay_run_wf[OF overlay_wf_new])

text \<open>C12: The rule engine gets at most one answer per question: in any run, the approvals and
  rejections sent for an id are at most as many as the approval events received for it. In
  particular nothing is answered that was not asked, and double clicks, an event that replaces
  the prompt or an expired prompt never produce a second answer.\<close>

theorem at_most_one_answer_per_prompt:
  "count_list (map answered_id (rust_answers (ov_signals (overlay_run is overlay_new)))) i
     \<le> count_list (concat (map prompts_of is)) i"
proof -
  have "credit i overlay_new = 0" by (simp add: credit_def open_prompt_def overlay_new_def)
  then show ?thesis
    using credit_run[OF overlay_wf_new, of i "is"] by (simp add: answered_decided credit_def)
qed

text \<open>A panel with no open decision closes by itself: after as many ticks of its timer as
  its countdown has (started) seconds, and at least one, it is hidden, in every reachable state.\<close>

theorem banner_closes:
  "let s = overlay_run is overlay_new; n = max 1 (nat (ov_remaining s div 1000 + 1)) in
   (if ov_items s = [] then \<not> ov_visible (overlay_run (replicate n InTick) s) else True)"
proof -
  define s where "s = overlay_run is overlay_new"
  define n where "n = max 1 (nat (ov_remaining s div 1000 + 1))"
  have wf: "overlay_wf s" by (simp add: s_def overlay_run_wf overlay_wf_new)
  have n: "ov_remaining s \<le> int n * 1000" "0 < n" by (auto simp: n_def)
  have "ov_items s = [] \<Longrightarrow> \<not> ov_visible (overlay_run (replicate n InTick) s)"
  proof (cases "ov_timer s")
    case True
    then show ?thesis by (rule ticks_close[OF _ n])
  next
    case False
    moreover assume "ov_items s = []"
    ultimately show ?thesis using wf by (simp add: ticks_idle overlay_wf_def)
  qed
  then show ?thesis unfolding Let_def s_def[symmetric] n_def[symmetric] by simp
qed

end
