(* ===== verification/SettingsDialog.thy ===== *)
theory SettingsDialog
  imports HealingOverlay
begin

text \<open>
  The settings dialog (\<open>src/src/ui/settings_dialog.cpp\<close>): the values of its input fields, what it
  loads from and saves to the persistent settings, its getters and setters.

  The persistent settings (\<open>QSettings\<close>) are a map from keys to variants; a program outside may
  have written anything there, so a variant is converted on reading the way \<open>QVariant\<close> does, the
  parser of decimal strings being an argument. A spin box clamps, a combo box selects only
  existing rows: these facts of Qt are part of the field operations. Texts are byte strings.
\<close>

section \<open>Variants and the settings store\<close>

datatype qvariant = QInt int | QBool bool | QStr string

type_synonym settings_store = "string \<Rightarrow> qvariant option"

definition to_int :: "(string \<Rightarrow> int option) \<Rightarrow> qvariant \<Rightarrow> int" where
  "to_int parse v = (case v of
       QInt i \<Rightarrow> i
     | QBool b \<Rightarrow> (if b then 1 else 0)
     | QStr s \<Rightarrow> (case parse s of Some i \<Rightarrow> i | None \<Rightarrow> 0))"

definition to_bool :: "qvariant \<Rightarrow> bool" where
  "to_bool v = (case v of
       QInt i \<Rightarrow> i \<noteq> 0
     | QBool b \<Rightarrow> b
     | QStr s \<Rightarrow> s \<notin> {'''', ''0'', ''false''})"

definition to_text :: "(int \<Rightarrow> string) \<Rightarrow> qvariant \<Rightarrow> string" where
  "to_text show_int v = (case v of
       QInt i \<Rightarrow> show_int i
     | QBool b \<Rightarrow> (if b then ''true'' else ''false'')
     | QStr s \<Rightarrow> s)"

record conversions =
  cv_parse :: "string \<Rightarrow> int option"
  cv_show :: "int \<Rightarrow> string"

definition stored :: "settings_store \<Rightarrow> string \<Rightarrow> qvariant \<Rightarrow> qvariant" where
  "stored st key def = (case st key of Some v \<Rightarrow> v | None \<Rightarrow> def)"

section \<open>Fields\<close>

definition spin :: "int \<Rightarrow> int \<Rightarrow> int \<Rightarrow> int" where
  "spin lo hi v = max lo (min hi v)"

fun find_data :: "'a \<Rightarrow> 'a list \<Rightarrow> nat option" where
  "find_data x [] = None"
| "find_data x (y # ys) = (if y = x then Some 0 else map_option Suc (find_data x ys))"

definition fps_items :: "int list" where "fps_items = [30, 60, 120]"

datatype rules_table = RulesRows "(string \<times> string \<times> string \<times> string) list"
  | NoticeUnreadable | NoticeNone | NoticeError nat

record settings_dialog =
  sd_mode :: healing_mode
  sd_mode_info :: healing_mode
  sd_bitrate_auto :: bool
  sd_resolution_auto :: bool
  sd_fps_auto :: bool
  sd_auto_reload :: bool
  sd_bitrate :: int
  sd_fps_index :: nat
  sd_srt_host :: string
  sd_srt_port :: int
  sd_protocol_index :: nat
  sd_rtmp_url :: string
  sd_rtmp_key :: string
  sd_srt_enabled :: bool
  sd_rtmp_enabled :: bool
  sd_ws_password :: string
  sd_audio :: bool
  sd_devices :: "string list"
  sd_device_index :: nat
  sd_ws_port :: u16
  sd_ws_connections :: u32
  sd_rules :: rules_table

definition healing_mode_of :: "nat \<Rightarrow> healing_mode" where
  "healing_mode_of i = (if i = 0 then AutoPilot else if i = 1 then CoPilot else if i = 2 then Assist else Manual)"

definition healing_mode_code :: "healing_mode \<Rightarrow> u32" where
  "healing_mode_code m = (case m of AutoPilot \<Rightarrow> 0 | CoPilot \<Rightarrow> 1 | Assist \<Rightarrow> 2 | Manual \<Rightarrow> 3)"

definition onModeChanged :: "healing_mode \<Rightarrow> settings_dialog \<Rightarrow> settings_dialog" where
  "onModeChanged m d = d\<lparr>sd_mode := m, sd_mode_info := m\<rparr>"

definition setDialogMode :: "healing_mode \<Rightarrow> settings_dialog \<Rightarrow> settings_dialog" where
  "setDialogMode m d = (if m = sd_mode d then d else onModeChanged m d)"

definition set_protocol_index :: "nat \<Rightarrow> settings_dialog \<Rightarrow> settings_dialog" where
  "set_protocol_index i d =
     d\<lparr>sd_protocol_index := i, sd_srt_enabled := i \<noteq> 1, sd_rtmp_enabled := i = 1\<rparr>"

definition set_bitrate_spin :: "int \<Rightarrow> settings_dialog \<Rightarrow> settings_dialog" where
  "set_bitrate_spin v d = d\<lparr>sd_bitrate := spin 500 50000 v\<rparr>"

definition set_port_spin :: "int \<Rightarrow> settings_dialog \<Rightarrow> settings_dialog" where
  "set_port_spin v d = d\<lparr>sd_srt_port := spin 1024 65535 v\<rparr>"

text \<open>The widgets as built, before anything is loaded: a spin box starts at the low end of its
  range (0 is below both), a combo box at its first row.\<close>

definition dialog_widgets :: "string list \<Rightarrow> settings_dialog" where
  "dialog_widgets devices =
     \<lparr>sd_mode = CoPilot, sd_mode_info = CoPilot, sd_bitrate_auto = True, sd_resolution_auto = False,
      sd_fps_auto = False, sd_auto_reload = False, sd_bitrate = spin 500 50000 0, sd_fps_index = 0,
      sd_srt_host = [], sd_srt_port = spin 1024 65535 0, sd_protocol_index = 0, sd_rtmp_url = [],
      sd_rtmp_key = [], sd_srt_enabled = True, sd_rtmp_enabled = True, sd_ws_password = [],
      sd_audio = False, sd_devices = [] # devices, sd_device_index = 0, sd_ws_port = 0,
      sd_ws_connections = 0, sd_rules = RulesRows []\<rparr>"

definition load_video :: "conversions \<Rightarrow> settings_store \<Rightarrow> settings_dialog \<Rightarrow> settings_dialog" where
  "load_video cv st d =
     (let d = set_bitrate_spin (to_int (cv_parse cv) (stored st ''video/bitrate_kbps'' (QInt 6000))) d;
          saved_fps = to_int (cv_parse cv) (stored st ''video/fps'' (QInt 60)) in
      d\<lparr>sd_fps_index := (case find_data saved_fps fps_items of Some i \<Rightarrow> i | None \<Rightarrow> 1)\<rparr>)"

definition load_output :: "conversions \<Rightarrow> settings_store \<Rightarrow> settings_dialog \<Rightarrow> settings_dialog" where
  "load_output cv st d =
     (let text = (\<lambda>key def. to_text (cv_show cv) (stored st key (QStr def)));
          d = d\<lparr>sd_srt_host := text ''srt/host'' ''127.0.0.1''\<rparr>;
          d = set_port_spin (to_int (cv_parse cv) (stored st ''srt/port'' (QInt 9000))) d;
          d = d\<lparr>sd_rtmp_url := text ''rtmp/url'' [], sd_rtmp_key := text ''rtmp/key'' [],
                sd_ws_password := text ''ws/password'' []\<rparr>;
          proto = to_int (cv_parse cv) (stored st ''output/protocol'' (QInt 0)) in
      set_protocol_index (if proto = 1 then 1 else 0) d)"

definition load_audio :: "conversions \<Rightarrow> settings_store \<Rightarrow> settings_dialog \<Rightarrow> settings_dialog" where
  "load_audio cv st d =
     (let d = d\<lparr>sd_audio := to_bool (stored st ''audio/enabled'' (QBool False))\<rparr>;
          saved = to_text (cv_show cv) (stored st ''audio/device_id'' (QStr [])) in
      d\<lparr>sd_device_index := (case find_data saved (sd_devices d) of Some i \<Rightarrow> i | None \<Rightarrow> 0)\<rparr>)"

definition dialog_new :: "conversions \<Rightarrow> settings_store \<Rightarrow> string list \<Rightarrow> settings_dialog" where
  "dialog_new cv st devices =
     onModeChanged CoPilot (load_audio cv st (load_output cv st (load_video cv st (dialog_widgets devices))))"

section \<open>Getters\<close>

definition videoBitrateKbps :: "settings_dialog \<Rightarrow> u32" where
  "videoBitrateKbps d = word_of_int (sd_bitrate d)"

definition fps_data :: "settings_dialog \<Rightarrow> int" where
  "fps_data d = fps_items ! sd_fps_index d"

definition videoFps :: "settings_dialog \<Rightarrow> u32" where
  "videoFps d = word_of_int (fps_data d)"

definition srtPort :: "settings_dialog \<Rightarrow> u16" where
  "srtPort d = word_of_int (sd_srt_port d)"

definition transportProtocol :: "settings_dialog \<Rightarrow> u32" where
  "transportProtocol d = (if sd_protocol_index d = 1 then 1 else 0)"

text \<open>White space of Latin-1, as \<open>QChar::isSpace\<close> has it.\<close>

definition is_space :: "char \<Rightarrow> bool" where
  "is_space c = ((of_char c :: nat) \<in> {9, 10, 11, 12, 13, 32, 133, 160})"

definition trimmed :: "string \<Rightarrow> string" where
  "trimmed s = rev (dropWhile is_space (rev (dropWhile is_space s)))"

definition chop_slashes :: "string \<Rightarrow> string" where
  "chop_slashes s = rev (dropWhile (\<lambda>c. c = CHR ''/'') (rev s))"

definition rtmpUrl :: "settings_dialog \<Rightarrow> string" where
  "rtmpUrl d = chop_slashes (trimmed (sd_rtmp_url d))"

definition rtmpStreamKey :: "settings_dialog \<Rightarrow> string" where
  "rtmpStreamKey d = trimmed (sd_rtmp_key d)"

definition audioDeviceId :: "settings_dialog \<Rightarrow> string" where
  "audioDeviceId d = sd_devices d ! sd_device_index d"

section \<open>Setters and slots\<close>

definition setVideoBitrateKbps :: "u32 \<Rightarrow> settings_dialog \<Rightarrow> settings_dialog" where
  "setVideoBitrateKbps kbps d = set_bitrate_spin (sint kbps) d"

definition setVideoFps :: "u32 \<Rightarrow> settings_dialog \<Rightarrow> settings_dialog" where
  "setVideoFps fps d =
     (case find_data (sint fps) fps_items of Some i \<Rightarrow> d\<lparr>sd_fps_index := i\<rparr> | None \<Rightarrow> d)"

text \<open>A check box only signals a change of its state: the answer says whether it did.\<close>

definition setAutoReloadEnabled :: "bool \<Rightarrow> settings_dialog \<Rightarrow> bool option \<times> settings_dialog" where
  "setAutoReloadEnabled enabled d =
     (if enabled = sd_auto_reload d then (None, d) else (Some enabled, d\<lparr>sd_auto_reload := enabled\<rparr>))"

definition save_settings :: "settings_dialog \<Rightarrow> settings_store \<Rightarrow> settings_store" where
  "save_settings d st = st(
     ''video/bitrate_kbps'' \<mapsto> QInt (sd_bitrate d),
     ''video/fps'' \<mapsto> QInt (fps_data d),
     ''srt/host'' \<mapsto> QStr (sd_srt_host d),
     ''srt/port'' \<mapsto> QInt (sd_srt_port d),
     ''output/protocol'' \<mapsto> QInt (int (sd_protocol_index d)),
     ''rtmp/url'' \<mapsto> QStr (sd_rtmp_url d),
     ''rtmp/key'' \<mapsto> QStr (sd_rtmp_key d),
     ''ws/password'' \<mapsto> QStr (sd_ws_password d),
     ''audio/enabled'' \<mapsto> QBool (sd_audio d),
     ''audio/device_id'' \<mapsto> QStr (audioDeviceId d))"

text \<open>OK saves and signals the mode; the dialog keeps its fields, as it does on cancel.\<close>

definition onOkClicked :: "settings_dialog \<Rightarrow> settings_store \<Rightarrow> healing_mode \<times> settings_store" where
  "onOkClicked d st = (sd_mode d, save_settings d st)"

definition setWsStatus :: "u16 \<Rightarrow> u32 \<Rightarrow> settings_dialog \<Rightarrow> settings_dialog" where
  "setWsStatus port connections d = d\<lparr>sd_ws_port := port, sd_ws_connections := connections\<rparr>"

definition setRulesError :: "nat \<Rightarrow> settings_dialog \<Rightarrow> settings_dialog" where
  "setRulesError message d = d\<lparr>sd_rules := NoticeError message\<rparr>"

text \<open>\<open>parsed\<close> is the document of the JSON library: no array, or the objects of an array.\<close>

definition setRules :: "(string \<times> string \<times> string \<times> string) list option \<Rightarrow> settings_dialog \<Rightarrow> settings_dialog" where
  "setRules parsed d = (case parsed of
       None \<Rightarrow> d\<lparr>sd_rules := NoticeUnreadable\<rparr>
     | Some rows \<Rightarrow> if rows = [] then d\<lparr>sd_rules := NoticeNone\<rparr> else d\<lparr>sd_rules := RulesRows rows\<rparr>)"

datatype dialog_edit =
    EdMode nat | EdBitrateAuto bool | EdResolutionAuto bool | EdFpsAuto bool
  | EdBitrate int | EdFps nat | EdHost string | EdPort int | EdProtocol nat
  | EdUrl string | EdKey string | EdPassword string | EdAudio bool | EdDevice nat
  | EdPreset u32 u32

text \<open>What a user, or a profile, can do to the fields.\<close>

definition apply_edit :: "dialog_edit \<Rightarrow> settings_dialog \<Rightarrow> settings_dialog" where
  "apply_edit e d = (case e of
       EdMode i \<Rightarrow> if i < 4 then setDialogMode (healing_mode_of i) d else d
     | EdBitrateAuto b \<Rightarrow> d\<lparr>sd_bitrate_auto := b\<rparr>
     | EdResolutionAuto b \<Rightarrow> d\<lparr>sd_resolution_auto := b\<rparr>
     | EdFpsAuto b \<Rightarrow> d\<lparr>sd_fps_auto := b\<rparr>
     | EdBitrate v \<Rightarrow> set_bitrate_spin v d
     | EdFps i \<Rightarrow> if i < length fps_items then d\<lparr>sd_fps_index := i\<rparr> else d
     | EdHost s \<Rightarrow> d\<lparr>sd_srt_host := s\<rparr>
     | EdPort v \<Rightarrow> set_port_spin v d
     | EdProtocol i \<Rightarrow> if i < 2 then set_protocol_index i d else d
     | EdUrl s \<Rightarrow> d\<lparr>sd_rtmp_url := s\<rparr>
     | EdKey s \<Rightarrow> d\<lparr>sd_rtmp_key := s\<rparr>
     | EdPassword s \<Rightarrow> d\<lparr>sd_ws_password := s\<rparr>
     | EdAudio b \<Rightarrow> d\<lparr>sd_audio := b\<rparr>
     | EdDevice i \<Rightarrow> if i < length (sd_devices d) then d\<lparr>sd_device_index := i\<rparr> else d
     | EdPreset kbps fps \<Rightarrow> setVideoFps fps (setVideoBitrateKbps kbps d))"

section \<open>Well typed dialogs\<close>

definition dialog_ok :: "settings_dialog \<Rightarrow> bool" where
  "dialog_ok d \<longleftrightarrow>
     500 \<le> sd_bitrate d \<and> sd_bitrate d \<le> 50000 \<and> sd_fps_index d < 3 \<and>
     1024 \<le> sd_srt_port d \<and> sd_srt_port d \<le> 65535 \<and> sd_protocol_index d < 2 \<and>
     sd_device_index d < length (sd_devices d) \<and> sd_mode_info d = sd_mode d \<and>
     sd_srt_enabled d = (sd_protocol_index d \<noteq> 1) \<and> sd_rtmp_enabled d = (sd_protocol_index d = 1)"

lemma spin_range: "lo \<le> hi \<Longrightarrow> lo \<le> spin lo hi v \<and> spin lo hi v \<le> hi"
  by (auto simp: spin_def)

lemma spin_id: "lo \<le> v \<Longrightarrow> v \<le> hi \<Longrightarrow> spin lo hi v = v"
  by (simp add: spin_def)

lemma find_data_nth: "find_data x xs = Some i \<Longrightarrow> i < length xs \<and> xs ! i = x"
  by (induction xs arbitrary: i) (auto split: if_splits)

lemma find_data_mem: "x \<in> set xs \<Longrightarrow> \<exists>i. find_data x xs = Some i"
  by (induction xs) auto

lemma find_fps_bound: "find_data x fps_items = Some i \<Longrightarrow> i < 3"
  using find_data_nth[of x fps_items i] by (simp add: fps_items_def)

lemma dialog_ok_new: "dialog_ok (dialog_new cv st devices)"
  by (simp add: dialog_ok_def dialog_new_def onModeChanged_def load_audio_def load_output_def
      load_video_def dialog_widgets_def set_bitrate_spin_def set_port_spin_def set_protocol_index_def
      Let_def spin_range)
    (auto split: option.split dest: find_data_nth find_fps_bound)

lemma dialog_ok_edit: "dialog_ok d \<Longrightarrow> dialog_ok (apply_edit e d)"
  by (cases e)
    (auto simp: apply_edit_def dialog_ok_def setDialogMode_def onModeChanged_def set_bitrate_spin_def
      set_port_spin_def set_protocol_index_def setVideoFps_def setVideoBitrateKbps_def fps_items_def
      spin_range dest: find_fps_bound[unfolded fps_items_def] split: option.split)

interpretation edits: always_kept apply_edit dialog_ok
  by unfold_locales (rule dialog_ok_edit)

lemmas dialog_ok_edits = edits.any_run_keeps

lemma chop_slashes_end: "chop_slashes s = [] \<or> List.last (chop_slashes s) \<noteq> CHR ''/''"
proof -
  let ?p = "\<lambda>c. c = CHR ''/''"
  have "dropWhile ?p (rev s) = [] \<or> hd (dropWhile ?p (rev s)) \<noteq> CHR ''/''"
    using hd_dropWhile[of ?p "rev s"] by auto
  then show ?thesis by (auto simp: chop_slashes_def last_rev)
qed

lemma fps_data_mem: "dialog_ok d \<Longrightarrow> fps_data d \<in> {30, 60, 120}"
  by (auto simp: dialog_ok_def fps_data_def fps_items_def less_Suc_eq numeral_3_eq_3)

lemma videoFps_cases:
  assumes "dialog_ok d"
  shows "videoFps d \<in> {30, 60, 120}"
  using fps_data_mem[OF assms] by (auto simp: videoFps_def)

lemma fps_data_upd [simp]:
  "fps_data (d\<lparr>sd_fps_index := i\<rparr>) = fps_items ! i"
  "fps_data (d\<lparr>sd_mode := m, sd_mode_info := m'\<rparr>) = fps_data d"
  by (simp_all add: fps_data_def)

lemma audioDeviceId_upd [simp]:
  "audioDeviceId (d\<lparr>sd_device_index := i\<rparr>) = sd_devices d ! i"
  "audioDeviceId (d\<lparr>sd_mode := m, sd_mode_info := m'\<rparr>) = audioDeviceId d"
  by (simp_all add: audioDeviceId_def)

lemma videoBitrate_unat: "dialog_ok d \<Longrightarrow> int (unat (videoBitrateKbps d)) = sd_bitrate d"
  by (simp add: dialog_ok_def videoBitrateKbps_def uint_word_of_int)

lemma srtPort_unat: "dialog_ok d \<Longrightarrow> int (unat (srtPort d)) = sd_srt_port d"
  by (simp add: dialog_ok_def srtPort_def uint_word_of_int)

lemma videoBitrate_range:
  "dialog_ok d \<Longrightarrow> 500 \<le> unat (videoBitrateKbps d) \<and> unat (videoBitrateKbps d) \<le> 50000"
  using videoBitrate_unat[of d] unfolding dialog_ok_def by linarith

lemma srtPort_range: "dialog_ok d \<Longrightarrow> 1024 \<le> unat (srtPort d)"
  using srtPort_unat[of d] unfolding dialog_ok_def by linarith

lemma transportProtocol_cases: "transportProtocol d \<in> {0, 1}"
  by (simp add: transportProtocol_def)

section \<open>Loading what was saved\<close>

lemma stored_save:
  "stored (save_settings d st) ''video/bitrate_kbps'' v = QInt (sd_bitrate d)"
  "stored (save_settings d st) ''video/fps'' v = QInt (fps_data d)"
  "stored (save_settings d st) ''srt/host'' v = QStr (sd_srt_host d)"
  "stored (save_settings d st) ''srt/port'' v = QInt (sd_srt_port d)"
  "stored (save_settings d st) ''output/protocol'' v = QInt (int (sd_protocol_index d))"
  "stored (save_settings d st) ''rtmp/url'' v = QStr (sd_rtmp_url d)"
  "stored (save_settings d st) ''rtmp/key'' v = QStr (sd_rtmp_key d)"
  "stored (save_settings d st) ''ws/password'' v = QStr (sd_ws_password d)"
  "stored (save_settings d st) ''audio/enabled'' v = QBool (sd_audio d)"
  "stored (save_settings d st) ''audio/device_id'' v = QStr (audioDeviceId d)"
  by (simp_all add: stored_def save_settings_def)

text \<open>The persistent part of a dialog: what the pipeline configuration is made from.\<close>

definition dialog_values :: "settings_dialog \<Rightarrow> (u32 \<times> u32) \<times> (string \<times> u16 \<times> u32 \<times> string \<times> string)
    \<times> (string \<times> bool \<times> string)" where
  "dialog_values d = ((videoBitrateKbps d, videoFps d),
     (sd_srt_host d, srtPort d, transportProtocol d, rtmpUrl d, rtmpStreamKey d),
     (sd_ws_password d, sd_audio d, audioDeviceId d))"

lemma load_video_bitrate:
  "sd_bitrate (load_video cv st d0)
     = spin 500 50000 (to_int (cv_parse cv) (stored st ''video/bitrate_kbps'' (QInt 6000)))"
  by (simp add: load_video_def set_bitrate_spin_def Let_def)

lemma load_video_fps:
  assumes "to_int (cv_parse cv) (stored st ''video/fps'' (QInt 60)) \<in> set fps_items"
  shows "fps_data (load_video cv st d0) = to_int (cv_parse cv) (stored st ''video/fps'' (QInt 60))"
proof -
  obtain i where i: "find_data (to_int (cv_parse cv) (stored st ''video/fps'' (QInt 60))) fps_items = Some i"
    using find_data_mem[OF assms] by blast
  then show ?thesis using find_data_nth[OF i] by (simp add: load_video_def Let_def)
qed

lemma load_video_saved:
  assumes "dialog_ok d"
  shows "sd_bitrate (load_video cv (save_settings d st) d0) = sd_bitrate d"
    and "fps_data (load_video cv (save_settings d st) d0) = fps_data d"
proof -
  show "sd_bitrate (load_video cv (save_settings d st) d0) = sd_bitrate d"
    using assms by (simp add: load_video_bitrate stored_save to_int_def dialog_ok_def spin_id)
  have "fps_data d \<in> set fps_items" using fps_data_mem[OF assms] by (simp add: fps_items_def)
  then show "fps_data (load_video cv (save_settings d st) d0) = fps_data d"
    using load_video_fps[of cv "save_settings d st" d0] by (simp add: stored_save to_int_def)
qed

lemma load_output_saved:
  fixes cv st d d0
  assumes "dialog_ok d"
  defines "e \<equiv> load_output cv (save_settings d st) d0"
  shows "sd_srt_host e = sd_srt_host d" "sd_srt_port e = sd_srt_port d"
    "sd_protocol_index e = sd_protocol_index d" "sd_rtmp_url e = sd_rtmp_url d"
    "sd_rtmp_key e = sd_rtmp_key d" "sd_ws_password e = sd_ws_password d"
    "sd_bitrate e = sd_bitrate d0" "sd_fps_index e = sd_fps_index d0" "sd_devices e = sd_devices d0"
proof -
  have "sd_protocol_index d = 0 \<or> sd_protocol_index d = 1" using assms(1) by (auto simp: dialog_ok_def)
  then show "sd_srt_host e = sd_srt_host d" "sd_srt_port e = sd_srt_port d"
    "sd_protocol_index e = sd_protocol_index d" "sd_rtmp_url e = sd_rtmp_url d"
    "sd_rtmp_key e = sd_rtmp_key d" "sd_ws_password e = sd_ws_password d"
    "sd_bitrate e = sd_bitrate d0" "sd_fps_index e = sd_fps_index d0" "sd_devices e = sd_devices d0"
    using assms(1) unfolding e_def
    by (auto simp: load_output_def stored_save to_int_def to_text_def set_port_spin_def
        set_protocol_index_def dialog_ok_def spin_id Let_def)
qed

lemma load_audio_saved:
  fixes cv st d d0
  assumes "audioDeviceId d \<in> set (sd_devices d0)"
  defines "e \<equiv> load_audio cv (save_settings d st) d0"
  shows "sd_audio e = sd_audio d" "audioDeviceId e = audioDeviceId d"
proof -
  obtain i where i: "find_data (audioDeviceId d) (sd_devices d0) = Some i"
    using find_data_mem[OF assms(1)] by blast
  then have "sd_devices d0 ! i = audioDeviceId d" using find_data_nth[OF i] by simp
  with i show "sd_audio e = sd_audio d" "audioDeviceId e = audioDeviceId d"
    unfolding e_def
    by (simp_all add: load_audio_def stored_save to_bool_def to_text_def Let_def)
qed

lemma load_audio_keeps:
  "sd_bitrate (load_audio cv st d) = sd_bitrate d" "fps_data (load_audio cv st d) = fps_data d"
  "sd_srt_host (load_audio cv st d) = sd_srt_host d" "sd_srt_port (load_audio cv st d) = sd_srt_port d"
  "sd_protocol_index (load_audio cv st d) = sd_protocol_index d"
  "sd_rtmp_url (load_audio cv st d) = sd_rtmp_url d" "sd_rtmp_key (load_audio cv st d) = sd_rtmp_key d"
  "sd_ws_password (load_audio cv st d) = sd_ws_password d"
  by (simp_all add: load_audio_def Let_def fps_data_def)

lemma load_video_keeps: "sd_devices (load_video cv st d) = sd_devices d"
  by (simp add: load_video_def Let_def set_bitrate_spin_def)

lemma rtmp_url_may_end_in_a_blank:
  "rtmpUrl ((dialog_widgets [])\<lparr>sd_rtmp_url := ''rtmp://a /''\<rparr>) = ''rtmp://a ''"
  by (simp add: rtmpUrl_def chop_slashes_def trimmed_def is_space_def)

section \<open>Properties\<close>

text \<open>Whatever the persistent settings contain (missing, of another type, out of range,
  written by another program) and whatever the user and the profiles do to the fields, the values
  the pipeline is configured with are well typed: the bitrate lies between 500 and 50000 kbps, the
  frame rate is 30, 60 or 120, the port is not privileged, the protocol is one of the two, the
  audio device is one of the list, and the server address does not end in a slash.\<close>

theorem settings_well_typed:
  "let d = fold apply_edit es (dialog_new cv st devices) in
     500 \<le> unat (videoBitrateKbps d) \<and> unat (videoBitrateKbps d) \<le> 50000 \<and>
     videoFps d \<in> {30, 60, 120} \<and> 1024 \<le> unat (srtPort d) \<and> transportProtocol d \<in> {0, 1} \<and>
     audioDeviceId d \<in> set (sd_devices d) \<and> \<not> (rtmpUrl d \<noteq> [] \<and> List.last (rtmpUrl d) = CHR ''/'')"
proof -
  define d where "d = fold apply_edit es (dialog_new cv st devices)"
  have ok: "dialog_ok d" by (simp add: d_def dialog_ok_edits dialog_ok_new)
  have "audioDeviceId d \<in> set (sd_devices d)"
    using ok by (simp add: audioDeviceId_def dialog_ok_def)
  moreover have "rtmpUrl d = [] \<or> List.last (rtmpUrl d) \<noteq> CHR ''/''"
    unfolding rtmpUrl_def by (rule chop_slashes_end)
  ultimately show ?thesis
    using videoBitrate_range[OF ok] srtPort_range[OF ok] videoFps_cases[OF ok]
      transportProtocol_cases[of d]
    unfolding Let_def d_def[symmetric] by blast
qed

text \<open>C20: What OK saves is what the next start loads: after any edits, a dialog opened on the
  saved settings yields the same configuration values, whatever else the settings contained, as
  long as the selected audio device is still there (the default device always is).\<close>

theorem settings_round_trip:
  fixes cv st devices es cv' devices'
  defines "d \<equiv> fold apply_edit es (dialog_new cv st devices)"
  assumes "audioDeviceId d \<in> set ([] # devices')"
  shows "dialog_values (dialog_new cv' (snd (onOkClicked d st')) devices') = dialog_values d"
proof -
  have ok: "dialog_ok d" by (simp add: d_def dialog_ok_edits dialog_ok_new)
  let ?st = "save_settings d st'"
  let ?v = "load_video cv' ?st (dialog_widgets devices')"
  let ?o = "load_output cv' ?st ?v"
  have dev: "audioDeviceId d \<in> set (sd_devices ?o)"
    using assms(2) load_output_saved(9)[OF ok] by (simp add: load_video_keeps dialog_widgets_def)
  have fps: "fps_data ?o = fps_data ?v"
    using load_output_saved(8)[OF ok] by (simp add: fps_data_def)
  have "dialog_new cv' ?st devices' = onModeChanged CoPilot (load_audio cv' ?st ?o)"
    by (simp add: dialog_new_def)
  then show ?thesis
    using load_output_saved[OF ok, of cv' st' ?v] load_video_saved[OF ok, of cv' st'] fps
      load_audio_saved[OF dev, of cv' st']
    by (simp add: onOkClicked_def dialog_values_def onModeChanged_def load_audio_keeps
        videoBitrateKbps_def videoFps_def srtPort_def transportProtocol_def rtmpUrl_def
        rtmpStreamKey_def)
qed

definition no_parse :: conversions where
  "no_parse = \<lparr>cv_parse = (\<lambda>s. None), cv_show = (\<lambda>i. [])\<rparr>"

theorem settings_round_trip_witness:
  "videoBitrateKbps (dialog_new no_parse (snd (onOkClicked
     (fold apply_edit [EdBitrate 8000, EdProtocol 1, EdDevice 1] (dialog_new no_parse (\<lambda>k. None) [''mic'']))
     (\<lambda>k. None))) [''hdmi'', ''mic'']) = 8000"
proof -
  let ?d = "fold apply_edit [EdBitrate 8000, EdProtocol 1, EdDevice 1] (dialog_new no_parse (\<lambda>k. None) [''mic''])"
  have e: "audioDeviceId ?d = ''mic''" "videoBitrateKbps ?d = 8000"
    by (simp_all add: audioDeviceId_def videoBitrateKbps_def apply_edit_def dialog_new_def load_audio_def
        load_output_def load_video_def dialog_widgets_def Let_def set_bitrate_spin_def set_port_spin_def
        set_protocol_index_def onModeChanged_def spin_def)
  then have "dialog_values (dialog_new no_parse (snd (onOkClicked ?d (\<lambda>k. None))) [''hdmi'', ''mic''])
      = dialog_values ?d"
    by (intro settings_round_trip) simp
  with e show ?thesis by (simp add: dialog_values_def)
qed

end
