(* ===== verification/UiPolicies.thy ===== *)
theory UiPolicies
  imports Prelude
begin

text \<open>
  The pure decisions of the user interface: the hardware profile advisor
  (\<open>src/src/ui/profile_advisor.cpp\<close>), the choice of the render path
  (\<open>src/src/ui/render_capability.cpp\<close>) with the vendor table of
  \<open>src/src/pipeline/gpu/vulkan_initializer.cpp\<close>, and the life of that initialiser.
  What Windows and the Vulkan loader answer are arguments.
\<close>

section \<open>Profile advisor\<close>

datatype profile_id = Stability | Performance | Efficiency

record hw_signals =
  hw_vendor_id :: u32
  hw_vram_mb :: u64
  hw_total_ram_mb :: u64
  hw_on_battery :: bool

record profile_preset =
  pp_bitrate_kbps :: u32
  pp_fps :: u32

definition kProfileVramLowMb :: u64 where [model_defs]: "kProfileVramLowMb = 4096"
definition kProfileRamLowMb :: u64 where [model_defs]: "kProfileRamLowMb = 8192"
definition kBytesPerMb :: u64 where [model_defs]: "kBytesPerMb = 1024 * 1024"

text \<open>\<open>GlobalMemoryStatusEx\<close> answers the number of bytes or fails; \<open>GetSystemPowerStatus\<close> answers
  the state of the power line (0 off, 1 on, 255 unknown) or fails.\<close>

definition query_total_ram_mb :: "u64 option \<Rightarrow> u64" where
  "query_total_ram_mb status = (case status of Some n \<Rightarrow> n div kBytesPerMb | None \<Rightarrow> 0)"

definition query_on_battery :: "u8 option \<Rightarrow> bool" where
  "query_on_battery status = (case status of Some line \<Rightarrow> line = 0 | None \<Rightarrow> False)"

definition collect_hw_signals :: "u64 option \<Rightarrow> u8 option \<Rightarrow> u32 \<Rightarrow> u64 \<Rightarrow> hw_signals" where
  "collect_hw_signals memory line_status encode_vendor_id encode_vram_mb =
     \<lparr>hw_vendor_id = encode_vendor_id, hw_vram_mb = encode_vram_mb,
      hw_total_ram_mb = query_total_ram_mb memory, hw_on_battery = query_on_battery line_status\<rparr>"

definition suggest_profile :: "hw_signals \<Rightarrow> profile_id" where
  "suggest_profile s =
     (if hw_on_battery s then Efficiency
      else if hw_vram_mb s < kProfileVramLowMb \<or> hw_total_ram_mb s < kProfileRamLowMb then Stability
      else Performance)"

definition preset_for :: "profile_id \<Rightarrow> profile_preset" where
  "preset_for p = (case p of
       Performance \<Rightarrow> \<lparr>pp_bitrate_kbps = 12000, pp_fps = 60\<rparr>
     | Stability \<Rightarrow> \<lparr>pp_bitrate_kbps = 6000, pp_fps = 30\<rparr>
     | Efficiency \<Rightarrow> \<lparr>pp_bitrate_kbps = 4500, pp_fps = 30\<rparr>)"

definition profile_resource_name :: "profile_id \<Rightarrow> string" where
  "profile_resource_name p = (case p of
       Performance \<Rightarrow> ''performance'' | Stability \<Rightarrow> ''stability'' | Efficiency \<Rightarrow> ''efficiency'')"

definition profileDisplayName :: "profile_id \<Rightarrow> string" where
  "profileDisplayName p = (case p of
       Performance \<Rightarrow> ''Performans'' | Stability \<Rightarrow> ''Stabilite'' | Efficiency \<Rightarrow> ''Verimlilik'')"

definition vendorName :: "u32 \<Rightarrow> string" where
  "vendorName v =
     (if v = 0x10DE then ''NVIDIA'' else if v = 0x1002 then ''AMD''
      else if v = 0x8086 then ''Intel'' else ''GPU'')"

text \<open>The profiles are ordered by the load they put on the machine.\<close>

definition profile_rank :: "profile_id \<Rightarrow> nat" where
  "profile_rank p = (case p of Efficiency \<Rightarrow> 0 | Stability \<Rightarrow> 1 | Performance \<Rightarrow> 2)"

lemma profile_rank_inj: "profile_rank p = profile_rank q \<Longrightarrow> p = q"
  by (simp add: profile_rank_def split: profile_id.splits)

instantiation profile_id :: linorder
begin

definition less_eq_profile_id :: "profile_id \<Rightarrow> profile_id \<Rightarrow> bool" where
  "less_eq_profile_id p q = (profile_rank p \<le> profile_rank q)"

definition less_profile_id :: "profile_id \<Rightarrow> profile_id \<Rightarrow> bool" where
  "less_profile_id p q = (profile_rank p < profile_rank q)"

instance
  by standard (auto simp: less_eq_profile_id_def less_profile_id_def intro: profile_rank_inj)

end

definition hw_le :: "hw_signals \<Rightarrow> hw_signals \<Rightarrow> bool" where
  "hw_le a b \<longleftrightarrow> hw_vram_mb a \<le> hw_vram_mb b \<and> hw_total_ram_mb a \<le> hw_total_ram_mb b \<and>
     (hw_on_battery a \<or> \<not> hw_on_battery b)"

lemma suggest_profile_mono: "hw_le a b \<Longrightarrow> suggest_profile a \<le> suggest_profile b"
  by (auto simp: hw_le_def suggest_profile_def less_eq_profile_id_def profile_rank_def)

lemma preset_mono: "mono (\<lambda>p. pp_bitrate_kbps (preset_for p))" "mono (\<lambda>p. pp_fps (preset_for p))"
  by (auto intro!: monoI simp: preset_for_def less_eq_profile_id_def profile_rank_def split: profile_id.splits)

lemma failed_memory_query_is_low:
  "suggest_profile (collect_hw_signals None line_status v vram) \<noteq> Performance"
  by (simp add: suggest_profile_def collect_hw_signals_def query_total_ram_mb_def model_defs)

section \<open>The Vulkan initialiser\<close>

datatype vulkan_vendor = kAMD | kNVIDIA | kIntel | kUnknown

record vulkan_init =
  vi_initialized :: bool
  vi_vendor_id :: u32
  vi_use_keyed_mutex :: bool
  vi_live :: bool  \<comment> \<open>the device of the Zig layer exists\<close>

definition vulkan_new :: vulkan_init where
  "vulkan_new = \<lparr>vi_initialized = False, vi_vendor_id = 0, vi_use_keyed_mutex = False, vi_live = False\<rparr>"

text \<open>\<open>zig\<close> is the answer of \<open>vulkan_init_initialize\<close>: the vendor and the keyed mutex flag of
  the device it created, or a failure.\<close>

definition vulkan_initialize :: "(u32 \<times> bool) option \<Rightarrow> vulkan_init \<Rightarrow> bool \<times> vulkan_init" where
  "vulkan_initialize zig s =
     (if vi_initialized s then (True, s)
      else case zig of
        None \<Rightarrow> (False, s)
      | Some (vendor_id, keyed) \<Rightarrow>
          (True, s\<lparr>vi_vendor_id := vendor_id, vi_use_keyed_mutex := keyed, vi_initialized := True,
                  vi_live := True\<rparr>))"

definition vulkan_vendor_of :: "vulkan_init \<Rightarrow> vulkan_vendor" where
  "vulkan_vendor_of s =
     (if vi_vendor_id s = 0x1002 then kAMD else if vi_vendor_id s = 0x10DE then kNVIDIA
      else if vi_vendor_id s = 0x8086 then kIntel else kUnknown)"

definition vulkan_shutdown :: "vulkan_init \<Rightarrow> vulkan_init" where
  "vulkan_shutdown s = (if \<not> vi_initialized s then s else s\<lparr>vi_live := False, vi_initialized := False\<rparr>)"

lemma vulkan_live_iff:
  assumes "vi_live s = vi_initialized s"
  shows "vi_live (snd (vulkan_initialize zig s)) = vi_initialized (snd (vulkan_initialize zig s))"
    and "vi_live (vulkan_shutdown s) = vi_initialized (vulkan_shutdown s)"
    and "fst (vulkan_initialize zig s) = vi_initialized (snd (vulkan_initialize zig s))"
  using assms by (auto simp: vulkan_initialize_def vulkan_shutdown_def split: option.splits)

lemma vulkan_shutdown_once: "vulkan_shutdown (vulkan_shutdown s) = vulkan_shutdown s"
  by (simp add: vulkan_shutdown_def)

section \<open>Render paths\<close>

datatype render_path = kPbo | kNvDxInterop | kVulkan | kOpenGL | kQRhi

record render_profile =
  rp_path :: render_path
  rp_name :: string
  rp_vendor_id :: u32
  rp_external_memory :: bool

definition detect :: "(u32 \<times> bool) option \<Rightarrow> bool \<Rightarrow> vulkan_init \<Rightarrow> render_profile \<times> vulkan_init" where
  "detect zig has_external_memory s =
     (case vulkan_initialize zig s of (ok, s) \<Rightarrow>
        (if \<not> ok then
           \<lparr>rp_path = kOpenGL, rp_name = ''OpenGL'', rp_vendor_id = 0, rp_external_memory = False\<rparr>
         else if \<not> has_external_memory then
           \<lparr>rp_path = kQRhi, rp_name = ''QRhi'', rp_vendor_id = vi_vendor_id s,
            rp_external_memory = False\<rparr>
         else if vulkan_vendor_of s = kAMD \<or> vulkan_vendor_of s = kNVIDIA then
           \<lparr>rp_path = kVulkan, rp_name = ''Vulkan'', rp_vendor_id = vi_vendor_id s,
            rp_external_memory = True\<rparr>
         else if vulkan_vendor_of s = kIntel then
           \<lparr>rp_path = kQRhi, rp_name = ''QRhi (Intel)'', rp_vendor_id = vi_vendor_id s,
            rp_external_memory = True\<rparr>
         else
           \<lparr>rp_path = kOpenGL, rp_name = ''OpenGL'', rp_vendor_id = vi_vendor_id s,
            rp_external_memory = True\<rparr>, s))"

definition detect_with_mock ::
  "bool \<Rightarrow> (u32 \<times> bool) option \<Rightarrow> bool \<Rightarrow> vulkan_init \<Rightarrow> render_profile \<times> vulkan_init" where
  "detect_with_mock mock_vulkan zig has_external_memory s =
     (if mock_vulkan then
        (\<lparr>rp_path = kOpenGL, rp_name = ''OpenGL (mocked)'', rp_vendor_id = 0,
          rp_external_memory = False\<rparr>, s)
      else detect zig has_external_memory s)"

lemma detect_vulkan_iff:
  "rp_path (fst (detect zig ext s)) = kVulkan \<longleftrightarrow>
     fst (vulkan_initialize zig s) \<and> ext \<and>
     vi_vendor_id (snd (vulkan_initialize zig s)) \<in> {0x1002, 0x10DE}"
  by (auto simp: detect_def vulkan_vendor_of_def split: prod.split)

section \<open>Properties\<close>

text \<open>The advisor never advises more than the hardware allows: when a machine is at least as
  good as another in video memory, memory and power, the bitrate and the frame rate of the
  profile suggested for it are at least those suggested for the other.\<close>

theorem better_hardware_never_gets_less:
  assumes "hw_le a b"
  shows "pp_bitrate_kbps (preset_for (suggest_profile a)) \<le> pp_bitrate_kbps (preset_for (suggest_profile b))
    \<and> pp_fps (preset_for (suggest_profile a)) \<le> pp_fps (preset_for (suggest_profile b))"
  using preset_mono[THEN monoD, OF suggest_profile_mono[OF assms]] by blast

theorem better_hardware_never_gets_less_witness:
  "pp_bitrate_kbps (preset_for (suggest_profile
       \<lparr>hw_vendor_id = 0x8086, hw_vram_mb = 128, hw_total_ram_mb = 16384, hw_on_battery = False\<rparr>))
     \<le> pp_bitrate_kbps (preset_for (suggest_profile
       \<lparr>hw_vendor_id = 0x10DE, hw_vram_mb = 8192, hw_total_ram_mb = 16384, hw_on_battery = False\<rparr>))"
  by (rule conjunct1[OF better_hardware_never_gets_less]) (simp add: hw_le_def)

end
