(* ===== verification/RulesFile.thy ===== *)
theory RulesFile
  imports SettingsDialog UiPolicies
begin

text \<open>
  The rules file of the user (\<open>~/.reji/rules.json\<close>) as the main window handles it
  (\<open>src/src/ui/main_window.cpp\<close>, \<open>src/src/ui/rules_watch.h\<close>): seeding, opening in an editor,
  watching and reloading it, exporting, importing and the profiles.

  The state holds the file, its backup, whether its directory exists, the watcher with its two
  possible paths, the debounce timer, the status label, the content the rule engine runs, the
  settings dialog and the persistent settings. Whether each call of the file system succeeds is
  part of the input (\<open>rules_io\<close>); a source that is read twice has two contents. \<open>valid\<close> says which
  contents the rule engine accepts; validation and reload use the same parser. Events of the
  watcher are delivered at once. The engine is running: the constructor starts the monitor.
\<close>

section \<open>State\<close>

record watch =
  wa_dir :: bool
  wa_file :: bool

datatype rules_error = ErrSource | ErrTemp | ErrTempWrite | ErrInvalid | ErrBackup | ErrWrite
  | ErrMissing | ErrSeed | ErrEditor

datatype rules_text = RlEmpty | RlWatching | RlReloaded string | RlLoadError | RlExported
  | RlImportFailed | RlImporting | RlProfileFailed | RlProfile profile_id u32 u32

record rules_ui =
  rw_rules :: "string option"
  rw_backup :: "string option"
  rw_dir :: bool
  rw_watcher :: "watch option"
  rw_debounce :: "bool option"
  rw_label :: rules_text
  rw_label_red :: bool
  rw_label_shown :: bool
  rw_engine :: "string option"
  rw_dialog :: settings_dialog
  rw_store :: settings_store
  rw_warnings :: "rules_error list"

definition rules_ui_new ::
  "string option \<Rightarrow> bool \<Rightarrow> string option \<Rightarrow> settings_dialog \<Rightarrow> settings_store \<Rightarrow> rules_ui" where
  "rules_ui_new file dir engine dialog st =
     \<lparr>rw_rules = file, rw_backup = None, rw_dir = dir \<or> file \<noteq> None, rw_watcher = None,
      rw_debounce = None, rw_label = RlEmpty, rw_label_red = False, rw_label_shown = False,
      rw_engine = engine, rw_dialog = dialog\<lparr>sd_auto_reload := False\<rparr>, rw_store = st,
      rw_warnings = []\<rparr>"

abbreviation auto_reload :: "rules_ui \<Rightarrow> bool" where
  "auto_reload s \<equiv> sd_auto_reload (rw_dialog s)"

definition warn :: "rules_error \<Rightarrow> rules_ui \<Rightarrow> rules_ui" where
  "warn e s = s\<lparr>rw_warnings := rw_warnings s @ [e]\<rparr>"

definition set_label :: "rules_text \<Rightarrow> bool \<Rightarrow> rules_ui \<Rightarrow> rules_ui" where
  "set_label t red s = s\<lparr>rw_label := t, rw_label_red := red\<rparr>"

definition show_label :: "rules_text \<Rightarrow> bool \<Rightarrow> rules_ui \<Rightarrow> rules_ui" where
  "show_label t red s = (set_label t red s)\<lparr>rw_label_shown := True\<rparr>"

section \<open>Watching\<close>

definition ensureRulesWatcher :: "rules_ui \<Rightarrow> rules_ui" where
  "ensureRulesWatcher s =
     s\<lparr>rw_watcher := Some (case rw_watcher s of Some w \<Rightarrow> w | None \<Rightarrow> \<lparr>wa_dir = False, wa_file = False\<rparr>),
       rw_debounce := Some (case rw_debounce s of Some b \<Rightarrow> b | None \<Rightarrow> False)\<rparr>"

definition armRulesWatchOn :: "bool \<Rightarrow> bool \<Rightarrow> watch \<Rightarrow> bool \<Rightarrow> watch" where
  "armRulesWatchOn dir_exists file_exists w enabled =
     (if \<not> enabled then w
      else w\<lparr>wa_dir := wa_dir w \<or> dir_exists, wa_file := wa_file w \<or> file_exists\<rparr>)"

definition armRulesWatch :: "rules_ui \<Rightarrow> rules_ui" where
  "armRulesWatch s = (case rw_watcher s of
       None \<Rightarrow> s
     | Some w \<Rightarrow>
         s\<lparr>rw_watcher := Some (armRulesWatchOn (rw_dir s) (rw_rules s \<noteq> None) w (auto_reload s))\<rparr>)"

definition onRulesPathChanged :: "rules_ui \<Rightarrow> rules_ui" where
  "onRulesPathChanged s = s\<lparr>rw_debounce := map_option (\<lambda>_. True) (rw_debounce s)\<rparr>"

definition onAutoReloadToggled :: "bool \<Rightarrow> rules_ui \<Rightarrow> rules_ui" where
  "onAutoReloadToggled enabled s =
     (let s = s\<lparr>rw_store := (rw_store s)(''rules/auto_reload'' \<mapsto> QBool enabled)\<rparr> in
      if \<not> enabled then
        s\<lparr>rw_watcher := map_option (\<lambda>_. \<lparr>wa_dir = False, wa_file = False\<rparr>) (rw_watcher s),
          rw_debounce := map_option (\<lambda>_. False) (rw_debounce s),
          rw_label := RlEmpty, rw_label_shown := False\<rparr>
      else show_label RlWatching False (armRulesWatch (ensureRulesWatcher s)))"

text \<open>The check box: a change of its state calls the slot.\<close>

definition toggle_auto_reload :: "bool \<Rightarrow> rules_ui \<Rightarrow> rules_ui" where
  "toggle_auto_reload enabled s =
     (case setAutoReloadEnabled enabled (rw_dialog s) of
        (None, d) \<Rightarrow> s
      | (Some e, d) \<Rightarrow> onAutoReloadToggled e (s\<lparr>rw_dialog := d\<rparr>))"

text \<open>At the start the check box is set from the persistent settings.\<close>

definition restore_auto_reload :: "rules_ui \<Rightarrow> rules_ui" where
  "restore_auto_reload s =
     (if to_bool (stored (rw_store s) ''rules/auto_reload'' (QBool False)) then toggle_auto_reload True s else s)"

section \<open>The file system\<close>

definition dir_changed :: "rules_ui \<Rightarrow> rules_ui" where
  "dir_changed s = (if (case rw_watcher s of Some w \<Rightarrow> wa_dir w | None \<Rightarrow> False)
     then onRulesPathChanged s else s)"

definition file_changed :: "rules_ui \<Rightarrow> rules_ui" where
  "file_changed s = (if (case rw_watcher s of Some w \<Rightarrow> wa_file w | None \<Rightarrow> False)
     then onRulesPathChanged s else s)"

text \<open>The watcher may lose a file that is renamed over, and loses a file that is deleted.\<close>

definition forget_file :: "bool \<Rightarrow> rules_ui \<Rightarrow> rules_ui" where
  "forget_file lost s =
     (if lost then s\<lparr>rw_watcher := map_option (\<lambda>w. w\<lparr>wa_file := False\<rparr>) (rw_watcher s)\<rparr> else s)"

definition put_file :: "bool \<Rightarrow> string \<Rightarrow> rules_ui \<Rightarrow> rules_ui" where
  "put_file lost c s = forget_file lost (dir_changed (file_changed (s\<lparr>rw_rules := Some c\<rparr>)))"

record rules_io =
  io_open1 :: bool
  io_tmp :: bool
  io_tmp_write :: bool
  io_remove :: bool
  io_copy :: bool
  io_mkpath :: bool
  io_open2 :: bool
  io_save_open :: bool
  io_commit :: bool
  io_lost :: bool
  io_now :: string

section \<open>Reload\<close>

definition rj_reload_rules :: "(string \<Rightarrow> bool) \<Rightarrow> rules_ui \<Rightarrow> bool \<times> rules_ui" where
  "rj_reload_rules valid s = (case rw_rules s of
       None \<Rightarrow> (False, s)
     | Some c \<Rightarrow> if valid c then (True, s\<lparr>rw_engine := Some c\<rparr>) else (False, s))"

definition reloadRulesNow :: "(string \<Rightarrow> bool) \<Rightarrow> string \<Rightarrow> rules_ui \<Rightarrow> rules_ui" where
  "reloadRulesNow valid now s =
     (case rj_reload_rules valid (armRulesWatch s) of
        (True, s) \<Rightarrow> set_label (RlReloaded now) False s
      | (False, s) \<Rightarrow> set_label RlLoadError True s)"

definition debounce_fires :: "(string \<Rightarrow> bool) \<Rightarrow> string \<Rightarrow> rules_ui \<Rightarrow> rules_ui" where
  "debounce_fires valid now s =
     (if rw_debounce s = Some True then reloadRulesNow valid now (s\<lparr>rw_debounce := Some False\<rparr>) else s)"

section \<open>Seeding and the editor\<close>

record seed_io =
  se_template :: "string option"
  se_mkpath :: bool
  se_open :: bool
  se_written :: string

definition seedRulesFromTemplate :: "seed_io \<Rightarrow> rules_ui \<Rightarrow> bool \<times> rules_ui" where
  "seedRulesFromTemplate io s = (case se_template io of
       None \<Rightarrow> (False, s)
     | Some content \<Rightarrow>
         if \<not> rw_dir s \<and> \<not> se_mkpath io then (False, s)
         else let s = s\<lparr>rw_dir := True\<rparr> in
           if \<not> se_open io then (False, s)
           else (se_written io = content, put_file False (se_written io) s))"

definition openRulesInEditor :: "seed_io \<Rightarrow> bool \<Rightarrow> rules_ui \<Rightarrow> rules_ui" where
  "openRulesInEditor io editor_ok s =
     (case (if rw_rules s = None then seedRulesFromTemplate io s else (True, s)) of
        (False, s) \<Rightarrow> warn ErrSeed s
      | (True, s) \<Rightarrow>
          let s = (if auto_reload s then armRulesWatch (ensureRulesWatcher s) else s) in
          if editor_ok then s else warn ErrEditor s)"

section \<open>Validation, import, export\<close>

definition validateRulesFile :: "(string \<Rightarrow> bool) \<Rightarrow> string option \<Rightarrow> rules_io \<Rightarrow> rules_error option" where
  "validateRulesFile valid src io = (case (if io_open1 io then src else None) of
       None \<Rightarrow> Some ErrSource
     | Some c \<Rightarrow>
         if \<not> io_tmp io then Some ErrTemp
         else if \<not> io_tmp_write io then Some ErrTempWrite
         else if \<not> valid c then Some ErrInvalid
         else None)"

definition backup_rules :: "rules_io \<Rightarrow> rules_ui \<Rightarrow> bool \<times> rules_ui" where
  "backup_rules io s = (case rw_rules s of
       None \<Rightarrow> (True, s)
     | Some c \<Rightarrow>
         let s = (if io_remove io then dir_changed (s\<lparr>rw_backup := None\<rparr>) else s) in
         if rw_backup s = None \<and> io_copy io then (True, dir_changed (s\<lparr>rw_backup := Some c\<rparr>))
         else (False, s))"

text \<open>\<open>src\<close> is the source when it is validated, \<open>src'\<close> when it is copied.\<close>

definition write_file :: "string option \<Rightarrow> rules_io \<Rightarrow> rules_ui \<Rightarrow> rules_error option \<times> rules_ui" where
  "write_file src' io s =
     (let s = (if \<not> rw_dir s \<and> io_mkpath io then s\<lparr>rw_dir := True\<rparr> else s) in
      case (if io_open2 io then src' else None) of
        None \<Rightarrow> (Some ErrSource, s)
      | Some c \<Rightarrow>
          if \<not> (rw_dir s \<and> io_save_open io) then (Some ErrWrite, s)
          else if \<not> io_commit io then (Some ErrWrite, s)
          else (None, put_file (io_lost io) c s))"

definition writeValidatedRules ::
  "(string \<Rightarrow> bool) \<Rightarrow> string option \<Rightarrow> string option \<Rightarrow> rules_io \<Rightarrow> rules_ui
     \<Rightarrow> rules_error option \<times> rules_ui" where
  "writeValidatedRules valid src src' io s =
     (case validateRulesFile valid src io of
        Some e \<Rightarrow> (Some e, s)
      | None \<Rightarrow> (case backup_rules io s of
          (False, s) \<Rightarrow> (Some ErrBackup, s)
        | (True, s) \<Rightarrow> (case write_file src' io s of
            (Some e, s) \<Rightarrow> (Some e, s)
          | (None, s) \<Rightarrow>
              (None, if auto_reload s then s else reloadRulesNow valid (io_now io) (armRulesWatch s)))))"

definition importRules ::
  "(string \<Rightarrow> bool) \<Rightarrow> string option \<Rightarrow> string option \<Rightarrow> rules_io \<Rightarrow> rules_ui \<Rightarrow> rules_ui" where
  "importRules valid src src' io s =
     (case writeValidatedRules valid src src' io s of
        (Some e, s) \<Rightarrow> warn e (show_label RlImportFailed True s)
      | (None, s) \<Rightarrow> if auto_reload s then show_label RlImporting False s else s)"

definition applyProfile ::
  "(string \<Rightarrow> bool) \<Rightarrow> (profile_id \<Rightarrow> string) \<Rightarrow> profile_id \<Rightarrow> rules_io \<Rightarrow> rules_ui \<Rightarrow> bool \<times> rules_ui" where
  "applyProfile valid resource p io s =
     (case writeValidatedRules valid (Some (resource p)) (Some (resource p)) io s of
        (Some e, s) \<Rightarrow> (False, warn e (show_label RlProfileFailed True s))
      | (None, s) \<Rightarrow>
          let preset = preset_for p;
              s = s\<lparr>rw_dialog := setVideoFps (pp_fps preset)
                     (setVideoBitrateKbps (pp_bitrate_kbps preset) (rw_dialog s))\<rparr> in
          (True, show_label (RlProfile p (pp_bitrate_kbps preset) (pp_fps preset)) False s))"

text \<open>The answer is what the chosen destination holds afterwards, when it was written.\<close>

definition exportRules ::
  "(string \<Rightarrow> bool) \<Rightarrow> bool \<Rightarrow> rules_io \<Rightarrow> rules_ui \<Rightarrow> string option \<times> rules_ui" where
  "exportRules valid chosen io s = (case rw_rules s of
       None \<Rightarrow> (None, warn ErrMissing s)
     | Some c \<Rightarrow> (case validateRulesFile valid (Some c) io of
         Some e \<Rightarrow> (None, warn e s)
       | None \<Rightarrow>
           if \<not> chosen then (None, s)
           else if \<not> io_open2 io then (None, warn ErrSource s)
           else if \<not> io_save_open io then (None, warn ErrWrite s)
           else if \<not> io_commit io then (None, warn ErrWrite s)
           else (Some c, show_label RlExported False s)))"

section \<open>Steps\<close>

datatype rules_input =
    RiToggle bool
  | RiRestore
  | RiEditor seed_io bool
  | RiImport "string option" "string option" rules_io
  | RiProfile profile_id rules_io
  | RiExport bool rules_io
  | RiDebounce string
  | RiReplace bool string  \<comment> \<open>another program saves by renaming\<close>
  | RiModify string  \<comment> \<open>another program writes in place\<close>
  | RiDelete

definition external_replace :: "bool \<Rightarrow> string \<Rightarrow> rules_ui \<Rightarrow> rules_ui" where
  "external_replace lost c s = (if rw_dir s then put_file lost c s else s)"

definition external_modify :: "string \<Rightarrow> rules_ui \<Rightarrow> rules_ui" where
  "external_modify c s = (if rw_rules s = None then s else file_changed (s\<lparr>rw_rules := Some c\<rparr>))"

definition external_delete :: "rules_ui \<Rightarrow> rules_ui" where
  "external_delete s =
     (if rw_rules s = None then s
      else forget_file True (dir_changed (file_changed (s\<lparr>rw_rules := None\<rparr>))))"

definition rules_step ::
  "(string \<Rightarrow> bool) \<Rightarrow> (profile_id \<Rightarrow> string) \<Rightarrow> rules_input \<Rightarrow> rules_ui \<Rightarrow> rules_ui" where
  "rules_step valid resource i s = (case i of
       RiToggle b \<Rightarrow> toggle_auto_reload b s
     | RiRestore \<Rightarrow> restore_auto_reload s
     | RiEditor io ok \<Rightarrow> openRulesInEditor io ok s
     | RiImport src src' io \<Rightarrow> importRules valid src src' io s
     | RiProfile p io \<Rightarrow> snd (applyProfile valid resource p io s)
     | RiExport chosen io \<Rightarrow> snd (exportRules valid chosen io s)
     | RiDebounce now \<Rightarrow> debounce_fires valid now s
     | RiReplace lost c \<Rightarrow> external_replace lost c s
     | RiModify c \<Rightarrow> external_modify c s
     | RiDelete \<Rightarrow> external_delete s)"

definition rules_run ::
  "(string \<Rightarrow> bool) \<Rightarrow> (profile_id \<Rightarrow> string) \<Rightarrow> rules_input list \<Rightarrow> rules_ui \<Rightarrow> rules_ui" where
  "rules_run valid resource is s = fold (rules_step valid resource) is s"

section \<open>Invariant of the watch\<close>

text \<open>Off means off: no path is watched and no reload is pending. On means: nothing is watched
  that does not exist, and with the directory watched, an existing file is watched as well or a
  reload is pending that will watch it again.\<close>

fun watch_ok :: "bool \<Rightarrow> bool \<Rightarrow> bool \<Rightarrow> watch option \<Rightarrow> bool option \<Rightarrow> bool" where
  "watch_ok on dir file None debounce \<longleftrightarrow> (file \<longrightarrow> dir) \<and> \<not> on \<and> debounce = None"
| "watch_ok on dir file (Some w) None \<longleftrightarrow> False"
| "watch_ok on dir file (Some w) (Some pending) \<longleftrightarrow>
     (file \<longrightarrow> dir) \<and> (wa_dir w \<longrightarrow> dir \<and> on) \<and> (wa_file w \<longrightarrow> file \<and> wa_dir w) \<and>
     (pending \<longrightarrow> wa_dir w) \<and> (wa_dir w \<and> file \<longrightarrow> wa_file w \<or> pending)"

definition rules_wf :: "rules_ui \<Rightarrow> bool" where
  "rules_wf s = watch_ok (auto_reload s) (rw_dir s) (rw_rules s \<noteq> None) (rw_watcher s) (rw_debounce s)"

definition watching :: "rules_ui \<Rightarrow> bool" where
  "watching s \<longleftrightarrow> (case rw_watcher s of Some w \<Rightarrow> wa_dir w | None \<Rightarrow> False)"

lemma rules_wf_cases [consumes 1, case_names unwatched watched]:
  assumes "rules_wf s"
  obtains (unwatched) "rw_watcher s = None" "rw_debounce s = None" "\<not> auto_reload s"
      "rw_rules s \<noteq> None \<longrightarrow> rw_dir s"
  | (watched) w b where "rw_watcher s = Some w" "rw_debounce s = Some b"
      "watch_ok (auto_reload s) (rw_dir s) (rw_rules s \<noteq> None) (Some w) (Some b)"
  using assms unfolding rules_wf_def by (elim watch_ok.elims) auto

lemmas label_defs = warn_def set_label_def show_label_def

lemma rules_wf_labels [simp]:
  "rules_wf (warn e s) = rules_wf s"
  "rules_wf (set_label t r s) = rules_wf s"
  "rules_wf (show_label t r s) = rules_wf s"
  by (simp_all add: rules_wf_def label_defs)

lemma rules_wf_cong:
  assumes "rules_wf s" "rw_rules t = rw_rules s" "rw_dir t = rw_dir s" "rw_watcher t = rw_watcher s"
    "rw_debounce t = rw_debounce s" "auto_reload t = auto_reload s"
  shows "rules_wf t"
  using assms by (simp add: rules_wf_def)

lemmas watch_defs = onRulesPathChanged_def dir_changed_def file_changed_def forget_file_def
  armRulesWatch_def armRulesWatchOn_def ensureRulesWatcher_def

lemma rules_wf_arm: "rules_wf s \<Longrightarrow> rules_wf (armRulesWatch s)"
  by (cases rule: rules_wf_cases, assumption) (auto simp: rules_wf_def watch_defs)

lemma rules_wf_dir_changed: "rules_wf s \<Longrightarrow> rules_wf (dir_changed s)"
  by (cases rule: rules_wf_cases, assumption) (auto simp: rules_wf_def watch_defs)

lemma rules_wf_put_file: "rules_wf s \<Longrightarrow> rw_dir s \<Longrightarrow> rules_wf (put_file lost c s)"
  by (cases rule: rules_wf_cases, assumption) (auto simp: rules_wf_def watch_defs put_file_def)

lemma rules_wf_dir: "rules_wf s \<Longrightarrow> rules_wf (s\<lparr>rw_dir := True\<rparr>)"
  by (cases rule: rules_wf_cases, assumption) (auto simp: rules_wf_def)

lemma rules_wf_modify: "rules_wf s \<Longrightarrow> rules_wf (external_modify c s)"
  by (cases rule: rules_wf_cases, assumption) (auto simp: rules_wf_def watch_defs external_modify_def)

lemma rules_wf_delete: "rules_wf s \<Longrightarrow> rules_wf (external_delete s)"
  by (cases rule: rules_wf_cases, assumption) (auto simp: rules_wf_def watch_defs external_delete_def)

lemma rules_wf_debounce:
  assumes "rules_wf s"
  shows "rules_wf (debounce_fires valid now s)"
  using assms
  by (cases rule: rules_wf_cases)
    (auto simp: rules_wf_def watch_defs debounce_fires_def reloadRulesNow_def rj_reload_rules_def
      set_label_def split: option.splits)

lemma rules_wf_reload:
  assumes "rules_wf s"
  shows "rules_wf (reloadRulesNow valid now s)"
  using assms
  by (cases rule: rules_wf_cases)
    (auto simp: rules_wf_def watch_defs reloadRulesNow_def rj_reload_rules_def
      set_label_def split: option.splits)

lemma rules_wf_toggle: "rules_wf s \<Longrightarrow> rules_wf (toggle_auto_reload b s)"
  by (cases rule: rules_wf_cases, assumption)
    (auto simp: rules_wf_def watch_defs toggle_auto_reload_def setAutoReloadEnabled_def
      onAutoReloadToggled_def label_defs Let_def)

lemma rules_wf_editor:
  assumes "rules_wf s"
  shows "rules_wf (openRulesInEditor io ok s)"
proof -
  define r where "r = (if rw_rules s = None then seedRulesFromTemplate io s else (True, s))"
  have r: "rules_wf (snd r)"
    using assms
    by (auto simp: r_def seedRulesFromTemplate_def Let_def intro: rules_wf_dir rules_wf_put_file
        split: option.split)
  have "rules_wf (armRulesWatch (ensureRulesWatcher t))" if "rules_wf t" "auto_reload t" for t
    using that by (cases rule: rules_wf_cases) (auto simp: rules_wf_def watch_defs)
  then show ?thesis
    using r unfolding openRulesInEditor_def r_def[symmetric]
    by (cases r) (auto simp: Let_def split: bool.split)
qed

lemma backup_rules_wf: "rules_wf s \<Longrightarrow> rules_wf (snd (backup_rules io s))"
proof -
  have keep: "rules_wf t \<Longrightarrow> rules_wf (t\<lparr>rw_backup := b\<rparr>)" for t b by (simp add: rules_wf_def)
  assume "rules_wf s"
  then show ?thesis
    by (auto simp: backup_rules_def Let_def intro: rules_wf_dir_changed keep split: option.split)
qed

lemma write_file_wf: "rules_wf s \<Longrightarrow> rules_wf (snd (write_file src io s))"
  by (auto simp: write_file_def Let_def intro: rules_wf_dir rules_wf_put_file split: option.split)

lemma write_validated_wf:
  assumes "rules_wf s"
  shows "rules_wf (snd (writeValidatedRules valid src src' io s))"
proof -
  have "rules_wf t" if "backup_rules io s = (b, t)" for b t
    using backup_rules_wf[OF assms, of io] that by simp
  moreover have "rules_wf u" if "write_file src' io t = (e, u)" "rules_wf t" for e t u
    using write_file_wf[OF that(2), of src' io] that(1) by simp
  ultimately show ?thesis
    using assms by (auto simp: writeValidatedRules_def intro!: rules_wf_reload rules_wf_arm
        split: option.split prod.split bool.split)
qed

lemma auto_reload_preset:
  "auto_reload (s\<lparr>rw_dialog := setVideoFps f (setVideoBitrateKbps k (rw_dialog s))\<rparr>) = auto_reload s"
  by (simp add: setVideoFps_def setVideoBitrateKbps_def set_bitrate_spin_def split: option.split)

lemma rules_wf_preset:
  "rules_wf s \<Longrightarrow> rules_wf (s\<lparr>rw_dialog := setVideoFps f (setVideoBitrateKbps k (rw_dialog s))\<rparr>)"
  by (rule rules_wf_cong) (simp_all only: auto_reload_preset, simp_all)

lemma rules_wf_step:
  assumes "rules_wf s"
  shows "rules_wf (rules_step valid resource i s)"
proof -
  have w: "rules_wf t" if "writeValidatedRules valid src src' io s = (e, t)" for src src' io e t
    using write_validated_wf[OF assms, of valid src src' io] that by simp
  show ?thesis
  proof (cases i)
    case (RiImport src src' io)
    then show ?thesis using w[of src src' io]
      by (auto simp: rules_step_def importRules_def split: prod.split option.split)
  next
    case (RiProfile p io)
    then show ?thesis using w[of "Some (resource p)" "Some (resource p)" io]
      by (auto simp: rules_step_def applyProfile_def Let_def intro: rules_wf_preset
          split: prod.split option.split)
  next
    case (RiExport chosen io)
    then show ?thesis using assms by (auto simp: rules_step_def exportRules_def split: option.split)
  next
    case (RiReplace lost c)
    then show ?thesis using assms
      by (auto simp: rules_step_def external_replace_def rules_wf_put_file)
  qed (use assms in \<open>auto simp: rules_step_def restore_auto_reload_def rules_wf_toggle rules_wf_editor
      rules_wf_debounce rules_wf_modify rules_wf_delete\<close>)
qed

lemma rules_run_simps [simp]:
  "rules_run valid resource [] s = s"
  "rules_run valid resource (i # is) s = rules_run valid resource is (rules_step valid resource i s)"
  by (simp_all add: rules_run_def)

interpretation rules_machine: always_kept "rules_step valid resource" rules_wf for valid resource
  by unfold_locales (rule rules_wf_step)

lemma rules_run_wf: "rules_wf s \<Longrightarrow> rules_wf (rules_run valid resource is s)"
  unfolding rules_run_def by (rule rules_machine.any_run_keeps)

lemma rules_wf_new: "rules_wf (rules_ui_new file dir engine dialog st)"
  by (auto simp: rules_wf_def rules_ui_new_def)

section \<open>The effect of an edit\<close>

lemma engine_watch_ops [simp]:
  "rw_engine (forget_file b s) = rw_engine s" "rw_engine (dir_changed s) = rw_engine s"
  "rw_engine (file_changed s) = rw_engine s" "rw_engine (armRulesWatch s) = rw_engine s"
  "rw_rules (forget_file b s) = rw_rules s" "rw_rules (dir_changed s) = rw_rules s"
  "rw_rules (file_changed s) = rw_rules s" "rw_rules (armRulesWatch s) = rw_rules s"
  "rw_backup (forget_file b s) = rw_backup s" "rw_backup (dir_changed s) = rw_backup s"
  "rw_backup (file_changed s) = rw_backup s" "rw_backup (armRulesWatch s) = rw_backup s"
  "rw_dir (forget_file b s) = rw_dir s" "rw_dir (dir_changed s) = rw_dir s"
  "rw_dir (file_changed s) = rw_dir s" "rw_dir (armRulesWatch s) = rw_dir s"
  by (auto simp: watch_defs split: option.split)

lemma debounce_engine:
  assumes "rw_debounce s = Some True" and "rw_rules s = Some c"
  shows "rw_engine (debounce_fires valid now s) = (if valid c then Some c else rw_engine s)"
    and "rw_label_red (debounce_fires valid now s) = (\<not> valid c)"
  using assms
  by (simp_all add: debounce_fires_def reloadRulesNow_def rj_reload_rules_def set_label_def)

lemma debounce_idle: "rw_debounce s \<noteq> Some True \<Longrightarrow> debounce_fires valid now s = s"
  by (simp add: debounce_fires_def)

lemma edit_debounce:
  assumes "rules_wf s"
  shows "rw_dir s \<Longrightarrow> (rw_debounce (put_file lost c s) = Some True) = watching s"
    and "rw_rules s \<noteq> None \<Longrightarrow> (rw_debounce (external_modify c s) = Some True) = watching s"
  using assms
  by (cases rule: rules_wf_cases;
      auto simp: put_file_def external_modify_def watch_defs watching_def)+

text \<open>An edit of an existing file, by renaming or in place, then the end of the quiet period.\<close>

definition edit_and_wait ::
  "(string \<Rightarrow> bool) \<Rightarrow> (profile_id \<Rightarrow> string) \<Rightarrow> bool \<Rightarrow> bool \<Rightarrow> string \<Rightarrow> string \<Rightarrow> rules_ui \<Rightarrow> rules_ui" where
  "edit_and_wait valid resource in_place lost c now s =
     rules_run valid resource [if in_place then RiModify c else RiReplace lost c, RiDebounce now] s"

lemma edit_engine:
  assumes "rules_wf s" and "rw_rules s \<noteq> None"
  shows "rw_engine (edit_and_wait valid resource in_place lost c now s)
    = (if watching s \<and> valid c then Some c else rw_engine s)"
proof -
  have dir: "rw_dir s" using assms by (cases rule: rules_wf_cases) auto
  let ?t = "if in_place then external_modify c s else put_file lost c s"
  have t: "edit_and_wait valid resource in_place lost c now s = debounce_fires valid now ?t"
    using dir by (simp add: edit_and_wait_def rules_step_def external_replace_def)
  have "rw_rules ?t = Some c" "rw_engine ?t = rw_engine s"
    using assms(2) by (auto simp: external_modify_def put_file_def)
  moreover have "(rw_debounce ?t = Some True) = watching s"
    using edit_debounce[OF assms(1)] dir assms(2) by auto
  ultimately show ?thesis unfolding t
    by (cases "watching s") (simp_all add: debounce_engine debounce_idle)
qed

lemma watching_on: "rules_wf s \<Longrightarrow> watching s \<Longrightarrow> auto_reload s"
  by (cases rule: rules_wf_cases, assumption) (auto simp: watching_def)

section \<open>The effect of an import\<close>

lemma backup_rules_keeps:
  assumes "backup_rules io s = (b, t)"
  shows "rw_rules t = rw_rules s" "rw_engine t = rw_engine s" "rw_dialog t = rw_dialog s"
  using assms
  by (auto simp: backup_rules_def dir_changed_def onRulesPathChanged_def Let_def
      split: option.splits if_splits)

lemma backup_rules_done:
  assumes "backup_rules io s = (True, t)" and "rw_rules s = Some c"
  shows "rw_backup t = Some c"
  using assms by (auto simp: backup_rules_def Let_def split: option.splits if_splits)

lemma write_file_fails:
  assumes "write_file src io s = (Some e, t)"
  shows "rw_rules t = rw_rules s" "rw_engine t = rw_engine s" "rw_backup t = rw_backup s"
    "rw_dialog t = rw_dialog s"
  using assms by (auto simp: write_file_def Let_def split: option.splits if_splits)

lemma put_file_dialog [simp]: "rw_dialog (put_file lost c s) = rw_dialog s"
  by (simp add: put_file_def forget_file_def dir_changed_def file_changed_def onRulesPathChanged_def)

lemma write_file_done:
  assumes "write_file src io s = (None, t)"
  shows "rw_rules t = src" "rw_engine t = rw_engine s" "rw_backup t = rw_backup s"
    "rw_dialog t = rw_dialog s"
  using assms by (auto simp: write_file_def Let_def put_file_def[of "io_lost io"] split: option.splits if_splits)
    (simp_all add: forget_file_def dir_changed_def file_changed_def onRulesPathChanged_def)

lemma reload_keeps:
  "rw_rules (reloadRulesNow valid now s) = rw_rules s"
  "rw_backup (reloadRulesNow valid now s) = rw_backup s"
  by (auto simp: reloadRulesNow_def rj_reload_rules_def set_label_def split: option.split)

lemma reload_engine:
  "rw_engine (reloadRulesNow valid now s) =
     (case rw_rules s of Some c \<Rightarrow> if valid c then Some c else rw_engine s | None \<Rightarrow> rw_engine s)"
  by (simp add: reloadRulesNow_def rj_reload_rules_def set_label_def split: option.split)

lemma auto_reload_arm [simp]: "auto_reload (armRulesWatch s) = auto_reload s"
  by (simp add: armRulesWatch_def split: option.split)

definition import_outcome ::
  "(string \<Rightarrow> bool) \<Rightarrow> string option \<Rightarrow> string option \<Rightarrow> rules_ui \<Rightarrow> rules_error option \<times> rules_ui \<Rightarrow> bool" where
  "import_outcome valid src src' s r = (case r of
       (Some e, t) \<Rightarrow> rw_rules t = rw_rules s \<and> rw_engine t = rw_engine s
     | (None, t) \<Rightarrow>
         rw_rules t = src' \<and> (case src of Some c \<Rightarrow> valid c | None \<Rightarrow> False) \<and>
         (case rw_rules s of Some old \<Rightarrow> rw_backup t = Some old | None \<Rightarrow> rw_backup t = rw_backup s) \<and>
         rw_engine t = (case src' of
             Some c \<Rightarrow> if valid c \<and> \<not> auto_reload s then Some c else rw_engine s
           | None \<Rightarrow> rw_engine s))"

lemma validate_ok: "validateRulesFile valid src io = None \<Longrightarrow> \<exists>c. src = Some c \<and> valid c"
  by (auto simp: validateRulesFile_def split: option.splits if_splits)

lemma write_validated_outcome:
  "import_outcome valid src src' s (writeValidatedRules valid src src' io s)"
proof (cases "validateRulesFile valid src io")
  case (Some e)
  then show ?thesis by (simp add: writeValidatedRules_def import_outcome_def)
next
  case None
  note v = this
  obtain b t where b: "backup_rules io s = (b, t)" by (cases "backup_rules io s")
  note bk = backup_rules_keeps[OF b]
  show ?thesis
  proof (cases b)
    case False
    with b v bk show ?thesis by (simp add: writeValidatedRules_def import_outcome_def)
  next
    case True
    obtain e u where w: "write_file src' io t = (e, u)" by (cases "write_file src' io t")
    show ?thesis
    proof (cases e)
      case (Some x)
      with b v w True bk write_file_fails[of src' io t x u] show ?thesis
        by (simp add: writeValidatedRules_def import_outcome_def)
    next
      case None
      with w have w': "write_file src' io t = (None, u)" by simp
      have kept: "case rw_rules s of Some old \<Rightarrow> rw_backup t = Some old | None \<Rightarrow> rw_backup t = rw_backup s"
        using b True backup_rules_done[of io s t] by (auto simp: backup_rules_def split: option.split)
      obtain c where c: "src = Some c" "valid c" using validate_ok[OF v] by blast
      show ?thesis
        using b v w' True c kept bk write_file_done[OF w']
        by (cases "auto_reload s"; cases "rw_rules s")
          (auto simp: writeValidatedRules_def import_outcome_def reload_keeps reload_engine
            split: option.split)
    qed
  qed
qed

section \<open>Behaviour at the edges\<close>

definition all_ok :: rules_io where
  "all_ok = \<lparr>io_open1 = True, io_tmp = True, io_tmp_write = True, io_remove = True, io_copy = True,
     io_mkpath = True, io_open2 = True, io_save_open = True, io_commit = True, io_lost = True, io_now = []\<rparr>"

lemmas import_path_defs = rules_step_def importRules_def writeValidatedRules_def validateRulesFile_def
  backup_rules_def write_file_def put_file_def watch_defs label_defs all_ok_def rules_ui_new_def
  toggle_auto_reload_def setAutoReloadEnabled_def onAutoReloadToggled_def debounce_fires_def Let_def

text \<open>The check box was ticked before the directory existed, so nothing is watched; the import
  then creates the directory and the file, leaves the reload to the watcher, and says so. The
  engine never runs the imported rules.\<close>

lemma import_before_directory_is_never_loaded:
  assumes "valid c"
  shows "let s = rules_run valid resource [RiToggle True, RiImport (Some c) (Some c) all_ok, RiDebounce now]
             (rules_ui_new None False engine dialog st) in
    rw_rules s = Some c \<and> rw_label s = RlImporting \<and> rw_engine s = engine \<and> \<not> watching s"
  using assms by (simp add: import_path_defs watching_def)

text \<open>Without the check box the import loads the rules itself, but the label that reports it
  (or the failure of the load) has never been shown.\<close>

lemma import_report_is_invisible:
  assumes "valid c"
  shows "let s = rules_run valid resource [RiImport (Some c) (Some c) all_ok]
             (rules_ui_new file dir engine dialog st) in
    rw_engine s = Some c \<and> rw_label s = RlReloaded [] \<and> \<not> rw_label_shown s"
  using assms
  by (cases "file :: string option") (simp_all add: import_path_defs reloadRulesNow_def rj_reload_rules_def)

text \<open>The old backup is removed before the new one is made: when the copy fails, the import
  stops with the rules intact and without any backup.\<close>

lemma failed_copy_loses_backup:
  assumes "valid c"
  shows "rw_backup (rules_step valid resource (RiImport (Some c) (Some c) (all_ok\<lparr>io_copy := False\<rparr>))
     ((rules_ui_new (Some old) True engine dialog st)\<lparr>rw_backup := Some older\<rparr>)) = None"
  using assms by (simp add: import_path_defs)

text \<open>The source is read again after its validation: what is installed need not be what was
  validated.\<close>

lemma import_installs_unvalidated_content:
  assumes "valid c" and "\<not> valid c'"
  shows "rw_rules (rules_step valid resource (RiImport (Some c) (Some c') all_ok)
     (rules_ui_new None True engine dialog st)) = Some c'"
  using assms by (simp add: import_path_defs reloadRulesNow_def rj_reload_rules_def)

section \<open>Properties\<close>


text \<open>C14: Installing a rule set is all or nothing: whatever fails (reading, the temporary copy,
  validation, the backup, the directory, the atomic save), the rules file and the running engine
  are untouched; on success the source was validated, the file holds what was read from it, the
  previous file is in the backup, and without the watcher the engine runs the new file if it is
  valid.\<close>

theorem install_all_or_nothing:
  "case writeValidatedRules valid src src' io s of
     (Some e, t) \<Rightarrow> rw_rules t = rw_rules s \<and> rw_engine t = rw_engine s
   | (None, t) \<Rightarrow>
       rw_rules t = src' \<and> (case src of Some c \<Rightarrow> valid c | None \<Rightarrow> False) \<and>
       (case rw_rules s of Some old \<Rightarrow> rw_backup t = Some old | None \<Rightarrow> rw_backup t = rw_backup s) \<and>
       rw_engine t = (case src' of
           Some c \<Rightarrow> if valid c \<and> \<not> auto_reload s then Some c else rw_engine s
         | None \<Rightarrow> rw_engine s)"
  using write_validated_outcome[of valid src src' s io] unfolding import_outcome_def .


end
