(* ===== verification/GlObjects.thy ===== *)
theory GlObjects
  imports Float32 Steps
begin

text \<open>
  What the two monitor widgets use of OpenGL: names of textures, their storage and their pixels.
  \<open>glGenTextures\<close> hands out a new name (never 0), \<open>glTexImage2D\<close> gives a texture storage of the size
  asked for, \<open>glTexSubImage2D\<close> writes a rectangle into existing storage and is refused when the
  rectangle does not fit. Pixels are bytes, four to a pixel, rows packed one after the other.
\<close>

type_synonym bytes = "u8 list"

record texture =
  tt_w :: int
  tt_h :: int
  tt_rows :: "bytes list"

record gl =
  gl_next :: nat
  gl_tex :: "nat \<Rightarrow> texture option"

definition gl_new :: gl where "gl_new = \<lparr>gl_next = 1, gl_tex = (\<lambda>n. None)\<rparr>"

definition gl_gen :: "gl \<Rightarrow> nat \<times> gl" where
  "gl_gen g = (gl_next g, g\<lparr>gl_next := Suc (gl_next g),
     gl_tex := (gl_tex g)(gl_next g \<mapsto> \<lparr>tt_w = 0, tt_h = 0, tt_rows = []\<rparr>)\<rparr>)"

definition gl_delete :: "nat \<Rightarrow> gl \<Rightarrow> gl" where
  "gl_delete n g = g\<lparr>gl_tex := (gl_tex g)(n := None)\<rparr>"

definition gl_release :: "nat \<Rightarrow> gl \<Rightarrow> gl" where
  "gl_release n g = (if n \<noteq> 0 then gl_delete n g else g)"

text \<open>The rows GL reads from client memory: packed, without any row pitch.\<close>

definition gl_rows :: "int \<Rightarrow> int \<Rightarrow> bytes \<Rightarrow> bytes list" where
  "gl_rows w h data = map (\<lambda>y. take (nat w * 4) (drop (y * (nat w * 4)) data)) [0..<nat h]"

definition gl_tex_image :: "nat \<Rightarrow> int \<Rightarrow> int \<Rightarrow> bytes \<Rightarrow> gl \<Rightarrow> gl" where
  "gl_tex_image n w h data g =
     g\<lparr>gl_tex := (gl_tex g)(n \<mapsto> \<lparr>tt_w = w, tt_h = h, tt_rows = gl_rows w h data\<rparr>)\<rparr>"

definition overlay_row :: "bytes \<Rightarrow> bytes \<Rightarrow> bytes" where
  "overlay_row new old = new @ drop (length new) old"

definition gl_sub_image :: "nat \<Rightarrow> int \<Rightarrow> int \<Rightarrow> bytes \<Rightarrow> gl \<Rightarrow> gl" where
  "gl_sub_image n w h data g =
     (case gl_tex g n of
        None \<Rightarrow> g
      | Some t \<Rightarrow>
          if w \<le> tt_w t \<and> h \<le> tt_h t then
            g\<lparr>gl_tex := (gl_tex g)(n \<mapsto> t\<lparr>tt_rows :=
                map2 overlay_row (gl_rows w h data) (take (nat h) (tt_rows t)) @ drop (nat h) (tt_rows t)\<rparr>)\<rparr>
          else g)"

definition gl_live :: "gl \<Rightarrow> nat set" where "gl_live g = dom (gl_tex g)"

definition gl_ok :: "gl \<Rightarrow> bool" where
  "gl_ok g \<longleftrightarrow> 0 < gl_next g \<and> (\<forall>n \<in> gl_live g. 0 < n \<and> n < gl_next g)"

lemma gl_ok_new [simp]: "gl_ok gl_new" "gl_live gl_new = {}"
  by (simp_all add: gl_ok_def gl_new_def gl_live_def)

lemma gl_gen_fresh:
  assumes "gl_gen g = (n, g')" and "gl_ok g"
  shows "n \<noteq> 0" "n \<notin> gl_live g" "gl_live g' = insert n (gl_live g)" "gl_ok g'"
  using assms by (auto simp: gl_gen_def gl_live_def gl_ok_def split: if_splits)
    (meson domI less_SucI)

text \<open>Two names own the live textures, \<open>0\<close> standing for none.\<close>

definition owns2 :: "gl \<Rightarrow> nat \<Rightarrow> nat \<Rightarrow> bool" where
  "owns2 g a b \<longleftrightarrow> gl_ok g \<and> gl_live g = {a, b} - {0} \<and> (a = b \<longrightarrow> a = 0)"

lemma owns2_swap: "owns2 g a b \<Longrightarrow> owns2 g b a"
  by (auto simp: owns2_def)

lemma gl_delete_live [simp]: "gl_live (gl_delete n g) = gl_live g - {n}"
  by (auto simp: gl_delete_def gl_live_def)

lemma gl_release_live [simp]: "gl_ok g \<Longrightarrow> gl_live (gl_release n g) = gl_live g - {n}"
  by (auto simp: gl_release_def gl_ok_def)

lemma gl_ok_delete [simp]: "gl_ok g \<Longrightarrow> gl_ok (gl_delete n g)"
  by (auto simp: gl_ok_def) (simp_all add: gl_delete_def)

lemma gl_ok_release [simp]: "gl_ok g \<Longrightarrow> gl_ok (gl_release n g)"
  by (simp add: gl_release_def)

lemma gl_tex_image_live [simp]: "n \<in> gl_live g \<Longrightarrow> gl_live (gl_tex_image n w h data g) = gl_live g"
  by (auto simp: gl_tex_image_def gl_live_def)

lemma gl_sub_image_live [simp]: "gl_live (gl_sub_image n w h data g) = gl_live g"
  by (auto simp: gl_sub_image_def gl_live_def split: option.splits)

lemma gl_ok_image [simp]: "n \<in> gl_live g \<Longrightarrow> gl_ok g \<Longrightarrow> gl_ok (gl_tex_image n w h data g)"
  by (simp add: gl_ok_def) (simp add: gl_tex_image_def)

lemma gl_ok_sub_image [simp]: "gl_ok g \<Longrightarrow> gl_ok (gl_sub_image n w h data g)"
  by (simp add: gl_ok_def) (simp add: gl_sub_image_def split: option.split)

lemma length_gl_rows [simp]: "length (gl_rows w h data) = nat h"
  by (simp add: gl_rows_def)

lemma gl_rows_nth: "y < nat h \<Longrightarrow> gl_rows w h data ! y = take (nat w * 4) (drop (y * (nat w * 4)) data)"
  by (simp add: gl_rows_def)

lemma gl_rows_length:
  assumes "nat w * 4 * nat h \<le> length data" and "r \<in> set (gl_rows w h data)"
  shows "length r = nat w * 4"
proof -
  obtain y where y: "y < nat h" "r = take (nat w * 4) (drop (y * (nat w * 4)) data)"
    using assms(2) by (auto simp: gl_rows_def)
  have "(y + 1) * (nat w * 4) \<le> nat h * (nat w * 4)" using y(1) by (intro mult_le_mono1) simp
  then have "y * (nat w * 4) + nat w * 4 \<le> nat w * 4 * nat h" by (simp add: algebra_simps)
  then show ?thesis using assms(1) y(2) by simp
qed

lemma owns2_sub_image: "owns2 g a b \<Longrightarrow> owns2 (gl_sub_image n w h data g) a b"
  by (simp add: owns2_def)

lemma owns2_regen:
  assumes "owns2 g a b" and "gl_gen (gl_release a g) = (n, g')"
  shows "owns2 (gl_tex_image n w h data g') n b"
proof -
  have ok: "gl_ok g" and lv: "gl_live g = {a, b} - {0}" and ab: "a = b \<longrightarrow> a = 0"
    using assms(1) by (simp_all add: owns2_def)
  note fresh = gl_gen_fresh[OF assms(2) gl_ok_release[OF ok]]
  have "gl_live (gl_release a g) = {b} - {0}" using ok lv ab by auto
  then have "gl_live g' = insert n ({b} - {0})" "n \<notin> {b} - {0}" using fresh by auto
  then show ?thesis using fresh(1,4) by (auto simp: owns2_def)
qed

lemma owns2_release_both: "owns2 g a b \<Longrightarrow> gl_live (gl_release b (gl_release a g)) = {}"
  by (auto simp: owns2_def)

text \<open>A full rectangle replaces all pixels.\<close>

lemma map2_overlay_full:
  assumes "length xs = length ys" and "\<forall>r \<in> set xs. length r = k" and "\<forall>r \<in> set ys. length r = k"
  shows "map2 overlay_row xs ys = xs"
  using assms by (induction xs ys rule: list_induct2) (auto simp: overlay_row_def)

end
