(* ===== verification/ProgramWidget.thy ===== *)
theory ProgramWidget
  imports GlObjects
begin

text \<open>
  The program monitor (\<open>src/src/ui/program_widget.cpp\<close>): frames uploaded by the pipeline, cut and
  fade transitions, the animation timer, painting. Single precision arithmetic is rounded by
  \<open>f32\<close>. What is painted is the texture (or the two textures and the mix) the draw call uses.
\<close>

section \<open>State and operations\<close>

datatype transition = Cut | Fade

record program =
  pg_tex_a :: nat
  pg_tex_b :: nat
  pg_w :: int
  pg_h :: int
  pg_pending :: "(int \<times> int \<times> bytes) option"
  pg_dirty :: bool
  pg_requested :: bool
  pg_transition :: transition
  pg_alpha :: rat
  pg_step :: rat
  pg_timer :: bool
  pg_gl :: gl

definition program_new :: program where
  "program_new = \<lparr>pg_tex_a = 0, pg_tex_b = 0, pg_w = 0, pg_h = 0, pg_pending = None, pg_dirty = False,
     pg_requested = False, pg_transition = Cut, pg_alpha = 1, pg_step = 0, pg_timer = False,
     pg_gl = gl_new\<rparr>"

text \<open>The copy into the image goes row by row, with the pitch of the source.\<close>

definition pack_rows :: "int \<Rightarrow> int \<Rightarrow> int \<Rightarrow> bytes \<Rightarrow> bytes" where
  "pack_rows width height row_pitch src =
     concat (map (\<lambda>y. take (nat width * 4) (drop (y * nat row_pitch) src)) [0..<nat height])"

definition uploadFrame :: "bytes \<Rightarrow> int \<Rightarrow> int \<Rightarrow> int \<Rightarrow> program \<Rightarrow> program" where
  "uploadFrame bgra width height row_pitch s =
     s\<lparr>pg_pending := Some (width, height, pack_rows width height row_pitch bgra), pg_dirty := True\<rparr>"

definition fade_step_of :: "int \<Rightarrow> rat" where
  "fade_step_of duration_ms =
     (if duration_ms > 0 then f32 (16 / f32 (rat_of_int duration_ms)) else 1)"

definition beginTransition :: "transition \<Rightarrow> int \<Rightarrow> program \<Rightarrow> program" where
  "beginTransition ty duration_ms s =
     (if ty = Cut then s\<lparr>pg_transition := Cut, pg_requested := True, pg_alpha := 1\<rparr>
      else s\<lparr>pg_transition := Fade, pg_requested := True, pg_alpha := 0,
             pg_step := fade_step_of duration_ms, pg_timer := True\<rparr>)"

definition advanceTransition :: "program \<Rightarrow> program" where
  "advanceTransition s =
     (let a = min 1 (f32 (pg_alpha s + pg_step s)) in
      if a \<ge> 1 then s\<lparr>pg_alpha := 1, pg_timer := False\<rparr> else s\<lparr>pg_alpha := a\<rparr>)"

definition swap_textures :: "program \<Rightarrow> program" where
  "swap_textures s =
     (if pg_requested s then s\<lparr>pg_requested := False, pg_tex_a := pg_tex_b s, pg_tex_b := pg_tex_a s\<rparr>
      else s)"

definition upload_pending :: "program \<Rightarrow> program" where
  "upload_pending s =
     (case (pg_dirty s, pg_pending s) of
        (True, Some (w, h, data)) \<Rightarrow>
          if pg_tex_a s = 0 \<or> w \<noteq> pg_w s \<or> h \<noteq> pg_h s then
            (case gl_gen (gl_release (pg_tex_a s) (pg_gl s)) of (n, g) \<Rightarrow>
               s\<lparr>pg_tex_a := n, pg_w := w, pg_h := h, pg_gl := gl_tex_image n w h data g, pg_dirty := False\<rparr>)
          else s\<lparr>pg_gl := gl_sub_image (pg_tex_a s) w h data (pg_gl s), pg_dirty := False\<rparr>
      | _ \<Rightarrow> s)"

datatype painted = Black | Single nat | Mix nat nat rat

definition draw :: "program \<Rightarrow> painted" where
  "draw s =
     (if pg_tex_a s = 0 then Black
      else if pg_transition s = Fade \<and> pg_alpha s < 1 \<and> pg_tex_b s \<noteq> 0 then
        Mix (pg_tex_b s) (pg_tex_a s) (pg_alpha s)
      else Single (pg_tex_a s))"

definition paintGL :: "program \<Rightarrow> painted \<times> program" where
  "paintGL s = (let s = upload_pending (swap_textures s) in (draw s, s))"

definition program_destroy :: "program \<Rightarrow> program" where
  "program_destroy s = s\<lparr>pg_gl := gl_release (pg_tex_b s) (gl_release (pg_tex_a s) (pg_gl s))\<rparr>"

datatype program_input =
    PgFrame bytes int int int
  | PgTransition transition int
  | PgTick
  | PgPaint

definition program_step :: "program_input \<Rightarrow> program \<Rightarrow> program" where
  "program_step i s = (case i of
       PgFrame bgra w h pitch \<Rightarrow> uploadFrame bgra w h pitch s
     | PgTransition ty ms \<Rightarrow> beginTransition ty ms s
     | PgTick \<Rightarrow> if pg_timer s then advanceTransition s else s
     | PgPaint \<Rightarrow> snd (paintGL s))"

definition program_run :: "program_input list \<Rightarrow> program \<Rightarrow> program" where
  "program_run is s = fold program_step is s"

lemma program_run_simps [simp]:
  "program_run [] s = s"
  "program_run (i # is) s = program_run is (program_step i s)"
  by (simp_all add: program_run_def)

section \<open>Textures are owned\<close>

definition program_owns :: "program \<Rightarrow> bool" where
  "program_owns s = owns2 (pg_gl s) (pg_tex_a s) (pg_tex_b s)"

lemma program_owns_new: "program_owns program_new"
  by (simp add: program_owns_def program_new_def owns2_def)

lemma program_owns_swap: "program_owns s \<Longrightarrow> program_owns (swap_textures s)"
  by (simp add: program_owns_def swap_textures_def owns2_swap)

lemma program_owns_upload: "program_owns s \<Longrightarrow> program_owns (upload_pending s)"
  by (simp add: program_owns_def upload_pending_def owns2_sub_image owns2_regen
      split: option.split bool.split prod.split)

lemma program_owns_step: "program_owns s \<Longrightarrow> program_owns (program_step i s)"
  by (cases i) (simp_all add: program_step_def paintGL_def Let_def program_owns_upload program_owns_swap,
      simp_all add: uploadFrame_def beginTransition_def advanceTransition_def program_owns_def Let_def)

interpretation program_machine: always_kept program_step program_owns
  by unfold_locales (rule program_owns_step)

lemma program_owns_run: "program_owns s \<Longrightarrow> program_owns (program_run is s)"
  unfolding program_run_def by (rule program_machine.any_run_keeps)

lemma program_destroy_live: "program_owns s \<Longrightarrow> gl_live (pg_gl (program_destroy s)) = {}"
  by (simp add: program_owns_def program_destroy_def owns2_release_both)

section \<open>The fade ends\<close>

definition eps :: rat where "eps = 1 / 2 ^ 24"

lemma eps_bounds: "0 < eps" "eps < 1" by (simp_all add: eps_def)

lemma f32_lower_eps: "0 \<le> x \<Longrightarrow> x * (1 - eps) \<le> f32 x"
  using f32_lower[of x] by (simp add: eps_def)

lemma fade_step_lower:
  assumes "0 < d" and "d \<le> 16000"
  shows "16 / rat_of_int d * (1 - eps) \<le> fade_step_of d" and "0 < fade_step_of d"
proof -
  have "f32 (rat_of_nat (nat d)) = rat_of_nat (nat d)" by (rule f32_of_nat_exact) (use assms in simp)
  then have "f32 (rat_of_int d) = rat_of_int d" using assms(1) by simp
  then show le: "16 / rat_of_int d * (1 - eps) \<le> fade_step_of d"
    using f32_lower_eps[of "16 / rat_of_int d"] assms(1) by (simp add: fade_step_of_def)
  have "0 < 16 / rat_of_int d * (1 - eps)" using assms(1) eps_bounds by simp
  then show "0 < fade_step_of d" using le by linarith
qed

text \<open>After \<open>n\<close> ticks the mix is at least \<open>n\<close> steps less the rounding, or the fade is over.\<close>

lemma alpha_lower:
  assumes "0 \<le> pg_alpha s" and "0 \<le> pg_step s"
  shows "min 1 ((pg_alpha s + pg_step s) * (1 - eps)) \<le> pg_alpha (advanceTransition s)"
    and "pg_step (advanceTransition s) = pg_step s"
    and "pg_timer (advanceTransition s) = (if pg_alpha (advanceTransition s) < 1 then pg_timer s else False)"
  using f32_lower_eps[of "pg_alpha s + pg_step s"] assms
  by (auto simp: advanceTransition_def Let_def min_def)

lemma program_run_append: "program_run (xs @ ys) s = program_run ys (program_run xs s)"
  by (simp add: program_run_def)

lemma ticks_Suc:
  "program_run (replicate (Suc n) i) s = program_step i (program_run (replicate n i) s)"
proof -
  have "replicate (Suc n) i = replicate n i @ [i]" by (simp add: replicate_append_same)
  then show ?thesis by (simp only: program_run_append program_run_simps)
qed

definition fading_at :: "nat \<Rightarrow> rat \<Rightarrow> program \<Rightarrow> bool" where
  "fading_at n st s \<longleftrightarrow> pg_step s = st \<and>
     (pg_alpha s = 1 \<and> \<not> pg_timer s \<or>
      pg_timer s \<and> 0 \<le> pg_alpha s \<and> pg_alpha s < 1 \<and> of_nat n * st * (1 - of_nat n * eps) \<le> pg_alpha s)"

lemma fading_step_arith:
  fixes a st :: rat
  assumes "of_nat n * st * (1 - of_nat n * eps) \<le> a" and "0 \<le> st"
  shows "of_nat (Suc n) * st * (1 - of_nat (Suc n) * eps) \<le> (a + st) * (1 - eps)"
proof -
  let ?n = "of_nat n :: rat"
  have "(?n * st * (1 - ?n * eps) + st) * (1 - eps) - (?n + 1) * st * (1 - (?n + 1) * eps)
      = st * eps * ?n + st * (?n * ?n) * (eps * eps)"
    by (simp add: algebra_simps)
  also have "0 \<le> \<dots>" using assms(2) eps_bounds by simp
  finally have "(?n + 1) * st * (1 - (?n + 1) * eps) \<le> (?n * st * (1 - ?n * eps) + st) * (1 - eps)" by simp
  also have "\<dots> \<le> (a + st) * (1 - eps)"
    by (rule mult_right_mono) (use assms(1) eps_bounds in simp_all)
  finally show ?thesis by (simp add: algebra_simps)
qed

lemma fading_tick:
  assumes "fading_at n st s" and "0 \<le> st"
  shows "fading_at (Suc n) st (program_step PgTick s)"
proof (cases "pg_timer s")
  case False
  then show ?thesis using assms(1) by (simp add: fading_at_def program_step_def)
next
  case True
  then have s: "pg_step s = st" "0 \<le> pg_alpha s" "pg_alpha s < 1"
    "of_nat n * st * (1 - of_nat n * eps) \<le> pg_alpha s"
    using assms(1) by (auto simp: fading_at_def)
  let ?x = "f32 (pg_alpha s + st)"
  have x: "(pg_alpha s + st) * (1 - eps) \<le> ?x" "0 \<le> ?x"
    using f32_lower_eps[of "pg_alpha s + st"] f32_nonneg s assms(2) by simp_all
  have "of_nat (Suc n) * st * (1 - of_nat (Suc n) * eps) \<le> ?x"
    using fading_step_arith[OF s(4) assms(2)] x(1) by (rule order_trans)
  then show ?thesis
    using True s x(2) by (simp add: fading_at_def program_step_def advanceTransition_def Let_def min_def)
qed

lemma fading_ticks:
  assumes "pg_alpha s = 0" and "pg_timer s" and "0 \<le> pg_step s"
  shows "fading_at n (pg_step s) (program_run (replicate n PgTick) s)"
proof (induction n)
  case 0
  then show ?case using assms by (simp add: fading_at_def)
next
  case (Suc n)
  then show ?case unfolding ticks_Suc by (rule fading_tick[OF _ assms(3)])
qed

lemma enough_ticks:
  fixes d :: int
  assumes "0 < d" and "d \<le> 16000"
  shows "1 \<le> of_nat (nat d div 16 + 1) * fade_step_of d * (1 - of_nat (nat d div 16 + 1) * eps)"
proof -
  define n where "n = nat d div 16 + 1"
  let ?n = "of_nat n :: rat" and ?d = "rat_of_int d"
  have "nat d \<le> 16000" using assms(2) by simp
  then have "n \<le> 1001" using div_le_mono[of "nat d" 16000 16] by (simp add: n_def)
  then have n2: "int n \<le> 1001" by simp
  have "nat d < 16 * n" using dividend_less_times_div[of 16 "nat d"] by (simp add: n_def)
  then have n1: "d + 1 \<le> 16 * int n" using assms(1) by linarith
  have d: "0 < ?d" "?d \<le> 16000" using assms by simp_all
  have "rat_of_int (d + 1) \<le> rat_of_int (16 * int n)" using n1 by (simp only: of_int_le_iff)
  then have r1: "?d + 1 \<le> 16 * ?n" by simp
  have "rat_of_int (int n) \<le> rat_of_int 1001" using n2 by (simp only: of_int_le_iff)
  then have r2: "?n \<le> 1001" by simp
  have ne: "(?n + 1) * eps \<le> 1 / (?d + 1)"
  proof -
    have "(?n + 1) * (?d + 1) \<le> 1002 * 16001"
    proof (rule mult_mono)
      show "?n + 1 \<le> 1002" using r2 by linarith
      show "?d + 1 \<le> 16001" using d by linarith
      show "0 \<le> ?d + 1" using d by linarith
    qed simp
    then have "(?n + 1) * (?d + 1) * eps \<le> 1002 * 16001 * eps"
      by (rule mult_right_mono) (rule less_imp_le[OF eps_bounds(1)])
    also have "\<dots> \<le> 1" by (simp add: eps_def)
    finally have "(?n + 1) * eps * (?d + 1) \<le> 1" by (simp only: mult_ac)
    then show ?thesis using d by (simp only: pos_le_divide_eq[of "?d + 1" "(?n + 1) * eps" 1])
  qed
  have pos: "0 < ?d + 1" using d by linarith
  have "1 = (?d + 1) / ?d * (1 - 1 / (?d + 1))"
  proof -
    have "1 - 1 / (?d + 1) = ?d / (?d + 1)" using pos by (simp add: diff_divide_eq_iff)
    then show ?thesis using d pos by simp
  qed
  also have "\<dots> \<le> (16 * ?n / ?d) * (1 - (?n + 1) * eps)"
  proof (rule mult_mono)
    show "(?d + 1) / ?d \<le> 16 * ?n / ?d" using r1 d by (simp add: divide_right_mono)
    show "0 \<le> 1 - 1 / (?d + 1)" using d pos by (simp add: divide_le_eq)
    show "1 - 1 / (?d + 1) \<le> 1 - (?n + 1) * eps" using ne by linarith
    show "0 \<le> 16 * ?n / ?d" using d by simp
  qed
  also have "\<dots> \<le> (16 * ?n / ?d) * ((1 - eps) * (1 - ?n * eps))"
  proof (rule mult_left_mono)
    have "(1 - eps) * (1 - ?n * eps) = 1 - (?n + 1) * eps + ?n * (eps * eps)" by (simp add: algebra_simps)
    then show "1 - (?n + 1) * eps \<le> (1 - eps) * (1 - ?n * eps)" using eps_bounds(1) by simp
    show "0 \<le> 16 * ?n / ?d" using d by simp
  qed
  also have "\<dots> = ?n * (16 / ?d * (1 - eps)) * (1 - ?n * eps)" by simp
  also have "\<dots> \<le> ?n * fade_step_of d * (1 - ?n * eps)"
  proof (rule mult_right_mono)
    show "?n * (16 / ?d * (1 - eps)) \<le> ?n * fade_step_of d"
      by (rule mult_left_mono) (use fade_step_lower(1)[OF assms] in simp_all)
    have "?n * eps \<le> 1001 * eps" by (rule mult_right_mono[OF r2 less_imp_le[OF eps_bounds(1)]])
    also have "\<dots> \<le> 1" by (simp add: eps_def)
    finally show "0 \<le> 1 - ?n * eps" by simp
  qed
  finally show ?thesis unfolding n_def .
qed

section \<open>What is shown\<close>

definition source_rows :: "int \<Rightarrow> int \<Rightarrow> int \<Rightarrow> bytes \<Rightarrow> bytes list" where
  "source_rows w h pitch src = map (\<lambda>y. take (nat w * 4) (drop (y * nat pitch) src)) [0..<nat h]"

definition frame_ok :: "int \<Rightarrow> int \<Rightarrow> int \<Rightarrow> bytes \<Rightarrow> bool" where
  "frame_ok w h pitch src \<longleftrightarrow> 0 < w \<and> 0 < h \<and> 4 * w \<le> pitch \<and> nat h * nat pitch \<le> length src"

lemma length_source_rows: "length (source_rows w h pitch src) = nat h"
  by (simp add: source_rows_def)

lemma source_rows_length:
  assumes "frame_ok w h pitch src" and "r \<in> set (source_rows w h pitch src)"
  shows "length r = nat w * 4"
proof -
  obtain y where y: "y < nat h" "r = take (nat w * 4) (drop (y * nat pitch) src)"
    using assms(2) by (auto simp: source_rows_def)
  have "(y + 1) * nat pitch \<le> nat h * nat pitch" using y(1) by (intro mult_le_mono1) simp
  moreover have "nat w * 4 \<le> nat pitch"
  proof -
    have "int (nat w * 4) \<le> int (nat pitch)" using assms(1) by (simp add: frame_ok_def)
    then show ?thesis by (simp only: of_nat_le_iff)
  qed
  ultimately have "y * nat pitch + nat w * 4 \<le> nat h * nat pitch" by (simp add: algebra_simps)
  then have "y * nat pitch + nat w * 4 \<le> length src" using assms(1) by (simp add: frame_ok_def)
  then show ?thesis using y(2) by simp
qed

lemma concat_nth_chunk:
  assumes "\<forall>r \<in> set rs. length r = k" and "y < length rs"
  shows "take k (drop (y * k) (concat rs)) = rs ! y"
  using assms
proof (induction rs arbitrary: y)
  case (Cons r rs)
  then show ?case by (cases y) simp_all
qed simp

lemma gl_rows_pack_rows:
  assumes "frame_ok w h pitch src"
  shows "gl_rows w h (pack_rows w h pitch src) = source_rows w h pitch src"
proof (rule nth_equalityI)
  have c: "pack_rows w h pitch src = concat (source_rows w h pitch src)"
    by (simp add: pack_rows_def source_rows_def)
  fix y assume "y < length (gl_rows w h (pack_rows w h pitch src))"
  then have y: "y < nat h" by simp
  have "take (nat w * 4) (drop (y * (nat w * 4)) (concat (source_rows w h pitch src)))
      = source_rows w h pitch src ! y"
    by (rule concat_nth_chunk) (use source_rows_length[OF assms] y length_source_rows in auto)
  then show "gl_rows w h (pack_rows w h pitch src) ! y = source_rows w h pitch src ! y"
    by (simp only: c gl_rows_nth[OF y])
qed (simp add: length_source_rows)

text \<open>All frames have the size \<open>w\<close> x \<open>h\<close>: then every texture has it, and full rows.\<close>

definition sized :: "int \<Rightarrow> int \<Rightarrow> gl \<Rightarrow> nat \<Rightarrow> bool" where
  "sized w h g n \<longleftrightarrow> n = 0 \<or> (\<exists>t. gl_tex g n = Some t \<and> tt_w t = w \<and> tt_h t = h \<and>
     length (tt_rows t) = nat h \<and> (\<forall>r \<in> set (tt_rows t). length r = nat w * 4))"

fun pending_sized :: "int \<Rightarrow> int \<Rightarrow> (int \<times> int \<times> bytes) option \<Rightarrow> bool" where
  "pending_sized w h None \<longleftrightarrow> True"
| "pending_sized w h (Some (w', h', data)) \<longleftrightarrow>
     w' = w \<and> h' = h \<and> (\<exists>pitch src. frame_ok w h pitch src \<and> data = pack_rows w h pitch src)"

definition program_sized :: "int \<Rightarrow> int \<Rightarrow> program \<Rightarrow> bool" where
  "program_sized w h s \<longleftrightarrow>
     sized w h (pg_gl s) (pg_tex_a s) \<and> sized w h (pg_gl s) (pg_tex_b s) \<and>
     (pg_tex_a s = 0 \<and> pg_tex_b s = 0 \<or> pg_w s = w \<and> pg_h s = h) \<and> pending_sized w h (pg_pending s)"

fun input_sized :: "int \<Rightarrow> int \<Rightarrow> program_input \<Rightarrow> bool" where
  "input_sized w h (PgFrame src w' h' pitch) \<longleftrightarrow> w' = w \<and> h' = h \<and> frame_ok w h pitch src"
| "input_sized w h _ \<longleftrightarrow> True"

lemma sized_sub_image:
  assumes "sized w h g m" and "n \<noteq> 0 \<Longrightarrow> sized w h g n" and "frame_ok w h pitch src"
  shows "sized w h (gl_sub_image n w h (pack_rows w h pitch src) g) m"
    and "n \<noteq> 0 \<Longrightarrow> \<exists>t. gl_tex (gl_sub_image n w h (pack_rows w h pitch src) g) n = Some t \<and>
           tt_rows t = source_rows w h pitch src"
proof -
  have rows: "\<forall>r \<in> set (source_rows w h pitch src). length r = nat w * 4"
    using source_rows_length[OF assms(3)] by blast
  have full: "map2 overlay_row (source_rows w h pitch src) rs = source_rows w h pitch src"
    if "length rs = nat h" "\<forall>r \<in> set rs. length r = nat w * 4" for rs
    by (rule map2_overlay_full[OF _ rows that(2)]) (simp add: that(1) length_source_rows)
  note len = length_source_rows[of w h pitch src]
  show "\<exists>t. gl_tex (gl_sub_image n w h (pack_rows w h pitch src) g) n = Some t \<and>
      tt_rows t = source_rows w h pitch src" if n0: "n \<noteq> 0"
  proof -
    obtain t where t: "gl_tex g n = Some t" "tt_w t = w" "tt_h t = h" "length (tt_rows t) = nat h"
      "\<forall>r \<in> set (tt_rows t). length r = nat w * 4"
      using assms(2)[OF n0] n0 unfolding sized_def by blast
    then show ?thesis by (simp add: gl_sub_image_def gl_rows_pack_rows[OF assms(3)] full)
  qed
  show "sized w h (gl_sub_image n w h (pack_rows w h pitch src) g) m"
  proof (cases "m = n \<and> m \<noteq> 0")
    case True
    then obtain t where t: "gl_tex g n = Some t" "tt_w t = w" "tt_h t = h" "length (tt_rows t) = nat h"
      "\<forall>r \<in> set (tt_rows t). length r = nat w * 4"
      using assms(1) unfolding sized_def by blast
    then show ?thesis using True rows len
      by (simp add: gl_sub_image_def gl_rows_pack_rows[OF assms(3)] full sized_def)
  next
    case False
    then show ?thesis using assms(1)
      by (auto simp: sized_def gl_sub_image_def split: option.split)
  qed
qed

lemma sized_regen:
  assumes "owns2 g a b" and "gl_gen (gl_release a g) = (n, g')" and "sized w h g b"
    and "frame_ok w h pitch src"
  defines "g'' \<equiv> gl_tex_image n w h (pack_rows w h pitch src) g'"
  shows "sized w h g'' n" "sized w h g'' b"
    and "\<exists>t. gl_tex g'' n = Some t \<and> tt_rows t = source_rows w h pitch src" "n \<noteq> 0"
proof -
  have ok: "gl_ok g" using assms(1) by (simp add: owns2_def)
  note fresh = gl_gen_fresh[OF assms(2) gl_ok_release[OF ok]]
  show "n \<noteq> 0" by (rule fresh(1))
  show "\<exists>t. gl_tex g'' n = Some t \<and> tt_rows t = source_rows w h pitch src"
    by (simp add: g''_def gl_tex_image_def gl_rows_pack_rows[OF assms(4)])
  have rows: "\<forall>r \<in> set (source_rows w h pitch src). length r = nat w * 4"
    using source_rows_length[OF assms(4)] by blast
  then show "sized w h g'' n"
    by (simp add: g''_def gl_tex_image_def gl_rows_pack_rows[OF assms(4)] sized_def length_source_rows)
  show "sized w h g'' b"
  proof (cases "b = 0")
    case False
    then have "b \<in> gl_live (gl_release a g)" using assms(1) ok by (auto simp: owns2_def)
    then have nb: "b \<noteq> n" using fresh(2) by auto
    have "gl_tex (gl_release a g) b = gl_tex g b"
      using False assms(1) by (auto simp: gl_release_def gl_delete_def owns2_def)
    then have "gl_tex g'' b = gl_tex g b"
      using nb assms(2) by (auto simp: g''_def gl_tex_image_def gl_gen_def)
    then show ?thesis using assms(3) by (simp add: sized_def)
  qed (simp add: sized_def)
qed

lemma sized_swap: "program_sized w h s \<Longrightarrow> program_sized w h (swap_textures s)"
  by (auto simp: program_sized_def swap_textures_def)

lemma upload_idle: "\<not> (pg_dirty s \<and> pg_pending s \<noteq> None) \<Longrightarrow> upload_pending s = s"
  by (auto simp: upload_pending_def split: option.splits bool.splits)

lemma upload_sized:
  assumes "program_owns s" and "program_sized w h s"
  shows "program_sized w h (upload_pending s)"
    and "pg_dirty s \<Longrightarrow> pg_pending s = Some (w', h', pack_rows w h pitch src) \<Longrightarrow> frame_ok w h pitch src \<Longrightarrow>
      \<exists>t. gl_tex (pg_gl (upload_pending s)) (pg_tex_a (upload_pending s)) = Some t \<and>
        tt_rows t = source_rows w h pitch src \<and> pg_tex_a (upload_pending s) \<noteq> 0"
proof -
  have own: "owns2 (pg_gl s) (pg_tex_a s) (pg_tex_b s)" using assms(1) by (simp add: program_owns_def)
  have sz: "sized w h (pg_gl s) (pg_tex_a s)" "sized w h (pg_gl s) (pg_tex_b s)"
    "pg_tex_a s = 0 \<and> pg_tex_b s = 0 \<or> pg_w s = w \<and> pg_h s = h" "pending_sized w h (pg_pending s)"
    using assms(2) by (simp_all add: program_sized_def)
  have main: "program_sized w h (upload_pending s) \<and>
      (\<exists>t. gl_tex (pg_gl (upload_pending s)) (pg_tex_a (upload_pending s)) = Some t \<and>
        tt_rows t = source_rows w h pitch src \<and> pg_tex_a (upload_pending s) \<noteq> 0)"
    if p: "pg_dirty s" "pg_pending s = Some (w, h, pack_rows w h pitch src)" "frame_ok w h pitch src"
    for pitch src
  proof (cases "pg_tex_a s = 0 \<or> w \<noteq> pg_w s \<or> h \<noteq> pg_h s")
    case True
    obtain n g where g: "gl_gen (gl_release (pg_tex_a s) (pg_gl s)) = (n, g)" by fastforce
    have "upload_pending s = s\<lparr>pg_tex_a := n, pg_w := w, pg_h := h,
        pg_gl := gl_tex_image n w h (pack_rows w h pitch src) g, pg_dirty := False\<rparr>"
      using True p g by (simp add: upload_pending_def)
    then show ?thesis
      using sized_regen[OF own g sz(2) p(3)] sz(4) by (simp add: program_sized_def)
  next
    case False
    then have "upload_pending s = s\<lparr>pg_gl := gl_sub_image (pg_tex_a s) w h (pack_rows w h pitch src) (pg_gl s),
        pg_dirty := False\<rparr>"
      using p by (simp add: upload_pending_def)
    then show ?thesis
      using sized_sub_image(1)[OF sz(1) sz(1) p(3)] sized_sub_image(1)[OF sz(2) sz(1) p(3)]
        sized_sub_image(2)[OF sz(1) sz(1) p(3)] False sz(3,4) by (simp add: program_sized_def)
  qed
  show "program_sized w h (upload_pending s)"
  proof (cases "pg_dirty s \<and> pg_pending s \<noteq> None")
    case True
    then obtain pitch src where "pg_pending s = Some (w, h, pack_rows w h pitch src)" "frame_ok w h pitch src"
      using sz(4) by (cases "(w, h, pg_pending s)" rule: pending_sized.cases) auto
    then show ?thesis using main True by blast
  next
    case False
    then show ?thesis using assms(2) by (simp add: upload_idle)
  qed
  show "\<exists>t. gl_tex (pg_gl (upload_pending s)) (pg_tex_a (upload_pending s)) = Some t \<and>
      tt_rows t = source_rows w h pitch src \<and> pg_tex_a (upload_pending s) \<noteq> 0"
    if "pg_dirty s" "pg_pending s = Some (w', h', pack_rows w h pitch src)" "frame_ok w h pitch src"
  proof -
    have "w' = w" "h' = h" using sz(4) that(2) by simp_all
    then show ?thesis using main that by blast
  qed
qed

lemma program_sized_step:
  assumes "program_owns s" and "program_sized w h s" and "input_sized w h i"
  shows "program_sized w h (program_step i s)"
proof (cases i)
  case PgPaint
  then show ?thesis
    using upload_sized(1)[OF program_owns_swap[OF assms(1)] sized_swap[OF assms(2)]]
    by (simp add: program_step_def paintGL_def Let_def)
next
  case (PgFrame src w' h' pitch)
  then show ?thesis using assms(2,3) by (auto simp: program_step_def program_sized_def uploadFrame_def)
qed (use assms(2) in \<open>auto simp: program_step_def program_sized_def beginTransition_def
      advanceTransition_def Let_def\<close>)

lemma program_sized_run:
  "program_owns s \<Longrightarrow> program_sized w h s \<Longrightarrow> list_all (input_sized w h) is \<Longrightarrow>
   program_sized w h (program_run is s)"
  by (induction "is" arbitrary: s) (simp_all add: program_sized_step program_owns_step)

lemma program_sized_new: "program_sized w h program_new"
  by (simp add: program_sized_def program_new_def sized_def)

section \<open>Behaviour at the edges\<close>

text \<open>The swap happens at the next paint whether or not a frame has arrived: the first cut, on a
  picture that does not move, shows black.\<close>

lemma first_cut_is_black:
  "fst (paintGL (program_run [PgFrame [1,2,3,4] 1 1 4, PgPaint, PgTransition Cut 0] program_new)) = Black"
  by (simp add: program_step_def uploadFrame_def paintGL_def swap_textures_def upload_pending_def
      beginTransition_def draw_def program_new_def gl_release_def gl_gen_def gl_new_def Let_def)

text \<open>One pair of dimensions serves two textures: after a change of the resolution and a cut, the
  new frame is written into the texture of the old size. Here a frame of one pixel is followed,
  after the cut, by frames of two pixels; the last one never reaches the screen.\<close>

lemma resolution_change_then_cut_loses_frames:
  "let s = program_run [PgFrame [1,1,1,1] 1 1 4, PgPaint, PgTransition Cut 0,
        PgFrame [2,2,2,2] 1 1 4, PgPaint, PgFrame [3,3,3,3,3,3,3,3] 2 1 8, PgPaint,
        PgTransition Cut 0, PgFrame [4,4,4,4,4,4,4,4] 2 1 8, PgPaint] program_new in
   draw s = Single (pg_tex_a s) \<and> map_option tt_rows (gl_tex (pg_gl s) (pg_tex_a s)) = Some [[1,1,1,1]]"
  by (simp add: program_step_def uploadFrame_def paintGL_def swap_textures_def upload_pending_def
      beginTransition_def draw_def program_new_def gl_release_def gl_delete_def gl_gen_def gl_new_def
      gl_tex_image_def gl_sub_image_def gl_rows_def pack_rows_def Let_def)

section \<open>Properties\<close>

text \<open>C25: A fade always ends, on time: started with any duration up to sixteen seconds, in any
  state, the mix has reached the incoming picture and the timer has stopped after at most one
  tick more than the duration has whole ticks of 16 ms, for all roundings of the single precision
  step.\<close>

theorem fade_completes:
  assumes "0 < duration_ms" and "duration_ms \<le> 16000"
  defines "n \<equiv> nat duration_ms div 16 + 1"
  shows "let s = program_run (PgTransition Fade duration_ms # replicate n PgTick) s0 in
    pg_alpha s = 1 \<and> \<not> pg_timer s"
proof -
  let ?s = "program_step (PgTransition Fade duration_ms) s0"
  have s: "pg_alpha ?s = 0" "pg_timer ?s" "pg_step ?s = fade_step_of duration_ms"
    by (simp_all add: program_step_def beginTransition_def)
  have "fading_at n (fade_step_of duration_ms) (program_run (replicate n PgTick) ?s)"
    using fading_ticks[of ?s n] s fade_step_lower(2)[OF assms(1,2)] by simp
  then show ?thesis
    using enough_ticks[OF assms(1,2)] unfolding fading_at_def n_def[symmetric] Let_def program_run_simps
    by linarith
qed

theorem fade_completes_witness:
  "pg_alpha (program_run (PgTransition Fade 300 # replicate 19 PgTick) program_new) = 1"
  using fade_completes[of 300 program_new] by (simp add: Let_def)



end
