(* ===== verification/MainWindow.thy ===== *)
theory MainWindow
  imports RulesFile ProgramWidget PipeRun
begin

text \<open>
  The main window (\<open>src/src/ui/main_window.cpp\<close>, \<open>src/src/ui/rust_bridge.cpp\<close>): its construction,
  the life of the pipeline object and of the frame thread, the stream buttons, the scene list with
  its transitions, the settings dialog and what it tells the orchestrator, the suggestion of a
  hardware profile and the status line. It is built from the models of its parts: the pipeline
  (\<open>Pipeline\<close>), the rules file with the dialog and the persistent settings (\<open>RulesFile\<close>), the panel
  (\<open>HealingOverlay\<close>) and the program monitor (\<open>ProgramWidget\<close>). The calls into the orchestrator are
  a log. Answers of the user, of Windows and of the drivers are arguments.
\<close>

section \<open>State\<close>

datatype connection_text = NotConnected | OnAir | Connected | Disconnected

datatype status_text = StReady | StNormal | StInitFailed | StStartFailed | StStarted | StStopped
  | StCut | StFade | StToProgram string | StUndo | StSaved healing_mode | StDrop u32 | StReduce u32 string

datatype rust_call =
    SceneNames "string list"
  | SceneSwitch u32
  | SetHealingMode u32
  | SetAutoApprove u32 bool
  | SetWsPassword string
  | StreamStart
  | StreamStop
  | HealingLogShutdown

definition RJ_ACTION_CAT_BITRATE :: u32 where [model_defs]: "RJ_ACTION_CAT_BITRATE = 0"
definition RJ_ACTION_CAT_RESOLUTION :: u32 where [model_defs]: "RJ_ACTION_CAT_RESOLUTION = 1"
definition RJ_ACTION_CAT_FPS :: u32 where [model_defs]: "RJ_ACTION_CAT_FPS = 2"

record window =
  mw_scenes :: "string list"
  mw_row :: int
  mw_active :: bool
  mw_start_enabled :: bool
  mw_stop_enabled :: bool
  mw_connection :: connection_text
  mw_status :: status_text
  mw_pipe :: pipe
  mw_cfg :: "pipe_config option"
  mw_thread :: "bool option"
  mw_suggest_due :: bool
  mw_ready_due :: nat
  mw_bitrate :: u32
  mw_fps :: rat
  mw_rules :: rules_ui
  mw_overlay :: overlay
  mw_program :: program
  mw_restored :: "string option \<times> string option"
  mw_rust :: "rust_call list"

abbreviation mw_dialog :: "window \<Rightarrow> settings_dialog" where
  "mw_dialog w \<equiv> rw_dialog (mw_rules w)"

definition tell :: "rust_call list \<Rightarrow> window \<Rightarrow> window" where
  "tell cs w = w\<lparr>mw_rust := mw_rust w @ cs\<rparr>"

section \<open>The orchestrator is told about the settings\<close>

definition syncAutoApproveToRust :: "settings_dialog \<Rightarrow> rust_call list" where
  "syncAutoApproveToRust d =
     [SetAutoApprove RJ_ACTION_CAT_BITRATE (sd_bitrate_auto d),
      SetAutoApprove RJ_ACTION_CAT_RESOLUTION (sd_resolution_auto d),
      SetAutoApprove RJ_ACTION_CAT_FPS (sd_fps_auto d)]"

definition syncWsPasswordToRust :: "settings_dialog \<Rightarrow> rust_call list" where
  "syncWsPasswordToRust d = [SetWsPassword (sd_ws_password d)]"

text \<open>The end of \<open>buildCentralWidget\<close>: what it sends depends on whether the dialog exists.\<close>

definition startup_sync :: "settings_dialog option \<Rightarrow> rust_call list" where
  "startup_sync dialog = (case dialog of
       None \<Rightarrow> []
     | Some d \<Rightarrow> SetHealingMode (healing_mode_code (sd_mode d)) # syncAutoApproveToRust d @ syncWsPasswordToRust d)"

definition notifyHealingSettingsSaved :: "healing_mode \<Rightarrow> window \<Rightarrow> window" where
  "notifyHealingSettingsSaved mode w = w\<lparr>mw_status := StSaved mode, mw_ready_due := Suc (mw_ready_due w)\<rparr>"

definition ready_timer :: "window \<Rightarrow> window" where
  "ready_timer w = (if mw_ready_due w = 0 then w
     else w\<lparr>mw_ready_due := mw_ready_due w - 1, mw_status := StReady\<rparr>)"

definition healing_mode_changed :: "healing_mode \<Rightarrow> window \<Rightarrow> window" where
  "healing_mode_changed mode w =
     notifyHealingSettingsSaved mode
       (tell (SetHealingMode (healing_mode_code mode) #
              syncAutoApproveToRust (mw_dialog w) @ syncWsPasswordToRust (mw_dialog w))
         (w\<lparr>mw_overlay := setHealingMode mode (mw_overlay w)\<rparr>))"

definition settings_ok :: "window \<Rightarrow> window" where
  "settings_ok w =
     (case onOkClicked (mw_dialog w) (rw_store (mw_rules w)) of
        (mode, st) \<Rightarrow> healing_mode_changed mode (w\<lparr>mw_rules := (mw_rules w)\<lparr>rw_store := st\<rparr>\<rparr>))"

text \<open>Opening the dialog: \<open>written\<close> is the answer of \<open>rj_rules_snapshot_json\<close>.\<close>

definition onSettingsClicked ::
  "u16 \<Rightarrow> u32 \<Rightarrow> int \<Rightarrow> (string \<times> string \<times> string \<times> string) list option \<Rightarrow> window \<Rightarrow> window" where
  "onSettingsClicked port connections written parsed w =
     (let d = setWsStatus port connections (mw_dialog w);
          d = (if written \<ge> 0 then setRules parsed d
               else if written = -2 then setRulesError 2 d else setRulesError 1 d) in
      w\<lparr>mw_rules := (mw_rules w)\<lparr>rw_dialog := d\<rparr>\<rparr>)"

section \<open>Scenes and transitions\<close>

definition pushSceneNamesToRust :: "window \<Rightarrow> window" where
  "pushSceneNamesToRust w = tell [SceneNames (mw_scenes w)] w"

definition switch_event :: "window \<Rightarrow> window" where
  "switch_event w = tell [SceneSwitch (word_of_int (mw_row w))] w"

definition onCutTransition :: "window \<Rightarrow> window" where
  "onCutTransition w =
     switch_event (w\<lparr>mw_program := beginTransition Cut 300 (mw_program w), mw_status := StCut\<rparr>)"

definition onFadeTransition :: "window \<Rightarrow> window" where
  "onFadeTransition w =
     switch_event (w\<lparr>mw_program := beginTransition Fade 300 (mw_program w), mw_status := StFade\<rparr>)"

text \<open>A double click on a row, which Qt has made the current one.\<close>

definition scene_activated :: "nat \<Rightarrow> window \<Rightarrow> window" where
  "scene_activated i w =
     (if i < length (mw_scenes w) then
        let w = w\<lparr>mw_row := int i\<rparr> in
        switch_event (w\<lparr>mw_status := StToProgram (mw_scenes w ! i),
          mw_program := beginTransition Cut 300 (mw_program w)\<rparr>)
      else w)"

text \<open>\<open>number\<close> renders a decimal number, as \<open>QString::arg\<close> does.\<close>

definition addScene :: "(nat \<Rightarrow> string) \<Rightarrow> window \<Rightarrow> window" where
  "addScene number w =
     (let n = length (mw_scenes w) in
      pushSceneNamesToRust (w\<lparr>mw_scenes := mw_scenes w @ [''Sahne '' @ number (n + 1)], mw_row := int n\<rparr>))"

text \<open>Qt picks the current row after a removal, or leaves none (-1).\<close>

definition removeScene :: "int \<Rightarrow> window \<Rightarrow> window" where
  "removeScene qt_row w =
     (if length (mw_scenes w) \<le> 1 then w
      else
        let row = mw_row w;
            w = w\<lparr>mw_scenes := take (nat row) (mw_scenes w) @ drop (Suc (nat row)) (mw_scenes w),
                  mw_row := max (-1) (min qt_row (int (length (mw_scenes w)) - 2))\<rparr>;
            w = (if mw_row w < 0 then w\<lparr>mw_row := 0\<rparr> else w) in
        pushSceneNamesToRust w)"

text \<open>Editing a name and dragging a row are handled by the list alone.\<close>

definition rename_scene :: "nat \<Rightarrow> string \<Rightarrow> window \<Rightarrow> window" where
  "rename_scene i name w = w\<lparr>mw_scenes := (mw_scenes w)[i := name]\<rparr>"

definition drag_scene :: "nat \<Rightarrow> nat \<Rightarrow> window \<Rightarrow> window" where
  "drag_scene i j w =
     (if i < length (mw_scenes w) \<and> j < length (mw_scenes w) then
        let rest = take i (mw_scenes w) @ drop (Suc i) (mw_scenes w) in
        w\<lparr>mw_scenes := take j rest @ mw_scenes w ! i # drop j rest, mw_row := int j\<rparr>
      else w)"

definition scene_command :: "int \<Rightarrow> u32 \<Rightarrow> window \<Rightarrow> window" where
  "scene_command cmd param w =
     (let w = (if cmd = 3 then onCutTransition w else w);
          w = (if cmd = 4 then onFadeTransition w else w) in
      if cmd = 5 \<and> unat param < length (mw_scenes w) then
        onCutTransition (w\<lparr>mw_row := int (unat param)\<rparr>)
      else w)"

section \<open>Streaming\<close>

definition startStream :: "window \<Rightarrow> window" where
  "startStream w =
     (if mw_active w then w
      else case start_stream (mw_pipe w) of
        (False, p) \<Rightarrow> w\<lparr>mw_pipe := p, mw_status := StStartFailed\<rparr>
      | (True, p) \<Rightarrow>
          tell [StreamStart] (w\<lparr>mw_pipe := p, mw_active := True, mw_start_enabled := False,
            mw_stop_enabled := True, mw_connection := OnAir, mw_status := StStarted\<rparr>))"

definition stopStream :: "window \<Rightarrow> window" where
  "stopStream w =
     (if \<not> mw_active w then w
      else tell [StreamStop] (w\<lparr>mw_pipe := snd (stop_stream (mw_pipe w)), mw_active := False,
            mw_start_enabled := True, mw_stop_enabled := False, mw_connection := NotConnected,
            mw_status := StStopped\<rparr>))"

section \<open>The pipeline object and the frame thread\<close>

definition strncpy_s :: "nat \<Rightarrow> string \<Rightarrow> string" where
  "strncpy_s n s = take (n - 1) s"

definition config_of_dialog :: "settings_dialog \<Rightarrow> pipe_config" where
  "config_of_dialog d =
     \<lparr>cg_width = 1920, cg_height = 1080, cg_fps = videoFps d, cg_bitrate = videoBitrateKbps d,
      cg_min_bitrate = 1000, cg_original_bitrate = 0, cg_audio = sd_audio d, cg_loopback = True,
      cg_audio_device = strncpy_s 256 (audioDeviceId d), cg_srt_host = strncpy_s 256 (sd_srt_host d),
      cg_srt_port = srtPort d, cg_protocol = transportProtocol d,
      cg_rtmp_url = strncpy_s 512 (rtmpUrl d), cg_rtmp_key = strncpy_s 256 (rtmpStreamKey d)\<rparr>"

record wire_env =
  we_ncpus :: u32
  we_vulkan :: "bool option"
  we_preview :: preview_env
  we_vk_device :: bool

definition wireUpPipeline :: "wire_env \<Rightarrow> pipe \<Rightarrow> pipe" where
  "wireUpPipeline env p =
     (let p = (if we_vk_device env then snd (notify_vulkan_ready (we_vulkan env) p) else p);
          p = snd (set_d3d11_frame_callback (we_ncpus env) True (we_preview env) (we_vk_device env) p);
          p = snd (set_preview_callback (we_ncpus env) True p) in
      snd (set_scene_command_callback (we_ncpus env) True p))"

definition startFrameThread :: "window \<Rightarrow> window" where
  "startFrameThread w = (if mw_thread w \<noteq> None then w else w\<lparr>mw_thread := Some True\<rparr>)"

text \<open>\<open>finished\<close>: the loop has ended within the five seconds the window waits for it.\<close>

definition stopFrameThread :: "bool \<Rightarrow> window \<Rightarrow> window" where
  "stopFrameThread finished w =
     (if mw_thread w = Some True \<and> finished then w\<lparr>mw_thread := Some False\<rparr> else w)"

definition initPipeline ::
  "pipe_config \<Rightarrow> pipe_init_env \<Rightarrow> wire_env \<Rightarrow> window \<Rightarrow> (bool \<times> window) outcome" where
  "initPipeline cfg env wenv w =
     (if mw_thread w \<noteq> None then Val (False, w)
      else and_then (pipe_init cfg env (mw_pipe w)) (\<lambda>(ok, p).
        let w = w\<lparr>mw_cfg := Some cfg, mw_pipe := p\<rparr> in
        if ok then
          Val (True, (startFrameThread (w\<lparr>mw_pipe := wireUpPipeline wenv p\<rparr>))\<lparr>mw_suggest_due := True\<rparr>)
        else Val (False, w)))"

text \<open>One turn of the loop of the frame thread.\<close>

definition frame_turn :: "(tex \<Rightarrow> handle) \<Rightarrow> frame_env \<Rightarrow> window \<Rightarrow> window outcome" where
  "frame_turn addr env w =
     (if mw_thread w \<noteq> Some True then Val w
      else and_then (run_frame addr env (mw_pipe w)) (\<lambda>(ok, p). Val (w\<lparr>mw_pipe := p\<rparr>)))"

section \<open>The saved state of the window\<close>

text \<open>What Qt makes of the window's geometry and of its tool bars is a byte string each; \<open>mw_restored\<close>
  is what it was asked to restore.\<close>

definition saveWindowState :: "string \<Rightarrow> string \<Rightarrow> window \<Rightarrow> window" where
  "saveWindowState geometry state w =
     w\<lparr>mw_rules := (mw_rules w)\<lparr>rw_store := (rw_store (mw_rules w))
        (''geometry'' \<mapsto> QStr geometry, ''windowState'' \<mapsto> QStr state)\<rparr>\<rparr>"

definition loadWindowState :: "conversions \<Rightarrow> window \<Rightarrow> window" where
  "loadWindowState cv w =
     w\<lparr>mw_restored := (map_option (to_text (cv_show cv)) (rw_store (mw_rules w) ''geometry''),
                     map_option (to_text (cv_show cv)) (rw_store (mw_rules w) ''windowState''))\<rparr>"

definition closeEvent :: "string \<Rightarrow> string \<Rightarrow> bool \<Rightarrow> window \<Rightarrow> window" where
  "closeEvent geometry state finished w = stopFrameThread finished (saveWindowState geometry state w)"

section \<open>Construction\<close>

definition first_scenes :: "string list" where
  "first_scenes = [''Sahne 1'', ''Sahne 2'', ''Sahne 3'']"

definition window_widgets :: "rules_ui \<Rightarrow> window" where
  "window_widgets rules =
     \<lparr>mw_scenes = first_scenes, mw_row = 0, mw_active = False, mw_start_enabled = True,
      mw_stop_enabled = False, mw_connection = NotConnected, mw_status = StReady, mw_pipe = pipe_new,
      mw_cfg = None, mw_thread = None, mw_suggest_due = False, mw_ready_due = 0, mw_bitrate = 0,
      mw_fps = 0, mw_rules = rules, mw_overlay = overlay_new, mw_program = program_new,
      mw_restored = (None, None), mw_rust = []\<rparr>"

text \<open>The central widget is built before the dialog is created.\<close>

definition buildCentralWidget :: "settings_dialog option \<Rightarrow> window \<Rightarrow> window" where
  "buildCentralWidget dialog w = tell (startup_sync dialog) (pushSceneNamesToRust w)"

definition window_construct ::
  "conversions \<Rightarrow> settings_store \<Rightarrow> string list \<Rightarrow> string option \<Rightarrow> bool \<Rightarrow> string option
     \<Rightarrow> pipe_init_env \<Rightarrow> wire_env \<Rightarrow> window outcome" where
  "window_construct cv st devices file dir engine env wenv =
     (let rules = rules_ui_new file dir engine (dialog_new cv st devices) st;
          w = loadWindowState cv (buildCentralWidget None (window_widgets rules));
          w = w\<lparr>mw_rules := restore_auto_reload (mw_rules w)\<rparr> in
      and_then (initPipeline (config_of_dialog (mw_dialog w)) env wenv w) (\<lambda>(ok, w).
        Val (if ok then w else w\<lparr>mw_status := StInitFailed\<rparr>)))"

section \<open>The first run\<close>

datatype profile_answer = ApplySuggested | ChooseOther "profile_id option" | SkipProfile

record suggest_env =
  su_memory :: "u64 option"
  su_power :: "u8 option"
  su_answer :: profile_answer
  su_io :: rules_io

definition chosen_profile :: "profile_id \<Rightarrow> profile_answer \<Rightarrow> profile_id option" where
  "chosen_profile suggested a = (case a of
       SkipProfile \<Rightarrow> None
     | ApplySuggested \<Rightarrow> Some suggested
     | ChooseOther pick \<Rightarrow> pick)"

definition maybeSuggestProfileOnFirstRun ::
  "(string \<Rightarrow> bool) \<Rightarrow> (profile_id \<Rightarrow> string) \<Rightarrow> suggest_env \<Rightarrow> window \<Rightarrow> window" where
  "maybeSuggestProfileOnFirstRun valid resource env w =
     (let r = mw_rules w in
      if to_bool (stored (rw_store r) ''profile/asked'' (QBool False)) then w
      else
        let sig = collect_hw_signals (su_memory env) (su_power env)
                    (max_vram_vendor_id (mw_pipe w)) (max_gpu_vram_mb (mw_pipe w));
            r = r\<lparr>rw_store := (rw_store r)(''profile/asked'' \<mapsto> QBool True)\<rparr> in
        case chosen_profile (suggest_profile sig) (su_answer env) of
          None \<Rightarrow> w\<lparr>mw_rules := r\<rparr>
        | Some p \<Rightarrow> w\<lparr>mw_rules := snd (applyProfile valid resource p (su_io env) r)\<rparr>)"

definition suggest_timer ::
  "(string \<Rightarrow> bool) \<Rightarrow> (profile_id \<Rightarrow> string) \<Rightarrow> suggest_env \<Rightarrow> window \<Rightarrow> window" where
  "suggest_timer valid resource env w =
     (if mw_suggest_due w then maybeSuggestProfileOnFirstRun valid resource env (w\<lparr>mw_suggest_due := False\<rparr>)
      else w)"

section \<open>Metrics and healing\<close>

definition pollMetrics :: "metric_sample option \<Rightarrow> window \<Rightarrow> window" where
  "pollMetrics sample w = (case sample of
       None \<Rightarrow> w
     | Some m \<Rightarrow>
         let w = w\<lparr>mw_fps := ms_fps_actual m, mw_bitrate := ms_bitrate_kbps m\<rparr> in
         if ms_frame_drop_pct m > 0 then w\<lparr>mw_status := StDrop (ms_frame_drop_pct m)\<rparr> else w)"

definition onMetricsUpdate :: "u32 \<Rightarrow> rat \<Rightarrow> bool \<Rightarrow> window \<Rightarrow> window" where
  "onMetricsUpdate bitrate_kbps fps conn w =
     w\<lparr>mw_bitrate := bitrate_kbps, mw_fps := fps,
       mw_connection := (if conn then Connected else Disconnected)\<rparr>"

text \<open>\<open>HealingEvent\<close>s of the bridge: the document must be an object; anything but the two event
  types is ignored.\<close>

definition postHealingEventFromRust :: "string \<Rightarrow> (int \<times> string) option \<Rightarrow> window \<Rightarrow> window" where
  "postHealingEventFromRust eventType obj w = (case obj of
       None \<Rightarrow> w
     | Some (target_kbps, reason) \<Rightarrow>
         if eventType = ''ReduceBitrate'' then
           w\<lparr>mw_overlay := onReduceBitrate (word_of_int target_kbps) reason (mw_overlay w),
             mw_status := StReduce (word_of_int target_kbps) reason\<rparr>
         else if eventType = ''RestoreNormal'' then w\<lparr>mw_status := StNormal\<rparr>
         else w)"

text \<open>The timer, the buttons and the event queue reach the panel directly; its mode is only set by
  the settings.\<close>

definition overlay_input_window :: "overlay_input \<Rightarrow> window \<Rightarrow> window" where
  "overlay_input_window i w =
     (let w' = w\<lparr>mw_overlay := overlay_step i (mw_overlay w)\<rparr> in
      case i of
        InMode m \<Rightarrow> w
      | InUndo \<Rightarrow> if ov_visible (mw_overlay w) then w'\<lparr>mw_status := StUndo\<rparr> else w'
      | _ \<Rightarrow> w')"

section \<open>Steps of the window\<close>

datatype window_input =
    WAdd | WRemove int | WRename nat string | WDrag nat nat | WActivate nat | WSelect nat
  | WCut | WFade | WCommand int u32 | WStart | WStop
  | WPipe pipe  \<comment> \<open>what other threads have done to the pipeline object\<close>
  | WEdit dialog_edit | WOk
  | WSettings u16 u32 int "(string \<times> string \<times> string \<times> string) list option"
  | WRules rules_input | WReady | WMetrics "metric_sample option" | WOverlay overlay_input
  | WHealing string "(int \<times> string) option"
  | WProgram program_input  \<comment> \<open>frames and paints of the program monitor, its animation timer\<close>
  | WClose string string bool
  | WSuggest suggest_env

definition window_step ::
  "(nat \<Rightarrow> string) \<Rightarrow> (string \<Rightarrow> bool) \<Rightarrow> (profile_id \<Rightarrow> string) \<Rightarrow> window_input \<Rightarrow> window \<Rightarrow> window" where
  "window_step number valid resource i w = (case i of
       WAdd \<Rightarrow> addScene number w
     | WRemove q \<Rightarrow> removeScene q w
     | WRename k name \<Rightarrow> rename_scene k name w
     | WDrag k l \<Rightarrow> drag_scene k l w
     | WActivate k \<Rightarrow> scene_activated k w
     | WSelect k \<Rightarrow> if k < length (mw_scenes w) then w\<lparr>mw_row := int k\<rparr> else w
     | WCut \<Rightarrow> onCutTransition w
     | WFade \<Rightarrow> onFadeTransition w
     | WCommand cmd param \<Rightarrow> scene_command cmd param w
     | WStart \<Rightarrow> if mw_start_enabled w then startStream w else w
     | WStop \<Rightarrow> if mw_stop_enabled w then stopStream w else w
     | WPipe p \<Rightarrow> w\<lparr>mw_pipe := p\<rparr>
     | WEdit e \<Rightarrow> w\<lparr>mw_rules := (mw_rules w)\<lparr>rw_dialog := apply_edit e (mw_dialog w)\<rparr>\<rparr>
     | WOk \<Rightarrow> settings_ok w
     | WSettings port n written parsed \<Rightarrow> onSettingsClicked port n written parsed w
     | WRules r \<Rightarrow> w\<lparr>mw_rules := rules_step valid resource r (mw_rules w)\<rparr>
     | WReady \<Rightarrow> ready_timer w
     | WMetrics m \<Rightarrow> pollMetrics m w
     | WOverlay o' \<Rightarrow> overlay_input_window o' w
     | WHealing ty obj \<Rightarrow> postHealingEventFromRust ty obj w
     | WProgram x \<Rightarrow> w\<lparr>mw_program := program_step x (mw_program w)\<rparr>
     | WClose geometry state finished \<Rightarrow> closeEvent geometry state finished w
     | WSuggest env \<Rightarrow> suggest_timer valid resource env w)"

definition window_run ::
  "(nat \<Rightarrow> string) \<Rightarrow> (string \<Rightarrow> bool) \<Rightarrow> (profile_id \<Rightarrow> string) \<Rightarrow> window_input list \<Rightarrow> window \<Rightarrow> window" where
  "window_run number valid resource is w = fold (window_step number valid resource) is w"

text \<open>The list of scenes the orchestrator was told last, and: every switch it is told about is
  a row of that list.\<close>

fun known_scenes :: "string list \<Rightarrow> rust_call list \<Rightarrow> string list" where
  "known_scenes ns [] = ns"
| "known_scenes ns (SceneNames ns' # cs) = known_scenes ns' cs"
| "known_scenes ns (c # cs) = known_scenes ns cs"

fun switches_ok :: "string list \<Rightarrow> rust_call list \<Rightarrow> bool" where
  "switches_ok ns [] = True"
| "switches_ok ns (SceneNames ns' # cs) = switches_ok ns' cs"
| "switches_ok ns (SceneSwitch i # cs) \<longleftrightarrow> unat i < length ns \<and> switches_ok ns cs"
| "switches_ok ns (c # cs) = switches_ok ns cs"

lemma known_scenes_append: "known_scenes ns (xs @ ys) = known_scenes (known_scenes ns xs) ys"
  by (induction ns xs rule: known_scenes.induct) simp_all

lemma switches_ok_append:
  "switches_ok ns (xs @ ys) \<longleftrightarrow> switches_ok ns xs \<and> switches_ok (known_scenes ns xs) ys"
  by (induction ns xs rule: switches_ok.induct) simp_all

definition window_wf :: "window \<Rightarrow> bool" where
  "window_wf w \<longleftrightarrow>
     0 \<le> mw_row w \<and> mw_row w < int (length (mw_scenes w)) \<and>
     mw_start_enabled w = (\<not> mw_active w) \<and> mw_stop_enabled w = mw_active w \<and>
     length (known_scenes [] (mw_rust w)) = length (mw_scenes w) \<and> switches_ok [] (mw_rust w)"

lemma window_wf_cong:
  assumes "window_wf w" "mw_scenes w' = mw_scenes w" "mw_row w' = mw_row w" "mw_active w' = mw_active w"
    "mw_start_enabled w' = mw_start_enabled w" "mw_stop_enabled w' = mw_stop_enabled w"
    "mw_rust w' = mw_rust w"
  shows "window_wf w'"
  using assms by (simp add: window_wf_def)

lemma row_word_bound:
  assumes "0 \<le> r" and "r < int n"
  shows "unat (word_of_int r :: u32) < n"
proof -
  have "uint (word_of_int r :: u32) = r mod 2 ^ 32" by (simp add: uint_word_of_int)
  also have "\<dots> \<le> r" by (rule zmod_le_nonneg_dividend[OF assms(1)])
  finally have "int (unat (word_of_int r :: u32)) < int n" using assms(2) by simp
  then show ?thesis by (simp only: of_nat_less_iff)
qed

lemma window_wf_switch:
  assumes "window_wf w"
  shows "window_wf (switch_event w)"
proof -
  have "unat (word_of_int (mw_row w) :: u32) < length (mw_scenes w)"
    by (rule row_word_bound) (use assms in \<open>simp_all add: window_wf_def\<close>)
  then show ?thesis
    using assms unfolding window_wf_def switch_event_def tell_def
    by (simp add: known_scenes_append switches_ok_append)
qed

lemma window_wf_push:
  assumes "0 \<le> mw_row w" "mw_row w < int (length (mw_scenes w))"
    "mw_start_enabled w = (\<not> mw_active w)" "mw_stop_enabled w = mw_active w" "switches_ok [] (mw_rust w)"
  shows "window_wf (pushSceneNamesToRust w)"
  using assms
  by (simp add: window_wf_def pushSceneNamesToRust_def tell_def known_scenes_append switches_ok_append)

fun plain_call :: "rust_call \<Rightarrow> bool" where
  "plain_call (SceneNames ns) = False"
| "plain_call (SceneSwitch i) = False"
| "plain_call c = True"

lemma known_plain: "list_all plain_call cs \<Longrightarrow> known_scenes ns cs = ns \<and> switches_ok ns cs"
proof (induction cs)
  case (Cons c cs)
  then show ?case by (cases c) simp_all
qed simp

lemma window_wf_tell:
  assumes "window_wf w" and "list_all plain_call cs"
  shows "window_wf (tell cs w)"
  using assms known_plain[OF assms(2)]
  by (simp add: window_wf_def tell_def known_scenes_append switches_ok_append)

lemma window_wf_transition:
  assumes "window_wf w"
  shows "window_wf (onCutTransition w)" and "window_wf (onFadeTransition w)"
  unfolding onCutTransition_def onFadeTransition_def
  by (rule window_wf_switch, rule window_wf_cong[OF assms]; simp)+

lemma window_wf_row:
  assumes "window_wf w" and "i < length (mw_scenes w)"
  shows "window_wf (w\<lparr>mw_row := int i\<rparr>)"
  using assms by (simp add: window_wf_def)

lemma window_wf_scene_command:
  assumes "window_wf w"
  shows "window_wf (scene_command cmd param w)"
proof -
  consider "cmd = 3" | "cmd = 4" | "cmd = 5" "unat param < length (mw_scenes w)"
    | "cmd \<noteq> 3" "cmd \<noteq> 4" "\<not> (cmd = 5 \<and> unat param < length (mw_scenes w))" by blast
  then show ?thesis
  proof cases
    case 3
    then show ?thesis using window_wf_transition(1)[OF window_wf_row[OF assms 3(2)]]
      by (simp add: scene_command_def)
  next
    case 4
    then have "scene_command cmd param w = w" unfolding scene_command_def Let_def by (simp only: if_False)
    then show ?thesis by (simp add: assms)
  qed (simp_all add: scene_command_def assms window_wf_transition)
qed

lemma window_wf_activated:
  assumes "window_wf w"
  shows "window_wf (scene_activated i w)"
proof (cases "i < length (mw_scenes w)")
  case True
  have "window_wf (switch_event (w\<lparr>mw_row := int i, mw_status := StToProgram (mw_scenes w ! i),
      mw_program := beginTransition Cut 300 (mw_program w)\<rparr>))"
    by (rule window_wf_switch, rule window_wf_cong[OF window_wf_row[OF assms True]]) simp_all
  then show ?thesis using True by (simp add: scene_activated_def Let_def)
qed (use assms in \<open>simp add: scene_activated_def\<close>)

lemma window_wf_add: "window_wf w \<Longrightarrow> window_wf (addScene number w)"
  by (simp add: addScene_def Let_def window_wf_def pushSceneNamesToRust_def tell_def known_scenes_append
      switches_ok_append)

lemma window_wf_remove:
  assumes "window_wf w"
  shows "window_wf (removeScene q w)"
proof (cases "length (mw_scenes w) \<le> 1")
  case False
  let ?ns = "take (nat (mw_row w)) (mw_scenes w) @ drop (Suc (nat (mw_row w))) (mw_scenes w)"
  have "nat (mw_row w) < length (mw_scenes w)" using assms by (simp add: window_wf_def nat_less_iff)
  then have len: "length ?ns = length (mw_scenes w) - 1" by simp
  have "window_wf (pushSceneNamesToRust (w\<lparr>mw_scenes := ?ns, mw_row := r\<rparr>))"
    if "0 \<le> r" "r < int (length (mw_scenes w)) - 1" for r
    using assms that len False by (intro window_wf_push) (simp_all add: window_wf_def of_nat_diff)
  then show ?thesis
    using False by (auto simp: removeScene_def Let_def)
qed (use assms in \<open>simp add: removeScene_def\<close>)

lemma window_wf_drag:
  assumes "window_wf w"
  shows "window_wf (drag_scene i j w)"
  using assms by (auto simp: drag_scene_def Let_def window_wf_def)

lemma window_wf_settings_ok:
  assumes "window_wf w"
  shows "window_wf (settings_ok w)"
proof -
  have "window_wf (tell cs (w\<lparr>mw_rules := r, mw_overlay := ov\<rparr>))" if "list_all plain_call cs" for cs r ov
    by (rule window_wf_tell[OF window_wf_cong[OF assms] that]) simp_all
  then show ?thesis
    by (simp add: settings_ok_def onOkClicked_def healing_mode_changed_def notifyHealingSettingsSaved_def
        syncAutoApproveToRust_def syncWsPasswordToRust_def window_wf_def)
qed

lemma window_wf_stream: "window_wf w \<Longrightarrow> window_wf (startStream w) \<and> window_wf (stopStream w)"
  by (auto simp: startStream_def stopStream_def window_wf_def tell_def known_scenes_append
      switches_ok_append split: prod.split bool.split)

text \<open>The suggestion of a profile only touches the rules, the dialog and its mark in the settings.\<close>

lemma suggest_timer_fields:
  "\<exists>r b. suggest_timer valid resource env w = w\<lparr>mw_rules := r, mw_suggest_due := b\<rparr>"
proof -
  have m: "\<exists>r. maybeSuggestProfileOnFirstRun valid resource env v = v\<lparr>mw_rules := r\<rparr>" for v
  proof (cases "to_bool (stored (rw_store (mw_rules v)) ''profile/asked'' (QBool False))")
    case True
    then show ?thesis by (intro exI[of _ "mw_rules v"]) (simp add: maybeSuggestProfileOnFirstRun_def)
  next
    case False
    then show ?thesis by (auto simp: maybeSuggestProfileOnFirstRun_def Let_def split: option.split)
  qed
  show ?thesis
  proof (cases "mw_suggest_due w")
    case True
    obtain r where "maybeSuggestProfileOnFirstRun valid resource env (w\<lparr>mw_suggest_due := False\<rparr>)
        = w\<lparr>mw_suggest_due := False\<rparr>\<lparr>mw_rules := r\<rparr>" using m by blast
    then show ?thesis using True by (intro exI[of _ r] exI[of _ False]) (simp add: suggest_timer_def)
  next
    case False
    then show ?thesis by (intro exI[of _ "mw_rules w"] exI[of _ False]) (simp add: suggest_timer_def)
  qed
qed

lemma window_wf_step: "window_wf w \<Longrightarrow> window_wf (window_step number valid resource i w)"
proof (cases i)
  case (WOverlay x)
  assume "window_wf w"
  then show ?thesis by (auto simp: WOverlay window_step_def overlay_input_window_def Let_def window_wf_def
        split: overlay_input.split)
next
  case (WMetrics m)
  assume "window_wf w"
  then show ?thesis by (auto simp: WMetrics window_step_def pollMetrics_def Let_def window_wf_def split: option.split)
next
  case (WSuggest env)
  assume w: "window_wf w"
  obtain r b where "suggest_timer valid resource env w = w\<lparr>mw_rules := r, mw_suggest_due := b\<rparr>"
    using suggest_timer_fields by blast
  then show ?thesis using w by (simp add: WSuggest window_step_def window_wf_def)
next
  case (WHealing ty obj)
  assume "window_wf w"
  then show ?thesis
    by (auto simp: WHealing window_step_def postHealingEventFromRust_def window_wf_def split: option.split)
qed (simp_all add: window_step_def window_wf_add window_wf_remove window_wf_drag window_wf_activated
    window_wf_row window_wf_transition window_wf_scene_command window_wf_stream window_wf_settings_ok,
    simp_all add: window_wf_def rename_scene_def ready_timer_def onSettingsClicked_def closeEvent_def
      stopFrameThread_def saveWindowState_def Let_def)

lemma window_run_simps [simp]:
  "window_run number valid resource [] w = w"
  "window_run number valid resource (i # is) w
     = window_run number valid resource is (window_step number valid resource i w)"
  by (simp_all add: window_run_def)

interpretation window_machine: always_kept "window_step number valid resource" window_wf
  for number valid resource
  by unfold_locales (rule window_wf_step)

lemma window_run_wf: "window_wf w \<Longrightarrow> window_wf (window_run number valid resource is w)"
  unfolding window_run_def by (rule window_machine.any_run_keeps)

lemma window_wf_built: "window_wf (buildCentralWidget dialog (window_widgets rules))"
proof -
  have "window_wf (pushSceneNamesToRust (window_widgets rules))"
    by (rule window_wf_push) (simp_all add: window_widgets_def first_scenes_def)
  then show ?thesis
    by (auto simp: buildCentralWidget_def startup_sync_def syncAutoApproveToRust_def
        syncWsPasswordToRust_def intro: window_wf_tell split: option.split)
qed

lemma initPipeline_window:
  assumes "initPipeline cfg env wenv w = Val (ok, w')"
  shows "mw_scenes w' = mw_scenes w" "mw_row w' = mw_row w" "mw_active w' = mw_active w"
    "mw_start_enabled w' = mw_start_enabled w" "mw_stop_enabled w' = mw_stop_enabled w"
    "mw_rust w' = mw_rust w" "mw_rules w' = mw_rules w" "mw_overlay w' = mw_overlay w"
  using assms
  by (auto simp: initPipeline_def and_then_Val startFrameThread_def Let_def split: if_splits)

lemma window_construct_Val:
  assumes "window_construct cv st devices file dir engine env wenv = Val w"
  shows "window_wf w"
    and "mw_rust w = [SceneNames first_scenes]" "ov_mode (mw_overlay w) = CoPilot"
proof -
  let ?b = "buildCentralWidget None (window_widgets (rules_ui_new file dir engine (dialog_new cv st devices) st))"
  let ?w = "loadWindowState cv ?b"
  let ?v = "?w\<lparr>mw_rules := restore_auto_reload (mw_rules ?w)\<rparr>"
  obtain ok u where u: "initPipeline (config_of_dialog (mw_dialog ?v)) env wenv ?v = Val (ok, u)"
    "w = (if ok then u else u\<lparr>mw_status := StInitFailed\<rparr>)"
    using assms by (auto simp: window_construct_def Let_def and_then_Val)
  note k = initPipeline_window[OF u(1)]
  have "window_wf ?v" by (rule window_wf_cong[OF window_wf_built]) (simp_all add: loadWindowState_def)
  then have "window_wf u" by (rule window_wf_cong) (simp_all add: k)
  then show "window_wf w" by (auto simp: u(2) window_wf_def)
  show "mw_rust w = [SceneNames first_scenes]" "ov_mode (mw_overlay w) = CoPilot"
    using k(6,8) by (simp_all add: u(2) loadWindowState_def buildCentralWidget_def pushSceneNamesToRust_def tell_def
        startup_sync_def window_widgets_def overlay_new_def)
qed

section \<open>What the orchestrator knows of the settings\<close>

fun known_mode :: "u32 \<Rightarrow> rust_call list \<Rightarrow> u32" where
  "known_mode m [] = m"
| "known_mode m (SetHealingMode m' # cs) = known_mode m' cs"
| "known_mode m (c # cs) = known_mode m cs"

fun known_auto :: "u32 \<Rightarrow> bool option \<Rightarrow> rust_call list \<Rightarrow> bool option" where
  "known_auto cat b [] = b"
| "known_auto cat b (SetAutoApprove c v # cs) = known_auto cat (if c = cat then Some v else b) cs"
| "known_auto cat b (c # cs) = known_auto cat b cs"

lemma known_mode_append: "known_mode m (xs @ ys) = known_mode (known_mode m xs) ys"
  by (induction m xs rule: known_mode.induct) simp_all

lemma known_auto_append: "known_auto cat b (xs @ ys) = known_auto cat (known_auto cat b xs) ys"
  by (induction cat b xs rule: known_auto.induct) simp_all

fun known_password :: "string option \<Rightarrow> rust_call list \<Rightarrow> string option" where
  "known_password p [] = p"
| "known_password p (SetWsPassword p' # cs) = known_password (Some p') cs"
| "known_password p (c # cs) = known_password p cs"

lemma known_password_append: "known_password p (xs @ ys) = known_password (known_password p xs) ys"
  by (induction p xs rule: known_password.induct) simp_all

lemmas known_appends = known_mode_append known_auto_append known_password_append

definition saved_keys :: "string list" where
  "saved_keys = [''video/bitrate_kbps'', ''video/fps'', ''srt/host'', ''srt/port'', ''output/protocol'',
     ''rtmp/url'', ''rtmp/key'', ''ws/password'', ''audio/enabled'', ''audio/device_id'']"

text \<open>The settings as the panel, the orchestrator and the store have them.\<close>

definition panel_settings :: "overlay \<Rightarrow> rust_call list \<Rightarrow> healing_mode \<times> u32 \<times> bool option list \<times> string option" where
  "panel_settings ov cs =
     (ov_mode ov, known_mode 0 cs,
      map (\<lambda>c. known_auto c None cs) [RJ_ACTION_CAT_BITRATE, RJ_ACTION_CAT_RESOLUTION, RJ_ACTION_CAT_FPS],
      known_password None cs)"

definition stored_settings :: "settings_store \<Rightarrow> qvariant option list" where
  "stored_settings st = map st saved_keys"

lemma ov_mode_setHealingMode [simp]: "ov_mode (setHealingMode m s) = m"
  by (simp add: setHealingMode_def Let_def)

section \<open>The first run\<close>

lemma store_after_rules:
  "rw_store (snd (backup_rules io s)) = rw_store s" "rw_store (snd (write_file src io s)) = rw_store s"
  "rw_store (reloadRulesNow valid now s) = rw_store s" "rw_store (armRulesWatch s) = rw_store s"
  by (auto simp: backup_rules_def write_file_def put_file_def reloadRulesNow_def rj_reload_rules_def
      set_label_def watch_defs Let_def split: option.split)

lemma store_write_validated: "rw_store (snd (writeValidatedRules valid src src' io s)) = rw_store s"
proof -
  have b: "rw_store t = rw_store s" if "backup_rules io s = (x, t)" for x t
    using store_after_rules(1)[of io s] that by simp
  have w: "rw_store u = rw_store t" if "write_file src' io t = (x, u)" for x t u
    using store_after_rules(2)[of src' io t] that by simp
  show ?thesis
    by (auto simp: writeValidatedRules_def store_after_rules b w split: option.split prod.split bool.split)
qed

lemma store_applyProfile: "rw_store (snd (applyProfile valid resource p io s)) = rw_store s"
  using store_write_validated[of valid "Some (resource p)" "Some (resource p)" io s]
  by (auto simp: applyProfile_def label_defs Let_def split: prod.split option.split)

section \<open>The settings between two clicks on OK\<close>

lemma ov_mode_overlay_step: "(\<forall>m. i \<noteq> InMode m) \<Longrightarrow> ov_mode (overlay_step i s) = ov_mode s"
  by (cases i)
    (auto simp: overlay_step_def pollHealingActions_def onActionEvent_def onActionInvalidated_def
      showApprovalPrompt_def clearApprovalPrompt_def count_down_def onReduceBitrate_def showMessage_def
      onVulkanInitFailed_def onTick_def toggle_check_def check_changed_def reject_clicked_def ov_emit_def
      undo_clicked_def Let_def split: option.splits list.splits prod.splits bool.splits)

lemma store_watch:
  "rw_store (forget_file lost s) = rw_store s" "rw_store (file_changed s) = rw_store s"
  "rw_store (dir_changed s) = rw_store s" "rw_store (put_file lost c s) = rw_store s"
  "rw_store (ensureRulesWatcher s) = rw_store s"
  by (auto simp: watch_defs put_file_def ensureRulesWatcher_def split: option.split)

lemma store_toggle:
  "stored_settings (rw_store (toggle_auto_reload b s)) = stored_settings (rw_store s)"
  by (auto simp: toggle_auto_reload_def onAutoReloadToggled_def label_defs store_watch store_after_rules
      stored_settings_def saved_keys_def Let_def split: option.split prod.split)

lemma store_editor: "rw_store (openRulesInEditor io ok s) = rw_store s"
  by (auto simp: openRulesInEditor_def seedRulesFromTemplate_def label_defs store_watch store_after_rules
      Let_def split: option.split bool.split prod.split)

lemma store_import: "rw_store (importRules valid src src' io s) = rw_store s"
  using store_write_validated[of valid src src' io s]
  by (auto simp: importRules_def label_defs split: prod.split option.split)

lemma store_export: "rw_store (snd (exportRules valid chosen io s)) = rw_store s"
  by (simp add: exportRules_def label_defs split: option.split)

lemma store_rules_step:
  "stored_settings (rw_store (rules_step valid resource i s)) = stored_settings (rw_store s)"
  by (cases i)
    (simp_all add: rules_step_def restore_auto_reload_def debounce_fires_def external_replace_def
      external_modify_def external_delete_def store_toggle store_editor store_import store_export
      store_applyProfile store_watch store_after_rules)

abbreviation window_settings :: "window \<Rightarrow> (healing_mode \<times> u32 \<times> bool option list \<times> string option) \<times> qvariant option list" where
  "window_settings w \<equiv>
     (panel_settings (mw_overlay w) (mw_rust w), stored_settings (rw_store (mw_rules w)))"

fun keeps_settings :: "rust_call \<Rightarrow> bool" where
  "keeps_settings (SetHealingMode m) = False"
| "keeps_settings (SetAutoApprove c b) = False"
| "keeps_settings (SetWsPassword p) = False"
| "keeps_settings _ = True"

lemma panel_settings_cong:
  assumes "ov_mode ov' = ov_mode ov" and "keeps_settings c"
  shows "panel_settings ov' cs = panel_settings ov cs"
    and "panel_settings ov' (cs @ [c]) = panel_settings ov cs"
  using assms by (cases c; simp add: panel_settings_def known_appends)+

lemma keeps_settings_simps [simp]:
  "keeps_settings c \<Longrightarrow> panel_settings ov (cs @ [c]) = panel_settings ov cs"
  by (rule panel_settings_cong) simp_all

lemma suggest_keeps_settings:
  "stored_settings (rw_store (mw_rules (suggest_timer valid resource env w))) = stored_settings (rw_store (mw_rules w))"
proof -
  have k: "stored_settings (st(''profile/asked'' \<mapsto> v)) = stored_settings st" for st v
    by (simp add: stored_settings_def saved_keys_def)
  show ?thesis
    by (auto simp: suggest_timer_def maybeSuggestProfileOnFirstRun_def Let_def k store_applyProfile split: option.split)
qed

lemma window_settings_step:
  assumes "i \<noteq> WOk"
  shows "window_settings (window_step number valid resource i w) = window_settings w"
proof (cases i)
  case (WOverlay o')
  have "panel_settings (overlay_step o' (mw_overlay w)) cs = panel_settings (mw_overlay w) cs"
    if "\<forall>m. o' \<noteq> InMode m" for cs
    by (rule panel_settings_cong(1)[OF ov_mode_overlay_step[OF that], of StreamStart]) simp
  then show ?thesis
    by (cases o') (simp_all add: WOverlay window_step_def overlay_input_window_def Let_def)
next
  case (WHealing ty obj)
  have "panel_settings (onReduceBitrate k r ov) cs = panel_settings ov cs" for k r ov cs
    by (rule panel_settings_cong(1)[of _ _ StreamStart])
      (simp_all add: onReduceBitrate_def showMessage_def count_down_def)
  then show ?thesis
    by (auto simp: WHealing window_step_def postHealingEventFromRust_def split: option.split)
next
  case (WSuggest env)
  obtain r b where "suggest_timer valid resource env w = w\<lparr>mw_rules := r, mw_suggest_due := b\<rparr>"
    using suggest_timer_fields by blast
  then show ?thesis using suggest_keeps_settings[of valid resource env w] by (simp add: WSuggest window_step_def)
next
  case (WClose geometry state finished)
  then show ?thesis
    by (simp add: window_step_def closeEvent_def stopFrameThread_def saveWindowState_def stored_settings_def saved_keys_def)
qed (use assms in \<open>auto simp: window_step_def addScene_def removeScene_def rename_scene_def drag_scene_def
    scene_activated_def onCutTransition_def onFadeTransition_def scene_command_def startStream_def
    stopStream_def settings_ok_def onSettingsClicked_def ready_timer_def pollMetrics_def switch_event_def
    pushSceneNamesToRust_def tell_def store_rules_step Let_def split: prod.split bool.split option.split\<close>)

interpretation between_oks: kept_by_steps "\<lambda>i. i \<noteq> WOk" "window_step number valid resource"
    "\<lambda>w. window_settings w = v"
  for number valid resource v
  by unfold_locales (rule trans[OF window_settings_step])

lemma window_settings_run:
  assumes "WOk \<notin> set is"
  shows "window_settings (window_run number valid resource is w) = window_settings w"
  unfolding window_run_def
  by (rule between_oks.run_keeps[OF refl]) (use assms in \<open>auto simp: list_all_iff\<close>)

lemma window_settings_ok:
  fixes w :: window
  defines "d \<equiv> mw_dialog w"
  shows "window_settings (settings_ok w) =
    ((sd_mode d, healing_mode_code (sd_mode d),
      [Some (sd_bitrate_auto d), Some (sd_resolution_auto d), Some (sd_fps_auto d)],
      Some (sd_ws_password d)),
     [Some (QInt (sd_bitrate d)), Some (QInt (fps_data d)), Some (QStr (sd_srt_host d)),
      Some (QInt (sd_srt_port d)), Some (QInt (int (sd_protocol_index d))), Some (QStr (sd_rtmp_url d)),
      Some (QStr (sd_rtmp_key d)), Some (QStr (sd_ws_password d)), Some (QBool (sd_audio d)),
      Some (QStr (audioDeviceId d))])"
  by (simp add: d_def settings_ok_def onOkClicked_def healing_mode_changed_def notifyHealingSettingsSaved_def
      tell_def known_appends syncAutoApproveToRust_def syncWsPasswordToRust_def panel_settings_def
      stored_settings_def saved_keys_def save_settings_def model_defs)

section \<open>Behaviour at the edges\<close>

text \<open>The check box of the healing mode says Co-Pilot after the start, but the orchestrator, whose
  mode starts at 0 (Auto-Pilot), has not been told anything but the names of the scenes.\<close>

lemma startup_mode_differs:
  assumes "window_construct cv st devices file dir engine env wenv = Val w"
  shows "known_mode 0 (mw_rust w) = healing_mode_code AutoPilot \<and>
    ov_mode (mw_overlay w) = CoPilot \<and> known_auto cat None (mw_rust w) = None"
  using window_construct_Val[OF assms] by (simp add: healing_mode_code_def)

text \<open>What is saved when the window closes is what the next start restores.\<close>

lemma window_state_round_trip:
  assumes "window_construct cv (rw_store (mw_rules (closeEvent geometry state finished w))) devices file dir engine env wenv
    = Val w'"
  shows "mw_restored w' = (Some geometry, Some state)"
proof -
  let ?st = "rw_store (mw_rules (closeEvent geometry state finished w))"
  let ?b = "loadWindowState cv (buildCentralWidget None (window_widgets (rules_ui_new file dir engine (dialog_new cv ?st devices) ?st)))"
  let ?v = "?b\<lparr>mw_rules := restore_auto_reload (mw_rules ?b)\<rparr>"
  obtain ok u where u: "initPipeline (config_of_dialog (mw_dialog ?v)) env wenv ?v = Val (ok, u)"
    "w' = (if ok then u else u\<lparr>mw_status := StInitFailed\<rparr>)"
    using assms by (auto simp: window_construct_def Let_def and_then_Val)
  have "mw_restored u = mw_restored ?v"
    using u(1) by (auto simp: initPipeline_def and_then_Val startFrameThread_def Let_def split: if_splits)
  moreover have "mw_restored ?v = (Some geometry, Some state)"
    by (simp add: loadWindowState_def buildCentralWidget_def pushSceneNamesToRust_def tell_def window_widgets_def
        rules_ui_new_def closeEvent_def stopFrameThread_def saveWindowState_def to_text_def)
  ultimately show ?thesis using u(2) by simp
qed

text \<open>A stream started over the web socket is unknown to the window: its stop button stays
  disabled, and a stop does nothing.\<close>

lemma stop_ignored_when_started_remotely:
  assumes "\<not> mw_active w" and "is_running p"
  shows "stopStream (w\<lparr>mw_pipe := p\<rparr>) = w\<lparr>mw_pipe := p\<rparr> \<and>
    is_running (mw_pipe (stopStream (w\<lparr>mw_pipe := p\<rparr>)))"
  using assms by (simp add: stopStream_def)

text \<open>A name that is edited or dragged is not sent, so the orchestrator's list differs from the
  one on the screen; and a scene added after a removal takes a name that is in use.\<close>

definition digits :: "nat \<Rightarrow> string" where "digits n = [''0123456789'' ! n]"

lemma rename_is_not_sent:
  "let w = window_run digits valid resource [WRename 0 ''Kamera''] (buildCentralWidget None (window_widgets r)) in
   mw_scenes w ! 0 = ''Kamera'' \<and> known_scenes [] (mw_rust w) = first_scenes"
  by (simp add: window_step_def rename_scene_def buildCentralWidget_def startup_sync_def window_widgets_def
      pushSceneNamesToRust_def tell_def first_scenes_def)

lemma added_scene_repeats_a_name:
  "mw_scenes (window_run digits valid resource [WRemove 0, WAdd] (buildCentralWidget None (window_widgets r)))
     = [''Sahne 2'', ''Sahne 3'', ''Sahne 3'']"
  by (simp add: window_step_def removeScene_def addScene_def buildCentralWidget_def startup_sync_def
      window_widgets_def pushSceneNamesToRust_def tell_def first_scenes_def digits_def Let_def)

text \<open>The dialog offers bitrates below the floor of the configuration (1000 kbps, not adjustable):
  there the action that should reduce the bitrate raises it.\<close>

lemma reduce_raises_a_low_bitrate:
  assumes "dialog_ok d" and "sd_bitrate d < 1000"
  shows "unat (videoBitrateKbps d) < 1000 \<and>
    1000 \<le> unat (reduce_target (cg_min_bitrate (config_of_dialog d)) (cg_bitrate (config_of_dialog d)) step)"
proof -
  have "int (unat (videoBitrateKbps d)) < int 1000" using videoBitrate_unat[OF assms(1)] assms(2) by linarith
  then have "unat (videoBitrateKbps d) < 1000" by (simp only: of_nat_less_iff)
  moreover have "(1000 :: u32) \<le> reduce_target 1000 b step" for b by (simp add: reduce_target_def)
  ultimately show ?thesis by (simp add: config_of_dialog_def word_le_nat_alt)
qed

lemma on_source_dxgi_cbs [simp]:
  "im_preview_cb (on_source_dxgi f s) = im_preview_cb s" "im_d3d_cb (on_source_dxgi f s) = im_d3d_cb s"
  "im_scene_cb (on_source_dxgi f s) = im_scene_cb s"
  by (simp_all add: on_source_dxgi_def set_dxgi_def split: option.split)

lemma wired_callbacks:
  "case pp_impl (wireUpPipeline env p) of
     Some s \<Rightarrow> im_preview_cb s \<and> im_d3d_cb s \<and> im_scene_cb s | None \<Rightarrow> False"
proof -
  have d3d: "\<exists>s. pp_impl (snd (set_d3d11_frame_callback n True e b q)) = Some s \<and> im_d3d_cb s" for n e b q
    by (auto simp: set_d3d11_frame_callback_def Let_def split: prod.split)
  have prev: "\<exists>s'. pp_impl (snd (set_preview_callback n True q)) = Some s' \<and> im_d3d_cb s' \<and> im_preview_cb s'"
    if "pp_impl q = Some s" "im_d3d_cb s" for n q s
    using that by (simp add: set_preview_callback_def ensure_impl_def)
  have scene: "\<exists>s'. pp_impl (snd (set_scene_command_callback n True q)) = Some s' \<and>
      im_d3d_cb s' \<and> im_preview_cb s' \<and> im_scene_cb s'"
    if "pp_impl q = Some s" "im_d3d_cb s" "im_preview_cb s" for n q s
    using that by (simp add: set_scene_command_callback_def ensure_impl_def)
  show ?thesis
    unfolding wireUpPipeline_def Let_def
    by (metis (no_types, lifting) d3d prev scene option.simps(5))
qed

section \<open>Properties\<close>




text \<open>The suggestion of a hardware profile is made once, and it is too late for the encoder:
  whatever the user answers, afterwards the question is marked as asked and asking again changes
  nothing; the running pipeline and its configuration are untouched, and so are the stored bitrate
  and frame rate, which the next start will use.\<close>

theorem suggestion_made_once_without_effect_on_encoding:
  "let w' = maybeSuggestProfileOnFirstRun valid resource env w in
   maybeSuggestProfileOnFirstRun valid resource env' w' = w' \<and>
   mw_pipe w' = mw_pipe w \<and> mw_cfg w' = mw_cfg w \<and>
   rw_store (mw_rules w') ''video/bitrate_kbps'' = rw_store (mw_rules w) ''video/bitrate_kbps'' \<and>
   rw_store (mw_rules w') ''video/fps'' = rw_store (mw_rules w) ''video/fps''"
proof (cases "to_bool (stored (rw_store (mw_rules w)) ''profile/asked'' (QBool False))")
  case False
  let ?r = "(mw_rules w)\<lparr>rw_store := (rw_store (mw_rules w))(''profile/asked'' \<mapsto> QBool True)\<rparr>"
  obtain r' where r': "maybeSuggestProfileOnFirstRun valid resource env w = w\<lparr>mw_rules := r'\<rparr>"
    "rw_store r' = rw_store ?r"
  proof (cases "chosen_profile (suggest_profile (collect_hw_signals (su_memory env) (su_power env)
      (max_vram_vendor_id (mw_pipe w)) (max_gpu_vram_mb (mw_pipe w)))) (su_answer env)")
    case None
    then show ?thesis using False that[of ?r] by (simp add: maybeSuggestProfileOnFirstRun_def Let_def)
  next
    case (Some p)
    then show ?thesis
      using False that[of "snd (applyProfile valid resource p (su_io env) ?r)"]
      by (simp add: maybeSuggestProfileOnFirstRun_def Let_def store_applyProfile)
  qed
  then show ?thesis
    by (simp add: maybeSuggestProfileOnFirstRun_def[of _ _ env'] stored_def to_bool_def)
qed (simp add: maybeSuggestProfileOnFirstRun_def)

end
