(* ===== verification/FrameProfiler.thy ===== *)
theory FrameProfiler
  imports Float32 "HOL-Library.Multiset"
begin

text \<open>
  The frame profiler (\<open>src/src/pipeline/frame_profiler.cpp\<close>): a ring of the last 3600 frame
  timings, filled by the marks of three threads (each under the lock, so a step), and the report
  with the median, the 95th percentile and the maximum of every phase. The clock is an argument of
  the marks. The ring is compared with the plain list of all committed frames.
\<close>

section \<open>State and marks\<close>

record timing =
  ti_acquire :: u64
  ti_copy :: u64
  ti_paint :: u64

record profiler_marks =
  pm_acquire :: u64
  pm_copy :: u64
  pm_paint :: u64

record profiler =
  pf_samples :: "timing list"
  pf_head :: nat
  pf_count :: nat
  pf_marks :: profiler_marks
  pf_finalized :: bool

definition MAX_SAMPLES :: nat where "MAX_SAMPLES = 3600"

text \<open>The array is not initialised: \<open>junk\<close> is what it holds.\<close>

definition profiler_new :: "(nat \<Rightarrow> timing) \<Rightarrow> profiler" where
  "profiler_new junk = \<lparr>pf_samples = map junk [0..<MAX_SAMPLES], pf_head = 0, pf_count = 0,
     pf_marks = \<lparr>pm_acquire = 0, pm_copy = 0, pm_paint = 0\<rparr>, pf_finalized = False\<rparr>"

definition markAcquireStart :: "u64 \<Rightarrow> profiler \<Rightarrow> profiler" where
  "markAcquireStart now p = p\<lparr>pf_marks := (pf_marks p)\<lparr>pm_acquire := now\<rparr>\<rparr>"

definition commit_sample :: "timing \<Rightarrow> profiler \<Rightarrow> profiler" where
  "commit_sample t p =
     p\<lparr>pf_samples := (pf_samples p)[pf_head p mod MAX_SAMPLES := t], pf_head := Suc (pf_head p),
       pf_count := min (pf_count p + 1) MAX_SAMPLES\<rparr>"

definition markAcquireEnd :: "u64 \<Rightarrow> profiler \<Rightarrow> profiler" where
  "markAcquireEnd now p =
     (let start = pm_acquire (pf_marks p);
          p = (if start > 0 \<and> now \<ge> start then
                 commit_sample \<lparr>ti_acquire = now - start, ti_copy = 0, ti_paint = 0\<rparr> p
               else p) in
      p\<lparr>pf_marks := (pf_marks p)\<lparr>pm_acquire := 0\<rparr>\<rparr>)"

definition annotate :: "(timing \<Rightarrow> timing) \<Rightarrow> profiler \<Rightarrow> profiler" where
  "annotate f p =
     (let i = (pf_head p - 1) mod MAX_SAMPLES in p\<lparr>pf_samples := (pf_samples p)[i := f (pf_samples p ! i)]\<rparr>)"

definition markCopyStart :: "u64 \<Rightarrow> profiler \<Rightarrow> profiler" where
  "markCopyStart now p = p\<lparr>pf_marks := (pf_marks p)\<lparr>pm_copy := now\<rparr>\<rparr>"

definition markCopyEnd :: "u64 \<Rightarrow> profiler \<Rightarrow> profiler" where
  "markCopyEnd now p =
     (let start = pm_copy (pf_marks p);
          p = (if start > 0 \<and> now \<ge> start \<and> pf_count p > 0 then
                 annotate (\<lambda>t. t\<lparr>ti_copy := now - start\<rparr>) p else p) in
      p\<lparr>pf_marks := (pf_marks p)\<lparr>pm_copy := 0\<rparr>\<rparr>)"

definition markPaintGLStart :: "u64 \<Rightarrow> profiler \<Rightarrow> profiler" where
  "markPaintGLStart now p = p\<lparr>pf_marks := (pf_marks p)\<lparr>pm_paint := now\<rparr>\<rparr>"

definition markPaintGLEnd :: "u64 \<Rightarrow> profiler \<Rightarrow> profiler" where
  "markPaintGLEnd now p =
     (let start = pm_paint (pf_marks p);
          p = (if start > 0 \<and> now \<ge> start \<and> pf_count p > 0 then
                 annotate (\<lambda>t. t\<lparr>ti_paint := now - start\<rparr>) p else p) in
      p\<lparr>pf_marks := (pf_marks p)\<lparr>pm_paint := 0\<rparr>\<rparr>)"

section \<open>The report\<close>

definition percentile_index :: "nat \<Rightarrow> rat \<Rightarrow> nat" where
  "percentile_index n q =
     (let idx = nat \<lceil>f32 (rat_of_nat n * f32 (q / 100))\<rceil> - 1 in if idx \<ge> n then n - 1 else idx)"

definition percentile :: "u64 list \<Rightarrow> rat \<Rightarrow> u64" where
  "percentile xs q = (if xs = [] then 0 else xs ! percentile_index (length xs) q)"

record phase_report =
  ph_p50 :: u64
  ph_p95 :: u64
  ph_max :: u64

definition phase_of :: "u64 list \<Rightarrow> phase_report" where
  "phase_of durations = (let xs = sort durations in
     \<lparr>ph_p50 = percentile xs 50, ph_p95 = percentile xs 95, ph_max = xs ! (length xs - 1)\<rparr>)"

definition sampleCount :: "profiler \<Rightarrow> nat" where
  "sampleCount p = pf_count p"

text \<open>The answer is what is printed: nothing when the report was made before, no phases without
  samples.\<close>

definition report_of :: "timing list \<Rightarrow> phase_report list" where
  "report_of ts = (if ts = [] then []
     else [phase_of (map ti_acquire ts), phase_of (map ti_copy ts), phase_of (map ti_paint ts)])"

definition finalize :: "profiler \<Rightarrow> phase_report list option \<times> profiler" where
  "finalize p =
     (if pf_finalized p then (None, p)
      else (Some (report_of (take (pf_count p) (pf_samples p))), p\<lparr>pf_finalized := True\<rparr>))"

definition profiler_destroy :: "profiler \<Rightarrow> phase_report list option" where
  "profiler_destroy p = (if pf_finalized p then None else fst (finalize p))"

datatype mark = AcquireStart u64 | AcquireEnd u64 | CopyStart u64 | CopyEnd u64 | PaintStart u64 | PaintEnd u64

definition mark_step :: "mark \<Rightarrow> profiler \<Rightarrow> profiler" where
  "mark_step m p = (case m of
       AcquireStart t \<Rightarrow> markAcquireStart t p
     | AcquireEnd t \<Rightarrow> markAcquireEnd t p
     | CopyStart t \<Rightarrow> markCopyStart t p
     | CopyEnd t \<Rightarrow> markCopyEnd t p
     | PaintStart t \<Rightarrow> markPaintGLStart t p
     | PaintEnd t \<Rightarrow> markPaintGLEnd t p)"

definition mark_run :: "mark list \<Rightarrow> profiler \<Rightarrow> profiler" where
  "mark_run ms p = fold mark_step ms p"

section \<open>The list of all frames\<close>

text \<open>The specification keeps every committed frame, newest first.\<close>

record frame_log =
  fl_frames :: "timing list"
  fl_marks :: profiler_marks

definition log_end ::
  "(profiler_marks \<Rightarrow> u64) \<Rightarrow> u64 \<Rightarrow> (u64 \<Rightarrow> timing list \<Rightarrow> timing list) \<Rightarrow> frame_log \<Rightarrow> timing list" where
  "log_end start now f l =
     (if start (fl_marks l) > 0 \<and> now \<ge> start (fl_marks l) then f (now - start (fl_marks l)) (fl_frames l)
      else fl_frames l)"

fun map_hd :: "('a \<Rightarrow> 'a) \<Rightarrow> 'a list \<Rightarrow> 'a list" where
  "map_hd f [] = []"
| "map_hd f (x # xs) = f x # xs"

definition log_step :: "mark \<Rightarrow> frame_log \<Rightarrow> frame_log" where
  "log_step m l = (case m of
       AcquireStart t \<Rightarrow> l\<lparr>fl_marks := (fl_marks l)\<lparr>pm_acquire := t\<rparr>\<rparr>
     | CopyStart t \<Rightarrow> l\<lparr>fl_marks := (fl_marks l)\<lparr>pm_copy := t\<rparr>\<rparr>
     | PaintStart t \<Rightarrow> l\<lparr>fl_marks := (fl_marks l)\<lparr>pm_paint := t\<rparr>\<rparr>
     | AcquireEnd t \<Rightarrow>
         l\<lparr>fl_frames := log_end pm_acquire t (\<lambda>d ts. \<lparr>ti_acquire = d, ti_copy = 0, ti_paint = 0\<rparr> # ts) l,
           fl_marks := (fl_marks l)\<lparr>pm_acquire := 0\<rparr>\<rparr>
     | CopyEnd t \<Rightarrow>
         l\<lparr>fl_frames := log_end pm_copy t (\<lambda>d. map_hd (\<lambda>x. x\<lparr>ti_copy := d\<rparr>)) l,
           fl_marks := (fl_marks l)\<lparr>pm_copy := 0\<rparr>\<rparr>
     | PaintEnd t \<Rightarrow>
         l\<lparr>fl_frames := log_end pm_paint t (\<lambda>d. map_hd (\<lambda>x. x\<lparr>ti_paint := d\<rparr>)) l,
           fl_marks := (fl_marks l)\<lparr>pm_paint := 0\<rparr>\<rparr>)"

definition log_new :: frame_log where
  "log_new = \<lparr>fl_frames = [], fl_marks = \<lparr>pm_acquire = 0, pm_copy = 0, pm_paint = 0\<rparr>\<rparr>"

definition log_run :: "mark list \<Rightarrow> frame_log" where
  "log_run ms = fold log_step ms log_new"

section \<open>The ring implements the log\<close>

definition frame_slot :: "nat \<Rightarrow> nat \<Rightarrow> nat" where
  "frame_slot head k = (head - Suc k) mod MAX_SAMPLES"

definition ring_log :: "profiler \<Rightarrow> frame_log \<Rightarrow> bool" where
  "ring_log p l \<longleftrightarrow>
     length (pf_samples p) = MAX_SAMPLES \<and> pf_head p = length (fl_frames l) \<and>
     pf_count p = min (length (fl_frames l)) MAX_SAMPLES \<and> pf_marks p = fl_marks l \<and>
     (\<forall>k < pf_count p. pf_samples p ! frame_slot (pf_head p) k = fl_frames l ! k)"

lemma MAX_pos [simp]: "0 < MAX_SAMPLES" "MAX_SAMPLES \<noteq> 0"
  by (simp_all add: MAX_SAMPLES_def)

lemma slot_less: "frame_slot h k < MAX_SAMPLES" by (simp add: frame_slot_def)

lemma mod_diff_inj:
  fixes a b n :: nat
  assumes "a mod n = b mod n" and "a \<le> b" and "b - a < n"
  shows "a = b"
proof -
  have "n dvd b - a" using assms(1,2) by (metis mod_eq_dvd_iff_nat)
  then have "b - a = 0" using assms(3) by (meson nat_dvd_not_less not_gr_zero)
  then show ?thesis using assms(2) by simp
qed

lemma slot_inj:
  assumes "j < h" "k < h" "j < MAX_SAMPLES" "k < MAX_SAMPLES" "frame_slot h j = frame_slot h k"
  shows "j = k"
proof -
  have w: "j = k" if "j \<le> k" "j < h" "k < h" "k < MAX_SAMPLES" "frame_slot h j = frame_slot h k" for j k
  proof -
    have "h - Suc k = h - Suc j"
      by (rule mod_diff_inj[of _ MAX_SAMPLES]) (use that in \<open>simp_all add: frame_slot_def\<close>)
    then show ?thesis using that by simp
  qed
  show ?thesis using w[of j k] w[of k j] assms by (cases "j \<le> k") auto
qed

lemma ring_log_nth:
  "ring_log p l \<Longrightarrow> k < pf_count p \<Longrightarrow> pf_samples p ! frame_slot (pf_head p) k = fl_frames l ! k"
  unfolding ring_log_def by blast

lemma log_no_frames: "fl_frames l = [] \<Longrightarrow> l\<lparr>fl_frames := [], fl_marks := m\<rparr> = l\<lparr>fl_marks := m\<rparr>"
  by (cases l) simp

lemma ring_log_commit:
  assumes "ring_log p l"
  shows "ring_log (commit_sample t p) (l\<lparr>fl_frames := t # fl_frames l\<rparr>)"
proof -
  let ?h = "pf_head p" and ?q = "commit_sample t p"
  have len: "length (pf_samples p) = MAX_SAMPLES" using assms by (simp add: ring_log_def)
  have "pf_samples ?q ! frame_slot (Suc ?h) k = (t # fl_frames l) ! k" if k: "k < pf_count ?q" for k
  proof (cases k)
    case 0
    then show ?thesis by (simp add: commit_sample_def frame_slot_def len)
  next
    case (Suc j)
    have j: "j < pf_count p" "j < ?h" "Suc j < MAX_SAMPLES" using k Suc assms
      by (auto simp: commit_sample_def ring_log_def)
    have ne: "frame_slot (Suc ?h) (Suc j) \<noteq> frame_slot (Suc ?h) 0"
      using slot_inj[of "Suc j" "Suc ?h" 0] j by auto
    have "frame_slot (Suc ?h) 0 = ?h mod MAX_SAMPLES" "frame_slot (Suc ?h) (Suc j) = frame_slot ?h j"
      by (simp_all add: frame_slot_def)
    then show ?thesis using Suc ne ring_log_nth[OF assms j(1)] by (simp add: commit_sample_def)
  qed
  then show ?thesis using assms by (auto simp: ring_log_def commit_sample_def)
qed

lemma ring_log_annotate:
  assumes "ring_log p l" and "pf_count p > 0"
  shows "ring_log (annotate f p) (l\<lparr>fl_frames := map_hd f (fl_frames l)\<rparr>)"
proof -
  let ?h = "pf_head p"
  obtain x xs where fr: "fl_frames l = x # xs" using assms by (cases "fl_frames l") (auto simp: ring_log_def)
  have len: "length (pf_samples p) = MAX_SAMPLES" using assms by (simp add: ring_log_def)
  have s0: "(?h - 1) mod MAX_SAMPLES = frame_slot ?h 0" by (simp add: frame_slot_def)
  have hd: "pf_samples p ! frame_slot ?h 0 = x" using assms fr by (auto simp: ring_log_def)
  have "pf_samples (annotate f p) ! frame_slot ?h k = (f x # xs) ! k" if k: "k < pf_count p" for k
  proof (cases k)
    case 0
    then show ?thesis using hd by (simp add: annotate_def Let_def s0 len slot_less del: One_nat_def)
  next
    case (Suc j)
    have kh: "k < ?h" "k < MAX_SAMPLES" using k assms by (auto simp: ring_log_def)
    have "frame_slot ?h k \<noteq> frame_slot ?h 0" using slot_inj[of k ?h 0] kh Suc by auto
    then have "pf_samples (annotate f p) ! frame_slot ?h k = pf_samples p ! frame_slot ?h k"
      by (simp add: annotate_def Let_def s0 del: One_nat_def)
    then show ?thesis using assms k fr Suc by (auto simp: ring_log_def)
  qed
  then show ?thesis using assms fr by (auto simp: ring_log_def annotate_def Let_def)
qed

lemma ring_log_marks: "ring_log p l \<Longrightarrow> ring_log (p\<lparr>pf_marks := m\<rparr>) (l\<lparr>fl_marks := m\<rparr>)"
  by (auto simp: ring_log_def)

lemma ring_log_empty: "ring_log p l \<Longrightarrow> pf_count p = 0 \<longleftrightarrow> fl_frames l = []"
  by (auto simp: ring_log_def min_def split: if_splits)

lemma ring_log_step:
  assumes "ring_log p l"
  shows "ring_log (mark_step m p) (log_step m l)"
proof -
  have mk: "pf_marks p = fl_marks l" using assms by (simp add: ring_log_def)
  have km: "pf_marks (commit_sample t q) = pf_marks q" "pf_marks (annotate f q) = pf_marks q" for t f q
    by (simp_all add: commit_sample_def annotate_def Let_def)
  show ?thesis
  proof (cases m)
    case (AcquireEnd t)
    let ?t = "\<lparr>ti_acquire = t - pm_acquire (fl_marks l), ti_copy = 0, ti_paint = 0\<rparr>"
    show ?thesis
      using ring_log_marks[OF assms] ring_log_marks[OF ring_log_commit[OF assms, of ?t]]
      by (simp add: AcquireEnd mark_step_def log_step_def markAcquireEnd_def log_end_def mk km Let_def)
  next
    case (CopyEnd t)
    let ?f = "\<lambda>x. x\<lparr>ti_copy := t - pm_copy (fl_marks l)\<rparr>"
    show ?thesis
      using ring_log_marks[OF assms] ring_log_marks[OF ring_log_annotate[OF assms, of ?f]]
        ring_log_empty[OF assms]
      by (cases "fl_frames l = []")
        (simp_all add: CopyEnd mark_step_def log_step_def markCopyEnd_def log_end_def mk km Let_def
          log_no_frames)
  next
    case (PaintEnd t)
    let ?f = "\<lambda>x. x\<lparr>ti_paint := t - pm_paint (fl_marks l)\<rparr>"
    show ?thesis
      using ring_log_marks[OF assms] ring_log_marks[OF ring_log_annotate[OF assms, of ?f]]
        ring_log_empty[OF assms]
      by (cases "fl_frames l = []")
        (simp_all add: PaintEnd mark_step_def log_step_def markPaintGLEnd_def log_end_def mk km Let_def
          log_no_frames)
  qed (use ring_log_marks[OF assms] mk in
      \<open>simp_all add: mark_step_def log_step_def markAcquireStart_def markCopyStart_def markPaintGLStart_def\<close>)
qed

lemma ring_log_run: "ring_log p l \<Longrightarrow> ring_log (mark_run ms p) (fold log_step ms l)"
  by (induction ms arbitrary: p l) (simp_all add: mark_run_def ring_log_step)

lemma ring_log_new: "ring_log (profiler_new junk) log_new"
  by (simp add: ring_log_def profiler_new_def log_new_def)

text \<open>The occupied slots hold the last frames, in some order.\<close>

lemma mset_take_nth:
  assumes "n \<le> length xs"
  shows "mset (take n xs) = image_mset (\<lambda>i. xs ! i) (mset_set {0..<n})"
proof -
  have "take n xs = map (\<lambda>i. xs ! i) [0..<n]" by (rule nth_equalityI) (use assms in simp_all)
  then show ?thesis by (simp flip: mset_upt)
qed

lemma ring_mset:
  assumes "ring_log p l"
  shows "mset (take (pf_count p) (pf_samples p)) = mset (take MAX_SAMPLES (fl_frames l))"
proof -
  let ?n = "pf_count p" and ?h = "pf_head p" and ?S = "pf_samples p"
  have n: "?n = min ?h MAX_SAMPLES" "length ?S = MAX_SAMPLES" "?h = length (fl_frames l)"
    using assms by (simp_all add: ring_log_def)
  have inj: "inj_on (frame_slot ?h) {0..<?n}"
    by (rule inj_onI) (rule slot_inj, use n in auto)
  have sub: "frame_slot ?h ` {0..<?n} \<subseteq> {0..<?n}"
  proof
    fix i assume "i \<in> frame_slot ?h ` {0..<?n}"
    then obtain k where k: "k < ?n" "i = frame_slot ?h k" by auto
    then show "i \<in> {0..<?n}"
      using n slot_less[of ?h k] by (cases "?h \<le> MAX_SAMPLES") (auto simp: frame_slot_def)
  qed
  have img: "frame_slot ?h ` {0..<?n} = {0..<?n}"
    by (rule card_subset_eq[OF _ sub]) (use inj in \<open>simp_all add: card_image\<close>)
  have "mset (take ?n ?S) = image_mset (\<lambda>i. ?S ! i) (mset_set {0..<?n})"
    by (rule mset_take_nth) (use n in simp)
  also have "\<dots> = image_mset (\<lambda>i. ?S ! i) (image_mset (frame_slot ?h) (mset_set {0..<?n}))"
    by (simp only: image_mset_mset_set[OF inj] img)
  also have "\<dots> = image_mset (\<lambda>k. ?S ! frame_slot ?h k) (mset_set {0..<?n})"
    by (simp add: multiset.map_comp comp_def)
  also have "\<dots> = image_mset (\<lambda>k. fl_frames l ! k) (mset_set {0..<?n})"
    by (rule image_mset_cong) (use ring_log_nth[OF assms] in simp)
  also have "\<dots> = mset (take MAX_SAMPLES (fl_frames l))"
    using mset_take_nth[of ?n "fl_frames l"] n by (simp add: min_def split: if_splits)
  finally show ?thesis .
qed

section \<open>Percentiles\<close>

lemma f32_half_exact:
  assumes "n < 2 ^ 24"
  shows "f32 (of_nat n / 2) = of_nat n / 2"
proof (cases "n = 0")
  case False
  let ?x = "of_nat n / 2 :: rat"
  have pos: "0 < ?x" using False by simp
  have "?x < 2 ^ 23" using assms of_nat_less_iff[of n "2 ^ 24", where 'a = rat] by simp
  then have p: "pow2 (expo ?x) < 2 ^ 23" using expo_bounds(1)[OF pos] by linarith
  have e: "expo ?x \<le> 22"
  proof (rule ccontr)
    assume "\<not> expo ?x \<le> 22"
    then have "23 \<le> expo ?x" by simp
    then have "(2 :: rat) ^ 23 \<le> 2 ^ nat (expo ?x)" by (intro power_increasing) auto
    with p \<open>23 \<le> expo ?x\<close> show False by (simp add: pow2_def)
  qed
  define k where "k = nat (22 - expo ?x)"
  have u: "pow2 (expo ?x - 23) = 1 / 2 ^ Suc k"
  proof -
    have "\<not> 0 \<le> expo ?x - 23" "nat (- (expo ?x - 23)) = Suc k" using e by (simp_all add: k_def)
    then show ?thesis by (simp only: pow2_def if_False)
  qed
  have "?x / pow2 (expo ?x - 23) = of_int (int n * 2 ^ k)" by (simp add: u)
  then have "f32_pos ?x = of_int (int n * 2 ^ k) * pow2 (expo ?x - 23)"
    by (simp only: f32_pos_def round_half_even_of_int)
  also have "\<dots> = ?x" by (simp add: u)
  finally show ?thesis using pos by (simp add: f32_def)
qed simp

lemma f32_half: "f32 (1 / 2) = 1 / 2"
  using f32_half_exact[of 1] by simp

definition rank_of :: "nat \<Rightarrow> rat \<Rightarrow> int" where
  "rank_of n q = \<lceil>f32 (rat_of_nat n * f32 (q / 100))\<rceil>"

lemma rank_50: "n < 2 ^ 24 \<Longrightarrow> rank_of n 50 = \<lceil>rat_of_nat n / 2\<rceil>"
  by (simp add: rank_of_def f32_half f32_half_exact)

lemma rank_95:
  assumes "n \<le> 3600"
  shows "19 * int n \<le> 20 * rank_of n 95"
proof -
  let ?c = "f32 (95 / 100)" and ?n = "rat_of_nat n"
  have c: "95 / 100 * (1 - 1 / 2 ^ 24) \<le> ?c" by (rule f32_lower) simp
  have n: "0 \<le> ?n" "?n \<le> 3600" using assms by simp_all
  have "?n * (95 / 100 * (1 - 1 / 2 ^ 24)) * (1 - 1 / 2 ^ 24) \<le> f32 (?n * ?c)"
  proof (rule order_trans[OF mult_right_mono])
    show "?n * (95 / 100 * (1 - 1 / 2 ^ 24)) \<le> ?n * ?c" by (rule mult_left_mono[OF c n(1)])
    show "?n * ?c * (1 - 1 / 2 ^ 24) \<le> f32 (?n * ?c)" by (rule f32_lower) (simp add: n(1))
  qed simp
  also have "f32 (?n * ?c) \<le> of_int (rank_of n 95)" unfolding rank_of_def by (rule le_of_int_ceiling)
  finally have up: "?n * (95 / 100 * (1 - 1 / 2 ^ 24)) * (1 - 1 / 2 ^ 24) \<le> of_int (rank_of n 95)" .
  have k: "19 / 20 - 1 / 200000 \<le> (95 / 100 * (1 - 1 / 2 ^ 24)) * (1 - 1 / 2 ^ 24 :: rat)" by simp
  have "?n * (19 / 20 - 1 / 200000) \<le> of_int (rank_of n 95)"
    using mult_left_mono[OF k n(1)] up by (simp only: mult.assoc)
  then have "19 * ?n - 1 < 20 * of_int (rank_of n 95)" using n by (simp add: right_diff_distrib)
  then have "rat_of_int (19 * int n - 1) < rat_of_int (20 * rank_of n 95)"
    by (simp only: of_int_diff of_int_mult of_int_of_nat_eq of_int_numeral of_int_1)
  then have "19 * int n - 1 < 20 * rank_of n 95" by (simp only: of_int_less_iff)
  then show ?thesis by linarith
qed

lemma percentile_index_rank:
  "percentile_index n q = (let i = nat (rank_of n q) - 1 in if i \<ge> n then n - 1 else i)"
  by (simp add: percentile_index_def rank_of_def)

lemma rank_50_bounds:
  assumes "n \<le> 3600"
  shows "int n \<le> 2 * rank_of n 50" and "2 * rank_of n 50 \<le> int n + 1"
proof -
  have r: "rank_of n 50 = \<lceil>rat_of_nat n / 2\<rceil>" using assms by (intro rank_50) simp
  have "rat_of_nat n / 2 \<le> of_int (rank_of n 50)" "of_int (rank_of n 50) < rat_of_nat n / 2 + 1"
    unfolding r by linarith+
  then have "rat_of_int (int n) \<le> rat_of_int (2 * rank_of n 50)"
    "rat_of_int (2 * rank_of n 50) < rat_of_int (int n + 2)" by simp_all
  then show "int n \<le> 2 * rank_of n 50" "2 * rank_of n 50 \<le> int n + 1" by (simp_all only: of_int_le_iff of_int_less_iff)
qed

lemma index_bounds:
  assumes "0 < n" and "n \<le> 3600"
  shows "percentile_index n 50 \<le> percentile_index n 95" "percentile_index n 95 < n"
    "n \<le> 2 * Suc (percentile_index n 50)" "2 * percentile_index n 50 < n"
    "19 * n \<le> 20 * Suc (percentile_index n 95)"
proof -
  note r = rank_50_bounds[OF assms(2)] and r95 = rank_95[OF assms(2)]
  have p: "0 < rank_of n 50" "rank_of n 50 \<le> rank_of n 95" using r r95 assms(1) by linarith+
  have i50: "percentile_index n 50 = nat (rank_of n 50) - 1"
    using r(2) assms(1) by (auto simp: percentile_index_rank Let_def)
  have i95: "percentile_index n 95 = min (nat (rank_of n 95) - 1) (n - 1)"
    using assms(1) by (auto simp: percentile_index_rank Let_def min_def)
  have s50: "Suc (nat (rank_of n 50) - 1) = nat (rank_of n 50)" using p by simp
  have s95: "Suc (min (nat (rank_of n 95) - 1) (n - 1)) = min (nat (rank_of n 95)) n"
    using p assms(1) by simp
  show "percentile_index n 50 \<le> percentile_index n 95"
    unfolding i50 i95 using p r assms(1) by linarith
  show "percentile_index n 95 < n" unfolding i95 using assms(1) by linarith
  show "n \<le> 2 * Suc (percentile_index n 50)"
    unfolding i50 s50 using r(1) by (simp add: nat_le_iff le_nat_iff)
  show "2 * percentile_index n 50 < n"
    using s50 r(2) p assms(1) unfolding i50 by linarith
  have "19 * n \<le> 20 * nat (rank_of n 95)" using r95 by linarith
  then have "19 * n \<le> 20 * min (nat (rank_of n 95)) n" by (simp add: min_def)
  then show "19 * n \<le> 20 * Suc (percentile_index n 95)" unfolding i95 s95 .
qed

lemma sorted_count_le:
  assumes "sorted xs" and "i < length xs"
  shows "Suc i \<le> length (filter (\<lambda>x. x \<le> xs ! i) xs)"
proof -
  have "filter (\<lambda>x. x \<le> xs ! i) (take (Suc i) xs) = take (Suc i) xs"
  proof (rule filter_True, rule ballI)
    fix x assume "x \<in> set (take (Suc i) xs)"
    then obtain j where "j < Suc i" "x = xs ! j" "j < length xs" by (auto simp: in_set_conv_nth)
    then show "x \<le> xs ! i" using assms sorted_nth_mono[of xs j i] by simp
  qed
  then have "length (filter (\<lambda>x. x \<le> xs ! i) (take (Suc i) xs @ drop (Suc i) xs)) \<ge> Suc i"
    using assms(2) by (simp only: filter_append length_append) simp
  then show ?thesis by (simp only: append_take_drop_id)
qed

lemma sorted_count_ge:
  assumes "sorted xs" and "i < length xs"
  shows "length xs - i \<le> length (filter (\<lambda>x. xs ! i \<le> x) xs)"
proof -
  have "filter (\<lambda>x. xs ! i \<le> x) (drop i xs) = drop i xs"
  proof (rule filter_True, rule ballI)
    fix x assume "x \<in> set (drop i xs)"
    then obtain j where "j < length (drop i xs)" "x = drop i xs ! j" by (metis in_set_conv_nth)
    then show "xs ! i \<le> x" using assms sorted_nth_mono[of xs i "i + j"] by simp
  qed
  then have "length (filter (\<lambda>x. xs ! i \<le> x) (take i xs @ drop i xs)) \<ge> length xs - i"
    by (simp only: filter_append length_append) simp
  then show ?thesis by (simp only: append_take_drop_id)
qed

lemma filter_length_sort: "length (filter P (sort xs)) = length (filter P xs)"
  by (metis mset_filter mset_sort size_mset)

lemma phase_of_mset: "mset xs = mset ys \<Longrightarrow> phase_of xs = phase_of ys"
proof -
  assume "mset xs = mset ys"
  then have "sort xs = sort ys" by (metis mset_sort properties_for_sort sorted_sort)
  then show ?thesis by (simp add: phase_of_def)
qed

lemma report_of_mset:
  assumes "mset xs = mset ys"
  shows "report_of xs = report_of ys"
proof -
  have "mset (map f xs) = mset (map f ys)" for f :: "timing \<Rightarrow> u64" using assms by simp
  then have "phase_of (map f xs) = phase_of (map f ys)" for f by (rule phase_of_mset)
  moreover have "xs = [] \<longleftrightarrow> ys = []" using assms by (metis mset_zero_iff)
  ultimately show ?thesis by (simp add: report_of_def)
qed

section \<open>Properties\<close>

text \<open>C21: The report is about the last 3600 frames, whatever the order of the marks of the three
  threads: it is the report over the newest 3600 entries of the plain list of all committed
  frames, in which an end of a copy or of a paint annotates the newest frame; it is made once.\<close>

theorem profiler_reports_last_frames:
  "let p = mark_run ms (profiler_new junk) in
   fst (finalize p) = Some (report_of (take MAX_SAMPLES (fl_frames (log_run ms)))) \<and>
   sampleCount p = min (length (fl_frames (log_run ms))) MAX_SAMPLES \<and>
   fst (finalize (snd (finalize p))) = None \<and> profiler_destroy (snd (finalize p)) = None"
proof -
  let ?p = "mark_run ms (profiler_new junk)"
  have r: "ring_log ?p (log_run ms)"
    unfolding log_run_def by (rule ring_log_run[OF ring_log_new])
  have "pf_finalized (mark_run ms p) = pf_finalized p" for p
    by (induction ms arbitrary: p)
      (auto simp: mark_run_def mark_step_def markAcquireStart_def markAcquireEnd_def markCopyStart_def
        markCopyEnd_def markPaintGLStart_def markPaintGLEnd_def commit_sample_def annotate_def Let_def
        split: mark.split)
  then have "\<not> pf_finalized ?p" by (simp add: profiler_new_def)
  then show ?thesis
    using report_of_mset[OF ring_mset[OF r]] r
    by (simp add: finalize_def profiler_destroy_def sampleCount_def Let_def) (simp add: ring_log_def)
qed



end
