(* ===== verification/PreviewWidget.thy ===== *)
theory PreviewWidget
  imports GlObjects GpuInterop FrameProfiler
begin

text \<open>
  The preview monitor (\<open>src/src/ui/preview_widget.cpp\<close>). A frame arrives either as a pair of Vulkan
  images from the bridge (\<open>submitD3D11Frame\<close>) or as pixels in memory (\<open>uploadCpuFrame\<close>); \<open>paintGL\<close>
  polls the copy it started before, takes what is new, lets the optimizer copy the Vulkan image, and
  draws. The optimizer is the model of \<open>copy_optimizer.cpp\<close>, the profiler that of
  \<open>frame_profiler.cpp\<close>; of the bridge only the calls with an effect are recorded, and what it and
  the OpenGL driver answer during one paint is a record of inputs. Textures, memory objects, fences
  and semaphores have names, 0 standing for none.
\<close>

section \<open>State\<close>

record names =
  nm_next :: nat
  nm_live :: "nat set"

definition names_new :: names where "names_new = \<lparr>nm_next = 1, nm_live = {}\<rparr>"

definition name_gen :: "names \<Rightarrow> nat \<times> names" where
  "name_gen s = (nm_next s, \<lparr>nm_next = Suc (nm_next s), nm_live = insert (nm_next s) (nm_live s)\<rparr>)"

definition name_delete :: "nat \<Rightarrow> names \<Rightarrow> names" where
  "name_delete n s = s\<lparr>nm_live := nm_live s - {n}\<rparr>"

text \<open>The extension functions, resolved or not.\<close>

record gl_procs =
  fn_create_mem :: bool
  fn_delete_mem :: bool
  fn_import_mem :: bool
  fn_tex_storage :: bool
  fn_wait_sem :: bool
  fn_import_sem :: bool
  fn_fence :: bool
  fn_delete_sync :: bool
  fn_wait_sync :: bool

datatype preview_event = EvDraw u32 nat | EvWaited u32 | EvSubmit u32 | EvSemWait u32
  | EvImportSem u32 | EvInvalidOperation

record preview =
  pv_fns :: gl_procs
  pv_opt :: "(copy_opt \<times> vk_call list) option"
  pv_bridge :: "ext_call list option"
  pv_profiler :: "profiler option"
  pv_gl :: gl
  pv_tex :: nat
  pv_tex_w :: int
  pv_tex_h :: int
  pv_interop :: "nat list"
  pv_storage :: "nat \<Rightarrow> (nat \<times> u32 \<times> u32) option"
  pv_mem_names :: names
  pv_mem :: "nat list"
  pv_fence_names :: names
  pv_fence :: "nat list"
  pv_sem_names :: names
  pv_sems :: "nat list"
  pv_staging :: vk_handle
  pv_target :: vk_handle
  pv_w :: u32
  pv_h :: u32
  pv_slot :: u32
  pv_dirty :: bool
  pv_cpu :: bytes
  pv_cpu_w :: int
  pv_cpu_h :: int
  pv_cpu_pitch :: int
  pv_cpu_dirty :: bool
  pv_buf :: bytes
  pv_timeline :: vk_handle
  pv_expected :: u64
  pv_pending :: bool
  pv_poll :: nat
  pv_gl_target :: vk_handle
  pv_target_w :: u32
  pv_target_h :: u32
  pv_pool_w :: u32
  pv_pool_h :: u32
  pv_current :: u32
  pv_events :: "preview_event list"

definition no_procs :: gl_procs where
  "no_procs = \<lparr>fn_create_mem = False, fn_delete_mem = False, fn_import_mem = False, fn_tex_storage = False,
     fn_wait_sem = False, fn_import_sem = False, fn_fence = False, fn_delete_sync = False, fn_wait_sync = False\<rparr>"

definition preview_new :: preview where
  "preview_new = \<lparr>pv_fns = no_procs, pv_opt = None, pv_bridge = None, pv_profiler = None, pv_gl = gl_new,
     pv_tex = 0, pv_tex_w = 0, pv_tex_h = 0, pv_interop = [0, 0, 0], pv_storage = (\<lambda>n. None),
     pv_mem_names = names_new, pv_mem = [0, 0, 0], pv_fence_names = names_new, pv_fence = [0, 0, 0],
     pv_sem_names = names_new, pv_sems = [0, 0, 0], pv_staging = 0, pv_target = 0, pv_w = 0, pv_h = 0,
     pv_slot = 0, pv_dirty = False, pv_cpu = [], pv_cpu_w = 0, pv_cpu_h = 0, pv_cpu_pitch = 0,
     pv_cpu_dirty = False, pv_buf = [], pv_timeline = 0, pv_expected = 0, pv_pending = False, pv_poll = 0,
     pv_gl_target = 0, pv_target_w = 0, pv_target_h = 0, pv_pool_w = 0, pv_pool_h = 0, pv_current = 0,
     pv_events = []\<rparr>"

definition note_event :: "preview_event \<Rightarrow> preview \<Rightarrow> preview" where
  "note_event e p = p\<lparr>pv_events := pv_events p @ [e]\<rparr>"

section \<open>Frames in\<close>

definition setCopyOptimizer :: "(copy_opt \<times> vk_call list) option \<Rightarrow> preview \<Rightarrow> preview" where
  "setCopyOptimizer opt p = p\<lparr>pv_opt := opt\<rparr>"

definition setBridge :: "ext_call list option \<Rightarrow> preview \<Rightarrow> preview" where
  "setBridge b p = p\<lparr>pv_bridge := b\<rparr>"

definition setProfiler :: "profiler option \<Rightarrow> preview \<Rightarrow> preview" where
  "setProfiler q p = p\<lparr>pv_profiler := q\<rparr>"

definition submitD3D11Frame ::
  "vk_handle \<Rightarrow> vk_handle \<Rightarrow> u32 \<Rightarrow> u32 \<Rightarrow> u32 \<Rightarrow> preview \<Rightarrow> bool \<times> preview" where
  "submitD3D11Frame staging target w h slot p =
     (if staging = 0 \<or> target = 0 \<or> w = 0 \<or> h = 0 then (False, p)
      else (True, p\<lparr>pv_staging := staging, pv_target := target, pv_w := w, pv_h := h, pv_slot := slot,
                     pv_dirty := True\<rparr>))"

text \<open>The buffer only grows: behind the new frame it keeps what an earlier, larger one left.\<close>

definition uploadCpuFrame :: "bytes \<Rightarrow> int \<Rightarrow> int \<Rightarrow> int \<Rightarrow> preview \<Rightarrow> preview" where
  "uploadCpuFrame bgra w h pitch p =
     (let needed = nat (pitch * h);
          buf = take needed bgra @ drop needed (pv_buf p) in
      p\<lparr>pv_buf := buf, pv_cpu := buf, pv_cpu_w := w, pv_cpu_h := h, pv_cpu_pitch := pitch,
        pv_cpu_dirty := True\<rparr>)"

section \<open>Initialisation\<close>

record gl_caps =
  ca_memory_object :: bool
  ca_memory_win32 :: bool
  ca_semaphore :: bool
  ca_semaphore_win32 :: bool
  ca_procs :: gl_procs
  ca_gen_sems :: bool
  ca_sem_handle :: "u32 \<Rightarrow> bool"

definition resolve_procs :: "gl_caps \<Rightarrow> gl_procs \<Rightarrow> gl_procs" where
  "resolve_procs ca f =
     (let f = (if ca_memory_object ca \<and> ca_memory_win32 ca then
                 f\<lparr>fn_create_mem := fn_create_mem (ca_procs ca), fn_delete_mem := fn_delete_mem (ca_procs ca),
                   fn_import_mem := fn_import_mem (ca_procs ca), fn_tex_storage := fn_tex_storage (ca_procs ca)\<rparr>
               else f);
          f = f\<lparr>fn_fence := fn_fence (ca_procs ca), fn_delete_sync := fn_delete_sync (ca_procs ca),
                fn_wait_sync := fn_wait_sync (ca_procs ca)\<rparr> in
      if ca_semaphore ca \<and> ca_semaphore_win32 ca then
        f\<lparr>fn_wait_sem := fn_wait_sem (ca_procs ca), fn_import_sem := fn_import_sem (ca_procs ca)\<rparr>
      else f)"

definition gen_semaphore :: "gl_caps \<Rightarrow> u32 \<Rightarrow> preview \<Rightarrow> preview" where
  "gen_semaphore ca i p =
     (case name_gen (pv_sem_names p) of (n, s) \<Rightarrow>
        p\<lparr>pv_sem_names := s, pv_sems := (pv_sems p)[unat i := n]\<rparr>)"

definition import_semaphore :: "gl_caps \<Rightarrow> u32 \<Rightarrow> preview \<Rightarrow> preview" where
  "import_semaphore ca i p =
     (if ca_sem_handle ca i \<and> pv_sems p ! unat i \<noteq> 0 then note_event (EvImportSem i) p else p)"

definition initializeGL :: "gl_caps \<Rightarrow> preview \<Rightarrow> preview" where
  "initializeGL ca p =
     (let p = p\<lparr>pv_fns := resolve_procs ca (pv_fns p)\<rparr> in
      if ca_semaphore ca \<and> ca_semaphore_win32 ca \<and> fn_wait_sem (pv_fns p) \<and> fn_import_sem (pv_fns p)
         \<and> pv_bridge p \<noteq> None \<and> ca_gen_sems ca
      then fold (import_semaphore ca) [0, 1, 2] (fold (gen_semaphore ca) [0, 1, 2] p)
      else p)"

section \<open>Painting\<close>

datatype wait_status = AlreadySignaled | ConditionSatisfied | TimeoutExpired | WaitFailed

text \<open>What the driver, the device and the bridge answer during one paint. \<open>pe_junk\<close>: what a new
  texture without data contains.\<close>

record paint_env =
  pe_start :: u64
  pe_end :: u64
  pe_ready :: "bool option"
  pe_execute_target :: "u32 \<Rightarrow> vk_handle"
  pe_junk :: bytes
  pe_gl_sem :: "u32 \<Rightarrow> vk_handle"
  pe_shared_memory :: vk_handle
  pe_wait :: wait_status
  pe_copy :: copy_env
  pe_target_handle :: "u32 \<Rightarrow> bool"

definition paint_start :: "paint_env \<Rightarrow> preview \<Rightarrow> preview" where
  "paint_start env p = p\<lparr>pv_profiler := map_option (markPaintGLStart (pe_start env)) (pv_profiler p)\<rparr>"

definition paint_end :: "paint_env \<Rightarrow> preview \<Rightarrow> preview" where
  "paint_end env p = p\<lparr>pv_profiler := map_option (markPaintGLEnd (pe_end env)) (pv_profiler p)\<rparr>"

subsection \<open>The snapshot under the lock\<close>

definition copy_signaled :: "paint_env \<Rightarrow> preview \<Rightarrow> bool" where
  "copy_signaled env p = (case pv_opt p of
       None \<Rightarrow> False
     | Some (c, tr) \<Rightarrow> is_copy_ready (pv_timeline p) (pe_ready env) c)"

definition poll_copy :: "paint_env \<Rightarrow> preview \<Rightarrow> preview" where
  "poll_copy env p =
     (if pv_pending p then
        if copy_signaled env p then p\<lparr>pv_pending := False, pv_poll := 0\<rparr>
        else let p = p\<lparr>pv_poll := pv_poll p + 1\<rparr> in
          if pv_poll p > 50 then p\<lparr>pv_pending := False, pv_poll := 0\<rparr> else p
      else p)"

definition take_gpu_frame :: "preview \<Rightarrow> (vk_handle \<times> vk_handle \<times> u32 \<times> u32 \<times> u32) option \<times> preview" where
  "take_gpu_frame p =
     (if pv_dirty p \<and> pv_staging p \<noteq> 0 then
        (Some (pv_staging p, pv_target p, pv_w p, pv_h p, pv_slot p),
         p\<lparr>pv_dirty := False, pv_pending := False\<rparr>)
      else (None, p))"

definition take_cpu_frame :: "preview \<Rightarrow> (bytes \<times> int \<times> int) option \<times> preview" where
  "take_cpu_frame p =
     (if pv_cpu_dirty p then (Some (pv_cpu p, pv_cpu_w p, pv_cpu_h p), p\<lparr>pv_cpu_dirty := False\<rparr>)
      else (None, p))"

subsection \<open>The frame from memory\<close>

definition upload_cpu :: "(bytes \<times> int \<times> int) option \<Rightarrow> preview \<Rightarrow> preview" where
  "upload_cpu frame p = (case frame of
       None \<Rightarrow> p
     | Some (data, w, h) \<Rightarrow>
         if w > 0 \<and> h > 0 then
           let p = (if pv_tex p = 0 then case gl_gen (pv_gl p) of (n, g) \<Rightarrow> p\<lparr>pv_tex := n, pv_gl := g\<rparr> else p) in
           if w \<noteq> pv_tex_w p \<or> h \<noteq> pv_tex_h p then
             p\<lparr>pv_gl := gl_tex_image (pv_tex p) w h data (pv_gl p), pv_tex_w := w, pv_tex_h := h\<rparr>
           else p\<lparr>pv_gl := gl_sub_image (pv_tex p) w h data (pv_gl p)\<rparr>
         else p)"

subsection \<open>The frame on the device\<close>

definition drop_texture :: "u32 \<Rightarrow> preview \<Rightarrow> preview" where
  "drop_texture i p =
     (let n = pv_interop p ! unat i in
      if n \<noteq> 0 then
        p\<lparr>pv_gl := gl_delete n (pv_gl p), pv_storage := (pv_storage p)(n := None),
          pv_interop := (pv_interop p)[unat i := 0]\<rparr>
      else p)"

definition drop_memory :: "u32 \<Rightarrow> preview \<Rightarrow> preview" where
  "drop_memory i p =
     (let n = pv_mem p ! unat i in
      if n \<noteq> 0 \<and> fn_delete_mem (pv_fns p) then
        p\<lparr>pv_mem_names := name_delete n (pv_mem_names p), pv_mem := (pv_mem p)[unat i := 0]\<rparr>
      else p)"

definition drop_slot :: "u32 \<Rightarrow> preview \<Rightarrow> preview" where
  "drop_slot i p = drop_memory i (drop_texture i p)"

text \<open>The target pool is rebuilt when the size of the capture changed; the old target image is
  gone then, and the bridge is asked for the new one of the slot.\<close>

definition rebuild_pool :: "paint_env \<Rightarrow> vk_handle \<Rightarrow> u32 \<Rightarrow> u32 \<Rightarrow> u32 \<Rightarrow> preview \<Rightarrow> vk_handle \<times> preview" where
  "rebuild_pool env target w h i p = (case pv_bridge p of
       None \<Rightarrow> (target, p)
     | Some tr \<Rightarrow>
         if w \<noteq> pv_pool_w p \<or> h \<noteq> pv_pool_h p then
           (pe_execute_target env i,
            (fold drop_slot [0, 1, 2] (p\<lparr>pv_bridge := Some (tr @ [ExtResizeGlPool w h])\<rparr>))
              \<lparr>pv_pool_w := w, pv_pool_h := h\<rparr>)
         else (target, p))"

definition alloc_texture :: "paint_env \<Rightarrow> u32 \<Rightarrow> u32 \<Rightarrow> preview \<Rightarrow> preview" where
  "alloc_texture env w h p =
     (if w \<noteq> word_of_int (pv_tex_w p) \<or> h \<noteq> word_of_int (pv_tex_h p) then
        (case gl_gen (gl_release (pv_tex p) (pv_gl p)) of (n, g) \<Rightarrow>
           p\<lparr>pv_tex := n, pv_gl := gl_tex_image n (sint w) (sint h) (pe_junk env) g,
             pv_tex_w := sint w, pv_tex_h := sint h\<rparr>)
      else p)"

text \<open>The copy writes the image after the slot's; the wait for GL to have read that image is
  bounded, and without its end the frame is dropped.\<close>

definition signal_slot :: "u32 \<Rightarrow> u32" where
  "signal_slot i = (i + 1) mod 3"

definition wait_for_reader :: "paint_env \<Rightarrow> u32 \<Rightarrow> preview \<Rightarrow> bool \<times> preview" where
  "wait_for_reader env j p =
     (if pv_fence p ! unat j \<noteq> 0 \<and> fn_wait_sync (pv_fns p) then
        if pe_wait env = AlreadySignaled \<or> pe_wait env = ConditionSatisfied then (True, note_event (EvWaited j) p)
        else (False, p)
      else (True, p))"

definition copy_request :: "paint_env \<Rightarrow> vk_handle \<Rightarrow> vk_handle \<Rightarrow> u32 \<Rightarrow> u32 \<Rightarrow> u32 \<Rightarrow> preview \<Rightarrow> copy_req" where
  "copy_request env staging target w h i p =
     \<lparr>cr_staging = staging, cr_target = target, cr_width = w, cr_height = h, cr_slot = i,
      cr_gl_slot = signal_slot i, cr_out_ptrs = True,
      cr_gl_sem = (if pv_bridge p \<noteq> None then pe_gl_sem env (signal_slot i) else 0),
      cr_memory = (if pv_bridge p \<noteq> None then pe_shared_memory env else 0)\<rparr>"

definition import_memory :: "u32 \<Rightarrow> preview \<Rightarrow> preview" where
  "import_memory i p =
     (if pv_mem p ! unat i = 0 \<and> fn_create_mem (pv_fns p) then
        case name_gen (pv_mem_names p) of (n, s) \<Rightarrow>
          p\<lparr>pv_mem_names := s, pv_mem := (pv_mem p)[unat i := n]\<rparr>
      else p)"

text \<open>\<open>glTexStorageMem2DEXT\<close> makes the storage of a texture immutable; a second call is refused.\<close>

definition storage_from_memory :: "nat \<Rightarrow> nat \<Rightarrow> u32 \<Rightarrow> u32 \<Rightarrow> preview \<Rightarrow> preview" where
  "storage_from_memory n m w h p =
     (if pv_storage p n = None then p\<lparr>pv_storage := (pv_storage p)(n := Some (m, w, h))\<rparr>
      else note_event EvInvalidOperation p)"

definition interop_texture :: "u32 \<Rightarrow> u32 \<Rightarrow> u32 \<Rightarrow> preview \<Rightarrow> preview" where
  "interop_texture w h i p =
     (let p = (if w \<noteq> pv_target_w p \<or> h \<noteq> pv_target_h p then drop_texture i p else p);
          p = (if pv_interop p ! unat i = 0 then
                 (case gl_gen (pv_gl p) of (n, g) \<Rightarrow> p\<lparr>pv_gl := g, pv_interop := (pv_interop p)[unat i := n]\<rparr>)
               else p) in
      if pv_interop p ! unat i \<noteq> 0 \<and> fn_tex_storage (pv_fns p) then
        (storage_from_memory (pv_interop p ! unat i) (pv_mem p ! unat i) w h p)\<lparr>pv_target_w := w, pv_target_h := h\<rparr>
      else p)"

definition import_target :: "paint_env \<Rightarrow> u32 \<Rightarrow> u32 \<Rightarrow> u32 \<Rightarrow> preview \<Rightarrow> preview" where
  "import_target env w h i p =
     (if pv_bridge p \<noteq> None \<and> pv_gl_target p \<noteq> 0 \<and> fn_import_mem (pv_fns p) \<and> pe_target_handle env i then
        let p = import_memory i p in
        if pv_mem p ! unat i \<noteq> 0 then interop_texture w h i p else p
      else p)"

definition run_copy :: "paint_env \<Rightarrow> copy_req \<Rightarrow> copy_opt \<times> vk_call list \<Rightarrow> preview \<Rightarrow>
    (vk_handle \<times> u64 \<times> vk_handle) option \<times> preview" where
  "run_copy env q st p =
     (case execute_copy q (pe_copy env) st of (r, st') \<Rightarrow>
        (r, (if r = None then (\<lambda>p. p) else note_event (EvSubmit (cr_gl_slot q))) (p\<lparr>pv_opt := Some st'\<rparr>)))"

text \<open>The answer tells whether painting goes on; every early end closes the profiler's mark.\<close>

definition submit_frame :: "paint_env \<Rightarrow> (vk_handle \<times> vk_handle \<times> u32 \<times> u32 \<times> u32) option \<Rightarrow>
    preview \<Rightarrow> bool \<times> preview" where
  "submit_frame env frame p = (case (frame, pv_opt p) of
       (None, _) \<Rightarrow> (True, p)
     | (Some _, None) \<Rightarrow> (False, paint_end env p)
     | (Some (staging, target, w, h, i), Some st) \<Rightarrow>
         (case rebuild_pool env target w h i p of (target, p) \<Rightarrow>
           let p = (alloc_texture env w h p)\<lparr>pv_current := i\<rparr> in
           (case wait_for_reader env (signal_slot i) p of
              (False, p) \<Rightarrow> (False, paint_end env p)
            | (True, p) \<Rightarrow>
                (case run_copy env (copy_request env staging target w h i p) st p of
                   (None, p) \<Rightarrow> (False, paint_end env p)
                 | (Some (sem, val, img), p) \<Rightarrow>
                     (True, (import_target env w h i (p\<lparr>pv_gl_target := img\<rparr>))
                        \<lparr>pv_timeline := sem, pv_expected := val, pv_pending := True\<rparr>)))))"

subsection \<open>Drawing\<close>

definition texture_to_use :: "preview \<Rightarrow> nat" where
  "texture_to_use p =
     (let n = pv_interop p ! unat (pv_current p) in if n \<noteq> 0 then n else pv_tex p)"

text \<open>The semaphore of the slot is waited for only when the optimizer signalled it.\<close>

definition wait_semaphore :: "nat \<Rightarrow> preview \<Rightarrow> preview" where
  "wait_semaphore n p =
     (let i = pv_current p in
      if n = pv_interop p ! unat i \<and> fn_wait_sem (pv_fns p) \<and> pv_sems p ! unat i \<noteq> 0 then
        (case pv_opt p of
           None \<Rightarrow> p
         | Some (c, tr) \<Rightarrow>
             if is_slot_signaled i c then (note_event (EvSemWait i) p)\<lparr>pv_opt := Some (clear_gl_signal i (c, tr))\<rparr>
             else p)
      else p)"

definition set_fence :: "preview \<Rightarrow> preview" where
  "set_fence p =
     (let i = unat (pv_current p);
          p = (if fn_delete_sync (pv_fns p) \<and> pv_fence p ! i \<noteq> 0
               then p\<lparr>pv_fence_names := name_delete (pv_fence p ! i) (pv_fence_names p)\<rparr> else p) in
      if fn_fence (pv_fns p) then
        (case name_gen (pv_fence_names p) of (n, s) \<Rightarrow> p\<lparr>pv_fence_names := s, pv_fence := (pv_fence p)[i := n]\<rparr>)
      else p\<lparr>pv_fence := (pv_fence p)[i := 0]\<rparr>)"

definition render :: "paint_env \<Rightarrow> preview \<Rightarrow> preview" where
  "render env p =
     (let n = texture_to_use p in
      if n = 0 then paint_end env p
      else paint_end env (set_fence (note_event (EvDraw (pv_current p) n) (wait_semaphore n p))))"

definition preview_paint :: "paint_env \<Rightarrow> preview \<Rightarrow> preview" where
  "preview_paint env p =
     (let p = poll_copy env (paint_start env p) in
      (case take_gpu_frame p of (frame, p) \<Rightarrow>
        (case take_cpu_frame p of (cpu, p) \<Rightarrow>
          (case submit_frame env frame (upload_cpu cpu p) of (go_on, p) \<Rightarrow>
             if go_on then render env p else p))))"

text \<open>The destructor; \<open>del_sems\<close>: \<open>glDeleteSemaphoresEXT\<close> was found.\<close>

definition drop_fence :: "u32 \<Rightarrow> preview \<Rightarrow> preview" where
  "drop_fence i p =
     (let n = pv_fence p ! unat i in
      if n \<noteq> 0 \<and> fn_delete_sync (pv_fns p) then
        p\<lparr>pv_fence_names := name_delete n (pv_fence_names p), pv_fence := (pv_fence p)[unat i := 0]\<rparr>
      else p)"

definition drop_semaphore :: "u32 \<Rightarrow> preview \<Rightarrow> preview" where
  "drop_semaphore i p =
     (let n = pv_sems p ! unat i in
      if n \<noteq> 0 then p\<lparr>pv_sem_names := name_delete n (pv_sem_names p), pv_sems := (pv_sems p)[unat i := 0]\<rparr>
      else p)"

definition preview_destroy :: "bool \<Rightarrow> preview \<Rightarrow> preview" where
  "preview_destroy del_sems p =
     (let p = p\<lparr>pv_gl := gl_release (pv_tex p) (pv_gl p)\<rparr>;
          p = fold drop_fence [0, 1, 2] (fold drop_slot [0, 1, 2] p) in
      if del_sems then fold drop_semaphore [0, 1, 2] p else p)"


section \<open>Runs\<close>

datatype preview_input =
    FrameIn vk_handle vk_handle u32 u32 u32
  | PixelsIn bytes int int int
  | PaintNow paint_env

fun preview_input_step :: "preview_input \<Rightarrow> preview \<Rightarrow> preview" where
  "preview_input_step (FrameIn staging target w h slot) p = snd (submitD3D11Frame staging target w h slot p)"
| "preview_input_step (PixelsIn data w h pitch) p = uploadCpuFrame data w h pitch p"
| "preview_input_step (PaintNow env) p = preview_paint env p"

definition preview_run :: "preview_input list \<Rightarrow> preview \<Rightarrow> preview" where
  "preview_run ins p = fold preview_input_step ins p"

text \<open>The widget as the main window wires it, before the first paint.\<close>

definition preview_wired :: "copy_opt \<times> vk_call list \<Rightarrow> profiler option \<Rightarrow> gl_caps \<Rightarrow> preview" where
  "preview_wired st q ca =
     initializeGL ca (setProfiler q (setBridge (Some []) (setCopyOptimizer (Some st) preview_new)))"

text \<open>The slots come from the bridge, which counts to three.\<close>

fun input_in_pool :: "preview_input \<Rightarrow> bool" where
  "input_in_pool (FrameIn staging target w h slot) = (slot < 3)"
| "input_in_pool _ = True"

definition all_procs :: gl_procs where
  "all_procs = \<lparr>fn_create_mem = True, fn_delete_mem = True, fn_import_mem = True, fn_tex_storage = True,
     fn_wait_sem = True, fn_import_sem = True, fn_fence = True, fn_delete_sync = True, fn_wait_sync = True\<rparr>"

section \<open>Who owns what\<close>

text \<open>The variables \<open>ns\<close> name exactly the live objects, each once.\<close>

definition tidy :: "nat list \<Rightarrow> nat set \<Rightarrow> bool" where
  "tidy ns live \<longleftrightarrow> live = set ns - {0} \<and>
     (\<forall>i < length ns. \<forall>j < length ns. ns ! i = ns ! j \<and> ns ! i \<noteq> 0 \<longrightarrow> i = j)"

lemma tidy_nth: "tidy ns live \<Longrightarrow> i < length ns \<Longrightarrow> ns ! i \<noteq> 0 \<Longrightarrow> ns ! i \<in> live"
  by (simp add: tidy_def)

lemma tidy_inj:
  "tidy ns live \<Longrightarrow> i < length ns \<Longrightarrow> j < length ns \<Longrightarrow> ns ! i = ns ! j \<Longrightarrow> ns ! i \<noteq> 0 \<Longrightarrow> i = j"
  by (simp add: tidy_def)

lemma tidy_clear:
  assumes "tidy ns live" and "i < length ns"
  shows "tidy (ns[i := 0]) (live - {ns ! i})"
proof -
  have inj: "j = k" if "j < length ns" "k < length ns" "ns ! j = ns ! k" "ns ! j \<noteq> 0" for j k
    using assms(1) that by (simp add: tidy_def)
  have "set (ns[i := 0]) - {0} = set ns - {0} - {ns ! i}"
  proof (intro equalityI subsetI)
    fix x assume "x \<in> set (ns[i := 0]) - {0}"
    then obtain j where "j < length ns" "x = ns[i := 0] ! j" "x \<noteq> 0" by (auto simp: in_set_conv_nth)
    then show "x \<in> set ns - {0} - {ns ! i}"
      using inj[of j i] assms(2) by (cases "j = i") auto
  next
    fix x assume "x \<in> set ns - {0} - {ns ! i}"
    then obtain j where "j < length ns" "x = ns ! j" "x \<noteq> 0" "x \<noteq> ns ! i" by (auto simp: in_set_conv_nth)
    then show "x \<in> set (ns[i := 0]) - {0}" using nth_mem[of j "ns[i := 0]"] by (cases "j = i") auto
  qed
  moreover have "live = set ns - {0}" using assms(1) by (simp add: tidy_def)
  moreover have "j = k" if "j < length ns" "k < length ns" "ns[i := 0] ! j = ns[i := 0] ! k" "ns[i := 0] ! j \<noteq> 0" for j k
    using that inj[of j k] assms(2) by (simp add: nth_list_update split: if_splits)
  ultimately show ?thesis by (simp add: tidy_def)
qed

lemma tidy_set:
  assumes "tidy ns live" and "i < length ns" and "ns ! i = 0" and "n \<notin> live" and "n \<noteq> 0"
  shows "tidy (ns[i := n]) (insert n live)"
proof -
  have live: "live = set ns - {0}" using assms(1) by (simp add: tidy_def)
  have inj: "j = k" if "j < length ns" "k < length ns" "ns ! j = ns ! k" "ns ! j \<noteq> 0" for j k
    using assms(1) that by (simp add: tidy_def)
  have out: "ns ! j \<noteq> n" if "j < length ns" for j using assms(4,5) live that by (auto dest: nth_mem)
  have "set (ns[i := n]) - {0} = insert n (set ns - {0})"
  proof (intro equalityI subsetI)
    fix x assume "x \<in> set (ns[i := n]) - {0}"
    then show "x \<in> insert n (set ns - {0})" using set_update_subset_insert[of ns i n] by auto
  next
    fix x assume x: "x \<in> insert n (set ns - {0})"
    show "x \<in> set (ns[i := n]) - {0}"
    proof (cases "x = n")
      case True
      then show ?thesis using assms(2,5) by (simp add: set_update_memI)
    next
      case False
      then obtain j where "j < length ns" "x = ns ! j" "x \<noteq> 0" using x by (auto simp: in_set_conv_nth)
      then show ?thesis using assms(3) nth_mem[of j "ns[i := n]"] by (cases "j = i") auto
    qed
  qed
  moreover have "j = k" if "j < length ns" "k < length ns" "ns[i := n] ! j = ns[i := n] ! k" "ns[i := n] ! j \<noteq> 0" for j k
    using that inj[of j k] out[of j] out[of k] assms(2) by (simp add: nth_list_update split: if_splits)
  ultimately show ?thesis using live by (simp add: tidy_def)
qed

lemma tidy_all_zero: "tidy ns live \<Longrightarrow> set ns \<subseteq> {0} \<Longrightarrow> live = {}"
  by (auto simp: tidy_def)

definition names_ok :: "nat list \<Rightarrow> names \<Rightarrow> bool" where
  "names_ok ns s \<longleftrightarrow> length ns = 3 \<and> 0 < nm_next s \<and> (\<forall>n \<in> nm_live s. n < nm_next s) \<and> tidy ns (nm_live s)"

lemma names_ok_length: "names_ok ns s \<Longrightarrow> length ns = 3"
  by (simp add: names_ok_def)

lemma names_ok_delete:
  "names_ok ns s \<Longrightarrow> i < 3 \<Longrightarrow> names_ok (ns[i := 0]) (name_delete (ns ! i) s)"
  by (auto simp: names_ok_def name_delete_def tidy_clear)

lemma names_ok_gen:
  "names_ok ns s \<Longrightarrow> i < 3 \<Longrightarrow> ns ! i = 0 \<Longrightarrow> name_gen s = (n, s') \<Longrightarrow> names_ok (ns[i := n]) s' \<and> n \<noteq> 0"
  by (auto simp: names_ok_def name_gen_def intro!: tidy_set less_SucI)

definition textures_ok :: "nat \<Rightarrow> nat list \<Rightarrow> gl \<Rightarrow> bool" where
  "textures_ok t ns g \<longleftrightarrow> length ns = 3 \<and> gl_ok g \<and> tidy (t # ns) (gl_live g)"

lemma textures_ok_interop:
  assumes "textures_ok t ns g" and "i < 3" and "ns ! i \<noteq> 0"
  shows "textures_ok t (ns[i := 0]) (gl_delete (ns ! i) g)"
  using assms tidy_clear[of "t # ns" "gl_live g" "Suc i"] by (simp add: textures_ok_def)

lemma textures_ok_gen_interop:
  assumes "textures_ok t ns g" and "i < 3" and "ns ! i = 0" and "gl_gen g = (n, g')"
  shows "textures_ok t (ns[i := n]) g' \<and> n \<noteq> 0"
  using assms tidy_set[of "t # ns" "gl_live g" "Suc i" n] gl_gen_fresh[OF assms(4)]
  by (simp add: textures_ok_def)

lemma textures_ok_gen:
  assumes "textures_ok 0 ns g" and "gl_gen g = (n, g')"
  shows "textures_ok n ns g' \<and> n \<noteq> 0"
  using assms tidy_set[of "0 # ns" "gl_live g" 0 n] gl_gen_fresh[OF assms(2)]
  by (simp add: textures_ok_def)

lemma textures_ok_release: "textures_ok t ns g \<Longrightarrow> textures_ok 0 ns (gl_release t g)"
  using tidy_clear[of "t # ns" "gl_live g" 0] by (simp add: textures_ok_def)

lemma textures_ok_upload:
  "textures_ok t ns g \<Longrightarrow> t \<noteq> 0 \<Longrightarrow> textures_ok t ns (gl_tex_image t w h data g)"
  "textures_ok t ns g \<Longrightarrow> textures_ok t ns (gl_sub_image t w h data g)"
  by (simp_all add: textures_ok_def) (simp add: tidy_def)


section \<open>The invariant\<close>

text \<open>Every interop texture has immutable storage of the size of the target pool, in the memory
  object of its own slot.\<close>

definition storage_ok ::
  "nat list \<Rightarrow> nat list \<Rightarrow> (nat \<Rightarrow> (nat \<times> u32 \<times> u32) option) \<Rightarrow> u32 \<Rightarrow> u32 \<Rightarrow> bool" where
  "storage_ok ns ms st w h \<longleftrightarrow> (\<forall>n. st n \<noteq> None \<longrightarrow> n \<in> set ns \<and> n \<noteq> 0) \<and>
     (\<forall>i < 3. ns ! i \<noteq> 0 \<longrightarrow> ms ! i \<noteq> 0 \<and> st (ns ! i) = Some (ms ! i, w, h))"

text \<open>The images GL may still be reading: drawn, and not found finished since. \<open>None\<close>: a copy was
  submitted into one of them.\<close>

fun read_step :: "preview_event \<Rightarrow> u32 set option \<Rightarrow> u32 set option" where
  "read_step (EvDraw i n) (Some r) = Some (insert i r)"
| "read_step (EvWaited i) (Some r) = Some (r - {i})"
| "read_step (EvSubmit i) (Some r) = (if i \<in> r then None else Some r)"
| "read_step _ x = x"

definition reads_of :: "preview_event list \<Rightarrow> u32 set option" where
  "reads_of evs = fold read_step evs (Some {})"

definition fences_ok :: "nat list \<Rightarrow> preview_event list \<Rightarrow> bool" where
  "fences_ok fs evs \<longleftrightarrow> (case reads_of evs of None \<Rightarrow> False | Some r \<Rightarrow> \<forall>i < 3. fs ! unat i = 0 \<longrightarrow> i \<notin> r)"

definition image_idle :: "u32 \<Rightarrow> preview_event list \<Rightarrow> bool" where
  "image_idle j evs \<longleftrightarrow> (case reads_of evs of None \<Rightarrow> False | Some r \<Rightarrow> j \<notin> r)"

text \<open>A binary semaphore alternates: \<open>Some b\<close>, it is signalled exactly if \<open>b\<close>; \<open>None\<close>, it was signalled
  twice in a row, or waited for without a signal.\<close>

fun sem_step :: "u32 \<Rightarrow> vk_call \<Rightarrow> bool option \<Rightarrow> bool option" where
  "sem_step i (QueueSubmit su) (Some b) =
    (if su_gl_slot su = i \<and> su_gl_signal su \<noteq> None then if b then None else Some True else Some b)"
| "sem_step i (GlConsumed j) (Some b) = (if i = j then if b then Some False else None else Some b)"
| "sem_step i _ x = x"

definition sem_state :: "u32 \<Rightarrow> vk_call list \<Rightarrow> bool option" where
  "sem_state i tr = fold (sem_step i) tr (Some False)"

fun sems_ok :: "(copy_opt \<times> vk_call list) option \<Rightarrow> bool" where
  "sems_ok None = True"
| "sems_ok (Some (c, tr)) = (copy_lists c \<and> (\<forall>i < POOL_SIZE. sem_state i tr = Some (co_gl_signaled c ! unat i)))"

definition preview_ok :: "preview \<Rightarrow> bool" where
  "preview_ok p \<longleftrightarrow> pv_fns p = all_procs \<and> pv_current p < 3 \<and> pv_slot p < 3 \<and>
     textures_ok (pv_tex p) (pv_interop p) (pv_gl p) \<and> names_ok (pv_mem p) (pv_mem_names p) \<and>
     names_ok (pv_fence p) (pv_fence_names p) \<and> names_ok (pv_sems p) (pv_sem_names p) \<and>
     storage_ok (pv_interop p) (pv_mem p) (pv_storage p) (pv_pool_w p) (pv_pool_h p) \<and>
     fences_ok (pv_fence p) (pv_events p) \<and> sems_ok (pv_opt p)"

lemma preview_ok_sems:
  assumes "preview_ok p"
  shows "case pv_opt p of
      None \<Rightarrow> True
    | Some (c, tr) \<Rightarrow> map (\<lambda>i. sem_state i tr) [0, 1, 2] = map Some (co_gl_signaled c)"
proof (cases "pv_opt p")
  case (Some y)
  obtain c tr where y: "y = (c, tr)" by (rule prod.exhaust)
  have s: "sems_ok (Some (c, tr))" using assms by (simp add: preview_ok_def Some y)
  have three: "xs = [xs ! 0, xs ! 1, xs ! 2]" if "length xs = 3" for xs :: "bool list"
    using that by (auto simp: length_Suc_conv numeral_3_eq_3 numeral_2_eq_2)
  have "sem_state i tr = Some (co_gl_signaled c ! unat i)" if "i < POOL_SIZE" for i
    using s that by simp
  from this[of 0] this[of 1] this[of 2] have
    "map (\<lambda>i. sem_state i tr) [0, 1, 2] = map Some [co_gl_signaled c ! 0, co_gl_signaled c ! 1, co_gl_signaled c ! 2]"
    by (simp add: POOL_SIZE_def)
  also have "\<dots> = map Some (co_gl_signaled c)"
    using three[of "co_gl_signaled c"] s by (simp add: copy_lists_def)
  finally show ?thesis by (simp add: Some y)
qed simp

lemma unat_less_3: "(i :: u32) < 3 \<Longrightarrow> unat i < 3"
  by (simp add: word_less_nat_alt)

lemma signal_slot_less [simp]: "signal_slot i < 3"
  by (simp add: signal_slot_def word_mod_less_divisor)

lemma reads_of_snoc [simp]: "reads_of (evs @ [e]) = read_step e (reads_of evs)"
  by (simp add: reads_of_def)

lemma sem_state_snoc [simp]: "sem_state i (tr @ [x]) = sem_step i x (sem_state i tr)"
  by (simp add: sem_state_def)

lemma all_procs_simps [simp]:
  "fn_create_mem all_procs" "fn_delete_mem all_procs" "fn_import_mem all_procs" "fn_tex_storage all_procs"
  "fn_wait_sem all_procs" "fn_import_sem all_procs" "fn_fence all_procs" "fn_delete_sync all_procs"
  "fn_wait_sync all_procs"
  by (simp_all add: all_procs_def)

lemma note_event_simps [simp]:
  "pv_interop (note_event e p) = pv_interop p" "pv_mem (note_event e p) = pv_mem p"
  "pv_fence (note_event e p) = pv_fence p" "pv_sems (note_event e p) = pv_sems p"
  "pv_fns (note_event e p) = pv_fns p" "pv_opt (note_event e p) = pv_opt p"
  "pv_current (note_event e p) = pv_current p" "pv_fence_names (note_event e p) = pv_fence_names p"
  "pv_bridge (note_event e p) = pv_bridge p" "pv_pool_w (note_event e p) = pv_pool_w p"
  "pv_pool_h (note_event e p) = pv_pool_h p" "pv_events (note_event e p) = pv_events p @ [e]"
  by (simp_all add: note_event_def)

lemma note_event_ok:
  "preview_ok p \<Longrightarrow> (\<And>r. read_step e (Some r) = Some r) \<Longrightarrow> preview_ok (note_event e p)"
  by (auto simp: preview_ok_def note_event_def fences_ok_def split: option.splits)

subsection \<open>Dropping\<close>

lemma storage_ok_drop:
  assumes "storage_ok ns ms st w h" and "textures_ok t ns g" and "i < 3"
  shows "storage_ok (ns[i := 0]) ms (st(ns ! i := None)) w h"
    and "storage_ok (ns[i := 0]) (ms[i := 0]) (st(ns ! i := None)) w h"
proof -
  have len: "length ns = 3" using assms(2) by (simp add: textures_ok_def)
  have ty: "tidy (t # ns) (gl_live g)" using assms(2) by (simp add: textures_ok_def)
  have inj: "j = i" if "j < 3" "ns ! j = ns ! i" "ns ! j \<noteq> 0" for j
    using tidy_inj[OF ty, of "Suc j" "Suc i"] that assms(3) len by simp
  have st: "\<forall>n. st n \<noteq> None \<longrightarrow> n \<in> set ns \<and> n \<noteq> 0"
    "\<forall>j < 3. ns ! j \<noteq> 0 \<longrightarrow> ms ! j \<noteq> 0 \<and> st (ns ! j) = Some (ms ! j, w, h)"
    using assms(1) unfolding storage_ok_def by blast+
  have "n \<in> set (ns[i := 0]) \<and> n \<noteq> 0" if "(st(ns ! i := None)) n \<noteq> None" for n
  proof -
    have ne: "n \<noteq> ns ! i" using that by (cases "n = ns ! i") simp_all
    then have "n \<in> set ns" "n \<noteq> 0" using st(1) that by simp_all
    with ne obtain k where "k < length ns" "n = ns ! k" "k \<noteq> i" by (auto simp: in_set_conv_nth)
    then show ?thesis using \<open>n \<noteq> 0\<close> nth_mem[of k "ns[i := 0]"] by simp
  qed
  then have live: "\<forall>n. (st(ns ! i := None)) n \<noteq> None \<longrightarrow> n \<in> set (ns[i := 0]) \<and> n \<noteq> 0" by blast
  have kept: "ms ! j \<noteq> 0 \<and> (st(ns ! i := None)) (ns[i := 0] ! j) = Some (ms ! j, w, h)" "j \<noteq> i"
    if "j < 3" "ns[i := 0] ! j \<noteq> 0" for j
  proof -
    have ji: "j \<noteq> i" using that len by (cases "j = i") simp_all
    then have nz: "ns ! j \<noteq> 0" using that by simp
    then have "ns ! j \<noteq> ns ! i" using inj[OF that(1)] ji by blast
    then show "ms ! j \<noteq> 0 \<and> (st(ns ! i := None)) (ns[i := 0] ! j) = Some (ms ! j, w, h)" "j \<noteq> i"
      using st(2) that(1) nz ji by simp_all
  qed
  show "storage_ok (ns[i := 0]) ms (st(ns ! i := None)) w h"
    unfolding storage_ok_def using live kept(1) by blast
  have "ms[i := 0] ! j \<noteq> 0 \<and> (st(ns ! i := None)) (ns[i := 0] ! j) = Some (ms[i := 0] ! j, w, h)"
    if "j < 3" "ns[i := 0] ! j \<noteq> 0" for j using kept[OF that] by simp
  then show "storage_ok (ns[i := 0]) (ms[i := 0]) (st(ns ! i := None)) w h"
    unfolding storage_ok_def using live by blast
qed

lemma storage_ok_none [simp]: "storage_ok [0, 0, 0] ms st w h \<longleftrightarrow> (\<forall>n. st n = None)"
proof -
  have z: "[0, 0, 0 :: nat] ! i = 0" if "i < 3" for i
    using that by (auto simp: less_Suc_eq numeral_3_eq_3)
  have e: "n \<in> set [0, 0, 0 :: nat] \<and> n \<noteq> 0 \<longleftrightarrow> False" for n by auto
  show ?thesis unfolding storage_ok_def e by (metis z)
qed

lemma storage_ok_memory:
  assumes "storage_ok ns ms st w h" and "ns ! i = 0"
  shows "storage_ok ns (ms[i := n]) st w h"
proof -
  have "ms[i := n] ! j = ms ! j" if "ns ! j \<noteq> 0" for j using that assms(2) by (cases "j = i") auto
  then show ?thesis using assms(1) unfolding storage_ok_def by metis
qed

lemma storage_ok_no_name: "storage_ok ns ms st w h \<Longrightarrow> st 0 = None"
  unfolding storage_ok_def by blast

lemma drop_texture_fields:
  "pv_fns (drop_texture i p) = pv_fns p" "pv_mem (drop_texture i p) = pv_mem p"
  "pv_interop (drop_texture i p) = (pv_interop p)[unat i := 0]"
  "pv_tex (drop_texture i p) = pv_tex p" "pv_bridge (drop_texture i p) = pv_bridge p"
  "pv_pool_w (drop_texture i p) = pv_pool_w p" "pv_pool_h (drop_texture i p) = pv_pool_h p"
  "pv_mem_names (drop_texture i p) = pv_mem_names p" "pv_opt (drop_texture i p) = pv_opt p"
  by (simp_all add: drop_texture_def Let_def) (metis list_update_id)

lemma drop_texture_ok:
  assumes "preview_ok p" and "i < 3"
  shows "preview_ok (drop_texture i p)"
    and "storage_ok (pv_interop (drop_texture i p)) ((pv_mem p)[unat i := 0])
      (pv_storage (drop_texture i p)) (pv_pool_w p) (pv_pool_h p)"
proof -
  let ?ns = "pv_interop p"
  have t: "textures_ok (pv_tex p) ?ns (pv_gl p)" and s: "storage_ok ?ns (pv_mem p) (pv_storage p) (pv_pool_w p) (pv_pool_h p)"
    using assms(1) by (simp_all add: preview_ok_def)
  note st = storage_ok_drop[OF s t unat_less_3[OF assms(2)]]
  have z: "?ns ! unat i = 0 \<Longrightarrow> ?ns[unat i := 0] = ?ns" by (metis list_update_id)
  have sz: "(pv_storage p)(0 := None) = pv_storage p" using storage_ok_no_name[OF s] by auto
  show "preview_ok (drop_texture i p)"
    using assms(1) st(1) textures_ok_interop[OF t unat_less_3[OF assms(2)]]
    by (simp add: preview_ok_def drop_texture_def Let_def)
  show "storage_ok (pv_interop (drop_texture i p)) ((pv_mem p)[unat i := 0])
      (pv_storage (drop_texture i p)) (pv_pool_w p) (pv_pool_h p)"
    using st(2) z sz by (cases "?ns ! unat i = 0") (simp_all add: drop_texture_def Let_def)
qed


lemma drop_slot_fields:
  assumes "pv_fns p = all_procs"
  shows "pv_fns (drop_slot i p) = all_procs" "pv_mem (drop_slot i p) = (pv_mem p)[unat i := 0]"
    "pv_interop (drop_slot i p) = (pv_interop p)[unat i := 0]"
    "pv_tex (drop_slot i p) = pv_tex p" "pv_bridge (drop_slot i p) = pv_bridge p"
    "pv_pool_w (drop_slot i p) = pv_pool_w p" "pv_pool_h (drop_slot i p) = pv_pool_h p"
    "pv_opt (drop_slot i p) = pv_opt p"
  using assms by (simp_all add: drop_slot_def drop_memory_def drop_texture_fields Let_def)
    (metis list_update_id)

lemma drop_slot_ok:
  assumes "preview_ok p" and "i < 3"
  shows "preview_ok (drop_slot i p)"
proof -
  let ?q = "drop_texture i p"
  have q: "preview_ok ?q" by (rule drop_texture_ok[OF assms])
  then have n: "names_ok (pv_mem ?q) (pv_mem_names ?q)" by (simp add: preview_ok_def)
  show ?thesis
    using q drop_texture_ok(2)[OF assms] names_ok_delete[OF n unat_less_3[OF assms(2)]]
    by (simp add: preview_ok_def drop_slot_def drop_memory_def Let_def drop_texture_fields)
qed

lemma drop_slots_ok:
  assumes "preview_ok p"
  shows "preview_ok (fold drop_slot [0, 1, 2] p)" "pv_interop (fold drop_slot [0, 1, 2] p) = [0, 0, 0]"
    "pv_mem (fold drop_slot [0, 1, 2] p) = [0, 0, 0]"
proof -
  have f: "pv_fns p = all_procs" and l: "length (pv_interop p) = 3" "length (pv_mem p) = 3"
    using assms by (simp_all add: preview_ok_def textures_ok_def names_ok_def)
  show "preview_ok (fold drop_slot [0, 1, 2] p)" using assms by (simp add: drop_slot_ok)
  have three: "xs[0 := 0, Suc 0 := 0, 2 := 0] = [0, 0, 0]" if "length xs = 3" for xs :: "nat list"
    using that by (auto simp: length_Suc_conv numeral_3_eq_3 numeral_2_eq_2)
  show "pv_interop (fold drop_slot [0, 1, 2] p) = [0, 0, 0]" "pv_mem (fold drop_slot [0, 1, 2] p) = [0, 0, 0]"
    using f l three by (simp_all add: drop_slot_fields)
qed

lemma drop_slots_kept:
  assumes "preview_ok p"
  shows "pv_bridge (fold drop_slot [0, 1, 2] p) = pv_bridge p" "pv_opt (fold drop_slot [0, 1, 2] p) = pv_opt p"
    "pv_tex (fold drop_slot [0, 1, 2] p) = pv_tex p"
  using assms by (simp_all add: preview_ok_def drop_slot_fields)

subsection \<open>Steps of a paint\<close>

lemma submit_ok: "preview_ok p \<Longrightarrow> slot < 3 \<Longrightarrow> preview_ok (snd (submitD3D11Frame st t w h slot p))"
  by (simp add: submitD3D11Frame_def preview_ok_def)

lemma upload_ok: "preview_ok p \<Longrightarrow> preview_ok (uploadCpuFrame d w h pitch p)"
  by (simp add: uploadCpuFrame_def preview_ok_def Let_def)

lemma mark_ok: "preview_ok (paint_start env p) = preview_ok p" "preview_ok (paint_end env p) = preview_ok p"
  by (simp_all add: paint_start_def paint_end_def preview_ok_def)

lemma poll_ok: "preview_ok p \<Longrightarrow> preview_ok (poll_copy env p)"
  by (simp add: poll_copy_def preview_ok_def Let_def)

lemma take_gpu_ok:
  "take_gpu_frame p = (frame, q) \<Longrightarrow> preview_ok p \<Longrightarrow>
   preview_ok q \<and> (case frame of None \<Rightarrow> True | Some (st, t, w, h, i) \<Rightarrow> i < 3)"
  by (auto simp: take_gpu_frame_def preview_ok_def split: if_splits)

lemma take_cpu_ok: "take_cpu_frame p = (frame, q) \<Longrightarrow> preview_ok p \<Longrightarrow> preview_ok q"
  by (auto simp: take_cpu_frame_def preview_ok_def split: if_splits)

text \<open>Two shapes of an update that keep the invariant.\<close>

lemma texture_ok:
  "preview_ok p \<Longrightarrow> textures_ok n (pv_interop p) g \<Longrightarrow>
   preview_ok (p\<lparr>pv_tex := n, pv_gl := g, pv_tex_w := w, pv_tex_h := h\<rparr>)"
  by (simp add: preview_ok_def)

lemma preview_ok_textures: "preview_ok p \<Longrightarrow> textures_ok (pv_tex p) (pv_interop p) (pv_gl p)"
  by (simp add: preview_ok_def)

definition ensure_texture :: "preview \<Rightarrow> preview" where
  "ensure_texture p = (if pv_tex p = 0 then case gl_gen (pv_gl p) of (n, g) \<Rightarrow> p\<lparr>pv_tex := n, pv_gl := g\<rparr> else p)"

lemma ensure_texture_ok: "preview_ok p \<Longrightarrow> preview_ok (ensure_texture p) \<and> pv_tex (ensure_texture p) \<noteq> 0"
  using textures_ok_gen[of "pv_interop p" "pv_gl p"]
  by (auto simp: ensure_texture_def preview_ok_def split: prod.splits)

lemma upload_cpu_ok:
  assumes "preview_ok p"
  shows "preview_ok (upload_cpu frame p)"
proof -
  note e = ensure_texture_ok[OF assms]
  let ?q = "ensure_texture p"
  note t = preview_ok_textures[OF conjunct1[OF e]]
  have a: "preview_ok (?q\<lparr>pv_gl := gl_tex_image (pv_tex ?q) w h d (pv_gl ?q), pv_tex_w := w, pv_tex_h := h\<rparr>)" for w h d
    using e textures_ok_upload(1)[OF t] by (simp add: preview_ok_def)
  have b: "preview_ok (?q\<lparr>pv_gl := gl_sub_image (pv_tex ?q) w h d (pv_gl ?q)\<rparr>)" for w h d
    using e textures_ok_upload(2)[OF t] by (simp add: preview_ok_def)
  show ?thesis
    using a b assms unfolding upload_cpu_def ensure_texture_def[symmetric] Let_def
    by (simp split: option.split prod.split)
qed

lemma rebuild_ok:
  assumes "rebuild_pool env target w h i p = (target', q)" and "preview_ok p"
  shows "preview_ok q \<and> (if pv_bridge p = None then pv_bridge q = None
    else pv_pool_w q = w \<and> pv_pool_h q = h) \<and> pv_opt q = pv_opt p"
proof (cases "pv_bridge p")
  case None
  then show ?thesis using assms by (simp add: rebuild_pool_def)
next
  case br: (Some tr)
  let ?p = "p\<lparr>pv_bridge := Some (tr @ [ExtResizeGlPool w h])\<rparr>"
  have p: "preview_ok ?p" using assms(2) by (simp add: preview_ok_def)
  note d = drop_slots_ok[OF p]
  have "preview_ok ((fold drop_slot [0, 1, 2] ?p)\<lparr>pv_pool_w := w, pv_pool_h := h\<rparr>)"
    using d by (simp add: preview_ok_def del: fold.simps)
  then show ?thesis
    using assms br drop_slots_kept[OF p] by (auto simp: rebuild_pool_def simp del: fold.simps split: if_splits)
qed

lemma alloc_ok:
  assumes "preview_ok p"
  shows "preview_ok (alloc_texture env w h p) \<and> pv_opt (alloc_texture env w h p) = pv_opt p \<and>
    pv_pool_w (alloc_texture env w h p) = pv_pool_w p \<and> pv_pool_h (alloc_texture env w h p) = pv_pool_h p \<and>
    pv_bridge (alloc_texture env w h p) = pv_bridge p"
proof (cases "gl_gen (gl_release (pv_tex p) (pv_gl p))")
  case (Pair n g)
  note t = textures_ok_gen[OF textures_ok_release[OF preview_ok_textures[OF assms]] Pair]
  have "preview_ok (p\<lparr>pv_tex := n, pv_gl := gl_tex_image n a b d g, pv_tex_w := a, pv_tex_h := b\<rparr>)" for a b d
    by (rule texture_ok[OF assms]) (use t textures_ok_upload(1) in blast)
  then show ?thesis using assms by (simp add: alloc_texture_def Pair)
qed


lemma wait_ok:
  assumes "wait_for_reader env j p = (b, q)" and "preview_ok p" and "j < 3"
  shows "preview_ok q \<and> pv_opt q = pv_opt p \<and> pv_pool_w q = pv_pool_w p \<and> pv_pool_h q = pv_pool_h p \<and> pv_bridge q = pv_bridge p"
    and "b \<Longrightarrow> image_idle j (pv_events q)"
proof -
  obtain r where r: "reads_of (pv_events p) = Some r" "\<And>i. i < 3 \<Longrightarrow> pv_fence p ! unat i = 0 \<Longrightarrow> i \<notin> r"
    using assms(2) by (auto simp: preview_ok_def fences_ok_def split: option.splits)
  have q: "q = (if pv_fence p ! unat j \<noteq> 0 \<and> b then note_event (EvWaited j) p else p)"
    using assms(1,2) by (auto simp: wait_for_reader_def preview_ok_def split: if_splits)
  have "preview_ok (note_event (EvWaited j) p)"
    using assms(2) r by (simp add: preview_ok_def fences_ok_def) (simp add: note_event_def)
  then show "preview_ok q \<and> pv_opt q = pv_opt p \<and> pv_pool_w q = pv_pool_w p \<and> pv_pool_h q = pv_pool_h p \<and> pv_bridge q = pv_bridge p"
    using assms(2) by (simp add: q)
  show "b \<Longrightarrow> image_idle j (pv_events q)" using r assms(3) by (simp add: q image_idle_def)
qed

text \<open>A copy, good or bad, keeps the optimizer's account of the semaphores.\<close>

lemma sems_ok_copy:
  assumes "execute_copy q env st = (r, st')" and "sems_ok (Some st)"
  shows "sems_ok (Some st')"
proof -
  obtain c tr where st: "st = (c, tr)" by fastforce
  show ?thesis
  proof (cases rule: execute_copy_cases[of q env c tr])
    case (failed c')
    then show ?thesis using assms st by (auto simp: copy_lists_def)
  next
    case (ok c1)
    have b: "unat (cr_gl_slot q) < 3" using ok(1) by (simp add: copy_args_ok_def)
    from ok assms st b show ?thesis
      by (auto simp: copy_lists_def make_submit_def gl_signal_for_def nth_list_update split: if_splits)
  qed
qed

lemma sems_ok_clear:
  assumes "sems_ok (Some st)" and "is_slot_signaled i (fst st)"
  shows "sems_ok (Some (clear_gl_signal i st))"
  using assms
  by (cases st) (auto simp: clear_gl_signal_def is_slot_signaled_def copy_lists_def nth_list_update dest: slot_bound)

lemma run_copy_ok:
  assumes "run_copy env q st p = (r, p')" and "preview_ok p" and "pv_opt p = Some st"
    and "image_idle (cr_gl_slot q) (pv_events p)"
  shows "preview_ok p' \<and> pv_pool_w p' = pv_pool_w p \<and> pv_pool_h p' = pv_pool_h p \<and> pv_bridge p' = pv_bridge p"
proof -
  obtain x st' where x: "execute_copy q (pe_copy env) st = (x, st')" by (rule prod.exhaust)
  have s: "sems_ok (Some st')" using sems_ok_copy[OF x] assms(2,3) by (simp add: preview_ok_def)
  then have o: "preview_ok (p\<lparr>pv_opt := Some st'\<rparr>)" using assms(2) by (simp add: preview_ok_def)
  obtain rs where rs: "reads_of (pv_events p) = Some rs" "cr_gl_slot q \<notin> rs"
    using assms(4) by (auto simp: image_idle_def split: option.splits)
  have "preview_ok (note_event (EvSubmit (cr_gl_slot q)) (p\<lparr>pv_opt := Some st'\<rparr>))"
    using o rs by (simp add: preview_ok_def fences_ok_def) (simp add: note_event_def)
  then show ?thesis using assms(1) x o by (auto simp: run_copy_def)
qed

lemma import_memory_ok:
  assumes "preview_ok p" and "i < 3" and "pv_interop p ! unat i = 0 \<or> pv_mem p ! unat i \<noteq> 0"
  shows "preview_ok (import_memory i p)"
proof (cases "pv_mem p ! unat i = 0")
  case True
  obtain n s where g: "name_gen (pv_mem_names p) = (n, s)" by fastforce
  have m: "names_ok (pv_mem p) (pv_mem_names p)" and st: "storage_ok (pv_interop p) (pv_mem p) (pv_storage p) (pv_pool_w p) (pv_pool_h p)"
    using assms(1) by (simp_all add: preview_ok_def)
  have "storage_ok (pv_interop p) ((pv_mem p)[unat i := n]) (pv_storage p) (pv_pool_w p) (pv_pool_h p)"
    by (rule storage_ok_memory[OF st]) (use assms(3) True in simp)
  moreover have "names_ok ((pv_mem p)[unat i := n]) s"
    using names_ok_gen[OF m unat_less_3[OF assms(2)] True g] by simp
  ultimately show ?thesis using assms(1) True by (simp add: import_memory_def g preview_ok_def)
next
  case False
  then show ?thesis using assms(1) by (simp add: import_memory_def)
qed

lemma storage_needs_memory:
  "preview_ok p \<Longrightarrow> (i :: u32) < 3 \<Longrightarrow> pv_interop p ! unat i = 0 \<or> pv_mem p ! unat i \<noteq> 0"
  unfolding preview_ok_def storage_ok_def using unat_less_3 by blast

text \<open>A new texture gets its storage at once; an old one of the right size keeps it.\<close>

definition fresh_texture :: "u32 \<Rightarrow> preview \<Rightarrow> preview" where
  "fresh_texture i p =
     (if pv_interop p ! unat i = 0
      then (case gl_gen (pv_gl p) of (n, g) \<Rightarrow> p\<lparr>pv_gl := g, pv_interop := (pv_interop p)[unat i := n]\<rparr>) else p)"

lemma fresh_storage_ok:
  fixes i :: u32
  assumes p: "preview_ok p" and i: "i < 3" and z: "pv_interop p ! unat i = 0" and m: "pv_mem p ! unat i \<noteq> 0"
    and g: "gl_gen (pv_gl p) = (n, g)"
  shows "preview_ok (p\<lparr>pv_gl := g, pv_interop := (pv_interop p)[unat i := n],
      pv_storage := (pv_storage p)(n := Some (pv_mem p ! unat i, pv_pool_w p, pv_pool_h p))\<rparr>)"
    and "pv_storage p n = None" and "n \<noteq> 0"
proof -
  let ?ns = "pv_interop p" and ?st = "pv_storage p" and ?ms = "pv_mem p"
  have t: "textures_ok (pv_tex p) ?ns (pv_gl p)" and s: "storage_ok ?ns ?ms ?st (pv_pool_w p) (pv_pool_h p)"
    using p by (simp_all add: preview_ok_def)
  have s1: "\<forall>n. ?st n \<noteq> None \<longrightarrow> n \<in> set ?ns \<and> n \<noteq> 0"
    and s2: "\<forall>i < 3. ?ns ! i \<noteq> 0 \<longrightarrow> ?ms ! i \<noteq> 0 \<and> ?st (?ns ! i) = Some (?ms ! i, pv_pool_w p, pv_pool_h p)"
    using s unfolding storage_ok_def by blast+
  note tn = textures_ok_gen_interop[OF t unat_less_3[OF i] z g]
  have len: "length ?ns = 3" using t by (simp add: textures_ok_def)
  have fresh: "n \<notin> gl_live (pv_gl p)" using gl_gen_fresh[OF g] t by (simp add: textures_ok_def)
  have out: "n \<notin> set ?ns" using fresh t tn by (auto simp: textures_ok_def tidy_def)
  show "?st n = None" using s out unfolding storage_ok_def by blast
  show "n \<noteq> 0" using tn by simp
  have "storage_ok (?ns[unat i := n]) ?ms (?st(n := Some (?ms ! unat i, pv_pool_w p, pv_pool_h p))) (pv_pool_w p) (pv_pool_h p)"
    unfolding storage_ok_def
  proof (intro conjI allI impI)
    fix k assume k: "(?st(n := Some (?ms ! unat i, pv_pool_w p, pv_pool_h p))) k \<noteq> None"
    show "k \<in> set (?ns[unat i := n])"
    proof (cases "k = n")
      case True
      then show ?thesis using len unat_less_3[OF i] by (simp add: set_update_memI)
    next
      case False
      then have "k \<in> set ?ns" "k \<noteq> 0" using s1[rule_format, of k] k by simp_all
      then obtain j where j: "j < length ?ns" "?ns ! j = k" by (auto simp: in_set_conv_nth)
      then have "j \<noteq> unat i" using z \<open>k \<noteq> 0\<close> by auto
      then have "?ns[unat i := n] ! j = k" using j by simp
      then show ?thesis using j(1) by (metis length_list_update nth_mem)
    qed
    show "k \<noteq> 0" using s1[rule_format, of k] k tn by (cases "k = n") simp_all
  next
    fix j :: nat assume j: "j < 3" "?ns[unat i := n] ! j \<noteq> 0"
    have "?ns ! j \<noteq> n" using out len j(1) by (metis nth_mem)
    then show "?ms ! j \<noteq> 0"
      "(?st(n := Some (?ms ! unat i, pv_pool_w p, pv_pool_h p))) (?ns[unat i := n] ! j) = Some (?ms ! j, pv_pool_w p, pv_pool_h p)"
      using s2[rule_format, OF j(1)] j len m by (cases "j = unat i"; simp)+
  qed
  then show "preview_ok (p\<lparr>pv_gl := g, pv_interop := ?ns[unat i := n],
      pv_storage := ?st(n := Some (?ms ! unat i, pv_pool_w p, pv_pool_h p))\<rparr>)"
    using p tn by (simp add: preview_ok_def)
qed


lemma interop_texture_ok:
  fixes i :: u32
  assumes "preview_ok p" and "i < 3" and "pv_mem p ! unat i \<noteq> 0" and "pv_pool_w p = w" and "pv_pool_h p = h"
  shows "preview_ok (interop_texture w h i p)"
proof -
  define q where "q = (if w \<noteq> pv_target_w p \<or> h \<noteq> pv_target_h p then drop_texture i p else p)"
  have q: "preview_ok q" "pv_mem q ! unat i \<noteq> 0" "pv_pool_w q = w" "pv_pool_h q = h"
    using assms drop_texture_ok(1)[OF assms(1,2)] by (simp_all add: q_def drop_texture_fields)
  have fn: "fn_tex_storage (pv_fns q)" using q(1) by (simp add: preview_ok_def)
  have target: "preview_ok (x\<lparr>pv_target_w := w, pv_target_h := h\<rparr>)" if "preview_ok x" for x
    using that by (simp add: preview_ok_def)
  have shape: "interop_texture w h i p = (let x = fresh_texture i q in
      if pv_interop x ! unat i \<noteq> 0 \<and> fn_tex_storage (pv_fns x) then
        (storage_from_memory (pv_interop x ! unat i) (pv_mem x ! unat i) w h x)\<lparr>pv_target_w := w, pv_target_h := h\<rparr>
      else x)"
    by (simp add: interop_texture_def fresh_texture_def q_def Let_def)
  show ?thesis
  proof (cases "pv_interop q ! unat i = 0")
    case True
    obtain n g where g: "gl_gen (pv_gl q) = (n, g)" by (rule prod.exhaust)
    note f = fresh_storage_ok[OF q(1) assms(2) True q(2) g]
    have "unat i < length (pv_interop q)" using q(1) unat_less_3[OF assms(2)] by (simp add: preview_ok_def textures_ok_def)
    then show ?thesis
      using f(1)[unfolded q(3,4)] f(2,3) fn target
      by (simp add: shape fresh_texture_def True g storage_from_memory_def)
  next
    case False
    obtain v where v: "pv_storage q (pv_interop q ! unat i) = Some v"
      using q(1) False unat_less_3[OF assms(2)] unfolding preview_ok_def storage_ok_def by blast
    then show ?thesis
      using q(1) False fn target note_event_ok[of q EvInvalidOperation]
      by (simp add: shape fresh_texture_def storage_from_memory_def)
  qed
qed

lemma import_memory_fields:
  "pv_pool_w (import_memory i p) = pv_pool_w p" "pv_pool_h (import_memory i p) = pv_pool_h p"
  by (simp_all add: import_memory_def split: prod.split)

lemma import_target_ok:
  assumes "preview_ok p" and "i < 3" and "pv_bridge p = None \<or> pv_pool_w p = w \<and> pv_pool_h p = h"
  shows "preview_ok (import_target env w h i p)"
  using import_memory_ok[OF assms(1,2) storage_needs_memory[OF assms(1,2)]] assms
    interop_texture_ok[of "import_memory i p" i w h]
  by (cases "pv_bridge p") (simp_all add: import_target_def Let_def import_memory_fields)

lemma preview_ok_simps [simp]:
  "preview_ok (p\<lparr>pv_gl_target := x\<rparr>) = preview_ok p"
  "preview_ok (p\<lparr>pv_timeline := a, pv_expected := b, pv_pending := c\<rparr>) = preview_ok p"
  by (simp_all add: preview_ok_def)

lemma current_ok: "preview_ok p \<Longrightarrow> i < 3 \<Longrightarrow> preview_ok (p\<lparr>pv_current := i\<rparr>)"
  by (simp add: preview_ok_def)

lemma submit_frame_ok:
  assumes "submit_frame env frame p = (go_on, q)" and "preview_ok p"
    and "case frame of None \<Rightarrow> True | Some (st, t, w, h, i) \<Rightarrow> i < 3"
  shows "preview_ok q"
proof (cases "frame = None \<or> pv_opt p = None")
  case True
  then show ?thesis
    using assms by (auto simp: submit_frame_def mark_ok split: option.splits prod.splits)
next
  case False
  then obtain staging target w h i st where f: "frame = Some (staging, target, w, h, i)" "pv_opt p = Some st"
    by (cases frame) auto
  then have i: "i < 3" using assms(3) by simp
  obtain t1 p1 where r: "rebuild_pool env target w h i p = (t1, p1)" by (rule prod.exhaust)
  note o1 = rebuild_ok[OF r assms(2)]
  define p2 where "p2 = (alloc_texture env w h p1)\<lparr>pv_current := i\<rparr>"
  have o2: "preview_ok p2" "pv_opt p2 = Some st" "pv_bridge p2 = None \<or> pv_pool_w p2 = w \<and> pv_pool_h p2 = h"
    using alloc_ok[OF conjunct1[OF o1], of env w h] o1 f i by (auto simp: p2_def current_ok split: if_splits)
  obtain b p3 where wt: "wait_for_reader env (signal_slot i) p2 = (b, p3)" by (rule prod.exhaust)
  note o3 = wait_ok[OF wt o2(1) signal_slot_less]
  obtain x p4 where rc: "run_copy env (copy_request env staging t1 w h i p3) st p3 = (x, p4)" by (rule prod.exhaust)
  show ?thesis
  proof (cases b)
    case False
    then show ?thesis using assms(1) f r wt o3(1) by (simp add: submit_frame_def Let_def flip: p2_def) (auto simp: mark_ok)
  next
    case True
    have "preview_ok p4 \<and> pv_pool_w p4 = pv_pool_w p3 \<and> pv_pool_h p4 = pv_pool_h p3 \<and> pv_bridge p4 = pv_bridge p3"
      by (rule run_copy_ok[OF rc]) (use o3 o2 True in \<open>simp_all add: copy_request_def\<close>)
    then have o4: "preview_ok p4" "pv_bridge p4 = None \<or> pv_pool_w p4 = w \<and> pv_pool_h p4 = h" using o3 o2 by simp_all
    have "preview_ok (import_target env w h i (p4\<lparr>pv_gl_target := y\<rparr>))" for y
      by (rule import_target_ok) (use o4 i in simp_all)
    then show ?thesis
      using assms(1) f r wt rc True o4(1)
      by (cases x) (auto simp: submit_frame_def Let_def mark_ok simp flip: p2_def)
  qed
qed

lemma wait_semaphore_ok: "preview_ok p \<Longrightarrow> preview_ok (wait_semaphore n p)"
proof -
  assume p: "preview_ok p"
  have "preview_ok ((note_event (EvSemWait i) p)\<lparr>pv_opt := Some (clear_gl_signal i (c, tr))\<rparr>)"
    if "pv_opt p = Some (c, tr)" "is_slot_signaled i c" for i c tr
  proof -
    have "sems_ok (Some (clear_gl_signal i (c, tr)))"
      by (rule sems_ok_clear) (use p that in \<open>simp_all add: preview_ok_def\<close>)
    then show ?thesis using note_event_ok[OF p, of "EvSemWait i"] by (simp add: preview_ok_def)
  qed
  with p show ?thesis by (auto simp: wait_semaphore_def Let_def split: option.split)
qed

lemma set_fence_ok:
  assumes "preview_ok p"
  shows "preview_ok (set_fence (note_event (EvDraw (pv_current p) n) p))"
proof -
  let ?i = "unat (pv_current p)"
  have i: "?i < 3" using assms unat_less_3 by (simp add: preview_ok_def)
  have f: "names_ok (pv_fence p) (pv_fence_names p)" using assms by (simp add: preview_ok_def)
  define s where "s = (if pv_fence p ! ?i \<noteq> 0 then name_delete (pv_fence p ! ?i) (pv_fence_names p) else pv_fence_names p)"
  have z: "pv_fence p ! ?i = 0 \<Longrightarrow> (pv_fence p)[?i := 0] = pv_fence p" by (metis list_update_id)
  have cleared: "names_ok ((pv_fence p)[?i := 0]) s"
    using names_ok_delete[OF f i] f z by (simp add: s_def)
  obtain m s' where g: "name_gen s = (m, s')" by (rule prod.exhaust)
  have new: "names_ok ((pv_fence p)[?i := m]) s'" "m \<noteq> 0"
    using names_ok_gen[OF cleared i _ g] names_ok_length[OF f] i by simp_all
  obtain r where r: "reads_of (pv_events p) = Some r" "\<forall>i < 3. pv_fence p ! unat i = 0 \<longrightarrow> i \<notin> r"
    using assms by (auto simp: preview_ok_def fences_ok_def split: option.splits)
  have "fences_ok ((pv_fence p)[?i := m]) (pv_events p @ [EvDraw (pv_current p) n])"
  proof -
    have "j \<notin> insert (pv_current p) r" if "j < 3" "(pv_fence p)[?i := m] ! unat j = 0" for j
    proof (cases "j = pv_current p")
      case True
      then show ?thesis using that new(2) names_ok_length[OF f] i by simp
    next
      case False
      then show ?thesis using that r(2) by simp
    qed
    then show ?thesis using r(1) by (simp add: fences_ok_def)
  qed
  then have "preview_ok (p\<lparr>pv_events := pv_events p @ [EvDraw (pv_current p) n],
      pv_fence_names := s', pv_fence := (pv_fence p)[?i := m]\<rparr>)"
    using assms new(1) by (simp add: preview_ok_def)
  moreover have "set_fence (note_event (EvDraw (pv_current p) n) p) =
      p\<lparr>pv_events := pv_events p @ [EvDraw (pv_current p) n], pv_fence_names := s', pv_fence := (pv_fence p)[?i := m]\<rparr>"
    using assms g by (cases "pv_fence p ! ?i = 0")
      (simp_all add: preview_ok_def set_fence_def Let_def s_def note_event_def)
  ultimately show ?thesis by simp
qed


lemma preview_paint_ok:
  assumes "preview_ok p"
  shows "preview_ok (preview_paint env p)"
proof -
  define p1 where "p1 = poll_copy env (paint_start env p)"
  have p1: "preview_ok p1" using assms by (simp add: p1_def poll_ok mark_ok)
  obtain frame p2 where f: "take_gpu_frame p1 = (frame, p2)" by (rule prod.exhaust)
  note o2 = take_gpu_ok[OF f p1]
  obtain cpu p3 where c: "take_cpu_frame p2 = (cpu, p3)" by (rule prod.exhaust)
  note o3 = take_cpu_ok[OF c conjunct1[OF o2]]
  obtain go_on p4 where s: "submit_frame env frame (upload_cpu cpu p3) = (go_on, p4)" by (rule prod.exhaust)
  have o4: "preview_ok p4" by (rule submit_frame_ok[OF s upload_cpu_ok[OF o3] conjunct2[OF o2]])
  have "pv_current (wait_semaphore n p4) = pv_current p4" for n
    by (simp add: wait_semaphore_def Let_def split: option.split)
  then have "preview_ok (render env p4)"
    using o4 set_fence_ok[OF wait_semaphore_ok[OF o4]] by (simp add: render_def Let_def mark_ok)
  then show ?thesis
    using o4 by (simp add: preview_paint_def f c s flip: p1_def)
qed

lemma preview_step_ok: "preview_ok p \<Longrightarrow> input_in_pool x \<Longrightarrow> preview_ok (preview_input_step x p)"
  by (cases x) (simp_all add: submit_ok upload_ok preview_paint_ok)

interpretation preview_machine: kept_by_steps input_in_pool preview_input_step preview_ok
  by unfold_locales (rule preview_step_ok)

lemma preview_run_ok: "preview_ok p \<Longrightarrow> list_all input_in_pool ins \<Longrightarrow> preview_ok (preview_run ins p)"
  unfolding preview_run_def by (rule preview_machine.run_keeps)

text \<open>The preview touches the copy optimizer only through its operations: whatever holds of the
  optimizer under any sequence of them holds of the one in the preview.\<close>

definition by_copy_steps :: "preview \<Rightarrow> preview \<Rightarrow> bool" where
  "by_copy_steps p q \<longleftrightarrow> (\<exists>ops. pv_opt q = map_option (fold copy_step ops) (pv_opt p))"

lemma by_copy_steps_same: "pv_opt q = pv_opt p \<Longrightarrow> by_copy_steps p q"
  unfolding by_copy_steps_def by (intro exI[of _ "[]"]) (simp add: option.map_id)

lemma by_copy_steps_trans: "by_copy_steps p q \<Longrightarrow> by_copy_steps q r \<Longrightarrow> by_copy_steps p r"
  unfolding by_copy_steps_def
proof (elim exE)
  fix xs ys
  assume "pv_opt q = map_option (fold copy_step xs) (pv_opt p)" "pv_opt r = map_option (fold copy_step ys) (pv_opt q)"
  then show "\<exists>ops. pv_opt r = map_option (fold copy_step ops) (pv_opt p)"
    by (intro exI[of _ "xs @ ys"]) (simp add: option.map_comp comp_def)
qed

lemma by_copy_steps_inv:
  assumes "by_copy_steps p q" and "\<And>op st. I st \<Longrightarrow> I (copy_step op st)"
    and "case pv_opt p of None \<Rightarrow> True | Some st \<Rightarrow> I st"
  shows "case pv_opt q of None \<Rightarrow> True | Some st \<Rightarrow> I st"
proof -
  obtain ops where q: "pv_opt q = map_option (fold copy_step ops) (pv_opt p)"
    using assms(1) unfolding by_copy_steps_def by blast
  have "I st \<Longrightarrow> I (fold copy_step ops st)" for st
    by (induction ops arbitrary: st) (simp_all add: assms(2))
  then show ?thesis using assms(3) by (cases "pv_opt p") (simp_all add: q)
qed

lemma drop_slot_opt: "pv_opt (drop_slot i p) = pv_opt p"
  by (simp add: drop_slot_def drop_memory_def drop_texture_def Let_def)

lemma rebuild_opt: "rebuild_pool env target w h i p = (t, q) \<Longrightarrow> pv_opt q = pv_opt p"
  by (auto simp: rebuild_pool_def drop_slot_opt split: option.splits if_splits)

lemma import_opts:
  "pv_opt (import_memory i p) = pv_opt p" "pv_opt (drop_texture i p) = pv_opt p"
  "pv_opt (storage_from_memory n m w h p) = pv_opt p"
  by (simp_all add: import_memory_def drop_texture_def storage_from_memory_def note_event_def Let_def
      split: prod.split)

lemma interop_texture_opt: "pv_opt (interop_texture w h i p) = pv_opt p"
proof -
  have "pv_opt (fresh_texture i q) = pv_opt q" for q by (simp add: fresh_texture_def split: prod.split)
  then show ?thesis
    unfolding interop_texture_def fresh_texture_def[symmetric] Let_def by (simp add: import_opts)
qed

lemma import_target_opt: "pv_opt (import_target env w h i p) = pv_opt p"
  by (simp add: import_target_def import_opts interop_texture_opt Let_def)

lemma submit_frame_copies:
  assumes "submit_frame env frame p = (go_on, q)"
  shows "by_copy_steps p q"
proof (cases "frame = None \<or> pv_opt p = None")
  case True
  then show ?thesis using assms
    by (intro by_copy_steps_same) (auto simp: submit_frame_def paint_end_def split: option.splits prod.splits)
next
  case False
  then obtain staging target w h i st where f: "frame = Some (staging, target, w, h, i)" "pv_opt p = Some st"
    by (cases frame) auto
  obtain t1 p1 where r: "rebuild_pool env target w h i p = (t1, p1)" by (rule prod.exhaust)
  define p2 where "p2 = (alloc_texture env w h p1)\<lparr>pv_current := i\<rparr>"
  have o2: "pv_opt p2 = pv_opt p" using rebuild_opt[OF r] by (simp add: p2_def alloc_texture_def split: prod.split)
  obtain b p3 where wt: "wait_for_reader env (signal_slot i) p2 = (b, p3)" by (rule prod.exhaust)
  have o3: "pv_opt p3 = Some st" using wt o2 f(2) by (auto simp: wait_for_reader_def note_event_def split: if_splits)
  let ?q = "copy_request env staging t1 w h i p3"
  obtain x p4 where rc: "run_copy env ?q st p3 = (x, p4)" by (rule prod.exhaust)
  have o4: "pv_opt p4 = Some (copy_step (OpCopy ?q (pe_copy env)) st)"
    using rc by (auto simp: run_copy_def note_event_def split: prod.splits if_splits)
  have "pv_opt q = pv_opt p3 \<or> pv_opt q = pv_opt p4"
    using assms f r wt rc
    by (cases b; cases x) (auto simp: submit_frame_def Let_def paint_end_def import_target_opt simp flip: p2_def)
  then show ?thesis
  proof
    assume "pv_opt q = pv_opt p4"
    then show ?thesis using o4 f(2)
      unfolding by_copy_steps_def by (intro exI[of _ "[OpCopy ?q (pe_copy env)]"]) simp
  qed (use o3 f(2) in \<open>simp add: by_copy_steps_same\<close>)
qed

lemma render_copies: "by_copy_steps p (render env p)"
proof -
  have same: "pv_opt (paint_end env (set_fence (note_event e x))) = pv_opt x" for e x
    by (simp add: paint_end_def set_fence_def note_event_def Let_def split: prod.split)
  have "by_copy_steps p (wait_semaphore n p)" for n
  proof (cases "\<exists>c tr. pv_opt p = Some (c, tr) \<and> is_slot_signaled (pv_current p) c")
    case True
    then obtain c tr where "pv_opt p = Some (c, tr)" by blast
    then have "pv_opt (wait_semaphore n p) = pv_opt p \<or>
        pv_opt (wait_semaphore n p) = Some (copy_step (OpClear (pv_current p)) (c, tr))"
      by (simp add: wait_semaphore_def Let_def note_event_def)
    then show ?thesis
      using \<open>pv_opt p = Some (c, tr)\<close> by_copy_steps_same[of "wait_semaphore n p" p]
      unfolding by_copy_steps_def by (metis fold_simps option.simps(9))
  next
    case False
    then have "wait_semaphore n p = p"
      by (auto simp: wait_semaphore_def Let_def split: option.split)
    then show ?thesis by (simp add: by_copy_steps_same)
  qed
  then have "by_copy_steps p (paint_end env (set_fence (note_event e (wait_semaphore n p))))" for e n
    using by_copy_steps_trans[OF _ by_copy_steps_same[OF same]] by blast
  moreover have "by_copy_steps p (paint_end env p)" by (rule by_copy_steps_same) (simp add: paint_end_def)
  ultimately show ?thesis by (simp add: render_def Let_def)
qed

lemma paint_opts:
  "pv_opt (poll_copy env (paint_start env p)) = pv_opt p"
  "take_gpu_frame p = (frame, q) \<Longrightarrow> pv_opt q = pv_opt p"
  "take_cpu_frame p = (cpu, q) \<Longrightarrow> pv_opt q = pv_opt p"
  by (auto simp: poll_copy_def paint_start_def take_gpu_frame_def take_cpu_frame_def Let_def split: if_splits)

lemma upload_cpu_opt: "pv_opt (upload_cpu cpu p) = pv_opt p"
proof -
  have "pv_opt (ensure_texture p) = pv_opt p" by (simp add: ensure_texture_def split: prod.split)
  then show ?thesis
    unfolding upload_cpu_def ensure_texture_def[symmetric] Let_def by (simp split: option.split)
qed

lemma preview_paint_copies: "by_copy_steps p (preview_paint env p)"
proof -
  obtain frame p2 where f: "take_gpu_frame (poll_copy env (paint_start env p)) = (frame, p2)" by (rule prod.exhaust)
  obtain cpu p3 where c: "take_cpu_frame p2 = (cpu, p3)" by (rule prod.exhaust)
  obtain go_on p4 where s: "submit_frame env frame (upload_cpu cpu p3) = (go_on, p4)" by (rule prod.exhaust)
  have "pv_opt (upload_cpu cpu p3) = pv_opt p"
    by (simp only: upload_cpu_opt paint_opts(3)[OF c] paint_opts(2)[OF f] paint_opts(1))
  then have "by_copy_steps p (upload_cpu cpu p3)" by (rule by_copy_steps_same)
  note go = by_copy_steps_trans[OF this submit_frame_copies[OF s]]
  have "preview_paint env p = (if go_on then render env p4 else p4)"
    by (simp only: preview_paint_def Let_def f c s prod.case)
  then show ?thesis using go by_copy_steps_trans[OF go render_copies] by (cases go_on) simp_all
qed

lemma preview_step_copies: "by_copy_steps p (preview_input_step x p)"
  by (cases x) (simp_all add: preview_paint_copies by_copy_steps_same submitD3D11Frame_def uploadCpuFrame_def Let_def)

subsection \<open>The widget as wired\<close>

text \<open>Everything the widget asks the driver for is there.\<close>

definition full_caps :: "gl_caps \<Rightarrow> bool" where
  "full_caps ca \<longleftrightarrow> ca_memory_object ca \<and> ca_memory_win32 ca \<and> ca_semaphore ca \<and> ca_semaphore_win32 ca \<and>
     ca_procs ca = all_procs \<and> ca_gen_sems ca"

lemma tidy_zeros [simp]: "tidy [0, 0, 0] {}" "tidy [0, 0, 0, 0] {}"
  by (auto simp: tidy_def less_Suc_eq numeral_2_eq_2)

lemma tidy_three: "tidy [1, 2, 3] {3, 2, 1}"
  by (auto simp: tidy_def less_Suc_eq numeral_2_eq_2 numeral_3_eq_3)

lemma gen_sems_new:
  assumes "pv_sem_names p = names_new" and "pv_sems p = [0, 0, 0]"
  shows "fold (gen_semaphore ca) [0, 1, 2] p =
    p\<lparr>pv_sem_names := \<lparr>nm_next = 4, nm_live = {3, 2, 1}\<rparr>, pv_sems := [1, 2, 3]\<rparr>"
  using assms by (simp add: gen_semaphore_def name_gen_def names_new_def) (simp add: eval_nat_numeral)

lemma import_semaphore_ok: "preview_ok p \<Longrightarrow> preview_ok (import_semaphore ca i p)"
  by (simp add: import_semaphore_def note_event_ok)

lemma preview_wired_ok:
  assumes "full_caps ca" and "sems_ok (Some st)"
  shows "preview_ok (preview_wired st q ca)"
proof -
  let ?p = "setProfiler q (setBridge (Some []) (setCopyOptimizer (Some st) preview_new))"
  have r: "resolve_procs ca (pv_fns ?p) = all_procs"
    using assms(1) by (simp add: resolve_procs_def full_caps_def all_procs_def Let_def)
  let ?q = "?p\<lparr>pv_fns := all_procs\<rparr>"
  let ?s = "?q\<lparr>pv_sem_names := \<lparr>nm_next = 4, nm_live = {3, 2, 1}\<rparr>, pv_sems := [1, 2, 3]\<rparr>"
  have g: "fold (gen_semaphore ca) [0, 1, 2] ?q = ?s"
    by (rule gen_sems_new) (simp_all add: setProfiler_def setBridge_def setCopyOptimizer_def preview_new_def)
  have "preview_ok ?s"
    using assms(2) tidy_three
    by (simp add: preview_ok_def setProfiler_def setBridge_def setCopyOptimizer_def preview_new_def
        textures_ok_def names_ok_def names_new_def fences_ok_def reads_of_def)
  moreover have "preview_wired st q ca = fold (import_semaphore ca) [0, 1, 2] (fold (gen_semaphore ca) [0, 1, 2] ?q)"
    using assms(1) r
    by (simp add: preview_wired_def initializeGL_def full_caps_def Let_def del: fold.simps)
      (simp add: setProfiler_def setBridge_def)
  then have "preview_wired st q ca = fold (import_semaphore ca) [0, 1, 2] ?s" by (simp only: g)
  ultimately show ?thesis by (simp add: import_semaphore_ok)
qed

lemma copy_init_sems_ok:
  assumes "copy_init d q ph fam ienv (copy_opt_new, []) = (True, c, tr)"
  shows "sems_ok (Some (c, tr))"
proof -
  have "[False, False, False] ! unat i = False" if "i < POOL_SIZE" for i :: u32
    using slot_cases[OF that] by auto
  then show ?thesis
    by (simp add: copy_init_True[OF assms] reset_slots_def copy_lists_def copy_opt_new_def sem_state_def)
qed

lemma preview_life_ok:
  assumes "full_caps ca" and "copy_init d q ph fam ienv (copy_opt_new, []) = (True, c, tr)"
    and "list_all input_in_pool ins"
  shows "preview_ok (preview_run ins (preview_wired (c, tr) prof ca))"
  by (rule preview_run_ok[OF preview_wired_ok[OF assms(1) copy_init_sems_ok[OF assms(2)]] assms(3)])

text \<open>The destructor.\<close>

lemma drop_fence_ok:
  assumes "fn_delete_sync (pv_fns p)" and "names_ok (pv_fence p) (pv_fence_names p)" and "i < 3"
  shows "names_ok (pv_fence (drop_fence i p)) (pv_fence_names (drop_fence i p))"
    "pv_fence (drop_fence i p) = (pv_fence p)[unat i := 0]"
    "fn_delete_sync (pv_fns (drop_fence i p))"
proof -
  have z: "pv_fence p ! unat i = 0 \<Longrightarrow> (pv_fence p)[unat i := 0] = pv_fence p" by (metis list_update_id)
  show "names_ok (pv_fence (drop_fence i p)) (pv_fence_names (drop_fence i p))"
    "pv_fence (drop_fence i p) = (pv_fence p)[unat i := 0]"
    "fn_delete_sync (pv_fns (drop_fence i p))"
    using assms(1,2) z names_ok_delete[OF assms(2) unat_less_3[OF assms(3)]] by (auto simp: drop_fence_def Let_def)
qed

lemma drop_semaphore_ok:
  assumes "names_ok (pv_sems p) (pv_sem_names p)" and "i < 3"
  shows "names_ok (pv_sems (drop_semaphore i p)) (pv_sem_names (drop_semaphore i p))"
    "pv_sems (drop_semaphore i p) = (pv_sems p)[unat i := 0]"
proof -
  have z: "pv_sems p ! unat i = 0 \<Longrightarrow> (pv_sems p)[unat i := 0] = pv_sems p" by (metis list_update_id)
  show "names_ok (pv_sems (drop_semaphore i p)) (pv_sem_names (drop_semaphore i p))"
    "pv_sems (drop_semaphore i p) = (pv_sems p)[unat i := 0]"
    using assms(1) z names_ok_delete[OF assms(1) unat_less_3[OF assms(2)]] by (auto simp: drop_semaphore_def Let_def)
qed

lemma drop_fence_kept:
  "pv_gl (drop_fence i p) = pv_gl p" "pv_mem_names (drop_fence i p) = pv_mem_names p"
  "pv_sems (drop_fence i p) = pv_sems p" "pv_sem_names (drop_fence i p) = pv_sem_names p"
  by (simp_all add: drop_fence_def Let_def)

lemma drop_semaphore_kept:
  "pv_gl (drop_semaphore i p) = pv_gl p" "pv_mem_names (drop_semaphore i p) = pv_mem_names p"
  "pv_fence_names (drop_semaphore i p) = pv_fence_names p"
  by (simp_all add: drop_semaphore_def Let_def)

lemma drop_slot_tex: "drop_slot i (p\<lparr>pv_tex := t\<rparr>) = (drop_slot i p)\<lparr>pv_tex := t\<rparr>"
  by (simp add: drop_slot_def drop_memory_def drop_texture_def Let_def)

lemma drop_slots_tex: "fold drop_slot [0, 1, 2] (p\<lparr>pv_tex := t\<rparr>) = (fold drop_slot [0, 1, 2] p)\<lparr>pv_tex := t\<rparr>"
  by (simp add: drop_slot_tex)

lemma drop_slot_kept:
  "pv_fns (drop_slot i p) = pv_fns p" "pv_fence (drop_slot i p) = pv_fence p"
  "pv_fence_names (drop_slot i p) = pv_fence_names p" "pv_sems (drop_slot i p) = pv_sems p"
  "pv_sem_names (drop_slot i p) = pv_sem_names p"
  by (simp_all add: drop_slot_def drop_memory_def drop_texture_def Let_def)

lemma zeros3: "length xs = 3 \<Longrightarrow> xs[0 := 0, Suc 0 := 0, 2 := 0] = [0, 0, 0 :: nat]"
  by (auto simp: length_Suc_conv numeral_3_eq_3 numeral_2_eq_2)

lemma drop_fences_ok:
  assumes "fn_delete_sync (pv_fns p)" and "names_ok (pv_fence p) (pv_fence_names p)"
  shows "names_ok [0, 0, 0] (pv_fence_names (fold drop_fence [0, 1, 2] p))"
proof -
  have n: "(0 :: u32) < 3" "(1 :: u32) < 3" "(2 :: u32) < 3" by simp_all
  note a = drop_fence_ok[OF assms n(1)]
  note b = drop_fence_ok[OF a(3,1) n(2)]
  note c = drop_fence_ok[OF b(3,1) n(3)]
  show ?thesis using c(1) a(2) b(2) c(2) names_ok_length[OF assms(2)] zeros3 by simp
qed

lemma drop_semaphores_ok:
  assumes "names_ok (pv_sems p) (pv_sem_names p)"
  shows "names_ok [0, 0, 0] (pv_sem_names (fold drop_semaphore [0, 1, 2] p))"
proof -
  have n: "(0 :: u32) < 3" "(1 :: u32) < 3" "(2 :: u32) < 3" by simp_all
  note a = drop_semaphore_ok[OF assms n(1)]
  note b = drop_semaphore_ok[OF a(1) n(2)]
  note c = drop_semaphore_ok[OF b(1) n(3)]
  show ?thesis using c(1) a(2) b(2) c(2) names_ok_length[OF assms] zeros3 by simp
qed

lemma names_ok_none: "names_ok [0, 0, 0] s \<Longrightarrow> nm_live s = {}"
  by (simp add: names_ok_def tidy_def)

lemma preview_destroy_empty:
  assumes "preview_ok p"
  shows "gl_live (pv_gl (preview_destroy True p)) = {}" "nm_live (pv_mem_names (preview_destroy True p)) = {}"
    "nm_live (pv_fence_names (preview_destroy True p)) = {}" "nm_live (pv_sem_names (preview_destroy True p)) = {}"
proof -
  let ?z = "p\<lparr>pv_tex := 0, pv_gl := gl_release (pv_tex p) (pv_gl p)\<rparr>"
  let ?q = "fold drop_slot [0, 1, 2] ?z"
  let ?f = "fold drop_fence [0, 1, 2] (?q\<lparr>pv_tex := pv_tex p\<rparr>)"
  have p0: "preview_ok ?z"
    using assms textures_ok_release[OF preview_ok_textures[OF assms]] by (simp add: preview_ok_def)
  note d = drop_slots_ok[OF p0] drop_slots_kept(3)[OF p0]
  have "textures_ok 0 [0, 0, 0] (pv_gl ?q)" "names_ok [0, 0, 0] (pv_mem_names ?q)"
    using d preview_ok_textures[OF d(1)] unfolding preview_ok_def by (simp_all del: fold.simps)
  then have live: "gl_live (pv_gl ?q) = {}" "nm_live (pv_mem_names ?q) = {}"
    using names_ok_none by (simp_all add: textures_ok_def tidy_def del: fold.simps)
  have "fold drop_slot [0, 1, 2] (p\<lparr>pv_gl := gl_release (pv_tex p) (pv_gl p)\<rparr>) = ?q\<lparr>pv_tex := pv_tex p\<rparr>"
    using drop_slots_tex[of "pv_tex p" ?z] by (simp del: fold.simps)
  then have shape: "preview_destroy True p = fold drop_semaphore [0, 1, 2] ?f"
    by (simp add: preview_destroy_def Let_def del: fold.simps)
  have n: "names_ok (pv_fence ?q) (pv_fence_names ?q)" "names_ok (pv_sems ?q) (pv_sem_names ?q)"
    "fn_delete_sync (pv_fns ?q)"
    using d(1) by (simp_all add: preview_ok_def del: fold.simps)
  have f: "nm_live (pv_fence_names ?f) = {}"
    by (rule names_ok_none[OF drop_fences_ok]) (use n in \<open>simp_all del: fold.simps\<close>)
  have "names_ok (pv_sems ?f) (pv_sem_names ?f)" using n(2) by (simp add: drop_fence_kept)
  then have "nm_live (pv_sem_names (fold drop_semaphore [0, 1, 2] ?f)) = {}"
    by (rule names_ok_none[OF drop_semaphores_ok])
  with f live show "gl_live (pv_gl (preview_destroy True p)) = {}" "nm_live (pv_mem_names (preview_destroy True p)) = {}"
    "nm_live (pv_fence_names (preview_destroy True p)) = {}" "nm_live (pv_sem_names (preview_destroy True p)) = {}"
    by (simp_all add: shape drop_semaphore_kept drop_fence_kept)
qed

section \<open>What the paint does not do\<close>

text \<open>The pitch of a frame from memory is stored and never used: rows with padding are sheared.\<close>

lemma padded_rows_are_sheared:
  "let p = uploadCpuFrame [1, 1, 1, 1, 0, 0, 0, 0, 2, 2, 2, 2, 0, 0, 0, 0] 1 2 8 preview_new;
       (frame, p) = take_cpu_frame p; p = upload_cpu frame p in
   map_option tt_rows (gl_tex (pv_gl p) (pv_tex p)) = Some [[1, 1, 1, 1], [0, 0, 0, 0]]"
  by (simp add: uploadCpuFrame_def take_cpu_frame_def upload_cpu_def preview_new_def gl_new_def gl_gen_def
      gl_tex_image_def gl_rows_def Let_def) (simp add: upt_rec)

text \<open>A rebuild of the pool that failed (the bridge has no target) is not tried again for this size.\<close>

lemma drop_slot_bridge: "pv_bridge (drop_slot i p) = pv_bridge p"
  by (simp add: drop_slot_def drop_memory_def drop_texture_def Let_def)

lemma failed_rebuild_is_not_retried:
  assumes "rebuild_pool env target w h i p = (x, q)" and "pv_bridge p \<noteq> None"
  shows "rebuild_pool env' target' w h j q = (target', q)"
proof -
  obtain tr where tr: "pv_bridge p = Some tr" using assms(2) by blast
  have "pv_pool_w q = w \<and> pv_pool_h q = h \<and> pv_bridge q \<noteq> None"
  proof (cases "w \<noteq> pv_pool_w p \<or> h \<noteq> pv_pool_h p")
    case True
    then have "q = (fold drop_slot [0, 1, 2] (p\<lparr>pv_bridge := Some (tr @ [ExtResizeGlPool w h])\<rparr>))
        \<lparr>pv_pool_w := w, pv_pool_h := h\<rparr>"
      using assms(1) tr unfolding rebuild_pool_def by simp
    then show ?thesis by (simp add: drop_slot_bridge)
  next
    case False
    then show ?thesis using assms(1) tr unfolding rebuild_pool_def by simp
  qed
  then show ?thesis unfolding rebuild_pool_def by (cases "pv_bridge q") simp_all
qed

text \<open>Once the current slot has a texture of its own, frames from memory are uploaded but not drawn.\<close>

lemma upload_cpu_fields:
  "pv_interop (upload_cpu frame p) = pv_interop p" "pv_current (upload_cpu frame p) = pv_current p"
  by (simp_all add: upload_cpu_def gl_gen_def Let_def split: option.split prod.split)

lemma memory_frames_stay_hidden:
  assumes "preview_ok p" and "pv_interop p ! unat (pv_current p) \<noteq> 0"
  shows "texture_to_use (upload_cpu frame p) = texture_to_use p"
    and "texture_to_use (upload_cpu frame p) \<noteq> pv_tex (upload_cpu frame p)"
proof -
  let ?q = "upload_cpu frame p" and ?i = "unat (pv_current p)"
  have t: "textures_ok (pv_tex ?q) (pv_interop p) (pv_gl ?q)"
    using preview_ok_textures[OF upload_cpu_ok[OF assms(1), of frame]] by (simp add: upload_cpu_fields)
  have i: "?i < 3" using assms(1) unat_less_3 by (simp add: preview_ok_def)
  have "Suc ?i = 0" if "pv_interop p ! ?i = pv_tex ?q"
    by (rule tidy_inj[of "pv_tex ?q # pv_interop p" "gl_live (pv_gl ?q)"])
      (use t i that assms(2) in \<open>simp_all add: textures_ok_def\<close>)
  then have "pv_interop p ! ?i \<noteq> pv_tex ?q" by auto
  then show "texture_to_use ?q = texture_to_use p" "texture_to_use ?q \<noteq> pv_tex ?q"
    using assms(2) by (simp_all add: texture_to_use_def Let_def upload_cpu_fields)
qed

text \<open>Every later frame of a slot asks for immutable storage again, which OpenGL refuses.\<close>

lemma storage_is_asked_for_again:
  assumes "preview_ok p" and "(i :: u32) < 3" and "pv_interop p ! unat i \<noteq> 0"
  shows "interop_texture (pv_target_w p) (pv_target_h p) i p = note_event EvInvalidOperation p"
proof -
  obtain v where "pv_storage p (pv_interop p ! unat i) = Some v"
    using assms unat_less_3[OF assms(2)] unfolding preview_ok_def storage_ok_def by blast
  then show ?thesis
    using assms by (simp add: interop_texture_def storage_from_memory_def preview_ok_def Let_def)
      (simp add: note_event_def)
qed

section \<open>A concrete life\<close>

definition demo_caps :: gl_caps where
  "demo_caps = \<lparr>ca_memory_object = True, ca_memory_win32 = True, ca_semaphore = True, ca_semaphore_win32 = True,
     ca_procs = all_procs, ca_gen_sems = True, ca_sem_handle = (\<lambda>i. True)\<rparr>"

definition demo_paint :: paint_env where
  "demo_paint = \<lparr>pe_start = 5, pe_end = 9, pe_ready = Some True, pe_execute_target = (\<lambda>i. 100 + ucast ((i + 1) mod 3)),
     pe_junk = [], pe_gl_sem = (\<lambda>i. 70 + ucast i), pe_shared_memory = 60, pe_wait = ConditionSatisfied,
     pe_copy = demo_copy_env, pe_target_handle = (\<lambda>i. True)\<rparr>"

definition demo_life :: "preview_input list" where
  "demo_life = [FrameIn 90 101 64 32 0, PaintNow demo_paint, PaintNow demo_paint,
     FrameIn 91 102 64 32 1, PixelsIn [1, 2, 3, 4] 1 1 4, PaintNow demo_paint, FrameIn 92 100 128 32 2, PaintNow demo_paint]"

definition demo_optimizer :: "copy_opt \<times> vk_call list" where
  "demo_optimizer = snd (copy_init 1 2 3 0 demo_copy_init_env (copy_opt_new, []))"

lemma demo_ready:
  "full_caps demo_caps" "list_all input_in_pool demo_life"
  "copy_init 1 2 3 0 demo_copy_init_env (copy_opt_new, []) = (True, fst demo_optimizer, snd demo_optimizer)"
  by (simp_all add: demo_caps_def full_caps_def demo_life_def demo_optimizer_def)
    (simp add: copy_init_def create_timeline_def demo_copy_defs Let_def)

section \<open>Properties\<close>





text \<open>The preview gives back everything it takes from the driver: after any life of the widget its
  destructor leaves no texture, no imported memory object, no fence and no semaphore, although all
  of them are replaced again and again, and the pool is rebuilt, while it paints.\<close>

theorem preview_releases_everything:
  assumes "full_caps ca" and "copy_init d q ph fam ienv (copy_opt_new, []) = (True, c, tr)"
    and "list_all input_in_pool ins"
  shows "let p = preview_destroy True (preview_run ins (preview_wired (c, tr) prof ca)) in
    gl_live (pv_gl p) = {} \<and> nm_live (pv_mem_names p) = {} \<and> nm_live (pv_fence_names p) = {} \<and>
    nm_live (pv_sem_names p) = {}"
  using preview_destroy_empty[OF preview_life_ok[OF assms, of prof]] by (simp add: Let_def)

lemma preview_releases_everything_witness:
  "gl_live (pv_gl (preview_destroy True
     (preview_run demo_life (preview_wired demo_optimizer None demo_caps)))) = {}"
  using preview_releases_everything[OF demo_ready(1,3,2), of None]
  by (simp add: Let_def)

text \<open>What the preview draws fits the memory behind it: at any time the texture of every slot is backed
  by the memory object imported for that slot and has the size the target pool was last built for, also
  across changes of the capture size.\<close>

theorem interop_textures_fit_the_pool:
  assumes "full_caps ca" and "copy_init d q ph fam ienv (copy_opt_new, []) = (True, c, tr)"
    and "list_all input_in_pool ins"
  shows "let p = preview_run ins (preview_wired (c, tr) prof ca) in
    list_all (\<lambda>i. pv_interop p ! i = 0 \<or>
      pv_storage p (pv_interop p ! i) = Some (pv_mem p ! i, pv_pool_w p, pv_pool_h p)) [0, 1, 2]"
proof -
  let ?p = "preview_run ins (preview_wired (c, tr) prof ca)"
  have "storage_ok (pv_interop ?p) (pv_mem ?p) (pv_storage ?p) (pv_pool_w ?p) (pv_pool_h ?p)"
    using preview_life_ok[OF assms, of prof] by (simp add: preview_ok_def)
  then have "pv_interop ?p ! i = 0 \<or>
      pv_storage ?p (pv_interop ?p ! i) = Some (pv_mem ?p ! i, pv_pool_w ?p, pv_pool_h ?p)" if "i < 3" for i
    using that unfolding storage_ok_def by blast
  from this[of 0] this[of 1] this[of 2] show ?thesis by (simp add: Let_def)
qed

lemma interop_textures_fit_the_pool_witness:
  "let p = preview_run demo_life (preview_wired demo_optimizer None demo_caps) in
    pv_interop p ! 2 = 0 \<or> pv_storage p (pv_interop p ! 2) = Some (pv_mem p ! 2, pv_pool_w p, pv_pool_h p)"
  using interop_textures_fit_the_pool[OF demo_ready(1,3,2), of None]
  by (simp add: Let_def)

end
