(* ===== verification/ShaderCache.thy ===== *)
theory ShaderCache
  imports Prelude
begin

text \<open>
  The shader cache (\<open>src/src/ui/shader_cache.cpp\<close> and \<open>shader_cache.h\<close>): compiled shaders are files
  named after the FNV-1a hash of their source. The file system is a map from paths to bytes; what the
  system calls answer (the directory, whether a file opens, how much of a write arrives) are
  arguments. A source is the list of its bytes.
\<close>

type_synonym octets = "u8 list"
type_synonym files = "string \<Rightarrow> octets option"

section \<open>Hash and path\<close>

definition OFFSET_BASIS :: u64 where "OFFSET_BASIS = 14695981039346656037"
definition PRIME :: u64 where "PRIME = 1099511628211"

definition fnv1a :: "octets \<Rightarrow> u64" where
  "fnv1a data = fold (\<lambda>c h. xor h (ucast c) * PRIME) data OFFSET_BASIS"

definition compute_hash :: "octets \<Rightarrow> u64" where
  "compute_hash shader_source = fnv1a shader_source"

definition hex_digit :: "nat \<Rightarrow> char" where
  "hex_digit n = ''0123456789abcdef'' ! n"

text \<open>\<open>setw(16)\<close> with zeros in front: the last sixteen hexadecimal digits, and there are no more.\<close>

fun hex_of :: "nat \<Rightarrow> nat \<Rightarrow> string" where
  "hex_of 0 n = []"
| "hex_of (Suc k) n = hex_of k (n div 16) @ [hex_digit (n mod 16)]"

definition get_cache_dir :: "string option \<Rightarrow> string" where
  "get_cache_dir appdata = (case appdata of None \<Rightarrow> [] | Some s \<Rightarrow> s @ [CHR 0x5C] @ ''Reji'' @ [CHR 0x5C] @ ''shader_cache'' @ [CHR 0x5C])"

definition get_cache_path :: "string option \<Rightarrow> u64 \<Rightarrow> string" where
  "get_cache_path appdata hash = get_cache_dir appdata @ ''v2_'' @ hex_of 16 (unat hash) @ ''.spv''"

section \<open>Reading and writing\<close>

definition word_bytes :: "u32 \<Rightarrow> octets" where
  "word_bytes w = [ucast w, ucast (drop_bit 8 w), ucast (drop_bit 16 w), ucast (drop_bit 24 w)]"

definition bytes_word :: "octets \<Rightarrow> u32" where
  "bytes_word bs = word_of_nat (unat (bs ! 0) + 256 * unat (bs ! 1) + 65536 * unat (bs ! 2)
     + 16777216 * unat (bs ! 3))"

definition to_bytes :: "u32 list \<Rightarrow> octets" where
  "to_bytes ws = concat (map word_bytes ws)"

fun of_bytes :: "octets \<Rightarrow> u32 list" where
  "of_bytes (a # b # c # d # bs) = bytes_word [a, b, c, d] # of_bytes bs"
| "of_bytes _ = []"

definition SPIRV_MAGIC :: u32 where "SPIRV_MAGIC = 0x07230203"

text \<open>\<open>opened\<close>: the file could be opened (and is empty then); \<open>written\<close>: the bytes that reach it. The
  state of the stream is not looked at after the write.\<close>

definition write_cache :: "string option \<Rightarrow> bool \<Rightarrow> nat \<Rightarrow> u64 \<Rightarrow> u32 list \<Rightarrow> files \<Rightarrow> bool \<times> files" where
  "write_cache appdata opened written hash binary fs =
     (if \<not> opened then (False, fs)
      else (True, fs(get_cache_path appdata hash \<mapsto> take written (to_bytes binary))))"

definition read_cache :: "string option \<Rightarrow> u64 \<Rightarrow> files \<Rightarrow> u32 list" where
  "read_cache appdata hash fs = (case fs (get_cache_path appdata hash) of
       None \<Rightarrow> []
     | Some bs \<Rightarrow>
         if length bs < 4 \<or> length bs mod 4 \<noteq> 0 then []
         else let binary = of_bytes bs in if hd binary \<noteq> SPIRV_MAGIC then [] else binary)"

definition get_shader :: "string option \<Rightarrow> octets \<Rightarrow> files \<Rightarrow> u32 list" where
  "get_shader appdata shader_source fs =
     (let cached = read_cache appdata (compute_hash shader_source) fs in if cached \<noteq> [] then cached else [])"

text \<open>The regular files directly in the directory with the extension \<open>.spv\<close>.\<close>

definition spv_in :: "string \<Rightarrow> string \<Rightarrow> bool" where
  "spv_in dir path \<longleftrightarrow> take (length dir) path = dir \<and>
     (let f = drop (length dir) path in
      CHR 0x5C \<notin> set f \<and> length f > 4 \<and> drop (length f - 4) f = ''.spv'')"

definition clear_cache :: "string option \<Rightarrow> files \<Rightarrow> bool \<times> files" where
  "clear_cache appdata fs =
     (let dir = get_cache_dir appdata in
      if dir = [] then (False, fs) else (True, \<lambda>path. if spv_in dir path then None else fs path))"

section \<open>Paths are unique\<close>

lemma hex_digit_inj: "m < 16 \<Longrightarrow> n < 16 \<Longrightarrow> hex_digit m = hex_digit n \<Longrightarrow> m = n"
proof -
  have d: "distinct ''0123456789abcdef''" by simp
  assume "m < 16" "n < 16" "hex_digit m = hex_digit n"
  then show "m = n" using nth_eq_iff_index_eq[OF d] by (simp add: hex_digit_def)
qed

lemma length_hex_of [simp]: "length (hex_of k n) = k"
  by (induction k n rule: hex_of.induct) simp_all

lemma hex_of_inj: "m < 16 ^ k \<Longrightarrow> n < 16 ^ k \<Longrightarrow> hex_of k m = hex_of k n \<Longrightarrow> m = n"
proof (induction k arbitrary: m n)
  case (Suc k)
  have "m div 16 < 16 ^ k" "n div 16 < 16 ^ k" using Suc.prems(1,2) by (simp_all add: less_mult_imp_div_less)
  then have "m div 16 = n div 16" using Suc by simp
  moreover have "m mod 16 = n mod 16" using Suc.prems(3) by (intro hex_digit_inj) simp_all
  ultimately show ?case by (metis div_mult_mod_eq)
qed simp

lemma get_cache_path_inj: "get_cache_path d h = get_cache_path d h' \<longleftrightarrow> h = h'"
proof
  assume "get_cache_path d h = get_cache_path d h'"
  then have "hex_of 16 (unat h) = hex_of 16 (unat h')" by (simp add: get_cache_path_def)
  moreover have "unat w < 16 ^ 16" for w :: u64 using unsigned_less[of w, where ?'a = nat] by simp
  ultimately have "unat h = unat h'" by (intro hex_of_inj[of _ 16]) simp_all
  then show "h = h'" by (simp add: word_unat_eq_iff)
qed simp

lemma hex_digits_plain: "CHR 0x5C \<notin> set (hex_of k n)"
proof (induction k arbitrary: n)
  case (Suc k)
  have "hex_digit d \<in> set ''0123456789abcdef''" if "d < 16" for d
    unfolding hex_digit_def by (rule nth_mem) (use that in simp)
  from this[of "n mod 16"] have "hex_digit (n mod 16) \<noteq> CHR 0x5C" by auto
  then show ?case using Suc by simp
qed simp

lemma cache_path_cleared: "spv_in (get_cache_dir d) (get_cache_path d h)"
  using hex_digits_plain by (simp add: spv_in_def get_cache_path_def)

section \<open>Words in bytes\<close>

lemma word_bytes_word: "bytes_word (word_bytes w) = w"
proof -
  have 8: "unat (ucast (x :: u32) :: u8) = unat x mod 256" for x
    by (simp add: unsigned_ucast_eq take_bit_eq_mod)
  have d: "unat (drop_bit k w) = unat w div 2 ^ k" for k
    by (subst unat_drop_bit_eq) (rule drop_bit_eq_div)
  let ?a = "unat w div 256" and ?b = "unat w div 65536" and ?c = "unat w div 16777216"
  have top: "?c mod 256 = ?c" using unsigned_less[of w, where ?'a = nat] by simp
  have "unat w mod 256 + 256 * ?a = unat w" "?a mod 256 + 256 * (?a div 256) = ?a"
    "?b mod 256 + 256 * (?b div 256) = ?b" by simp_all
  moreover have "?a div 256 = ?b" "?b div 256 = ?c" by (simp_all add: div_mult2_eq[symmetric])
  ultimately have "unat w mod 256 + 256 * (?a mod 256) + 65536 * (?b mod 256) + 16777216 * (?c mod 256) = unat w"
    unfolding top by linarith
  moreover have "bytes_word (word_bytes w) = word_of_nat (unat w mod 256 + 256 * (?a mod 256) + 65536 * (?b mod 256)
      + 16777216 * (?c mod 256))"
    by (simp add: bytes_word_def word_bytes_def 8 d del: of_nat_add of_nat_mult)
  ultimately show ?thesis by (simp only: of_nat_unat ucast_id)
qed

lemma length_word_bytes [simp]: "length (word_bytes w) = 4"
  by (simp add: word_bytes_def)

lemma length_to_bytes [simp]: "length (to_bytes ws) = 4 * length ws"
  by (induction ws) (simp_all add: to_bytes_def)

lemma to_bytes_Cons: "to_bytes (w # ws) = word_bytes w @ to_bytes ws"
  by (simp add: to_bytes_def)

lemma of_bytes_word: "of_bytes (word_bytes w @ bs) = w # of_bytes bs"
  using word_bytes_word[of w] by (simp add: word_bytes_def)

lemma of_bytes_prefix: "of_bytes (take (4 * n) (to_bytes ws)) = take n ws"
proof (induction ws arbitrary: n)
  case Nil
  then show ?case by (simp add: to_bytes_def)
next
  case (Cons w ws)
  then show ?case by (cases n) (simp_all add: to_bytes_Cons of_bytes_word)
qed

lemma of_to_bytes: "of_bytes (to_bytes ws) = ws"
  using of_bytes_prefix[of "length ws" ws] by simp

section \<open>Properties\<close>

text \<open>The cache gives back what was put in and nothing else: after a binary was written completely, a
  lookup under its hash returns it if it is a SPIR-V binary (and misses if it is not), and a lookup
  under any other hash answers as before.\<close>

theorem shader_cache_round_trip:
  assumes "4 * length binary \<le> written"
  shows "read_cache d h' (snd (write_cache d True written h binary fs)) =
    (if h' = h then (case binary of [] \<Rightarrow> [] | w # ws \<Rightarrow> if w = SPIRV_MAGIC then binary else [])
     else read_cache d h' fs)"
proof (cases "h' = h")
  case True
  have t: "take written (to_bytes binary) = to_bytes binary" using assms by simp
  have "read_cache d h (snd (write_cache d True written h binary fs)) =
      (if binary = [] then [] else if hd binary \<noteq> SPIRV_MAGIC then [] else binary)"
    by (simp add: read_cache_def write_cache_def t of_to_bytes Let_def)
  then show ?thesis by (cases binary) (simp_all add: True)
next
  case False
  then show ?thesis by (simp add: read_cache_def write_cache_def get_cache_path_inj)
qed

lemma shader_cache_round_trip_witness:
  "read_cache (Some ''C'') 5 (snd (write_cache (Some ''C'') True 8 5 [0x07230203, 9] (\<lambda>path. None))) = [0x07230203, 9]"
  using shader_cache_round_trip[of "[0x07230203, 9]" 8 "Some ''C''" 5 5 "\<lambda>path. None"] by (simp add: SPIRV_MAGIC_def)

text \<open>After clearing, every lookup misses.\<close>

lemma cleared_cache_misses: "clear_cache d fs = (True, fs') \<Longrightarrow> read_cache d h fs' = []"
  using cache_path_cleared[of d h] by (auto simp: clear_cache_def read_cache_def Let_def split: if_splits)

text \<open>A write that arrives in part, up to a multiple of four bytes, is reported as done and served.\<close>

lemma partial_write_is_served:
  assumes "binary = SPIRV_MAGIC # ws" and "0 < n" and "n < length binary"
  shows "write_cache d True (4 * n) h binary fs = (True, fs') \<Longrightarrow> read_cache d h fs' = take n binary"
  using assms of_bytes_prefix[of n binary]
  by (cases n) (auto simp: read_cache_def write_cache_def min_def Let_def)

text \<open>Without a directory the cache works in the current one.\<close>

lemma no_directory_no_protection: "get_cache_path None h = ''v2_'' @ hex_of 16 (unat h) @ ''.spv''"
  by (simp add: get_cache_path_def get_cache_dir_def)

end
