(* ===== verification/GpuQueryTiming.thy ===== *)
theory GpuQueryTiming
  imports Float32
begin

text \<open>
  Timestamps on the GPU (\<open>src/src/pipeline/gpu_query_timing.cpp\<close>): a pool of four timestamp queries,
  written by label into a command buffer and read back without waiting. The answers of Vulkan are
  arguments; the pools created and destroyed are counted in a trace. A handle is a word, 0 is
  \<open>VK_NULL_HANDLE\<close>. Nothing of the program calls this class yet.
\<close>

section \<open>State\<close>

definition NUM_QUERIES :: nat where "NUM_QUERIES = 4"

datatype query_call = PoolCreated u64 | PoolDestroyed u64 | PoolReset | TimestampWritten nat

record query_timing =
  qt_device :: u64
  qt_pool :: u64
  qt_period :: rat
  qt_values :: "u64 list"
  qt_calls :: "query_call list"

definition query_timing_new :: query_timing where
  "query_timing_new = \<lparr>qt_device = 0, qt_pool = 0, qt_period = 1, qt_values = [0, 0, 0, 0], qt_calls = []\<rparr>"

text \<open>\<open>period\<close>: the timestamp period of the device in nanoseconds; \<open>created\<close>: the new pool, if one
  could be created.\<close>

definition query_init :: "u64 \<Rightarrow> u64 \<Rightarrow> rat \<Rightarrow> u64 option \<Rightarrow> query_timing \<Rightarrow> bool \<times> query_timing" where
  "query_init device phys period created q =
     (if device = 0 \<or> phys = 0 then (False, q)
      else
        let q = q\<lparr>qt_device := device, qt_period := period\<rparr> in
        (case created of
           None \<Rightarrow> (False, q)
         | Some pool \<Rightarrow> (True, q\<lparr>qt_pool := pool, qt_values := [0, 0, 0, 0],
             qt_calls := qt_calls q @ [PoolCreated pool]\<rparr>)))"

definition query_index :: "string \<Rightarrow> nat option" where
  "query_index label =
     (if label = ''copy_start'' then Some 0
      else if label = ''copy_end'' then Some 1
      else if label = ''render_start'' then Some 2
      else if label = ''render_end'' then Some 3
      else None)"

definition record_timestamp :: "u64 \<Rightarrow> string \<Rightarrow> query_timing \<Rightarrow> bool \<times> query_timing" where
  "record_timestamp cmd label q =
     (if cmd = 0 \<or> qt_pool q = 0 then (False, q)
      else (case query_index label of
          None \<Rightarrow> (False, q)
        | Some i \<Rightarrow> (True, q\<lparr>qt_calls := qt_calls q @ (if i = 0 then [PoolReset] else []) @ [TimestampWritten i]\<rparr>)))"

section \<open>Results\<close>

record query_result =
  qr_copy_start_ns :: u64
  qr_copy_end_ns :: u64
  qr_render_start_ns :: u64
  qr_render_end_ns :: u64
  qr_copy_duration_ms :: rat
  qr_render_duration_ms :: rat

datatype query_answer = QueryNotReady | QueryFailed | QueryValues "(u64 \<times> bool) list"

definition convert_timestamp_ns_to_ms :: "u64 \<Rightarrow> rat" where
  "convert_timestamp_ns_to_ms delta_ns = f32 (f32 (rat_of_nat (unat delta_ns)) / 1000000)"

text \<open>The values are taken over one by one, up to the first that is not available.\<close>

fun take_values :: "nat \<Rightarrow> (u64 \<times> bool) list \<Rightarrow> u64 list \<Rightarrow> bool \<times> u64 list" where
  "take_values i [] vs = (True, vs)"
| "take_values i ((v, available) # rs) vs =
     (if available then take_values (Suc i) rs (vs[i := v]) else (False, vs))"

definition ticks_per_ns :: "query_timing \<Rightarrow> u64" where
  "ticks_per_ns q = word_of_int \<lfloor>qt_period q\<rfloor>"

definition retrieve_results :: "query_answer \<Rightarrow> query_timing \<Rightarrow> query_result option \<times> query_timing" where
  "retrieve_results answer q =
     (if qt_device q = 0 \<or> qt_pool q = 0 then (None, q)
      else (case answer of
          QueryNotReady \<Rightarrow> (None, q)
        | QueryFailed \<Rightarrow> (None, q)
        | QueryValues rs \<Rightarrow>
            (case take_values 0 (take NUM_QUERIES rs) (qt_values q) of
               (False, vs) \<Rightarrow> (None, q\<lparr>qt_values := vs\<rparr>)
             | (True, vs) \<Rightarrow>
                 let p = ticks_per_ns q in
                 (Some \<lparr>qr_copy_start_ns = vs ! 0 * p, qr_copy_end_ns = vs ! 1 * p,
                    qr_render_start_ns = vs ! 2 * p, qr_render_end_ns = vs ! 3 * p,
                    qr_copy_duration_ms = convert_timestamp_ns_to_ms ((vs ! 1 - vs ! 0) * p),
                    qr_render_duration_ms = convert_timestamp_ns_to_ms ((vs ! 3 - vs ! 2) * p)\<rparr>,
                  q\<lparr>qt_values := vs\<rparr>))))"

definition query_shutdown :: "query_timing \<Rightarrow> query_timing" where
  "query_shutdown q =
     (if qt_device q = 0 then q
      else
        let q = (if qt_pool q \<noteq> 0 then q\<lparr>qt_pool := 0, qt_calls := qt_calls q @ [PoolDestroyed (qt_pool q)]\<rparr> else q) in
        q\<lparr>qt_device := 0\<rparr>)"

section \<open>What comes out\<close>

lemma take_values_all:
  "i + length rs \<le> length vs \<Longrightarrow> list_all snd rs \<Longrightarrow>
   take_values i rs vs = (True, take i vs @ map fst rs @ drop (i + length rs) vs)"
proof (induction rs arbitrary: i vs)
  case (Cons r rs)
  obtain v where r: "r = (v, True)" using Cons.prems by (cases r) auto
  have "take (Suc i) (vs[i := v]) = take i vs @ [v]" using Cons.prems
    by (simp add: take_Suc_conv_app_nth)
  then show ?case using Cons r by simp
qed simp

text \<open>Results come exactly when all four timestamps are there.\<close>

lemma take_values_missing: "\<not> list_all snd rs \<Longrightarrow> fst (take_values i rs vs) = False"
  by (induction rs arbitrary: i vs) (auto split: if_splits)

lemma results_when_all_available:
  assumes "qt_device q \<noteq> 0" and "qt_pool q \<noteq> 0" and "length rs = NUM_QUERIES" and "length (qt_values q) = 4"
  shows "fst (retrieve_results (QueryValues rs) q) \<noteq> None \<longleftrightarrow> list_all snd rs"
proof (cases "list_all snd rs")
  case True
  then show ?thesis using assms take_values_all[of 0 rs "qt_values q"]
    by (simp add: retrieve_results_def NUM_QUERIES_def Let_def)
next
  case False
  then have "fst (take_values 0 rs (qt_values q)) = False" by (rule take_values_missing)
  then show ?thesis using assms False
    by (cases "take_values 0 rs (qt_values q)") (simp add: retrieve_results_def NUM_QUERIES_def)
qed

text \<open>On a device whose period is below one nanosecond every time and every duration is 0.\<close>

lemma short_period_reads_zero:
  assumes "0 \<le> qt_period q" and "qt_period q < 1" and "retrieve_results a q = (Some r, q')"
  shows "qr_copy_end_ns r = 0" "qr_copy_duration_ms r = 0"
proof -
  have "\<lfloor>qt_period q\<rfloor> = 0" using assms(1,2) by (simp add: floor_eq_iff)
  then have "ticks_per_ns q = 0" by (simp add: ticks_per_ns_def)
  then show "qr_copy_end_ns r = 0" "qr_copy_duration_ms r = 0"
    using assms(3)
    by (auto simp: retrieve_results_def convert_timestamp_ns_to_ms_def Let_def split: if_splits query_answer.splits prod.splits bool.splits)
qed

text \<open>The pools that exist: a second initialisation loses the first one.\<close>

fun live_pools :: "query_call list \<Rightarrow> u64 list \<Rightarrow> u64 list" where
  "live_pools [] ps = ps"
| "live_pools (PoolCreated p # cs) ps = live_pools cs (p # ps)"
| "live_pools (PoolDestroyed p # cs) ps = live_pools cs (removeAll p ps)"
| "live_pools (_ # cs) ps = live_pools cs ps"

lemma second_init_loses_a_pool:
  "live_pools (qt_calls (query_shutdown (snd (query_init 1 1 1 (Some 8)
     (snd (query_init 1 1 1 (Some 7) query_timing_new)))))) [] = [7]"
  by (simp add: query_init_def query_shutdown_def query_timing_new_def Let_def)

end
