(* ===== verification/Headless.thy ===== *)
theory Headless
  imports PipeRun UiPolicies
begin

text \<open>
  The entry point (\<open>src/src/ui/main.cpp\<close>): the command line and the headless run, which brings
  Vulkan and the pipeline up, runs a number of frames and takes both down again. What the
  pipeline and Vulkan meet in the outside world are the inputs of their own models. With the user
  interface, \<open>main\<close> only builds the main window and enters Qt's loop.
\<close>

section \<open>The command line\<close>

text \<open>\<open>atoi\<close>: blanks, a sign, digits; anything else ends the number. Numbers outside \<open>int\<close> are
  undefined in C and mathematical here.\<close>

definition is_blank :: "char \<Rightarrow> bool" where
  "is_blank c \<longleftrightarrow> c = CHR '' '' \<or> (9 \<le> (of_char c :: nat) \<and> (of_char c :: nat) \<le> 13)"

definition is_digit :: "char \<Rightarrow> bool" where
  "is_digit c \<longleftrightarrow> 48 \<le> (of_char c :: nat) \<and> (of_char c :: nat) \<le> 57"

definition digits_value :: "string \<Rightarrow> int" where
  "digits_value s = fold (\<lambda>c n. 10 * n + (of_char c - 48)) (takeWhile is_digit s) 0"

definition atoi :: "string \<Rightarrow> int" where
  "atoi s = (case dropWhile is_blank s of
       [] \<Rightarrow> 0
     | c # cs \<Rightarrow> if c = CHR ''-'' then - digits_value cs else if c = CHR ''+'' then digits_value cs else digits_value (c # cs))"

record options =
  op_headless :: bool
  op_frames :: int

fun parse_args :: "string list \<Rightarrow> options \<Rightarrow> options" where
  "parse_args [] o1 = o1"
| "parse_args (a # as) o1 =
     (if a = ''--headless'' then parse_args as (o1\<lparr>op_headless := True\<rparr>)
      else if a = ''--frames'' then
        (case as of
           [] \<Rightarrow> o1
         | n # as' \<Rightarrow> parse_args as' (o1\<lparr>op_frames := if atoi n \<le> 0 then 10 else atoi n\<rparr>))
      else parse_args as o1)"

definition options_of :: "string list \<Rightarrow> options" where
  "options_of argv = parse_args (drop 1 argv) \<lparr>op_headless = False, op_frames = 10\<rparr>"

section \<open>The headless run\<close>

record headless_env =
  he_vulkan :: "(u32 \<times> bool) option"
  he_init :: pipe_init_env
  he_notify :: "bool option"
  he_frame :: "nat \<Rightarrow> frame_env"
  he_down :: shutdown_env

datatype boot_event = VulkanUp | PipelineUp | FrameRun | PipelineDown | VulkanDown

definition headless_config :: pipe_config where
  "headless_config = \<lparr>cg_width = 1920, cg_height = 1080, cg_fps = 60, cg_bitrate = 6000,
     cg_min_bitrate = 1000, cg_original_bitrate = 0, cg_audio = False, cg_loopback = True,
     cg_audio_device = [], cg_srt_host = [], cg_srt_port = 4200, cg_protocol = 0, cg_rtmp_url = [],
     cg_rtmp_key = []\<rparr>"

fun headless_frames :: "(tex \<Rightarrow> handle) \<Rightarrow> (nat \<Rightarrow> frame_env) \<Rightarrow> nat \<Rightarrow> pipe \<Rightarrow> pipe outcome" where
  "headless_frames addr env 0 p = Val p"
| "headless_frames addr env (Suc i) p =
     and_then (headless_frames addr env i p) (\<lambda>p. and_then (run_frame addr (env i) p) (\<lambda>(ok, p). Val p))"

text \<open>The exit code, the trace of the run, the pipeline and Vulkan at its end.\<close>

definition run_headless :: "(tex \<Rightarrow> handle) \<Rightarrow> headless_env \<Rightarrow> int \<Rightarrow> pipe \<Rightarrow>
    (int \<times> boot_event list \<times> pipe \<times> vulkan_init) outcome" where
  "run_headless addr env frames p =
     (case vulkan_initialize (he_vulkan env) vulkan_new of
        (False, v) \<Rightarrow> Val (0, [], p, v)
      | (True, v) \<Rightarrow>
          and_then (pipe_init headless_config (he_init env) p) (\<lambda>(ok, p).
            if \<not> ok then Val (0, [VulkanUp], p, v)
            else
              let p = snd (notify_vulkan_ready (he_notify env) p) in
              and_then (headless_frames addr (he_frame env) (nat frames) p) (\<lambda>p.
              and_then (pipe_shutdown (he_down env) p) (\<lambda>(ok, p).
              Val (0, [VulkanUp, PipelineUp] @ replicate (nat frames) FrameRun @ [PipelineDown, VulkanDown],
                   p, vulkan_shutdown v)))))"

lemma parse_args_positive: "0 < op_frames o1 \<Longrightarrow> 0 < op_frames (parse_args as o1)"
  by (induction as o1 rule: parse_args.induct) (auto split: list.splits)

lemma and_then_ValD: "and_then x f = Val y \<Longrightarrow> \<exists>z. x = Val z \<and> f z = Val y"
  by (cases x) auto

text \<open>At least one frame is run, whatever the arguments are.\<close>

lemma options_ask_for_a_frame: "0 < op_frames (options_of argv)"
  unfolding options_of_def by (rule parse_args_positive) simp

text \<open>The exit code says nothing: a run that could not start ends like one that ran all its frames.\<close>

lemma headless_always_zero:
  "run_headless addr env frames p = Val (code, tr, q, v) \<Longrightarrow> code = 0"
  by (auto simp: run_headless_def Let_def dest!: and_then_ValD split: prod.splits bool.splits if_splits)

text \<open>The pipeline goes down before Vulkan does, and the device does not outlive a full run.\<close>

lemma headless_takes_down_in_order:
  assumes "run_headless addr env frames p = Val (code, tr, q, v)" and "PipelineUp \<in> set tr"
  shows "(\<exists>us. tr = us @ [PipelineDown, VulkanDown]) \<and> \<not> vi_live v \<and> (pp_impl q = None \<or> pp_shutdown_done q)"
  using assms
  by (auto simp: run_headless_def Let_def pipe_shutdown_def vulkan_shutdown_def vulkan_initialize_def vulkan_new_def
      dest!: and_then_ValD split: prod.splits bool.splits if_splits option.splits)

text \<open>A missing number swallows the next flag.\<close>

lemma frames_swallows_headless: "op_headless (options_of [''reji_app'', ''--frames'', ''--headless'']) = False"
  by (simp add: options_of_def)

end
