(* ===== verification/AudioDevices.thy ===== *)
theory AudioDevices
  imports Resources SrtOutput SettingsDialog
begin

text \<open>
  The list of audio devices (\<open>src/src/pipeline/audio/audio_device_enum.cpp\<close>): COM is initialised for
  the call, the active endpoints are walked, and every device that has an identifier is listed with
  its friendly name. The answers of the system are arguments; what is taken from it (interface
  pointers, the text of an identifier, the variant with the name, COM itself) and given back is a
  trace. The settings dialog shows the result behind its default entry.
\<close>

section \<open>Devices and calls\<close>

record audio_device_info =
  ad_id :: string
  ad_name :: string

datatype device_object = Enumerator | Collection | Device nat | IdText nat | PropStore nat | Variant nat

datatype device_call = CoInit | CoUninit | Obtained device_object | Freed device_object

text \<open>One entry of the collection: whether \<open>Item\<close> yields it, the text \<open>GetId\<close> yields, whether its
  property store opens, and the string the store holds for the friendly name, if it holds a string.\<close>

record device_answer =
  dv_item :: bool
  dv_id :: "string option"
  dv_store :: bool
  dv_friendly :: "string option"

record enum_env =
  en_com :: com_result
  en_enumerator :: bool
  en_collection :: bool
  en_devices :: "device_answer list"

section \<open>The walk\<close>

definition read_id :: "nat \<Rightarrow> device_answer \<Rightarrow> string \<times> device_call list" where
  "read_id i dv = (case dv_id dv of
       None \<Rightarrow> ([], [])
     | Some s \<Rightarrow> (s, [Obtained (IdText i), Freed (IdText i)]))"

definition read_name :: "nat \<Rightarrow> device_answer \<Rightarrow> string \<times> device_call list" where
  "read_name i dv =
     (if dv_store dv then
        (case dv_friendly dv of None \<Rightarrow> [] | Some s \<Rightarrow> s,
         [Obtained (PropStore i), Obtained (Variant i), Freed (Variant i), Freed (PropStore i)])
      else ([], []))"

definition unknown_device :: string where "unknown_device = ''(bilinmeyen cihaz)''"

definition list_device :: "nat \<Rightarrow> device_answer \<Rightarrow> audio_device_info option \<times> device_call list" where
  "list_device i dv =
     (if \<not> dv_item dv then (None, [])
      else case read_id i dv of (text, c1) \<Rightarrow>
        if text = [] then (None, Obtained (Device i) # c1 @ [Freed (Device i)])
        else case read_name i dv of (name, c2) \<Rightarrow>
          (Some \<lparr>ad_id = text, ad_name = if name = [] then unknown_device else name\<rparr>,
           Obtained (Device i) # c1 @ c2 @ [Freed (Device i)]))"

fun list_devices :: "nat \<Rightarrow> device_answer list \<Rightarrow> audio_device_info list \<times> device_call list" where
  "list_devices i [] = ([], [])"
| "list_devices i (dv # dvs) =
     (case list_device i dv of (d, c) \<Rightarrow> case list_devices (Suc i) dvs of (ds, cs) \<Rightarrow>
        (case d of None \<Rightarrow> ds | Some x \<Rightarrow> x # ds, c @ cs))"

definition walk_collection :: "enum_env \<Rightarrow> audio_device_info list \<times> device_call list" where
  "walk_collection env =
     (if \<not> en_enumerator env then ([], [])
      else if \<not> en_collection env then ([], [Obtained Enumerator, Freed Enumerator])
      else case list_devices 0 (en_devices env) of (ds, cs) \<Rightarrow>
        (ds, [Obtained Enumerator, Obtained Collection] @ cs @ [Freed Collection, Freed Enumerator]))"

definition enumerate_audio_devices :: "enum_env \<Rightarrow> audio_device_info list \<times> device_call list" where
  "enumerate_audio_devices env =
     (case com_init_now (en_com env) of
        (False, _) \<Rightarrow> ([], [])
      | (True, need_uninit) \<Rightarrow> (case walk_collection env of (ds, cs) \<Rightarrow>
          (ds, if need_uninit then CoInit # cs @ [CoUninit] else cs)))"

section \<open>Accounting\<close>

fun object_res :: "device_call \<Rightarrow> device_object res option" where
  "object_res (Obtained x) = Some (Acq x)"
| "object_res (Freed x) = Some (Rel x)"
| "object_res _ = None"

definition account :: "device_call list \<Rightarrow> device_object multiset \<Rightarrow> device_object multiset" where
  "account cs L = fold (\<lambda>c. live_update (object_res c)) cs L"

lemma account_simps [simp]:
  "account [] L = L" "account (c # cs) L = account cs (live_update (object_res c) L)"
  "account (cs @ ds) L = account ds (account cs L)"
  by (simp_all add: account_def)

lemma live_account: "live_by object_res cs = account cs {#}"
  by (simp add: account_def live_by_def)

fun com_free :: "device_call \<Rightarrow> bool" where
  "com_free CoInit = False"
| "com_free CoUninit = False"
| "com_free _ = True"

text \<open>Nothing stays obtained, and COM is not touched.\<close>

definition tidy_calls :: "device_call list \<Rightarrow> bool" where
  "tidy_calls cs \<longleftrightarrow> (\<forall>L. account cs L = L) \<and> list_all com_free cs"

lemma tidy_calls_append: "tidy_calls cs \<Longrightarrow> tidy_calls ds \<Longrightarrow> tidy_calls (cs @ ds)"
  by (simp add: tidy_calls_def)

lemma tidy_calls_bracket: "tidy_calls cs \<Longrightarrow> tidy_calls (Obtained x # cs @ [Freed x])"
  by (simp add: tidy_calls_def)

lemma tidy_calls_Nil [simp]: "tidy_calls []"
  by (simp add: tidy_calls_def)

lemma tidy_read: "tidy_calls (snd (read_id i dv))" "tidy_calls (snd (read_name i dv))"
  by (simp_all add: read_id_def read_name_def tidy_calls_def split: option.split)

lemma tidy_list_device: "tidy_calls (snd (list_device i dv))"
proof -
  obtain s c1 where id: "read_id i dv = (s, c1)" by (rule prod.exhaust)
  obtain n c2 where nm: "read_name i dv = (n, c2)" by (rule prod.exhaust)
  have "tidy_calls c1" "tidy_calls c2" using tidy_read[of i dv] id nm by simp_all
  then have "tidy_calls (Obtained (Device i) # c1 @ [Freed (Device i)])"
    "tidy_calls (Obtained (Device i) # (c1 @ c2) @ [Freed (Device i)])"
    by (blast intro: tidy_calls_bracket tidy_calls_append)+
  then show ?thesis by (simp add: list_device_def id nm)
qed

lemma tidy_list_devices: "tidy_calls (snd (list_devices i dvs))"
proof (induction dvs arbitrary: i)
  case (Cons dv dvs)
  then show ?case
    using tidy_calls_append[OF tidy_list_device[of i dv] Cons.IH[of "Suc i"]] by (simp add: split_beta)
qed simp

lemma tidy_walk: "tidy_calls (snd (walk_collection env))"
proof -
  have "tidy_calls [Obtained Enumerator, Freed Enumerator]" by (simp add: tidy_calls_def)
  moreover have "tidy_calls ([Obtained Enumerator, Obtained Collection] @ cs @ [Freed Collection, Freed Enumerator])"
    if "tidy_calls cs" for cs
    using that by (simp add: tidy_calls_def)
  ultimately show ?thesis using tidy_list_devices[of 0 "en_devices env"]
    by (simp add: walk_collection_def split_beta)
qed

section \<open>What is listed\<close>

definition usable :: "device_answer \<Rightarrow> bool" where
  "usable dv \<longleftrightarrow> dv_item dv \<and> (case dv_id dv of None \<Rightarrow> False | Some s \<Rightarrow> s \<noteq> [])"

definition shown_name :: "device_answer \<Rightarrow> string" where
  "shown_name dv = (case dv_friendly dv of
       Some (c # s) \<Rightarrow> if dv_store dv then c # s else unknown_device
     | _ \<Rightarrow> unknown_device)"

lemma list_device_result:
  "fst (list_device i dv) =
     (if usable dv then Some \<lparr>ad_id = the (dv_id dv), ad_name = shown_name dv\<rparr> else None)"
  by (auto simp: list_device_def usable_def read_id_def read_name_def shown_name_def
      split: option.split list.split)

lemma list_devices_result:
  "fst (list_devices i dvs) =
     map (\<lambda>dv. \<lparr>ad_id = the (dv_id dv), ad_name = shown_name dv\<rparr>) (filter usable dvs)"
proof (induction dvs arbitrary: i)
  case (Cons dv dvs)
  then show ?case using list_device_result[of i dv] by (simp add: split_beta)
qed simp

lemma walk_result:
  "fst (walk_collection env) =
     (if \<not> en_enumerator env \<or> \<not> en_collection env then []
      else map (\<lambda>dv. \<lparr>ad_id = the (dv_id dv), ad_name = shown_name dv\<rparr>) (filter usable (en_devices env)))"
  using list_devices_result[of 0 "en_devices env"] by (simp add: walk_collection_def split_beta)

lemma enumerate_ids_nonempty: "list_all (\<lambda>d. ad_id d \<noteq> []) (fst (enumerate_audio_devices env))"
proof -
  have "list_all (\<lambda>d. ad_id d \<noteq> []) (fst (walk_collection env))"
    by (auto simp: walk_result list_all_iff usable_def split: option.splits)
  then show ?thesis
    by (auto simp: enumerate_audio_devices_def split: prod.split bool.split)
qed

section \<open>Properties\<close>

text \<open>Listing the audio devices leaves nothing behind and keeps COM balanced: whatever the system
  answers, every pointer, text and variant obtained is freed again, all of them before COM is given
  back, COM is given back exactly when this call initialised it, and a thread that already has
  another apartment keeps it. Listed are, in order, exactly the devices that have an identifier,
  each with a name to show.\<close>

theorem listing_devices_is_balanced:
  "case enumerate_audio_devices env of (ds, cs) \<Rightarrow>
     live_by object_res cs = {#} \<and>
     (if en_com env = S_OK \<or> en_com env = S_FALSE
      then hd cs = CoInit \<and> List.last cs = CoUninit \<and> list_all com_free (butlast (tl cs))
      else list_all com_free cs) \<and>
     ds = (if en_com env = ComFailed \<or> \<not> en_enumerator env \<or> \<not> en_collection env then []
           else map (\<lambda>dv. \<lparr>ad_id = the (dv_id dv), ad_name = shown_name dv\<rparr>)
                  (filter usable (en_devices env)))"
proof -
  obtain ds cs where w: "walk_collection env = (ds, cs)" by (rule prod.exhaust)
  have t: "account cs L = L" "list_all com_free cs" for L
    using tidy_walk[of env] w by (simp_all add: tidy_calls_def)
  have ds: "ds = (if \<not> en_enumerator env \<or> \<not> en_collection env then []
       else map (\<lambda>dv. \<lparr>ad_id = the (dv_id dv), ad_name = shown_name dv\<rparr>) (filter usable (en_devices env)))"
    using walk_result[of env] w by simp
  show ?thesis
    by (cases "en_com env")
      (simp_all add: enumerate_audio_devices_def com_init_now_def w t live_account ds)
qed

text \<open>The dialog can tell the default device from the listed ones: whatever was stored and is
  edited, the empty identifier is reported exactly when the first entry is selected.\<close>

theorem default_device_is_the_first_entry:
  "let d = fold apply_edit es (dialog_new cv st (map ad_id (fst (enumerate_audio_devices env)))) in
   (audioDeviceId d = []) = (sd_device_index d = 0)"
proof -
  let ?ids = "map ad_id (fst (enumerate_audio_devices env))"
  define d where "d = fold apply_edit es (dialog_new cv st ?ids)"
  have ok: "dialog_ok d" by (simp add: d_def dialog_ok_edits dialog_ok_new)
  have keep: "sd_devices (apply_edit e x) = sd_devices x" for e x
    by (cases e) (simp_all add: apply_edit_def setDialogMode_def onModeChanged_def set_bitrate_spin_def
        set_port_spin_def set_protocol_index_def setVideoFps_def setVideoBitrateKbps_def split: option.split)
  have "sd_devices (fold apply_edit es x) = sd_devices x" for x
    by (induction es arbitrary: x) (simp_all add: keep)
  then have devs: "sd_devices d = [] # ?ids"
    by (simp add: d_def dialog_new_def load_audio_def load_output_def load_video_def dialog_widgets_def
        onModeChanged_def set_bitrate_spin_def set_port_spin_def set_protocol_index_def Let_def)
  have "?ids ! k \<noteq> []" if "k < length ?ids" for k
    using enumerate_ids_nonempty[of env] that by (simp add: list_all_length)
  moreover have "sd_device_index d < Suc (length ?ids)" using ok devs by (simp add: dialog_ok_def)
  ultimately have "(audioDeviceId d = []) = (sd_device_index d = 0)"
    by (cases "sd_device_index d") (simp_all add: audioDeviceId_def devs)
  then show ?thesis by (simp add: d_def)
qed

end
