(* ===== verification/RenderShell.thy ===== *)
theory RenderShell
  imports Resources
begin

text \<open>
  The two shells of a Vulkan render path in the user interface
  (\<open>src/src/ui/vulkan_render_path.cpp\<close>, \<open>src/src/ui/qrhi_window_wrapper.cpp\<close>), as built for Windows
  with Vulkan. They are compiled but nothing creates them yet; the recording, submission and
  presentation of commands are comments in the code, so a frame only moves a counter. A handle is a
  word, 0 is the null handle.
\<close>

section \<open>The render path\<close>

record render_shell =
  rs_device :: u64
  rs_queue :: u64
  rs_family :: u32
  rs_buffers :: "u64 list"
  rs_current :: u32
  rs_format :: u32
  rs_width :: u32
  rs_height :: u32

definition render_shell_new :: "u64 \<Rightarrow> u64 \<Rightarrow> u32 \<Rightarrow> render_shell" where
  "render_shell_new device queue family =
     \<lparr>rs_device = device, rs_queue = queue, rs_family = family, rs_buffers = [], rs_current = 0,
      rs_format = 0, rs_width = 0, rs_height = 0\<rparr>"

definition create_command_pool :: "render_shell \<Rightarrow> bool \<times> render_shell" where
  "create_command_pool s = (True, s)"

text \<open>\<open>std::vector::resize\<close>: what is there stays, what is new is null.\<close>

definition resize_handles :: "nat \<Rightarrow> u64 list \<Rightarrow> u64 list" where
  "resize_handles n xs = take n xs @ replicate (n - length xs) 0"

definition create_command_buffers :: "render_shell \<Rightarrow> bool \<times> render_shell" where
  "create_command_buffers s = (True, s\<lparr>rs_buffers := resize_handles 2 (rs_buffers s)\<rparr>)"

definition shell_initialize :: "u32 \<Rightarrow> u32 \<Rightarrow> u32 \<Rightarrow> render_shell \<Rightarrow> bool \<times> render_shell" where
  "shell_initialize format width height s =
     (let s = s\<lparr>rs_format := format, rs_width := width, rs_height := height\<rparr> in
      case create_command_pool s of
        (False, s) \<Rightarrow> (False, s)
      | (True, s) \<Rightarrow> (case create_command_buffers s of (False, s) \<Rightarrow> (False, s) | (True, s) \<Rightarrow> (True, s)))"

text \<open>The answer, and the index of the command buffer the frame would be recorded into.\<close>

definition shell_render :: "render_shell \<Rightarrow> (bool \<times> nat option) \<times> render_shell" where
  "shell_render s =
     (if rs_device s = 0 \<or> rs_buffers s = [] then ((False, None), s)
      else ((True, Some (unat (rs_current s) mod length (rs_buffers s))), s\<lparr>rs_current := rs_current s + 1\<rparr>))"

definition submit_and_present :: "render_shell \<Rightarrow> bool" where
  "submit_and_present s = (rs_buffers s \<noteq> [])"

definition shell_shutdown :: "render_shell \<Rightarrow> render_shell" where
  "shell_shutdown s = (if rs_buffers s \<noteq> [] then s\<lparr>rs_buffers := []\<rparr> else s)"

fun shell_frames :: "nat \<Rightarrow> render_shell \<Rightarrow> (bool \<times> nat option) list \<times> render_shell" where
  "shell_frames 0 s = ([], s)"
| "shell_frames (Suc n) s = (case shell_render s of (r, s) \<Rightarrow>
     case shell_frames n s of (rs, s) \<Rightarrow> (r # rs, s))"

section \<open>The window\<close>

datatype render_mode = ModeVulkan | ModeOpenGL

datatype surface_call = SurfaceCreated u64 | SurfaceDestroyed u64

record rhi_window =
  rh_instance :: u64
  rh_device :: u64
  rh_queue :: u64
  rh_surface :: u64
  rh_mode :: render_mode
  rh_calls :: "surface_call list"

definition rhi_window_new :: rhi_window where
  "rhi_window_new = \<lparr>rh_instance = 0, rh_device = 0, rh_queue = 0, rh_surface = 0,
     rh_mode = ModeOpenGL, rh_calls = []\<rparr>"

text \<open>\<open>created\<close>: the surface \<open>vkCreateWin32SurfaceKHR\<close> makes, if it succeeds.\<close>

definition initialize_vulkan :: "u64 \<Rightarrow> u64 \<Rightarrow> u64 \<Rightarrow> u64 option \<Rightarrow> rhi_window \<Rightarrow> bool \<times> rhi_window" where
  "initialize_vulkan inst device queue created w =
     (let w = w\<lparr>rh_instance := inst, rh_device := device, rh_queue := queue\<rparr> in
      case created of
        None \<Rightarrow> (False, w)
      | Some surface \<Rightarrow>
          (True, w\<lparr>rh_surface := surface, rh_mode := ModeVulkan, rh_calls := rh_calls w @ [SurfaceCreated surface]\<rparr>))"

definition use_opengl_fallback :: "rhi_window \<Rightarrow> rhi_window" where
  "use_opengl_fallback w = w\<lparr>rh_mode := ModeOpenGL\<rparr>"

definition rhi_destroy :: "rhi_window \<Rightarrow> rhi_window" where
  "rhi_destroy w =
     (if rh_surface w \<noteq> 0 \<and> rh_instance w \<noteq> 0 then w\<lparr>rh_calls := rh_calls w @ [SurfaceDestroyed (rh_surface w)]\<rparr>
      else w)"

fun surface_res :: "surface_call \<Rightarrow> u64 res option" where
  "surface_res (SurfaceCreated h) = Some (Acq h)"
| "surface_res (SurfaceDestroyed h) = Some (Rel h)"

abbreviation surfaces_live :: "rhi_window \<Rightarrow> u64 multiset" where
  "surfaces_live w \<equiv> live_by surface_res (rh_calls w)"

section \<open>Behaviour\<close>

lemma unat_even_step: "unat (c + 1 :: u32) mod 2 = Suc (unat c) mod 2"
proof -
  have "unat (c + 1) = (unat c + 1) mod 2 ^ 32" by (simp add: unat_word_ariths)
  moreover have "(x mod 2 ^ 32) mod 2 = x mod 2" for x :: nat by (rule mod_mod_cancel) simp
  ultimately show ?thesis by simp
qed

text \<open>The two command buffers alternate, for any number of frames: also where the 32-bit frame counter
  wraps, because two divides its range.\<close>

lemma shell_frames_alternate:
  assumes "rs_device s \<noteq> 0" and "length (rs_buffers s) = 2"
  shows "fst (shell_frames n s) = map (\<lambda>k. (True, Some ((unat (rs_current s) + k) mod 2))) [0..<n]"
  using assms
proof (induction n arbitrary: s)
  case (Suc n)
  let ?s = "s\<lparr>rs_current := rs_current s + 1\<rparr>"
  have r: "shell_render s = ((True, Some (unat (rs_current s) mod 2)), ?s)"
    using Suc.prems by (auto simp: shell_render_def)
  have "fst (shell_frames n ?s) = map (\<lambda>k. (True, Some ((unat (rs_current s + 1) + k) mod 2))) [0..<n]"
    using Suc.IH[of ?s] Suc.prems by simp
  also have "\<dots> = map (\<lambda>k. (True, Some ((unat (rs_current s) + Suc k) mod 2))) [0..<n]"
    using unat_even_step[of "rs_current s"]
    by (intro map_cong refl) (metis add_Suc add_Suc_right mod_add_left_eq)
  also have "\<dots> = map (\<lambda>k. (True, Some ((unat (rs_current s) + k) mod 2))) [1..<Suc n]"
    by (simp add: map_Suc_upt[symmetric] comp_def del: map_Suc_upt upt_Suc)
  finally show ?case
    by (simp add: r split_beta upt_conv_Cons del: upt_Suc)
qed simp

text \<open>A render path without a device, before its initialisation and after its shutdown, refuses every
  frame; a second initialisation keeps the buffers.\<close>

lemma shell_refuses:
  "fst (shell_render (render_shell_new d q f)) = (False, None)"
  "fst (shell_render (shell_shutdown s)) = (False, None)"
  "rs_device s = 0 \<Longrightarrow> shell_render s = ((False, None), s)"
  "length (rs_buffers (snd (shell_initialize fmt w h s))) = 2"
  by (auto simp: shell_render_def render_shell_new_def shell_shutdown_def shell_initialize_def
      create_command_pool_def create_command_buffers_def resize_handles_def)

text \<open>A window initialised once gives its surface back.\<close>

lemma rhi_surface_given_back:
  assumes "inst \<noteq> 0" and "created \<noteq> Some 0"
  shows "surfaces_live (rhi_destroy (snd (initialize_vulkan inst d q created rhi_window_new))) = {#}"
  using assms by (cases created) (simp_all add: rhi_destroy_def initialize_vulkan_def rhi_window_new_def live_by_def)

text \<open>A second initialisation overwrites the first surface, which is never destroyed.\<close>

lemma second_surface_loses_first:
  assumes "inst \<noteq> 0" and "b \<noteq> 0"
  shows "surfaces_live (rhi_destroy (snd (initialize_vulkan inst d q (Some b)
     (snd (initialize_vulkan inst d q (Some a) rhi_window_new))))) = {#a#}"
  using assms by (simp add: rhi_destroy_def initialize_vulkan_def rhi_window_new_def live_by_def)

end
