(* ===== verification/SehLeaves.thy ===== *)
theory SehLeaves
  imports Metrics CommandRouter OutputSubsystem CopyOptimizer
begin

text \<open>
  The guarded leaf calls: every call into a driver, a library or the orchestrator that may raise a
  structured exception goes through a small function with a handler around it (\<open>seh_*\<close> and
  \<open>seh_safe_*\<close> in \<open>command_router.cpp\<close>, \<open>pipeline.cpp\<close>, \<open>output_subsystem.cpp\<close>,
  \<open>metrics_subsystem.cpp\<close>, \<open>recovery_coordinator.cpp\<close>, \<open>copy_optimizer.cpp\<close>, \<open>output/srt_output.cpp\<close> and
  \<open>audio/wasapi_capture.cpp\<close>, all under \<open>src/src/pipeline\<close>). They share the filter, the valve and the
  report of \<open>seh_filter.cpp\<close>, which theory \<open>Metrics\<close> models for one site; here is the table of all
  sites. The other theories take the answer of such a call as an optional value, with a fixed answer
  for a caught exception; the lemmas below say that this is what the leaves do.
\<close>

section \<open>Sites\<close>

datatype seh_site = CmdDrain | WsDequeue | GetWsPort | StartMonitor | UninitCom | ShutdownSubsys
  | SrtSend | MetricsPush | ConnectionLostSite | CopyOptWait | CopyOptShutdown
  | WasapiGetBuffer | WasapiReleaseBuffer | WasapiNextPacket | WasapiAudioStop | WasapiShutdownLeaf
  | SrtLeafSendmsg | SrtLeafClose | SrtLeafEpollRelease | SrtLeafSetsockopt | SrtLeafGlobalCleanup

definition seh_sites :: "seh_site list" where
  "seh_sites = [CmdDrain, WsDequeue, GetWsPort, StartMonitor, UninitCom, ShutdownSubsys, SrtSend, MetricsPush,
     ConnectionLostSite, CopyOptWait, CopyOptShutdown, WasapiGetBuffer, WasapiReleaseBuffer, WasapiNextPacket,
     WasapiAudioStop, WasapiShutdownLeaf, SrtLeafSendmsg, SrtLeafClose, SrtLeafEpollRelease, SrtLeafSetsockopt,
     SrtLeafGlobalCleanup]"

definition site_names :: "string list" where
  "site_names = [''CmdDrain'', ''WsDequeue'', ''GetWsPort'', ''StartMonitor'', ''UninitCom'', ''ShutdownSubsys'',
     ''SrtSend'', ''MetricsPush'', ''ConnectionLost'', ''CopyOptWait'', ''CopyOptShutdown'', ''WasapiGetBuffer'',
     ''WasapiReleaseBuffer'', ''WasapiNextPacket'', ''WasapiAudioStop'', ''WasapiShutdownLeaf'', ''SrtLeafSendmsg'',
     ''SrtLeafClose'', ''SrtLeafEpollRelease'', ''SrtLeafSetsockopt'', ''SrtLeafGlobalCleanup'']"

text \<open>An enumerator is its position; the table of names is read at that position.\<close>

definition site_name :: "seh_site \<Rightarrow> string" where
  "site_name site = (case map_of (zip seh_sites site_names) site of Some s \<Rightarrow> s | None \<Rightarrow> ''?'')"

text \<open>The two global arrays, one window and one count per site.\<close>

type_synonym valves = "seh_site \<Rightarrow> av_site"

definition valves_new :: valves where
  "valves_new = (\<lambda>site. (0, 0))"

section \<open>A guarded call\<close>

text \<open>A leaf returns or raises an exception; \<open>Raised None\<close> is one without a record.\<close>

datatype 'a leaf = Returned 'a | Raised "u32 option"

text \<open>\<open>Propagated\<close>: no handler of the function takes the exception, which ends the process;
  \<open>Terminated\<close>: the report does.\<close>

datatype 'a guarded = Guarded 'a | Propagated "u32 option" | Terminated

definition no_capture :: seh_capture where
  "no_capture = \<lparr>sc_code = 0, sc_fired = False, sc_escalate = False\<rparr>"

definition seh_guarded :: "seh_site \<Rightarrow> 'a \<Rightarrow> u64 \<Rightarrow> 'a leaf \<Rightarrow> valves \<Rightarrow> 'a guarded \<times> valves" where
  "seh_guarded site fallback now leaf vs = (case leaf of
       Returned v \<Rightarrow> (Guarded v, vs)
     | Raised rec \<Rightarrow> (case seh_filter rec now (no_capture, vs site) of
         (ContinueSearch, cap, w) \<Rightarrow> (Propagated rec, vs(site := w))
       | (ExecuteHandler, cap, w) \<Rightarrow>
           ((case seh_report cap of FailedFast \<Rightarrow> Terminated | _ \<Rightarrow> Guarded fallback), vs(site := w))))"

section \<open>The leaves\<close>

subsection \<open>Orchestrator\<close>

definition guarded_command_drain :: "u64 \<Rightarrow> (int \<times> 'c list) leaf \<Rightarrow> valves \<Rightarrow> (int \<times> 'c list) guarded \<times> valves" where
  "guarded_command_drain now leaf vs = seh_guarded CmdDrain (-1, []) now leaf vs"

text \<open>A dequeue that answers 0 has no command; \<open>leaf\<close> has the command and its parameter otherwise.\<close>

definition guarded_ws_command_dequeue ::
  "u64 \<Rightarrow> (int \<times> int) option leaf \<Rightarrow> valves \<Rightarrow> (int \<times> int) option guarded \<times> valves" where
  "guarded_ws_command_dequeue now leaf vs = seh_guarded WsDequeue None now leaf vs"

definition guarded_get_ws_port :: "u64 \<Rightarrow> u16 leaf \<Rightarrow> valves \<Rightarrow> u16 guarded \<times> valves" where
  "guarded_get_ws_port now leaf vs = seh_guarded GetWsPort 0 now leaf vs"

definition seh_start_monitor :: "u64 \<Rightarrow> unit leaf \<Rightarrow> valves \<Rightarrow> unit guarded \<times> valves" where
  "seh_start_monitor now leaf vs = seh_guarded StartMonitor () now leaf vs"

definition seh_metrics_push :: "u64 \<Rightarrow> unit leaf \<Rightarrow> valves \<Rightarrow> unit guarded \<times> valves" where
  "seh_metrics_push now leaf vs = seh_guarded MetricsPush () now leaf vs"

definition seh_connection_lost :: "u64 \<Rightarrow> unit leaf \<Rightarrow> valves \<Rightarrow> unit guarded \<times> valves" where
  "seh_connection_lost now leaf vs = seh_guarded ConnectionLostSite () now leaf vs"

text \<open>The flag \<open>ok\<close> of the shutdown is cleared by a caught exception.\<close>

definition seh_uninit_com :: "u64 \<Rightarrow> unit leaf \<Rightarrow> bool \<Rightarrow> valves \<Rightarrow> bool guarded \<times> valves" where
  "seh_uninit_com now leaf ok vs = seh_guarded UninitCom False now (map_leaf (\<lambda>u. ok) leaf) vs"

subsection \<open>Output\<close>

text \<open>The virtual \<open>send\<close> and \<open>send_audio\<close> of the transport answer whether they sent.\<close>

definition guarded_srt_send :: "u64 \<Rightarrow> bool leaf \<Rightarrow> valves \<Rightarrow> int guarded \<times> valves" where
  "guarded_srt_send now leaf vs = seh_guarded SrtSend (-2) now (map_leaf (\<lambda>sent. if sent then 0 else 1) leaf) vs"

definition guarded_srt_send_audio :: "u64 \<Rightarrow> bool leaf \<Rightarrow> valves \<Rightarrow> int guarded \<times> valves" where
  "guarded_srt_send_audio now leaf vs = seh_guarded SrtSend (-2) now (map_leaf (\<lambda>sent. if sent then 0 else 1) leaf) vs"

record msg_ctrl =
  mc_ttl :: int
  mc_inorder :: int

definition seh_leaf_sendmsg :: "(int \<Rightarrow> u8 list \<Rightarrow> msg_ctrl \<Rightarrow> int leaf) \<Rightarrow> int \<Rightarrow> u8 list \<Rightarrow> int \<Rightarrow> int \<Rightarrow> int leaf" where
  "seh_leaf_sendmsg lib sock buf ttl_ms in_order = lib sock buf \<lparr>mc_ttl = ttl_ms, mc_inorder = in_order\<rparr>"

definition seh_leaf_close :: "(int \<Rightarrow> int leaf) \<Rightarrow> int \<Rightarrow> int leaf" where
  "seh_leaf_close lib sock = lib sock"

definition seh_leaf_epoll_release :: "(int \<Rightarrow> int leaf) \<Rightarrow> int \<Rightarrow> int leaf" where
  "seh_leaf_epoll_release lib eid = lib eid"

definition seh_leaf_setsockopt :: "(int \<Rightarrow> int \<Rightarrow> u8 list \<Rightarrow> int leaf) \<Rightarrow> int \<Rightarrow> int \<Rightarrow> u8 list \<Rightarrow> int leaf" where
  "seh_leaf_setsockopt lib sock opt val = lib sock opt val"

definition seh_leaf_global_cleanup :: "unit leaf \<Rightarrow> int \<Rightarrow> unit leaf" where
  "seh_leaf_global_cleanup lib do_srt_cleanup = (if do_srt_cleanup \<noteq> 0 then lib else Returned ())"

definition seh_safe_sendmsg ::
  "(int \<Rightarrow> u8 list \<Rightarrow> msg_ctrl \<Rightarrow> int leaf) \<Rightarrow> u64 \<Rightarrow> int \<Rightarrow> u8 list \<Rightarrow> int \<Rightarrow> int \<Rightarrow> valves \<Rightarrow> int guarded \<times> valves" where
  "seh_safe_sendmsg lib now s b ttl io vs = seh_guarded SrtLeafSendmsg (-1) now (seh_leaf_sendmsg lib s b ttl io) vs"

definition seh_safe_close :: "(int \<Rightarrow> int leaf) \<Rightarrow> u64 \<Rightarrow> int \<Rightarrow> valves \<Rightarrow> int guarded \<times> valves" where
  "seh_safe_close lib now s vs = seh_guarded SrtLeafClose (-1) now (seh_leaf_close lib s) vs"

definition seh_safe_epoll_release :: "(int \<Rightarrow> int leaf) \<Rightarrow> u64 \<Rightarrow> int \<Rightarrow> valves \<Rightarrow> int guarded \<times> valves" where
  "seh_safe_epoll_release lib now eid vs = seh_guarded SrtLeafEpollRelease (-1) now (seh_leaf_epoll_release lib eid) vs"

definition seh_safe_setsockopt ::
  "(int \<Rightarrow> int \<Rightarrow> u8 list \<Rightarrow> int leaf) \<Rightarrow> u64 \<Rightarrow> int \<Rightarrow> int \<Rightarrow> u8 list \<Rightarrow> valves \<Rightarrow> int guarded \<times> valves" where
  "seh_safe_setsockopt lib now s opt v vs = seh_guarded SrtLeafSetsockopt (-1) now (seh_leaf_setsockopt lib s opt v) vs"

definition seh_safe_global_cleanup :: "unit leaf \<Rightarrow> u64 \<Rightarrow> int \<Rightarrow> valves \<Rightarrow> unit guarded \<times> valves" where
  "seh_safe_global_cleanup lib now do_srt_cleanup vs =
     seh_guarded SrtLeafGlobalCleanup () now (seh_leaf_global_cleanup lib do_srt_cleanup) vs"

subsection \<open>Sound\<close>

definition E_FAIL :: u32 where [model_defs]: "E_FAIL = 0x80004005"

text \<open>The results of \<open>GetBuffer\<close> and \<open>GetNextPacketSize\<close> are out parameters, which a failed call leaves
  as they were.\<close>

definition seh_get_buffer :: "u64 \<Rightarrow> (u32 \<times> 'b) leaf \<Rightarrow> 'b \<Rightarrow> valves \<Rightarrow> (u32 \<times> 'b) guarded \<times> valves" where
  "seh_get_buffer now leaf before vs = seh_guarded WasapiGetBuffer (E_FAIL, before) now leaf vs"

definition seh_release_buffer :: "u64 \<Rightarrow> u32 leaf \<Rightarrow> valves \<Rightarrow> u32 guarded \<times> valves" where
  "seh_release_buffer now leaf vs = seh_guarded WasapiReleaseBuffer E_FAIL now leaf vs"

definition seh_next_packet_size :: "u64 \<Rightarrow> (u32 \<times> u32) leaf \<Rightarrow> u32 \<Rightarrow> valves \<Rightarrow> (u32 \<times> u32) guarded \<times> valves" where
  "seh_next_packet_size now leaf before vs = seh_guarded WasapiNextPacket (E_FAIL, before) now leaf vs"

definition seh_audio_stop :: "u64 \<Rightarrow> u32 leaf option \<Rightarrow> valves \<Rightarrow> u32 guarded \<times> valves" where
  "seh_audio_stop now client vs =
     seh_guarded WasapiAudioStop E_FAIL now (case client of Some leaf \<Rightarrow> leaf | None \<Rightarrow> Returned 0) vs"

text \<open>Up to three calls under one handler: the first that raises is the last.\<close>

datatype shutdown_call = UnregisterNotify | SetFirstEvent | SetSecondEvent

fun raising_calls :: "('c \<Rightarrow> unit leaf) \<Rightarrow> 'c list \<Rightarrow> 'c list \<times> unit leaf" where
  "raising_calls lib [] = ([], Returned ())"
| "raising_calls lib (c # cs) = (case lib c of
     Raised rec \<Rightarrow> ([c], Raised rec)
   | Returned u \<Rightarrow> (case raising_calls lib cs of (ds, r) \<Rightarrow> (c # ds, r)))"

definition seh_shutdown_leaf ::
  "(shutdown_call \<Rightarrow> unit leaf) \<Rightarrow> u64 \<Rightarrow> bool \<Rightarrow> bool \<Rightarrow> bool \<Rightarrow> bool \<Rightarrow> valves \<Rightarrow>
    shutdown_call list \<times> unit guarded \<times> valves" where
  "seh_shutdown_leaf lib now enm nc h1 h2 vs =
     (case raising_calls lib ((if enm \<and> nc then [UnregisterNotify] else []) @ (if h1 then [SetFirstEvent] else []) @
          (if h2 then [SetSecondEvent] else [])) of
        (made, leaf) \<Rightarrow> (made, seh_guarded WasapiShutdownLeaf () now leaf vs))"

subsection \<open>Copy optimizer\<close>

text \<open>The wait of \<open>is_copy_ready\<close>: an exception leaves the answer at false.\<close>

definition guarded_copy_wait :: "u64 \<Rightarrow> bool leaf \<Rightarrow> valves \<Rightarrow> bool guarded \<times> valves" where
  "guarded_copy_wait now leaf vs = seh_guarded CopyOptWait False now leaf vs"

section \<open>The answer of a leaf\<close>

text \<open>What the other theories take as the answer.\<close>

definition answer :: "'a leaf \<Rightarrow> 'a option" where
  "answer leaf = (case leaf of Returned v \<Rightarrow> Some v | Raised rec \<Rightarrow> None)"

definition lethal :: "u32 option \<Rightarrow> bool" where
  "lethal rec \<longleftrightarrow> seh_is_passthrough (case rec of Some c \<Rightarrow> c | None \<Rightarrow> 0)"

lemma seh_guarded_cases:
  "fst (seh_guarded site fallback now leaf vs) = (case leaf of
       Returned v \<Rightarrow> Guarded v
     | Raised rec \<Rightarrow>
         if lethal rec then Propagated rec
         else if rec = Some EXCEPTION_ACCESS_VIOLATION \<and> fst (seh_register_av now (vs site)) then Terminated
         else Guarded fallback)"
  "snd (seh_guarded site fallback now leaf vs) = (if leaf = Raised (Some EXCEPTION_ACCESS_VIOLATION)
     then vs(site := snd (seh_register_av now (vs site))) else vs)"
proof -
  have av: "\<not> seh_is_passthrough EXCEPTION_ACCESS_VIOLATION" "EXCEPTION_ACCESS_VIOLATION \<noteq> 0"
    by (simp_all add: seh_is_passthrough_def model_defs)
  then show "fst (seh_guarded site fallback now leaf vs) = (case leaf of
       Returned v \<Rightarrow> Guarded v
     | Raised rec \<Rightarrow>
         if lethal rec then Propagated rec
         else if rec = Some EXCEPTION_ACCESS_VIOLATION \<and> fst (seh_register_av now (vs site)) then Terminated
         else Guarded fallback)"
    "snd (seh_guarded site fallback now leaf vs) = (if leaf = Raised (Some EXCEPTION_ACCESS_VIOLATION)
       then vs(site := snd (seh_register_av now (vs site))) else vs)"
    by (auto simp: seh_guarded_def seh_filter_def seh_report_def no_capture_def lethal_def Let_def
        split: leaf.split option.split prod.split)
qed

lemma site_names_match: "map site_name seh_sites = site_names" "distinct seh_sites" "set seh_sites = UNIV"
proof -
  show "map site_name seh_sites = site_names" "distinct seh_sites" by code_simp+
  have "site \<in> set seh_sites" for site by (cases site) (simp_all add: seh_sites_def)
  then show "set seh_sites = UNIV" by blast
qed

section \<open>Histories\<close>

text \<open>The guarded calls of the whole process in their order, from whatever threads: the site, the time
  and the exception, if there was one.\<close>

record leaf_call =
  lc_site :: seh_site
  lc_time :: u64
  lc_raised :: "u32 option option"

definition leaf_of_call :: "leaf_call \<Rightarrow> unit leaf" where
  "leaf_of_call c = (case lc_raised c of None \<Rightarrow> Returned () | Some rec \<Rightarrow> Raised rec)"

definition call_step :: "leaf_call \<Rightarrow> valves \<Rightarrow> unit guarded \<times> valves" where
  "call_step c vs = seh_guarded (lc_site c) () (lc_time c) (leaf_of_call c) vs"

definition valves_after :: "leaf_call list \<Rightarrow> valves" where
  "valves_after cs = fold (\<lambda>c vs. snd (call_step c vs)) cs valves_new"

definition is_violation :: "seh_site \<Rightarrow> leaf_call \<Rightarrow> bool" where
  "is_violation site c \<longleftrightarrow> lc_site c = site \<and> lc_raised c = Some (Some EXCEPTION_ACCESS_VIOLATION)"

definition violations :: "seh_site \<Rightarrow> leaf_call list \<Rightarrow> u64 list" where
  "violations site cs = map lc_time (filter (is_violation site) cs)"

lemma leaf_of_violation: "(leaf_of_call c = Raised (Some e)) = (lc_raised c = Some (Some e))"
  by (simp add: leaf_of_call_def split: option.split)

text \<open>The window and the count of a site depend on nothing but its own access violations.\<close>

lemma valve_of_site: "valves_after cs site = snd (av_run (violations site cs) (0, 0))"
proof (induction cs rule: rev_induct)
  case (snoc c cs)
  have "valves_after (cs @ [c]) = snd (call_step c (valves_after cs))" by (simp add: valves_after_def)
  then show ?case
    using snoc.IH
    by (cases "lc_site c = site")
      (auto simp: call_step_def seh_guarded_cases(2) leaf_of_violation violations_def is_violation_def av_run_snoc_state)
qed (simp add: valves_after_def valves_new_def violations_def)

lemma terminated_iff:
  "(fst (call_step c vs) = Terminated) =
     (lc_raised c = Some (Some EXCEPTION_ACCESS_VIOLATION) \<and> fst (seh_register_av (lc_time c) (vs (lc_site c))))"
proof -
  have "\<not> lethal (Some EXCEPTION_ACCESS_VIOLATION)" by (simp add: lethal_def seh_is_passthrough_def model_defs)
  then show ?thesis by (auto simp: call_step_def seh_guarded_cases(1) leaf_of_call_def split: option.split)
qed

section \<open>Properties\<close>

text \<open>C31: A leaf that raises ends the process by the valve only when it is itself at fault: whatever all
  threads call and whatever the other sites have suffered, with a clock that does not run backwards
  the report ends the process at a call only if that call raised an access violation and its site had
  at least three of them, this one included, within the last 60 seconds.\<close>

theorem process_ends_after_three_faults_of_one_site:
  assumes "sorted (map (\<lambda>d. unat (lc_time d)) (cs @ [c]))" and "fst (call_step c (valves_after cs)) = Terminated"
  shows "is_violation (lc_site c) c \<and>
    3 \<le> length (filter (\<lambda>d. is_violation (lc_site c) d \<and> unat (lc_time c) - unat (lc_time d) \<le> 60000) (cs @ [c]))"
proof -
  let ?v = "violations (lc_site c)"
  have t: "is_violation (lc_site c) c" "fst (seh_register_av (lc_time c) (snd (av_run (?v cs) (0, 0))))"
    using assms(2) by (simp_all add: terminated_iff is_violation_def valve_of_site)
  have srt: "sorted (map unat (?v ds))" if "sorted (map (\<lambda>d. unat (lc_time d)) ds)" for ds
    using sorted_filter[OF that, of "is_violation (lc_site c)"] by (simp add: violations_def comp_def)
  have s: "sorted (map (\<lambda>d. unat (lc_time d)) cs)" "\<forall>d \<in> set cs. unat (lc_time d) \<le> unat (lc_time c)"
    using assms(1) by (auto simp: sorted_append)
  have "\<forall>u \<in> set (?v cs). unat u \<le> unat (lc_time c)" using s(2) by (auto simp: violations_def)
  from av_step(2)[OF av_run_inv[OF srt[OF s(1)]] this t(2)]
  have "3 \<le> length (filter (\<lambda>u. unat (lc_time c) - unat u \<le> 60000) (?v (cs @ [c])))"
    using t(1) by (simp add: violations_def)
  then show ?thesis
    using t(1) by (simp add: violations_def filter_map comp_def conj_commute)
qed

definition demo_faults :: "leaf_call list" where
  "demo_faults = [\<lparr>lc_site = SrtLeafSendmsg, lc_time = 100000, lc_raised = Some (Some EXCEPTION_ACCESS_VIOLATION)\<rparr>,
     \<lparr>lc_site = CmdDrain, lc_time = 110000, lc_raised = Some (Some EXCEPTION_ACCESS_VIOLATION)\<rparr>,
     \<lparr>lc_site = SrtLeafSendmsg, lc_time = 120000, lc_raised = Some (Some EXCEPTION_ACCESS_VIOLATION)\<rparr>,
     \<lparr>lc_site = SrtLeafSendmsg, lc_time = 130000, lc_raised = None\<rparr>]"

definition demo_last_fault :: leaf_call where
  "demo_last_fault = \<lparr>lc_site = SrtLeafSendmsg, lc_time = 150000, lc_raised = Some (Some EXCEPTION_ACCESS_VIOLATION)\<rparr>"

lemma process_ends_after_three_faults_of_one_site_witness:
  "3 \<le> length (filter (\<lambda>d. is_violation (lc_site demo_last_fault) d \<and>
     unat (lc_time demo_last_fault) - unat (lc_time d) \<le> 60000) (demo_faults @ [demo_last_fault]))"
proof -
  have "sorted (map (\<lambda>d. unat (lc_time d)) (demo_faults @ [demo_last_fault]))"
    by (simp add: demo_faults_def demo_last_fault_def)
  moreover have "fst (call_step demo_last_fault (valves_after demo_faults)) = Terminated"
    by (simp add: terminated_iff valve_of_site violations_def is_violation_def demo_faults_def demo_last_fault_def
        seh_register_av_def model_defs word_le_nat_alt)
  ultimately show ?thesis
    using process_ends_after_three_faults_of_one_site[of demo_faults demo_last_fault] by blast
qed

text \<open>The answers the rest of the development takes from the leaves are the ones they give: when a
  guarded call comes back, it gives the answer that theory \<open>CommandRouter\<close>, \<open>OutputSubsystem\<close> or
  \<open>CopyOptimizer\<close> computes from the optional answer of the raw call; otherwise the process is over.\<close>

theorem leaves_answer_as_modelled:
  "(case fst (guarded_command_drain now l1 vs) of Guarded r \<Rightarrow> r = seh_command_drain (answer l1) | _ \<Rightarrow> answer l1 = None) \<and>
   (case fst (guarded_ws_command_dequeue now l2 vs) of
      Guarded r \<Rightarrow> r = seh_ws_command_dequeue (case answer l2 of Some r \<Rightarrow> r | None \<Rightarrow> None) | _ \<Rightarrow> answer l2 = None) \<and>
   (case fst (guarded_get_ws_port now l3 vs) of Guarded r \<Rightarrow> r = seh_get_ws_port (answer l3) | _ \<Rightarrow> answer l3 = None) \<and>
   (case fst (guarded_srt_send now l4 vs) of
      Guarded r \<Rightarrow> r = (case answer l4 of None \<Rightarrow> fst (seh_srt_send True args t) | Some sent \<Rightarrow> if sent then 0 else 1)
    | _ \<Rightarrow> answer l4 = None) \<and>
   (case fst (guarded_copy_wait now l5 vs) of
      Guarded r \<Rightarrow> co_alive c \<and> co_device c \<noteq> 0 \<and> co_pfn_wait c \<and> sem \<noteq> 0 \<longrightarrow> is_copy_ready sem (answer l5) c = r
    | _ \<Rightarrow> answer l5 = None)"
  by (cases l1; cases l2; cases l3; cases l4; cases l5)
    (simp_all add: guarded_command_drain_def guarded_ws_command_dequeue_def guarded_get_ws_port_def guarded_srt_send_def
      guarded_copy_wait_def seh_guarded_cases(1) answer_def seh_command_drain_def seh_ws_command_dequeue_def
      seh_get_ws_port_def seh_srt_send_def is_copy_ready_def split: option.split)

end
