(* ===== verification/Abi.thy ===== *)
theory Abi
  imports HealingOverlay
begin

text \<open>
  The structures that cross the border to the orchestrator as raw memory: \<open>RjMetricSample\<close>,
  \<open>RjCommand\<close>, \<open>RjAction\<close> and \<open>RjActionEvent\<close>. They are declared once, in the Rust sources under
  \<open>src/src/orchestrator/src\<close> with \<open>repr(C)\<close>, and generated for C++; both compilers lay them out by the
  rule of the platform (every field at the next multiple of its alignment, the whole rounded up to
  the largest alignment). The C++ side relies on explicit offsets, asserted in
  \<open>src/src/ffi/sizeof_check.cpp\<close> and in \<open>src/src/pipeline/pipeline.cpp\<close>. This theory computes the layout
  from the declarations, compares it with what the two files assert, and shows that a structure
  written field by field into memory is read back unchanged, whatever lies in the padding.
\<close>

section \<open>Layout\<close>

datatype scalar = U8 | I16 | U16 | U32 | I32 | F32 | U64

fun scalar_size :: "scalar \<Rightarrow> nat" where
  "scalar_size U8 = 1"
| "scalar_size I16 = 2"
| "scalar_size U16 = 2"
| "scalar_size U32 = 4"
| "scalar_size I32 = 4"
| "scalar_size F32 = 4"
| "scalar_size U64 = 8"

text \<open>The alignment of a scalar is its size.\<close>

type_synonym struct_fields = "(string \<times> scalar) list"

definition align_up :: "nat \<Rightarrow> nat \<Rightarrow> nat" where
  "align_up a n = n + (a - n mod a) mod a"

fun field_offsets :: "nat \<Rightarrow> struct_fields \<Rightarrow> (string \<times> nat) list" where
  "field_offsets n [] = []"
| "field_offsets n ((f, t) # fs) =
     (let off = align_up (scalar_size t) n in (f, off) # field_offsets (off + scalar_size t) fs)"

fun fields_end :: "nat \<Rightarrow> struct_fields \<Rightarrow> nat" where
  "fields_end n [] = n"
| "fields_end n ((f, t) # fs) = fields_end (align_up (scalar_size t) n + scalar_size t) fs"

definition struct_align :: "struct_fields \<Rightarrow> nat" where
  "struct_align fs = fold (\<lambda>(f, t). max (scalar_size t)) fs 1"

definition struct_size :: "struct_fields \<Rightarrow> nat" where
  "struct_size fs = align_up (struct_align fs) (fields_end 0 fs)"

section \<open>The declarations\<close>

definition MetricSample :: struct_fields where
  "MetricSample = [(''magic_head'', U32), (''timestamp_us'', U64), (''bitrate_kbps'', U32),
     (''fps_actual'', F32), (''cpu_percent'', F32), (''frame_drops'', U32), (''frame_drop_pct'', U32),
     (''gpu_temp_c'', I16), (''cpu_temp_c'', I16), (''memory_usage_pct'', U32), (''cpu_load_pct'', U32),
     (''gpu_load_pct'', U32), (''network_rtt_ms'', U16), (''network_loss_pct'', U8), (''source_id'', U8),
     (''magic_tail'', U32)]"

definition RjCommand :: struct_fields where
  "RjCommand = [(''cmd_type'', U32), (''timestamp_us'', U64), (''param_u32'', U32), (''param_f32'', F32)]"

text \<open>\<open>RjActionType\<close> and \<open>RjMetricId\<close> are \<open>repr(u32)\<close>.\<close>

definition action_types :: "rj_action_type list" where
  "action_types = [RjBitrateReduce, RjBitrateRecover, RjScaleResolution, RjRestoreResolution, RjCapFps, RjRestoreFps, RjLogOnly]"

text \<open>A C enumeration without explicit values counts from 0 in the order of its declaration.\<close>

fun index_of :: "'a \<Rightarrow> 'a list \<Rightarrow> nat" where
  "index_of x [] = 0"
| "index_of x (y # ys) = (if x = y then 0 else Suc (index_of x ys))"

definition RjAction :: struct_fields where
  "RjAction = [(''id'', U32), (''action_type'', U32), (''param1'', I32), (''param2'', I32), (''canary'', U32)]"

definition RjActionEvent :: struct_fields where
  "RjActionEvent = [(''id'', U32), (''action_type'', U32), (''param1'', I32), (''param2'', I32),
     (''require_approval'', U32), (''kind'', U32), (''metric_id'', U32), (''current_value'', I32),
     (''threshold_value'', I32), (''calibrated'', U32)]"

section \<open>What the C++ sources assert\<close>

text \<open>An assertion names a field and its offset; the sizes are asserted separately.\<close>

definition offsets_asserted :: "(string \<times> nat) list \<Rightarrow> struct_fields \<Rightarrow> bool" where
  "offsets_asserted as fs \<longleftrightarrow> list_all (\<lambda>(f, n). map_of (field_offsets 0 fs) f = Some n) as"

definition command_offsets :: "(string \<times> nat) list" where
  "command_offsets = [(''cmd_type'', 0), (''timestamp_us'', 8), (''param_u32'', 16), (''param_f32'', 20)]"

definition action_offsets :: "(string \<times> nat) list" where
  "action_offsets = [(''id'', 0), (''action_type'', 4), (''param1'', 8), (''param2'', 12), (''canary'', 16)]"

definition action_event_offsets :: "(string \<times> nat) list" where
  "action_event_offsets = [(''id'', 0), (''action_type'', 4), (''param1'', 8), (''param2'', 12),
     (''require_approval'', 16), (''kind'', 20), (''metric_id'', 24), (''current_value'', 28),
     (''threshold_value'', 32), (''calibrated'', 36)]"

definition metric_offsets :: "(string \<times> nat) list" where
  "metric_offsets = [(''magic_head'', 0), (''timestamp_us'', 8), (''bitrate_kbps'', 16), (''fps_actual'', 20),
     (''cpu_percent'', 24), (''frame_drops'', 28), (''frame_drop_pct'', 32), (''gpu_temp_c'', 36),
     (''cpu_temp_c'', 38), (''memory_usage_pct'', 40), (''cpu_load_pct'', 44), (''gpu_load_pct'', 48),
     (''network_rtt_ms'', 52), (''network_loss_pct'', 54), (''source_id'', 55), (''magic_tail'', 56)]"

text \<open>The assertions of the checking program, then those repeated in the pipeline.\<close>

definition sizeof_check :: bool where
  "sizeof_check \<longleftrightarrow>
     struct_size MetricSample = 64 \<and> struct_size RjAction = 20 \<and> struct_size RjActionEvent = 40 \<and>
     struct_size RjCommand = 24 \<and>
     offsets_asserted command_offsets RjCommand \<and> offsets_asserted action_offsets RjAction \<and>
     offsets_asserted action_event_offsets RjActionEvent \<and> offsets_asserted metric_offsets MetricSample \<and>
     map (\<lambda>a. index_of a action_types) [RjBitrateReduce, RjBitrateRecover, RjScaleResolution, RjRestoreResolution,
       RjCapFps, RjRestoreFps, RjLogOnly] = [0, 1, 2, 3, 4, 5, 6]"

definition pipeline_checks :: bool where
  "pipeline_checks \<longleftrightarrow>
     struct_size MetricSample = 64 \<and> struct_size RjCommand = 24 \<and> struct_size RjAction = 20 \<and>
     offsets_asserted command_offsets RjCommand \<and> offsets_asserted action_offsets RjAction \<and>
     offsets_asserted metric_offsets MetricSample"

section \<open>Memory\<close>

text \<open>A scalar of \<open>n\<close> bytes in memory, least significant byte first; the value is its bit pattern.\<close>

fun to_le :: "nat \<Rightarrow> nat \<Rightarrow> nat list" where
  "to_le 0 v = []"
| "to_le (Suc n) v = v mod 256 # to_le n (v div 256)"

fun from_le :: "nat list \<Rightarrow> nat" where
  "from_le [] = 0"
| "from_le (b # bs) = b + 256 * from_le bs"

definition poke :: "nat \<Rightarrow> nat list \<Rightarrow> nat list \<Rightarrow> nat list" where
  "poke off bs mem = take off mem @ bs @ drop (off + length bs) mem"

definition peek :: "nat \<Rightarrow> nat \<Rightarrow> nat list \<Rightarrow> nat list" where
  "peek off n mem = take n (drop off mem)"

fun store_fields :: "nat \<Rightarrow> struct_fields \<Rightarrow> nat list \<Rightarrow> nat list \<Rightarrow> nat list" where
  "store_fields n ((f, t) # fs) (v # vs) mem =
     (let off = align_up (scalar_size t) n in
      store_fields (off + scalar_size t) fs vs (poke off (to_le (scalar_size t) v) mem))"
| "store_fields n _ _ mem = mem"

fun load_fields :: "nat \<Rightarrow> struct_fields \<Rightarrow> nat list \<Rightarrow> nat list" where
  "load_fields n [] mem = []"
| "load_fields n ((f, t) # fs) mem =
     (let off = align_up (scalar_size t) n in
      from_le (peek off (scalar_size t) mem) # load_fields (off + scalar_size t) fs mem)"

fun fits :: "struct_fields \<Rightarrow> nat list \<Rightarrow> bool" where
  "fits [] [] = True"
| "fits ((f, t) # fs) (v # vs) \<longleftrightarrow> v < 256 ^ scalar_size t \<and> fits fs vs"
| "fits _ _ = False"

section \<open>Facts about the layout\<close>

lemma scalar_size_pos [simp]: "0 < scalar_size t"
  by (cases t) simp_all

lemma align_up_ge: "n \<le> align_up a n"
  by (simp add: align_up_def)

lemma align_up_dvd:
  assumes "0 < a"
  shows "a dvd align_up a n"
proof (cases "n mod a = 0")
  case True
  then show ?thesis using assms by (simp add: align_up_def dvd_eq_mod_eq_0)
next
  case False
  have m: "n mod a < a" by (rule mod_less_divisor[OF assms])
  then have "(a - n mod a) mod a = a - n mod a" using False by simp
  then have "align_up a n = n + (a - n mod a)" by (simp add: align_up_def)
  also have "\<dots> = n div a * a + a" using m div_mult_mod_eq[of n a] by linarith
  finally show ?thesis by simp
qed

lemma align_up_less: "0 < a \<Longrightarrow> align_up a n < n + a"
  by (simp add: align_up_def)

lemma fields_end_ge: "n \<le> fields_end n fs"
proof (induction fs arbitrary: n)
  case (Cons x fs)
  obtain f t where x: "x = (f, t)" by (rule prod.exhaust)
  have "n \<le> align_up (scalar_size t) n + scalar_size t" using align_up_ge[of n "scalar_size t"] by simp
  also have "\<dots> \<le> fields_end (align_up (scalar_size t) n + scalar_size t) fs" by (rule Cons.IH)
  finally show ?case by (simp add: x)
qed simp

lemma from_to_le: "v < 256 ^ n \<Longrightarrow> from_le (to_le n v) = v"
proof (induction n arbitrary: v)
  case (Suc n)
  have "v div 256 < 256 ^ n" using Suc.prems by (simp add: less_mult_imp_div_less mult.commute)
  then show ?case using Suc.IH by simp
qed simp

lemma length_to_le [simp]: "length (to_le n v) = n"
  by (induction n arbitrary: v) simp_all

lemma length_poke [simp]: "off + length bs \<le> length mem \<Longrightarrow> length (poke off bs mem) = length mem"
  by (simp add: poke_def)

lemma peek_poke: "off + length bs \<le> length mem \<Longrightarrow> peek off (length bs) (poke off bs mem) = bs"
  by (simp add: peek_def poke_def)

lemma peek_before:
  assumes "off + n \<le> k" and "k + length bs \<le> length mem"
  shows "peek off n (poke k bs mem) = peek off n mem"
proof -
  have "drop off (poke k bs mem) = drop off (take k mem) @ bs @ drop (k + length bs) mem"
    using assms by (simp add: poke_def)
  moreover have "n \<le> length (drop off (take k mem))" using assms by simp
  ultimately have "peek off n (poke k bs mem) = take n (drop off (take k mem))" by (simp add: peek_def)
  also have "\<dots> = peek off n mem" using assms(1) by (simp add: drop_take peek_def min_def)
  finally show ?thesis .
qed

text \<open>Later fields lie behind earlier ones: storing them leaves the earlier bytes alone.\<close>

lemma store_keeps_before:
  assumes "off + k \<le> n" and "fields_end n fs \<le> length mem"
  shows "peek off k (store_fields n fs vs mem) = peek off k mem"
    and "length (store_fields n fs vs mem) = length mem"
proof -
  have "peek off k (store_fields n fs vs mem) = peek off k mem \<and> length (store_fields n fs vs mem) = length mem"
    using assms
  proof (induction n fs vs mem rule: store_fields.induct)
    case (1 n f t fs v vs mem)
    let ?off = "align_up (scalar_size t) n" and ?b = "to_le (scalar_size t) v"
    have e: "?off + length ?b \<le> length mem"
      using "1.prems"(2) fields_end_ge[of "?off + scalar_size t" fs] by simp
    have "n \<le> ?off" by (rule align_up_ge)
    with "1.prems"(1) have b: "off + k \<le> ?off" by linarith
    from "1.IH"[OF refl] b "1.prems"(2) e show ?case
      by (simp add: Let_def peek_before)
  qed simp_all
  then show "peek off k (store_fields n fs vs mem) = peek off k mem"
    "length (store_fields n fs vs mem) = length mem" by simp_all
qed

lemma load_store:
  assumes "fits fs vs" and "fields_end n fs \<le> length mem"
  shows "load_fields n fs (store_fields n fs vs mem) = vs"
  using assms
proof (induction fs arbitrary: n vs mem)
  case Nil
  then show ?case by (cases vs) simp_all
next
  case (Cons x fs)
  obtain f t where x: "x = (f, t)" by (rule prod.exhaust)
  obtain v vs' where vs: "vs = v # vs'" "v < 256 ^ scalar_size t" "fits fs vs'"
    using Cons.prems(1) by (cases vs) (auto simp: x)
  let ?off = "align_up (scalar_size t) n" and ?b = "to_le (scalar_size t) v"
  have e: "?off + length ?b \<le> length mem"
    using Cons.prems(2) fields_end_ge[of "?off + scalar_size t" fs] by (simp add: x)
  let ?m = "poke ?off ?b mem"
  have m: "fields_end (?off + scalar_size t) fs \<le> length ?m" using Cons.prems(2) e by (simp add: x)
  have "peek ?off (scalar_size t) (store_fields (?off + scalar_size t) fs vs' ?m) = ?b"
    using store_keeps_before(1)[OF order_refl m, of vs'] peek_poke[OF e] by simp
  then show ?case
    using Cons.IH[OF vs(3) m] vs(2) by (simp add: x vs(1) Let_def from_to_le)
qed

lemma offsets_aligned:
  "list_all2 (\<lambda>(f, off) (g, t). scalar_size t dvd off \<and> n \<le> off \<and> off + scalar_size t \<le> fields_end n fs)
     (field_offsets n fs) fs"
proof (induction fs arbitrary: n)
  case (Cons x fs)
  obtain f t where x: "x = (f, t)" by (rule prod.exhaust)
  let ?off = "align_up (scalar_size t) n"
  have "list_all2 (\<lambda>(f, off) (g, u). scalar_size u dvd off \<and> n \<le> off \<and> off + scalar_size u \<le> fields_end (?off + scalar_size t) fs)
      (field_offsets (?off + scalar_size t) fs) fs"
    by (rule list_all2_mono[OF Cons.IH]) (use align_up_ge[of n "scalar_size t"] in auto)
  then show ?case
    using align_up_dvd[of "scalar_size t" n] align_up_ge[of n "scalar_size t"] fields_end_ge[of "?off + scalar_size t" fs]
    by (simp add: x Let_def)
qed simp

section \<open>Properties\<close>

text \<open>The layout that follows from the declarations is the one the C++ sources assert: all sizes, all
  offsets and the codes of the action types, in the checking program and in the pipeline; the last
  field of a sample, which the reader uses to reject a torn one, lies in its last eight bytes.\<close>

theorem layouts_are_as_asserted:
  "sizeof_check \<and> pipeline_checks \<and>
   map_of (field_offsets 0 MetricSample) ''magic_tail'' = Some (struct_size MetricSample - 8)"
proof -
  have "sizeof_check" by code_simp
  moreover have "pipeline_checks" by code_simp
  moreover have "map_of (field_offsets 0 MetricSample) ''magic_tail'' = Some (struct_size MetricSample - 8)"
    by code_simp
  ultimately show ?thesis by blast
qed

text \<open>What one side writes the other side reads: for any structure laid out by the rule, any values of
  its fields and any memory of its size, the fields read back are the values written; so no two
  fields share a byte and none reaches beyond the structure.\<close>

theorem struct_round_trip:
  assumes "fits fs vs" and "length mem = struct_size fs"
  shows "load_fields 0 fs (store_fields 0 fs vs mem) = vs \<and> length (store_fields 0 fs vs mem) = struct_size fs"
proof -
  have "fields_end 0 fs \<le> length mem" using assms(2) align_up_ge by (simp add: struct_size_def)
  then show ?thesis
    using load_store[OF assms(1)] store_keeps_before(2)[of 0 0 0 fs mem vs] assms(2) by simp
qed

lemma struct_round_trip_witness:
  "load_fields 0 RjCommand (store_fields 0 RjCommand [1, 123456789012, 4500, 0x3F800000] (replicate 24 170))
     = [1, 123456789012, 4500, 0x3F800000]"
proof -
  have "fits RjCommand [1, 123456789012, 4500, 0x3F800000]" by (simp add: RjCommand_def)
  moreover have "length (replicate 24 170 :: nat list) = struct_size RjCommand"
    by (simp add: RjCommand_def struct_size_def struct_align_def align_up_def)
  ultimately show ?thesis by (rule conjunct1[OF struct_round_trip])
qed

end
