(* ===== verification/Studio.thy ===== *)
theory Studio
  imports MainWindow PreviewWidget PipeProps
begin

text \<open>
  The program as a whole: the main window with the pipeline it owns, the frame thread, the preview
  with the copy optimizer and the bridge lent to it, the program monitor, and the queue of scene
  commands from the frame thread to the window (\<open>src/src/ui/main_window.cpp\<close>: \<open>wireUpPipeline\<close>, the
  callbacks, the destructor). A step is a user action, a paint, the delivery of a queued command, a
  wake-up of another thread, or a whole frame of the frame thread, whose callbacks hand the new
  images and pixels to the two monitors. The components are those of the other theories; nothing of
  them is modelled anew here.
\<close>

section \<open>State\<close>

text \<open>\<open>st_optimizer\<close> is \<open>copy_optimizer_\<close> while the preview has no pointer to it; while it has one, the
  optimizer's state is the preview's \<open>pv_opt\<close>.\<close>

record studio =
  st_window :: window
  st_preview :: preview
  st_optimizer :: "copy_opt \<times> vk_call list"
  st_optimizer_ready :: bool
  st_queue :: "(int \<times> u32) list"

section \<open>Wiring\<close>

record studio_env =
  se_device :: vk_handle
  se_queue :: vk_handle
  se_physical :: vk_handle
  se_family :: u32
  se_copy :: copy_init_env
  se_caps :: gl_caps
  se_junk :: "nat \<Rightarrow> timing"

definition external_memory_bridge :: "pipe \<Rightarrow> ext_call list option" where
  "external_memory_bridge p = (case pp_impl p of None \<Rightarrow> None
     | Some s \<Rightarrow> if gi_bridge (im_gpu s) = None then None else Some [])"

text \<open>The part of \<open>wireUpPipeline\<close> that concerns the preview. OpenGL is initialised when the widget is
  first shown, after the constructor.\<close>

definition wire_optimizer :: "bool \<Rightarrow> studio_env \<Rightarrow> pipe \<Rightarrow> studio \<Rightarrow> studio" where
  "wire_optimizer vk_device env p s =
     (if vk_device \<and> se_queue env \<noteq> 0 then
        (case copy_init (se_device env) (se_queue env) (se_physical env) (se_family env) (se_copy env) (st_optimizer s) of
           (True, opt) \<Rightarrow> s\<lparr>st_optimizer := opt, st_optimizer_ready := True,
             st_preview := setBridge (external_memory_bridge p) (setCopyOptimizer (Some opt) (st_preview s))\<rparr>
         | (False, opt) \<Rightarrow> s\<lparr>st_optimizer := opt\<rparr>)
      else s)"

definition wire_profiler :: "studio_env \<Rightarrow> pipe \<Rightarrow> studio \<Rightarrow> studio" where
  "wire_profiler env p s =
     (if pp_profiler p then s\<lparr>st_preview := setProfiler (Some (profiler_new (se_junk env))) (st_preview s)\<rparr> else s)"

definition studio_shown :: "studio_env \<Rightarrow> studio \<Rightarrow> studio" where
  "studio_shown env s = s\<lparr>st_preview := initializeGL (se_caps env) (st_preview s)\<rparr>"

text \<open>The frame thread is started by the construction of the window, but a frame is a step of its own,
  so the callbacks meet the preview wired.\<close>

definition studio_construct ::
  "conversions \<Rightarrow> settings_store \<Rightarrow> string list \<Rightarrow> string option \<Rightarrow> bool \<Rightarrow> string option
     \<Rightarrow> pipe_init_env \<Rightarrow> wire_env \<Rightarrow> studio_env \<Rightarrow> studio outcome" where
  "studio_construct cv st devices file dir engine ienv wenv env =
     and_then (window_construct cv st devices file dir engine ienv wenv) (\<lambda>w.
       let s = \<lparr>st_window = w, st_preview = preview_new, st_optimizer = (copy_opt_new, []),
                st_optimizer_ready = False, st_queue = []\<rparr>;
           s = (if mw_thread w \<noteq> None then wire_profiler env (mw_pipe w) (wire_optimizer (we_vk_device wenv) env (mw_pipe w) s)
                else s) in
       Val (studio_shown env s))"

section \<open>A frame of the frame thread\<close>

definition events_of :: "pipe \<Rightarrow> pipe_event list" where
  "events_of p = (case pp_impl p of None \<Rightarrow> [] | Some s \<Rightarrow> im_trace s)"

definition new_events :: "pipe \<Rightarrow> pipe \<Rightarrow> pipe_event list" where
  "new_events p q = drop (length (events_of p)) (events_of q)"

text \<open>The three callbacks. The images are those the pipeline has cached; the pixels (with their pitch)
  are what the pipeline mapped. Scene commands are queued to the thread of the window.\<close>

fun deliver :: "(vk_handle \<times> vk_handle \<times> u32) option \<Rightarrow> bytes \<times> int \<Rightarrow> pipe_event \<Rightarrow> studio \<Rightarrow> studio" where
  "deliver images px (InteropCallback w h) s =
     (case images of None \<Rightarrow> s
      | Some (staging, target, slot) \<Rightarrow>
          s\<lparr>st_preview := preview_input_step (FrameIn staging target w h slot) (st_preview s)\<rparr>)"
| "deliver images px (PreviewCallback w h) s =
     s\<lparr>st_preview := preview_input_step (PixelsIn (fst px) (sint w) (sint h) (snd px)) (st_preview s),
       st_window := (st_window s)\<lparr>mw_program :=
         program_step (PgFrame (fst px) (sint w) (sint h) (snd px)) (mw_program (st_window s))\<rparr>\<rparr>"
| "deliver images px (SceneCallback cmd param) s = s\<lparr>st_queue := st_queue s @ [(cmd, param)]\<rparr>"
| "deliver images px _ s = s"

definition studio_frame :: "(tex \<Rightarrow> handle) \<Rightarrow> frame_env \<Rightarrow> bytes \<times> int \<Rightarrow> studio \<Rightarrow> studio outcome" where
  "studio_frame addr env px s =
     and_then (frame_turn addr env (st_window s)) (\<lambda>w.
       Val (fold (deliver (last_frame_images (mw_pipe w)) px)
              (new_events (mw_pipe (st_window s)) (mw_pipe w)) (s\<lparr>st_window := w\<rparr>)))"

section \<open>Steps\<close>

datatype studio_input =
    SWindow window_input
  | SFrame frame_env "bytes \<times> int"
  | SPaint paint_env
  | SCommand
  | SThread pipe_op

text \<open>What reaches the window from outside: not the frames and commands the pipeline delivers.\<close>

fun from_outside :: "window_input \<Rightarrow> bool" where
  "from_outside (WPipe p) \<longleftrightarrow> False"
| "from_outside (WCommand cmd param) \<longleftrightarrow> False"
| "from_outside (WProgram x) \<longleftrightarrow> x = PgTick \<or> x = PgPaint"
| "from_outside _ \<longleftrightarrow> True"

text \<open>The wake-ups of the action thread, of the audio supervisor and of the metrics thread.\<close>

fun thread_op :: "pipe_op \<Rightarrow> bool" where
  "thread_op (PActions as) \<longleftrightarrow> True"
| "thread_op (PAudio ts) \<longleftrightarrow> True"
| "thread_op (PPoll env) \<longleftrightarrow> True"
| "thread_op _ \<longleftrightarrow> False"

definition take_command :: "((int \<times> u32) \<Rightarrow> window \<Rightarrow> window) \<Rightarrow> studio \<Rightarrow> studio" where
  "take_command f s = (case st_queue s of
       [] \<Rightarrow> s
     | c # q \<Rightarrow> s\<lparr>st_queue := q, st_window := f c (st_window s)\<rparr>)"

definition studio_step ::
  "(nat \<Rightarrow> string) \<Rightarrow> (string \<Rightarrow> bool) \<Rightarrow> (profile_id \<Rightarrow> string) \<Rightarrow> (tex \<Rightarrow> handle) \<Rightarrow>
    studio_input \<Rightarrow> studio \<Rightarrow> studio outcome" where
  "studio_step number valid resource addr i s = (case i of
       SWindow x \<Rightarrow> Val (if from_outside x then s\<lparr>st_window := window_step number valid resource x (st_window s)\<rparr> else s)
     | SFrame env px \<Rightarrow> studio_frame addr env px s
     | SPaint env \<Rightarrow> Val (s\<lparr>st_preview := preview_input_step (PaintNow env) (st_preview s)\<rparr>)
     | SCommand \<Rightarrow> Val (take_command (\<lambda>(cmd, param). window_step number valid resource (WCommand cmd param)) s)
     | SThread op \<Rightarrow>
         if thread_op op then
           and_then (pipe_step addr op (mw_pipe (st_window s))) (\<lambda>p.
             Val (s\<lparr>st_window := (st_window s)\<lparr>mw_pipe := p\<rparr>\<rparr>))
         else Val s)"

fun studio_run ::
  "(nat \<Rightarrow> string) \<Rightarrow> (string \<Rightarrow> bool) \<Rightarrow> (profile_id \<Rightarrow> string) \<Rightarrow> (tex \<Rightarrow> handle) \<Rightarrow>
    studio_input list \<Rightarrow> studio \<Rightarrow> studio outcome" where
  "studio_run number valid resource addr [] s = Val s"
| "studio_run number valid resource addr (i # is) s =
     and_then (studio_step number valid resource addr i s) (studio_run number valid resource addr is)"

section \<open>The end\<close>

text \<open>\<open>de_finished\<close>: the frame thread ends within the five seconds it is waited for. Otherwise the
  destructor goes on and destroys the pipeline under the running loop.\<close>

record destroy_env =
  de_geometry :: string
  de_state :: string
  de_finished :: bool
  de_seh :: bool
  de_down :: shutdown_env
  de_del_sems :: bool

datatype 'a ending = Ended 'a | UsedAfterFree | NotReturning

definition detach_preview :: "studio \<Rightarrow> studio" where
  "detach_preview s =
     s\<lparr>st_optimizer := (case pv_opt (st_preview s) of Some opt \<Rightarrow> opt | None \<Rightarrow> st_optimizer s),
       st_preview := setBridge None (setCopyOptimizer None (st_preview s))\<rparr>"

definition shutdown_optimizer :: "bool \<Rightarrow> studio \<Rightarrow> studio" where
  "shutdown_optimizer seh s =
     (if st_optimizer_ready s then s\<lparr>st_optimizer := copy_shutdown seh (st_optimizer s)\<rparr> else s)"

text \<open>The body of the destructor; then the members go (the pipeline with its shutdown), then the child
  widgets.\<close>

definition studio_close :: "destroy_env \<Rightarrow> studio \<Rightarrow> studio" where
  "studio_close env s =
     (let s = s\<lparr>st_window := stopFrameThread (de_finished env)
                  (saveWindowState (de_geometry env) (de_state env) (st_window s))\<rparr>;
          s = shutdown_optimizer (de_seh env) (detach_preview s) in
      s\<lparr>st_window := tell [HealingLogShutdown] (st_window s)\<rparr>)"

definition studio_destroy :: "destroy_env \<Rightarrow> studio \<Rightarrow> studio ending" where
  "studio_destroy env s =
     (let s = studio_close env s; w = st_window s in
      if mw_thread w = Some True then UsedAfterFree
      else (case pipe_shutdown (de_down env) (mw_pipe w) of
          Val (ok, p) \<Rightarrow> Ended (s\<lparr>st_window := w\<lparr>mw_pipe := p, mw_program := program_destroy (mw_program w)\<rparr>,
                                st_preview := preview_destroy (de_del_sems env) (st_preview s)\<rparr>)
        | _ \<Rightarrow> NotReturning))"

section \<open>The pipeline behind the window\<close>

text \<open>What is off stays off: the timer resolution and the apartment are only taken by a start.\<close>

definition system_left :: "impl \<Rightarrow> bool" where
  "system_left s \<longleftrightarrow> \<not> im_timer_set s \<and> \<not> im_com_owned s"

interpretation off: pipe_ledger system_left not_init "\<lambda>_. True"
proof unfold_locales
  show "system_left s'" if "ledger s' = ledger s" "system_left s" for s s'
    using that(2) ledger_eqD[OF that(1)] by (simp add: system_left_def)
  show "system_left (pipe_emit MonitorStarted s)" "system_left (pipe_emit (SceneCallback c v) s)"
    "system_left (pipe_emit (BitrateState b (cg_original_bitrate (im_cfg s))) (s\<lparr>im_bitrate := b\<rparr>))"
    if "system_left s" for s c v b
    using that by (simp_all add: system_left_def pipe_emit_def)
  show "system_left s'" if "vstep es (failures es) s s'" "system_left s" for es s s'
    using that by (simp add: vstep_def fixed_def system_left_def)
  show "system_left (push_metrics fenv s)" if "system_left s" for fenv s
    using that push_metrics_trace[of fenv s] by (auto simp: system_left_def fixed_def)
  show "system_left (snd (leave_system com_ok all_ok s))" if "system_left s" for com_ok all_ok s
    using that by (simp add: leave_system_def system_left_def)
qed (simp_all add: not_init_def)

text \<open>The trace only grows.\<close>

definition grown :: "pipe_event list \<Rightarrow> impl \<Rightarrow> bool" where
  "grown t s \<longleftrightarrow> (\<exists>es. im_trace s = t @ es)"

lemma grown_more: "grown t s \<Longrightarrow> im_trace s' = im_trace s @ es \<Longrightarrow> grown t s'"
  by (auto simp: grown_def)

interpretation grows: pipe_ledger "grown t" not_init "\<lambda>_. True" for t
proof unfold_locales
  show "grown t s'" if "ledger s' = ledger s" "grown t s" for s s'
    using that(2) by (rule grown_more[where es = "[]"]) (use ledger_eqD[OF that(1)] in simp)
  show "grown t (pipe_emit MonitorStarted s)" "grown t (pipe_emit (SceneCallback c v) s)"
    "grown t (pipe_emit (BitrateState b (cg_original_bitrate (im_cfg s))) (s\<lparr>im_bitrate := b\<rparr>))"
    if "grown t s" for s c v b
    using that by (auto simp: pipe_emit_def intro: grown_more)
  show "grown t s'" if "vstep es (failures es) s s'" "grown t s" for es s s'
    using that(2) by (rule grown_more) (use that(1) in \<open>simp add: vstep_def\<close>)
  show "grown t (push_metrics fenv s)" if "grown t s" for fenv s
    using that push_metrics_trace[of fenv s] by (auto intro: grown_more)
  show "grown t (snd (leave_system com_ok all_ok s))" if "grown t s" for com_ok all_ok s
    using that by (auto simp: leave_system_def pipe_emit_def Let_def grown_def)
qed (simp_all add: not_init_def)

text \<open>The router part of the invariant is the same for all of them.\<close>

lemma bal_R_iff: "bal.R p = off.R p" "bal.R p = grows.R p"
  by (simp_all add: bal.R_def off.R_def grows.R_def bal.queued_ok_def off.queued_ok_def grows.queued_ok_def)

definition pipe_slots_ok :: "pipe \<Rightarrow> bool" where
  "pipe_slots_ok p \<longleftrightarrow> (case pp_impl p of None \<Rightarrow> True | Some s \<Rightarrow> slots_ok (im_gpu s))"

definition pipe_ok :: "pipe \<Rightarrow> bool" where
  "pipe_ok p \<longleftrightarrow> bal.J p \<and> (if pp_shutdown_done p then off.J p else True) \<and> pipe_slots_ok p"

subsection \<open>The images in the cache\<close>

lemma im_gpu_updates [simp]:
  "im_gpu (reconf_step ans f s) = im_gpu s" "im_gpu (ws_start_stop cmd s) = im_gpu s"
  "im_gpu (snd (impl_start_stream s)) = im_gpu s" "im_gpu (snd (impl_stop_stream s)) = im_gpu s"
  "im_gpu (invoke_scene_cmd cmd v s) = im_gpu s" "im_gpu (push_metrics env s) = im_gpu s"
  "im_gpu (wake_metrics penv s) = im_gpu s"
  by (simp_all add: reconf_step_def ws_start_stop_def impl_start_stream_def impl_stop_stream_def invoke_scene_cmd_def
      push_metrics_def wake_metrics_def Let_def split: prod.split)

lemma im_gpu_commands [simp]:
  "im_gpu (apply_command ans c s) = im_gpu s" "im_gpu (apply_frame_cmd ans fc s) = im_gpu s"
  by (simp_all add: apply_command_def apply_frame_cmd_def change_bitrate_def Let_def)

lemma im_gpu_end_of_frame: "im_gpu (pace_frame env (flush_diag env (push_metrics env s))) = im_gpu s"
  by (simp add: pace_frame_def flush_diag_def Let_def)

lemma im_gpu_audio [simp]: "im_gpu (audio_turns ts s) = im_gpu s"
proof -
  have "im_gpu (fold on_audio_capture as x) = im_gpu x" for as x
    by (induction as arbitrary: x) (simp_all add: on_audio_capture_def)
  then show ?thesis by (simp add: audio_turns_def Let_def split: option.split)
qed

text \<open>The callbacks read the cache after it was filled; nothing in the rest of the frame touches it, so
  what the state holds at the end of the frame is what they saw.\<close>

lemma images_settled: "im_gpu (preview_step env f t mw mh s) = im_gpu s"
proof -
  have "im_gpu (preview_dxgi env mw mh s) = im_gpu s"
    by (simp add: preview_dxgi_def set_dxgi_def split: option.split prod.split bool.split)
  moreover have "im_gpu (preview_wgc env f t x) = im_gpu x" for x
    by (auto simp: preview_wgc_def Let_def split: prod.split option.split)
  ultimately show ?thesis by (simp add: preview_step_def Let_def)
qed

lemma run_frame_shape:
  assumes "run_frame addr env p = Val (b, p')"
  shows "p' = p \<or> (\<exists>s r s1 s2. pp_impl p = Some s \<and> drain_commands env (pp_router p) s = Some (r, s1) \<and>
    capture_encode addr env s1 = Val s2 \<and>
    p' = p\<lparr>pp_impl := Some (pace_frame env (flush_diag env (push_metrics env s2))), pp_router := r\<rparr>)"
  using assms by (auto simp: run_frame_def and_then_Val split: option.splits if_splits)

lemma run_frame_slots:
  assumes "run_frame addr env p = Val (b, p')" "pipe_slots_ok p" "router_ready (pp_router p)"
  shows "pipe_slots_ok p' \<and> pp_shutdown_done p' = pp_shutdown_done p"
  using run_frame_shape[OF assms(1)]
proof (elim disjE exE conjE)
  fix s r s1 s2
  assume s: "pp_impl p = Some s" and d: "drain_commands env (pp_router p) s = Some (r, s1)"
    and c: "capture_encode addr env s1 = Val s2"
    and p': "p' = p\<lparr>pp_impl := Some (pace_frame env (flush_diag env (push_metrics env s2))), pp_router := r\<rparr>"
  have "slots_ok (im_gpu s)" using assms(2) s by (simp add: pipe_slots_ok_def)
  then have "\<exists>r' s'. drain_commands env (pp_router p) s = Some (r', s') \<and> slots_ok (im_gpu s') \<and> router_ready r'
      \<and> cmd_ring_contents (rt_ring r') = [] \<and> rt_on_action r' = rt_on_action (pp_router p)"
    by (intro drain_commands_invariant[where P = "\<lambda>s. slots_ok (im_gpu s)", OF assms(3)]) simp_all
  with d have "slots_ok (im_gpu s1)" by auto
  then have "slots_ok (im_gpu s2)"
    using capture_encode_effect[OF c] unfolding frame_effect_def vstep_def by blast
  then show ?thesis by (simp add: p' pipe_slots_ok_def im_gpu_end_of_frame)
qed (use assms in simp)

lemma wake_actions_impl:
  assumes "bal.R p"
  shows "pp_impl (wake_actions as p) = pp_impl p \<and> pp_shutdown_done (wake_actions as p) = pp_shutdown_done p"
proof (cases "pp_impl p")
  case (Some s)
  let ?r = "pp_router p"
  have "fst (fold action_handler as x) = fst x" for x
    by (induction as arbitrary: x) simp_all
  then have "fst (action_wakeup ?r as (s, rt_ring ?r)) = s"
    using assms by (auto simp: action_wakeup_def bal.R_def)
  then show ?thesis by (auto simp: wake_actions_def Some split: prod.split)
qed (simp add: wake_actions_def)

subsection \<open>What the window and the other threads do to it\<close>

lemma pipe_ok_router: "pipe_ok p \<Longrightarrow> bal.R p \<and> router_ready (pp_router p)"
  by (simp add: pipe_ok_def bal.J_def bal.R_def)

fun running_op :: "pipe_op \<Rightarrow> bool" where
  "running_op (PFrame env) \<longleftrightarrow> True"
| "running_op PStart \<longleftrightarrow> True"
| "running_op PStop \<longleftrightarrow> True"
| "running_op op \<longleftrightarrow> thread_op op"

lemma running_op_keeps:
  assumes "running_op op" "pipe_step addr op p = Val p'" "pipe_ok p"
  shows "pipe_slots_ok p' \<and> pp_shutdown_done p' = pp_shutdown_done p"
proof -
  have same: "pipe_slots_ok (on_impl_state f p) \<and> pp_shutdown_done (on_impl_state f p) = pp_shutdown_done p"
    if "\<And>s. im_gpu (f s) = im_gpu s" for f
    using assms(3) that by (simp add: pipe_ok_def pipe_slots_ok_def on_impl_state_def split: option.splits)
  have call: "pipe_slots_ok (snd (on_impl f p)) \<and> pp_shutdown_done (snd (on_impl f p)) = pp_shutdown_done p"
    if "\<And>s. im_gpu (snd (f s)) = im_gpu s" for f
    using assms(3) that
    by (auto simp: pipe_ok_def pipe_slots_ok_def on_impl_def split: option.splits prod.splits) (metis snd_conv)
  show ?thesis
  proof (cases op)
    case (PFrame env)
    then obtain b where "run_frame addr env p = Val (b, p')"
      using assms(2) by (auto simp: result_of_def and_then_Val)
    then show ?thesis using run_frame_slots pipe_ok_router[OF assms(3)] assms(3) by (simp add: pipe_ok_def)
  next
    case (PActions as)
    then show ?thesis
      using wake_actions_impl[of p as] pipe_ok_router[OF assms(3)] assms(2,3)
      by (auto simp: pipe_ok_def pipe_slots_ok_def)
  next
    case (PAudio ts)
    then show ?thesis using assms(2) same[of "audio_turns ts"] by auto
  next
    case (PPoll env)
    then show ?thesis using assms(2) same[of "wake_metrics env"] by auto
  next
    case PStart
    then show ?thesis using assms(2) call[of impl_start_stream] by (auto simp: start_stream_def)
  next
    case PStop
    then show ?thesis using assms(2) call[of impl_stop_stream] by (auto simp: stop_stream_def)
  qed (use assms(1) in simp_all)
qed

lemma running_not_init: "running_op op \<Longrightarrow> not_init op"
  by (cases op) (simp_all add: not_init_def)

lemma pipe_ok_step:
  assumes "running_op op" "pipe_step addr op p = Val p'" "pipe_ok p"
  shows "pipe_ok p'"
proof -
  have "bal.J p'" using bal.J_step[OF _ running_not_init[OF assms(1)] assms(2)] assms(3) by (simp add: pipe_ok_def)
  moreover have "off.J p'" if "off.J p"
    by (rule off.J_step[OF that running_not_init[OF assms(1)] assms(2)])
  ultimately show ?thesis
    using running_op_keeps[OF assms] assms(3) by (simp add: pipe_ok_def split: if_splits)
qed

text \<open>Its trace grows by the new events.\<close>

lemma events_grow:
  assumes "running_op op" "pipe_step addr op p = Val p'" "pipe_ok p"
  shows "events_of p' = events_of p @ new_events p p'"
proof -
  obtain s where s: "pp_impl p = Some s" "bal.R p" using assms(3) by (auto simp: pipe_ok_def bal.J_def)
  have "pipe_ledger.J (grown (im_trace s)) (\<lambda>_. True) p"
    using s bal_R_iff(2)[of p] by (simp add: grows.J_def grown_def)
  from grows.J_step[OF this running_not_init[OF assms(1)] assms(2)]
  obtain s' es where "pp_impl p' = Some s'" "im_trace s' = im_trace s @ es"
    by (auto simp: grows.J_def grown_def)
  with s show ?thesis by (simp add: new_events_def events_of_def)
qed

lemma new_events_trans:
  assumes "events_of q = events_of p @ new_events p q" "events_of r = events_of q @ new_events q r"
  shows "events_of r = events_of p @ new_events p r" "new_events p r = new_events p q @ new_events q r"
proof -
  have "events_of r = events_of p @ new_events p q @ new_events q r"
    using assms by (metis append_assoc)
  then show "new_events p r = new_events p q @ new_events q r" "events_of r = events_of p @ new_events p r"
    by (simp_all add: new_events_def[of p r])
qed

lemma new_events_refl [simp]: "new_events p p = []"
  by (simp add: new_events_def)

text \<open>Of the inputs of the window only the stream buttons reach the pipeline.\<close>

lemma window_step_pipe:
  assumes "from_outside x \<or> (\<exists>cmd param. x = WCommand cmd param)"
  shows "mw_pipe (window_step number valid resource x w) = mw_pipe w \<or>
    pipe_step addr PStart (mw_pipe w) = Val (mw_pipe (window_step number valid resource x w)) \<or>
    pipe_step addr PStop (mw_pipe w) = Val (mw_pipe (window_step number valid resource x w))"
proof (cases x)
  case WStart
  then show ?thesis
    by (auto simp: window_step_def startStream_def tell_def split: prod.split bool.split)
next
  case WStop
  then show ?thesis by (auto simp: window_step_def stopStream_def tell_def)
next
  case (WSuggest env)
  obtain r b where "suggest_timer valid resource env w = w\<lparr>mw_rules := r, mw_suggest_due := b\<rparr>"
    using suggest_timer_fields by blast
  then show ?thesis by (simp add: WSuggest window_step_def)
next
  case (WOverlay o')
  then show ?thesis by (simp add: window_step_def overlay_input_window_def Let_def split: overlay_input.split)
next
  case (WHealing ty obj)
  then show ?thesis by (simp add: window_step_def postHealingEventFromRust_def split: option.split)
next
  case (WCommand cmd param)
  then show ?thesis
    by (simp add: window_step_def scene_command_def onCutTransition_def onFadeTransition_def switch_event_def
        tell_def Let_def)
qed (use assms in \<open>auto simp: window_step_def addScene_def removeScene_def rename_scene_def drag_scene_def
    scene_activated_def onCutTransition_def onFadeTransition_def switch_event_def pushSceneNamesToRust_def
    tell_def settings_ok_def onOkClicked_def healing_mode_changed_def notifyHealingSettingsSaved_def
    onSettingsClicked_def ready_timer_def pollMetrics_def closeEvent_def stopFrameThread_def saveWindowState_def
    Let_def split: option.split\<close>)

text \<open>Of the program monitor it only makes legal moves.\<close>

lemma program_owns_transition: "program_owns p \<Longrightarrow> program_owns (beginTransition ty ms p)"
  using program_owns_step[of p "PgTransition ty ms"] by (simp add: program_step_def)

lemma window_step_program:
  assumes "program_owns (mw_program w)"
  shows "program_owns (mw_program (window_step number valid resource x w))"
proof (cases x)
  case (WSuggest env)
  obtain r b where "suggest_timer valid resource env w = w\<lparr>mw_rules := r, mw_suggest_due := b\<rparr>"
    using suggest_timer_fields by blast
  then show ?thesis using assms by (simp add: WSuggest window_step_def)
next
  case (WOverlay o')
  then show ?thesis using assms
    by (simp add: window_step_def overlay_input_window_def Let_def split: overlay_input.split)
next
  case (WHealing ty obj)
  then show ?thesis using assms by (simp add: window_step_def postHealingEventFromRust_def split: option.split)
next
  case (WCommand cmd param)
  then show ?thesis using assms
    by (simp add: window_step_def scene_command_def onCutTransition_def onFadeTransition_def switch_event_def
        tell_def program_owns_transition Let_def)
qed (use assms in \<open>auto simp: window_step_def addScene_def removeScene_def rename_scene_def drag_scene_def
    scene_activated_def onCutTransition_def onFadeTransition_def switch_event_def pushSceneNamesToRust_def
    tell_def settings_ok_def onOkClicked_def healing_mode_changed_def notifyHealingSettingsSaved_def
    onSettingsClicked_def ready_timer_def pollMetrics_def closeEvent_def stopFrameThread_def saveWindowState_def
    startStream_def stopStream_def program_owns_transition program_owns_step
    Let_def split: option.split prod.split bool.split\<close>)

section \<open>What a frame hands over\<close>

definition handed :: "(vk_handle \<times> vk_handle \<times> u32) option \<Rightarrow> bytes \<times> int \<Rightarrow> pipe_event list \<Rightarrow> preview_input list" where
  "handed images px es = concat (map (\<lambda>e. case e of
       InteropCallback w h \<Rightarrow> (case images of None \<Rightarrow> [] | Some (staging, target, slot) \<Rightarrow> [FrameIn staging target w h slot])
     | PreviewCallback w h \<Rightarrow> [PixelsIn (fst px) (sint w) (sint h) (snd px)]
     | _ \<Rightarrow> []) es)"

definition shown :: "bytes \<times> int \<Rightarrow> pipe_event list \<Rightarrow> window_input list" where
  "shown px es = concat (map (\<lambda>e. case e of
       PreviewCallback w h \<Rightarrow> [WProgram (PgFrame (fst px) (sint w) (sint h) (snd px))] | _ \<Rightarrow> []) es)"

definition scenes_of :: "pipe_event list \<Rightarrow> (int \<times> u32) list" where
  "scenes_of es = concat (map (\<lambda>e. case e of SceneCallback cmd param \<Rightarrow> [(cmd, param)] | _ \<Rightarrow> []) es)"

definition commands_in :: "window_input list \<Rightarrow> (int \<times> u32) list" where
  "commands_in ws = concat (map (\<lambda>x. case x of WCommand cmd param \<Rightarrow> [(cmd, param)] | _ \<Rightarrow> []) ws)"

lemma lists_append:
  "scenes_of (xs @ ys) = scenes_of xs @ scenes_of ys" "commands_in (vs @ ws) = commands_in vs @ commands_in ws"
  "scenes_of [] = []" "commands_in [] = []"
  by (simp_all add: scenes_of_def commands_in_def)

lemma commands_in_shown: "commands_in (shown px es) = []"
  by (induction es) (auto simp: commands_in_def shown_def split: pipe_event.split)

lemma handed_in_pool:
  assumes "case images of None \<Rightarrow> True | Some (staging, target, slot) \<Rightarrow> slot < 3"
  shows "list_all input_in_pool (handed images px es)"
  using assms by (induction es) (auto simp: handed_def split: pipe_event.split option.split)

lemma window_run_append:
  "window_run number valid resource (xs @ ys) w = window_run number valid resource ys (window_run number valid resource xs w)"
  by (simp add: window_run_def)

lemma deliver_all:
  "fold (deliver images px) es s =
     s\<lparr>st_window := window_run number valid resource (shown px es) (st_window s),
       st_preview := preview_run (handed images px es) (st_preview s),
       st_queue := st_queue s @ scenes_of es\<rparr>"
proof (induction es arbitrary: s)
  case Nil
  then show ?case by (simp add: shown_def handed_def scenes_of_def preview_run_def)
next
  case (Cons e es)
  have r: "preview_run (xs @ ys) p = preview_run ys (preview_run xs p)" for xs ys p
    by (simp add: preview_run_def)
  have one: "deliver images px e s =
     s\<lparr>st_window := window_run number valid resource (shown px [e]) (st_window s),
       st_preview := preview_run (handed images px [e]) (st_preview s),
       st_queue := st_queue s @ scenes_of [e]\<rparr>"
    by (cases e) (auto simp: shown_def handed_def scenes_of_def preview_run_def window_step_def
        split: option.split)
  have app: "shown px (e # es) = shown px [e] @ shown px es"
    "handed images px (e # es) = handed images px [e] @ handed images px es"
    "scenes_of (e # es) = scenes_of [e] @ scenes_of es"
    by (simp_all add: shown_def handed_def scenes_of_def)
  show ?case unfolding app r window_run_append fold_simps Cons.IH one by simp
qed

section \<open>The invariant\<close>

text \<open>Who has the optimizer, and that its account of handles is right.\<close>

fun optimizer_account :: "(copy_opt \<times> vk_call list) option \<Rightarrow> bool \<Rightarrow> copy_opt \<times> vk_call list \<Rightarrow> bool" where
  "optimizer_account (Some opt) ready mine \<longleftrightarrow> ready \<and> copy_owns opt"
| "optimizer_account None ready mine \<longleftrightarrow> \<not> ready \<and> copy_live (snd mine) = {#}"

definition optimizer_ok :: "studio \<Rightarrow> bool" where
  "optimizer_ok s \<longleftrightarrow> optimizer_account (pv_opt (st_preview s)) (st_optimizer_ready s) (st_optimizer s)"

text \<open>\<open>full\<close> says that the driver has everything the preview asks for and the device made what the
  optimizer asked for; without that nothing is claimed of these two.\<close>

definition studio_ok :: "bool \<Rightarrow> studio \<Rightarrow> bool" where
  "studio_ok full s \<longleftrightarrow> pipe_ok (mw_pipe (st_window s)) \<and> program_owns (mw_program (st_window s)) \<and>
     (full \<longrightarrow> preview_ok (st_preview s) \<and> optimizer_ok s)"

lemma optimizer_ok_preview:
  assumes "by_copy_steps (st_preview s) p" "optimizer_ok s"
  shows "optimizer_ok (s\<lparr>st_preview := p\<rparr>)"
proof -
  obtain ops where q: "pv_opt p = map_option (fold copy_step ops) (pv_opt (st_preview s))"
    using assms(1) by (auto simp: by_copy_steps_def)
  have "copy_owns st \<Longrightarrow> copy_owns (fold copy_step ops st)" for st
    by (induction ops arbitrary: st) (simp_all add: copy_step_owns)
  then show ?thesis using assms(2) by (cases "pv_opt (st_preview s)") (auto simp: optimizer_ok_def q)
qed

lemma preview_run_copies: "by_copy_steps p (preview_run ins p)"
proof (induction ins arbitrary: p)
  case (Cons x ins)
  show ?case
    using by_copy_steps_trans[OF preview_step_copies Cons.IH, of p x] by (simp add: preview_run_def)
qed (simp add: preview_run_def by_copy_steps_same)

lemma last_images_in_pool:
  assumes "pipe_ok p"
  shows "case last_frame_images p of None \<Rightarrow> True | Some (staging, target, slot) \<Rightarrow> slot < 3"
proof (cases "last_frame_images p")
  case (Some y)
  obtain a b i where y: "y = (a, b, i)" by (rule prod_cases3)
  obtain s where "pp_impl p = Some s" "get_last_frame_images (im_gpu s) = Some (a, b, i)"
    using Some y by (auto simp: last_frame_images_def split: option.splits)
  then have "i < POOL_SIZE" using assms slots_ok_last by (auto simp: pipe_ok_def pipe_slots_ok_def)
  then show ?thesis by (simp add: Some y POOL_SIZE_def)
qed simp

lemma frame_turn_Val:
  assumes "frame_turn addr env w = Val w'"
  shows "w' = w\<lparr>mw_pipe := mw_pipe w'\<rparr> \<and>
    (w' = w \<or> pipe_step addr (PFrame env) (mw_pipe w) = Val (mw_pipe w'))"
  using assms by (auto simp: frame_turn_def and_then_Val result_of_def split: if_splits)

text \<open>A move of the studio, seen by its parts: the window makes a run of its own machine, whose commands
  are taken from the front of the queue; the pipeline's new events refill the queue.\<close>

definition fair_move ::
  "bool \<Rightarrow> (nat \<Rightarrow> string) \<Rightarrow> (string \<Rightarrow> bool) \<Rightarrow> (profile_id \<Rightarrow> string) \<Rightarrow> studio \<Rightarrow> studio \<Rightarrow> bool" where
  "fair_move k number valid resource s s' \<longleftrightarrow> studio_ok k s' \<and>
     events_of (mw_pipe (st_window s')) =
       events_of (mw_pipe (st_window s)) @ new_events (mw_pipe (st_window s)) (mw_pipe (st_window s')) \<and>
     (\<exists>ws. st_window s' = window_run number valid resource ws (st_window s) \<and>
       commands_in ws @ st_queue s' =
         st_queue s @ scenes_of (new_events (mw_pipe (st_window s)) (mw_pipe (st_window s'))))"

lemma fair_moveI:
  assumes "studio_ok k s'" "st_window s' = window_run number valid resource ws (st_window s)"
    "events_of (mw_pipe (st_window s')) =
       events_of (mw_pipe (st_window s)) @ new_events (mw_pipe (st_window s)) (mw_pipe (st_window s'))"
    "commands_in ws @ st_queue s' =
       st_queue s @ scenes_of (new_events (mw_pipe (st_window s)) (mw_pipe (st_window s')))"
  shows "fair_move k number valid resource s s'"
  unfolding fair_move_def using assms by blast

lemma window_run_one: "window_run number valid resource [x] w = window_step number valid resource x w"
  by (simp add: window_run_def)

lemma fair_refl: "studio_ok k s \<Longrightarrow> fair_move k number valid resource s s"
  by (rule fair_moveI[where ws = "[]"]) (simp_all add: window_run_def lists_append)

lemma fair_trans:
  assumes "fair_move k number valid resource s s'" "fair_move k number valid resource s' s''"
  shows "fair_move k number valid resource s s''"
proof -
  obtain vs ws where v: "st_window s' = window_run number valid resource vs (st_window s)"
      "commands_in vs @ st_queue s' = st_queue s @ scenes_of (new_events (mw_pipe (st_window s)) (mw_pipe (st_window s')))"
    and w: "st_window s'' = window_run number valid resource ws (st_window s')"
      "commands_in ws @ st_queue s'' = st_queue s' @ scenes_of (new_events (mw_pipe (st_window s')) (mw_pipe (st_window s'')))"
    using assms unfolding fair_move_def by blast
  have e: "events_of (mw_pipe (st_window s')) =
       events_of (mw_pipe (st_window s)) @ new_events (mw_pipe (st_window s)) (mw_pipe (st_window s'))"
    "events_of (mw_pipe (st_window s'')) =
       events_of (mw_pipe (st_window s')) @ new_events (mw_pipe (st_window s')) (mw_pipe (st_window s''))"
    using assms unfolding fair_move_def by blast+
  note n = new_events_trans[OF e]
  show ?thesis
  proof (rule fair_moveI[where ws = "vs @ ws"])
    show "studio_ok k s''" using assms(2) by (simp add: fair_move_def)
    show "st_window s'' = window_run number valid resource (vs @ ws) (st_window s)"
      using v w by (simp add: window_run_append)
    show "commands_in (vs @ ws) @ st_queue s'' =
       st_queue s @ scenes_of (new_events (mw_pipe (st_window s)) (mw_pipe (st_window s'')))"
      unfolding n(2) lists_append append_assoc w(2) using v(2) by (metis append_assoc)
  qed (rule n(1))
qed

lemma stream_ops_quiet:
  assumes "op = PStart \<or> op = PStop" "pipe_step addr op p = Val q"
  shows "new_events p q = []"
proof -
  have a: "im_trace (snd (impl_start_stream x)) = im_trace x" "im_trace (snd (impl_stop_stream x)) = im_trace x" for x
    by (simp_all add: impl_start_stream_def impl_stop_stream_def Let_def)
  have b: "events_of (snd (on_impl f p)) = events_of p" if "\<And>x. im_trace (snd (f x)) = im_trace x" for f
  proof (cases "pp_impl p")
    case (Some s)
    obtain r s1 where f: "f s = (r, s1)" by (rule prod.exhaust)
    then show ?thesis using that[of s] Some by (simp add: events_of_def on_impl_def)
  qed (simp add: events_of_def on_impl_def)
  from assms have "events_of q = events_of p"
    by (auto simp: start_stream_def stop_stream_def b[OF a(1)] b[OF a(2)])
  then show ?thesis by (simp add: new_events_def)
qed

lemma window_part:
  assumes "from_outside x \<or> (\<exists>cmd param. x = WCommand cmd param)" "pipe_ok (mw_pipe w)"
    and w': "w' = window_step number valid resource x w"
  shows "pipe_ok (mw_pipe w')" "new_events (mw_pipe w) (mw_pipe w') = []"
    "events_of (mw_pipe w') = events_of (mw_pipe w) @ new_events (mw_pipe w) (mw_pipe w')"
proof -
  from window_step_pipe[OF assms(1), of number valid resource w undefined, folded w']
  have "mw_pipe w' = mw_pipe w \<or> (\<exists>op. (op = PStart \<or> op = PStop) \<and> pipe_step undefined op (mw_pipe w) = Val (mw_pipe w'))"
    by blast
  then have "pipe_ok (mw_pipe w') \<and> new_events (mw_pipe w) (mw_pipe w') = [] \<and>
    events_of (mw_pipe w') = events_of (mw_pipe w) @ new_events (mw_pipe w) (mw_pipe w')"
  proof (elim disjE exE conjE)
    assume "mw_pipe w' = mw_pipe w"
    then show ?thesis using assms(2) by simp
  next
    fix op assume op: "pipe_step undefined op (mw_pipe w) = Val (mw_pipe w')" and o: "op = PStart"
    then have "running_op op" by simp
    from pipe_ok_step[OF this op assms(2)] events_grow[OF this op assms(2)] stream_ops_quiet[OF _ op] o
    show ?thesis by blast
  next
    fix op assume op: "pipe_step undefined op (mw_pipe w) = Val (mw_pipe w')" and o: "op = PStop"
    then have "running_op op" by simp
    from pipe_ok_step[OF this op assms(2)] events_grow[OF this op assms(2)] stream_ops_quiet[OF _ op] o
    show ?thesis by blast
  qed
  then show "pipe_ok (mw_pipe w')" "new_events (mw_pipe w) (mw_pipe w') = []"
    "events_of (mw_pipe w') = events_of (mw_pipe w) @ new_events (mw_pipe w) (mw_pipe w')" by blast+
qed

lemma studio_okD:
  assumes "studio_ok k s"
  shows "pipe_ok (mw_pipe (st_window s))" "program_owns (mw_program (st_window s))"
    "k \<Longrightarrow> preview_ok (st_preview s)" "k \<Longrightarrow> optimizer_ok s"
  using assms by (simp_all add: studio_ok_def)

lemma fair_window:
  assumes "studio_ok k s" "from_outside x \<or> (\<exists>cmd param. x = WCommand cmd param)"
    and q: "commands_in [x] @ q = st_queue s"
  shows "fair_move k number valid resource s (s\<lparr>st_queue := q, st_window := window_step number valid resource x (st_window s)\<rparr>)"
proof -
  define w where "w = window_step number valid resource x (st_window s)"
  note p = window_part[OF assms(2) studio_okD(1)[OF assms(1)] w_def]
  have "program_owns (mw_program w)" unfolding w_def by (rule window_step_program[OF studio_okD(2)[OF assms(1)]])
  then have "studio_ok k (s\<lparr>st_queue := q, st_window := w\<rparr>)"
    using p(1) assms(1) by (simp add: studio_ok_def optimizer_ok_def)
  then show ?thesis unfolding w_def[symmetric]
    by (rule fair_moveI[where ws = "[x]"]) (use p q in \<open>simp_all add: window_run_one w_def lists_append\<close>)
qed

lemma fair_paint:
  assumes "studio_ok k s"
  shows "fair_move k number valid resource s (s\<lparr>st_preview := preview_input_step (PaintNow env) (st_preview s)\<rparr>)"
proof -
  define q where "q = preview_input_step (PaintNow env) (st_preview s)"
  have "preview_ok q" if k
    unfolding q_def by (rule preview_step_ok[OF studio_okD(3)[OF assms that]]) simp
  moreover have "optimizer_ok (s\<lparr>st_preview := q\<rparr>)" if k
    unfolding q_def by (rule optimizer_ok_preview[OF preview_step_copies studio_okD(4)[OF assms that]])
  ultimately have "studio_ok k (s\<lparr>st_preview := q\<rparr>)" using assms by (simp add: studio_ok_def)
  then show ?thesis unfolding q_def[symmetric]
    by (rule fair_moveI[where ws = "[]"]) (simp_all add: window_run_def lists_append)
qed

lemma thread_op_quiet:
  assumes "thread_op op" "pipe_step addr op p = Val p'" "pipe_ok p"
  shows "events_of p' = events_of p"
proof (cases op)
  case (PActions as)
  then show ?thesis using assms(2) wake_actions_impl[of p as] pipe_ok_router[OF assms(3)] by (auto simp: events_of_def)
next
  case (PAudio ts)
  then show ?thesis using assms(2) ledger_eqD(1)[OF ledger_audio_turns]
    by (auto simp: events_of_def on_impl_state_def split: option.split)
next
  case (PPoll env)
  then show ?thesis using assms(2) ledger_eqD(1)[OF ledger_wake_metrics]
    by (auto simp: events_of_def on_impl_state_def split: option.split)
qed (use assms(1) in simp_all)

lemma fair_thread:
  assumes "studio_ok k s" "thread_op op" "pipe_step addr op (mw_pipe (st_window s)) = Val p'"
  shows "fair_move k number valid resource s (s\<lparr>st_window := (st_window s)\<lparr>mw_pipe := p'\<rparr>\<rparr>)"
proof -
  have r: "running_op op" using assms(2) by (cases op) simp_all
  have "pipe_ok p'" by (rule pipe_ok_step[OF r assms(3) studio_okD(1)[OF assms(1)]])
  then have ok: "studio_ok k (s\<lparr>st_window := (st_window s)\<lparr>mw_pipe := p'\<rparr>\<rparr>)"
    using assms(1) by (simp add: studio_ok_def optimizer_ok_def)
  have "new_events (mw_pipe (st_window s)) p' = []"
    using thread_op_quiet[OF assms(2,3) studio_okD(1)[OF assms(1)]] by (simp add: new_events_def)
  with ok show ?thesis
    by (intro fair_moveI[where ws = "[WPipe p']"])
      (use thread_op_quiet[OF assms(2,3) studio_okD(1)[OF assms(1)]] in
        \<open>simp_all add: window_run_one window_step_def commands_in_def scenes_of_def\<close>)
qed

lemma shown_run:
  assumes "program_owns (mw_program v)"
  shows "mw_pipe (window_run number valid resource (shown px es) v) = mw_pipe v \<and>
    program_owns (mw_program (window_run number valid resource (shown px es) v))"
  using assms
proof (induction es arbitrary: v)
  case (Cons e es)
  have sh: "shown px (e # es) = shown px [e] @ shown px es" by (simp add: shown_def)
  have "mw_pipe (window_run number valid resource (shown px [e]) v) = mw_pipe v \<and>
      program_owns (mw_program (window_run number valid resource (shown px [e]) v))"
    using Cons.prems by (cases e) (simp_all add: shown_def window_run_def window_step_def program_owns_step)
  then show ?case unfolding sh window_run_append using Cons.IH by simp
qed (simp add: shown_def window_run_def)

lemma fair_frame:
  assumes "studio_ok k s" "studio_frame addr env px s = Val s'"
  shows "fair_move k number valid resource s s'"
proof -
  let ?p = "mw_pipe (st_window s)"
  note inv = studio_okD[OF assms(1)]
  obtain w where w: "frame_turn addr env (st_window s) = Val w"
    and s': "s' = fold (deliver (last_frame_images (mw_pipe w)) px) (new_events ?p (mw_pipe w)) (s\<lparr>st_window := w\<rparr>)"
    using assms(2) by (auto simp: studio_frame_def and_then_Val)
  note f = frame_turn_Val[OF w]
  have eq: "w = (st_window s)\<lparr>mw_pipe := mw_pipe w\<rparr>" using f by blast
  have r: "running_op (PFrame env)" by simp
  have p: "pipe_ok (mw_pipe w) \<and> events_of (mw_pipe w) = events_of ?p @ new_events ?p (mw_pipe w)"
    using conjunct2[OF f]
  proof
    assume "w = st_window s" then show ?thesis using inv(1) by simp
  next
    assume "pipe_step addr (PFrame env) ?p = Val (mw_pipe w)"
    from pipe_ok_step[OF r this inv(1)] events_grow[OF r this inv(1)] show ?thesis by blast
  qed
  define es im where "es = new_events ?p (mw_pipe w)" and "im = last_frame_images (mw_pipe w)"
  define v where "v = window_run number valid resource (shown px es) w"
  define pv where "pv = preview_run (handed im px es) (st_preview s)"
  have s': "s' = s\<lparr>st_window := v, st_preview := pv, st_queue := st_queue s @ scenes_of es\<rparr>"
    unfolding s' deliver_all[where number = number and valid = valid and resource = resource] v_def pv_def es_def im_def
    by simp
  have "program_owns (mw_program w)" using inv(2) arg_cong[where f = mw_program, OF eq] by simp
  from shown_run[OF this, of number valid resource px es]
  have m: "mw_pipe v = mw_pipe w" "program_owns (mw_program v)" by (simp_all add: v_def)
  have "preview_ok pv" if k unfolding pv_def im_def
    by (rule preview_run_ok[OF inv(3)[OF that] handed_in_pool[OF last_images_in_pool[OF conjunct1[OF p]]]])
  moreover have "optimizer_ok s'" if k
    using optimizer_ok_preview[OF preview_run_copies inv(4)[OF that], of "handed im px es"]
    by (simp add: s' pv_def optimizer_ok_def)
  ultimately have ok: "studio_ok k s'" using p m by (simp add: s' studio_ok_def)
  have one: "v = window_run number valid resource (WPipe (mw_pipe w) # shown px es) (st_window s)"
    using eq by (simp add: v_def window_run_def window_step_def)
  have "commands_in (WPipe (mw_pipe w) # shown px es) = []"
    using commands_in_shown[of px es] by (simp add: commands_in_def)
  moreover have "st_window s' = v" by (simp add: s')
  note this[unfolded one]
  ultimately show ?thesis using p m
    by (intro fair_moveI[OF ok, where ws = "WPipe (mw_pipe w) # shown px es"]) (simp_all add: s' es_def)
qed

lemma studio_step_fair:
  assumes "studio_step number valid resource addr i s = Val s'" "studio_ok k s"
  shows "fair_move k number valid resource s s'"
proof (cases i)
  case (SWindow x)
  show ?thesis
  proof (cases "from_outside x")
    case True
    then have "commands_in [x] = []" by (cases x) (simp_all add: commands_in_def)
    moreover have "s' = s\<lparr>st_queue := st_queue s, st_window := window_step number valid resource x (st_window s)\<rparr>"
      using assms(1) SWindow True by (simp add: studio_step_def)
    ultimately show ?thesis using fair_window[OF assms(2) disjI1[OF True], of "st_queue s"] by simp
  qed (use assms SWindow in \<open>simp add: studio_step_def fair_refl\<close>)
next
  case (SFrame env px)
  then show ?thesis using assms by (auto simp: studio_step_def intro: fair_frame)
next
  case (SPaint env)
  then show ?thesis using assms(1) fair_paint[OF assms(2)] by (auto simp: studio_step_def simp del: preview_input_step.simps)
next
  case SCommand
  show ?thesis
  proof (cases "st_queue s")
    case Nil
    then show ?thesis using assms SCommand by (simp add: studio_step_def take_command_def fair_refl)
  next
    case (Cons c q)
    obtain cmd param where c: "c = (cmd, param)" by (rule prod.exhaust)
    have "commands_in [WCommand cmd param] @ q = st_queue s" by (simp add: Cons c commands_in_def)
    from fair_window[OF assms(2) _ this] assms(1) SCommand Cons c show ?thesis
      by (auto simp: studio_step_def take_command_def)
  qed
next
  case (SThread op)
  show ?thesis
  proof (cases "thread_op op")
    case True
    then obtain p' where "pipe_step addr op (mw_pipe (st_window s)) = Val p'"
      "s' = s\<lparr>st_window := (st_window s)\<lparr>mw_pipe := p'\<rparr>\<rparr>"
      using assms(1) SThread by (auto simp: studio_step_def and_then_Val)
    then show ?thesis using fair_thread[OF assms(2) True] by simp
  qed (use assms SThread in \<open>simp add: studio_step_def fair_refl\<close>)
qed

lemma studio_run_fair:
  assumes "studio_run number valid resource addr is s = Val s'" "studio_ok k s"
  shows "fair_move k number valid resource s s'"
  using assms
proof (induction "is" arbitrary: s)
  case Nil
  then show ?case by (simp add: fair_refl)
next
  case (Cons i "is")
  obtain s1 where 1: "studio_step number valid resource addr i s = Val s1"
    "studio_run number valid resource addr is s1 = Val s'"
    using Cons.prems(1) by (auto simp: and_then_Val)
  note f = studio_step_fair[OF 1(1) Cons.prems(2)]
  have "studio_ok k s1" using f by (simp add: fair_move_def)
  from fair_trans[OF f Cons.IH[OF 1(2) this]] show ?case .
qed

section \<open>The pipeline at the start and at the end\<close>

lemma bal_J_I:
  assumes "bal.R p" "pp_impl p = Some s" "balanced s"
  shows "bal.J p"
  using assms by (simp add: bal.J_def)

lemma im_gpu_parts [simp]:
  "im_gpu (set_dxgi d s) = im_gpu s" "im_gpu (audio_shutdown s) = im_gpu s" "im_gpu (set_source st s) = im_gpu s"
  "im_gpu (snd (leave_system c a s)) = im_gpu s" "im_gpu (on_source_dxgi f s) = im_gpu s"
  by (simp_all add: set_dxgi_def audio_shutdown_def set_source_def leave_system_def pipe_emit_def on_source_dxgi_def
      Let_def split: option.split prod.split)

lemma shutdown_rest_slots: "slots_ok (im_gpu (snd (shutdown_rest env a x)))"
proof -
  have i: "slots_ok (fst (interop_shutdown st))" for st by (cases st) simp
  have l: "im_gpu (snd (case leave_system c b y of (ok, s) \<Rightarrow> (ok, s\<lparr>im_initialized := False\<rparr>))) = im_gpu y" for c b y
    using im_gpu_parts(4)[of c b y] by (cases "leave_system c b y") simp
  have o: "slots_ok (im_gpu (snd (case interop_shutdown st of (g, tr) \<Rightarrow>
      (case leave_system c b (y\<lparr>im_gpu := g, im_ext := tr\<rparr>) of (ok, s) \<Rightarrow> (ok, s\<lparr>im_initialized := False\<rparr>)))))" for st c b y
    using i[of st] by (cases "interop_shutdown st") (simp only: prod.case l, simp)
  show ?thesis unfolding shutdown_rest_def Let_def by (rule o)
qed

lemma pipe_shutdown_ok:
  assumes "pipe_shutdown env p = Val (b, p')" "pipe_ok p"
  shows "pipe_ok p' \<and> off.J p'"
proof -
  have J: "bal.J p" using assms(2) by (simp add: pipe_ok_def)
  then obtain s where s: "pp_impl p = Some s" by (auto simp: bal.J_def)
  show ?thesis
  proof (cases "pp_shutdown_done p")
    case True
    then have "p' = p" using assms(1) s by (simp add: pipe_shutdown_def)
    then show ?thesis using assms(2) True by (simp add: pipe_ok_def)
  next
    case False
    then obtain s' where d: "shutdown_body env s = Val (b, s')"
      and p': "p' = p\<lparr>pp_impl := Some s', pp_router := router_stop (pp_router p), pp_shutdown_done := True\<rparr>"
      using assms(1) s by (auto simp: pipe_shutdown_def and_then_Val)
    have J': "bal.J p'" by (rule bal.J_shutdown[OF J assms(1)])
    from shutdown_body_steps[OF d] obtain s1 a where
      "ledger s' = ledger (snd (leave_system (sd_com_ok env) a s1))" by blast
    moreover have "system_left (snd (leave_system (sd_com_ok env) a s1))"
      by (simp add: leave_system_def system_left_def Let_def pipe_emit_def)
    ultimately have "system_left s'" using off.same by blast
    then have o: "off.J p'" using J' bal_R_iff(1)[of p'] by (simp add: off.J_def bal.J_def p')
    obtain a x where "shutdown_rest env a x = (b, s')"
      using d by (auto simp: shutdown_body_def Let_def and_then_Val split: prod.splits)
    then have "slots_ok (im_gpu s')" using shutdown_rest_slots[of env a x] by simp
    then show ?thesis using J' o by (simp add: pipe_ok_def pipe_slots_ok_def p')
  qed
qed

lemma im_gpu_start [simp]:
  "im_gpu (snd (enter_system env s)) = im_gpu s" "im_gpu (begin_init cfg env s) = im_gpu s"
  "im_gpu (snd (init_pacer cfg env s)) = im_gpu s" "im_gpu (snd (init_source env s)) = im_gpu s"
  "im_gpu (learn_dimensions env s) = im_gpu s" "im_gpu (init_encoder_for cfg env s) = im_gpu s"
  "im_gpu (init_output cfg env s) = im_gpu s" "im_gpu (init_audio cfg env s) = im_gpu s"
  "im_gpu (init_preview env s) = im_gpu s"
  by (simp_all add: enter_system_def begin_init_def init_pacer_def init_source_def learn_dimensions_def
      init_encoder_for_def init_output_def init_audio_def audio_init_def init_preview_def pipe_emit_def Let_def
      split: prod.split option.split)

lemma slots_ok_subsystems:
  assumes "slots_ok (im_gpu s)"
  shows "slots_ok (im_gpu (init_subsystems cfg env s))"
proof -
  have "slots_ok (im_gpu (init_interop env x))" if "slots_ok (im_gpu x)" for x
  proof -
    have "slots_ok (fst (snd (interop_init st)))" if "slots_ok (fst st)" for st
      using slots_ok_calls(1)[of "fst st" "snd st"] that by simp
    then have "slots_ok a" if "interop_init (im_gpu y, tr) = (ok, a, b)" "slots_ok (im_gpu y)" for y tr ok a b
      using that by (metis fst_conv snd_conv)
    then show ?thesis using that im_gpu_parts(1)
      unfolding init_interop_def Let_def by (fastforce split: option.split prod.split)
  qed
  then show ?thesis using assms by (simp add: init_subsystems_def Let_def pipe_emit_def)
qed

lemma im_gpu_new: "slots_ok (im_gpu (impl_new n))" "balanced (impl_new n)"
  by (simp_all add: impl_new_def balanced_def)

lemma pipe_init_ok:
  assumes "pipe_init cfg env pipe_new = Val (b, p)"
  shows "pipe_ok p"
proof -
  let ?i = "impl_new (ie_ncpus env)"
  define p0 where "p0 = pipe_new\<lparr>pp_impl := Some ?i, pp_router := router_new\<rparr>"
  define q where "q = p0\<lparr>pp_profiler := True\<rparr>"
  have R: "bal.R p0" "bal.R q" "\<not> pp_shutdown_done q"
    using cmd_ring_inv_init
    by (simp_all add: p0_def q_def bal.R_def router_ready_def router_new_def bal.queued_ok_def cmd_ring_contents_init
        pipe_new_def)
  have Rq: "bal.R (q\<lparr>pp_impl := x\<rparr>)" for x using R(2) by (simp add: bal.R_def)
  have e0: "ensure_impl (ie_ncpus env) pipe_new = (p0, ?i)" by (simp add: ensure_impl_def pipe_new_def p0_def)
  show ?thesis
  proof (cases "cg_fps cfg = 0")
    case True
    then have "p = p0" using assms e0 by (simp add: pipe_init_def impl_new_def)
    then show ?thesis using bal_J_I[OF R(1), of ?i] im_gpu_new
      by (simp add: pipe_ok_def pipe_slots_ok_def p0_def pipe_new_def)
  next
    case False
    obtain ok1 s1 where e: "enter_system env (begin_init cfg env ?i) = (ok1, s1)" by (rule prod.exhaust)
    obtain ok2 s2 where i: "init_pacer cfg env s1 = (ok2, s2)" by (rule prod.exhaust)
    obtain ok3 s3 where c: "init_source env s2 = (ok3, s3)" by (rule prod.exhaust)
    have P0: "balanced (snd (enter_system env (begin_init cfg env ?i)))"
      by (simp add: balanced_def enter_system_def begin_init_def impl_new_def pipe_emit_def Let_def)
    then have P1: "balanced s1" by (simp add: e)
    have P2: "balanced s2" using bal.same[OF ledger_init_pacer P1, of cfg env] i by simp
    have P3: "balanced s3" using bal.same[OF ledger_init_source P2, of env] c by simp
    have G1: "slots_ok (im_gpu s1)" using im_gpu_start(1)[of env "begin_init cfg env ?i"] im_gpu_new by (simp add: e)
    have G2: "slots_ok (im_gpu s2)" using im_gpu_start(3)[of cfg env s1] G1 by (simp add: i)
    have G3: "slots_ok (im_gpu s3)" using im_gpu_start(4)[of env s2] G2 by (simp add: c)
    have ok: "pipe_ok (q\<lparr>pp_impl := Some x\<rparr>)" if "balanced x" "slots_ok (im_gpu x)" for x
      using bal_J_I[OF Rq, of "Some x" x] R(3) that by (simp add: pipe_ok_def pipe_slots_ok_def)
    have give_up: "pipe_ok p" if "balanced x" "slots_ok (im_gpu x)"
      "and_then (pipe_shutdown (ie_down env) (q\<lparr>pp_impl := Some x\<rparr>)) (\<lambda>(ok, p). Val (False, p)) = Val (b, p)" for x
      using that(3) pipe_shutdown_ok[OF _ ok[OF that(1,2)]] by (auto simp: and_then_Val)
    have h: "pipe_init cfg env pipe_new = (case (ok1, s1) of
         (False, s) \<Rightarrow> Val (False, q\<lparr>pp_impl := Some s\<rparr>)
       | (True, s) \<Rightarrow> (case init_pacer cfg env s of
         (False, s) \<Rightarrow> and_then (pipe_shutdown (ie_down env) (q\<lparr>pp_impl := Some s\<rparr>)) (\<lambda>(ok, p). Val (False, p))
       | (True, s) \<Rightarrow> (case init_source env s of
         (False, s) \<Rightarrow> and_then (pipe_shutdown (ie_down env) (q\<lparr>pp_impl := Some s\<rparr>)) (\<lambda>(ok, p). Val (False, p))
       | (True, s) \<Rightarrow> Val (True, q\<lparr>pp_impl := Some (init_subsystems cfg env s),
                              pp_router := router_callbacks (pp_router q)\<rparr>))))"
      using False unfolding pipe_init_def e0 prod.case q_def Let_def by (simp add: impl_new_def e[unfolded impl_new_def])
    have fin: "pipe_ok p" if "p = q\<lparr>pp_impl := Some (init_subsystems cfg env s3), pp_router := router_callbacks (pp_router q)\<rparr>"
    proof -
      have "bal.J p" by (rule bal.J_first[OF assms False P0])
      then show ?thesis using slots_ok_subsystems[OF G3] R(3) by (simp add: that pipe_ok_def pipe_slots_ok_def)
    qed
    show ?thesis
    proof (cases ok1)
      case False
      then show ?thesis using assms ok[OF P1 G1] unfolding h by simp
    next
      case o1: True
      show ?thesis
      proof (cases ok2)
        case False
        then show ?thesis using assms give_up[OF P2 G2] unfolding h by (simp add: o1 i)
      next
        case o2: True
        show ?thesis
        proof (cases ok3)
          case False
          then show ?thesis using assms give_up[OF P3 G3] unfolding h by (simp add: o1 i o2 c)
        next
          case True
          then show ?thesis using assms fin unfolding h by (simp add: o1 i o2 c)
        qed
      qed
    qed
  qed
qed

lemma setters_keep_shutdown:
  "pp_shutdown_done (snd (set_preview_callback n cb x)) = pp_shutdown_done x"
  "pp_shutdown_done (snd (set_scene_command_callback n cb x)) = pp_shutdown_done x"
  "pp_shutdown_done (snd (set_d3d11_frame_callback n cb env vk x)) = pp_shutdown_done x"
  "pp_shutdown_done (snd (notify_vulkan_ready v x)) = pp_shutdown_done x"
  unfolding set_preview_callback_def set_scene_command_callback_def set_d3d11_frame_callback_def
    notify_vulkan_ready_def ensure_impl_def Let_def
  by (cases "pp_impl x"; simp split: prod.split)+

lemma setters_keep_slots:
  "pipe_slots_ok x \<Longrightarrow> pipe_slots_ok (snd (set_preview_callback n cb x))"
  "pipe_slots_ok x \<Longrightarrow> pipe_slots_ok (snd (set_scene_command_callback n cb x))"
  "pipe_slots_ok x \<Longrightarrow> pipe_slots_ok (snd (set_d3d11_frame_callback n cb env vk x))"
  "pipe_slots_ok x \<Longrightarrow> pipe_slots_ok (snd (notify_vulkan_ready v x))"
proof -
  have gpu: "im_gpu (case interop_set_device (g0, tr0) of (g, tr) \<Rightarrow> y\<lparr>im_gpu := g, im_ext := tr\<rparr>) = g0" for y g0 tr0
    using slots_ok_calls(3)[of g0 tr0] by (cases "interop_set_device (g0, tr0)") simp
  have one: "pipe_slots_ok x \<Longrightarrow> pipe_slots_ok (snd (case ensure_impl n x of (p, s) \<Rightarrow> (True, p\<lparr>pp_impl := Some (f s)\<rparr>)))"
    if "\<And>s. im_gpu (f s) = im_gpu s" for f n x
    using that im_gpu_new by (auto simp: pipe_slots_ok_def ensure_impl_def split: option.splits)
  show "pipe_slots_ok (snd (set_preview_callback n cb x))" if "pipe_slots_ok x"
    unfolding set_preview_callback_def by (rule one[OF _ that]) simp
  show "pipe_slots_ok (snd (set_scene_command_callback n cb x))" if "pipe_slots_ok x"
    unfolding set_scene_command_callback_def by (rule one[OF _ that]) simp
  show "pipe_slots_ok (snd (set_d3d11_frame_callback n cb env vk x))" if "pipe_slots_ok x"
    unfolding set_d3d11_frame_callback_def Let_def by (rule one[OF _ that]) (simp add: gpu)
  show "pipe_slots_ok (snd (notify_vulkan_ready v x))" if a: "pipe_slots_ok x"
  proof -
    show "pipe_slots_ok (snd (notify_vulkan_ready v x))"
    proof (cases "pp_impl x")
      case (Some y)
      obtain g tr where r: "interop_notify_vulkan_ready (vi_width y) (vi_height y) (im_gpu y, im_ext y) = (g, tr)"
        by (rule prod.exhaust)
      then have "g = im_gpu y" using slots_ok_calls(4)[of "vi_width y" "vi_height y" "im_gpu y" "im_ext y"] by simp
      then show ?thesis using a Some r by (simp add: notify_vulkan_ready_def pipe_slots_ok_def)
    qed (use a in \<open>simp add: notify_vulkan_ready_def\<close>)
  qed
qed

lemma pipe_ok_wired:
  assumes "pipe_ok p" "\<not> pp_shutdown_done p"
  shows "pipe_ok (wireUpPipeline wenv p)"
proof -
  define ok where "ok x \<longleftrightarrow> bal.J x \<and> pipe_slots_ok x \<and> \<not> pp_shutdown_done x" for x
  have step: "ok x \<Longrightarrow> ok (snd (set_preview_callback n cb x))" "ok x \<Longrightarrow> ok (snd (set_scene_command_callback n cb x))"
    "ok x \<Longrightarrow> ok (snd (set_d3d11_frame_callback n cb env vk x))" "ok x \<Longrightarrow> ok (snd (notify_vulkan_ready v x))" for x n cb env vk v
    by (simp_all add: ok_def setters_keep_shutdown bal.J_setters setters_keep_slots)
  have "ok p" using assms by (simp add: ok_def pipe_ok_def)
  then have "ok (if we_vk_device wenv then snd (notify_vulkan_ready (we_vulkan wenv) p) else p)"
    using step(4) by simp
  then have "ok (wireUpPipeline wenv p)"
    unfolding wireUpPipeline_def Let_def by (rule step(2)[OF step(1)[OF step(3)]])
  then show ?thesis by (simp add: ok_def pipe_ok_def)
qed

section \<open>Construction and end\<close>

lemma pipe_init_started:
  assumes "pipe_init cfg env pipe_new = Val (True, p)"
  shows "\<not> pp_shutdown_done p"
  using assms
  by (auto simp: pipe_init_def ensure_impl_def pipe_new_def and_then_Val Let_def
      split: if_splits prod.splits bool.splits)

lemma constructed_window:
  assumes "window_construct cv st devices file dir engine ienv wenv = Val w"
  shows "pipe_ok (mw_pipe w)" "program_owns (mw_program w)"
proof -
  let ?b = "buildCentralWidget None (window_widgets (rules_ui_new file dir engine (dialog_new cv st devices) st))"
  let ?w = "loadWindowState cv ?b"
  let ?v = "?w\<lparr>mw_rules := restore_auto_reload (mw_rules ?w)\<rparr>"
  have v: "mw_pipe ?v = pipe_new" "mw_program ?v = program_new" "mw_thread ?v = None"
    by (simp_all add: loadWindowState_def buildCentralWidget_def tell_def pushSceneNamesToRust_def window_widgets_def)
  obtain ok u where u: "initPipeline (config_of_dialog (mw_dialog ?v)) ienv wenv ?v = Val (ok, u)"
    "w = (if ok then u else u\<lparr>mw_status := StInitFailed\<rparr>)"
    using assms by (auto simp: window_construct_def Let_def and_then_Val)
  obtain p where p: "pipe_init (config_of_dialog (mw_dialog ?v)) ienv pipe_new = Val (ok, p)"
    "mw_pipe u = (if ok then wireUpPipeline wenv p else p)" "mw_program u = program_new"
    using u(1) v by (auto simp: initPipeline_def and_then_Val startFrameThread_def Let_def split: if_splits)
  have "pipe_ok (mw_pipe u)"
    using pipe_init_ok[OF p(1)] pipe_ok_wired[of p wenv] pipe_init_started p by (cases ok) auto
  then show "pipe_ok (mw_pipe w)" "program_owns (mw_program w)"
    using p(3) program_owns_new by (simp_all add: u(2))
qed

text \<open>The preview as it is when OpenGL is initialised: with or without an optimizer and a bridge.\<close>

lemma preview_shown_ok:
  assumes "full_caps ca" "pv_opt p = o'" "sems_ok o'"
    and p: "p = preview_new\<lparr>pv_opt := o', pv_bridge := b, pv_profiler := q\<rparr>"
  shows "preview_ok (initializeGL ca p)" "pv_opt (initializeGL ca p) = o'"
proof -
  let ?q = "p\<lparr>pv_fns := all_procs\<rparr>"
  let ?s = "?q\<lparr>pv_sem_names := \<lparr>nm_next = 4, nm_live = {3, 2, 1}\<rparr>, pv_sems := [1, 2, 3]\<rparr>"
  have r: "resolve_procs ca (pv_fns p) = all_procs"
    using assms(1) by (simp add: resolve_procs_def full_caps_def all_procs_def Let_def)
  have g: "fold (gen_semaphore ca) [0, 1, 2] ?q = ?s" by (rule gen_sems_new) (simp_all add: p preview_new_def)
  have ok: "preview_ok ?s" "preview_ok ?q"
    using assms(3) tidy_three
    by (simp_all add: p preview_ok_def preview_new_def textures_ok_def names_ok_def names_new_def fences_ok_def reads_of_def)
  have i: "initializeGL ca p = (if b \<noteq> None then fold (import_semaphore ca) [0, 1, 2] (fold (gen_semaphore ca) [0, 1, 2] ?q) else ?q)"
    using assms(1) r by (simp add: initializeGL_def full_caps_def Let_def p all_procs_def del: fold.simps)
  have imp: "preview_ok (fold (import_semaphore ca) [0, 1, 2] ?s)" using ok(1) by (simp add: import_semaphore_ok)
  show "preview_ok (initializeGL ca p)" unfolding i g using imp ok(2) by simp
  have "pv_opt (import_semaphore ca n x) = pv_opt x" for n x by (simp add: import_semaphore_def note_event_def)
  then show "pv_opt (initializeGL ca p) = o'" unfolding i g by (simp add: p)
qed

lemma copy_init_False_device:
  assumes "copy_init d q ph f env st = (False, c, tr)" "co_device (fst st) = 0" "\<not> ci_shutdown_seh env"
  shows "co_device c = 0"
proof -
  have "co_device (fst (snd (copy_init_fail env x))) = 0" for x
    using assms(3) by (auto simp: copy_init_fail_def copy_shutdown_def reset_slots_def Let_def split: prod.split)
  then show ?thesis
    using assms by (auto simp: copy_init_def create_timeline_def Let_def split: option.splits if_splits prod.splits)
      (metis fst_conv snd_conv)+
qed

lemma copy_init_fresh:
  assumes "init_env_wf env" "copy_init d q ph f env (copy_opt_new, []) = (ok, st)"
  shows "if ok then copy_owns st \<and> sems_ok (Some st) else copy_live (snd st) = {#}"
proof -
  obtain c tr where st: "st = (c, tr)" by (rule prod.exhaust)
  have "copy_owns (snd (copy_init d q ph f env (copy_opt_new, [])))"
    by (rule copy_init_owns[OF assms(1)]) (simp_all add: copy_opt_new_def)
  then have o: "copy_owns (c, tr)" using assms(2) st by simp
  show ?thesis
  proof (cases ok)
    case True
    then show ?thesis using o st copy_init_sems_ok assms(2) by simp
  next
    case False
    then have "co_device c = 0"
      using copy_init_False_device[of d q ph f env "(copy_opt_new, [])" c tr] assms st
      by (simp add: init_env_wf_def copy_opt_new_def)
    then show ?thesis using o False st by (simp add: copy_owns_def)
  qed
qed

lemma studio_construct_ok:
  assumes "studio_construct cv st devices file dir engine ienv wenv env = Val s"
  shows "studio_ok (full_caps (se_caps env) \<and> init_env_wf (se_copy env)) s \<and> st_queue s = []"
proof -
  obtain w where w: "window_construct cv st devices file dir engine ienv wenv = Val w"
    using assms by (auto simp: studio_construct_def and_then_Val)
  define s0 where "s0 = \<lparr>st_window = w, st_preview = preview_new, st_optimizer = (copy_opt_new, []),
                st_optimizer_ready = False, st_queue = []\<rparr>"
  define s1 where "s1 = wire_optimizer (we_vk_device wenv) env (mw_pipe w) s0"
  define s2 where "s2 = (if mw_thread w \<noteq> None then wire_profiler env (mw_pipe w) s1 else s0)"
  have s: "s = studio_shown env s2"
    using assms w by (auto simp: studio_construct_def Let_def s0_def[symmetric] s1_def s2_def)
  have one: "\<exists>opt b. st_preview s1 = preview_new\<lparr>pv_opt := opt, pv_bridge := b\<rparr> \<and> st_window s1 = w \<and> st_queue s1 = [] \<and>
      (init_env_wf (se_copy env) \<longrightarrow> sems_ok opt \<and> optimizer_account opt (st_optimizer_ready s1) (st_optimizer s1))"
  proof (cases "we_vk_device wenv \<and> se_queue env \<noteq> 0")
    case False
    then have "s1 = s0" by (auto simp: s1_def wire_optimizer_def)
    then show ?thesis by (intro exI[of _ None]) (simp add: s0_def preview_new_def)
  next
    case True
    obtain ok opt where c: "copy_init (se_device env) (se_queue env) (se_physical env) (se_family env) (se_copy env)
        (copy_opt_new, []) = (ok, opt)" by (rule prod.exhaust)
    note f = copy_init_fresh[OF _ c]
    show ?thesis
    proof (cases ok)
      case ok: True
      have "s1 = s0\<lparr>st_optimizer := opt, st_optimizer_ready := True,
             st_preview := preview_new\<lparr>pv_opt := Some opt, pv_bridge := external_memory_bridge (mw_pipe w)\<rparr>\<rparr>"
        using True c ok by (simp add: s1_def wire_optimizer_def s0_def setBridge_def setCopyOptimizer_def)
      then show ?thesis using f ok
        by (intro exI[of _ "Some opt"] exI[of _ "external_memory_bridge (mw_pipe w)"]) (auto simp: s0_def)
    next
      case bad: False
      have "s1 = s0\<lparr>st_optimizer := opt\<rparr>" using True c bad by (simp add: s1_def wire_optimizer_def s0_def)
      then show ?thesis using f bad
        by (intro exI[of _ None]) (auto simp: s0_def preview_new_def)
    qed
  qed
  have two: "\<exists>opt b q. st_preview s2 = preview_new\<lparr>pv_opt := opt, pv_bridge := b, pv_profiler := q\<rparr> \<and> st_window s2 = w \<and>
      st_queue s2 = [] \<and>
      (init_env_wf (se_copy env) \<longrightarrow> sems_ok opt \<and> optimizer_account opt (st_optimizer_ready s2) (st_optimizer s2))"
  proof (cases "mw_thread w \<noteq> None")
    case False
    then show ?thesis by (intro exI[of _ None]) (simp add: s2_def s0_def preview_new_def)
  next
    case True
    obtain opt b where o: "st_preview s1 = preview_new\<lparr>pv_opt := opt, pv_bridge := b\<rparr>" "st_window s1 = w" "st_queue s1 = []"
      "init_env_wf (se_copy env) \<longrightarrow> sems_ok opt \<and> optimizer_account opt (st_optimizer_ready s1) (st_optimizer s1)"
      using one by blast
    show ?thesis
    proof (cases "pp_profiler (mw_pipe w)")
      case pr: True
      then have "s2 = s1\<lparr>st_preview := preview_new\<lparr>pv_opt := opt, pv_bridge := b, pv_profiler := Some (profiler_new (se_junk env))\<rparr>\<rparr>"
        using True o by (simp add: s2_def wire_profiler_def setProfiler_def)
      then show ?thesis using o
        by (intro exI[of _ opt] exI[of _ b] exI[of _ "Some (profiler_new (se_junk env))"]) simp
    next
      case pr: False
      then have "s2 = s1" using True by (simp add: s2_def wire_profiler_def)
      then show ?thesis using o by (intro exI[of _ opt] exI[of _ b] exI[of _ None]) (simp add: preview_new_def)
    qed
  qed
  obtain opt b q where p: "st_preview s2 = preview_new\<lparr>pv_opt := opt, pv_bridge := b, pv_profiler := q\<rparr>" "st_window s2 = w"
    "st_queue s2 = []"
    "init_env_wf (se_copy env) \<longrightarrow> sems_ok opt \<and> optimizer_account opt (st_optimizer_ready s2) (st_optimizer s2)"
    using two by blast
  have po: "pv_opt (st_preview s2) = opt" by (simp add: p(1))
  have "preview_ok (st_preview s) \<and> optimizer_ok s" if "full_caps (se_caps env)" "init_env_wf (se_copy env)"
    using preview_shown_ok[OF that(1) po _ p(1)] p(4) that(2) by (simp add: s studio_shown_def optimizer_ok_def)
  then show ?thesis
    using constructed_window[OF w] p(2,3) by (simp add: studio_ok_def s studio_shown_def)
qed

lemma studio_close_parts:
  "mw_pipe (st_window (studio_close env s)) = mw_pipe (st_window s)"
  "mw_program (st_window (studio_close env s)) = mw_program (st_window s)"
  "mw_thread (st_window (studio_close env s)) = (if mw_thread (st_window s) = Some True \<and> de_finished env then Some False
     else mw_thread (st_window s))"
  "st_preview (studio_close env s) = setBridge None (setCopyOptimizer None (st_preview s))"
  "st_optimizer (studio_close env s) = (let opt = (case pv_opt (st_preview s) of Some opt \<Rightarrow> opt | None \<Rightarrow> st_optimizer s) in
     if st_optimizer_ready s then copy_shutdown (de_seh env) opt else opt)"
  by (simp_all add: studio_close_def shutdown_optimizer_def detach_preview_def stopFrameThread_def saveWindowState_def
      tell_def Let_def) (cases "pv_opt (st_preview s)"; simp)

lemma studio_destroyed:
  assumes "studio_ok True s" "\<not> de_seh env" "de_del_sems env" "studio_destroy env s = Ended s'"
  shows "gl_live (pv_gl (st_preview s')) = {}" "nm_live (pv_mem_names (st_preview s')) = {}"
    "nm_live (pv_fence_names (st_preview s')) = {}" "nm_live (pv_sem_names (st_preview s')) = {}"
    "gl_live (pg_gl (mw_program (st_window s'))) = {}" "copy_live (snd (st_optimizer s')) = {#}"
    "\<exists>x. pp_impl (mw_pipe (st_window s')) = Some x \<and> balanced x \<and> system_left x"
proof -
  let ?c = "studio_close env s"
  obtain b p where p: "pipe_shutdown (de_down env) (mw_pipe (st_window s)) = Val (b, p)"
    and s': "s' = ?c\<lparr>st_window := (st_window ?c)\<lparr>mw_pipe := p, mw_program := program_destroy (mw_program (st_window ?c))\<rparr>,
        st_preview := preview_destroy (de_del_sems env) (st_preview ?c)\<rparr>"
    using assms(4)
    by (auto simp: studio_destroy_def studio_close_parts(1) Let_def split: if_splits outcome.splits prod.splits)
  note inv = studio_okD[OF assms(1)]
  have "preview_ok (st_preview ?c)"
    using inv(3) by (simp add: studio_close_parts setBridge_def setCopyOptimizer_def preview_ok_def)
  from preview_destroy_empty[OF this] assms(3)
  show "gl_live (pv_gl (st_preview s')) = {}" "nm_live (pv_mem_names (st_preview s')) = {}"
    "nm_live (pv_fence_names (st_preview s')) = {}" "nm_live (pv_sem_names (st_preview s')) = {}"
    by (simp_all add: s')
  show "gl_live (pg_gl (mw_program (st_window s'))) = {}"
    using program_destroy_live[OF inv(2)] by (simp add: s' studio_close_parts)
  have "st_optimizer s' = st_optimizer ?c" by (simp add: s')
  moreover have "copy_live (snd (st_optimizer ?c)) = {#}"
    using inv(4) assms(2) copy_shutdown_owns
    by (cases "pv_opt (st_preview s)") (auto simp: optimizer_ok_def studio_close_parts Let_def)
  ultimately show "copy_live (snd (st_optimizer s')) = {#}" by simp
  have "pipe_ok p \<and> off.J p" by (rule pipe_shutdown_ok[OF p inv(1)])
  then show "\<exists>x. pp_impl (mw_pipe (st_window s')) = Some x \<and> balanced x \<and> system_left x"
    by (auto simp: s' pipe_ok_def bal.J_def off.J_def)
qed

section \<open>A concrete studio\<close>

text \<open>A window of an empty store on the machine of \<open>demo_pipe_env\<close>.\<close>

definition demo_wire :: wire_env where
  "demo_wire = \<lparr>we_ncpus = 8, we_vulkan = None, we_preview = ie_preview demo_pipe_env, we_vk_device = True\<rparr>"

definition demo_studio_env :: studio_env where
  "demo_studio_env = \<lparr>se_device = 1, se_queue = 2, se_physical = 3, se_family = 0, se_copy = demo_copy_init_env,
     se_caps = demo_caps, se_junk = (\<lambda>i. \<lparr>ti_acquire = 0, ti_copy = 0, ti_paint = 0\<rparr>)\<rparr>"

definition demo_inputs :: "studio_input list" where
  "demo_inputs = [SWindow WStart, SPaint demo_paint, SCommand, SWindow WStop]"

definition demo_destroy :: destroy_env where
  "demo_destroy = \<lparr>de_geometry = [], de_state = [], de_finished = True, de_seh = False, de_down = demo_down,
     de_del_sems = True\<rparr>"

abbreviation demo_construct :: "studio outcome" where
  "demo_construct \<equiv> studio_construct no_parse (\<lambda>k. None) [] None False None demo_pipe_env demo_wire demo_studio_env"

abbreviation demo_studio_run :: "studio \<Rightarrow> studio outcome" where
  "demo_studio_run \<equiv> studio_run (\<lambda>n. []) (\<lambda>t. True) (\<lambda>i. []) (\<lambda>t. 7) demo_inputs"

lemma demo_pipe_starts:
  assumes "cg_fps cfg \<noteq> 0" "\<not> cg_audio cfg"
  shows "\<exists>p s. pipe_init cfg demo_pipe_env pipe_new = Val (True, p) \<and> pp_impl p = Some s \<and> \<not> ab_ready (im_bridge s)"
proof -
  let ?b = "begin_init cfg demo_pipe_env (impl_new 8)"
  obtain s1 where e: "enter_system demo_pipe_env ?b = (True, s1)"
    by (simp add: enter_system_def demo_pipe_env_def)
  obtain s2 where p: "init_pacer cfg demo_pipe_env s1 = (True, s2)"
    using assms(1) by (simp add: init_pacer_def pacer_init_def demo_pipe_env_def Let_def)
  have v: "vi_source s2 = desktop_source_new" "vi_dxgi_calls s2 = []" "vi_handle_calls s2 = []" "\<not> im_has_source s2"
    "im_bridge s2 = audio_bridge_new"
    using e p by (auto simp: enter_system_def begin_init_def init_pacer_def impl_new_def pipe_emit_def Let_def
        split: prod.splits if_splits)
  define s3 where "s3 = (set_source (demo_source, [], []) s2)\<lparr>im_has_source := True\<rparr>"
  have i: "init_source demo_pipe_env s2 = (True, s3)"
    using v by (simp add: init_source_def source_of_def s3_def demo_source_init demo_pipe_env_def)
  have n: "ie_ncpus demo_pipe_env = 8" "\<not> im_initialized (impl_new 8)" by (simp_all add: impl_new_def demo_pipe_env_def)
  have "im_bridge (init_subsystems cfg demo_pipe_env s3) = audio_bridge_new"
    using v(5) by (simp add: init_subsystems_bridge[OF assms(2)] s3_def set_source_def)
  moreover have "pipe_init cfg demo_pipe_env pipe_new = Val (True, \<lparr>pp_impl = Some (init_subsystems cfg demo_pipe_env s3),
     pp_router = router_callbacks router_new, pp_profiler = True, pp_shutdown_done = False\<rparr>)"
    using e p i n assms(1) by (simp add: pipe_init_def pipe_new_def ensure_impl_def Let_def)
  ultimately show ?thesis by (simp add: audio_bridge_new_def)
qed

definition quiet_audio :: "pipe \<Rightarrow> bool" where
  "quiet_audio p \<longleftrightarrow> (case pp_impl p of None \<Rightarrow> False | Some s \<Rightarrow> \<not> ab_ready (im_bridge s))"

lemma quiet_wired: "quiet_audio p \<Longrightarrow> quiet_audio (wireUpPipeline wenv p)"
proof -
  have b: "im_bridge (on_source_dxgi f s) = im_bridge s" for f s
    by (simp add: on_source_dxgi_def set_dxgi_def split: option.split)
  have step: "quiet_audio x \<Longrightarrow> quiet_audio (snd (set_preview_callback n cb x))"
    "quiet_audio x \<Longrightarrow> quiet_audio (snd (set_scene_command_callback n cb x))"
    "quiet_audio x \<Longrightarrow> quiet_audio (snd (set_d3d11_frame_callback n cb env vk x))"
    "quiet_audio x \<Longrightarrow> quiet_audio (snd (notify_vulkan_ready v x))" for x n cb env vk v
    by (cases "pp_impl x"; simp add: quiet_audio_def set_preview_callback_def set_scene_command_callback_def
        set_d3d11_frame_callback_def notify_vulkan_ready_def ensure_impl_def Let_def b split: prod.split)+
  assume "quiet_audio p"
  then have "quiet_audio (if we_vk_device wenv then snd (notify_vulkan_ready (we_vulkan wenv) p) else p)"
    using step(4) by simp
  then show ?thesis unfolding wireUpPipeline_def Let_def by (rule step(2)[OF step(1)[OF step(3)]])
qed

lemma quiet_shutdown: "quiet_audio p \<Longrightarrow> \<exists>b p'. pipe_shutdown env p = Val (b, p')"
  using shutdown_returns[of _ env] by (fastforce simp: quiet_audio_def pipe_shutdown_def split: option.splits)

lemma demo_constructs: "\<exists>s. demo_construct = Val s \<and> mw_thread (st_window s) = Some True \<and> quiet_audio (mw_pipe (st_window s))"
proof -
  let ?b = "buildCentralWidget None (window_widgets (rules_ui_new None False None (dialog_new no_parse (\<lambda>k. None) []) (\<lambda>k. None)))"
  let ?w = "loadWindowState no_parse ?b"
  define v where "v = ?w\<lparr>mw_rules := restore_auto_reload (mw_rules ?w)\<rparr>"
  have v: "mw_pipe v = pipe_new" "mw_thread v = None"
    by (simp_all add: v_def loadWindowState_def buildCentralWidget_def tell_def pushSceneNamesToRust_def window_widgets_def)
  have d: "sd_fps_index (mw_dialog v) = 1 \<and> \<not> sd_audio (mw_dialog v)"
    by (simp add: v_def loadWindowState_def buildCentralWidget_def tell_def pushSceneNamesToRust_def window_widgets_def
        rules_ui_new_def restore_auto_reload_def dialog_new_def load_audio_def load_output_def load_video_def
        dialog_widgets_def onModeChanged_def set_protocol_index_def set_port_spin_def set_bitrate_spin_def
        stored_def to_int_def to_bool_def to_text_def fps_items_def Let_def)
  then have "cg_fps (config_of_dialog (mw_dialog v)) \<noteq> 0" "\<not> cg_audio (config_of_dialog (mw_dialog v))"
    by (simp_all add: config_of_dialog_def videoFps_def fps_data_def fps_items_def)
  from demo_pipe_starts[OF this] obtain p where p: "pipe_init (config_of_dialog (mw_dialog v)) demo_pipe_env pipe_new = Val (True, p)"
    "quiet_audio p" by (auto simp: quiet_audio_def)
  obtain w where "initPipeline (config_of_dialog (mw_dialog v)) demo_pipe_env demo_wire v = Val (True, w)"
    "mw_thread w = Some True" "mw_pipe w = wireUpPipeline demo_wire p"
    using p(1) v by (simp add: initPipeline_def startFrameThread_def Let_def)
  then have "window_construct no_parse (\<lambda>k. None) [] None False None demo_pipe_env demo_wire = Val w"
    by (simp add: window_construct_def v_def Let_def)
  moreover have "st_window (studio_shown e (wire_profiler e q (wire_optimizer vk e q x))) = st_window x" for e q vk x
    by (simp add: studio_shown_def wire_profiler_def wire_optimizer_def split: prod.split bool.split)
  moreover have "\<exists>y. mw_thread w = Some y" using \<open>mw_thread w = Some True\<close> by blast
  ultimately show ?thesis
    using \<open>mw_thread w = Some True\<close> \<open>mw_pipe w = _\<close> quiet_wired[OF p(2)]
    by (simp add: studio_construct_def Let_def del: not_None_eq)
qed

lemma demo_studio:
  obtains s0 s s' where "demo_construct = Val s0" "demo_studio_run s0 = Val s" "studio_destroy demo_destroy s = Ended s'"
    "mw_thread (st_window s) = Some True"
proof -
  obtain s0 where s0: "demo_construct = Val s0" "mw_thread (st_window s0) = Some True" "quiet_audio (mw_pipe (st_window s0))"
    using demo_constructs by blast
  have q: "st_queue s0 = []" using studio_construct_ok[OF s0(1)] by simp
  let ?step = "window_step (\<lambda>n. []) (\<lambda>t. True) (\<lambda>i. [])"
  have quiet: "quiet_audio (snd (on_impl f p))" if "quiet_audio p" "\<And>x. im_bridge (snd (f x)) = im_bridge x" for f p
  proof (cases "pp_impl p")
    case (Some x)
    then show ?thesis using that by (cases "f x") (metis (no_types, lifting) on_impl_def option.simps(5) pipe.select_convs(1)
      pipe.surjective pipe.update_convs(1) prod.case quiet_audio_def snd_conv)
  qed (use that in \<open>simp add: quiet_audio_def\<close>)
  have keeps: "mw_thread (?step x w) = mw_thread w \<and> quiet_audio (mw_pipe (?step x w))"
    if "x = WStart \<or> x = WStop" "quiet_audio (mw_pipe w)" for x w
    using that quiet[OF that(2), of impl_start_stream] quiet[OF that(2), of impl_stop_stream]
    by (auto simp: window_step_def startStream_def stopStream_def start_stream_def stop_stream_def tell_def
        impl_start_stream_def impl_stop_stream_def Let_def split: prod.split bool.split)
  obtain s where s: "demo_studio_run s0 = Val s" "st_window s = ?step WStop (?step WStart (st_window s0))"
    using q by (simp add: demo_inputs_def studio_step_def take_command_def)
  have "mw_thread (st_window s) = Some True \<and> quiet_audio (mw_pipe (st_window s))"
    unfolding s(2) using keeps[of WStart "st_window s0"] keeps[of WStop "?step WStart (st_window s0)"] s0 by simp
  moreover obtain b p where "pipe_shutdown (de_down demo_destroy) (mw_pipe (st_window s)) = Val (b, p)"
    using quiet_shutdown calculation by blast
  ultimately have "\<exists>s'. studio_destroy demo_destroy s = Ended s'" "mw_thread (st_window s) = Some True"
    by (simp_all add: studio_destroy_def studio_close_parts demo_destroy_def Let_def)
  then show ?thesis using that s0(1) s(1) by blast
qed

lemma demo_full: "full_caps (se_caps demo_studio_env) \<and> init_env_wf (se_copy demo_studio_env)"
  by (simp add: demo_studio_env_def demo_caps_def full_caps_def demo_copy_init_env_def init_env_wf_def)

section \<open>Properties\<close>

text \<open>C4: The whole program is a run of its parts: whatever steps are taken after the construction, in
  whatever order, what the window has become is the result of a run of the window's own machine from
  its constructed state, and the scene commands that run handled, followed by those still queued,
  are exactly the commands the pipeline called back with, in their order: none is lost, invented,
  repeated or overtaken on the way from the frame thread to the window.\<close>

theorem studio_refines_the_window:
  "case studio_construct cv st devices file dir engine ienv wenv env of
     Val s0 \<Rightarrow> (case studio_run number valid resource addr is s0 of
       Val s \<Rightarrow> (\<exists>ws. st_window s = window_run number valid resource ws (st_window s0) \<and>
         commands_in ws @ st_queue s = scenes_of (new_events (mw_pipe (st_window s0)) (mw_pipe (st_window s))))
     | _ \<Rightarrow> True)
   | _ \<Rightarrow> True"
proof (cases "studio_construct cv st devices file dir engine ienv wenv env")
  case c: (Val s0)
  show ?thesis
  proof (cases "studio_run number valid resource addr is s0")
    case r: (Val s)
    have "fair_move (full_caps (se_caps env) \<and> init_env_wf (se_copy env)) number valid resource s0 s"
      using studio_run_fair[OF r] studio_construct_ok[OF c] by blast
    then show ?thesis using studio_construct_ok[OF c] by (simp add: c r fair_move_def)
  qed (simp_all add: c)
qed simp_all





text \<open>The destructor waits five seconds for the frame thread and then goes on: exactly when a running
  thread has not ended by then, the pipeline is destroyed under its loop.\<close>

theorem pipeline_destroyed_under_the_loop:
  "(studio_destroy env s = UsedAfterFree) = (mw_thread (st_window s) = Some True \<and> \<not> de_finished env)"
  by (auto simp: studio_destroy_def studio_close_parts Let_def split: outcome.split)

end
