(* ===== verification/Spec2Isabelle.thy ===== *)
theory Spec2Isabelle
  imports AudioRing CommandRouter OutputSubsystem Nvenc GpuInterop DesktopSource Metrics AudioBridge Wasapi PipeProps
    MainWindow FrameProfiler PreviewWidget ShaderCache GpuQueryTiming Headless
    AudioDevices RenderShell SehLeaves Abi Studio
begin

text \<open>
  A verification development of the C++ core of reji-studio, a live production switcher: it captures
  the desktop, encodes every frame with NVENC, captures and encodes sound, sends both over SRT or
  RTMP, and shows the picture on a preview and a program monitor, while an orchestrator written in
  Rust watches the metrics and sends healing commands.

  \<^bold>\<open>The program.\<close> \<open>src/src/ui/main.cpp\<close> starts the Vulkan initialiser and the main window
  (\<open>src/src/ui\<close>). The window owns the \<open>Pipeline\<close> (\<open>src/src/pipeline/pipeline.cpp\<close>), starts it,
  connects its three callbacks to the monitors and to itself, and runs \<open>Pipeline::run_frame\<close> in a
  thread of its own. A frame drains the commands of the orchestrator and of the action thread
  (\<open>CommandRouter\<close>), captures (\<open>DesktopSource\<close> over desktop duplication or WGC), encodes
  (\<open>EncodeSubsystem\<close>), sends (\<open>OutputSubsystem\<close>), drains the sound (\<open>AudioEncodeBridge\<close> over a
  lock-free ring filled by the WASAPI thread), hands the picture to the monitors (shared images of
  \<open>ExternalMemoryBridge\<close>, or mapped pixels), reports the metrics and waits for its deadline
  (\<open>FramePacer\<close>). The preview copies the shared image with \<open>GpuCopyOptimizer\<close> in Vulkan and draws it
  in OpenGL.

  \<^bold>\<open>What stands where.\<close> Paths are under \<open>src/src\<close>; each theory names its functions in its own header.

  \<^item> Shared: \<open>Prelude\<close> (types, hints, words, outcomes), \<open>Resources\<close> (what a trace of calls leaves
    live), \<open>Steps\<close> (locales \<open>kept_by_steps\<close>, \<open>always_kept\<close>: an invariant of a machine over its runs),
    \<open>Fifo\<close> (locale \<open>bounded_fifo\<close>), \<open>Float32\<close> (single precision as rounded rationals, with error
    bounds), \<open>GlObjects\<close> (OpenGL names, textures and pixels).
  \<^item> Queues and policies: \<open>AudioRing\<close> (\<open>pipeline/audio/audio_ring.h\<close>: atomic actions of the two
    threads and their interleavings), \<open>CommandRouter\<close> (\<open>command_router.cpp\<close>), \<open>Policies\<close>
    (\<open>bitrate_policy.h\<close>, \<open>frame_drop_policy.h\<close>, \<open>frame_repeat_policy.h\<close>, \<open>reinit_trigger_policy.h\<close>), \<open>Timing\<close> (\<open>frame_pacer\<close>,
    \<open>send_diag\<close>), \<open>Metrics\<close> (\<open>metrics_collector\<close>, \<open>metrics_subsystem\<close>, \<open>seh_filter\<close>), \<open>SehLeaves\<close> (the
    functions with an exception handler around one foreign call, in all components).
  \<^item> Output: \<open>SrtOutput\<close> (\<open>output/srt_output.cpp\<close>), \<open>OutputSubsystem\<close> (\<open>output_subsystem.cpp\<close>, the
    transports; locale \<open>transport\<close>).
  \<^item> Video: \<open>Nvenc\<close> (\<open>encode\<close>), \<open>DxgiCapture\<close>, \<open>DesktopSource\<close> (\<open>capture\<close>; locale \<open>frame_source\<close>),
    \<open>GpuTransfer\<close> (\<open>gpu_resource_manager.cpp\<close>), \<open>GpuInterop\<close> (\<open>gpu_interop_subsystem.cpp\<close>,
    \<open>gpu/external_memory_bridge\<close>), \<open>CopyOptimizer\<close> (\<open>copy_optimizer.cpp\<close>), \<open>Recovery\<close>
    (\<open>recovery_coordinator.cpp\<close>).
  \<^item> Sound: \<open>Samples\<close> (sample formats), \<open>AacEncoder\<close>, \<open>AudioBridge\<close>, \<open>Wasapi\<close> (\<open>audio\<close>).
  \<^item> Pipeline: \<open>FrameLoop\<close> (\<open>Pipeline::run_frame\<close>), \<open>FrameFacts\<close> (what a frame can change),
    \<open>Pipeline\<close> (start, shutdown, public operations, the other threads), \<open>PipeRun\<close> (operations as one
    machine; locale \<open>pipe_ledger\<close>: what a property of the bookkeeping must survive to hold in every
    run), \<open>PipeProps\<close> (its instances: drops, system resources, bitrate).
  \<^item> User interface: \<open>UiPolicies\<close> (\<open>profile_advisor\<close>, \<open>render_capability\<close>, \<open>vulkan_initializer\<close>),
    \<open>SettingsDialog\<close>, \<open>RulesFile\<close> (editing and watching \<open>rules.json\<close>), \<open>HealingOverlay\<close>,
    \<open>ProgramWidget\<close>, \<open>FrameProfiler\<close>, \<open>PreviewWidget\<close>, \<open>ShaderCache\<close>, \<open>GpuQueryTiming\<close>,
    \<open>AudioDevices\<close>, \<open>RenderShell\<close> (\<open>vulkan_render_path\<close>, \<open>qrhi_window_wrapper\<close>), \<open>Headless\<close>
    (\<open>main.cpp\<close>), \<open>MainWindow\<close> (\<open>main_window.cpp\<close>, \<open>rust_bridge.cpp\<close>).
  \<^item> Composition: \<open>Abi\<close> (\<open>ffi/sizeof_check.cpp\<close>: the memory layout of the structs shared with Rust,
    computed by the rule of C, and their bytes), \<open>Studio\<close> (window, pipeline, preview, optimizer and the
    queue of scene commands between the threads, from construction to destruction).

  \<^bold>\<open>How the code is modelled.\<close> State is a record with the fields the code has, an operation a function
  on it; what Windows, Direct3D, Vulkan, OpenGL, libsrt, Media Foundation, Qt, the Zig libraries and the
  orchestrator answer is an argument (a record \<open>..._env\<close>), so every theorem holds for all their answers.
  Calls that create and release are a trace, and "live" is what a trace has created and not
  released. Errors are values; a call through a null pointer and a loop that does not end are
  constructors of \<open>outcome\<close>. Machine integers are words with their wrap-around, \<open>float\<close> is rounded
  rational arithmetic, \<open>int64_t\<close> clocks are integers.
  Threads appear as interleavings: of atomic actions for the ring, of whole operations for the
  router, the pipeline and the studio, whose fields are guarded by locks or atomics in the code.

  \<^bold>\<open>What is shown.\<close> The numbered claims are the properties; the other lemmas carry them.
  Rings and queues lose and repeat nothing; the drops reported are the drops; the bitrate
  stays between its floor and the configured one; every frame is encoded once; buffers, handles,
  frames, textures, semaphores and system resources are given back on every path; GPU images are
  never overwritten while they are read and their layouts are right; a faulting call ends the process only
  after three faults of its own; reports, percentiles and
  percentages are what their names say; the window stays well typed and agrees with the orchestrator
  and the store after OK; rule files are installed whole or not at all. The claims of \<open>Studio\<close> lift
  those of the window, the preview and the pipeline to the composed program. Where the code
  does not do what it says, a theorem states what it does.

  \<^bold>\<open>Interfaces.\<close> \<open>bounded_fifo\<close> is provided by the audio ring and the command ring; \<open>transport\<close> by RTMP,
  SRT and the dispatch between them; \<open>frame_source\<close> by the desktop source; \<open>pipe_ledger\<close> by the drops,
  the system resources, the bitrate (for each configuration), the released state and the growth of the
  trace; \<open>always_kept\<close> by the window, the overlay, the dialog, the rules file and the program monitor,
  \<open>kept_by_steps\<close> by the preview.

  \<^bold>\<open>Bounds and fuel.\<close> No fuel is used. A loop over data is structural recursion. A loop that waits for a
  device consumes a list of the device's answers, one per turn, and has the value \<open>None\<close> (in the frame
  loop \<open>Spinning\<close>) when the list ends before the loop does: a list that is long enough is an
  execution that ends, and every list is allowed. That the capture spin ends is claimed: after 4096
  polls, the first reading of the clock at 100 ms or later ends it. The drain of the command ring is
  a \<open>partial_function (option)\<close> and proved to return; a run of a machine is a list of steps.

  \<^bold>\<open>Not modelled.\<close> The Rust orchestrator (\<open>orchestrator\<close>), the Zig halves of the bridge, of Vulkan and of
  RTMP, and the vendored \<open>rtmp/compat/happy-eyeballs.h\<close>: other languages or foreign code, whose
  answers are arguments. Shaders, Qt's layout, menus, styles and message texts, the bytes Qt saves for
  the window geometry: nothing depends on them. \<open>resource_init\<close>, log output, the mocks and stubs of
  other platforms, tests. Structured exceptions are modelled where a handler of the program changes
  what happens next, not inside every leaf call. Two threads inside one operation are modelled only for the
  audio ring; elsewhere an operation is one step.
\<close>

end
